(* ===== verification/Prelude.thy ===== *)
theory Prelude
  imports
    Main
    "HOL-Library.Char_ord"
    "HOL-Library.List_Lexorder"
    "HOL-Library.Product_Lexorder"
begin

text \<open>
  Shared vocabulary of the development: the types that name the model's values, the result type of
  code that may throw, and the relational operations that the SQL texts of the program are
  translated to. A table is the list of its rows; its primary key is a projection of the row.
  Every statement of the program becomes one of the functions below, applied to the predicate, the
  key and the assignment that the statement's text spells out. Timestamps, counters and primary keys
  are JavaScript numbers that the program keeps below \<open>2 ^ 53\<close>, where they are exact integers, and
  are modelled as integers.
\<close>

named_theorems sql \<open>facts about the relational operations\<close>

type_synonym 'a result = "string + 'a"
type_synonym millis = int
type_synonym pk = int
type_synonym blob = "int list"

text \<open>\<open>throw new Error(message)\<close> and the sequencing of calls that may throw.\<close>

definition throw :: "string \<Rightarrow> 'a result" where
  "throw message = Inl message"

definition bind_result :: "'e + 'a \<Rightarrow> ('a \<Rightarrow> 'e + 'b) \<Rightarrow> 'e + 'b" where
  "bind_result m f = (case m of Inl e \<Rightarrow> Inl e | Inr x \<Rightarrow> f x)"

lemma bind_result_simps [simp]:
  "bind_result (Inl e) f = Inl e"
  "bind_result (Inr x) f = f x"
  by (simp_all add: bind_result_def)

lemma bind_result_InrE:
  assumes "bind_result m f = Inr y"
  obtains x where "m = Inr x" and "f x = Inr y"
  using assms by (cases m) auto

section \<open>Number helpers of the language\<close>

text \<open>\<open>Number.isSafeInteger\<close> on an integer, and \<open>Math.round (a / b)\<close> for integers with \<open>0 < b\<close>,
  which rounds halves up.\<close>

definition max_safe_integer :: int where
  "max_safe_integer = 9007199254740991"

definition is_safe_integer :: "int \<Rightarrow> bool" where
  "is_safe_integer n \<longleftrightarrow> - max_safe_integer \<le> n \<and> n \<le> max_safe_integer"

definition round_div :: "int \<Rightarrow> int \<Rightarrow> int" where
  "round_div a b = (2 * a + b) div (2 * b)"

lemma round_div_bounds:
  assumes "0 < b" "0 \<le> a" "a \<le> n * b"
  shows "0 \<le> round_div a b \<and> round_div a b \<le> n"
proof -
  have "(2 * a + b) div (2 * b) \<le> (n * (2 * b) + b) div (2 * b)"
    using assms by (intro zdiv_mono1) (auto simp: algebra_simps)
  also have "\<dots> = n + b div (2 * b)" using assms by simp
  also have "b div (2 * b) = 0" using assms by simp
  finally show ?thesis
    using assms by (simp add: round_div_def pos_imp_zdiv_nonneg_iff)
qed

lemma round_div_scale [simp]:
  assumes "0 < b"
  shows "round_div (n * b) b = n"
proof -
  have "(b + n * (2 * b)) div (2 * b) = n + b div (2 * b)"
    using assms by (intro div_mult_self1) simp
  also have "b div (2 * b) = 0" using assms by simp
  finally show ?thesis by (simp add: round_div_def ac_simps)
qed

section \<open>Statements\<close>

text \<open>\<open>UPDATE t SET .. WHERE p\<close> with the number of rows it changed (\<open>meta.changes\<close>), and
  \<open>DELETE FROM t WHERE p\<close>.\<close>

definition update_where :: "('r \<Rightarrow> bool) \<Rightarrow> ('r \<Rightarrow> 'r) \<Rightarrow> 'r list \<Rightarrow> 'r list" where
  "update_where p f t = map (\<lambda>r. if p r then f r else r) t"

definition count_where :: "('r \<Rightarrow> bool) \<Rightarrow> 'r list \<Rightarrow> nat" where
  "count_where p t = length (filter p t)"

definition delete_where :: "('r \<Rightarrow> bool) \<Rightarrow> 'r list \<Rightarrow> 'r list" where
  "delete_where p t = filter (\<lambda>r. \<not> p r) t"

text \<open>\<open>SELECT .. WHERE p ORDER BY o LIMIT n\<close>.\<close>

definition select_limit ::
  "('r \<Rightarrow> bool) \<Rightarrow> ('r \<Rightarrow> 'o::linorder) \<Rightarrow> nat \<Rightarrow> 'r list \<Rightarrow> 'r list" where
  "select_limit p o_by n t = take n (sort_key o_by (filter p t))"

text \<open>\<open>DELETE FROM t WHERE key IN (SELECT key FROM t WHERE p ORDER BY o LIMIT n)\<close>, with the number
  of rows removed.\<close>

definition delete_limit ::
  "('r \<Rightarrow> 'k) \<Rightarrow> ('r \<Rightarrow> bool) \<Rightarrow> ('r \<Rightarrow> 'o::linorder) \<Rightarrow> nat \<Rightarrow> 'r list \<Rightarrow> 'r list \<times> nat" where
  "delete_limit key p o_by n t =
     (let doomed = map key (select_limit p o_by n t)
      in (delete_where (\<lambda>r. key r \<in> set doomed) t, count_where (\<lambda>r. key r \<in> set doomed) t))"

text \<open>\<open>INSERT OR IGNORE\<close>, and \<open>INSERT .. ON CONFLICT(key) DO UPDATE SET .. WHERE guard\<close>.\<close>

definition has_key :: "('r \<Rightarrow> 'k) \<Rightarrow> 'k \<Rightarrow> 'r list \<Rightarrow> bool" where
  "has_key key k t \<longleftrightarrow> k \<in> set (map key t)"

definition insert_or_ignore :: "('r \<Rightarrow> 'k) \<Rightarrow> 'r \<Rightarrow> 'r list \<Rightarrow> 'r list" where
  "insert_or_ignore key r t = (if has_key key (key r) t then t else t @ [r])"

definition upsert ::
  "('r \<Rightarrow> 'k) \<Rightarrow> 'r \<Rightarrow> ('r \<Rightarrow> bool) \<Rightarrow> ('r \<Rightarrow> 'r) \<Rightarrow> 'r list \<Rightarrow> 'r list" where
  "upsert key r guard assign t =
     (if has_key key (key r) t
      then update_where (\<lambda>old. key old = key r \<and> guard old) assign t
      else t @ [r])"

text \<open>The same statement with \<open>RETURNING\<close>: the row it inserted or updated, none when the guard held
  it back.\<close>

definition upsert_returning ::
  "('r \<Rightarrow> 'k) \<Rightarrow> 'r \<Rightarrow> ('r \<Rightarrow> bool) \<Rightarrow> ('r \<Rightarrow> 'r) \<Rightarrow> 'r list \<Rightarrow> 'r list \<times> 'r option" where
  "upsert_returning key r guard assign t =
     (upsert key r guard assign t,
      case find (\<lambda>old. key old = key r) t of
        None \<Rightarrow> Some r
      | Some old \<Rightarrow> if guard old then Some (assign old) else None)"

text \<open>The unique-key constraint of a table.\<close>

definition keyed :: "('r \<Rightarrow> 'k) \<Rightarrow> 'r list \<Rightarrow> bool" where
  "keyed key t \<longleftrightarrow> distinct (map key t)"

text \<open>\<open>.first()\<close> on the rows of one key.\<close>

definition row_of :: "('r \<Rightarrow> 'k) \<Rightarrow> 'k \<Rightarrow> 'r list \<Rightarrow> 'r option" where
  "row_of key k t = find (\<lambda>r. key r = k) t"

section \<open>Facts about the statements\<close>

lemma length_update_where [simp, sql]: "length (update_where p f t) = length t"
  by (simp add: update_where_def)

lemma update_where_Nil [simp]: "update_where p f [] = []"
  and update_where_Cons [simp]:
    "update_where p f (r # t) = (if p r then f r else r) # update_where p f t"
  by (simp_all add: update_where_def)

lemma set_update_where [sql]:
  "set (update_where p f t) = f ` {r \<in> set t. p r} \<union> {r \<in> set t. \<not> p r}"
  by (auto simp: update_where_def)

lemma in_update_where:
  assumes "r \<in> set (update_where p f t)"
  obtains x where "x \<in> set t" "r = (if p x then f x else x)"
  using assms by (auto simp: update_where_def)

lemma update_where_none [sql]: "(\<And>r. r \<in> set t \<Longrightarrow> \<not> p r) \<Longrightarrow> update_where p f t = t"
  by (induction t) auto

lemma update_where_idem [sql]:
  "(\<And>r. p r \<Longrightarrow> f (f r) = f r) \<Longrightarrow> update_where p f (update_where p f t) = update_where p f t"
  by (induction t) auto

lemma delete_where_idem [sql]: "delete_where p (delete_where p t) = delete_where p t"
  by (simp add: delete_where_def)

lemma delete_update_idem [sql]:
  "(\<And>r. p r \<Longrightarrow> q (f r) = q r) \<Longrightarrow>
    delete_where q (update_where p f (delete_where q t)) = update_where p f (delete_where q t)"
  by (induction t) (auto simp: delete_where_def)

lemma map_update_where [sql]:
  "(\<And>r. r \<in> set t \<Longrightarrow> p r \<Longrightarrow> key (f r) = key r) \<Longrightarrow> map key (update_where p f t) = map key t"
  by (induction t) auto

lemma keyed_update_where [sql]:
  "keyed key t \<Longrightarrow> (\<And>r. r \<in> set t \<Longrightarrow> p r \<Longrightarrow> key (f r) = key r) \<Longrightarrow> keyed key (update_where p f t)"
  by (simp add: keyed_def map_update_where)

lemma keyed_delete_where [sql]: "keyed key t \<Longrightarrow> keyed key (delete_where p t)"
  by (simp add: keyed_def delete_where_def distinct_map_filter)

lemma keyed_insert_or_ignore [sql]: "keyed key t \<Longrightarrow> keyed key (insert_or_ignore key r t)"
  by (auto simp: keyed_def insert_or_ignore_def has_key_def)

lemma keyed_upsert [sql]:
  "keyed key t \<Longrightarrow> (\<And>old. key old = key r \<Longrightarrow> key (assign old) = key old) \<Longrightarrow>
    keyed key (upsert key r guard assign t)"
  unfolding upsert_def
  using keyed_update_where [of key t "\<lambda>old. key old = key r \<and> guard old" assign]
  by (auto simp: keyed_def has_key_def)

lemma keyed_unique:
  "keyed key t \<Longrightarrow> r \<in> set t \<Longrightarrow> r' \<in> set t \<Longrightarrow> key r = key r' \<Longrightarrow> r = r'"
  by (auto simp: keyed_def distinct_map dest: inj_onD)

lemma keyed_Cons [simp]: "keyed key (r # t) \<longleftrightarrow> \<not> has_key key (key r) t \<and> keyed key t"
  by (auto simp: keyed_def has_key_def)

lemma keyed_Nil [simp]: "keyed key []"
  by (simp add: keyed_def)

lemma has_key_simps [simp]:
  "has_key key k [] = False"
  "has_key key k (r # t) \<longleftrightarrow> key r = k \<or> has_key key k t"
  by (auto simp: has_key_def)

lemma row_of_simps [simp]:
  "row_of key k [] = None"
  "row_of key k (r # t) = (if key r = k then Some r else row_of key k t)"
  by (simp_all add: row_of_def)

lemma row_of_append [sql]:
  "row_of key k (s @ t) = (case row_of key k s of None \<Rightarrow> row_of key k t | Some r \<Rightarrow> Some r)"
  by (induction s) auto

lemma row_of_None_iff [sql]: "row_of key k t = None \<longleftrightarrow> \<not> has_key key k t"
  by (induction t) auto

lemma row_of_SomeD: "row_of key k t = Some r \<Longrightarrow> r \<in> set t \<and> key r = k"
  by (induction t) (auto split: if_splits)

lemma row_of_keyed: "keyed key t \<Longrightarrow> r \<in> set t \<Longrightarrow> row_of key (key r) t = Some r"
  by (induction t) (auto simp: has_key_def)

lemma row_of_keyed_iff: "keyed key t \<Longrightarrow> row_of key k t = Some r \<longleftrightarrow> r \<in> set t \<and> key r = k"
  by (auto dest: row_of_SomeD row_of_keyed)

lemma row_of_update_where [sql]:
  assumes "\<And>r. p r \<Longrightarrow> key (f r) = key r"
  shows "row_of key k (update_where p f t) =
    map_option (\<lambda>r. if p r then f r else r)
      (row_of key k t)"
  using assms by (induction t) auto

lemma row_of_upsert [sql]:
  assumes "\<And>old. key old = key r \<Longrightarrow> key (assign old) = key old"
  shows "row_of key k (upsert key r guard assign t) =
    (if k = key r
     then (case row_of key k t of
             None \<Rightarrow> Some r
           | Some old \<Rightarrow> Some (if guard old then assign old else old))
     else row_of key k t)"
proof (cases "has_key key (key r) t")
  case True
  have "row_of key k (update_where (\<lambda>old. key old = key r \<and> guard old) assign t) =
      map_option (\<lambda>old. if key old = key r \<and> guard old then assign old else old) (row_of key k t)"
    using assms by (intro row_of_update_where) auto
  with True show ?thesis
    using row_of_None_iff [of key "key r" t]
    by (cases "row_of key k t") (auto simp: upsert_def dest: row_of_SomeD)
next
  case False
  then have "row_of key (key r) t = None" by (simp add: row_of_None_iff)
  with False show ?thesis
    by (cases "row_of key k t") (auto simp: upsert_def row_of_append)
qed

lemma upsert_returning_eq [sql]:
  "upsert_returning key r guard assign t =
    (upsert key r guard assign t,
     case row_of key (key r) t of
       None \<Rightarrow> Some r
     | Some old \<Rightarrow> if guard old then Some (assign old) else None)"
  by (simp add: upsert_returning_def row_of_def)

lemma upsert_refused [sql]:
  assumes "keyed key t" "row_of key (key r) t = Some old" "\<not> guard old"
  shows "upsert key r guard assign t = t"
proof -
  have "old \<in> set t" "key old = key r" using row_of_SomeD [OF assms(2)] by auto
  have "has_key key (key r) t" using row_of_None_iff [of key "key r" t] assms(2) by simp
  moreover have "update_where (\<lambda>x. key x = key r \<and> guard x) assign t = t"
    using assms \<open>old \<in> set t\<close> \<open>key old = key r\<close>
    by (intro update_where_none) (metis keyed_unique)
  ultimately show ?thesis by (simp add: upsert_def)
qed

lemma row_of_insert_or_ignore [sql]:
  "row_of key k (insert_or_ignore key r t) =
    (if k = key r \<and> row_of key k t = None then Some r else row_of key k t)"
  using row_of_None_iff [of key "key r" t]
  by (cases "row_of key k t") (auto simp: insert_or_ignore_def row_of_append)

lemma count_where_zero [sql]: "count_where p t = 0 \<longleftrightarrow> (\<forall>r \<in> set t. \<not> p r)"
  by (auto simp: count_where_def filter_empty_conv)

lemma count_where_key [sql]:
  "keyed key t \<Longrightarrow> count_where (\<lambda>r. key r = k \<and> p r) t \<le> 1"
proof (induction t)
  case (Cons a t)
  have "filter (\<lambda>r. key r = key a \<and> p r) t = []"
    using Cons.prems by (auto simp: has_key_def filter_empty_conv image_iff)
  with Cons show ?case by (auto simp: count_where_def)
qed (simp add: count_where_def)

section \<open>Loops over batches\<close>

text \<open>\<open>for (offset = 0; offset < xs.length; offset += n) batch = xs.slice(offset, offset + n)\<close>.\<close>

fun chunks :: "nat \<Rightarrow> 'a list \<Rightarrow> 'a list list" where
  "chunks n xs = (if n = 0 \<or> xs = [] then [] else take n xs # chunks n (drop n xs))"

declare chunks.simps [simp del]

lemma concat_chunks [simp]: "0 < n \<Longrightarrow> concat (chunks n xs) = xs"
  by (induction n xs rule: chunks.induct) (subst chunks.simps, auto)

lemma chunk_size: "c \<in> set (chunks n xs) \<Longrightarrow> c \<noteq> [] \<and> length c \<le> n"
  by (induction n xs rule: chunks.induct) (subst (asm) (2) chunks.simps, auto split: if_splits)

lemma set_chunks: "0 < n \<Longrightarrow> \<Union> (set ` set (chunks n xs)) = set xs"
  by (metis concat_chunks set_concat)

section \<open>Bounded deletion\<close>

lemma set_select_limit: "set (select_limit p o_by n t) \<subseteq> {r \<in> set t. p r}"
  unfolding select_limit_def using set_take_subset by fastforce

lemma length_select_limit [simp]:
  "length (select_limit p o_by n t) = min n (length (filter p t))"
  by (simp add: select_limit_def)

lemma select_limit_oldest:
  assumes "r \<in> set (select_limit p o_by n t)"
    and "r' \<in> set t" "p r'" "r' \<notin> set (select_limit p o_by n t)"
  shows "o_by r \<le> o_by r'"
proof -
  let ?s = "sort_key o_by (filter p t)"
  have "r' \<in> set ?s" using assms by simp
  moreover have "set ?s = set (take n ?s) \<union> set (drop n ?s)"
    by (metis append_take_drop_id set_append)
  ultimately have "r' \<in> set (drop n ?s)"
    using assms(4) by (auto simp: select_limit_def)
  moreover have "sorted (map o_by (take n ?s @ drop n ?s))"
    using sorted_sort_key [of o_by "filter p t"] by simp
  ultimately show ?thesis
    using assms(1) by (auto simp: select_limit_def sorted_append simp del: append_take_drop_id)
qed

lemma keyed_filter_sort:
  "keyed key t \<Longrightarrow> distinct (map key (sort_key o_by (filter p t)))"
  by (auto simp: keyed_def distinct_map distinct_filter intro: inj_on_subset)

lemma keyed_select_limit: "keyed key t \<Longrightarrow> distinct (map key (select_limit p o_by n t))"
  by (simp add: select_limit_def take_map [symmetric] keyed_filter_sort)

lemma selected_key:
  assumes t: "keyed key t" "r \<in> set t"
  shows "key r \<in> set (map key (select_limit p o_by n t)) \<longleftrightarrow> r \<in> set (select_limit p o_by n t)"
proof
  assume "key r \<in> set (map key (select_limit p o_by n t))"
  then obtain x where x: "x \<in> set (select_limit p o_by n t)" "key r = key x" by auto
  then have "x \<in> set t" using set_select_limit [of p o_by n t] by blast
  with t x have "r = x" by (blast intro: keyed_unique)
  with x show "r \<in> set (select_limit p o_by n t)" by simp
qed simp

lemma delete_limit_fst:
  assumes "keyed key t"
  shows "fst (delete_limit key p o_by n t) =
    filter (\<lambda>r. r \<notin> set (select_limit p o_by n t)) t"
  unfolding delete_limit_def delete_where_def Let_def fst_conv
  by (rule filter_cong) (auto simp only: selected_key [OF assms])

lemma keyed_distinct: "keyed key t \<Longrightarrow> distinct t"
  by (simp add: keyed_def distinct_map)

lemma delete_limit_snd:
  assumes "keyed key t"
  shows "snd (delete_limit key p o_by n t) = min n (length (filter p t))"
proof -
  let ?s = "select_limit p o_by n t"
  have "filter (\<lambda>r. key r \<in> set (map key ?s)) t = filter (\<lambda>r. r \<in> set ?s) t"
    by (rule filter_cong) (auto simp only: selected_key [OF assms])
  moreover have "length (filter (\<lambda>r. r \<in> set ?s) t) = card (set ?s)"
    using keyed_distinct [OF assms] set_select_limit [of p o_by n t]
    by (subst distinct_card [symmetric]) (auto intro!: arg_cong [where f = card])
  moreover have "card (set ?s) = length ?s"
    using keyed_select_limit [OF assms, of p o_by n] by (auto simp: distinct_map distinct_card)
  ultimately show ?thesis
    by (simp add: delete_limit_def count_where_def Let_def)
qed

lemma delete_limit_keeps:
  assumes "keyed key t"
  shows "filter (\<lambda>r. \<not> p r) (fst (delete_limit key p o_by n t)) = filter (\<lambda>r. \<not> p r) t"
  using set_select_limit [of p o_by n t]
  by (auto simp: delete_limit_fst [OF assms] intro!: filter_cong)

lemma delete_limit_split:
  assumes "keyed key t"
  shows "length (filter p (fst (delete_limit key p o_by n t))) = length (filter p t) - n"
proof -
  let ?d = "delete_limit key p o_by n t"
  let ?q = "\<lambda>r. key r \<in> set (map key (select_limit p o_by n t))"
  have "length (fst ?d) + snd ?d = length t"
    using sum_length_filter_compl [of ?q t]
    by (simp add: delete_limit_def delete_where_def count_where_def Let_def)
  moreover have "length (filter p (fst ?d)) + length (filter (\<lambda>r. \<not> p r) (fst ?d)) = length (fst ?d)"
    and "length (filter p t) + length (filter (\<lambda>r. \<not> p r) t) = length t"
    by (simp_all add: sum_length_filter_compl)
  ultimately show ?thesis
    using delete_limit_keeps [OF assms, of p o_by n] delete_limit_snd [OF assms, of p o_by n]
    by simp
qed

text \<open>
  The contract that the retention jobs rely on: one call removes at most \<open>batch\<close> of the rows that are
  due, oldest first, never a row that is not due, and reports how many it removed.
\<close>

locale batch_cleaner =
  fixes clean :: "'r list \<Rightarrow> 'r list \<times> nat"
    and due :: "'r \<Rightarrow> bool"
    and age :: "'r \<Rightarrow> 'o::linorder"
    and batch :: nat
    and wf :: "'r list \<Rightarrow> bool"
  assumes batch_pos: "0 < batch"
    and clean_count: "wf t \<Longrightarrow> snd (clean t) = min batch (length (filter due t))"
    and clean_keeps: "wf t \<Longrightarrow> filter (\<lambda>r. \<not> due r) (fst (clean t)) = filter (\<lambda>r. \<not> due r) t"
    and clean_rest: "wf t \<Longrightarrow> length (filter due (fst (clean t))) = length (filter due t) - batch"
    and clean_sub: "wf t \<Longrightarrow> set (fst (clean t)) \<subseteq> set t"
    and clean_oldest: "wf t \<Longrightarrow> r \<in> set t \<Longrightarrow> r \<notin> set (fst (clean t)) \<Longrightarrow>
      r' \<in> set (fst (clean t)) \<Longrightarrow> due r' \<Longrightarrow> age r \<le> age r'"
    and clean_wf: "wf t \<Longrightarrow> wf (fst (clean t))"
begin

lemma drained:
  assumes "wf t" "snd (clean t) < batch" "r \<in> set (fst (clean t))"
  shows "\<not> due r"
proof -
  have "length (filter due (fst (clean t))) = 0"
    using clean_count [OF assms(1)] clean_rest [OF assms(1)] assms(2) by simp
  then show ?thesis
    using assms(3) by (auto simp: filter_empty_conv)
qed

lemma only_due_removed: "wf t \<Longrightarrow> r \<in> set t \<Longrightarrow> \<not> due r \<Longrightarrow> r \<in> set (fst (clean t))"
proof -
  assume "wf t" "r \<in> set t" "\<not> due r"
  then have "r \<in> set (filter (\<lambda>r. \<not> due r) (fst (clean t)))"
    unfolding clean_keeps [OF \<open>wf t\<close>] by simp
  then show ?thesis by simp
qed

lemma iterated_wf: "wf t \<Longrightarrow> wf (((\<lambda>u. fst (clean u)) ^^ n) t)"
  by (induction n) (auto intro: clean_wf)

lemma iterated_rest:
  "wf t \<Longrightarrow> length (filter due (((\<lambda>u. fst (clean u)) ^^ n) t)) = length (filter due t) - n * batch"
proof (induction n)
  case (Suc n)
  then show ?case using clean_rest [OF iterated_wf [OF Suc.prems, of n]] by simp
qed simp

lemma iterated_keeps:
  "wf t \<Longrightarrow> filter (\<lambda>r. \<not> due r) (((\<lambda>u. fst (clean u)) ^^ n) t) = filter (\<lambda>r. \<not> due r) t"
proof (induction n)
  case (Suc n)
  then show ?case using clean_keeps [OF iterated_wf [OF Suc.prems, of n]] by simp
qed simp

lemma eventually_clean:
  assumes "wf t" "length (filter due t) \<le> n * batch"
  shows "((\<lambda>u. fst (clean u)) ^^ n) t = filter (\<lambda>r. \<not> due r) t"
proof -
  let ?u = "((\<lambda>u. fst (clean u)) ^^ n) t"
  have "filter due ?u = []"
    using iterated_rest [OF assms(1), of n] assms(2) by simp
  then have "filter (\<lambda>r. \<not> due r) ?u = ?u"
    by (auto simp: filter_empty_conv intro!: filter_True)
  then show ?thesis using iterated_keeps [OF assms(1), of n] by simp
qed

end

text \<open>Every \<open>DELETE .. WHERE key IN (SELECT .. ORDER BY .. LIMIT n)\<close> meets the contract.\<close>

lemma delete_limit_cleaner:
  assumes "0 < n"
  shows "batch_cleaner (delete_limit key p o_by n) p o_by n (keyed key)"
proof
  show "0 < n" by (rule assms)
next
  fix t r r' assume t: "keyed key t"
  then show "snd (delete_limit key p o_by n t) = min n (length (filter p t))"
    by (rule delete_limit_snd)
  show "filter (\<lambda>r. \<not> p r) (fst (delete_limit key p o_by n t)) = filter (\<lambda>r. \<not> p r) t"
    using t by (rule delete_limit_keeps)
  show "length (filter p (fst (delete_limit key p o_by n t))) = length (filter p t) - n"
    using t by (rule delete_limit_split)
  show "set (fst (delete_limit key p o_by n t)) \<subseteq> set t"
    by (auto simp: delete_limit_fst [OF t])
  show "keyed key (fst (delete_limit key p o_by n t))"
    using t by (simp add: delete_limit_def Let_def keyed_delete_where)
  assume "r \<in> set t" "r \<notin> set (fst (delete_limit key p o_by n t))"
    "r' \<in> set (fst (delete_limit key p o_by n t))" "p r'"
  then show "o_by r \<le> o_by r'"
    by (auto simp: delete_limit_fst [OF t] intro: select_limit_oldest)
qed

end
