(* ===== verification/Authz.thy ===== *)
theory Authz
  imports Prelude
begin

text \<open>
  Resource-level authorisation (\<open>packages/authz/src/index.ts\<close>): workspace roles, resource grants with
  an allow or deny effect, and the three decision functions for a plain resource, an incident and a
  container. The locale \<open>capability_policy\<close> is the contract every decision function meets.
\<close>

datatype workspace_role = admin | member_role
datatype capability = view | manage
datatype grant_effect = allow | deny
datatype resource_type = machine | service | container | dashboard | incident

record resource_grant =
  resourceType :: resource_type
  resourceId :: string
  capability_of :: capability
  effect :: grant_effect

definition deniesCapability :: "resource_grant \<Rightarrow> capability \<Rightarrow> bool" where
  "deniesCapability grant cap \<longleftrightarrow>
     effect grant = deny \<and>
     (capability_of grant = cap \<or> cap = manage \<and> capability_of grant = view)"

text \<open>The allowing disjunct that \<open>canAccessResource\<close> and \<open>canAccessContainer\<close> spell out in place.\<close>

definition allowsCapability :: "resource_grant \<Rightarrow> capability \<Rightarrow> bool" where
  "allowsCapability grant cap \<longleftrightarrow>
     effect grant = allow \<and>
     (capability_of grant = cap \<or> cap = view \<and> capability_of grant = manage)"

definition canAccessResource ::
  "workspace_role \<Rightarrow> resource_grant list \<Rightarrow> resource_type \<Rightarrow> string \<Rightarrow> capability \<Rightarrow> bool" where
  "canAccessResource role grants rtype rid cap =
     (if role = admin then True
      else let relevant = filter (\<lambda>g. resourceType g = rtype \<and> resourceId g = rid) grants
           in if list_ex (\<lambda>g. deniesCapability g cap) relevant then False
              else list_ex (\<lambda>g. allowsCapability g cap) relevant)"

definition canAccessIncident ::
  "workspace_role \<Rightarrow> resource_grant list \<Rightarrow> string \<Rightarrow> capability \<Rightarrow> bool \<Rightarrow> bool" where
  "canAccessIncident role grants incidentId cap inheritedFromServices =
     (if role = admin then True
      else let incidentGrants =
             filter (\<lambda>g. resourceType g = incident \<and> resourceId g = incidentId) grants
           in if list_ex (\<lambda>g. deniesCapability g cap) incidentGrants then False
              else canAccessResource role incidentGrants incident incidentId cap \<or>
                   inheritedFromServices)"

definition canAccessContainer ::
  "workspace_role \<Rightarrow> resource_grant list \<Rightarrow> string \<Rightarrow> string \<Rightarrow> capability \<Rightarrow> bool" where
  "canAccessContainer role grants machineId containerId cap =
     (if role = admin then True
      else let containerGrants =
             filter (\<lambda>g. resourceType g = container \<and> resourceId g = containerId) grants;
             denied = list_ex (\<lambda>g. deniesCapability g cap) containerGrants
           in if denied then False
              else let allowed = list_ex (\<lambda>g. allowsCapability g cap) containerGrants
                   in allowed \<or> canAccessResource role grants machine machineId cap)"

section \<open>The decisions as predicates on the set of grants\<close>

text \<open>A grant of the given effect on a resource that bears on the requested capability.\<close>

definition denied_on :: "resource_grant set \<Rightarrow> resource_type \<Rightarrow> string \<Rightarrow> capability \<Rightarrow> bool" where
  "denied_on G rtype rid cap \<longleftrightarrow>
     (\<exists>g \<in> G. resourceType g = rtype \<and> resourceId g = rid \<and> deniesCapability g cap)"

definition allowed_on :: "resource_grant set \<Rightarrow> resource_type \<Rightarrow> string \<Rightarrow> capability \<Rightarrow> bool" where
  "allowed_on G rtype rid cap \<longleftrightarrow>
     (\<exists>g \<in> G. resourceType g = rtype \<and> resourceId g = rid \<and> allowsCapability g cap)"

lemma canAccessResource_iff:
  "canAccessResource role grants rtype rid cap \<longleftrightarrow>
     role = admin \<or>
     \<not> denied_on (set grants) rtype rid cap \<and> allowed_on (set grants) rtype rid cap"
  by (auto simp: canAccessResource_def denied_on_def allowed_on_def list_ex_iff)

lemma canAccessIncident_iff:
  "canAccessIncident role grants iid cap inh \<longleftrightarrow>
     role = admin \<or>
     \<not> denied_on (set grants) incident iid cap \<and> (allowed_on (set grants) incident iid cap \<or> inh)"
  by (auto simp: canAccessIncident_def canAccessResource_def denied_on_def allowed_on_def
      list_ex_iff)

lemma canAccessContainer_iff:
  "canAccessContainer role grants mid cid cap \<longleftrightarrow>
     role = admin \<or>
     \<not> denied_on (set grants) container cid cap \<and>
     (allowed_on (set grants) container cid cap \<or>
      \<not> denied_on (set grants) machine mid cap \<and> allowed_on (set grants) machine mid cap)"
  by (auto simp: canAccessContainer_def canAccessResource_iff denied_on_def allowed_on_def
      list_ex_iff)

lemmas access_iffs = canAccessResource_iff canAccessIncident_iff canAccessContainer_iff

lemma denied_view_manage: "denied_on G t i view \<Longrightarrow> denied_on G t i manage"
  by (auto simp: denied_on_def deniesCapability_def)

lemma allowed_manage_view: "allowed_on G t i manage \<Longrightarrow> allowed_on G t i view"
  by (auto simp: allowed_on_def allowsCapability_def)

lemma denied_insert:
  "denied_on (insert g G) t i cap \<longleftrightarrow>
     resourceType g = t \<and> resourceId g = i \<and> deniesCapability g cap \<or> denied_on G t i cap"
  by (auto simp: denied_on_def)

lemma allowed_insert:
  "allowed_on (insert g G) t i cap \<longleftrightarrow>
     resourceType g = t \<and> resourceId g = i \<and> allowsCapability g cap \<or> allowed_on G t i cap"
  by (auto simp: allowed_on_def)

lemma effect_exclusive [simp]:
  "effect g = allow \<Longrightarrow> \<not> deniesCapability g cap"
  "effect g = deny \<Longrightarrow> \<not> allowsCapability g cap"
  by (auto simp: deniesCapability_def allowsCapability_def)

lemmas grant_inserts = denied_insert allowed_insert

section \<open>The contract of a decision function\<close>

locale capability_policy =
  fixes decide :: "workspace_role \<Rightarrow> resource_grant list \<Rightarrow> capability \<Rightarrow> bool"
  assumes admin_allowed: "decide admin grants cap"
    and manage_implies_view: "decide role grants manage \<Longrightarrow> decide role grants view"
    and set_determined: "set grants = set grants' \<Longrightarrow> decide role grants cap = decide role grants' cap"
    and deny_antitone: "effect g = deny \<Longrightarrow> decide role (g # grants) cap \<Longrightarrow> decide role grants cap"
    and allow_monotone: "effect g = allow \<Longrightarrow> decide role grants cap \<Longrightarrow> decide role (g # grants) cap"
begin

lemma insertion_point:
  "decide role (xs @ g # ys) cap = decide role (g # xs @ ys) cap"
  by (rule set_determined) auto

lemma deny_never_grants:
  assumes "\<forall>g \<in> set denies. effect g = deny" "decide role (xs @ denies @ ys) cap"
  shows "decide role (xs @ ys) cap"
  using assms
proof (induction denies)
  case (Cons g denies)
  then have "decide role (g # xs @ denies @ ys) cap"
    using insertion_point [of role xs g "denies @ ys" cap] by simp
  with Cons show ?case using deny_antitone by auto
qed simp

lemma allow_never_revokes:
  assumes "\<forall>g \<in> set allows. effect g = allow" "decide role (xs @ ys) cap"
  shows "decide role (xs @ allows @ ys) cap"
  using assms
proof (induction allows)
  case (Cons g allows)
  then have "decide role (g # xs @ allows @ ys) cap"
    using allow_monotone by auto
  then show ?case using insertion_point [of role xs g "allows @ ys" cap] by simp
qed simp

end

interpretation res: capability_policy "\<lambda>role grants cap. canAccessResource role grants t i cap" for t i
  by unfold_locales
    (auto simp: canAccessResource_iff grant_inserts dest: denied_view_manage allowed_manage_view)

interpretation inc: capability_policy "\<lambda>role grants cap. canAccessIncident role grants i cap inh" for i inh
  by unfold_locales
    (auto simp: canAccessIncident_iff grant_inserts dest: denied_view_manage allowed_manage_view)

interpretation con: capability_policy "\<lambda>role grants cap. canAccessContainer role grants m c cap" for m c
  by unfold_locales
    (auto simp: canAccessContainer_iff grant_inserts dest: denied_view_manage allowed_manage_view)

section \<open>Properties\<close>

text \<open>
  C1. In all three decision functions the capabilities are ordered: whoever may manage a resource, an
  incident (with the same inherited right) or a container may view it, for every role and every list
  of grants, deny grants included.
\<close>

theorem authz_manage_implies_view:
  "(canAccessResource role grants t i manage \<longrightarrow> canAccessResource role grants t i view) \<and>
   (canAccessIncident role grants i manage inh \<longrightarrow> canAccessIncident role grants i view inh) \<and>
   (canAccessContainer role grants m c manage \<longrightarrow> canAccessContainer role grants m c view)"
  using res.manage_implies_view inc.manage_implies_view con.manage_implies_view by blast

theorem authz_manage_implies_view_witness:
  "canAccessContainer member_role
     [\<lparr>resourceType = machine, resourceId = ''m'', capability_of = manage, effect = allow\<rparr>]
     ''m'' ''c'' manage \<and>
   canAccessContainer member_role
     [\<lparr>resourceType = machine, resourceId = ''m'', capability_of = manage, effect = allow\<rparr>]
     ''m'' ''c'' view"
proof -
  let ?g = "[\<lparr>resourceType = machine, resourceId = ''m'', capability_of = manage, effect = allow\<rparr>]"
  have h: "canAccessContainer member_role ?g ''m'' ''c'' manage"
    by (simp add: canAccessContainer_def canAccessResource_def deniesCapability_def
        allowsCapability_def)
  show ?thesis
    using h authz_manage_implies_view [of member_role ?g machine "''m''" True "''m''" "''c''"] by blast
qed

text \<open>
  C2. Deny wins over allow and over inheritance: for a member, one deny grant on the container itself
  refuses the capability whatever other grants exist, even when a grant on the machine allows it, and
  a deny of viewing also refuses managing. Deny grants added anywhere in the list never give a right,
  and allow grants added anywhere never take one away.
\<close>

theorem authz_deny_precedence:
  assumes "g \<in> set grants" "resourceType g = container" "resourceId g = c" "effect g = deny"
    and "capability_of g = view \<or> capability_of g = cap"
    and "\<forall>d \<in> set denies. effect d = deny" "\<forall>a \<in> set allows. effect a = allow"
  shows "\<not> canAccessContainer member_role grants m c cap \<and>
    (canAccessContainer role (xs @ denies @ ys) m c cap \<longrightarrow> canAccessContainer role (xs @ ys) m c cap) \<and>
    (canAccessContainer role (xs @ ys) m c cap \<longrightarrow> canAccessContainer role (xs @ allows @ ys) m c cap)"
proof -
  have "deniesCapability g cap" using assms(4,5) by (cases cap) (auto simp: deniesCapability_def)
  then have "denied_on (set grants) container c cap" using assms(1-3) by (auto simp: denied_on_def)
  then show ?thesis
    using con.deny_never_grants [OF assms(6)] con.allow_never_revokes [OF assms(7)]
    by (auto simp: canAccessContainer_iff)
qed

theorem authz_deny_precedence_witness:
  "\<not> canAccessContainer member_role
     [\<lparr>resourceType = machine, resourceId = ''m'', capability_of = manage, effect = allow\<rparr>,
      \<lparr>resourceType = container, resourceId = ''c'', capability_of = view, effect = deny\<rparr>]
     ''m'' ''c'' manage"
  using authz_deny_precedence
    [of "\<lparr>resourceType = container, resourceId = ''c'', capability_of = view, effect = deny\<rparr>"
        "[\<lparr>resourceType = machine, resourceId = ''m'', capability_of = manage, effect = allow\<rparr>,
          \<lparr>resourceType = container, resourceId = ''c'', capability_of = view, effect = deny\<rparr>]"
        "''c''" manage "[]" "[]" "''m''" admin "[]" "[]"]
  by simp

end
