(* ===== verification/Membership.thy ===== *)
theory Membership
  imports Authz
begin

text \<open>
  The table \<open>memberships\<close> with its two triggers (\<open>packages/db/migrations/control/0010_active_admin_guard.sql\<close>): an
  update or a deletion that takes the last active administrator from a workspace aborts its statement. SQLite
  fires the trigger of a deletion for the rows that a foreign key deletes, too.
\<close>

datatype member_status = Invited | Active | Suspended

record membership =
  mb_workspace :: string
  mb_user :: string
  mb_role :: workspace_role
  mb_status :: member_status
  mb_created_at :: int
  mb_updated_at :: int

definition membership_key :: "membership \<Rightarrow> string \<times> string" where
  "membership_key m = (mb_workspace m, mb_user m)"

definition active_admin :: "string \<Rightarrow> membership \<Rightarrow> bool" where
  "active_admin workspaceId m \<longleftrightarrow> mb_workspace m = workspaceId \<and> mb_role m = admin \<and> mb_status m = Active"

text \<open>\<open>NOT EXISTS\<close> of both triggers: no other active administrator in the workspace of the row.\<close>

definition last_active_admin :: "membership list \<Rightarrow> membership \<Rightarrow> bool" where
  "last_active_admin t old \<longleftrightarrow> active_admin (mb_workspace old) old \<and>
     \<not> list_ex (\<lambda>m. active_admin (mb_workspace old) m \<and> mb_user m \<noteq> mb_user old) t"

definition ADMIN_REQUIRED :: string where
  "ADMIN_REQUIRED = ''workspace requires an active administrator''"

text \<open>\<open>memberships_keep_active_admin_on_delete\<close>: the rows go one after the other, and one that the trigger
  refuses takes the whole statement with it.\<close>

fun delete_members :: "membership list \<Rightarrow> membership list \<Rightarrow> membership list option" where
  "delete_members [] t = Some t"
| "delete_members (m # ms) t =
     (if last_active_admin t m then None
      else delete_members ms (delete_where (\<lambda>r. membership_key r = membership_key m) t))"

definition cascade_memberships :: "string \<Rightarrow> membership list \<Rightarrow> membership list option" where
  "cascade_memberships workspaceId t = delete_members (filter (\<lambda>m. mb_workspace m = workspaceId) t) t"

text \<open>\<open>memberships_keep_active_admin_on_update\<close> on an update that selects one row.\<close>

definition update_refused :: "(membership \<Rightarrow> bool) \<Rightarrow> (membership \<Rightarrow> membership) \<Rightarrow> membership list \<Rightarrow> bool" where
  "update_refused p f t \<longleftrightarrow>
     list_ex (\<lambda>m. p m \<and> last_active_admin t m \<and> \<not> active_admin (mb_workspace m) (f m)) t"

section \<open>Deleting the members of a workspace\<close>

lemma delete_members_admin:
  assumes "keyed membership_key t" "a \<in> set t" "active_admin w a"
    and "\<And>m. m \<in> set t \<Longrightarrow> mb_workspace m = w \<Longrightarrow> m \<in> set ms"
    and "\<And>m. m \<in> set ms \<Longrightarrow> mb_workspace m = w" "\<And>m r. m \<in> set ms \<Longrightarrow> r \<in> set t \<Longrightarrow> membership_key r = membership_key m \<Longrightarrow> r = m"
  shows "delete_members ms t = None"
  using assms
proof (induction ms arbitrary: t a)
  case Nil
  then show ?case by (auto simp: active_admin_def)
next
  case (Cons m ms)
  show ?case
  proof (cases "last_active_admin t m")
    case False
    let ?t = "delete_where (\<lambda>r. membership_key r = membership_key m) t"
    have w: "mb_workspace m = w" using Cons.prems(5) by simp
    obtain b where b: "b \<in> set t" "active_admin w b" "membership_key b \<noteq> membership_key m"
    proof (cases "membership_key a = membership_key m")
      case True
      then have "active_admin w m" using Cons.prems(6) [of m a] Cons.prems(2,3) by simp
      then have "list_ex (\<lambda>r. active_admin w r \<and> mb_user r \<noteq> mb_user m) t"
        using False w by (simp add: last_active_admin_def)
      then show ?thesis using that by (auto simp: list_ex_iff membership_key_def)
    qed (use that Cons.prems(2,3) in blast)
    have "delete_members ms ?t = None"
    proof (rule Cons.IH)
      show "keyed membership_key ?t" using Cons.prems(1) by (rule keyed_delete_where)
      show "b \<in> set ?t" "active_admin w b" using b by (auto simp: delete_where_def)
      show "r \<in> set ms" if "r \<in> set ?t" "mb_workspace r = w" for r
        using that Cons.prems(4) [of r] by (auto simp: delete_where_def)
    qed (use Cons.prems(5,6) in \<open>auto simp: delete_where_def\<close>)
    then show ?thesis by simp
  qed simp
qed

lemma delete_members_others:
  assumes "delete_members ms t = Some t'"
  shows "set t' = {r \<in> set t. \<not> (\<exists>m \<in> set ms. membership_key r = membership_key m)}"
  using assms by (induction ms arbitrary: t) (auto simp: delete_where_def split: if_splits)

lemma delete_members_no_admin:
  assumes "\<And>m. m \<in> set ms \<Longrightarrow> \<not> active_admin (mb_workspace m) m"
  shows "\<exists>t'. delete_members ms t = Some t'"
  using assms by (induction ms arbitrary: t) (auto simp: last_active_admin_def)

text \<open>A cascade over the members of a workspace aborts exactly when one of them is an active administrator.\<close>

lemma cascade_aborts:
  assumes "keyed membership_key t"
  shows "cascade_memberships w t = None \<longleftrightarrow> list_ex (active_admin w) t"
proof
  assume "cascade_memberships w t = None"
  then obtain m where "m \<in> set t" "mb_workspace m = w" "active_admin (mb_workspace m) m"
    unfolding cascade_memberships_def
    using delete_members_no_admin [of "filter (\<lambda>m. mb_workspace m = w) t" t] by force
  then show "list_ex (active_admin w) t" by (auto simp: list_ex_iff)
next
  assume "list_ex (active_admin w) t"
  then obtain a where "a \<in> set t" "active_admin w a" by (auto simp: list_ex_iff)
  then show "cascade_memberships w t = None"
    unfolding cascade_memberships_def
    using assms by (intro delete_members_admin) (auto dest: keyed_unique)
qed

lemma cascade_keyed:
  assumes "cascade_memberships w t = Some t'" "keyed membership_key t"
  shows "keyed membership_key t'"
proof -
  have "keyed membership_key u'" if "delete_members ms u = Some u'" "keyed membership_key u" for ms u u'
    using that by (induction ms arbitrary: u) (auto split: if_splits intro: keyed_delete_where)
  then show ?thesis using assms unfolding cascade_memberships_def by blast
qed

lemma cascade_members:
  assumes "cascade_memberships w t = Some t'"
  shows "set t' = {m \<in> set t. mb_workspace m \<noteq> w}"
  using delete_members_others [OF assms [unfolded cascade_memberships_def]]
  by (auto simp: membership_key_def)

end
