(* ===== verification/Json.thy ===== *)
theory Json
  imports Complex_Main Prelude
begin

text \<open>
  Values that \<open>JSON.parse\<close> returns. An object keeps its properties in insertion order with distinct
  names, a number is its exact value (the finite doubles are rationals), and a missing property
  (\<open>undefined\<close>) is \<open>None\<close>. \<open>Math.round\<close> rounds halves towards plus infinity.
\<close>

datatype json =
    JNull
  | JBool bool
  | JNum rat
  | JStr string
  | JArr "json list"
  | JObj "(string \<times> json) list"

definition jfield :: "(string \<times> json) list \<Rightarrow> string \<Rightarrow> json option" where
  "jfield props name = map_of props name"

text \<open>
  What the program takes from the platform: \<open>crypto.subtle.digest("SHA-256", ..)\<close>, \<open>JSON.parse\<close> (none
  when it throws) and \<open>JSON.stringify\<close>. A string is the list of its UTF-8 bytes, so \<open>TextEncoder\<close>
  and \<open>TextDecoder\<close> only change the type; \<open>length\<close> and \<open>slice\<close> count UTF-16 code units, which are
  the bytes for the ASCII texts (identifiers, codes, host names) that the program measures and cuts.
\<close>

record platform =
  sha256 :: "blob \<Rightarrow> blob"
  JSON_parse :: "string \<Rightarrow> json option"
  JSON_stringify :: "json \<Rightarrow> string"

definition text_encode :: "string \<Rightarrow> blob" where
  "text_encode s = map of_char s"

definition text_decode :: "blob \<Rightarrow> string" where
  "text_decode b = map (\<lambda>n. char_of (nat n)) b"

text \<open>\<open>String(n)\<close> for an integer.\<close>

fun nat_to_string :: "nat \<Rightarrow> string" where
  "nat_to_string n =
     (if n < 10 then [char_of (48 + n)] else nat_to_string (n div 10) @ [char_of (48 + n mod 10)])"

declare nat_to_string.simps [simp del]

definition int_to_string :: "int \<Rightarrow> string" where
  "int_to_string n = (if n < 0 then ''-'' @ nat_to_string (nat (- n)) else nat_to_string (nat n))"

lemma text_decode_encode [simp]: "text_decode (text_encode s) = s"
  by (induction s) (auto simp: text_decode_def text_encode_def)

definition js_round :: "rat \<Rightarrow> int" where
  "js_round x = \<lfloor>x + 1 / 2\<rfloor>"

definition is_integer_num :: "rat \<Rightarrow> bool" where
  "is_integer_num x \<longleftrightarrow> of_int \<lfloor>x\<rfloor> = x"

lemma js_round_mono: "x \<le> y \<Longrightarrow> js_round x \<le> js_round y"
  by (simp add: js_round_def floor_mono)

lemma js_round_of_int [simp]: "js_round (of_int n) = n"
  by (simp add: js_round_def floor_eq_iff)

lemma js_round_bounds: "of_int a \<le> x \<Longrightarrow> x \<le> of_int b \<Longrightarrow> a \<le> js_round x \<and> js_round x \<le> b"
  using js_round_mono [of "of_int a" x] js_round_mono [of x "of_int b"] by simp

end
