(* ===== verification/Web.thy ===== *)
theory Web
  imports Json
begin

text \<open>
  What the TypeScript sources use of the JavaScript language and of the web platform: exceptions,
  string operations, coercion of JSON values to text, base64, header collections and URLs. URL
  parsing, number printing and the packages \<open>ipaddr.js\<close>, \<open>re2js\<close> and \<open>jsonpath-plus\<close> are not part of the
  repository and are fields of a record that the definitions take as a parameter.
\<close>

section \<open>Exceptions\<close>

text \<open>
  \<open>JsError m\<close> is \<open>new Error(m)\<close> of the program, \<open>JsEngineError\<close> an error object of the engine (a
  \<open>SyntaxError\<close> of \<open>JSON.parse\<close>, a \<open>TypeError\<close> of \<open>new URL\<close>), \<open>JsDomException n\<close> a \<open>DOMException\<close> of name \<open>n\<close>.
\<close>

datatype js_error = JsError string | JsEngineError | JsDomException string

type_synonym 'a attempt = "js_error + 'a"

definition raise_error :: "string \<Rightarrow> 'a attempt" where
  "raise_error message = Inl (JsError message)"

definition require :: "bool \<Rightarrow> string \<Rightarrow> unit attempt" where
  "require b message = (if b then Inr () else raise_error message)"

lemma require_simps [simp]:
  "require True m = Inr ()"
  "require False m = Inl (JsError m)"
  "require b m = Inr u \<longleftrightarrow> b"
  "require b m = Inl e \<longleftrightarrow> \<not> b \<and> e = JsError m"
  by (auto simp: require_def raise_error_def)

lemma bind_result_Inr_iff:
  "bind_result m f = Inr y \<longleftrightarrow> (\<exists>x. m = Inr x \<and> f x = Inr y)"
  by (cases m) auto

text \<open>\<open>Array.prototype.map\<close> with a callback that may throw.\<close>

fun map_attempt :: "('a \<Rightarrow> 'b attempt) \<Rightarrow> 'a list \<Rightarrow> 'b list attempt" where
  "map_attempt f [] = Inr []"
| "map_attempt f (x # xs) =
     bind_result (f x) (\<lambda>y. bind_result (map_attempt f xs) (\<lambda>ys. Inr (y # ys)))"

lemma map_attempt_Inr_iff:
  "map_attempt f xs = Inr ys \<longleftrightarrow> list_all2 (\<lambda>x y. f x = Inr y) xs ys"
  by (induction xs arbitrary: ys) (auto simp: bind_result_Inr_iff list_all2_Cons1)

lemma map_attempt_in:
  "map_attempt f xs = Inr ys \<Longrightarrow> y \<in> set ys \<Longrightarrow> \<exists>x \<in> set xs. f x = Inr y"
  by (induction xs arbitrary: ys) (auto simp: bind_result_Inr_iff)

lemma map_attempt_length: "map_attempt f xs = Inr ys \<Longrightarrow> length ys = length xs"
  by (induction xs arbitrary: ys) (auto simp: bind_result_Inr_iff)

section \<open>Strings\<close>

definition between :: "char \<Rightarrow> char \<Rightarrow> char \<Rightarrow> bool" where
  "between lo hi c \<longleftrightarrow> lo \<le> c \<and> c \<le> hi"

definition lower_char :: "char \<Rightarrow> char" where
  "lower_char c = (if CHR ''A'' \<le> c \<and> c \<le> CHR ''Z'' then char_of ((of_char c :: nat) + 32) else c)"

definition toLowerCase :: "string \<Rightarrow> string" where
  "toLowerCase s = map lower_char s"

definition startsWith :: "string \<Rightarrow> string \<Rightarrow> bool" where
  "startsWith s p \<longleftrightarrow> take (length p) s = p"

definition endsWith :: "string \<Rightarrow> string \<Rightarrow> bool" where
  "endsWith s p \<longleftrightarrow> length p \<le> length s \<and> drop (length s - length p) s = p"

fun includes_text :: "string \<Rightarrow> string \<Rightarrow> bool" where
  "includes_text [] p = (p = [])"
| "includes_text (c # s) p = (startsWith (c # s) p \<or> includes_text s p)"

fun join_text :: "string \<Rightarrow> string list \<Rightarrow> string" where
  "join_text sep [] = []"
| "join_text sep [x] = x"
| "join_text sep (x # y # zs) = x @ sep @ join_text sep (y # zs)"

text \<open>
  \<open>new TextDecoder("utf-8", { fatal: true }).decode(bytes)\<close>: ill-formed UTF-8 throws, and a leading byte
  order mark is dropped.
\<close>

definition continuation :: "int \<Rightarrow> bool" where
  "continuation b \<longleftrightarrow> 128 \<le> b \<and> b \<le> 191"

fun utf8_valid :: "blob \<Rightarrow> bool" where
  "utf8_valid [] = True"
| "utf8_valid (a # r) =
     (if 0 \<le> a \<and> a \<le> 127 then utf8_valid r
      else if 194 \<le> a \<and> a \<le> 223 then
        (case r of b # r' \<Rightarrow> continuation b \<and> utf8_valid r' | _ \<Rightarrow> False)
      else if 224 \<le> a \<and> a \<le> 239 then
        (case r of b # c # r' \<Rightarrow>
           (if a = 224 then 160 \<le> b \<and> b \<le> 191 else if a = 237 then 128 \<le> b \<and> b \<le> 159
            else continuation b) \<and> continuation c \<and> utf8_valid r'
         | _ \<Rightarrow> False)
      else if 240 \<le> a \<and> a \<le> 244 then
        (case r of b # c # d # r' \<Rightarrow>
           (if a = 240 then 144 \<le> b \<and> b \<le> 191 else if a = 244 then 128 \<le> b \<and> b \<le> 143
            else continuation b) \<and> continuation c \<and> continuation d \<and> utf8_valid r'
         | _ \<Rightarrow> False)
      else False)"

definition strip_bom :: "blob \<Rightarrow> blob" where
  "strip_bom b = (if take 3 b = [239, 187, 191] then drop 3 b else b)"

definition utf8_decode_fatal :: "blob \<Rightarrow> string option" where
  "utf8_decode_fatal b = (if utf8_valid b then Some (text_decode (strip_bom b)) else None)"

text \<open>
  \<open>new TextDecoder().decode(bytes)\<close>: each maximal ill-formed part becomes the replacement character.
\<close>

definition replacement_bytes :: blob where
  "replacement_bytes = [239, 191, 189]"

definition second_ok :: "int \<Rightarrow> int \<Rightarrow> bool" where
  "second_ok a b \<longleftrightarrow>
     (if a = 224 then 160 \<le> b \<and> b \<le> 191 else if a = 237 then 128 \<le> b \<and> b \<le> 159
      else if a = 240 then 144 \<le> b \<and> b \<le> 191 else if a = 244 then 128 \<le> b \<and> b \<le> 143
      else continuation b)"

fun utf8_lossy :: "blob \<Rightarrow> blob" where
  "utf8_lossy [] = []"
| "utf8_lossy (a # r) =
     (if 0 \<le> a \<and> a \<le> 127 then a # utf8_lossy r
      else if 194 \<le> a \<and> a \<le> 244 then
        (case r of [] \<Rightarrow> replacement_bytes
         | b # r1 \<Rightarrow>
             if \<not> second_ok a b then replacement_bytes @ utf8_lossy r
             else if a \<le> 223 then a # b # utf8_lossy r1
             else (case r1 of [] \<Rightarrow> replacement_bytes
               | c # r2 \<Rightarrow>
                   if \<not> continuation c then replacement_bytes @ utf8_lossy r1
                   else if a \<le> 239 then a # b # c # utf8_lossy r2
                   else (case r2 of [] \<Rightarrow> replacement_bytes
                     | d # r3 \<Rightarrow>
                         if \<not> continuation d then replacement_bytes @ utf8_lossy r2
                         else a # b # c # d # utf8_lossy r3)))
      else replacement_bytes @ utf8_lossy r)"

lemma utf8_lossy_valid: "utf8_valid b \<Longrightarrow> utf8_lossy b = b"
proof (induction "length b" arbitrary: b rule: less_induct)
  case less
  show ?case
  proof (cases b)
    case (Cons a r)
    from less.prems Cons consider "0 \<le> a" "a \<le> 127" | "194 \<le> a" "a \<le> 223" | "224 \<le> a" "a \<le> 239"
      | "240 \<le> a" "a \<le> 244"
      by (auto split: if_splits)
    then show ?thesis
    proof cases
      case 1
      then show ?thesis using less Cons by simp
    next
      case 2
      then obtain b1 r1 where "r = b1 # r1" "continuation b1" "utf8_valid r1"
        using less.prems Cons by (cases r) simp_all
      then show ?thesis using 2 less.hyps [of r1] Cons by (simp add: second_ok_def)
    next
      case 3
      then obtain b1 c r2 where "r = b1 # c # r2" "second_ok a b1" "continuation c" "utf8_valid r2"
        using less.prems Cons by (cases r; cases "tl r") (simp_all add: second_ok_def)
      then show ?thesis using 3 less.hyps [of r2] Cons by simp
    next
      case 4
      then obtain b1 c d r3 where "r = b1 # c # d # r3" "second_ok a b1" "continuation c" "continuation d"
          "utf8_valid r3"
        using less.prems Cons by (cases r; cases "tl r"; cases "tl (tl r)") (simp_all add: second_ok_def)
      then show ?thesis using 4 less.hyps [of r3] Cons by simp
    qed
  qed simp
qed

definition TextDecoder_decode :: "blob \<Rightarrow> string" where
  "TextDecoder_decode bytes = text_decode (utf8_lossy (strip_bom bytes))"

text \<open>
  The UTF-16 code units of a text, which \<open>length\<close> counts: a continuation byte counts nothing and the first
  byte of a character outside the basic plane two.
\<close>

definition utf16_units :: "char \<Rightarrow> nat" where
  "utf16_units c = (if of_char c < (128 :: nat) then 1 else if of_char c < (192 :: nat) then 0
     else if of_char c < (240 :: nat) then 1 else 2)"

definition js_length :: "string \<Rightarrow> nat" where
  "js_length s = sum_list (map utf16_units s)"

text \<open>
  \<open>slice(0, n)\<close>, which counts UTF-16 code units: a continuation byte counts nothing and the first byte
  of a character outside the basic plane two. A character that the cut would split is dropped.
\<close>

fun utf16_take :: "nat \<Rightarrow> string \<Rightarrow> string" where
  "utf16_take n [] = []"
| "utf16_take n (c # s) =
     (if utf16_units c \<le> n then c # utf16_take (n - utf16_units c) s else [])"

text \<open>\<open>split\<close> at a character.\<close>

fun split_char :: "char \<Rightarrow> string \<Rightarrow> string list" where
  "split_char c [] = [[]]"
| "split_char c (x # xs) =
     (if x = c then [] # split_char c xs
      else (case split_char c xs of [] \<Rightarrow> [[x]] | p # ps \<Rightarrow> (x # p) # ps))"

text \<open>\<open>String.prototype.trim\<close>: the white space of the language, as UTF-8.\<close>

definition space_texts :: "string list" where
  "space_texts = [
    [CHR 0x09], [CHR 0x0A], [CHR 0x0B], [CHR 0x0C], [CHR 0x0D], [CHR 0x20], [CHR 0xC2, CHR 0xA0],
    [CHR 0xE1, CHR 0x9A, CHR 0x80], [CHR 0xE2, CHR 0x80, CHR 0xA8], [CHR 0xE2, CHR 0x80, CHR 0xA9],
    [CHR 0xE2, CHR 0x80, CHR 0xAF], [CHR 0xE2, CHR 0x81, CHR 0x9F], [CHR 0xE3, CHR 0x80, CHR 0x80],
    [CHR 0xEF, CHR 0xBB, CHR 0xBF], [CHR 0xE2, CHR 0x80, CHR 0x80], [CHR 0xE2, CHR 0x80, CHR 0x81],
    [CHR 0xE2, CHR 0x80, CHR 0x82], [CHR 0xE2, CHR 0x80, CHR 0x83], [CHR 0xE2, CHR 0x80, CHR 0x84],
    [CHR 0xE2, CHR 0x80, CHR 0x85], [CHR 0xE2, CHR 0x80, CHR 0x86], [CHR 0xE2, CHR 0x80, CHR 0x87],
    [CHR 0xE2, CHR 0x80, CHR 0x88], [CHR 0xE2, CHR 0x80, CHR 0x89], [CHR 0xE2, CHR 0x80, CHR 0x8A]]"

function skip_texts :: "string list \<Rightarrow> string \<Rightarrow> string" where
  "skip_texts texts s =
     (case find (\<lambda>p. p \<noteq> [] \<and> startsWith s p) texts of
        None \<Rightarrow> s
      | Some p \<Rightarrow> skip_texts texts (drop (length p) s))"
  by auto
termination
  by (relation "measure (\<lambda>(texts, s). length s)")
    (auto simp: startsWith_def find_Some_iff intro!: diff_less)

declare skip_texts.simps [simp del]

definition js_trim :: "string \<Rightarrow> string" where
  "js_trim s = rev (skip_texts (map rev space_texts) (rev (skip_texts space_texts s)))"

section \<open>The platform and the packages\<close>

record url =
  u_href :: string
  u_protocol :: string
  u_username :: string
  u_password :: string
  u_hostname :: string
  u_origin :: string

text \<open>
  \<open>new URL(s)\<close> and \<open>new URL(s, base)\<close> (none when they throw), the decimal text of a number, the range of
  an address literal in \<open>ipaddr.js\<close> (none when it is not one), \<open>RE2JS.compile(r).matcher(s).find()\<close> and
  the list that \<open>JSONPath\<close> selects (none when they throw).
\<close>

record web =
  URL_parse :: "string \<Rightarrow> url option"
  URL_resolve :: "string \<Rightarrow> url \<Rightarrow> url option"
  number_text :: "rat \<Rightarrow> string"
  address_range :: "string \<Rightarrow> string option"
  re2_find :: "string \<Rightarrow> string \<Rightarrow> bool option"
  JSONPath :: "string \<Rightarrow> json \<Rightarrow> json list option"

text \<open>\<open>String(value)\<close> of a JSON value.\<close>

fun js_String :: "web \<Rightarrow> json \<Rightarrow> string" where
  "js_String wb JNull = ''null''"
| "js_String wb (JBool b) = (if b then ''true'' else ''false'')"
| "js_String wb (JNum x) = number_text wb x"
| "js_String wb (JStr s) = s"
| "js_String wb (JArr xs) =
     join_text '','' (map (\<lambda>x. if x = JNull then [] else js_String wb x) xs)"
| "js_String wb (JObj _) = ''[object Object]''"

text \<open>\<open>undefined\<close> and \<open>null\<close> alike, as in \<open>v === undefined || v === null\<close>.\<close>

definition nullish :: "json option \<Rightarrow> bool" where
  "nullish v \<longleftrightarrow> v = None \<or> v = Some JNull"

text \<open>
  Assigning a property of a fresh object: a string assigned to \<open>__proto__\<close> is dropped by the setter that
  the object inherits.
\<close>

definition set_text_prop ::
  "(string \<times> string) list \<Rightarrow> string \<Rightarrow> string \<Rightarrow> (string \<times> string) list" where
  "set_text_prop props name value =
     (if name = ''__proto__'' then props
      else if name \<in> fst ` set props
        then map (\<lambda>(n, v). if n = name then (n, value) else (n, v)) props
      else props @ [(name, value)])"

section \<open>Header collections\<close>

text \<open>
  A \<open>Headers\<close> object is the list of its lower-case names with their values. The constructor and \<open>get\<close>
  throw on a name that is not an HTTP token; a value is trimmed and may hold no NUL, CR or LF; a
  repeated name is combined with a comma.
\<close>

type_synonym headers = "(string \<times> string) list"

definition token_char :: "char \<Rightarrow> bool" where
  "token_char c \<longleftrightarrow> list_ex (\<lambda>(lo, hi). between lo hi c)
       [(CHR ''0'', CHR ''9''), (CHR ''A'', CHR ''Z''), (CHR ''a'', CHR ''z'')] \<or>
     c \<in> set ''!#$%&*+-.^_|~'' \<or> c = CHR 0x27 \<or> c = CHR 0x60"

definition header_name_ok :: "string \<Rightarrow> bool" where
  "header_name_ok name \<longleftrightarrow> name \<noteq> [] \<and> list_all token_char name"

definition http_space :: "char \<Rightarrow> bool" where
  "http_space c \<longleftrightarrow> c \<in> {CHR 0x09, CHR 0x0A, CHR 0x0D, CHR 0x20}"

definition trim_header :: "string \<Rightarrow> string" where
  "trim_header v = rev (dropWhile http_space (rev (dropWhile http_space v)))"

definition header_value_ok :: "string \<Rightarrow> bool" where
  "header_value_ok v \<longleftrightarrow> list_all (\<lambda>c. c \<noteq> CHR 0x00 \<and> c \<noteq> CHR 0x0A \<and> c \<noteq> CHR 0x0D) v"

definition append_header :: "headers \<Rightarrow> string \<Rightarrow> string \<Rightarrow> headers" where
  "append_header hs name value =
     (if name \<in> fst ` set hs
      then map (\<lambda>(n, v). if n = name then (n, v @ '', '' @ value) else (n, v)) hs
      else hs @ [(name, value)])"

fun new_headers :: "headers \<Rightarrow> (string \<times> string) list \<Rightarrow> headers attempt" where
  "new_headers hs [] = Inr hs"
| "new_headers hs ((name, value) # rest) =
     (if \<not> header_name_ok name \<or> \<not> header_value_ok (trim_header value) then Inl JsEngineError
      else new_headers (append_header hs (toLowerCase name) (trim_header value)) rest)"

definition headers_get :: "headers \<Rightarrow> string \<Rightarrow> string option attempt" where
  "headers_get hs name =
     (if header_name_ok name then Inr (map_of hs (toLowerCase name)) else Inl JsEngineError)"

definition headers_delete :: "string \<Rightarrow> headers \<Rightarrow> headers" where
  "headers_delete name hs = filter (\<lambda>(n, v). n \<noteq> toLowerCase name) hs"

lemma set_headers_delete [simp]: "set (headers_delete name hs) = {h \<in> set hs. fst h \<noteq> toLowerCase name}"
  by (auto simp: headers_delete_def)

lemma lower_char_idem [simp]: "lower_char (lower_char c) = lower_char c"
proof -
  have "\<not> (CHR ''A'' \<le> char_of ((of_char c :: nat) + 32) \<and> char_of ((of_char c :: nat) + 32) \<le> CHR ''Z'')"
    if "CHR ''A'' \<le> c" "c \<le> CHR ''Z''"
  proof -
    have "65 \<le> (of_char c :: nat)" "(of_char c :: nat) \<le> 90"
      using that by (simp_all add: less_eq_char_def)
    then show ?thesis by (simp add: less_eq_char_def)
  qed
  then show ?thesis by (auto simp: lower_char_def)
qed

lemma toLowerCase_idem [simp]: "toLowerCase (toLowerCase s) = toLowerCase s"
  by (simp add: toLowerCase_def)

lemma append_header_names:
  "fst ` set (append_header hs name value) = insert name (fst ` set hs)"
  by (force simp: append_header_def)

lemma new_headers_names:
  "new_headers hs ps = Inr hs' \<Longrightarrow> fst ` set hs' = fst ` set hs \<union> toLowerCase ` fst ` set ps"
  by (induction hs ps rule: new_headers.induct) (auto simp: append_header_names split: if_splits)

end
