(* ===== verification/Base64.thy ===== *)
theory Base64
  imports Web
begin

text \<open>
  The base64 functions of the platform, \<open>atob\<close> (the forgiving decoder: ASCII white space is dropped, up
  to two padding signs are accepted at a length divisible by four) and \<open>btoa\<close>.
\<close>

definition b64_alphabet :: string where
  "b64_alphabet = ''ABCDEFGHIJKLMNOPQRSTUVWXYZabcdefghijklmnopqrstuvwxyz0123456789+/''"

definition b64_char :: "int \<Rightarrow> char" where
  "b64_char n = b64_alphabet ! nat n"

definition char_code :: "char \<Rightarrow> int" where
  "char_code c = of_char c"

definition b64_value :: "char \<Rightarrow> int option" where
  "b64_value c =
     (if between CHR ''A'' CHR ''Z'' c then Some (char_code c - 65)
      else if between CHR ''a'' CHR ''z'' c then Some (char_code c - 71)
      else if between CHR ''0'' CHR ''9'' c then Some (char_code c + 4)
      else if c = CHR ''+'' then Some 62
      else if c = CHR ''/'' then Some 63
      else None)"

fun b64_values :: "string \<Rightarrow> int list option" where
  "b64_values [] = Some []"
| "b64_values (c # s) =
     (case b64_value c of None \<Rightarrow> None
      | Some v \<Rightarrow> (case b64_values s of None \<Rightarrow> None | Some vs \<Rightarrow> Some (v # vs)))"

fun sextets_to_bytes :: "int list \<Rightarrow> blob" where
  "sextets_to_bytes (a # b # c # d # r) =
     (a * 4 + b div 16) # (b mod 16 * 16 + c div 4) # (c mod 4 * 64 + d) # sextets_to_bytes r"
| "sextets_to_bytes [a, b, c] = [a * 4 + b div 16, b mod 16 * 16 + c div 4]"
| "sextets_to_bytes [a, b] = [a * 4 + b div 16]"
| "sextets_to_bytes _ = []"

fun bytes_to_sextets :: "blob \<Rightarrow> int list" where
  "bytes_to_sextets (x # y # z # r) =
     (x div 4) # (x mod 4 * 16 + y div 16) # (y mod 16 * 4 + z div 64) # (z mod 64) # bytes_to_sextets r"
| "bytes_to_sextets [x, y] = [x div 4, x mod 4 * 16 + y div 16, y mod 16 * 4]"
| "bytes_to_sextets [x] = [x div 4, x mod 4 * 16]"
| "bytes_to_sextets [] = []"

definition b64_space :: "char \<Rightarrow> bool" where
  "b64_space c \<longleftrightarrow> c \<in> {CHR 0x09, CHR 0x0A, CHR 0x0C, CHR 0x0D, CHR 0x20}"

definition drop_padding :: "string \<Rightarrow> string" where
  "drop_padding s =
     (if length s mod 4 \<noteq> 0 then s
      else if endsWith s ''=='' then take (length s - 2) s
      else if endsWith s ''='' then take (length s - 1) s
      else s)"

definition atob :: "string \<Rightarrow> blob option" where
  "atob text =
     (let s = drop_padding (filter (\<lambda>c. \<not> b64_space c) text)
      in if length s mod 4 = 1 then None else map_option sextets_to_bytes (b64_values s))"

definition btoa :: "blob \<Rightarrow> string" where
  "btoa bytes =
     map b64_char (bytes_to_sextets bytes) @
       (if length bytes mod 3 = 1 then ''=='' else if length bytes mod 3 = 2 then ''='' else [])"

section \<open>Round trip\<close>

definition byte_list :: "blob \<Rightarrow> bool" where
  "byte_list bs \<longleftrightarrow> list_all (\<lambda>b. 0 \<le> b \<and> b < 256) bs"

lemma byte_list_simps [simp]:
  "byte_list []" "byte_list (b # bs) \<longleftrightarrow> 0 \<le> b \<and> b < 256 \<and> byte_list bs"
  by (auto simp: byte_list_def)

lemma sextet_range_upto: "{0..<64 :: int} = set [0..63]"
  by (auto simp: atLeastLessThan_def)

lemma b64_char_ok_list:
  "list_all (\<lambda>n. b64_value (b64_char n) = Some n \<and> \<not> b64_space (b64_char n) \<and> b64_char n \<noteq> CHR ''='')
     [0..63]"
  by code_simp

lemma b64_char_ok:
  assumes "0 \<le> n" "n < 64"
  shows "b64_value (b64_char n) = Some n" "\<not> b64_space (b64_char n)" "b64_char n \<noteq> CHR ''=''"
proof -
  have "n \<in> set [0..63]" using assms by simp
  then show "b64_value (b64_char n) = Some n" "\<not> b64_space (b64_char n)" "b64_char n \<noteq> CHR ''=''"
    using b64_char_ok_list unfolding list_all_iff by blast+
qed

lemma sextets_in_range:
  "byte_list bs \<Longrightarrow> list_all (\<lambda>n. 0 \<le> n \<and> n < 64) (bytes_to_sextets bs)"
  by (induction bs rule: bytes_to_sextets.induct) auto

lemma b64_values_map:
  "list_all (\<lambda>n. 0 \<le> n \<and> n < 64) ns \<Longrightarrow> b64_values (map b64_char ns) = Some ns"
  by (induction ns) (auto simp: b64_char_ok)

lemma digit_div: "0 \<le> c \<Longrightarrow> c < b \<Longrightarrow> (a * b + c) div b = a" for a b c :: int
  by (simp add: div_pos_pos_trivial)

lemma digit_mod: "0 \<le> c \<Longrightarrow> c < b \<Longrightarrow> (a * b + c) mod b = c" for a b c :: int
  by simp

lemma high_digit: "0 \<le> y \<Longrightarrow> y < 256 \<Longrightarrow> 0 \<le> y div 16 \<and> y div 16 < 16" for y :: int
  by auto

lemma top_digit: "0 \<le> y \<Longrightarrow> y < 256 \<Longrightarrow> 0 \<le> y div 64 \<and> y div 64 < 4" for y :: int
  by auto

lemma sextet_pairs:
  fixes a y :: int
  assumes "0 \<le> y" "y < 256"
  shows "(a * 16 + y div 16) div 16 = a" "(a * 16 + y div 16) mod 16 = y div 16"
    "(a * 4 + y div 64) div 4 = a" "(a * 4 + y div 64) mod 4 = y div 64"
  using high_digit [OF assms] top_digit [OF assms] by (auto intro: digit_div digit_mod)

lemma sextets_roundtrip: "byte_list bs \<Longrightarrow> sextets_to_bytes (bytes_to_sextets bs) = bs"
proof (induction bs rule: bytes_to_sextets.induct)
  case (1 x y z r)
  then show ?case by (simp only: bytes_to_sextets.simps sextets_to_bytes.simps byte_list_simps sextet_pairs)
      (simp add: div_mult_mod_eq)
next
  case (2 x y)
  then show ?case by (simp only: bytes_to_sextets.simps sextets_to_bytes.simps byte_list_simps sextet_pairs)
      (simp add: div_mult_mod_eq)
qed simp_all

lemma length_sextets: "length (bytes_to_sextets bs) = (4 * length bs + 2) div 3"
  by (induction bs rule: bytes_to_sextets.induct) auto

lemma endsWith_append [simp]: "endsWith (s @ p) p"
  by (simp add: endsWith_def)

lemma not_endsWith_pad:
  assumes "\<forall>c \<in> set s. c \<noteq> CHR ''=''" shows "\<not> endsWith s ''==''" "\<not> endsWith s ''=''"
proof -
  have "endsWith s p \<Longrightarrow> set p \<subseteq> set s" for p
    unfolding endsWith_def by (metis set_drop_subset)
  then have "\<not> endsWith s p" if "CHR ''='' \<in> set p" for p
    using that assms by blast
  then show "\<not> endsWith s ''==''" "\<not> endsWith s ''=''" by simp_all
qed

lemma sextet_count:
  "(4 * (3 * q) + 2) div 3 = 4 * q"
  "(4 * (3 * q + 1) + 2) div 3 = 4 * q + 2"
  "(4 * (3 * q + 2) + 2) div 3 = 4 * q + 3" for q :: nat
  by presburger+

lemma drop_padding_btoa:
  assumes "\<forall>c \<in> set s. c \<noteq> CHR ''=''" "length s = (4 * n + 2) div 3"
  shows "drop_padding (s @ (if n mod 3 = 1 then ''=='' else if n mod 3 = 2 then ''='' else [])) = s"
proof -
  obtain q r where n: "n = 3 * q + r" "r < 3"
    by (metis mult_div_mod_eq mod_less_divisor zero_less_numeral)
  consider "r = 0" | "r = 1" | "r = 2" using n by linarith
  then show ?thesis
  proof cases
    case 1
    then show ?thesis
      using n not_endsWith_pad [OF assms(1)] by (simp add: drop_padding_def)
  next
    case 2
    then have "length s = 4 * q + 2" using assms(2) n sextet_count(2) [of q] by simp
    then have "length (s @ ''=='') mod 4 = 0" by simp
    then show ?thesis using 2 n by (simp add: drop_padding_def)
  next
    case 3
    then have "length s = 4 * q + 3" using assms(2) n sextet_count(3) [of q] by simp
    then have "length (s @ ''='') = 4 * (q + 1)" by simp
    then have "length (s @ ''='') mod 4 = 0" by (metis mod_mult_self1_is_0)
    moreover have "\<not> endsWith (s @ ''='') ''==''"
      using assms(1) 3 n assms(2)
      by (cases s rule: rev_cases) (auto simp: endsWith_def)
    moreover have "n mod 3 = 2" using 3 n by presburger
    ultimately show ?thesis by (simp add: drop_padding_def)
  qed
qed

lemma atob_btoa: "byte_list bs \<Longrightarrow> atob (btoa bs) = Some bs"
proof -
  assume bytes: "byte_list bs"
  let ?s = "map b64_char (bytes_to_sextets bs)"
  have clean: "\<forall>c \<in> set ?s. \<not> b64_space c \<and> c \<noteq> CHR ''=''"
    using sextets_in_range [OF bytes] by (auto simp: list_all_iff b64_char_ok)
  have "filter (\<lambda>c. \<not> b64_space c) (btoa bs) = btoa bs"
    using clean by (auto simp: btoa_def b64_space_def intro!: filter_True)
  moreover have "drop_padding (btoa bs) = ?s"
    unfolding btoa_def using clean by (intro drop_padding_btoa) (auto simp: length_sextets)
  moreover have "length ?s mod 4 \<noteq> 1"
  proof -
    obtain q r where n: "length bs = 3 * q + r" "r < 3"
      by (metis mult_div_mod_eq mod_less_divisor zero_less_numeral)
    then consider "r = 0" | "r = 1" | "r = 2" by linarith
    then have "length ?s = 4 * q \<or> length ?s = 4 * q + 2 \<or> length ?s = 4 * q + 3"
      using n sextet_count [of q] by cases (simp_all add: length_sextets)
    then show ?thesis by presburger
  qed
  ultimately show ?thesis
    using bytes by (simp add: atob_def b64_values_map sextets_in_range sextets_roundtrip)
qed

end
