(* ===== verification/Live_Ticket.thy ===== *)
theory Live_Ticket
  imports Base64
begin

text \<open>
  The signed tickets that admit agents and viewers to the live channel
  (\<open>packages/contracts/src/live-ticket.ts\<close>). HMAC-SHA-256 of the platform is a parameter that takes the key
  and the message.
\<close>

unbundle bit_operations_syntax

definition LIVE_PROTOCOL :: string where
  "LIVE_PROTOCOL = ''alphaping.v1''"

definition LIVE_TICKET_PROTOCOL_PREFIX :: string where
  "LIVE_TICKET_PROTOCOL_PREFIX = ''alphaping.ticket.''"

record live_claims =
  lc_workspaceId :: string
  lc_subjectId :: string
  lc_topics :: "string list"
  lc_issuedAt :: int
  lc_notBefore :: int
  lc_expiresAt :: int

text \<open>The two roles; the projection is \<open>internal\<close> for an agent and \<open>machine-summary\<close> for a viewer.\<close>

datatype ticket_claims =
    Agent_claims live_claims (agent_sessionId: string) (agent_noncePrefix: string)
  | Viewer_claims live_claims

fun ticket_base :: "ticket_claims \<Rightarrow> live_claims" where
  "ticket_base (Agent_claims b _ _) = b"
| "ticket_base (Viewer_claims b) = b"

section \<open>Base64url\<close>

definition url_char :: "char \<Rightarrow> char" where
  "url_char c = (if c = CHR ''+'' then CHR ''-'' else if c = CHR ''/'' then CHR ''_'' else c)"

definition plain_char :: "char \<Rightarrow> char" where
  "plain_char c = (if c = CHR ''-'' then CHR ''+'' else if c = CHR ''_'' then CHR ''/'' else c)"

definition encodeBase64Url :: "blob \<Rightarrow> string" where
  "encodeBase64Url bytes = map url_char (filter (\<lambda>c. c \<noteq> CHR ''='') (btoa bytes))"

definition base64url_char :: "char \<Rightarrow> bool" where
  "base64url_char c \<longleftrightarrow>
     between CHR ''A'' CHR ''Z'' c \<or> between CHR ''a'' CHR ''z'' c \<or> between CHR ''0'' CHR ''9'' c
     \<or> c = CHR ''_'' \<or> c = CHR ''-''"

definition pad_end :: "nat \<Rightarrow> string \<Rightarrow> string" where
  "pad_end n s = s @ replicate (n - length s) CHR ''=''"

definition decodeBase64Url :: "string \<Rightarrow> nat \<Rightarrow> blob attempt" where
  "decodeBase64Url text maximumBytes =
     (if \<not> list_all base64url_char text \<or> length text > (maximumBytes * 4 + 2) div 3
      then raise_error ''invalid_base64url''
      else case atob (pad_end ((length text + 3) div 4 * 4) (map plain_char text)) of
          None \<Rightarrow> Inl (JsDomException ''InvalidCharacterError'')
        | Some bytes \<Rightarrow>
            if length bytes > maximumBytes then raise_error ''invalid_base64url'' else Inr bytes)"

section \<open>Signatures\<close>

type_synonym mac = "blob \<Rightarrow> blob \<Rightarrow> blob"

definition keyedDigest :: "mac \<Rightarrow> string \<Rightarrow> string \<Rightarrow> blob list \<Rightarrow> blob attempt" where
  "keyedDigest hmac secret label parts =
     (if length (text_encode secret) < 32 then raise_error ''invalid_live_ticket_secret''
      else Inr (hmac (text_encode secret) (text_encode label @ concat (map (\<lambda>part. 0 # part) parts))))"

definition timingSafeEqual :: "blob \<Rightarrow> blob \<Rightarrow> bool" where
  "timingSafeEqual left right =
     (if length left \<noteq> 32 \<or> length right \<noteq> 32 then False
      else fold (\<lambda>(l, r) difference. difference OR (l XOR r)) (zip left right) 0 = 0)"

section \<open>Claims\<close>

definition validScope :: "json option \<Rightarrow> nat \<Rightarrow> bool" where
  "validScope v maximum =
     (case v of Some (JStr s) \<Rightarrow> js_length s > 0 \<and> js_length s \<le> maximum | _ \<Rightarrow> False)"

definition validTimestamp :: "json option \<Rightarrow> bool" where
  "validTimestamp v =
     (case v of Some (JNum x) \<Rightarrow> is_integer_num x \<and> is_safe_integer \<lfloor>x\<rfloor> \<and> x \<ge> 0 | _ \<Rightarrow> False)"

text \<open>\<open>/^machine:[1-9][0-9]{0,19}$/\<close>.\<close>

definition digit_char :: "char \<Rightarrow> bool" where
  "digit_char c \<longleftrightarrow> between CHR ''0'' CHR ''9'' c"

definition machine_topic :: "string \<Rightarrow> bool" where
  "machine_topic s \<longleftrightarrow>
     startsWith s ''machine:'' \<and>
     (case drop 8 s of
        [] \<Rightarrow> False
      | c # r \<Rightarrow> between CHR ''1'' CHR ''9'' c \<and> length r \<le> 19 \<and> list_all digit_char r)"

fun claim_text :: "json option \<Rightarrow> string" where
  "claim_text (Some (JStr s)) = s"
| "claim_text _ = []"

fun claim_int :: "json option \<Rightarrow> int" where
  "claim_int (Some (JNum x)) = \<lfloor>x\<rfloor>"
| "claim_int _ = 0"

fun topic_list :: "json option \<Rightarrow> string list option" where
  "topic_list (Some (JArr [JStr t])) = (if machine_topic t then Some [t] else None)"
| "topic_list _ = None"

definition claims_refused :: "(string \<times> json) list \<Rightarrow> int \<Rightarrow> bool" where
  "claims_refused data now \<longleftrightarrow>
     jfield data ''version'' \<noteq> Some (JNum 1)
     \<or> \<not> validScope (jfield data ''workspaceId'') 128
     \<or> \<not> validScope (jfield data ''subjectId'') 128
     \<or> topic_list (jfield data ''topics'') = None
     \<or> \<not> validTimestamp (jfield data ''issuedAt'')
     \<or> \<not> validTimestamp (jfield data ''notBefore'')
     \<or> \<not> validTimestamp (jfield data ''expiresAt'')
     \<or> claim_int (jfield data ''notBefore'') > now + 5000
     \<or> claim_int (jfield data ''expiresAt'') \<le> now
     \<or> claim_int (jfield data ''issuedAt'') > now + 5000
     \<or> claim_int (jfield data ''notBefore'') < claim_int (jfield data ''issuedAt'') - 5000"

definition claims_base :: "(string \<times> json) list \<Rightarrow> live_claims" where
  "claims_base data =
     \<lparr>lc_workspaceId = claim_text (jfield data ''workspaceId''),
      lc_subjectId = claim_text (jfield data ''subjectId''),
      lc_topics = the (topic_list (jfield data ''topics'')),
      lc_issuedAt = claim_int (jfield data ''issuedAt''),
      lc_notBefore = claim_int (jfield data ''notBefore''),
      lc_expiresAt = claim_int (jfield data ''expiresAt'')\<rparr>"

text \<open>\<open>typeof v === "string" && decodeBase64Url(v, n).byteLength === n\<close>.\<close>

definition encoded_bytes :: "nat \<Rightarrow> json option \<Rightarrow> bool attempt" where
  "encoded_bytes n v =
     (case v of
        Some (JStr text) \<Rightarrow> bind_result (decodeBase64Url text n) (\<lambda>bytes. Inr (length bytes = n))
      | _ \<Rightarrow> Inr False)"

definition parseClaims :: "json \<Rightarrow> int \<Rightarrow> ticket_claims attempt" where
  "parseClaims parsed now =
     (case parsed of
        JObj data \<Rightarrow>
          if claims_refused data now then raise_error ''invalid_ticket''
          else
            let base = claims_base data in
            if jfield data ''role'' = Some (JStr ''viewer'')
              \<and> jfield data ''projection'' = Some (JStr ''machine-summary'')
              \<and> lc_expiresAt base - lc_issuedAt base \<le> 5 * 60000
              \<and> jfield data ''sessionId'' = None \<and> jfield data ''noncePrefix'' = None
            then Inr (Viewer_claims base)
            else if jfield data ''role'' = Some (JStr ''agent'')
              \<and> jfield data ''projection'' = Some (JStr ''internal'')
              \<and> lc_expiresAt base - lc_issuedAt base \<le> 15 * 60000
            then
              bind_result (encoded_bytes 16 (jfield data ''sessionId'')) (\<lambda>session_ok.
                if \<not> session_ok then raise_error ''invalid_ticket''
                else bind_result (encoded_bytes 4 (jfield data ''noncePrefix'')) (\<lambda>prefix_ok.
                  if \<not> prefix_ok then raise_error ''invalid_ticket''
                  else Inr (Agent_claims base (claim_text (jfield data ''sessionId''))
                    (claim_text (jfield data ''noncePrefix'')))))
            else raise_error ''invalid_ticket''
      | _ \<Rightarrow> raise_error ''invalid_ticket'')"

section \<open>Signing and verifying\<close>

definition signClaims :: "platform \<Rightarrow> mac \<Rightarrow> json \<Rightarrow> string \<Rightarrow> string attempt" where
  "signClaims pf hmac claims secret =
     (let payloadPart = encodeBase64Url (text_encode (JSON_stringify pf claims)) in
      bind_result (keyedDigest hmac secret ''alphaping/v1/live-ticket'' [text_encode payloadPart]) (\<lambda>signature.
        Inr (payloadPart @ ''.'' @ encodeBase64Url signature)))"

definition viewer_claims_json :: "string \<Rightarrow> string \<Rightarrow> int \<Rightarrow> int \<Rightarrow> json" where
  "viewer_claims_json workspaceId subjectId machinePk now =
     JObj [(''version'', JNum 1), (''workspaceId'', JStr workspaceId), (''subjectId'', JStr subjectId),
       (''role'', JStr ''viewer''), (''topics'', JArr [JStr (''machine:'' @ int_to_string machinePk)]),
       (''projection'', JStr ''machine-summary''), (''issuedAt'', JNum (of_int now)),
       (''notBefore'', JNum (of_int (max 0 (now - 5000)))),
       (''expiresAt'', JNum (of_int (now + 5 * 60000)))]"

definition signViewerLiveTicket ::
  "platform \<Rightarrow> mac \<Rightarrow> string \<Rightarrow> string \<Rightarrow> int \<Rightarrow> string \<Rightarrow> int \<Rightarrow> (string \<times> int) attempt" where
  "signViewerLiveTicket pf hmac workspaceId subjectId machinePk secret now =
     (if \<not> is_safe_integer machinePk \<or> machinePk \<le> 0 then raise_error ''invalid_machine_scope''
      else bind_result (signClaims pf hmac (viewer_claims_json workspaceId subjectId machinePk now) secret)
        (\<lambda>ticket. Inr (ticket, now + 5 * 60000)))"

definition verifyLiveTicket ::
  "platform \<Rightarrow> mac \<Rightarrow> string \<Rightarrow> string \<Rightarrow> int \<Rightarrow> ticket_claims attempt" where
  "verifyLiveTicket pf hmac token secret now =
     (case split_char CHR ''.'' token of
        [payloadPart, signaturePart] \<Rightarrow>
          if payloadPart = [] \<or> signaturePart = [] \<or> js_length token > 4096 then raise_error ''invalid_ticket''
          else
            bind_result (keyedDigest hmac secret ''alphaping/v1/live-ticket'' [text_encode payloadPart]) (\<lambda>expected.
            bind_result (decodeBase64Url signaturePart 32) (\<lambda>actual.
              if \<not> timingSafeEqual expected actual then raise_error ''invalid_ticket''
              else bind_result (decodeBase64Url payloadPart 4096) (\<lambda>payload.
                case JSON_parse pf (TextDecoder_decode payload) of
                  None \<Rightarrow> Inl JsEngineError
                | Some parsed \<Rightarrow> parseClaims parsed now)))
      | _ \<Rightarrow> raise_error ''invalid_ticket'')"

definition ticketFromProtocols :: "headers \<Rightarrow> string attempt" where
  "ticketFromProtocols hs =
     bind_result (headers_get hs ''sec-websocket-protocol'') (\<lambda>header.
       case header of
         None \<Rightarrow> raise_error ''missing_live_protocol''
       | Some text \<Rightarrow>
           let protocols = map js_trim (split_char CHR '','' text) in
           if LIVE_PROTOCOL \<notin> set protocols then raise_error ''missing_live_protocol''
           else (case find (\<lambda>protocol. startsWith protocol LIVE_TICKET_PROTOCOL_PREFIX) protocols of
               None \<Rightarrow> raise_error ''missing_ticket''
             | Some encoded \<Rightarrow> Inr (drop (length LIVE_TICKET_PROTOCOL_PREFIX) encoded)))"

definition deriveAgentLiveKey :: "mac \<Rightarrow> string \<Rightarrow> string \<Rightarrow> blob attempt" where
  "deriveAgentLiveKey hmac secret sessionId =
     bind_result (decodeBase64Url sessionId 16) (\<lambda>sessionBytes.
       if length sessionBytes \<noteq> 16 then raise_error ''invalid_session''
       else keyedDigest hmac secret ''alphaping/v1/live-key'' [sessionBytes])"

end
