(* ===== verification/Telemetry_Blocks.thy ===== *)
theory Telemetry_Blocks
  imports Prelude
begin

text \<open>
  Five-minute storage blocks. \<open>packages/contracts/src/telemetry.ts\<close> places a minute in a block and a
  slot of it; \<open>packages/db/src/repositories/telemetry-blocks.ts\<close> and \<open>check-results.ts\<close> write a machine
  report or a check result into that slot with an upsert that refuses to replace another writer's
  entry. The locale \<open>slot_store\<close> is the contract of both writers.
\<close>

section \<open>Minutes, blocks and slots\<close>

definition REPORT_INTERVAL_SECONDS :: int where "REPORT_INTERVAL_SECONDS = 60"
definition REPORTS_PER_BLOCK :: int where "REPORTS_PER_BLOCK = 5"
definition BLOCK_INTERVAL_MS :: int where
  "BLOCK_INTERVAL_MS = REPORT_INTERVAL_SECONDS * REPORTS_PER_BLOCK * 1000"

lemma BLOCK_INTERVAL_MS [simp]: "BLOCK_INTERVAL_MS = 300000"
  by (simp add: BLOCK_INTERVAL_MS_def REPORT_INTERVAL_SECONDS_def REPORTS_PER_BLOCK_def)

definition floorToMinute :: "millis \<Rightarrow> millis" where
  "floorToMinute t = t div 60000 * 60000"

definition floorToFiveMinuteBlock :: "millis \<Rightarrow> millis" where
  "floorToFiveMinuteBlock t = t div BLOCK_INTERVAL_MS * BLOCK_INTERVAL_MS"

definition reportSlot :: "millis \<Rightarrow> nat result" where
  "reportSlot t =
     (let slot = (floorToMinute t - floorToFiveMinuteBlock t) div 60000
      in if slot < 0 \<or> slot \<ge> REPORTS_PER_BLOCK then throw ''invalid report slot''
         else Inr (nat slot))"

definition slot_index :: "millis \<Rightarrow> nat" where
  "slot_index t = nat (t div 60000 mod 5)"

lemma block_quotient: "(t::int) div 300000 = t div 60000 div 5"
  using div_mult2_eq' [of t 60000 5] zdiv_zmult2_eq [of 5 t 60000] by simp

lemma slot_difference: "(floorToMinute t - floorToFiveMinuteBlock t) div 60000 = t div 60000 mod 5"
proof -
  have "floorToMinute t - floorToFiveMinuteBlock t = (t div 60000 mod 5) * 60000"
    unfolding floorToMinute_def floorToFiveMinuteBlock_def BLOCK_INTERVAL_MS block_quotient
    by presburger
  then show ?thesis by simp
qed

lemma reportSlot_eq: "reportSlot t = Inr (slot_index t)"
proof -
  have "\<not> (q mod 5 < 0 \<or> 5 \<le> q mod 5)" for q :: int by (simp add: not_less)
  then show ?thesis
    unfolding reportSlot_def slot_difference REPORTS_PER_BLOCK_def slot_index_def Let_def
    by (simp only: if_False)
qed

lemma slot_index_less [simp]: "slot_index t < 5"
  using pos_mod_bound [of 5 "t div 60000"] by (simp add: slot_index_def nat_less_iff)

lemma minute_of_slot:
  "floorToMinute t = floorToFiveMinuteBlock t + 60000 * int (slot_index t)"
proof -
  have "int (slot_index t) = t div 60000 mod 5" by (simp add: slot_index_def)
  then show ?thesis
    unfolding floorToMinute_def floorToFiveMinuteBlock_def BLOCK_INTERVAL_MS block_quotient
    by presburger
qed

lemma same_minute_iff:
  "floorToFiveMinuteBlock t = floorToFiveMinuteBlock u \<and> slot_index t = slot_index u \<longleftrightarrow>
    t div 60000 = u div 60000"
proof
  assume "floorToFiveMinuteBlock t = floorToFiveMinuteBlock u \<and> slot_index t = slot_index u"
  then have "floorToMinute t = floorToMinute u" by (simp add: minute_of_slot)
  then show "t div 60000 = u div 60000" by (simp add: floorToMinute_def)
next
  assume "t div 60000 = u div 60000"
  then show "floorToFiveMinuteBlock t = floorToFiveMinuteBlock u \<and> slot_index t = slot_index u"
    by (simp add: floorToFiveMinuteBlock_def block_quotient slot_index_def)
qed

section \<open>Blocks and their writers\<close>

text \<open>
  A row of \<open>telemetry_blocks_5m\<close> or \<open>check_result_blocks_5m\<close>. The columns \<open>report_0 .. report_4\<close>
  (\<open>result_0 .. result_4\<close>), their ids and their hashes are three lists of five nullable values.
\<close>

record block_row =
  b_pk :: pk
  b_workspace :: pk
  b_start :: millis
  b_payloads :: "blob option list"
  b_ids :: "blob option list"
  b_hashes :: "blob option list"
  b_schema :: int
  b_flags :: int

record block_write =
  w_pk :: pk
  w_workspace :: pk
  w_minute :: millis
  w_id :: blob
  w_hash :: blob
  w_payload :: blob
  w_schema :: int

text \<open>The prepared statement: the bound values with the block and the slot its text names.\<close>

record prepared_write =
  p_write :: block_write
  p_blockStart :: millis
  p_slot :: nat

definition prepareTelemetryBlockWrite :: "block_write \<Rightarrow> prepared_write result" where
  "prepareTelemetryBlockWrite input =
     (let blockStart = floorToFiveMinuteBlock (w_minute input)
      in bind_result (reportSlot (w_minute input))
           (\<lambda>slot. Inr \<lparr>p_write = input, p_blockStart = blockStart, p_slot = slot\<rparr>))"

definition prepareCheckBlockWrite :: "block_write \<Rightarrow> prepared_write result" where
  "prepareCheckBlockWrite input =
     (let blockStart = floorToFiveMinuteBlock (w_minute input)
      in bind_result (reportSlot (w_minute input))
           (\<lambda>slot. Inr \<lparr>p_write = input, p_blockStart = blockStart, p_slot = slot\<rparr>))"

definition block_key :: "block_row \<Rightarrow> pk \<times> millis" where
  "block_key r = (b_pk r, b_start r)"

definition inserted_block :: "prepared_write \<Rightarrow> block_row" where
  "inserted_block q =
     (let w = p_write q; blank = replicate 5 None; i = p_slot q
      in \<lparr>b_pk = w_pk w, b_workspace = w_workspace w, b_start = p_blockStart q,
          b_payloads = blank[i := Some (w_payload w)], b_ids = blank[i := Some (w_id w)],
          b_hashes = blank[i := Some (w_hash w)], b_schema = w_schema w, b_flags = 0\<rparr>)"

definition assign_slot :: "prepared_write \<Rightarrow> block_row \<Rightarrow> block_row" where
  "assign_slot q old =
     (let w = p_write q; i = p_slot q
      in old\<lparr>b_payloads := (b_payloads old)[i := Some (w_payload w)],
             b_ids := (b_ids old)[i := Some (w_id w)],
             b_hashes := (b_hashes old)[i := Some (w_hash w)],
             b_schema := w_schema w\<rparr>)"

definition slot_open :: "prepared_write \<Rightarrow> block_row \<Rightarrow> bool" where
  "slot_open q old \<longleftrightarrow>
     (let w = p_write q; i = p_slot q
      in b_ids old ! i = None \<or>
         b_ids old ! i = Some (w_id w) \<and> b_hashes old ! i = Some (w_hash w))"

definition runTelemetryBlockWrite :: "prepared_write \<Rightarrow> block_row list \<Rightarrow> block_row list" where
  "runTelemetryBlockWrite q t =
     upsert block_key (inserted_block q) (slot_open q) (assign_slot q) t"

definition runCheckBlockWrite :: "prepared_write \<Rightarrow> block_row list \<Rightarrow> block_row list" where
  "runCheckBlockWrite q t =
     upsert block_key (inserted_block q)
       (\<lambda>old. b_workspace old = w_workspace (p_write q) \<and> slot_open q old) (assign_slot q) t"

text \<open>Preparing and running, the way the callers do.\<close>

definition writeTelemetry :: "block_write \<Rightarrow> block_row list \<Rightarrow> block_row list" where
  "writeTelemetry w t =
     (case prepareTelemetryBlockWrite w of Inl _ \<Rightarrow> t | Inr q \<Rightarrow> runTelemetryBlockWrite q t)"

definition writeCheckResult :: "block_write \<Rightarrow> block_row list \<Rightarrow> block_row list" where
  "writeCheckResult w t =
     (case prepareCheckBlockWrite w of Inl _ \<Rightarrow> t | Inr q \<Rightarrow> runCheckBlockWrite q t)"

section \<open>Reading a slot back\<close>

type_synonym slot_entry = "blob \<times> blob option \<times> blob option"

definition entry_at :: "block_row \<Rightarrow> nat \<Rightarrow> slot_entry option" where
  "entry_at r i = map_option (\<lambda>rid. (rid, b_hashes r ! i, b_payloads r ! i)) (b_ids r ! i)"

definition stored :: "block_row list \<Rightarrow> pk \<Rightarrow> millis \<Rightarrow> slot_entry option" where
  "stored t k m =
     Option.bind (row_of block_key (k, floorToFiveMinuteBlock m) t) (\<lambda>r. entry_at r (slot_index m))"

definition entry_of :: "block_write \<Rightarrow> slot_entry" where
  "entry_of w = (w_id w, Some (w_hash w), Some (w_payload w))"

definition wf_blocks :: "block_row list \<Rightarrow> bool" where
  "wf_blocks t \<longleftrightarrow> keyed block_key t \<and>
     (\<forall>r \<in> set t. length (b_payloads r) = 5 \<and> length (b_ids r) = 5 \<and> length (b_hashes r) = 5)"

locale slot_store =
  fixes put :: "block_write \<Rightarrow> block_row list \<Rightarrow> block_row list"
    and accepts :: "block_write \<Rightarrow> block_row list \<Rightarrow> bool"
  assumes stored_write: "wf_blocks t \<Longrightarrow> stored (put w t) k m =
      (if k = w_pk w \<and> m div 60000 = w_minute w div 60000 \<and> accepts w t
       then Some (entry_of w) else stored t k m)"
    and accepts_stored: "wf_blocks t \<Longrightarrow> accepts w t \<Longrightarrow>
      stored t (w_pk w) (w_minute w) = Some (rid, h, p) \<Longrightarrow> rid = w_id w \<and> h = Some (w_hash w)"
    and accepts_again: "wf_blocks t \<Longrightarrow> accepts w (put w t) = accepts w t"
    and wf_write: "wf_blocks t \<Longrightarrow> wf_blocks (put w t)"
begin

lemma stored_minute: "m div 60000 = n div 60000 \<Longrightarrow> stored t k m = stored t k n"
  using same_minute_iff [of m n] by (simp add: stored_def)

lemma retry_is_noop:
  assumes "wf_blocks t"
  shows "stored (put w (put w t)) = stored (put w t)"
  using assms by (intro ext) (simp add: stored_write accepts_again wf_write)

lemma writer_kept:
  assumes "wf_blocks t" "stored t k m = Some (rid, h, p)"
  shows "\<exists>p'. stored (put w t) k m = Some (rid, h, p')"
proof (cases "k = w_pk w \<and> m div 60000 = w_minute w div 60000 \<and> accepts w t")
  case True
  then have "stored t (w_pk w) (w_minute w) = Some (rid, h, p)"
    using assms(2) stored_minute [of m "w_minute w" t k] by simp
  then have "rid = w_id w \<and> h = Some (w_hash w)"
    using accepts_stored [OF assms(1)] True by blast
  then show ?thesis using True by (simp add: stored_write [OF assms(1)] entry_of_def)
next
  case False
  then show ?thesis using assms by (auto simp: stored_write)
qed

lemma wf_writes: "wf_blocks t \<Longrightarrow> wf_blocks (fold put ws t)"
  by (induction ws arbitrary: t) (auto intro: wf_write)

lemma first_writer_wins:
  assumes "wf_blocks t" "stored t k m = Some (rid, h, p)"
  shows "\<exists>p'. stored (fold put ws t) k m = Some (rid, h, p')"
  using assms
proof (induction ws arbitrary: t p)
  case (Cons w ws)
  then obtain p' where "stored (put w t) k m = Some (rid, h, p')" using writer_kept by blast
  then show ?case using Cons wf_write by simp
qed simp

end

section \<open>Both writers meet the contract\<close>

lemma block_key_assign [simp]: "block_key (assign_slot q r) = block_key r"
  by (simp add: block_key_def assign_slot_def Let_def)

definition prepared :: "block_write \<Rightarrow> prepared_write" where
  "prepared w = \<lparr>p_write = w, p_blockStart = floorToFiveMinuteBlock (w_minute w),
     p_slot = slot_index (w_minute w)\<rparr>"

lemma prepared_sel [simp]:
  "p_write (prepared w) = w"
  "p_blockStart (prepared w) = floorToFiveMinuteBlock (w_minute w)"
  "p_slot (prepared w) = slot_index (w_minute w)"
  by (simp_all add: prepared_def)

lemma prepare_eq:
  "prepareTelemetryBlockWrite w = Inr (prepared w)"
  "prepareCheckBlockWrite w = Inr (prepared w)"
  by (simp_all add: prepareTelemetryBlockWrite_def prepareCheckBlockWrite_def reportSlot_eq
      prepared_def Let_def)

lemma block_key_inserted [simp]:
  "block_key (inserted_block (prepared w)) = (w_pk w, floorToFiveMinuteBlock (w_minute w))"
  by (simp add: inserted_block_def block_key_def Let_def)

lemma entry_at_inserted:
  "i < 5 \<Longrightarrow> entry_at (inserted_block (prepared w)) i =
    (if i = slot_index (w_minute w) then Some (entry_of w) else None)"
  by (auto simp: entry_at_def inserted_block_def entry_of_def Let_def nth_list_update)

lemma entry_at_assign:
  "length (b_payloads r) = 5 \<Longrightarrow> length (b_ids r) = 5 \<Longrightarrow> length (b_hashes r) = 5 \<Longrightarrow> i < 5 \<Longrightarrow>
    entry_at (assign_slot (prepared w) r) i =
    (if i = slot_index (w_minute w) then Some (entry_of w) else entry_at r i)"
  by (auto simp: entry_at_def assign_slot_def entry_of_def Let_def nth_list_update)

text \<open>The two writers differ in the guard only; \<open>ok\<close> is what the guard adds to \<open>slot_open\<close>.\<close>

definition write_with ::
  "(block_write \<Rightarrow> block_row \<Rightarrow> bool) \<Rightarrow> block_write \<Rightarrow> block_row list \<Rightarrow> block_row list" where
  "write_with ok w t =
     upsert block_key (inserted_block (prepared w))
       (\<lambda>old. ok w old \<and> slot_open (prepared w) old) (assign_slot (prepared w)) t"

definition accepts_with ::
  "(block_write \<Rightarrow> block_row \<Rightarrow> bool) \<Rightarrow> block_write \<Rightarrow> block_row list \<Rightarrow> bool" where
  "accepts_with ok w t =
     (case row_of block_key (w_pk w, floorToFiveMinuteBlock (w_minute w)) t of
        None \<Rightarrow> True
      | Some old \<Rightarrow> ok w old \<and> slot_open (prepared w) old)"

lemma writeTelemetry_with: "writeTelemetry = write_with (\<lambda>_ _. True)"
  by (simp add: fun_eq_iff writeTelemetry_def write_with_def prepare_eq runTelemetryBlockWrite_def)

lemma writeCheckResult_with:
  "writeCheckResult = write_with (\<lambda>w old. b_workspace old = w_workspace w)"
  by (simp add: fun_eq_iff writeCheckResult_def write_with_def prepare_eq runCheckBlockWrite_def)

lemma row_of_write_with:
  "row_of block_key k (write_with ok w t) =
    (if k = (w_pk w, floorToFiveMinuteBlock (w_minute w))
     then (case row_of block_key k t of
             None \<Rightarrow> Some (inserted_block (prepared w))
           | Some old \<Rightarrow> Some (if ok w old \<and> slot_open (prepared w) old
                             then assign_slot (prepared w) old else old))
     else row_of block_key k t)"
  by (simp add: write_with_def row_of_upsert)

lemma wf_blocks_row:
  "wf_blocks t \<Longrightarrow> row_of block_key k t = Some r \<Longrightarrow>
    length (b_payloads r) = 5 \<and> length (b_ids r) = 5 \<and> length (b_hashes r) = 5"
  by (auto simp: wf_blocks_def dest: row_of_SomeD)

lemma stored_write_with:
  assumes "wf_blocks t"
  shows "stored (write_with ok w t) k m =
    (if k = w_pk w \<and> m div 60000 = w_minute w div 60000 \<and> accepts_with ok w t
     then Some (entry_of w) else stored t k m)"
  using same_minute_iff [of m "w_minute w"] wf_blocks_row [OF assms]
  by (auto simp: stored_def row_of_write_with accepts_with_def entry_at_inserted entry_at_assign
      split: option.splits)

lemma wf_write_with: "wf_blocks t \<Longrightarrow> wf_blocks (write_with ok w t)"
  by (auto simp: wf_blocks_def write_with_def keyed_upsert)
    (auto simp: upsert_def set_update_where inserted_block_def assign_slot_def Let_def
      split: if_splits)

lemma slot_open_again:
  "length (b_ids r) = 5 \<Longrightarrow> length (b_hashes r) = 5 \<Longrightarrow>
    slot_open (prepared w) (assign_slot (prepared w) r)"
  "slot_open (prepared w) (inserted_block (prepared w))"
  by (auto simp: slot_open_def assign_slot_def inserted_block_def Let_def)

lemma slot_store_with:
  assumes ok: "\<And>w r. ok w (assign_slot (prepared w) r) = ok w r"
    "\<And>w. ok w (inserted_block (prepared w))"
  shows "slot_store (write_with ok) (accepts_with ok)"
proof
  fix t w k m rid h p assume t: "wf_blocks t"
  show "stored (write_with ok w t) k m =
      (if k = w_pk w \<and> m div 60000 = w_minute w div 60000 \<and> accepts_with ok w t
       then Some (entry_of w) else stored t k m)"
    by (rule stored_write_with [OF t])
  show "wf_blocks (write_with ok w t)" by (rule wf_write_with [OF t])
  show "accepts_with ok w (write_with ok w t) = accepts_with ok w t"
    using wf_blocks_row [OF t] ok
    by (auto simp: accepts_with_def row_of_write_with slot_open_again split: option.splits)
  assume "accepts_with ok w t" "stored t (w_pk w) (w_minute w) = Some (rid, h, p)"
  then show "rid = w_id w \<and> h = Some (w_hash w)"
    by (auto simp: accepts_with_def stored_def entry_at_def slot_open_def Let_def
        split: option.splits)
qed

interpretation reports: slot_store writeTelemetry "accepts_with (\<lambda>_ _. True)"
  unfolding writeTelemetry_with by (rule slot_store_with) auto

interpretation results: slot_store writeCheckResult
    "accepts_with (\<lambda>w old. b_workspace old = w_workspace w)"
  unfolding writeCheckResult_with
  by (rule slot_store_with) (auto simp: assign_slot_def inserted_block_def Let_def)

section \<open>Properties\<close>

text \<open>
  \<open>reportSlot\<close> never raises its \<open>RangeError\<close>: on every timestamp, negative ones included, it
  returns a slot below five, and block start and slot together give back the minute exactly, so two
  timestamps share block and slot just when they lie in the same minute.
\<close>

theorem reportSlot_total:
  "\<exists>slot. reportSlot t = Inr slot \<and> slot < 5 \<and>
     floorToMinute t = floorToFiveMinuteBlock t + 60000 * int slot \<and>
     floorToFiveMinuteBlock t \<le> t \<and> t < floorToFiveMinuteBlock t + 300000 \<and>
     (floorToFiveMinuteBlock t = floorToFiveMinuteBlock u \<and> reportSlot u = Inr slot \<longleftrightarrow>
      floorToMinute t = floorToMinute u)"
proof -
  have "floorToFiveMinuteBlock t \<le> t" "t < floorToFiveMinuteBlock t + 300000"
    unfolding floorToFiveMinuteBlock_def BLOCK_INTERVAL_MS by presburger+
  moreover have "floorToMinute t = floorToMinute u \<longleftrightarrow> t div 60000 = u div 60000"
    by (simp add: floorToMinute_def)
  ultimately show ?thesis
    using minute_of_slot [of t] same_minute_iff [of t u] by (auto simp: reportSlot_eq)
qed

text \<open>
  C3. First writer wins, whatever is written later: once a slot of a block holds a report (a check
  result), no sequence of further writes, from any agent and for any minute, replaces its id or its
  payload hash. Holds for both tables.
\<close>

theorem block_first_writer_wins:
  assumes "wf_blocks t" "stored t k m = Some (rid, h, p)"
  shows "(\<exists>p'. stored (fold writeTelemetry ws t) k m = Some (rid, h, p')) \<and>
    (\<exists>p'. stored (fold writeCheckResult ws t) k m = Some (rid, h, p'))"
  using reports.first_writer_wins [OF assms] results.first_writer_wins [OF assms] by blast

definition sample_block :: "block_row list" where
  "sample_block = [\<lparr>b_pk = 7, b_workspace = 1, b_start = 300000,
     b_payloads = [None, Some [9], None, None, None], b_ids = [None, Some [1], None, None, None],
     b_hashes = [None, Some [2], None, None, None], b_schema = 1, b_flags = 0\<rparr>]"

theorem block_first_writer_wins_witness:
  "\<exists>p'. stored (fold writeTelemetry
     [\<lparr>w_pk = 7, w_workspace = 1, w_minute = 360000, w_id = [5], w_hash = [6], w_payload = [8],
       w_schema = 1\<rparr>] sample_block) 7 360000 = Some ([1], Some [2], p')"
proof -
  have wf: "wf_blocks sample_block"
    by (simp add: wf_blocks_def sample_block_def)
  have st: "stored sample_block 7 360000 = Some ([1], Some [2], Some [9])"
    by (simp add: stored_def sample_block_def block_key_def floorToFiveMinuteBlock_def entry_at_def
        slot_index_def)
  show ?thesis using block_first_writer_wins [OF wf st] by blast
qed

text \<open>
  A write lands and a retry of it changes nothing: writing into a block that does not exist, or
  into an empty slot (of the same workspace for check results), stores exactly the written entry and
  no other slot of any block changes; writing the same report again leaves every slot as it was.
\<close>

theorem block_write_lands:
  assumes "wf_blocks t" "stored t (w_pk w) (w_minute w) = None"
    and "\<forall>r \<in> set t. b_pk r = w_pk w \<longrightarrow> b_workspace r = w_workspace w"
  shows "stored (writeTelemetry w t) (w_pk w) (w_minute w) = Some (entry_of w) \<and>
    stored (writeCheckResult w t) (w_pk w) (w_minute w) = Some (entry_of w) \<and>
    stored (writeTelemetry w (writeTelemetry w t)) = stored (writeTelemetry w t) \<and>
    stored (writeCheckResult w (writeCheckResult w t)) = stored (writeCheckResult w t) \<and>
    ((k, m div 60000) \<noteq> (w_pk w, w_minute w div 60000) \<longrightarrow>
      stored (writeTelemetry w t) k m = stored t k m \<and> stored (writeCheckResult w t) k m = stored t k m)"
proof -
  have acc: "accepts_with (\<lambda>_ _. True) w t"
    "accepts_with (\<lambda>w old. b_workspace old = w_workspace w) w t"
    using assms(2,3)
    by (cases "row_of block_key (w_pk w, floorToFiveMinuteBlock (w_minute w)) t",
        auto simp: accepts_with_def stored_def entry_at_def slot_open_def Let_def block_key_def
        dest: row_of_SomeD)+
  show ?thesis
    using acc reports.stored_write [OF assms(1)] results.stored_write [OF assms(1)]
      reports.retry_is_noop [OF assms(1)] results.retry_is_noop [OF assms(1)]
    by auto
qed

theorem block_write_lands_witness:
  "stored (writeCheckResult \<lparr>w_pk = 7, w_workspace = 1, w_minute = 420000, w_id = [5], w_hash = [6],
      w_payload = [8], w_schema = 1\<rparr> sample_block) 7 420000 = Some ([5], Some [6], Some [8])"
proof -
  let ?w = "\<lparr>w_pk = 7, w_workspace = 1, w_minute = 420000, w_id = [5], w_hash = [6],
      w_payload = [8], w_schema = 1\<rparr>"
  have wf: "wf_blocks sample_block" by (simp add: wf_blocks_def sample_block_def)
  have st: "stored sample_block (w_pk ?w) (w_minute ?w) = None"
    by (simp add: stored_def sample_block_def block_key_def floorToFiveMinuteBlock_def entry_at_def
        slot_index_def)
  have ws: "\<forall>r \<in> set sample_block. b_pk r = w_pk ?w \<longrightarrow> b_workspace r = w_workspace ?w"
    by (simp add: sample_block_def)
  show ?thesis using block_write_lands [OF wf st ws] by (simp add: entry_of_def)
qed

end
