(* ===== verification/Telemetry_Db.thy ===== *)
theory Telemetry_Db
  imports Json Telemetry_Blocks
begin

text \<open>
  The rows of the telemetry database that the workers read and write, with the primary keys of
  \<open>packages/db/migrations/telemetry\<close>, and the insertion of a state event, whose trigger also appends to
  the notification queue. Blob columns are byte lists and state columns are values of \<open>health\<close>, the
  union of the states the program stores for checks, services and machines.
\<close>

datatype health = Healthy | Degraded | Down | Unknown | Maintenance | Offline

text \<open>The text of a state, as it appears in the columns and in reason codes.\<close>

fun health_text :: "health \<Rightarrow> string" where
  "health_text Healthy = ''healthy''"
| "health_text Degraded = ''degraded''"
| "health_text Down = ''down''"
| "health_text Unknown = ''unknown''"
| "health_text Maintenance = ''maintenance''"
| "health_text Offline = ''offline''"

record check_latest_row =
  cl_check_pk :: pk
  cl_workspace :: pk
  cl_service :: pk
  cl_observed_at :: millis
  cl_state :: health
  cl_latency :: "rat option"
  cl_failure_code :: "string option"
  cl_failure_summary :: "string option"
  cl_failures :: int
  cl_successes :: int
  cl_critical :: int
  cl_revision :: int
  cl_result_id :: blob

record service_latest_row =
  sl_service_pk :: pk
  sl_workspace :: pk
  sl_state :: health
  sl_status_since :: millis
  sl_reason :: string
  sl_last_transition_at :: millis
  sl_updated_at :: millis

record machine_latest_row =
  ml_machine_pk :: pk
  ml_workspace :: pk
  ml_received_at :: millis
  ml_state :: health

record state_event =
  ev_workspace :: pk
  ev_type :: int
  ev_resource_pk :: pk
  ev_occurred_at :: millis
  ev_id :: blob
  ev_previous :: health
  ev_current :: health
  ev_reason :: string

record queued_event =
  qe_sequence :: int
  qe_workspace :: pk
  qe_type :: int
  qe_resource_pk :: pk
  qe_occurred_at :: millis
  qe_id :: blob

record rollup_row =
  ro_check_pk :: pk
  ro_workspace :: pk
  ro_bucket_start :: millis
  ro_total :: int
  ro_healthy :: int
  ro_degraded :: int
  ro_down :: int
  ro_latency_avg :: "int option"
  ro_latency_max :: "rat option"

record status_bucket =
  sb_type :: int
  sb_pk :: pk
  sb_workspace :: pk
  sb_start :: millis
  sb_seconds :: int
  sb_state :: health
  sb_availability :: int
  sb_latency_avg :: "int option"
  sb_latency_max :: "rat option"
  sb_summary :: string

record telemetry_db =
  td_check_blocks :: "block_row list"
  td_check_latest :: "check_latest_row list"
  td_service_latest :: "service_latest_row list"
  td_machine_latest :: "machine_latest_row list"
  td_state_events :: "state_event list"
  td_queue :: "queued_event list"
  td_queue_high :: int
  td_rollups_5m :: "rollup_row list"
  td_rollups_1h :: "rollup_row list"
  td_status_buckets :: "status_bucket list"

definition event_key :: "state_event \<Rightarrow> int \<times> pk \<times> millis \<times> blob" where
  "event_key e = (ev_type e, ev_resource_pk e, ev_occurred_at e, ev_id e)"

definition rollup_key :: "rollup_row \<Rightarrow> pk \<times> millis" where
  "rollup_key r = (ro_check_pk r, ro_bucket_start r)"

definition bucket_key :: "status_bucket \<Rightarrow> int \<times> pk \<times> int \<times> millis" where
  "bucket_key b = (sb_type b, sb_pk b, sb_seconds b, sb_start b)"

text \<open>
  The trigger \<open>state_events_notification_queue\<close>: a new event takes the next value of the
  autoincrement sequence, whose high-water mark survives deletions.
\<close>

definition queue_event :: "state_event \<Rightarrow> telemetry_db \<Rightarrow> telemetry_db" where
  "queue_event e db =
     db\<lparr>td_queue := td_queue db @
          [\<lparr>qe_sequence = td_queue_high db + 1, qe_workspace = ev_workspace e, qe_type = ev_type e,
            qe_resource_pk = ev_resource_pk e, qe_occurred_at = ev_occurred_at e, qe_id = ev_id e\<rparr>],
        td_queue_high := td_queue_high db + 1\<rparr>"

text \<open>\<open>INSERT OR IGNORE INTO state_events\<close> with \<open>changes()\<close>.\<close>

definition insert_event :: "state_event \<Rightarrow> telemetry_db \<Rightarrow> telemetry_db \<times> nat" where
  "insert_event e db =
     (if has_key event_key (event_key e) (td_state_events db) then (db, 0)
      else (queue_event e (db\<lparr>td_state_events := td_state_events db @ [e]\<rparr>), 1))"

lemma queue_event_frame [simp]:
  "td_check_blocks (queue_event e db) = td_check_blocks db"
  "td_check_latest (queue_event e db) = td_check_latest db"
  "td_service_latest (queue_event e db) = td_service_latest db"
  "td_machine_latest (queue_event e db) = td_machine_latest db"
  "td_state_events (queue_event e db) = td_state_events db"
  "td_rollups_5m (queue_event e db) = td_rollups_5m db"
  "td_rollups_1h (queue_event e db) = td_rollups_1h db"
  "td_status_buckets (queue_event e db) = td_status_buckets db"
  by (simp_all add: queue_event_def)

lemma insert_event_frame [simp]:
  "td_check_blocks (fst (insert_event e db)) = td_check_blocks db"
  "td_check_latest (fst (insert_event e db)) = td_check_latest db"
  "td_service_latest (fst (insert_event e db)) = td_service_latest db"
  "td_machine_latest (fst (insert_event e db)) = td_machine_latest db"
  "td_rollups_5m (fst (insert_event e db)) = td_rollups_5m db"
  "td_rollups_1h (fst (insert_event e db)) = td_rollups_1h db"
  "td_status_buckets (fst (insert_event e db)) = td_status_buckets db"
  by (simp_all add: insert_event_def)

lemma insert_event_events:
  "td_state_events (fst (insert_event e db)) = insert_or_ignore event_key e (td_state_events db)"
  by (simp add: insert_event_def insert_or_ignore_def)

text \<open>Every queued sequence number lies at or below the high-water mark and is used once.\<close>

definition wf_queue :: "telemetry_db \<Rightarrow> bool" where
  "wf_queue db \<longleftrightarrow> sorted_wrt (\<lambda>a b. qe_sequence a < qe_sequence b) (td_queue db) \<and>
     (\<forall>q \<in> set (td_queue db). qe_sequence q \<le> td_queue_high db)"

lemma wf_queue_insert_event: "wf_queue db \<Longrightarrow> wf_queue (fst (insert_event e db))"
  by (auto simp: wf_queue_def insert_event_def queue_event_def sorted_wrt_append)

end
