(* ===== verification/Check_Persistence.thy ===== *)
theory Check_Persistence
  imports Telemetry_Db Web
begin

text \<open>
  Persisting a check result (\<open>workers/checks/src/persistence.ts\<close>, with the row types of \<open>types.ts\<close>):
  the confirmation window that turns single results into a confirmed state, the five-minute and hourly
  rollups, the state of the service that the check belongs to, the status bucket of the public page,
  and \<open>persistCheckResult\<close>, which runs all the statements as one batch.
\<close>

section \<open>Configuration and results\<close>

datatype check_kind = Http | Tcp

record check_config =
  cc_id :: string
  cc_pk :: pk
  cc_workspace_pk :: pk
  cc_workspace_id :: string
  cc_service_pk :: pk
  cc_maintenance_until :: "millis option"
  cc_revision :: int
  cc_kind :: check_kind
  cc_interval :: int
  cc_phase :: int
  cc_timeout_ms :: int
  cc_retry_count :: int
  cc_critical :: int
  cc_request_json :: string
  cc_secret_refs_json :: string
  cc_failure_confirmations :: int
  cc_recovery_confirmations :: int
  cc_last_claimed_slot :: int

record executed_check =
  ex_state :: health
  ex_latency :: "rat option"
  ex_failure_code :: "string option"
  ex_failure_summary :: "string option"

text \<open>The states an executor returns.\<close>

definition executed_ok :: "executed_check \<Rightarrow> bool" where
  "executed_ok r \<longleftrightarrow> ex_state r \<in> {Healthy, Degraded, Down}"

record confirmation_state =
  cs_state :: health
  cs_failure_code :: "string option"
  cs_failure_summary :: "string option"
  cs_failures :: int
  cs_successes :: int

record confirmed_result =
  cr_state :: health
  cr_latency :: "rat option"
  cr_failure_code :: "string option"
  cr_failure_summary :: "string option"
  cr_failures :: int
  cr_successes :: int

section \<open>The confirmation window\<close>

text \<open>\<open>a ?? b\<close> on nullable values.\<close>

definition coalesce :: "'a option \<Rightarrow> 'a option \<Rightarrow> 'a option" where
  "coalesce a b = (case a of None \<Rightarrow> b | Some x \<Rightarrow> Some x)"

definition applyConfirmationWindow ::
  "check_config \<Rightarrow> confirmation_state option \<Rightarrow> executed_check \<Rightarrow> confirmed_result" where
  "applyConfirmationWindow config previous result =
     (if ex_state result = Healthy then
        let successes = (case previous of None \<Rightarrow> 0 | Some p \<Rightarrow> cs_successes p) + 1;
            priorState = (case previous of None \<Rightarrow> Healthy | Some p \<Rightarrow> cs_state p);
            confirmed = (previous = None \<or> priorState = Healthy \<or>
                         successes \<ge> cc_recovery_confirmations config)
        in \<lparr>cr_state = (if confirmed then Healthy
                       else if priorState = Unknown then Unknown else priorState),
            cr_latency = ex_latency result,
            cr_failure_code = (if confirmed then None
              else coalesce (Option.bind previous cs_failure_code) (Some ''recovery_pending'')),
            cr_failure_summary = (if confirmed then None
              else coalesce (Option.bind previous cs_failure_summary) (Some ''recovery_pending'')),
            cr_failures = 0,
            cr_successes = successes\<rparr>
      else
        let failures = (case previous of None \<Rightarrow> 0 | Some p \<Rightarrow> cs_failures p) + 1;
            priorState = (case previous of None \<Rightarrow> Unknown | Some p \<Rightarrow> cs_state p);
            alreadyFailed = (priorState = Down \<or> priorState = Degraded);
            confirmed = (alreadyFailed \<or> failures \<ge> cc_failure_confirmations config);
            state = (if priorState = Down \<and> ex_state result = Degraded then Down
                     else if confirmed then ex_state result else priorState)
        in \<lparr>cr_state = state,
            cr_latency = ex_latency result,
            cr_failure_code = (if confirmed then ex_failure_code result else Some ''failure_pending''),
            cr_failure_summary = (if confirmed then ex_failure_summary result
              else coalesce (ex_failure_summary result) (ex_failure_code result)),
            cr_failures = failures,
            cr_successes = 0\<rparr>)"

section \<open>The state of a service\<close>

definition serviceState ::
  "(health \<times> int) list \<Rightarrow> millis option \<Rightarrow> millis \<Rightarrow> health" where
  "serviceState checks maintenanceUntil now =
     (if (case maintenanceUntil of None \<Rightarrow> False | Some u \<Rightarrow> u > now) then Maintenance
      else if list_ex (\<lambda>(state, critical). critical = 1 \<and> state = Down) checks then Down
      else if list_ex (\<lambda>(state, critical). state = Down \<or> state = Degraded) checks then Degraded
      else if list_ex (\<lambda>(state, critical). state = Healthy) checks then Healthy
      else Unknown)"

definition serviceReason :: "health \<Rightarrow> string" where
  "serviceReason state =
     (if state = Maintenance then ''maintenance_window'' else ''check_'' @ health_text state)"

text \<open>
  The common table expressions \<open>service_aggregate\<close> and \<open>next_service\<close> of \<open>SERVICE_STATE_CTE\<close>, and the
  \<open>CASE\<close> of \<open>serviceReasonSql\<close>.
\<close>

definition check_rank :: "health \<times> int \<Rightarrow> int" where
  "check_rank c =
     (case c of (state, critical) \<Rightarrow>
        if critical = 1 \<and> state = Down then 3
        else if state = Down \<or> state = Degraded then 2
        else if state = Healthy then 1
        else 0)"

definition service_aggregate :: "pk \<Rightarrow> pk \<Rightarrow> check_latest_row list \<Rightarrow> int" where
  "service_aggregate ws service rows =
     fold max (map (\<lambda>r. check_rank (cl_state r, cl_critical r))
       (filter (\<lambda>r. cl_workspace r = ws \<and> cl_service r = service) rows)) 0"

definition next_service :: "int \<Rightarrow> millis option \<Rightarrow> millis \<Rightarrow> health" where
  "next_service rank maintenanceUntil observedAt =
     (if (case maintenanceUntil of None \<Rightarrow> False | Some u \<Rightarrow> u > observedAt) then Maintenance
      else if rank = 3 then Down
      else if rank = 2 then Degraded
      else if rank = 1 then Healthy
      else Unknown)"

fun serviceReasonSql :: "health \<Rightarrow> string" where
  "serviceReasonSql Maintenance = ''maintenance_window''"
| "serviceReasonSql Down = ''check_down''"
| "serviceReasonSql Degraded = ''check_degraded''"
| "serviceReasonSql Healthy = ''check_healthy''"
| "serviceReasonSql _ = ''check_unknown''"

text \<open>The three statements of \<open>prepareServiceStateStatements\<close>.\<close>

definition current_result :: "check_config \<Rightarrow> blob \<Rightarrow> telemetry_db \<Rightarrow> bool" where
  "current_result config resultId db \<longleftrightarrow>
     list_ex (\<lambda>r. cl_workspace r = cc_workspace_pk config \<and> cl_check_pk r = cc_pk config \<and>
       cl_revision r = cc_revision config \<and> cl_result_id r = resultId) (td_check_latest db)"

definition previous_service :: "check_config \<Rightarrow> telemetry_db \<Rightarrow> health" where
  "previous_service config db =
     (case find (\<lambda>s. sl_workspace s = cc_workspace_pk config \<and> sl_service_pk s = cc_service_pk config)
             (td_service_latest db) of
        None \<Rightarrow> Unknown
      | Some s \<Rightarrow> sl_state s)"

definition service_event ::
  "check_config \<Rightarrow> millis \<Rightarrow> blob \<Rightarrow> telemetry_db \<Rightarrow> telemetry_db \<times> nat" where
  "service_event config observedAt resultId db =
     (let ws = cc_workspace_pk config; service = cc_service_pk config;
          next = next_service (service_aggregate ws service (td_check_latest db))
                   (cc_maintenance_until config) observedAt;
          previous = previous_service config db
      in if current_result config resultId db \<and>
            \<not> list_ex (\<lambda>s. sl_service_pk s = service \<and> sl_workspace s \<noteq> ws) (td_service_latest db) \<and>
            previous \<noteq> next
         then insert_event \<lparr>ev_workspace = ws, ev_type = 2, ev_resource_pk = service,
                ev_occurred_at = observedAt, ev_id = resultId, ev_previous = previous,
                ev_current = next, ev_reason = serviceReasonSql next\<rparr> db
         else (db, 0))"

definition is_service_event :: "check_config \<Rightarrow> millis \<Rightarrow> blob \<Rightarrow> state_event \<Rightarrow> bool" where
  "is_service_event config observedAt resultId e \<longleftrightarrow>
     ev_workspace e = cc_workspace_pk config \<and> ev_type e = 2 \<and>
     ev_resource_pk e = cc_service_pk config \<and> ev_occurred_at e = observedAt \<and> ev_id e = resultId"

definition service_from_event ::
  "check_config \<Rightarrow> millis \<Rightarrow> blob \<Rightarrow> telemetry_db \<times> nat \<Rightarrow> telemetry_db" where
  "service_from_event config observedAt resultId = (\<lambda>(db, changes).
     if changes \<noteq> 1 then db
     else case find (is_service_event config observedAt resultId) (td_state_events db) of
            None \<Rightarrow> db
          | Some e \<Rightarrow>
              (let row = \<lparr>sl_service_pk = cc_service_pk config, sl_workspace = cc_workspace_pk config,
                     sl_state = ev_current e, sl_status_since = observedAt, sl_reason = ev_reason e,
                     sl_last_transition_at = observedAt, sl_updated_at = observedAt\<rparr>
               in db\<lparr>td_service_latest :=
                    upsert sl_service_pk row (\<lambda>old. sl_workspace old = sl_workspace row) (\<lambda>_. row)
                      (td_service_latest db)\<rparr>))"

definition service_unknown :: "check_config \<Rightarrow> millis \<Rightarrow> blob \<Rightarrow> telemetry_db \<Rightarrow> telemetry_db" where
  "service_unknown config observedAt resultId db =
     (if current_result config resultId db \<and>
         \<not> list_ex (is_service_event config observedAt resultId) (td_state_events db)
      then db\<lparr>td_service_latest :=
             insert_or_ignore sl_service_pk
               \<lparr>sl_service_pk = cc_service_pk config, sl_workspace = cc_workspace_pk config,
                sl_state = Unknown, sl_status_since = observedAt, sl_reason = ''check_unknown'',
                sl_last_transition_at = observedAt, sl_updated_at = observedAt\<rparr>
               (td_service_latest db)\<rparr>
      else db)"

definition runServiceStateStatements ::
  "check_config \<Rightarrow> millis \<Rightarrow> blob \<Rightarrow> telemetry_db \<Rightarrow> telemetry_db" where
  "runServiceStateStatements config observedAt resultId db =
     service_unknown config observedAt resultId
       (service_from_event config observedAt resultId
         (service_event config observedAt resultId db))"

section \<open>Rollups\<close>

record check_rollup =
  totalCount :: int
  healthyCount :: int
  degradedCount :: int
  downCount :: int
  latencyTotalMs :: rat
  latencyCount :: int
  latencyMaxMs :: "rat option"

definition emptyRollup :: check_rollup where
  "emptyRollup = \<lparr>totalCount = 0, healthyCount = 0, degradedCount = 0, downCount = 0,
     latencyTotalMs = 0, latencyCount = 0, latencyMaxMs = None\<rparr>"

definition latency_max :: "rat option \<Rightarrow> rat \<Rightarrow> rat option" where
  "latency_max old x = Some (max (case old of None \<Rightarrow> 0 | Some y \<Rightarrow> y) x)"

definition addResult :: "check_rollup \<Rightarrow> executed_check \<Rightarrow> check_rollup" where
  "addResult rollup result =
     (let counted = rollup\<lparr>
            totalCount := totalCount rollup + 1,
            healthyCount := healthyCount rollup + (if ex_state result = Healthy then 1 else 0),
            degradedCount := degradedCount rollup + (if ex_state result = Degraded then 1 else 0),
            downCount := downCount rollup + (if ex_state result = Down then 1 else 0)\<rparr>
      in case ex_latency result of
           None \<Rightarrow> counted
         | Some l \<Rightarrow> counted\<lparr>latencyTotalMs := latencyTotalMs rollup + l,
                           latencyCount := latencyCount rollup + 1,
                           latencyMaxMs := latency_max (latencyMaxMs rollup) l\<rparr>)"

text \<open>The six columns of \<open>StoredCheckRollup\<close> as the row holds them.\<close>

definition addStoredRollup :: "check_rollup \<Rightarrow> rollup_row \<Rightarrow> check_rollup" where
  "addStoredRollup rollup row =
     (let counted = rollup\<lparr>
            totalCount := totalCount rollup + ro_total row,
            healthyCount := healthyCount rollup + ro_healthy row,
            degradedCount := degradedCount rollup + ro_degraded row,
            downCount := downCount rollup + ro_down row\<rparr>;
          averaged = (case ro_latency_avg row of
            None \<Rightarrow> counted
          | Some avg \<Rightarrow> counted\<lparr>
              latencyTotalMs := latencyTotalMs rollup + of_int avg * of_int (ro_total row),
              latencyCount := latencyCount rollup + ro_total row\<rparr>)
      in case ro_latency_max row of
           None \<Rightarrow> averaged
         | Some l \<Rightarrow> averaged\<lparr>latencyMaxMs := latency_max (latencyMaxMs rollup) l\<rparr>)"

definition latency_average :: "check_rollup \<Rightarrow> int option" where
  "latency_average rollup =
     (if latencyCount rollup = 0 then None
      else Some (js_round (latencyTotalMs rollup / of_int (latencyCount rollup))))"

fun executed_state :: "json option \<Rightarrow> health option" where
  "executed_state (Some (JStr s)) =
     (if s = ''healthy'' then Some Healthy else if s = ''degraded'' then Some Degraded
      else if s = ''down'' then Some Down else None)"
| "executed_state _ = None"

fun json_number :: "json option \<Rightarrow> rat option" where
  "json_number (Some (JNum x)) = Some x"
| "json_number _ = None"

fun json_text :: "json option \<Rightarrow> string option" where
  "json_text (Some (JStr s)) = Some s"
| "json_text _ = None"

definition parseStoredResult :: "platform \<Rightarrow> blob option \<Rightarrow> executed_check option" where
  "parseStoredResult pf payload =
     (case payload of
        None \<Rightarrow> None
      | Some bytes \<Rightarrow>
          (case JSON_parse pf (TextDecoder_decode bytes) of
             Some (JObj props) \<Rightarrow>
               (case executed_state (jfield props ''state'') of
                  None \<Rightarrow> None
                | Some st \<Rightarrow> Some \<lparr>ex_state = st,
                    ex_latency = json_number (jfield props ''latencyMs''),
                    ex_failure_code = json_text (jfield props ''failureCode''),
                    ex_failure_summary = json_text (jfield props ''failureSummary'')\<rparr>)
           | _ \<Rightarrow> None))"

definition rollup_row_of :: "check_config \<Rightarrow> millis \<Rightarrow> check_rollup \<Rightarrow> rollup_row" where
  "rollup_row_of config bucketStart rollup =
     \<lparr>ro_check_pk = cc_pk config, ro_workspace = cc_workspace_pk config,
      ro_bucket_start = bucketStart, ro_total = totalCount rollup,
      ro_healthy = healthyCount rollup, ro_degraded = degradedCount rollup,
      ro_down = downCount rollup, ro_latency_avg = latency_average rollup,
      ro_latency_max = latencyMaxMs rollup\<rparr>"

definition runRollupStatement ::
  "check_config \<Rightarrow> millis \<Rightarrow> check_rollup \<Rightarrow> rollup_row list \<Rightarrow> rollup_row list" where
  "runRollupStatement config bucketStart rollup t =
     (let row = rollup_row_of config bucketStart rollup
      in upsert rollup_key row (\<lambda>old. ro_workspace old = ro_workspace row)
           (\<lambda>old. old\<lparr>ro_total := ro_total row, ro_healthy := ro_healthy row,
              ro_degraded := ro_degraded row, ro_down := ro_down row,
              ro_latency_avg := ro_latency_avg row, ro_latency_max := ro_latency_max row\<rparr>) t)"

text \<open>
  \<open>prepareClosedRollups\<close>: the five-minute rollup when the fifth slot is written, and the hourly one
  when it is also the last minute of the hour. The statements are the bucket and rollup they store.
\<close>

record closed_rollups =
  cz_five :: "(millis \<times> check_rollup) option"
  cz_hour :: "(millis \<times> check_rollup) option"

definition five_minute_rollup ::
  "platform \<Rightarrow> telemetry_db \<Rightarrow> check_config \<Rightarrow> millis \<Rightarrow> executed_check \<Rightarrow> check_rollup" where
  "five_minute_rollup pf db config bucket current =
     (let block = find (\<lambda>b. b_workspace b = cc_workspace_pk config \<and> b_pk b = cc_pk config \<and>
                    b_start b = bucket) (td_check_blocks db);
          payloads = (case block of None \<Rightarrow> [] | Some b \<Rightarrow> map (\<lambda>i. b_payloads b ! i) [0, 1, 2, 3]);
          stored = List.map_filter (parseStoredResult pf) payloads
      in addResult (foldl addResult emptyRollup stored) current)"

definition hourly_rollup ::
  "telemetry_db \<Rightarrow> check_config \<Rightarrow> millis \<Rightarrow> millis \<Rightarrow> check_rollup \<Rightarrow> check_rollup" where
  "hourly_rollup db config hourStart bucket fiveMinute =
     (let previous = sort_key ro_bucket_start (filter (\<lambda>r. ro_workspace r = cc_workspace_pk config \<and>
            ro_check_pk r = cc_pk config \<and> ro_bucket_start r \<ge> hourStart \<and>
            ro_bucket_start r < bucket) (td_rollups_5m db))
      in addStoredRollup (foldl addStoredRollup emptyRollup previous)
           (rollup_row_of config bucket fiveMinute))"

definition prepareClosedRollups ::
  "platform \<Rightarrow> telemetry_db \<Rightarrow> check_config \<Rightarrow> millis \<Rightarrow> executed_check \<Rightarrow> closed_rollups result" where
  "prepareClosedRollups pf db config nominalMinute current =
     bind_result (reportSlot nominalMinute) (\<lambda>slot.
       if slot \<noteq> 4 then Inr \<lparr>cz_five = None, cz_hour = None\<rparr>
       else
         let bucket = floorToFiveMinuteBlock nominalMinute;
             fiveMinute = five_minute_rollup pf db config bucket current;
             minuteInHour = (nominalMinute mod 3600000) div 60000;
             hourStart = nominalMinute div 3600000 * 3600000
         in Inr \<lparr>cz_five = Some (bucket, fiveMinute),
                 cz_hour = (if minuteInHour \<noteq> 59 then None
                   else Some (hourStart, hourly_rollup db config hourStart bucket fiveMinute))\<rparr>)"

definition runClosedRollups :: "check_config \<Rightarrow> closed_rollups \<Rightarrow> telemetry_db \<Rightarrow> telemetry_db" where
  "runClosedRollups config closing db =
     (let db1 = (case cz_five closing of None \<Rightarrow> db
                 | Some (bucket, r) \<Rightarrow>
                     db\<lparr>td_rollups_5m := runRollupStatement config bucket r (td_rollups_5m db)\<rparr>)
      in case cz_hour closing of None \<Rightarrow> db1
         | Some (hour, r) \<Rightarrow>
             db1\<lparr>td_rollups_1h := runRollupStatement config hour r (td_rollups_1h db1)\<rparr>)"

section \<open>The status bucket\<close>

definition bucket_state :: "check_config \<Rightarrow> millis \<Rightarrow> check_rollup \<Rightarrow> health" where
  "bucket_state config nominalMinute rollup =
     (if (case cc_maintenance_until config of None \<Rightarrow> False | Some u \<Rightarrow> u > nominalMinute)
      then Maintenance
      else if downCount rollup > 0 then (if cc_critical config = 1 then Down else Degraded)
      else if degradedCount rollup > 0 then Degraded
      else if healthyCount rollup > 0 then Healthy
      else Unknown)"

definition status_bucket_of :: "check_config \<Rightarrow> millis \<Rightarrow> check_rollup \<Rightarrow> status_bucket" where
  "status_bucket_of config nominalMinute rollup =
     (let state = bucket_state config nominalMinute rollup
      in \<lparr>sb_type = 2, sb_pk = cc_service_pk config, sb_workspace = cc_workspace_pk config,
          sb_start = floorToFiveMinuteBlock nominalMinute, sb_seconds = 300, sb_state = state,
          sb_availability = (if totalCount rollup = 0 then 0
            else js_round (of_int (healthyCount rollup) / of_int (totalCount rollup) * 1000)),
          sb_latency_avg = latency_average rollup, sb_latency_max = latencyMaxMs rollup,
          sb_summary = serviceReason state\<rparr>)"

definition merge_state :: "health \<Rightarrow> health \<Rightarrow> health" where
  "merge_state old new =
     (if old = Maintenance \<or> new = Maintenance then Maintenance
      else if old = Down \<or> new = Down then Down
      else if old = Degraded \<or> new = Degraded then Degraded
      else if old = Healthy \<or> new = Healthy then Healthy
      else Unknown)"

definition merge_latency :: "'a::linorder option \<Rightarrow> 'a option \<Rightarrow> 'a option" where
  "merge_latency old new =
     (case old of None \<Rightarrow> new
      | Some x \<Rightarrow> (case new of None \<Rightarrow> old | Some y \<Rightarrow> Some (max x y)))"

definition merge_bucket :: "status_bucket \<Rightarrow> status_bucket \<Rightarrow> status_bucket" where
  "merge_bucket new old =
     old\<lparr>sb_state := merge_state (sb_state old) (sb_state new),
         sb_availability := min (sb_availability old) (sb_availability new),
         sb_latency_avg := merge_latency (sb_latency_avg old) (sb_latency_avg new),
         sb_latency_max := merge_latency (sb_latency_max old) (sb_latency_max new),
         sb_summary := (if sb_state old = Maintenance \<or> sb_state new = Maintenance
             then ''maintenance_window''
           else if sb_state old = Down \<or> sb_state new = Down then ''check_down''
           else if sb_state old = Degraded \<or> sb_state new = Degraded then ''check_degraded''
           else sb_summary new)\<rparr>"

definition runStatusBucket :: "status_bucket \<Rightarrow> status_bucket list \<Rightarrow> status_bucket list" where
  "runStatusBucket new t =
     upsert bucket_key new (\<lambda>old. sb_workspace old = sb_workspace new) (merge_bucket new) t"

definition prepareStatusBucket ::
  "check_config \<Rightarrow> millis \<Rightarrow> check_rollup \<Rightarrow> telemetry_db \<Rightarrow> telemetry_db" where
  "prepareStatusBucket config nominalMinute rollup db =
     db\<lparr>td_status_buckets :=
       runStatusBucket (status_bucket_of config nominalMinute rollup) (td_status_buckets db)\<rparr>"

section \<open>Persisting a result\<close>

definition executionId :: "platform \<Rightarrow> string \<Rightarrow> int \<Rightarrow> millis \<Rightarrow> blob" where
  "executionId pf checkId configRevision nominalMinute =
     sha256 pf (text_encode
       (if configRevision = 1 then checkId @ '':'' @ int_to_string nominalMinute
        else checkId @ '':'' @ int_to_string configRevision @ '':'' @ int_to_string nominalMinute))"

definition hex_digit :: "int \<Rightarrow> char" where
  "hex_digit n = (''0123456789abcdef'' ! nat n)"

definition hex :: "blob \<Rightarrow> string" where
  "hex bytes = concat (map (\<lambda>b. [hex_digit (b div 16), hex_digit (b mod 16)]) bytes)"

definition nullable :: "('a \<Rightarrow> json) \<Rightarrow> 'a option \<Rightarrow> json" where
  "nullable f x = (case x of None \<Rightarrow> JNull | Some v \<Rightarrow> f v)"

definition result_payload ::
  "platform \<Rightarrow> check_config \<Rightarrow> blob \<Rightarrow> millis \<Rightarrow> executed_check \<Rightarrow> blob" where
  "result_payload pf config resultId observedAt result =
     text_encode (JSON_stringify pf (JObj
       [(''v'', JNum 1), (''id'', JStr (hex resultId)),
        (''configRevision'', JNum (of_int (cc_revision config))),
        (''observedAt'', JNum (of_int observedAt)),
        (''state'', JStr (health_text (ex_state result))),
        (''latencyMs'', nullable JNum (ex_latency result)),
        (''failureCode'', nullable JStr (ex_failure_code result)),
        (''failureSummary'', nullable JStr (ex_failure_summary result))]))"

definition confirmation_of :: "check_latest_row \<Rightarrow> confirmation_state" where
  "confirmation_of r =
     \<lparr>cs_state = cl_state r, cs_failure_code = cl_failure_code r,
      cs_failure_summary = cl_failure_summary r, cs_failures = cl_failures r,
      cs_successes = cl_successes r\<rparr>"

definition latest_row ::
  "check_config \<Rightarrow> millis \<Rightarrow> blob \<Rightarrow> confirmed_result \<Rightarrow> check_latest_row" where
  "latest_row config observedAt resultId confirmed =
     \<lparr>cl_check_pk = cc_pk config, cl_workspace = cc_workspace_pk config,
      cl_service = cc_service_pk config, cl_observed_at = observedAt,
      cl_state = cr_state confirmed, cl_latency = cr_latency confirmed,
      cl_failure_code = cr_failure_code confirmed,
      cl_failure_summary = map_option (utf16_take 160) (cr_failure_summary confirmed),
      cl_failures = cr_failures confirmed, cl_successes = cr_successes confirmed,
      cl_critical = cc_critical config, cl_revision = cc_revision config,
      cl_result_id = resultId\<rparr>"

definition supersedes :: "check_latest_row \<Rightarrow> check_latest_row \<Rightarrow> bool" where
  "supersedes new old \<longleftrightarrow>
     cl_workspace old = cl_workspace new \<and>
     (cl_revision new > cl_revision old \<or>
      cl_revision new = cl_revision old \<and> cl_observed_at new \<ge> cl_observed_at old)"

definition runLatest :: "check_latest_row \<Rightarrow> telemetry_db \<Rightarrow> telemetry_db" where
  "runLatest row db =
     db\<lparr>td_check_latest := upsert cl_check_pk row (supersedes row) (\<lambda>_. row) (td_check_latest db)\<rparr>"

definition runCheckBlock :: "block_write \<Rightarrow> telemetry_db \<Rightarrow> telemetry_db" where
  "runCheckBlock w db = db\<lparr>td_check_blocks := writeCheckResult w (td_check_blocks db)\<rparr>"

definition previous_check :: "check_config \<Rightarrow> telemetry_db \<Rightarrow> check_latest_row option" where
  "previous_check config db =
     find (\<lambda>r. cl_workspace r = cc_workspace_pk config \<and> cl_check_pk r = cc_pk config)
       (td_check_latest db)"

definition persistCheckResult ::
  "platform \<Rightarrow> telemetry_db \<Rightarrow> check_config \<Rightarrow> millis \<Rightarrow> millis \<Rightarrow> executed_check \<Rightarrow>
   telemetry_db result" where
  "persistCheckResult pf db config nominalMinute observedAt result =
     (let resultId = executionId pf (cc_id config) (cc_revision config) nominalMinute;
          previous = previous_check config db
      in if (case previous of None \<Rightarrow> False | Some p \<Rightarrow> cl_revision p > cc_revision config) then Inr db
         else if (case previous of None \<Rightarrow> False | Some p \<Rightarrow> cl_result_id p = resultId) then Inr db
         else
           let confirmed = applyConfirmationWindow config (map_option confirmation_of previous) result;
               payload = result_payload pf config resultId observedAt result;
               block = \<lparr>w_pk = cc_pk config, w_workspace = cc_workspace_pk config,
                        w_minute = nominalMinute, w_id = resultId, w_hash = sha256 pf payload,
                        w_payload = payload, w_schema = 1\<rparr>
           in bind_result (prepareClosedRollups pf db config nominalMinute result) (\<lambda>closing.
                let db1 = runCheckBlock block db;
                    db2 = runLatest (latest_row config observedAt resultId confirmed) db1;
                    db3 = runClosedRollups config closing db2;
                    db4 = runServiceStateStatements config observedAt resultId db3
                in Inr (case cz_five closing of
                          None \<Rightarrow> db4
                        | Some (_, fiveMinute) \<Rightarrow>
                            prepareStatusBucket config nominalMinute fiveMinute db4)))"

end
