(* ===== verification/Management_Db.thy ===== *)
theory Management_Db
  imports Membership Live_Ticket Check_Persistence
begin

text \<open>
  The part of the control database that the management pages of \<open>apps/web\<close> read and write: workspaces,
  memberships, grants, invitations, accounts, incidents and the audit log. A page throws
  \<open>error(status, message)\<close> of SvelteKit, or lets an error of the database through. A batch of statements is a
  transaction: a violated unique key or foreign key, or a trigger that aborts, undoes all of it. A statement
  is given the value of \<open>changes()\<close>, the number of rows that the statement before it changed, and returns the
  database and its own number. Random identifiers are arguments.
\<close>

section \<open>Errors\<close>

datatype http_error = Http int string | Database_error

type_synonym 'a http = "http_error + 'a"

definition http_fail :: "int \<Rightarrow> string \<Rightarrow> 'a http" where
  "http_fail status message = Inl (Http status message)"

definition http_require :: "bool \<Rightarrow> int \<Rightarrow> string \<Rightarrow> unit http" where
  "http_require b status message = (if b then Inr () else http_fail status message)"

lemma http_require_iff [simp]:
  "http_require b status message = Inr u \<longleftrightarrow> b"
  "http_require b status message = Inl e \<longleftrightarrow> \<not> b \<and> e = Http status message"
  by (auto simp: http_require_def http_fail_def)

section \<open>Rows\<close>

record workspace_entry =
  we_id :: string
  we_telemetry_pk :: int
  we_slug :: string
  we_name :: string
  we_dashboard :: "string option"
  we_sampling :: int
  we_created_at :: int
  we_updated_at :: int
  we_deleted_at :: "int option"
  we_purge_started_at :: "int option"

record grant_row =
  gr_id :: string
  gr_workspace :: string
  gr_subject :: string
  gr_type :: resource_type
  gr_resource :: string
  gr_capability :: capability
  gr_effect :: grant_effect
  gr_created_by :: string
  gr_created_at :: int

record invitation =
  iv_id :: string
  iv_workspace :: string
  iv_email :: string
  iv_role :: workspace_role
  iv_digest :: blob
  iv_expires_at :: int
  iv_accepted_at :: "int option"
  iv_revoked_at :: "int option"
  iv_created_by :: string
  iv_created_at :: int

record user_row =
  us_id :: string
  us_name :: string
  us_email :: string
  us_verified :: bool
  us_created_at :: int

record account_row =
  ac_id :: string
  ac_user :: string
  ac_password :: string
  ac_created_at :: int

record audit_entry =
  ae_id :: string
  ae_workspace :: string
  ae_actor :: string
  ae_action :: string
  ae_type :: string
  ae_resource :: string
  ae_before :: "string option"
  ae_after :: "string option"
  ae_created_at :: int

text \<open>The columns of \<open>machines\<close>, \<open>services\<close> and \<open>containers\<close> that these pages use.\<close>

record owned_resource =
  or_id :: string
  or_workspace :: string
  or_name :: string
  or_deleted_at :: "int option"

record incident_link =
  il_incident :: string
  il_type :: resource_type
  il_resource :: string
  il_impact :: string

record incident_row =
  in_id :: string
  in_workspace :: string
  in_title :: string
  in_summary :: string
  in_severity :: string
  in_state :: string
  in_starts_at :: int
  in_resolved_at :: "int option"
  in_created_by :: string
  in_created_at :: int
  in_updated_at :: int
  in_deleted_at :: "int option"

record incident_update =
  iu_id :: string
  iu_incident :: string
  iu_state :: string
  iu_body :: string
  iu_published_at :: "int option"
  iu_created_by :: string
  iu_created_at :: int

record announcement_row =
  ar_id :: string
  ar_workspace :: string
  ar_title :: string
  ar_body :: string
  ar_severity :: string
  ar_visibility :: string
  ar_starts_at :: int
  ar_expires_at :: int
  ar_created_by :: string
  ar_created_at :: int
  ar_updated_at :: int
  ar_deleted_at :: "int option"

record agent_entry =
  gt_id :: string
  gt_workspace :: string
  gt_machine :: string
  gt_status :: string

record grace_policy =
  gp_workspace :: string
  gp_raw_days :: int
  gp_grace_days :: "int option"

record dashboard_row =
  db_id :: string
  db_workspace :: string
  db_slug :: string
  db_visibility :: string

record management =
  mg_workspaces :: "workspace_entry list"
  mg_memberships :: "membership list"
  mg_grants :: "grant_row list"
  mg_invitations :: "invitation list"
  mg_users :: "user_row list"
  mg_accounts :: "account_row list"
  mg_audit :: "audit_entry list"
  mg_machines :: "owned_resource list"
  mg_services :: "owned_resource list"
  mg_containers :: "owned_resource list"
  mg_agents :: "agent_entry list"
  mg_incidents :: "incident_row list"
  mg_links :: "incident_link list"
  mg_updates :: "incident_update list"
  mg_announcements :: "announcement_row list"
  mg_policies :: "grace_policy list"
  mg_dashboards :: "dashboard_row list"
  mg_sequence :: "int option"

text \<open>The texts that the enumerated columns hold.\<close>

fun role_text :: "workspace_role \<Rightarrow> string" where
  "role_text admin = ''admin''"
| "role_text member_role = ''member''"

fun status_text :: "member_status \<Rightarrow> string" where
  "status_text Invited = ''invited''"
| "status_text Active = ''active''"
| "status_text Suspended = ''suspended''"

fun type_text :: "resource_type \<Rightarrow> string" where
  "type_text machine = ''machine''"
| "type_text service = ''service''"
| "type_text container = ''container''"
| "type_text dashboard = ''dashboard''"
| "type_text incident = ''incident''"

fun capability_text :: "capability \<Rightarrow> string" where
  "capability_text view = ''view''"
| "capability_text manage = ''manage''"

fun effect_text :: "grant_effect \<Rightarrow> string" where
  "effect_text allow = ''allow''"
| "effect_text deny = ''deny''"

section \<open>Statements and batches\<close>

type_synonym statement = "nat \<Rightarrow> management \<Rightarrow> (management \<times> nat) option"

fun run_batch :: "statement list \<Rightarrow> nat \<Rightarrow> management \<Rightarrow> (management \<times> nat list) option" where
  "run_batch [] n db = Some (db, [])"
| "run_batch (stmt # stmts) n db =
     (case stmt n db of
        None \<Rightarrow> None
      | Some (db1, k) \<Rightarrow> map_option (\<lambda>(db2, ks). (db2, k # ks)) (run_batch stmts k db1))"

text \<open>\<open>await db.batch(..)\<close>, and what the page makes of the numbers of changed rows.\<close>

definition commit_batch ::
  "statement list \<Rightarrow> (nat list \<Rightarrow> 'a http) \<Rightarrow> management \<Rightarrow> management \<times> 'a http" where
  "commit_batch stmts outcome db =
     (case run_batch stmts 0 db of
        None \<Rightarrow> (db, Inl Database_error)
      | Some (db', ks) \<Rightarrow> (db', outcome ks))"

text \<open>
  A page reads, decides and then writes; others may write in between, so the database that it reads and the one
  that its batch runs on are two arguments of a page.
\<close>

definition perform ::
  "'p http \<Rightarrow> ('p \<Rightarrow> management \<Rightarrow> management \<times> 'a http) \<Rightarrow> management \<Rightarrow> management \<times> 'a http" where
  "perform plan write db = (case plan of Inl e \<Rightarrow> (db, Inl e) | Inr p \<Rightarrow> write p db)"

text \<open>\<open>INSERT\<close> into a table with unique keys: none when a key is taken.\<close>

definition insert_unique :: "('r \<Rightarrow> 'r \<Rightarrow> bool) \<Rightarrow> 'r \<Rightarrow> 'r list \<Rightarrow> 'r list option" where
  "insert_unique clash r t = (if list_ex (clash r) t then None else Some (t @ [r]))"

lemma insert_unique_Some: "insert_unique clash r t = Some t' \<longleftrightarrow> \<not> list_ex (clash r) t \<and> t' = t @ [r]"
  by (auto simp: insert_unique_def)

text \<open>\<open>INSERT .. SELECT .. WHERE condition\<close>, where \<open>refs\<close> are the foreign keys of the row.\<close>

definition insert_if ::
  "bool \<Rightarrow> bool \<Rightarrow> ('r \<Rightarrow> 'r \<Rightarrow> bool) \<Rightarrow> 'r \<Rightarrow> 'r list \<Rightarrow> ('r list \<Rightarrow> management) \<Rightarrow> management \<Rightarrow>
   (management \<times> nat) option" where
  "insert_if cond refs clash r t put db =
     (if \<not> cond then Some (db, 0)
      else if \<not> refs then None
      else map_option (\<lambda>t'. (put t', 1)) (insert_unique clash r t))"

definition workspace_exists :: "management \<Rightarrow> string \<Rightarrow> bool" where
  "workspace_exists db i \<longleftrightarrow> list_ex (\<lambda>w. we_id w = i) (mg_workspaces db)"

definition user_exists :: "management \<Rightarrow> string \<Rightarrow> bool" where
  "user_exists db i \<longleftrightarrow> list_ex (\<lambda>u. us_id u = i) (mg_users db)"

definition member_clash :: "membership \<Rightarrow> membership \<Rightarrow> bool" where
  "member_clash a b \<longleftrightarrow> membership_key a = membership_key b"

definition grant_clash :: "grant_row \<Rightarrow> grant_row \<Rightarrow> bool" where
  "grant_clash a b \<longleftrightarrow> gr_id a = gr_id b \<or>
     gr_subject a = gr_subject b \<and> gr_type a = gr_type b \<and> gr_resource a = gr_resource b
       \<and> gr_capability a = gr_capability b"

definition invitation_pending :: "invitation \<Rightarrow> bool" where
  "invitation_pending i \<longleftrightarrow> iv_accepted_at i = None \<and> iv_revoked_at i = None"

definition invitation_clash :: "invitation \<Rightarrow> invitation \<Rightarrow> bool" where
  "invitation_clash a b \<longleftrightarrow> iv_id a = iv_id b \<or> iv_digest a = iv_digest b \<or>
     invitation_pending a \<and> invitation_pending b \<and> iv_workspace a = iv_workspace b \<and> iv_email a = iv_email b"

definition user_clash :: "user_row \<Rightarrow> user_row \<Rightarrow> bool" where
  "user_clash a b \<longleftrightarrow> us_id a = us_id b \<or> us_email a = us_email b"

definition account_clash :: "account_row \<Rightarrow> account_row \<Rightarrow> bool" where
  "account_clash a b \<longleftrightarrow> ac_id a = ac_id b \<or> ac_user a = ac_user b"

definition workspace_clash :: "workspace_entry \<Rightarrow> workspace_entry \<Rightarrow> bool" where
  "workspace_clash a b \<longleftrightarrow> we_id a = we_id b \<or> we_slug a = we_slug b \<or> we_telemetry_pk a = we_telemetry_pk b"

definition insert_membership :: "(nat \<Rightarrow> bool) \<Rightarrow> membership \<Rightarrow> statement" where
  "insert_membership cond r n db =
     insert_if (cond n) (workspace_exists db (mb_workspace r) \<and> user_exists db (mb_user r)) member_clash r
       (mg_memberships db) (\<lambda>t. db\<lparr>mg_memberships := t\<rparr>) db"

text \<open>\<open>UPDATE memberships\<close>, which the trigger may abort.\<close>

definition update_memberships ::
  "(management \<Rightarrow> membership \<Rightarrow> bool) \<Rightarrow> (membership \<Rightarrow> membership) \<Rightarrow> statement" where
  "update_memberships p f n db =
     (if update_refused (p db) f (mg_memberships db) then None
      else Some (db\<lparr>mg_memberships := update_where (p db) f (mg_memberships db)\<rparr>,
                 count_where (p db) (mg_memberships db)))"

definition update_invitations ::
  "(management \<Rightarrow> invitation \<Rightarrow> bool) \<Rightarrow> (invitation \<Rightarrow> invitation) \<Rightarrow> statement" where
  "update_invitations p f n db =
     Some (db\<lparr>mg_invitations := update_where (p db) f (mg_invitations db)\<rparr>,
           count_where (p db) (mg_invitations db))"

definition update_workspaces ::
  "(management \<Rightarrow> workspace_entry \<Rightarrow> bool) \<Rightarrow> (workspace_entry \<Rightarrow> workspace_entry) \<Rightarrow> statement" where
  "update_workspaces p f n db =
     Some (db\<lparr>mg_workspaces := update_where (p db) f (mg_workspaces db)\<rparr>, count_where (p db) (mg_workspaces db))"

text \<open>An active administrator, as the conditions of the statements ask for one.\<close>

definition is_active_admin :: "management \<Rightarrow> string \<Rightarrow> string \<Rightarrow> bool" where
  "is_active_admin db workspaceId userId \<longleftrightarrow>
     list_ex (\<lambda>m. active_admin workspaceId m \<and> mb_user m = userId) (mg_memberships db)"

end
