(* ===== verification/Access_Query.thy ===== *)
theory Access_Query
  imports Management_Db
begin

text \<open>
  Who may do what, as the database decides it: the access of a user to a workspace
  (\<open>apps/web/src/lib/server/monitoring-access.ts\<close>) and the conditions that queries and final statements carry
  (\<open>packages/db/src/repositories/resource-access-query.ts\<close>). The two must agree with the decision functions of
  \<open>packages/authz\<close>, which the pages use on the grants they have read.
\<close>

section \<open>Loading the access of a user\<close>

definition MAX_ACCESS_GRANTS :: nat where "MAX_ACCESS_GRANTS = 5000"
definition AGENT_PAGE_SIZE :: nat where "AGENT_PAGE_SIZE = 50"
definition AGENT_MAX_PAGE :: int where "AGENT_MAX_PAGE = 100"

record monitoring_access =
  ma_workspaceId :: string
  ma_workspacePk :: int
  ma_defaultDashboardId :: "string option"
  ma_samplingSeconds :: int
  ma_role :: workspace_role
  ma_grants :: "resource_grant list"

definition grant_of :: "grant_row \<Rightarrow> resource_grant" where
  "grant_of g = \<lparr>resourceType = gr_type g, resourceId = gr_resource g, capability_of = gr_capability g,
     effect = gr_effect g\<rparr>"

text \<open>The rows of \<open>workspaces JOIN memberships ON workspace_id = id\<close> that satisfy a condition.\<close>

definition workspace_members :: "(workspace_entry \<Rightarrow> membership \<Rightarrow> bool) \<Rightarrow> management \<Rightarrow>
    (workspace_entry \<times> membership) list" where
  "workspace_members p db =
     concat (map (\<lambda>w. map (Pair w) (filter (\<lambda>m. mb_workspace m = we_id w \<and> p w m) (mg_memberships db)))
       (mg_workspaces db))"

definition subject_grants :: "management \<Rightarrow> string \<Rightarrow> string \<Rightarrow> nat \<Rightarrow> grant_row list" where
  "subject_grants db workspaceId userId limit =
     select_limit (\<lambda>g. gr_workspace g = workspaceId \<and> gr_subject g = userId)
       (\<lambda>g. (type_text (gr_type g), gr_resource g, capability_text (gr_capability g), effect_text (gr_effect g)))
       limit (mg_grants db)"

definition loadMonitoringAccess :: "management \<Rightarrow> string \<Rightarrow> string \<Rightarrow> monitoring_access http" where
  "loadMonitoringAccess db workspaceSlug userId =
     (case workspace_members (\<lambda>w m. we_slug w = workspaceSlug \<and> we_deleted_at w = None \<and> mb_user m = userId \<and>
             mb_status m = Active) db of
        [] \<Rightarrow> http_fail 404 ''Workspace not found''
      | (w, m) # _ \<Rightarrow>
          let access = (\<lambda>grants. \<lparr>ma_workspaceId = we_id w, ma_workspacePk = we_telemetry_pk w,
                ma_defaultDashboardId = we_dashboard w, ma_samplingSeconds = we_sampling w,
                ma_role = mb_role m, ma_grants = grants\<rparr>)
          in if mb_role m = admin then Inr (access [])
             else
               let grants = subject_grants db (we_id w) userId (MAX_ACCESS_GRANTS + 1)
               in if length grants > MAX_ACCESS_GRANTS
                  then http_fail 503 ''Resource access scope exceeds the supported limit''
                  else Inr (access (map grant_of grants)))"

definition requireAdmin :: "monitoring_access \<Rightarrow> unit http" where
  "requireAdmin access = http_require (ma_role access = admin) 404 ''Workspace not found''"

definition requireResourceCapability ::
  "monitoring_access \<Rightarrow> resource_type \<Rightarrow> string \<Rightarrow> capability \<Rightarrow> unit http" where
  "requireResourceCapability access rtype rid cap =
     http_require (canAccessResource (ma_role access) (ma_grants access) rtype rid cap) 404 ''Resource not found''"

section \<open>Conditions of queries\<close>

record resource_query_access =
  qa_workspaceId :: string
  qa_userId :: string
  qa_role :: workspace_role

definition activeRoleCondition :: "resource_query_access \<Rightarrow> management \<Rightarrow> bool" where
  "activeRoleCondition access db \<longleftrightarrow>
     list_ex (\<lambda>m. mb_workspace m = qa_workspaceId access \<and> mb_user m = qa_userId access \<and>
       mb_role m = qa_role access \<and> mb_status m = Active) (mg_memberships db)"

text \<open>A grant of the user on a resource with one of the capabilities.\<close>

definition has_grant ::
  "string \<Rightarrow> string \<Rightarrow> resource_type \<Rightarrow> string \<Rightarrow> capability list \<Rightarrow> grant_effect \<Rightarrow> management \<Rightarrow> bool" where
  "has_grant workspaceId userId rtype rid caps eff db \<longleftrightarrow>
     list_ex (\<lambda>g. gr_workspace g = workspaceId \<and> gr_subject g = userId \<and> gr_type g = rtype \<and>
       gr_resource g = rid \<and> gr_capability g \<in> set caps \<and> gr_effect g = eff) (mg_grants db)"

definition allowedCapabilities :: "capability \<Rightarrow> capability list" where
  "allowedCapabilities cap = (if cap = manage then [manage] else [view, manage])"

definition deniedCapabilities :: "capability \<Rightarrow> capability list" where
  "deniedCapabilities cap = (if cap = manage then [view, manage] else [view])"

definition grantAllowCondition ::
  "resource_query_access \<Rightarrow> resource_type \<Rightarrow> string \<Rightarrow> capability \<Rightarrow> management \<Rightarrow> bool" where
  "grantAllowCondition access rtype rid cap db \<longleftrightarrow>
     has_grant (qa_workspaceId access) (qa_userId access) rtype rid (allowedCapabilities cap) allow db"

definition grantDenyCondition ::
  "resource_query_access \<Rightarrow> resource_type \<Rightarrow> string \<Rightarrow> capability \<Rightarrow> management \<Rightarrow> bool" where
  "grantDenyCondition access rtype rid cap db \<longleftrightarrow>
     \<not> has_grant (qa_workspaceId access) (qa_userId access) rtype rid (deniedCapabilities cap) deny db"

definition resourceCapabilityCondition ::
  "resource_query_access \<Rightarrow> resource_type \<Rightarrow> string \<Rightarrow> capability \<Rightarrow> management \<Rightarrow> bool" where
  "resourceCapabilityCondition access rtype rid cap db =
     (if qa_role access = admin then activeRoleCondition access db
      else activeRoleCondition access db \<and> grantAllowCondition access rtype rid cap db \<and>
           grantDenyCondition access rtype rid cap db)"

definition incidentViewCondition :: "resource_query_access \<Rightarrow> string \<Rightarrow> management \<Rightarrow> bool" where
  "incidentViewCondition access iid db =
     (if qa_role access = admin then activeRoleCondition access db
      else activeRoleCondition access db \<and> grantDenyCondition access incident iid view db \<and>
           (grantAllowCondition access incident iid view db \<or>
            list_ex (\<lambda>l. il_incident l = iid \<and> il_type l = service \<and>
              list_ex (\<lambda>s. or_id s = il_resource l \<and> or_workspace s = qa_workspaceId access \<and>
                or_deleted_at s = None) (mg_services db) \<and>
              grantAllowCondition access service (il_resource l) view db \<and>
              grantDenyCondition access service (il_resource l) view db) (mg_links db)))"

definition incidentManageCondition :: "resource_query_access \<Rightarrow> string \<Rightarrow> management \<Rightarrow> bool" where
  "incidentManageCondition access iid db =
     (if qa_role access = admin then activeRoleCondition access db
      else activeRoleCondition access db \<and> grantDenyCondition access incident iid manage db \<and>
           (grantAllowCondition access incident iid manage db \<or>
            list_ex (\<lambda>l. il_incident l = iid \<and> il_type l = service) (mg_links db) \<and>
            \<not> list_ex (\<lambda>l. il_incident l = iid \<and> il_type l = service \<and>
                \<not> (grantAllowCondition access service (il_resource l) manage db \<and>
                   grantDenyCondition access service (il_resource l) manage db)) (mg_links db)))"

section \<open>Conditions of final statements\<close>

text \<open>
  The workspace and the resource are the values of the columns or parameters that the SQL expressions name.
\<close>

definition finalResourceCapabilityCondition ::
  "monitoring_access \<Rightarrow> string \<Rightarrow> resource_type \<Rightarrow> string \<Rightarrow> string \<Rightarrow> capability \<Rightarrow> management \<Rightarrow> bool" where
  "finalResourceCapabilityCondition access actorUserId rtype workspaceId rid cap db =
     (if ma_role access \<noteq> member_role then is_active_admin db workspaceId actorUserId
      else
        list_ex (\<lambda>m. mb_workspace m = workspaceId \<and> mb_user m = actorUserId \<and> mb_role m = member_role \<and>
          mb_status m = Active) (mg_memberships db) \<and>
        has_grant workspaceId actorUserId rtype rid (allowedCapabilities cap) allow db \<and>
        \<not> has_grant workspaceId actorUserId rtype rid (deniedCapabilities cap) deny db)"

definition finalAdminCondition :: "string \<Rightarrow> string \<Rightarrow> management \<Rightarrow> bool" where
  "finalAdminCondition actorUserId workspaceId db = is_active_admin db workspaceId actorUserId"

definition combineFinalAuthorizationConditions :: "(management \<Rightarrow> bool) list \<Rightarrow> management \<Rightarrow> bool" where
  "combineFinalAuthorizationConditions conditions db = list_all (\<lambda>c. c db) conditions"

section \<open>The developer panel\<close>

text \<open>\<open>Number.isSafeInteger(value)\<close> is false on \<open>undefined\<close> and on a number with a fraction.\<close>

definition requestedAgentPage :: "rat option \<Rightarrow> int" where
  "requestedAgentPage value =
     (case value of
        None \<Rightarrow> 1
      | Some x \<Rightarrow> if is_integer_num x \<and> is_safe_integer \<lfloor>x\<rfloor> then min AGENT_MAX_PAGE (max 1 \<lfloor>x\<rfloor>) else 1)"

record developer_panel =
  dp_agents :: "(string \<times> string) list"
  dp_page :: int
  dp_hasPrevious :: bool
  dp_hasNext :: bool
  dp_samplingSeconds :: int

definition panel_agents :: "management \<Rightarrow> string \<Rightarrow> string \<Rightarrow> (string \<times> string) list" where
  "panel_agents db workspaceId userId =
     map (\<lambda>(a, m). (gt_id a, or_name m))
       (sort_key (\<lambda>(a, m). (or_name m, gt_id a))
         (concat (map (\<lambda>a. map (Pair a) (filter (\<lambda>m. or_id m = gt_machine a \<and> or_deleted_at m = None) (mg_machines db)))
           (filter (\<lambda>a. gt_workspace a = workspaceId \<and> gt_status a = ''active'' \<and>
              is_active_admin db (gt_workspace a) userId) (mg_agents db)))))"

definition loadDeveloperPanel ::
  "management \<Rightarrow> string \<Rightarrow> string \<Rightarrow> rat option \<Rightarrow> developer_panel http" where
  "loadDeveloperPanel db workspaceSlug userId agentPage =
     bind_result (loadMonitoringAccess db workspaceSlug userId) (\<lambda>access.
     bind_result (requireAdmin access) (\<lambda>_.
     let page = requestedAgentPage agentPage;
         rows = take (AGENT_PAGE_SIZE + 1) (drop ((nat page - 1) * AGENT_PAGE_SIZE)
           (panel_agents db (ma_workspaceId access) userId))
     in Inr \<lparr>dp_agents = take AGENT_PAGE_SIZE rows, dp_page = page, dp_hasPrevious = page > 1,
             dp_hasNext = length rows > AGENT_PAGE_SIZE, dp_samplingSeconds = ma_samplingSeconds access\<rparr>))"

section \<open>The conditions and the decisions agree\<close>

lemma workspace_members_in:
  "(w, m) \<in> set (workspace_members p db) \<longleftrightarrow>
     w \<in> set (mg_workspaces db) \<and> m \<in> set (mg_memberships db) \<and> mb_workspace m = we_id w \<and> p w m"
  by (auto simp: workspace_members_def)

text \<open>What loading the access tells about the database: the membership, and for a member all its grants.\<close>

definition grants_in :: "management \<Rightarrow> string \<Rightarrow> string \<Rightarrow> resource_grant set" where
  "grants_in db workspaceId userId =
     grant_of ` {g \<in> set (mg_grants db). gr_workspace g = workspaceId \<and> gr_subject g = userId}"

lemma subject_grants_all:
  assumes "length (subject_grants db w u (Suc n)) \<le> n"
  shows "grant_of ` set (subject_grants db w u (Suc n)) = grants_in db w u"
  using assms by (auto simp: subject_grants_def select_limit_def grants_in_def)

lemma loadMonitoringAccess_InrD:
  assumes "loadMonitoringAccess db slug u = Inr access"
  obtains w m where "w \<in> set (mg_workspaces db)" "m \<in> set (mg_memberships db)" "mb_workspace m = we_id w"
    "we_slug w = slug" "we_deleted_at w = None" "mb_user m = u" "mb_status m = Active" "ma_workspaceId access = we_id w"
    "ma_role access = mb_role m"
    "mb_role m = member_role \<Longrightarrow> set (ma_grants access) = grants_in db (we_id w) u"
proof -
  let ?p = "\<lambda>w m. we_slug w = slug \<and> we_deleted_at w = None \<and> mb_user m = u \<and> mb_status m = Active"
  obtain w m rest where rows: "workspace_members ?p db = (w, m) # rest"
    using assms by (auto simp: loadMonitoringAccess_def http_fail_def split: list.splits)
  then have "(w, m) \<in> set (workspace_members ?p db)" by simp
  note facts = this [unfolded workspace_members_in]
  have "set (ma_grants access) = grants_in db (we_id w) u" if "mb_role m = member_role"
    using assms rows that subject_grants_all [of db "we_id w" u MAX_ACCESS_GRANTS]
    by (auto simp: loadMonitoringAccess_def http_fail_def Let_def split: if_splits)
  then show ?thesis
    using that [of w m] facts assms rows
    by (auto simp: loadMonitoringAccess_def http_fail_def Let_def split: if_splits)
qed

lemma has_grant_iff:
  "has_grant w u rtype rid caps eff db \<longleftrightarrow>
    (\<exists>g \<in> grants_in db w u. resourceType g = rtype \<and> resourceId g = rid \<and> capability_of g \<in> set caps \<and> effect g = eff)"
  by (auto simp: has_grant_def grants_in_def grant_of_def list_ex_iff)

lemma allow_iff: "has_grant w u rtype rid (allowedCapabilities cap) allow db \<longleftrightarrow> allowed_on (grants_in db w u) rtype rid cap"
  unfolding has_grant_iff allowed_on_def allowsCapability_def allowedCapabilities_def
  by (cases cap) auto

lemma deny_iff: "has_grant w u rtype rid (deniedCapabilities cap) deny db \<longleftrightarrow> denied_on (grants_in db w u) rtype rid cap"
  unfolding has_grant_iff denied_on_def deniesCapability_def deniedCapabilities_def
  by (cases cap) auto

lemmas grant_conditions = grantAllowCondition_def grantDenyCondition_def allow_iff deny_iff

lemma activeRole_loaded:
  assumes "loadMonitoringAccess db slug u = Inr access"
  shows "activeRoleCondition \<lparr>qa_workspaceId = ma_workspaceId access, qa_userId = u, qa_role = ma_role access\<rparr> db"
  using assms by (elim loadMonitoringAccess_InrD) (auto simp: activeRoleCondition_def list_ex_iff)

lemma loaded_grants:
  assumes "loadMonitoringAccess db slug u = Inr access" "ma_role access \<noteq> admin"
  shows "set (ma_grants access) = grants_in db (ma_workspaceId access) u"
  using assms(1)
proof (rule loadMonitoringAccess_InrD)
  fix w m
  assume "ma_role access = mb_role m" "ma_workspaceId access = we_id w"
    and "mb_role m = member_role \<Longrightarrow> set (ma_grants access) = grants_in db (we_id w) u"
  then show ?thesis using assms(2) by (cases "mb_role m") auto
qed

lemma is_active_admin_iff:
  "is_active_admin db w u \<longleftrightarrow> (\<exists>m \<in> set (mg_memberships db). membership_key m = (w, u) \<and> mb_role m = admin \<and> mb_status m = Active)"
  by (auto simp: is_active_admin_def active_admin_def membership_key_def list_ex_iff)

text \<open>The access in the form that the queries take it, and the services that an incident affects.\<close>

definition query_access :: "monitoring_access \<Rightarrow> string \<Rightarrow> resource_query_access" where
  "query_access access userId =
     \<lparr>qa_workspaceId = ma_workspaceId access, qa_userId = userId, qa_role = ma_role access\<rparr>"

definition incident_services :: "management \<Rightarrow> string \<Rightarrow> string list" where
  "incident_services db iid =
     map il_resource (filter (\<lambda>l. il_incident l = iid \<and> il_type l = service) (mg_links db))"

definition live_services :: "management \<Rightarrow> string \<Rightarrow> string list" where
  "live_services db workspaceId =
     map or_id (filter (\<lambda>s. or_workspace s = workspaceId \<and> or_deleted_at s = None) (mg_services db))"

lemma live_services_iff:
  "sid \<in> set (live_services db w) \<longleftrightarrow>
    list_ex (\<lambda>s. or_id s = sid \<and> or_workspace s = w \<and> or_deleted_at s = None) (mg_services db)"
  by (force simp: live_services_def list_ex_iff)

lemma incident_services_iff:
  "list_ex P (incident_services db iid) \<longleftrightarrow>
    list_ex (\<lambda>l. il_incident l = iid \<and> il_type l = service \<and> P (il_resource l)) (mg_links db)"
  "list_all P (incident_services db iid) \<longleftrightarrow>
    \<not> list_ex (\<lambda>l. il_incident l = iid \<and> il_type l = service \<and> \<not> P (il_resource l)) (mg_links db)"
  "incident_services db iid \<noteq> [] \<longleftrightarrow> list_ex (\<lambda>l. il_incident l = iid \<and> il_type l = service) (mg_links db)"
  by (auto simp: incident_services_def list_ex_iff list_all_iff filter_empty_conv)

lemma conditions_agree:
  assumes "loadMonitoringAccess db slug u = Inr access"
  shows "resourceCapabilityCondition (query_access access u) rtype rid cap db =
      canAccessResource (ma_role access) (ma_grants access) rtype rid cap \<and>
    finalResourceCapabilityCondition access u rtype (ma_workspaceId access) rid cap db =
      canAccessResource (ma_role access) (ma_grants access) rtype rid cap \<and>
    incidentViewCondition (query_access access u) iid db =
      canAccessIncident (ma_role access) (ma_grants access) iid view
        (list_ex (\<lambda>sid. sid \<in> set (live_services db (ma_workspaceId access)) \<and>
           canAccessResource (ma_role access) (ma_grants access) service sid view) (incident_services db iid)) \<and>
    incidentManageCondition (query_access access u) iid db =
      canAccessIncident (ma_role access) (ma_grants access) iid manage
        (incident_services db iid \<noteq> [] \<and>
         list_all (\<lambda>sid. canAccessResource (ma_role access) (ma_grants access) service sid manage)
           (incident_services db iid))"
proof -
  note active = activeRole_loaded [OF assms, folded query_access_def]
  show ?thesis
  proof (cases "ma_role access")
    case admin
    moreover have "is_active_admin db (ma_workspaceId access) u"
      using active admin
      by (auto simp: activeRoleCondition_def query_access_def is_active_admin_def active_admin_def list_ex_iff)
    ultimately show ?thesis
      using active
      by (simp add: resourceCapabilityCondition_def finalResourceCapabilityCondition_def incidentViewCondition_def
          incidentManageCondition_def canAccessResource_def canAccessIncident_def query_access_def)
  next
    case member_role
    have grants: "grants_in db (ma_workspaceId access) u = set (ma_grants access)"
      using loaded_grants [OF assms] member_role by simp
    have member: "list_ex (\<lambda>m. mb_workspace m = ma_workspaceId access \<and> mb_user m = u \<and> mb_role m = member_role \<and>
        mb_status m = Active) (mg_memberships db)"
      using active member_role by (simp add: activeRoleCondition_def query_access_def)
    have one: "resourceCapabilityCondition (query_access access u) rtype rid cap db =
        canAccessResource (ma_role access) (ma_grants access) rtype rid cap" for rtype rid cap
      using active
      by (auto simp: resourceCapabilityCondition_def canAccessResource_iff query_access_def grant_conditions grants
          member_role)
    have two: "finalResourceCapabilityCondition access u rtype (ma_workspaceId access) rid cap db =
        canAccessResource (ma_role access) (ma_grants access) rtype rid cap"
      using member
      by (auto simp: finalResourceCapabilityCondition_def canAccessResource_iff allow_iff deny_iff grants member_role)
    have direct: "canAccessIncident member_role (ma_grants access) iid cap inherited \<longleftrightarrow>
        \<not> denied_on (set (ma_grants access)) incident iid cap \<and>
        (allowed_on (set (ma_grants access)) incident iid cap \<or> inherited)" for cap inherited
      by (auto simp: canAccessIncident_def canAccessResource_iff denied_on_def allowed_on_def list_ex_iff)
    have three: "incidentViewCondition (query_access access u) iid db =
      canAccessIncident (ma_role access) (ma_grants access) iid view
        (list_ex (\<lambda>sid. sid \<in> set (live_services db (ma_workspaceId access)) \<and>
           canAccessResource (ma_role access) (ma_grants access) service sid view) (incident_services db iid))"
      using active
      by (simp add: incidentViewCondition_def direct member_role query_access_def grant_conditions grants
          canAccessResource_iff live_services_iff incident_services_iff conj_ac)
    have four: "incidentManageCondition (query_access access u) iid db =
      canAccessIncident (ma_role access) (ma_grants access) iid manage
        (incident_services db iid \<noteq> [] \<and>
         list_all (\<lambda>sid. canAccessResource (ma_role access) (ma_grants access) service sid manage)
           (incident_services db iid))"
      using active
      by (simp add: incidentManageCondition_def direct member_role query_access_def grant_conditions grants
          canAccessResource_iff incident_services_iff conj_ac disj_ac)
    show ?thesis using one two three four by blast
  qed
qed

text \<open>
  C30. The database and the application decide alike. With the access that a user has just loaded, the conditions
  that the queries carry for a resource, for viewing and for managing an incident, and the condition of the
  final statement, hold exactly when the decision functions of the authorisation package say so on the loaded
  grants: an incident is visible through one visible service that is not deleted, and manageable through its
  services only when it has some and all of them are manageable.
\<close>

theorem access_conditions_agree:
  assumes "loadMonitoringAccess db slug u = Inr access"
  shows "resourceCapabilityCondition (query_access access u) rtype rid cap db =
      canAccessResource (ma_role access) (ma_grants access) rtype rid cap \<and>
    finalResourceCapabilityCondition access u rtype (ma_workspaceId access) rid cap db =
      canAccessResource (ma_role access) (ma_grants access) rtype rid cap \<and>
    incidentViewCondition (query_access access u) iid db =
      canAccessIncident (ma_role access) (ma_grants access) iid view
        (list_ex (\<lambda>sid. sid \<in> set (live_services db (ma_workspaceId access)) \<and>
           canAccessResource (ma_role access) (ma_grants access) service sid view) (incident_services db iid)) \<and>
    incidentManageCondition (query_access access u) iid db =
      canAccessIncident (ma_role access) (ma_grants access) iid manage
        (incident_services db iid \<noteq> [] \<and>
         list_all (\<lambda>sid. canAccessResource (ma_role access) (ma_grants access) service sid manage)
           (incident_services db iid))"
  by (rule conditions_agree [OF assms])

text \<open>A workspace with an administrator, a member who may manage one of its two services, and an incident.\<close>

definition sample_members :: "membership list" where
  "sample_members =
     [\<lparr>mb_workspace = ''w'', mb_user = ''a'', mb_role = admin, mb_status = Active, mb_created_at = 0, mb_updated_at = 0\<rparr>,
      \<lparr>mb_workspace = ''w'', mb_user = ''u'', mb_role = member_role, mb_status = Active, mb_created_at = 0,
       mb_updated_at = 0\<rparr>]"

definition sample_management :: management where
  "sample_management = \<lparr>
     mg_workspaces = [\<lparr>we_id = ''w'', we_telemetry_pk = 1, we_slug = ''home'', we_name = ''Home'', we_dashboard = Some ''d'',
       we_sampling = 10, we_created_at = 0, we_updated_at = 0, we_deleted_at = None, we_purge_started_at = None\<rparr>],
     mg_memberships = sample_members,
     mg_grants = [\<lparr>gr_id = ''g'', gr_workspace = ''w'', gr_subject = ''u'', gr_type = service, gr_resource = ''s1'',
       gr_capability = manage, gr_effect = allow, gr_created_by = ''a'', gr_created_at = 0\<rparr>],
     mg_invitations = [],
     mg_users = [\<lparr>us_id = ''a'', us_name = ''Ada'', us_email = ''a@x.org'', us_verified = True, us_created_at = 0\<rparr>,
       \<lparr>us_id = ''u'', us_name = ''Uwe'', us_email = ''u@x.org'', us_verified = True, us_created_at = 0\<rparr>],
     mg_accounts = [], mg_audit = [], mg_machines = [],
     mg_services = [\<lparr>or_id = ''s1'', or_workspace = ''w'', or_name = ''One'', or_deleted_at = None\<rparr>,
       \<lparr>or_id = ''s2'', or_workspace = ''w'', or_name = ''Two'', or_deleted_at = None\<rparr>],
     mg_containers = [], mg_agents = [], mg_incidents = [],
     mg_links = [\<lparr>il_incident = ''i'', il_type = service, il_resource = ''s1'', il_impact = ''down''\<rparr>,
       \<lparr>il_incident = ''i'', il_type = service, il_resource = ''s2'', il_impact = ''down''\<rparr>],
     mg_updates = [], mg_announcements = [], mg_policies = [], mg_dashboards = [], mg_sequence = Some 1\<rparr>"

definition sample_access :: monitoring_access where
  "sample_access = \<lparr>ma_workspaceId = ''w'', ma_workspacePk = 1, ma_defaultDashboardId = Some ''d'', ma_samplingSeconds = 10,
     ma_role = member_role, ma_grants = [\<lparr>resourceType = service, resourceId = ''s1'', capability_of = manage,
       effect = allow\<rparr>]\<rparr>"

lemma sample_access_loaded: "loadMonitoringAccess sample_management ''home'' ''u'' = Inr sample_access"
  by code_simp

theorem access_conditions_agree_witness:
  "incidentViewCondition (query_access sample_access ''u'') ''i'' sample_management \<and>
   \<not> incidentManageCondition (query_access sample_access ''u'') ''i'' sample_management"
  using access_conditions_agree [OF sample_access_loaded, of service "''s1''" view "''i''"]
  by (simp add: sample_access_def sample_management_def incident_services_def live_services_def canAccessIncident_def
      canAccessResource_def allowsCapability_def deniesCapability_def)

text \<open>
  A revoked right is not used. The final statement of a page runs on the current database with the access
  that was read before: its condition holds exactly when the user still has the role that was read and a fresh
  decision on the current grants would allow the action; when the user is no longer an active member of the
  workspace it does not hold.
\<close>

theorem final_condition_current:
  assumes "keyed membership_key (mg_memberships db)"
  shows "(loadMonitoringAccess db slug u = Inr fresh \<and> ma_workspaceId fresh = w \<longrightarrow>
      finalResourceCapabilityCondition stale u rtype w rid cap db =
        (ma_role fresh = ma_role stale \<and> canAccessResource (ma_role fresh) (ma_grants fresh) rtype rid cap)) \<and>
    (\<not> list_ex (\<lambda>m. membership_key m = (w, u) \<and> mb_status m = Active) (mg_memberships db) \<longrightarrow>
      \<not> finalResourceCapabilityCondition stale u rtype w rid cap db \<and> \<not> finalAdminCondition u w db)"
proof (intro conjI impI)
  assume "loadMonitoringAccess db slug u = Inr fresh \<and> ma_workspaceId fresh = w"
  then have load: "loadMonitoringAccess db slug u = Inr fresh" and w: "ma_workspaceId fresh = w" by auto
  obtain m where m: "m \<in> set (mg_memberships db)" "membership_key m = (w, u)" "mb_status m = Active"
    "mb_role m = ma_role fresh"
    using load w by (elim loadMonitoringAccess_InrD) (auto simp: membership_key_def)
  have only: "r = m" if "r \<in> set (mg_memberships db)" "mb_workspace r = w" "mb_user r = u" for r
    using keyed_unique [OF assms that(1) m(1)] that m(2) by (simp add: membership_key_def)
  have role: "list_ex (\<lambda>r. mb_workspace r = w \<and> mb_user r = u \<and> mb_role r = role \<and> mb_status r = Active)
      (mg_memberships db) \<longleftrightarrow> role = ma_role fresh" for role
    unfolding list_ex_iff using m only by (metis membership_key_def prod.inject)
  have admin: "is_active_admin db w u \<longleftrightarrow> ma_role fresh = admin"
    using role [of admin] by (auto simp: is_active_admin_def active_admin_def list_ex_iff)
  show "finalResourceCapabilityCondition stale u rtype w rid cap db =
      (ma_role fresh = ma_role stale \<and> canAccessResource (ma_role fresh) (ma_grants fresh) rtype rid cap)"
  proof (cases "ma_role stale")
    case admin
    then show ?thesis
      using \<open>is_active_admin db w u \<longleftrightarrow> ma_role fresh = admin\<close>
      by (auto simp: finalResourceCapabilityCondition_def canAccessResource_def)
  next
    case member_role
    then show ?thesis
      using loaded_grants [OF load] w
      by (auto simp: finalResourceCapabilityCondition_def role allow_iff deny_iff canAccessResource_iff)
  qed
next
  assume none: "\<not> list_ex (\<lambda>m. membership_key m = (w, u) \<and> mb_status m = Active) (mg_memberships db)"
  then have "\<not> is_active_admin db w u" unfolding is_active_admin_iff by (auto simp: list_ex_iff)
  then show "\<not> finalResourceCapabilityCondition stale u rtype w rid cap db" "\<not> finalAdminCondition u w db"
    using none
    by (auto simp: finalResourceCapabilityCondition_def finalAdminCondition_def list_ex_iff membership_key_def)
qed

theorem final_condition_current_witness:
  "finalResourceCapabilityCondition sample_access ''u'' service ''w'' ''s1'' manage sample_management \<and>
   \<not> finalResourceCapabilityCondition (sample_access\<lparr>ma_role := admin\<rparr>) ''u'' service ''w'' ''s1'' manage sample_management"
proof -
  have keyed: "keyed membership_key (mg_memberships sample_management)"
    by (simp add: sample_management_def sample_members_def membership_key_def)
  note current = final_condition_current [OF keyed, THEN conjunct1, rule_format, OF conjI [OF sample_access_loaded]]
  show ?thesis
    using current [of "''w''" sample_access service "''s1''" manage]
      current [of "''w''" "sample_access\<lparr>ma_role := admin\<rparr>" service "''s1''" manage]
    by (simp add: sample_access_def canAccessResource_def allowsCapability_def deniesCapability_def)
qed

end
