(* ===== verification/Workspace_Admin.thy ===== *)
theory Workspace_Admin
  imports Access_Query
begin

text \<open>
  What the administration pages share (\<open>apps/web/src/lib/server/workspace-admin.ts\<close>): the check of the
  administrator, the audit statement with its digests, the check of a resource, and two text helpers.
\<close>

text \<open>
  What the pages take from the platform and from packages: SHA-256 and JSON, the collation of
  \<open>localeCompare\<close>, \<open>toLowerCase\<close> on Unicode text, HMAC-SHA-256 and the password hash of better-auth.
\<close>

record server =
  sr_platform :: platform
  sr_localeCompare :: "string \<Rightarrow> string \<Rightarrow> int"
  sr_lower :: "string \<Rightarrow> string"
  sr_hmac :: mac
  sr_hashPassword :: "string \<Rightarrow> string"

definition requireWorkspaceAdmin :: "management \<Rightarrow> string \<Rightarrow> string \<Rightarrow> monitoring_access http" where
  "requireWorkspaceAdmin db workspaceSlug userId =
     bind_result (loadMonitoringAccess db workspaceSlug userId) (\<lambda>access.
     bind_result (requireAdmin access) (\<lambda>_. Inr access))"

section \<open>Digests and the audit log\<close>

text \<open>\<open>Array.prototype.sort\<close> with a comparison function, which is stable.\<close>

fun insert_by :: "('a \<Rightarrow> 'a \<Rightarrow> int) \<Rightarrow> 'a \<Rightarrow> 'a list \<Rightarrow> 'a list" where
  "insert_by compare x [] = [x]"
| "insert_by compare x (y # ys) = (if compare x y \<le> 0 then x # y # ys else y # insert_by compare x ys)"

definition sort_by :: "('a \<Rightarrow> 'a \<Rightarrow> int) \<Rightarrow> 'a list \<Rightarrow> 'a list" where
  "sort_by compare xs = foldr (insert_by compare) xs []"

text \<open>The order of the entries depends on their names only, so they may be normalised before they are sorted.
  The names of the program's objects are not array indices and keep their order in an object.\<close>

fun normalizedJson :: "(string \<Rightarrow> string \<Rightarrow> int) \<Rightarrow> json \<Rightarrow> json" where
  "normalizedJson compare (JArr xs) = JArr (map (normalizedJson compare) xs)"
| "normalizedJson compare (JObj props) =
     JObj (sort_by (\<lambda>l r. compare (fst l) (fst r)) (map (\<lambda>p. (fst p, normalizedJson compare (snd p))) props))"
| "normalizedJson compare v = v"

definition auditDigest :: "server \<Rightarrow> json \<Rightarrow> string" where
  "auditDigest sv v =
     hex (sha256 (sr_platform sv)
       (text_encode (JSON_stringify (sr_platform sv) (normalizedJson (sr_localeCompare sv) v))))"

record audit_input =
  ai_workspaceId :: string
  ai_actorUserId :: string
  ai_action :: string
  ai_resourceType :: string
  ai_resourceId :: string
  ai_before :: "json option"
  ai_after :: "json option"
  ai_now :: int
  ai_onlyIfChanged :: bool

definition audit_row :: "server \<Rightarrow> string \<Rightarrow> audit_input \<Rightarrow> audit_entry" where
  "audit_row sv auditId input = \<lparr>ae_id = auditId, ae_workspace = ai_workspaceId input, ae_actor = ai_actorUserId input,
     ae_action = ai_action input, ae_type = ai_resourceType input, ae_resource = ai_resourceId input,
     ae_before = map_option (auditDigest sv) (ai_before input),
     ae_after = map_option (auditDigest sv) (ai_after input), ae_created_at = ai_now input\<rparr>"

definition prepareAuditStatement :: "server \<Rightarrow> string \<Rightarrow> audit_input \<Rightarrow> statement" where
  "prepareAuditStatement sv auditId input n db =
     insert_if (ai_onlyIfChanged input \<longrightarrow> n = 1)
       (workspace_exists db (ai_workspaceId input) \<and> user_exists db (ai_actorUserId input))
       (\<lambda>a b. ae_id a = ae_id b) (audit_row sv auditId input) (mg_audit db) (\<lambda>t. db\<lparr>mg_audit := t\<rparr>) db"

section \<open>Resources of a workspace\<close>

definition workspace_table :: "management \<Rightarrow> resource_type \<Rightarrow> owned_resource list" where
  "workspace_table db rtype =
     (if rtype = machine then mg_machines db else if rtype = service then mg_services db else mg_containers db)"

definition live_resource :: "management \<Rightarrow> string \<Rightarrow> resource_type \<Rightarrow> string \<Rightarrow> bool" where
  "live_resource db workspaceId rtype rid \<longleftrightarrow>
     list_ex (\<lambda>r. or_id r = rid \<and> or_workspace r = workspaceId \<and> or_deleted_at r = None) (workspace_table db rtype)"

definition requireWorkspaceResource :: "management \<Rightarrow> string \<Rightarrow> resource_type \<Rightarrow> string \<Rightarrow> unit http" where
  "requireWorkspaceResource db workspaceId rtype rid =
     http_require (live_resource db workspaceId rtype rid) 404 ''Resource not found''"

section \<open>Texts\<close>

text \<open>\<open>slice(0, n)\<close> counts UTF-16 units; a character that it cuts in two is shown as the replacement character.\<close>

fun slice_units :: "nat \<Rightarrow> string \<Rightarrow> string" where
  "slice_units n [] = []"
| "slice_units n (c # s) =
     (if utf16_units c = 0 then c # slice_units n s
      else if n = 0 then []
      else if utf16_units c \<le> n then c # slice_units (n - utf16_units c) s
      else text_decode replacement_bytes)"

definition maskEmail :: "string \<Rightarrow> string" where
  "maskEmail email =
     (let domain = rev (takeWhile (\<lambda>c. c \<noteq> CHR ''@'') (rev email));
          local_part = take (length email - length domain - 1) email
      in if CHR ''@'' \<notin> set email \<or> local_part = [] then ''***''
         else
           let shown = min 2 (js_length local_part);
               stars = max 2 (min 6 (js_length local_part - shown))
           in slice_units shown local_part @ replicate stars (CHR ''*'') @ ''@'' @ domain)"

definition safeLocalPath :: "string option \<Rightarrow> string \<Rightarrow> string" where
  "safeLocalPath path fallback =
     (case path of
        None \<Rightarrow> fallback
      | Some s \<Rightarrow>
          if s = [] \<or> \<not> startsWith s ''/'' \<or> startsWith s ''//'' \<or> includes_text s [CHR 0x5C] then fallback else s)"

section \<open>Facts\<close>

lemma requireWorkspaceAdmin_InrD:
  assumes "requireWorkspaceAdmin db slug u = Inr access"
  shows "is_active_admin db (ma_workspaceId access) u \<and> workspace_exists db (ma_workspaceId access) \<and>
    ma_role access = admin"
proof -
  have load: "loadMonitoringAccess db slug u = Inr access" and role: "ma_role access = admin"
    using assms by (auto simp: requireWorkspaceAdmin_def requireAdmin_def elim!: bind_result_InrE)
  show ?thesis
    using load role
    by (elim loadMonitoringAccess_InrD)
      (auto simp: is_active_admin_def active_admin_def workspace_exists_def list_ex_iff)
qed

lemma safeLocalPath_local:
  assumes "startsWith fallback ''/''" "\<not> startsWith fallback ''//''"
  shows "startsWith (safeLocalPath path fallback) ''/'' \<and> \<not> startsWith (safeLocalPath path fallback) ''//''"
  using assms by (auto simp: safeLocalPath_def split: option.splits)

lemma set_sort_by [simp]: "set (sort_by compare xs) = set xs"
proof -
  have ins: "set (insert_by compare x ys) = insert x (set ys)" for x :: 'a and ys
    by (induction ys) auto
  show ?thesis unfolding sort_by_def by (induction xs) (auto simp: ins)
qed

lemma audit_effect:
  assumes "prepareAuditStatement sv i input n db = Some (db', k)"
  shows "\<exists>t. db' = db\<lparr>mg_audit := t\<rparr> \<and> (k = 0 \<and> t = mg_audit db \<or> k = 1 \<and> t = mg_audit db @ [audit_row sv i input])"
  using assms
  by (cases db) (auto simp: prepareAuditStatement_def insert_if_def insert_unique_Some split: if_splits)

end
