(* ===== verification/Workspace_Access.thy ===== *)
theory Workspace_Access
  imports Workspace_Admin
begin

text \<open>
  Members and their permissions (\<open>apps/web/src/lib/server/workspace-access.ts\<close>): the panel of a workspace, the
  change of a membership and the permission of a member on a resource. The two writing pages read one
  database and run their batch on another, which others may have changed.
\<close>

section \<open>Pages\<close>

definition PAGE_SIZE :: nat where "PAGE_SIZE = 50"
definition MAX_PAGE :: nat where "MAX_PAGE = 100"
definition MAX_ENTRIES :: nat where "MAX_ENTRIES = PAGE_SIZE * MAX_PAGE"

record access_pagination =
  pn_page :: nat
  pn_pages :: nat
  pn_total :: nat
  pn_capped :: bool

definition ceil_div :: "nat \<Rightarrow> nat \<Rightarrow> nat" where
  "ceil_div a b = (a + b - 1) div b"

text \<open>\<open>requestedPage\<close> is a number or \<open>undefined\<close>.\<close>

definition requested_page :: "rat option \<Rightarrow> nat" where
  "requested_page requestedPage =
     (case requestedPage of
        None \<Rightarrow> 1
      | Some x \<Rightarrow> if is_integer_num x then nat (min (int MAX_PAGE) (max 1 \<lfloor>x\<rfloor>)) else 1)"

definition pagination :: "nat \<Rightarrow> rat option \<Rightarrow> access_pagination" where
  "pagination count requestedPage =
     (let total = min count MAX_ENTRIES;
          pages = max 1 (min MAX_PAGE (ceil_div total PAGE_SIZE))
      in \<lparr>pn_page = min (requested_page requestedPage) pages, pn_pages = pages, pn_total = total,
          pn_capped = (count > MAX_ENTRIES)\<rparr>)"

text \<open>\<open>SELECT COUNT(*) FROM (SELECT 1 .. LIMIT n)\<close>, and \<open>LIMIT ? OFFSET ?\<close> for a page.\<close>

definition capped_count :: "'r list \<Rightarrow> nat" where
  "capped_count rows = min (length rows) (MAX_ENTRIES + 1)"

definition page_rows :: "nat \<Rightarrow> 'r list \<Rightarrow> 'r list" where
  "page_rows page rows = take PAGE_SIZE (drop ((page - 1) * PAGE_SIZE) rows)"

section \<open>The panel\<close>

datatype resource_permission = Perm_none | Perm_view | Perm_manage | Perm_deny

definition permissionFromGrants :: "resource_grant list \<Rightarrow> resource_permission" where
  "permissionFromGrants grants =
     (if list_ex (\<lambda>g. effect g = deny) grants then Perm_deny
      else if list_ex (\<lambda>g. effect g = allow \<and> capability_of g = manage) grants then Perm_manage
      else if list_ex (\<lambda>g. effect g = allow \<and> capability_of g = view) grants then Perm_view
      else Perm_none)"

record access_member =
  am_id :: string
  am_name :: string
  am_email :: string
  am_role :: workspace_role
  am_status :: member_status
  am_createdAt :: int
  am_current :: bool

record access_invitation =
  xi_id :: string
  xi_email :: string
  xi_role :: workspace_role
  xi_expiresAt :: int
  xi_createdAt :: int
  xi_expired :: bool

record access_resource =
  xr_id :: string
  xr_type :: resource_type
  xr_name :: string
  xr_permission :: resource_permission

record access_panel =
  pa_members :: "access_member list"
  pa_invitations :: "access_invitation list"
  pa_selected :: "string option"
  pa_resources :: "access_resource list"
  pa_memberPages :: access_pagination
  pa_invitationPages :: access_pagination
  pa_resourcePages :: access_pagination

text \<open>The three lists in the order of their queries.\<close>

definition member_rows :: "management \<Rightarrow> string \<Rightarrow> (membership \<times> user_row) list" where
  "member_rows db workspaceId =
     sort_key (\<lambda>(m, u). (if mb_role m = admin then 0 :: nat else 1, us_name u, us_email u, mb_user m))
       (concat (map (\<lambda>m. map (Pair m) (filter (\<lambda>u. us_id u = mb_user m) (mg_users db)))
         (filter (\<lambda>m. mb_workspace m = workspaceId \<and> mb_status m \<in> {Active, Suspended}) (mg_memberships db))))"

definition invitation_rows :: "management \<Rightarrow> string \<Rightarrow> invitation list" where
  "invitation_rows db workspaceId =
     rev (sort_key (\<lambda>i. (iv_created_at i, iv_id i))
       (filter (\<lambda>i. iv_workspace i = workspaceId \<and> invitation_pending i) (mg_invitations db)))"

definition resource_rows :: "management \<Rightarrow> string \<Rightarrow> (resource_type \<times> owned_resource) list" where
  "resource_rows db workspaceId =
     (let live = filter (\<lambda>r. or_workspace r = workspaceId \<and> or_deleted_at r = None)
      in sort_key (\<lambda>(t, r). (type_text t, or_name r, or_id r))
           (map (Pair machine) (live (mg_machines db)) @ map (Pair service) (live (mg_services db)) @
            map (Pair container) (live (mg_containers db))))"

text \<open>The grants of the selected member on one of the listed resources.\<close>

definition member_grants :: "management \<Rightarrow> string \<Rightarrow> string \<Rightarrow> resource_type \<Rightarrow> string \<Rightarrow> resource_grant list" where
  "member_grants db workspaceId memberId rtype rid =
     map grant_of (filter (\<lambda>g. gr_workspace g = workspaceId \<and> gr_subject g = memberId \<and> gr_type g = rtype \<and>
       gr_resource g = rid) (mg_grants db))"

definition selected_member :: "access_member list \<Rightarrow> string option \<Rightarrow> string option" where
  "selected_member members memberId =
     (let selectable = map am_id (filter (\<lambda>m. am_role m = member_role) members)
      in case memberId of
           Some i \<Rightarrow> if i \<in> set selectable then Some i else (if selectable = [] then None else Some (hd selectable))
         | None \<Rightarrow> if selectable = [] then None else Some (hd selectable))"

record access_request =
  rq_memberId :: "string option"
  rq_memberPage :: "rat option"
  rq_invitationPage :: "rat option"
  rq_resourcePage :: "rat option"
  rq_now :: int

definition loadWorkspaceAccessPanel ::
  "management \<Rightarrow> string \<Rightarrow> string \<Rightarrow> access_request \<Rightarrow> access_panel http" where
  "loadWorkspaceAccessPanel db workspaceSlug userId request =
     bind_result (requireWorkspaceAdmin db workspaceSlug userId) (\<lambda>access.
       let w = ma_workspaceId access;
           memberPages = pagination (capped_count (member_rows db w)) (rq_memberPage request);
           invitationPages = pagination (capped_count (invitation_rows db w)) (rq_invitationPage request);
           resourcePages = pagination (capped_count (resource_rows db w)) (rq_resourcePage request);
           members = map (\<lambda>(m, u). \<lparr>am_id = mb_user m, am_name = us_name u, am_email = us_email u, am_role = mb_role m,
               am_status = mb_status m, am_createdAt = mb_created_at m, am_current = (mb_user m = userId)\<rparr>)
             (page_rows (pn_page memberPages) (member_rows db w));
           selected = selected_member members (rq_memberId request);
           grants = (\<lambda>t i. case selected of None \<Rightarrow> [] | Some s \<Rightarrow> member_grants db w s t i)
       in Inr \<lparr>pa_members = members,
            pa_invitations = map (\<lambda>i. \<lparr>xi_id = iv_id i, xi_email = iv_email i, xi_role = iv_role i,
                xi_expiresAt = iv_expires_at i, xi_createdAt = iv_created_at i,
                xi_expired = (iv_expires_at i \<le> rq_now request)\<rparr>)
              (page_rows (pn_page invitationPages) (invitation_rows db w)),
            pa_selected = selected,
            pa_resources = map (\<lambda>(t, r). \<lparr>xr_id = or_id r, xr_type = t, xr_name = or_name r,
                xr_permission = permissionFromGrants (grants t (or_id r))\<rparr>)
              (page_rows (pn_page resourcePages) (resource_rows db w)),
            pa_memberPages = memberPages, pa_invitationPages = invitationPages, pa_resourcePages = resourcePages\<rparr>)"

section \<open>Changing a membership\<close>

definition parse_role :: "string \<Rightarrow> workspace_role option" where
  "parse_role s = (if s = ''admin'' then Some admin else if s = ''member'' then Some member_role else None)"

definition parse_status :: "string \<Rightarrow> member_status option" where
  "parse_status s = (if s = ''active'' then Some Active else if s = ''suspended'' then Some Suspended else None)"

definition http_some :: "'a option \<Rightarrow> int \<Rightarrow> string \<Rightarrow> 'a http" where
  "http_some v status message = (case v of None \<Rightarrow> http_fail status message | Some x \<Rightarrow> Inr x)"

lemma http_some_iff [simp]:
  "http_some v status message = Inr x \<longleftrightarrow> v = Some x"
  "http_some v status message = Inl e \<longleftrightarrow> v = None \<and> e = Http status message"
  by (auto simp: http_some_def http_fail_def split: option.splits)

definition find_member :: "management \<Rightarrow> string \<Rightarrow> string \<Rightarrow> membership option" where
  "find_member db workspaceId memberId =
     find (\<lambda>m. mb_workspace m = workspaceId \<and> mb_user m = memberId \<and> mb_status m \<in> {Active, Suspended}) (mg_memberships db)"

definition member_json :: "workspace_role \<Rightarrow> member_status \<Rightarrow> json" where
  "member_json role status = JObj [(''role'', JStr (role_text role)), (''status'', JStr (status_text status))]"

text \<open>What the page decides on the database that it reads.\<close>

record membership_plan =
  mp_workspace :: string
  mp_before :: membership
  mp_role :: workspace_role
  mp_status :: member_status
  mp_removesAdmin :: bool

definition membership_change ::
  "management \<Rightarrow> string \<Rightarrow> string \<Rightarrow> string \<Rightarrow> string \<Rightarrow> string \<Rightarrow> membership_plan http" where
  "membership_change db workspaceSlug actorUserId memberId roleText statusText =
     bind_result (http_some (parse_role roleText) 400 ''Role is invalid'') (\<lambda>role.
     bind_result (http_some (parse_status statusText) 400 ''Membership status is invalid'') (\<lambda>status.
     bind_result (requireWorkspaceAdmin db workspaceSlug actorUserId) (\<lambda>access.
     bind_result (http_some (find_member db (ma_workspaceId access) memberId) 404 ''Member not found'') (\<lambda>m.
     bind_result (http_require (\<not> (memberId = actorUserId \<and> (role \<noteq> admin \<or> status \<noteq> Active))) 409
       ''You cannot remove your own active administrator access'') (\<lambda>_.
     let removes = mb_role m = admin \<and> mb_status m = Active \<and> (role \<noteq> admin \<or> status \<noteq> Active) in
     bind_result (http_require
         (\<not> removes \<or> length (filter (active_admin (ma_workspaceId access)) (mg_memberships db)) > 1) 409
         ''The workspace must keep at least one active administrator'') (\<lambda>_.
     Inr \<lparr>mp_workspace = ma_workspaceId access, mp_before = m, mp_role = role, mp_status = status,
          mp_removesAdmin = removes\<rparr>))))))"

definition membership_guard :: "membership_plan \<Rightarrow> string \<Rightarrow> string \<Rightarrow> management \<Rightarrow> membership \<Rightarrow> bool" where
  "membership_guard plan actorUserId memberId db m \<longleftrightarrow>
     mb_workspace m = mp_workspace plan \<and> mb_user m = memberId \<and> mb_role m = mb_role (mp_before plan) \<and>
     mb_status m = mb_status (mp_before plan) \<and> is_active_admin db (mb_workspace m) actorUserId \<and>
     (\<not> mp_removesAdmin plan \<or>
      list_ex (\<lambda>r. active_admin (mb_workspace m) r \<and> mb_user r \<noteq> mb_user m) (mg_memberships db))"

definition updateWorkspaceMembership ::
  "server \<Rightarrow> string \<Rightarrow> int \<Rightarrow> management \<Rightarrow> string \<Rightarrow> string \<Rightarrow> string \<Rightarrow> string \<Rightarrow> string \<Rightarrow> management \<Rightarrow>
   management \<times> unit http" where
  "updateWorkspaceMembership sv auditId now db0 workspaceSlug actorUserId memberId roleText statusText =
     perform (membership_change db0 workspaceSlug actorUserId memberId roleText statusText) (\<lambda>plan.
       commit_batch
         [update_memberships (membership_guard plan actorUserId memberId)
            (\<lambda>m. m\<lparr>mb_role := mp_role plan, mb_status := mp_status plan, mb_updated_at := now\<rparr>),
          prepareAuditStatement sv auditId \<lparr>ai_workspaceId = mp_workspace plan, ai_actorUserId = actorUserId,
            ai_action = ''membership.update'', ai_resourceType = ''membership'', ai_resourceId = memberId,
            ai_before = Some (member_json (mb_role (mp_before plan)) (mb_status (mp_before plan))),
            ai_after = Some (member_json (mp_role plan) (mp_status plan)), ai_now = now, ai_onlyIfChanged = True\<rparr>]
         (\<lambda>ks. http_require (hd ks = 1) 409 ''Workspace membership changed; reload and try again''))"

section \<open>The permission of a member\<close>

definition parse_resource :: "string \<Rightarrow> resource_type option" where
  "parse_resource s = (if s = ''machine'' then Some machine else if s = ''service'' then Some service
     else if s = ''container'' then Some container else None)"

definition parse_permission :: "string \<Rightarrow> resource_permission option" where
  "parse_permission s = (if s = ''none'' then Some Perm_none else if s = ''view'' then Some Perm_view
     else if s = ''manage'' then Some Perm_manage else if s = ''deny'' then Some Perm_deny else None)"

record permission_plan =
  pp_workspace :: string
  pp_type :: resource_type
  pp_permission :: resource_permission
  pp_existing :: "(capability \<times> grant_effect) list"

definition permission_change ::
  "management \<Rightarrow> string \<Rightarrow> string \<Rightarrow> string \<Rightarrow> string \<Rightarrow> string \<Rightarrow> string \<Rightarrow> permission_plan http" where
  "permission_change db workspaceSlug actorUserId memberId typeText rid permissionText =
     bind_result (http_some (parse_resource typeText) 400 ''Resource type is invalid'') (\<lambda>rtype.
     bind_result (http_some (parse_permission permissionText) 400 ''Permission is invalid'') (\<lambda>permission.
     bind_result (requireWorkspaceAdmin db workspaceSlug actorUserId) (\<lambda>access.
     bind_result (http_some (case find_member db (ma_workspaceId access) memberId of
         Some m \<Rightarrow> if mb_role m = member_role then Some m else None | None \<Rightarrow> None) 404 ''Member not found'') (\<lambda>_.
     bind_result (requireWorkspaceResource db (ma_workspaceId access) rtype rid) (\<lambda>_.
     Inr \<lparr>pp_workspace = ma_workspaceId access, pp_type = rtype, pp_permission = permission,
          pp_existing = map (\<lambda>g. (capability_of g, effect g))
            (member_grants db (ma_workspaceId access) memberId rtype rid)\<rparr>)))))"

text \<open>\<open>authorizationSql\<close>.\<close>

definition permission_authorized :: "permission_plan \<Rightarrow> string \<Rightarrow> string \<Rightarrow> string \<Rightarrow> management \<Rightarrow> bool" where
  "permission_authorized plan actorUserId memberId rid db \<longleftrightarrow>
     is_active_admin db (pp_workspace plan) actorUserId \<and>
     list_ex (\<lambda>m. mb_workspace m = pp_workspace plan \<and> mb_user m = memberId \<and> mb_role m = member_role \<and>
       mb_status m \<in> {Active, Suspended}) (mg_memberships db) \<and>
     live_resource db (pp_workspace plan) (pp_type plan) rid"

definition delete_grants :: "(management \<Rightarrow> grant_row \<Rightarrow> bool) \<Rightarrow> statement" where
  "delete_grants p n db =
     Some (db\<lparr>mg_grants := delete_where (p db) (mg_grants db)\<rparr>, count_where (p db) (mg_grants db))"

definition insert_grant :: "(management \<Rightarrow> bool) \<Rightarrow> grant_row \<Rightarrow> statement" where
  "insert_grant cond g n db =
     insert_if (cond db)
       (workspace_exists db (gr_workspace g) \<and> user_exists db (gr_subject g) \<and> user_exists db (gr_created_by g))
       grant_clash g (mg_grants db) (\<lambda>t. db\<lparr>mg_grants := t\<rparr>) db"

definition permission_grants :: "resource_permission \<Rightarrow> (capability \<times> grant_effect) list" where
  "permission_grants permission =
     (case permission of
        Perm_none \<Rightarrow> []
      | Perm_view \<Rightarrow> [(view, allow)]
      | Perm_manage \<Rightarrow> [(manage, allow)]
      | Perm_deny \<Rightarrow> [(view, deny), (manage, deny)])"

definition permission_json :: "string \<Rightarrow> resource_permission \<Rightarrow> json" where
  "permission_json memberId permission =
     JObj [(''memberId'', JStr memberId),
       (''permission'', JStr (case permission of Perm_none \<Rightarrow> ''none'' | Perm_view \<Rightarrow> ''view'' | Perm_manage \<Rightarrow> ''manage''
          | Perm_deny \<Rightarrow> ''deny''))]"

definition existing_json :: "(capability \<times> grant_effect) list \<Rightarrow> json" where
  "existing_json existing =
     JArr (map (\<lambda>(c, e). JObj [(''capability'', JStr (capability_text c)), (''effect'', JStr (effect_text e))]) existing)"

definition new_grant ::
  "string \<Rightarrow> permission_plan \<Rightarrow> string \<Rightarrow> string \<Rightarrow> string \<Rightarrow> int \<Rightarrow> capability \<times> grant_effect \<Rightarrow> grant_row" where
  "new_grant grantId plan actorUserId memberId rid now = (\<lambda>(c, e).
     \<lparr>gr_id = grantId, gr_workspace = pp_workspace plan, gr_subject = memberId, gr_type = pp_type plan,
      gr_resource = rid, gr_capability = c, gr_effect = e, gr_created_by = actorUserId, gr_created_at = now\<rparr>)"

definition permission_audit :: "permission_plan \<Rightarrow> string \<Rightarrow> string \<Rightarrow> string \<Rightarrow> int \<Rightarrow> audit_input" where
  "permission_audit plan actorUserId memberId rid now = \<lparr>ai_workspaceId = pp_workspace plan, ai_actorUserId = actorUserId,
     ai_action = ''resource_grant.replace'', ai_resourceType = type_text (pp_type plan), ai_resourceId = rid,
     ai_before = Some (existing_json (pp_existing plan)),
     ai_after = Some (permission_json memberId (pp_permission plan)), ai_now = now, ai_onlyIfChanged = True\<rparr>"

definition permission_guard :: "permission_plan \<Rightarrow> string \<Rightarrow> string \<Rightarrow> string \<Rightarrow> management \<Rightarrow> membership \<Rightarrow> bool" where
  "permission_guard plan actorUserId memberId rid db m \<longleftrightarrow>
     mb_workspace m = pp_workspace plan \<and> mb_user m = memberId \<and> mb_role m = member_role \<and>
     mb_status m \<in> {Active, Suspended} \<and> permission_authorized plan actorUserId memberId rid db"

text \<open>The n-th \<open>randomUUID\<close> of the inserts is \<open>grantIds n\<close>.\<close>

definition permission_inserts ::
  "(nat \<Rightarrow> string) \<Rightarrow> int \<Rightarrow> permission_plan \<Rightarrow> string \<Rightarrow> string \<Rightarrow> string \<Rightarrow> statement list" where
  "permission_inserts grantIds now plan actorUserId memberId rid =
     map (\<lambda>(i, ce). insert_grant (permission_authorized plan actorUserId memberId rid)
         (new_grant (grantIds i) plan actorUserId memberId rid now ce))
       (enumerate 0 (permission_grants (pp_permission plan)))"

definition permission_batch ::
  "server \<Rightarrow> string \<Rightarrow> (nat \<Rightarrow> string) \<Rightarrow> int \<Rightarrow> permission_plan \<Rightarrow> string \<Rightarrow> string \<Rightarrow> string \<Rightarrow> statement list" where
  "permission_batch sv auditId grantIds now plan actorUserId memberId rid =
     update_memberships (permission_guard plan actorUserId memberId rid) (\<lambda>m. m) #
     prepareAuditStatement sv auditId (permission_audit plan actorUserId memberId rid now) #
     delete_grants (\<lambda>db g. gr_workspace g = pp_workspace plan \<and> gr_subject g = memberId \<and> gr_type g = pp_type plan \<and>
       gr_resource g = rid \<and> permission_authorized plan actorUserId memberId rid db) #
     permission_inserts grantIds now plan actorUserId memberId rid"

definition setMemberResourcePermission ::
  "server \<Rightarrow> string \<Rightarrow> (nat \<Rightarrow> string) \<Rightarrow> int \<Rightarrow> management \<Rightarrow> string \<Rightarrow> string \<Rightarrow> string \<Rightarrow> string \<Rightarrow> string \<Rightarrow> string \<Rightarrow>
   management \<Rightarrow> management \<times> unit http" where
  "setMemberResourcePermission sv auditId grantIds now db0 workspaceSlug actorUserId memberId typeText rid permissionText =
     perform (permission_change db0 workspaceSlug actorUserId memberId typeText rid permissionText) (\<lambda>plan.
       commit_batch (permission_batch sv auditId grantIds now plan actorUserId memberId rid)
         (\<lambda>ks. http_require (hd ks = 1) 409 ''Resource permission changed; reload and try again''))"

end
