(* ===== verification/Workspace_Invitations.thy ===== *)
theory Workspace_Invitations
  imports Workspace_Access
begin

text \<open>
  Invitations to a workspace (\<open>apps/web/src/lib/server/workspace-invitations.ts\<close>): an administrator creates one for
  an address and hands over a random token, of which only a keyed digest is stored; the receiver accepts it
  with an account of that address or registers one.
\<close>

section \<open>Tokens and addresses\<close>

text \<open>The 32 random bytes are an argument.\<close>

definition randomToken :: "blob \<Rightarrow> string" where
  "randomToken bytes =
     map (\<lambda>c. if c = CHR ''/'' then CHR ''_'' else c)
       (map (\<lambda>c. if c = CHR ''+'' then CHR ''-'' else c) (filter (\<lambda>c. c \<noteq> CHR ''='') (btoa bytes)))"

text \<open>\<open>/^[^\s@]+@[^\s@]+\.[^\s@]+$/\<close>: no white space, one sign, and a dot inside the domain.\<close>

definition email_shape :: "string \<Rightarrow> bool" where
  "email_shape s \<longleftrightarrow>
     \<not> list_ex (includes_text s) space_texts \<and>
     (case split_char (CHR ''@'') s of
        [local_part, domain] \<Rightarrow>
          local_part \<noteq> [] \<and> list_ex (\<lambda>i. domain ! i = CHR ''.'') [1..<length domain - 1]
      | _ \<Rightarrow> False)"

definition normalizeEmail :: "server \<Rightarrow> string \<Rightarrow> string http" where
  "normalizeEmail sv email =
     (let normalized = sr_lower sv (js_trim email)
      in if js_length normalized < 3 \<or> js_length normalized > 254 \<or> \<not> email_shape normalized
         then http_fail 400 ''A valid email address is required''
         else Inr normalized)"

definition invitationDigest :: "server \<Rightarrow> string \<Rightarrow> string \<Rightarrow> blob http" where
  "invitationDigest sv token secret =
     (if \<not> (length token = 43 \<and> list_all base64url_char token) \<or> js_length secret < 32
      then http_fail 404 ''Invitation not found''
      else Inr (sr_hmac sv (text_encode secret) (text_encode (''alphaping/workspace-invitation/v1:'' @ token))))"

section \<open>Reading an invitation\<close>

record invitation_record =
  ir_id :: string
  ir_workspaceId :: string
  ir_workspaceName :: string
  ir_workspaceSlug :: string
  ir_email :: string
  ir_role :: workspace_role
  ir_expiresAt :: int
  ir_existingUser :: "string option"

definition invitation_joined :: "management \<Rightarrow> blob \<Rightarrow> (invitation \<times> workspace_entry) list" where
  "invitation_joined db digest =
     concat (map (\<lambda>i. map (Pair i) (filter (\<lambda>w. we_id w = iv_workspace i \<and> we_deleted_at w = None) (mg_workspaces db)))
       (filter (\<lambda>i. iv_digest i = digest \<and> invitation_pending i) (mg_invitations db)))"

definition invitationRecord ::
  "server \<Rightarrow> management \<Rightarrow> string \<Rightarrow> string \<Rightarrow> bool \<Rightarrow> int \<Rightarrow> invitation_record http" where
  "invitationRecord sv db token secret requireUnexpired now =
     bind_result (invitationDigest sv token secret) (\<lambda>digest.
       case invitation_joined db digest of
         [] \<Rightarrow> http_fail 404 ''Invitation not found''
       | (i, w) # _ \<Rightarrow>
           if requireUnexpired \<and> iv_expires_at i \<le> now then http_fail 404 ''Invitation not found''
           else Inr \<lparr>ir_id = iv_id i, ir_workspaceId = iv_workspace i, ir_workspaceName = we_name w,
             ir_workspaceSlug = we_slug w, ir_email = iv_email i, ir_role = iv_role i, ir_expiresAt = iv_expires_at i,
             ir_existingUser = map_option us_id (find (\<lambda>u. us_email u = iv_email i) (mg_users db))\<rparr>)"

record invitation_page =
  ip_workspaceName :: string
  ip_workspaceSlug :: string
  ip_emailHint :: string
  ip_role :: workspace_role
  ip_expiresAt :: int
  ip_expired :: bool
  ip_existingAccount :: bool
  ip_recipientMatches :: bool

definition loadWorkspaceInvitation ::
  "server \<Rightarrow> management \<Rightarrow> string \<Rightarrow> string \<Rightarrow> int \<Rightarrow> string option \<Rightarrow> invitation_page http" where
  "loadWorkspaceInvitation sv db token secret now authenticatedEmail =
     bind_result (invitationRecord sv db token secret False now) (\<lambda>i.
       Inr \<lparr>ip_workspaceName = ir_workspaceName i, ip_workspaceSlug = ir_workspaceSlug i,
         ip_emailHint = maskEmail (ir_email i), ip_role = ir_role i, ip_expiresAt = ir_expiresAt i,
         ip_expired = (ir_expiresAt i \<le> now), ip_existingAccount = (ir_existingUser i \<noteq> None),
         ip_recipientMatches = (case authenticatedEmail of None \<Rightarrow> False
           | Some e \<Rightarrow> sr_lower sv (js_trim e) = ir_email i)\<rparr>)"

section \<open>Creating and revoking\<close>

definition INVITATION_LIFETIME_MS :: int where
  "INVITATION_LIFETIME_MS = 7 * 24 * 60 * 60000"

record invitation_plan =
  np_workspace :: string
  np_email :: string
  np_role :: workspace_role
  np_token :: string
  np_digest :: blob

definition invitation_creation ::
  "server \<Rightarrow> blob \<Rightarrow> management \<Rightarrow> string \<Rightarrow> string \<Rightarrow> string \<Rightarrow> string \<Rightarrow> string \<Rightarrow> invitation_plan http" where
  "invitation_creation sv bytes db workspaceSlug actorUserId secret emailText roleText =
     bind_result (requireWorkspaceAdmin db workspaceSlug actorUserId) (\<lambda>access.
     bind_result (normalizeEmail sv emailText) (\<lambda>email.
     bind_result (http_some (parse_role roleText) 400 ''Role is invalid'') (\<lambda>role.
     bind_result (http_require (\<not> list_ex (\<lambda>m. mb_workspace m = ma_workspaceId access \<and>
         list_ex (\<lambda>u. us_id u = mb_user m \<and> us_email u = email) (mg_users db)) (mg_memberships db)) 409
       ''This user already belongs to the workspace'') (\<lambda>_.
     bind_result (invitationDigest sv (randomToken bytes) secret) (\<lambda>digest.
     Inr \<lparr>np_workspace = ma_workspaceId access, np_email = email, np_role = role, np_token = randomToken bytes,
          np_digest = digest\<rparr>)))))"

definition insert_invitation :: "(management \<Rightarrow> bool) \<Rightarrow> invitation \<Rightarrow> statement" where
  "insert_invitation cond r n db =
     insert_if (cond db) (workspace_exists db (iv_workspace r) \<and> user_exists db (iv_created_by r)) invitation_clash r
       (mg_invitations db) (\<lambda>t. db\<lparr>mg_invitations := t\<rparr>) db"

definition new_invitation :: "string \<Rightarrow> invitation_plan \<Rightarrow> string \<Rightarrow> int \<Rightarrow> invitation" where
  "new_invitation invitationId plan actorUserId now =
     \<lparr>iv_id = invitationId, iv_workspace = np_workspace plan, iv_email = np_email plan, iv_role = np_role plan,
      iv_digest = np_digest plan, iv_expires_at = now + INVITATION_LIFETIME_MS, iv_accepted_at = None,
      iv_revoked_at = None, iv_created_by = actorUserId, iv_created_at = now\<rparr>"

definition createWorkspaceInvitation ::
  "server \<Rightarrow> blob \<Rightarrow> string \<Rightarrow> string \<Rightarrow> int \<Rightarrow> management \<Rightarrow> string \<Rightarrow> string \<Rightarrow> string \<Rightarrow> string \<Rightarrow> string \<Rightarrow> management \<Rightarrow>
   management \<times> (string \<times> string \<times> int) http" where
  "createWorkspaceInvitation sv bytes invitationId auditId now db0 workspaceSlug actorUserId secret emailText roleText =
     perform (invitation_creation sv bytes db0 workspaceSlug actorUserId secret emailText roleText) (\<lambda>plan.
       let expiresAt = now + INVITATION_LIFETIME_MS in
       commit_batch
         [update_memberships (\<lambda>db m. mb_workspace m = np_workspace plan \<and> mb_user m = actorUserId \<and>
            mb_role m = admin \<and> mb_status m = Active \<and> finalAdminCondition actorUserId (mb_workspace m) db) (\<lambda>m. m),
          prepareAuditStatement sv auditId \<lparr>ai_workspaceId = np_workspace plan, ai_actorUserId = actorUserId,
            ai_action = ''workspace_invitation.create'', ai_resourceType = ''workspace_invitation'',
            ai_resourceId = invitationId, ai_before = None,
            ai_after = Some (JObj [(''role'', JStr (role_text (np_role plan))), (''expiresAt'', JNum (of_int expiresAt))]),
            ai_now = now, ai_onlyIfChanged = True\<rparr>,
          update_invitations (\<lambda>db i. iv_workspace i = np_workspace plan \<and> iv_email i = np_email plan \<and>
            invitation_pending i \<and> is_active_admin db (iv_workspace i) actorUserId) (\<lambda>i. i\<lparr>iv_revoked_at := Some now\<rparr>),
          insert_invitation (\<lambda>db. is_active_admin db (np_workspace plan) actorUserId)
            (new_invitation invitationId plan actorUserId now)]
         (\<lambda>ks. bind_result (http_require (hd ks = 1) 409 ''Workspace access changed; reload and try again'')
            (\<lambda>_. Inr (invitationId, np_token plan, expiresAt))))"

definition invitation_revocation ::
  "management \<Rightarrow> string \<Rightarrow> string \<Rightarrow> string \<Rightarrow> (string \<times> invitation) http" where
  "invitation_revocation db workspaceSlug actorUserId invitationId =
     bind_result (requireWorkspaceAdmin db workspaceSlug actorUserId) (\<lambda>access.
     bind_result (http_some (find (\<lambda>i. iv_id i = invitationId \<and> iv_workspace i = ma_workspaceId access \<and>
         invitation_pending i) (mg_invitations db)) 404 ''Invitation not found'') (\<lambda>i.
     Inr (ma_workspaceId access, i)))"

definition revokeWorkspaceInvitation ::
  "server \<Rightarrow> string \<Rightarrow> int \<Rightarrow> management \<Rightarrow> string \<Rightarrow> string \<Rightarrow> string \<Rightarrow> management \<Rightarrow> management \<times> unit http" where
  "revokeWorkspaceInvitation sv auditId now db0 workspaceSlug actorUserId invitationId =
     perform (invitation_revocation db0 workspaceSlug actorUserId invitationId) (\<lambda>(w, before).
       commit_batch
         [update_invitations (\<lambda>db i. iv_id i = invitationId \<and> iv_workspace i = w \<and> invitation_pending i \<and>
            finalAdminCondition actorUserId (iv_workspace i) db) (\<lambda>i. i\<lparr>iv_revoked_at := Some now\<rparr>),
          prepareAuditStatement sv auditId \<lparr>ai_workspaceId = w, ai_actorUserId = actorUserId,
            ai_action = ''workspace_invitation.revoke'', ai_resourceType = ''workspace_invitation'',
            ai_resourceId = invitationId,
            ai_before = Some (JObj [(''role'', JStr (role_text (iv_role before))),
              (''expiresAt'', JNum (of_int (iv_expires_at before)))]),
            ai_after = Some (JObj [(''revokedAt'', JNum (of_int now))]), ai_now = now, ai_onlyIfChanged = True\<rparr>]
         (\<lambda>ks. http_require (hd ks = 1) 409 ''Invitation is no longer revocable''))"

section \<open>Accepting\<close>

definition accept_audit :: "invitation_record \<Rightarrow> string \<Rightarrow> int \<Rightarrow> audit_input" where
  "accept_audit i userId now = \<lparr>ai_workspaceId = ir_workspaceId i, ai_actorUserId = userId,
     ai_action = ''workspace_invitation.accept'', ai_resourceType = ''workspace_invitation'', ai_resourceId = ir_id i,
     ai_before = Some (JObj [(''accepted'', JBool False)]),
     ai_after = Some (JObj [(''accepted'', JBool True), (''role'', JStr (role_text (ir_role i)))]), ai_now = now,
     ai_onlyIfChanged = True\<rparr>"

text \<open>The first statement of both ways to accept.\<close>

definition accept_update :: "string \<Rightarrow> int \<Rightarrow> statement" where
  "accept_update invitationId now =
     update_invitations (\<lambda>db i. iv_id i = invitationId \<and> invitation_pending i \<and> iv_expires_at i > now)
       (\<lambda>i. i\<lparr>iv_accepted_at := Some now\<rparr>)"

text \<open>
  The membership takes its workspace and role from the invitation that was accepted at \<open>now\<close>; a scalar subquery
  without a row is NULL, which the columns refuse.
\<close>

definition accepted_member :: "string \<Rightarrow> string \<Rightarrow> int \<Rightarrow> statement" where
  "accepted_member invitationId userId now n db =
     (if n \<noteq> 1 then Some (db, 0)
      else case find (\<lambda>i. iv_id i = invitationId \<and> iv_accepted_at i = Some now) (mg_invitations db) of
             None \<Rightarrow> None
           | Some i \<Rightarrow> insert_membership (\<lambda>k. k = 1) \<lparr>mb_workspace = iv_workspace i, mb_user = userId,
               mb_role = iv_role i, mb_status = Active, mb_created_at = now, mb_updated_at = now\<rparr> n db)"

definition acceptInvitationForUser ::
  "server \<Rightarrow> string \<Rightarrow> management \<Rightarrow> string \<Rightarrow> string \<Rightarrow> string \<Rightarrow> string \<Rightarrow> int \<Rightarrow> management \<Rightarrow>
   management \<times> string http" where
  "acceptInvitationForUser sv auditId db0 token secret userId userEmail now =
     perform
       (bind_result (invitationRecord sv db0 token secret True now) (\<lambda>i.
        bind_result (normalizeEmail sv userEmail) (\<lambda>email.
        bind_result (http_require (email = ir_email i) 403
          ''Sign in with the email address that received this invitation'') (\<lambda>_. Inr i))))
       (\<lambda>i. commit_batch
         [accept_update (ir_id i) now, accepted_member (ir_id i) userId now,
          prepareAuditStatement sv auditId (accept_audit i userId now)]
         (\<lambda>ks. bind_result (http_require (ks ! 0 = 1 \<and> ks ! 1 = 1) 409 ''Invitation is no longer available'')
            (\<lambda>_. Inr (ir_workspaceSlug i))))"

definition insert_user :: "user_row \<Rightarrow> statement" where
  "insert_user r n db = insert_if (n = 1) True user_clash r (mg_users db) (\<lambda>t. db\<lparr>mg_users := t\<rparr>) db"

definition insert_account :: "account_row \<Rightarrow> statement" where
  "insert_account r n db =
     insert_if (n = 1) (user_exists db (ac_user r)) account_clash r (mg_accounts db) (\<lambda>t. db\<lparr>mg_accounts := t\<rparr>) db"

definition registration ::
  "server \<Rightarrow> management \<Rightarrow> string \<Rightarrow> string \<Rightarrow> string \<Rightarrow> string \<Rightarrow> int \<Rightarrow> (invitation_record \<times> string) http" where
  "registration sv db token secret nameText password now =
     bind_result (invitationRecord sv db token secret True now) (\<lambda>i.
     bind_result (http_require (ir_existingUser i = None \<or> ir_existingUser i = Some []) 409
       ''An account already exists for this invitation; sign in to continue'') (\<lambda>_.
     let name = js_trim nameText in
     bind_result (http_require (2 \<le> js_length name \<and> js_length name \<le> 80) 400
       ''Name must contain 2 to 80 characters'') (\<lambda>_.
     bind_result (http_require (12 \<le> js_length password \<and> js_length password \<le> 128) 400
       ''Password must contain 12 to 128 characters'') (\<lambda>_. Inr (i, name)))))"

definition registerFromWorkspaceInvitation ::
  "server \<Rightarrow> string \<Rightarrow> string \<Rightarrow> string \<Rightarrow> management \<Rightarrow> string \<Rightarrow> string \<Rightarrow> string \<Rightarrow> string \<Rightarrow> int \<Rightarrow> management \<Rightarrow>
   management \<times> (string \<times> string) http" where
  "registerFromWorkspaceInvitation sv userId accountId auditId db0 token secret nameText password now =
     perform (registration sv db0 token secret nameText password now) (\<lambda>(i, name).
       commit_batch
         [accept_update (ir_id i) now,
          insert_user \<lparr>us_id = userId, us_name = name, us_email = ir_email i, us_verified = True, us_created_at = now\<rparr>,
          insert_account \<lparr>ac_id = accountId, ac_user = userId, ac_password = sr_hashPassword sv password,
            ac_created_at = now\<rparr>,
          accepted_member (ir_id i) userId now,
          prepareAuditStatement sv auditId (accept_audit i userId now)]
         (\<lambda>ks. bind_result (http_require (ks ! 0 = 1 \<and> ks ! 1 = 1 \<and> ks ! 2 = 1 \<and> ks ! 3 = 1) 409
            ''Invitation is no longer available'') (\<lambda>_. Inr (ir_workspaceSlug i, ir_email i))))"

end
