(* ===== verification/Workspace_Lifecycle.thy ===== *)
theory Workspace_Lifecycle
  imports Workspace_Invitations
begin

text \<open>
  The life of a workspace (\<open>apps/web/src/lib/server/workspace-lifecycle.ts\<close>): creation, the lists of a user's
  workspaces, soft deletion and restoration within the grace period.
\<close>

section \<open>Creation\<close>

record create_workspace_input =
  wi_name :: string
  wi_slug :: string
  wi_rawDays :: rat
  wi_sampling :: rat
  wi_visibility :: string

definition slug_edge :: "char \<Rightarrow> bool" where
  "slug_edge c \<longleftrightarrow> between CHR ''a'' CHR ''z'' c \<or> between CHR ''0'' CHR ''9'' c"

text \<open>\<open>/^[a-z0-9][a-z0-9-]{1,46}[a-z0-9]$/\<close>.\<close>

definition slug_shape :: "string \<Rightarrow> bool" where
  "slug_shape s \<longleftrightarrow> 3 \<le> length s \<and> length s \<le> 48 \<and> slug_edge (hd s) \<and> slug_edge (last s) \<and>
     list_all (\<lambda>c. slug_edge c \<or> c = CHR ''-'') s"

definition normalizeWorkspaceInput :: "create_workspace_input \<Rightarrow> create_workspace_input http" where
  "normalizeWorkspaceInput input =
     (let name = js_trim (wi_name input); slug = js_trim (wi_slug input) in
      bind_result (http_require (2 \<le> js_length name \<and> js_length name \<le> 80) 400 ''Workspace name is invalid'') (\<lambda>_.
      bind_result (http_require (slug_shape slug) 400 ''Workspace slug is invalid'') (\<lambda>_.
      bind_result (http_require (is_integer_num (wi_rawDays input) \<and> 1 \<le> wi_rawDays input \<and> wi_rawDays input \<le> 90) 400
        ''Raw retention must be between 1 and 90 days'') (\<lambda>_.
      bind_result (http_require (is_integer_num (wi_sampling input) \<and> 1 \<le> wi_sampling input \<and>
          wi_sampling input \<le> 300 \<and> 60 mod \<lfloor>wi_sampling input\<rfloor> = 0) 400
        ''Default sampling interval must divide the 60 second report period'') (\<lambda>_.
      bind_result (http_require (wi_visibility input \<in> {''private'', ''authenticated'', ''public''}) 400
        ''Dashboard visibility is invalid'') (\<lambda>_.
      Inr (input\<lparr>wi_name := name, wi_slug := slug\<rparr>)))))))"

definition insert_workspace :: "workspace_entry \<Rightarrow> statement" where
  "insert_workspace r n db =
     insert_if True True workspace_clash r (mg_workspaces db) (\<lambda>t. db\<lparr>mg_workspaces := t\<rparr>) db"

text \<open>A dashboard, whose slug is unique in its workspace, and the retention policy.\<close>

definition insert_dashboard :: "dashboard_row \<Rightarrow> string \<Rightarrow> statement" where
  "insert_dashboard r createdBy n db =
     insert_if True (workspace_exists db (db_workspace r) \<and> user_exists db createdBy)
       (\<lambda>a b. db_id a = db_id b \<or> db_workspace a = db_workspace b \<and> db_slug a = db_slug b) r (mg_dashboards db)
       (\<lambda>t. db\<lparr>mg_dashboards := t\<rparr>) db"

definition insert_policy :: "grace_policy \<Rightarrow> statement" where
  "insert_policy r n db =
     insert_if True (workspace_exists db (gp_workspace r)) (\<lambda>a b. gp_workspace a = gp_workspace b) r (mg_policies db)
       (\<lambda>t. db\<lparr>mg_policies := t\<rparr>) db"

definition slug_taken :: "management \<Rightarrow> string \<Rightarrow> bool" where
  "slug_taken db slug \<longleftrightarrow> list_ex (\<lambda>w. we_slug w = slug) (mg_workspaces db)"

record workspace_ids =
  wx_workspace :: string
  wx_dashboard :: string
  wx_audit :: string

definition created_json :: "create_workspace_input \<Rightarrow> json" where
  "created_json input = JObj [(''name'', JStr (wi_name input)), (''slug'', JStr (wi_slug input)),
     (''defaultSamplingIntervalSeconds'', JNum (wi_sampling input)),
     (''dashboardVisibility'', JStr (wi_visibility input)), (''rawDays'', JNum (wi_rawDays input))]"

definition creation_batch ::
  "server \<Rightarrow> workspace_ids \<Rightarrow> int \<Rightarrow> string \<Rightarrow> create_workspace_input \<Rightarrow> int \<Rightarrow> statement list" where
  "creation_batch sv ids now actorUserId input pk =
     [insert_workspace \<lparr>we_id = wx_workspace ids, we_telemetry_pk = pk, we_slug = wi_slug input, we_name = wi_name input,
        we_dashboard = Some (wx_dashboard ids), we_sampling = \<lfloor>wi_sampling input\<rfloor>, we_created_at = now,
        we_updated_at = now, we_deleted_at = None, we_purge_started_at = None\<rparr>,
      insert_membership (\<lambda>_. True) \<lparr>mb_workspace = wx_workspace ids, mb_user = actorUserId, mb_role = admin,
        mb_status = Active, mb_created_at = now, mb_updated_at = now\<rparr>,
      insert_dashboard \<lparr>db_id = wx_dashboard ids, db_workspace = wx_workspace ids, db_slug = ''overview'',
        db_visibility = wi_visibility input\<rparr> actorUserId,
      insert_policy \<lparr>gp_workspace = wx_workspace ids, gp_raw_days = \<lfloor>wi_rawDays input\<rfloor>, gp_grace_days = Some 7\<rparr>,
      prepareAuditStatement sv (wx_audit ids) \<lparr>ai_workspaceId = wx_workspace ids, ai_actorUserId = actorUserId,
        ai_action = ''workspace.create'', ai_resourceType = ''workspace'', ai_resourceId = wx_workspace ids,
        ai_before = None, ai_after = Some (created_json input), ai_now = now, ai_onlyIfChanged = False\<rparr>]"

text \<open>
  The number of the workspace is drawn by a statement of its own; \<open>meanwhile\<close> is what others write before the
  batch runs. When the batch fails, the slug is looked up to tell a collision from another error.
\<close>

definition createWorkspace ::
  "server \<Rightarrow> workspace_ids \<Rightarrow> int \<Rightarrow> (management \<Rightarrow> management) \<Rightarrow> management \<Rightarrow> string \<Rightarrow> create_workspace_input \<Rightarrow>
   management \<Rightarrow> management \<times> (string \<times> string) http" where
  "createWorkspace sv ids now meanwhile db0 actorUserId input =
     perform
       (bind_result (normalizeWorkspaceInput input) (\<lambda>normalized.
        bind_result (http_require (user_exists db0 actorUserId) 404 ''Account not found'') (\<lambda>_.
        bind_result (http_require (\<not> slug_taken db0 (wi_slug normalized)) 409 ''Workspace slug is already in use'')
          (\<lambda>_. Inr normalized))))
       (\<lambda>normalized db.
         case mg_sequence db of
           None \<Rightarrow> (db, http_fail 500 ''Workspace sequence is unavailable'')
         | Some v \<Rightarrow>
             (case commit_batch (creation_batch sv ids now actorUserId normalized (v + 1)) (\<lambda>_. Inr ())
                (meanwhile (db\<lparr>mg_sequence := Some (v + 1)\<rparr>)) of
                (db1, Inr _) \<Rightarrow> (db1, Inr (wx_workspace ids, wi_slug normalized))
              | (db1, Inl e) \<Rightarrow>
                  (db1, if slug_taken db1 (wi_slug normalized) then http_fail 409 ''Workspace slug is already in use''
                        else Inl e)))"

section \<open>The workspaces of a user\<close>

record workspace_summary =
  sm_id :: string
  sm_name :: string
  sm_slug :: string
  sm_role :: workspace_role
  sm_deletedAt :: "int option"
  sm_recoverableUntil :: "int option"

definition grace_days :: "management \<Rightarrow> string \<Rightarrow> int option" where
  "grace_days db workspaceId =
     (case find (\<lambda>p. gp_workspace p = workspaceId) (mg_policies db) of None \<Rightarrow> None | Some p \<Rightarrow> gp_grace_days p)"

definition grace_end :: "int option \<Rightarrow> int \<Rightarrow> int" where
  "grace_end grace deletedAt = deletedAt + (case grace of None \<Rightarrow> 7 | Some d \<Rightarrow> d) * 86400000"

definition mapWorkspaceMembership :: "management \<Rightarrow> workspace_entry \<times> membership \<Rightarrow> workspace_summary" where
  "mapWorkspaceMembership db = (\<lambda>(w, m). \<lparr>sm_id = we_id w, sm_name = we_name w, sm_slug = we_slug w, sm_role = mb_role m,
     sm_deletedAt = we_deleted_at w,
     sm_recoverableUntil = map_option (grace_end (grace_days db (we_id w))) (we_deleted_at w)\<rparr>)"

definition user_workspaces :: "management \<Rightarrow> string \<Rightarrow> (workspace_entry \<times> membership) list" where
  "user_workspaces db userId =
     sort_key (\<lambda>(w, m). (if we_deleted_at w \<noteq> None then 1 :: nat else 0, we_name w, we_id w))
       (workspace_members (\<lambda>w m. mb_user m = userId \<and> mb_status m = Active) db)"

definition listUserWorkspaces :: "management \<Rightarrow> string \<Rightarrow> workspace_summary list" where
  "listUserWorkspaces db userId = map (mapWorkspaceMembership db) (take 200 (user_workspaces db userId))"

definition WORKSPACE_PAGE_SIZE :: nat where "WORKSPACE_PAGE_SIZE = 50"
definition WORKSPACE_MAX_PAGE :: nat where "WORKSPACE_MAX_PAGE = 100"
definition WORKSPACE_MAX_ENTRIES :: nat where "WORKSPACE_MAX_ENTRIES = WORKSPACE_PAGE_SIZE * WORKSPACE_MAX_PAGE"

record workspace_page =
  wp_workspaces :: "workspace_summary list"
  wp_page :: nat
  wp_pages :: nat
  wp_total :: nat
  wp_totalCapped :: bool
  wp_activeCount :: nat
  wp_activeCapped :: bool

definition listUserWorkspacePage :: "management \<Rightarrow> string \<Rightarrow> rat option \<Rightarrow> workspace_page" where
  "listUserWorkspacePage db userId request =
     (let rows = user_workspaces db userId;
          counted = take (WORKSPACE_MAX_ENTRIES + 1) rows;
          active = length (filter (\<lambda>(w, m). we_deleted_at w = None) counted);
          total = min (length counted) WORKSPACE_MAX_ENTRIES;
          pages = max 1 (min WORKSPACE_MAX_PAGE (ceil_div total WORKSPACE_PAGE_SIZE));
          requestedPage = (case request of None \<Rightarrow> 1 | Some x \<Rightarrow> if is_integer_num x then nat (max 1 \<lfloor>x\<rfloor>) else 1);
          page = min requestedPage pages
      in \<lparr>wp_workspaces = map (mapWorkspaceMembership db)
            (take WORKSPACE_PAGE_SIZE (drop ((page - 1) * WORKSPACE_PAGE_SIZE) rows)),
          wp_page = page, wp_pages = pages, wp_total = total,
          wp_totalCapped = (length counted > WORKSPACE_MAX_ENTRIES),
          wp_activeCount = min active WORKSPACE_MAX_ENTRIES,
          wp_activeCapped = (active > WORKSPACE_MAX_ENTRIES)\<rparr>)"

section \<open>Deletion and restoration\<close>

definition workspace_json :: "workspace_entry \<Rightarrow> int option \<Rightarrow> json" where
  "workspace_json w deletedAt = JObj [(''name'', JStr (we_name w)), (''slug'', JStr (we_slug w)),
     (''deletedAt'', case deletedAt of None \<Rightarrow> JNull | Some t \<Rightarrow> JNum (of_int t))]"

text \<open>The first row of the join for an active membership, when it is an administrator's.\<close>

definition administered ::
  "management \<Rightarrow> (workspace_entry \<Rightarrow> bool) \<Rightarrow> string \<Rightarrow> workspace_entry option" where
  "administered db p actorUserId =
     (case workspace_members (\<lambda>w m. p w \<and> mb_user m = actorUserId \<and> mb_status m = Active) db of
        [] \<Rightarrow> None
      | (w, m) # _ \<Rightarrow> if mb_role m = admin then Some w else None)"

definition workspace_deletion :: "management \<Rightarrow> string \<Rightarrow> string \<Rightarrow> string \<Rightarrow> workspace_entry http" where
  "workspace_deletion db workspaceSlug actorUserId confirmation =
     bind_result (http_some (case administered db (\<lambda>w. we_slug w = workspaceSlug) actorUserId of
         Some w \<Rightarrow> if we_deleted_at w = None then Some w else None | None \<Rightarrow> None) 404 ''Workspace not found'') (\<lambda>w.
     bind_result (http_require (confirmation = we_slug w) 400 ''Workspace confirmation does not match'') (\<lambda>_. Inr w))"

definition softDeleteWorkspace ::
  "server \<Rightarrow> string \<Rightarrow> int \<Rightarrow> management \<Rightarrow> string \<Rightarrow> string \<Rightarrow> string \<Rightarrow> management \<Rightarrow> management \<times> unit http" where
  "softDeleteWorkspace sv auditId now db0 workspaceSlug actorUserId confirmation =
     perform (workspace_deletion db0 workspaceSlug actorUserId confirmation) (\<lambda>w0.
       commit_batch
         [update_workspaces (\<lambda>db w. we_id w = we_id w0 \<and> we_deleted_at w = None \<and> is_active_admin db (we_id w) actorUserId)
            (\<lambda>w. w\<lparr>we_deleted_at := Some now, we_updated_at := now\<rparr>),
          prepareAuditStatement sv auditId \<lparr>ai_workspaceId = we_id w0, ai_actorUserId = actorUserId,
            ai_action = ''workspace.delete'', ai_resourceType = ''workspace'', ai_resourceId = we_id w0,
            ai_before = Some (workspace_json w0 None), ai_after = Some (workspace_json w0 (Some now)), ai_now = now,
            ai_onlyIfChanged = True\<rparr>]
         (\<lambda>ks. http_require (hd ks = 1) 409 ''Workspace state changed; reload and try again''))"

definition workspace_restoration :: "management \<Rightarrow> string \<Rightarrow> string \<Rightarrow> int \<Rightarrow> (workspace_entry \<times> int) http" where
  "workspace_restoration db workspaceId actorUserId now =
     bind_result (http_some (case administered db (\<lambda>w. we_id w = workspaceId) actorUserId of
         Some w \<Rightarrow> map_option (Pair w) (we_deleted_at w) | None \<Rightarrow> None) 404 ''Workspace not found'') (\<lambda>(w, deletedAt).
     let graceDays = (case grace_days db (we_id w) of None \<Rightarrow> 7 | Some d \<Rightarrow> d) in
     bind_result (http_require (\<not> deletedAt \<le> now - graceDays * 86400000) 409
       ''The workspace recovery window has expired'') (\<lambda>_.
     bind_result (http_require (we_purge_started_at w = None) 409 ''The workspace recovery window has expired'') (\<lambda>_.
     Inr (w, deletedAt))))"

definition restoreWorkspace ::
  "server \<Rightarrow> string \<Rightarrow> int \<Rightarrow> management \<Rightarrow> string \<Rightarrow> string \<Rightarrow> management \<Rightarrow> management \<times> string http" where
  "restoreWorkspace sv auditId now db0 workspaceId actorUserId =
     perform (workspace_restoration db0 workspaceId actorUserId now) (\<lambda>(w0, deletedAt).
       commit_batch
         [update_workspaces (\<lambda>db w. we_id w = we_id w0 \<and> we_deleted_at w = Some deletedAt \<and>
              we_purge_started_at w = None \<and> is_active_admin db (we_id w) actorUserId)
            (\<lambda>w. w\<lparr>we_deleted_at := None, we_updated_at := now\<rparr>),
          prepareAuditStatement sv auditId \<lparr>ai_workspaceId = we_id w0, ai_actorUserId = actorUserId,
            ai_action = ''workspace.restore'', ai_resourceType = ''workspace'', ai_resourceId = we_id w0,
            ai_before = Some (workspace_json w0 (Some deletedAt)), ai_after = Some (workspace_json w0 None),
            ai_now = now, ai_onlyIfChanged = True\<rparr>]
         (\<lambda>ks. bind_result (http_require (hd ks = 1) 409 ''Workspace state changed; reload and try again'')
            (\<lambda>_. Inr (we_slug w0))))"

end
