(* ===== verification/Ticket_Correctness.thy ===== *)
theory Ticket_Correctness
  imports Live_Ticket
begin

text \<open>
  Tickets: the round trip of base64url, the comparison of signatures, what a verified ticket guarantees, and
  that a ticket signed for a viewer verifies until it expires.
\<close>

unbundle bit_operations_syntax

section \<open>Base64url\<close>

lemma url_chars_ok_list:
  "list_all (\<lambda>n. base64url_char (url_char (b64_char n)) \<and> plain_char (url_char (b64_char n)) = b64_char n
     \<and> url_char (b64_char n) \<noteq> CHR ''.'' \<and> utf16_units (url_char (b64_char n)) = 1) [0..63]"
  by code_simp

lemma url_chars_ok:
  assumes "0 \<le> n" "n < 64"
  shows "base64url_char (url_char (b64_char n)) \<and> plain_char (url_char (b64_char n)) = b64_char n
    \<and> url_char (b64_char n) \<noteq> CHR ''.'' \<and> utf16_units (url_char (b64_char n)) = 1"
proof -
  have "n \<in> set [0..63]" using assms by simp
  then show ?thesis using url_chars_ok_list unfolding list_all_iff by blast
qed

lemma encodeBase64Url_sextets:
  assumes "byte_list bs"
  shows "encodeBase64Url bs = map (\<lambda>n. url_char (b64_char n)) (bytes_to_sextets bs)"
proof -
  have "list_all (\<lambda>n. b64_char n \<noteq> CHR ''='') (bytes_to_sextets bs)"
    using sextets_in_range [OF assms] by (auto simp: list_all_iff b64_char_ok)
  then have "filter (\<lambda>c. c \<noteq> CHR ''='') (btoa bs) = map b64_char (bytes_to_sextets bs)"
    by (auto simp: btoa_def list_all_iff intro!: filter_True)
  then show ?thesis by (simp add: encodeBase64Url_def)
qed

lemma length_encodeBase64Url:
  "byte_list bs \<Longrightarrow> length (encodeBase64Url bs) = (4 * length bs + 2) div 3"
  by (simp add: encodeBase64Url_sextets length_sextets)

lemma encodeBase64Url_chars:
  assumes "byte_list bs" "c \<in> set (encodeBase64Url bs)"
  shows "base64url_char c \<and> c \<noteq> CHR ''.'' \<and> utf16_units c = 1"
proof -
  obtain n where "n \<in> set (bytes_to_sextets bs)" "c = url_char (b64_char n)"
    using assms by (auto simp: encodeBase64Url_sextets)
  then show ?thesis
    using sextets_in_range [OF assms(1)] url_chars_ok [of n] by (auto simp: list_all_iff)
qed

lemma pad_end_btoa:
  assumes "byte_list bs"
  shows "pad_end ((length (encodeBase64Url bs) + 3) div 4 * 4) (map plain_char (encodeBase64Url bs)) = btoa bs"
proof -
  have plain: "map plain_char (encodeBase64Url bs) = map b64_char (bytes_to_sextets bs)"
    using sextets_in_range [OF assms] url_chars_ok
    by (auto simp: encodeBase64Url_sextets [OF assms] list_all_iff)
  obtain q r where n: "length bs = 3 * q + r" "r < 3"
    by (metis mult_div_mod_eq mod_less_divisor zero_less_numeral)
  then consider "r = 0" | "r = 1" | "r = 2" by linarith
  then have "replicate ((length (encodeBase64Url bs) + 3) div 4 * 4 - length (encodeBase64Url bs)) CHR ''='' =
      (if length bs mod 3 = 1 then ''=='' else if length bs mod 3 = 2 then ''='' else [])"
  proof cases
    case 1
    then have "length (encodeBase64Url bs) = 4 * q"
      using n sextet_count(1) [of q] by (simp add: length_encodeBase64Url [OF assms])
    then show ?thesis using n 1 by simp
  next
    case 2
    then have "length (encodeBase64Url bs) = 4 * q + 2"
      using n sextet_count(2) [of q] by (simp add: length_encodeBase64Url [OF assms])
    moreover have "(4 * q + 2 + 3) div 4 * 4 - (4 * q + 2) = Suc (Suc 0)" by presburger
    moreover have "length bs mod 3 = 1" using n 2 by simp
    ultimately show ?thesis by (simp add: numeral_2_eq_2)
  next
    case 3
    then have "length (encodeBase64Url bs) = 4 * q + 3"
      using n sextet_count(3) [of q] by (simp add: length_encodeBase64Url [OF assms])
    moreover have "(4 * q + 3 + 3) div 4 * 4 - (4 * q + 3) = Suc 0" by presburger
    moreover have "length bs mod 3 = 2" using n 3 by presburger
    ultimately show ?thesis by simp
  qed
  moreover have "length (map b64_char (bytes_to_sextets bs)) = length (encodeBase64Url bs)"
    by (simp add: encodeBase64Url_sextets [OF assms])
  ultimately show ?thesis unfolding pad_end_def plain btoa_def by (simp only:)
qed

lemma decode_encode_base64url:
  assumes "byte_list bs" "length bs \<le> maximum"
  shows "decodeBase64Url (encodeBase64Url bs) maximum = Inr bs"
proof -
  have "length (encodeBase64Url bs) \<le> (maximum * 4 + 2) div 3"
    using assms(2) by (simp add: length_encodeBase64Url [OF assms(1)] div_le_mono)
  moreover have "list_all base64url_char (encodeBase64Url bs)"
    using encodeBase64Url_chars [OF assms(1)] by (simp add: list_all_iff)
  ultimately show ?thesis
    using assms by (simp add: decodeBase64Url_def pad_end_btoa atob_btoa)
qed

section \<open>Signatures\<close>

lemma fold_or_xor:
  "length left = length right \<Longrightarrow>
    fold (\<lambda>(l, r) difference. difference OR (l XOR r)) (zip left right) d = 0 \<longleftrightarrow> d = (0 :: int) \<and> left = right"
proof (induction left right arbitrary: d rule: list_induct2)
  case (Cons x xs y ys)
  have "d OR (x XOR y) = 0 \<longleftrightarrow> d = 0 \<and> x XOR y = 0" by (rule or_eq_0_iff)
  moreover have "x XOR y = 0 \<longleftrightarrow> x = y"
    by (metis bit.xor_left_self xor.right_neutral xor_self_eq)
  ultimately show ?case using Cons by auto
qed simp

lemma timingSafeEqual_iff: "timingSafeEqual left right \<longleftrightarrow> length left = 32 \<and> left = right"
  by (auto simp: timingSafeEqual_def fold_or_xor)

lemma split_char_none: "c \<notin> set s \<Longrightarrow> split_char c s = [s]"
  by (induction s) auto

lemma split_char_pair:
  "c \<notin> set a \<Longrightarrow> c \<notin> set b \<Longrightarrow> split_char c (a @ [c] @ b) = [a, b]"
  by (induction a) (auto simp: split_char_none)

lemma split_char_not_Nil [simp]: "split_char c s \<noteq> []"
  by (induction s) (auto split: list.splits)

lemma join_text_Cons: "ps \<noteq> [] \<Longrightarrow> join_text sep (p # ps) = p @ sep @ join_text sep ps"
  by (cases ps) auto

lemma split_char_join: "join_text [c] (split_char c s) = s"
proof (induction s)
  case (Cons x xs)
  obtain p ps where "split_char c xs = p # ps" by (meson neq_Nil_conv split_char_not_Nil)
  with Cons show ?case by (cases ps) (auto simp: join_text_Cons)
qed simp

section \<open>What a verified ticket guarantees\<close>

fun max_lifetime :: "ticket_claims \<Rightarrow> int" where
  "max_lifetime (Agent_claims _ _ _) = 15 * 60000"
| "max_lifetime (Viewer_claims _) = 5 * 60000"

fun session_ok :: "ticket_claims \<Rightarrow> bool" where
  "session_ok (Agent_claims _ session prefix) \<longleftrightarrow>
     (\<exists>bs. decodeBase64Url session 16 = Inr bs \<and> length bs = 16)
     \<and> (\<exists>bs. decodeBase64Url prefix 4 = Inr bs \<and> length bs = 4)"
| "session_ok (Viewer_claims _) \<longleftrightarrow> True"

definition claims_ok :: "ticket_claims \<Rightarrow> int \<Rightarrow> bool" where
  "claims_ok claims now \<longleftrightarrow>
     (let b = ticket_base claims in
       (\<exists>topic. lc_topics b = [topic] \<and> machine_topic topic)
       \<and> 0 < js_length (lc_workspaceId b) \<and> js_length (lc_workspaceId b) \<le> 128
       \<and> 0 < js_length (lc_subjectId b) \<and> js_length (lc_subjectId b) \<le> 128
       \<and> 0 \<le> lc_issuedAt b \<and> lc_issuedAt b \<le> now + 5000 \<and> lc_issuedAt b - 5000 \<le> lc_notBefore b
       \<and> lc_notBefore b \<le> now + 5000 \<and> now < lc_expiresAt b
       \<and> lc_expiresAt b - lc_issuedAt b \<le> max_lifetime claims)
     \<and> session_ok claims"

lemma validScope_text:
  "validScope v n \<Longrightarrow> 0 < js_length (claim_text v) \<and> js_length (claim_text v) \<le> n"
  by (auto simp: validScope_def split: option.splits json.splits)

lemma topic_list_single:
  "topic_list v = Some ts \<Longrightarrow> \<exists>topic. ts = [topic] \<and> machine_topic topic"
  by (cases v rule: topic_list.cases) (auto split: if_splits)

lemma validTimestamp_nonneg: "validTimestamp v \<Longrightarrow> 0 \<le> claim_int v"
  by (auto simp: validTimestamp_def split: option.splits json.splits)

lemma encoded_bytes_True:
  "encoded_bytes n v = Inr True \<Longrightarrow> \<exists>bs. decodeBase64Url (claim_text v) n = Inr bs \<and> length bs = n"
  by (auto simp: encoded_bytes_def bind_result_Inr_iff split: option.splits json.splits)

lemma claims_base_ok:
  assumes "\<not> claims_refused data now"
  shows "\<exists>topic. lc_topics (claims_base data) = [topic] \<and> machine_topic topic"
    and "0 < js_length (lc_workspaceId (claims_base data))" "js_length (lc_workspaceId (claims_base data)) \<le> 128"
    and "0 < js_length (lc_subjectId (claims_base data))" "js_length (lc_subjectId (claims_base data)) \<le> 128"
    and "0 \<le> lc_issuedAt (claims_base data)" "lc_issuedAt (claims_base data) \<le> now + 5000"
    and "lc_issuedAt (claims_base data) - 5000 \<le> lc_notBefore (claims_base data)"
    and "lc_notBefore (claims_base data) \<le> now + 5000" "now < lc_expiresAt (claims_base data)"
  using assms validScope_text validTimestamp_nonneg topic_list_single
  by (auto simp: claims_refused_def claims_base_def)

lemma parseClaims_ok:
  assumes "parseClaims parsed now = Inr claims"
  shows "claims_ok claims now"
proof -
  obtain data where data: "parsed = JObj data" "\<not> claims_refused data now"
    using assms by (cases parsed) (auto simp: parseClaims_def raise_error_def split: if_splits)
  have base: "ticket_base claims = claims_base data" and life: "lc_expiresAt (claims_base data) -
      lc_issuedAt (claims_base data) \<le> max_lifetime claims" and session: "session_ok claims"
    using assms data
    by (auto simp: parseClaims_def raise_error_def Let_def bind_result_Inr_iff
        split: if_splits dest!: encoded_bytes_True)
  show ?thesis
    unfolding claims_ok_def Let_def base using claims_base_ok [OF data(2)] life session by blast
qed

lemma verifyLiveTicket_cases:
  assumes "verifyLiveTicket pf hmac token secret now = Inr claims"
  obtains payload signature parsed bytes where "token = payload @ ''.'' @ signature"
    "32 \<le> length secret" "js_length token \<le> 4096"
    "decodeBase64Url signature 32 =
      Inr (hmac (text_encode secret) (text_encode (''alphaping/v1/live-ticket'') @ 0 # text_encode payload))"
    "decodeBase64Url payload 4096 = Inr bytes"
    "JSON_parse pf (TextDecoder_decode bytes) = Some parsed" "parseClaims parsed now = Inr claims"
proof -
  obtain payload signature where split: "split_char CHR ''.'' token = [payload, signature]"
    using assms by (auto simp: verifyLiveTicket_def raise_error_def split: list.splits)
  then have token: "token = payload @ ''.'' @ signature"
    using split_char_join [of "CHR ''.''" token] by simp
  from assms split have "js_length token \<le> 4096"
    and "bind_result (keyedDigest hmac secret ''alphaping/v1/live-ticket'' [text_encode payload]) (\<lambda>expected.
            bind_result (decodeBase64Url signature 32) (\<lambda>actual.
              if \<not> timingSafeEqual expected actual then raise_error ''invalid_ticket''
              else bind_result (decodeBase64Url payload 4096) (\<lambda>payload.
                case JSON_parse pf (TextDecoder_decode payload) of
                  None \<Rightarrow> Inl JsEngineError
                | Some parsed \<Rightarrow> parseClaims parsed now))) = Inr claims"
    by (auto simp: verifyLiveTicket_def raise_error_def split: if_splits)
  then show thesis
    using that [OF token]
    by (auto simp: bind_result_Inr_iff keyedDigest_def raise_error_def timingSafeEqual_iff text_encode_def
        split: if_splits option.splits)
qed

section \<open>The topic of a machine\<close>

lemma digit_between:
  "d < 10 \<Longrightarrow> between CHR ''0'' CHR ''9'' (char_of (48 + d))"
  "0 < d \<Longrightarrow> d < 10 \<Longrightarrow> between CHR ''1'' CHR ''9'' (char_of (48 + d))" for d :: nat
  by (auto simp: between_def less_eq_char_def)

lemma nat_to_string_not_Nil [simp]: "nat_to_string n \<noteq> []"
  by (simp add: nat_to_string.simps [of n])

lemma nat_to_string_digit_chars: "list_all digit_char (nat_to_string n)"
proof (induction n rule: nat_to_string.induct)
  case (1 n)
  then show ?case
    by (simp add: nat_to_string.simps [of n] digit_char_def digit_between)
qed

lemma nat_to_string_hd: "0 < n \<Longrightarrow> between CHR ''1'' CHR ''9'' (hd (nat_to_string n))"
proof (induction n rule: nat_to_string.induct)
  case (1 n)
  then show ?case
    by (simp add: nat_to_string.simps [of n] digit_between hd_append div_greater_zero_iff)
qed

lemma nat_to_string_length: "n < 10 ^ k \<Longrightarrow> 0 < k \<Longrightarrow> length (nat_to_string n) \<le> k"
proof (induction n arbitrary: k rule: nat_to_string.induct)
  case (1 n)
  show ?case
  proof (cases "n < 10")
    case False
    with 1 obtain j where k: "k = Suc j" "0 < j" by (cases k; cases "k - 1") auto
    then have "n div 10 < 10 ^ j" using "1.prems"(1) by (simp add: div_less_iff_less_mult mult.commute)
    then show ?thesis using "1.IH" [of j] False k by (simp add: nat_to_string.simps [of n])
  qed (use "1.prems"(2) in \<open>simp add: nat_to_string.simps [of n]\<close>)
qed

lemma machine_topic_of_pk:
  assumes "0 < pk" "is_safe_integer pk"
  shows "machine_topic (''machine:'' @ int_to_string pk)"
proof -
  let ?s = "nat_to_string (nat pk)"
  have "pk < 10 ^ 16" using assms(2) by (simp add: is_safe_integer_def max_safe_integer_def)
  then have "nat pk < 10 ^ 16" by (simp add: nat_less_iff)
  then have "length ?s \<le> 16" by (intro nat_to_string_length) auto
  moreover obtain c r where s: "?s = c # r" by (meson nat_to_string_not_Nil neq_Nil_conv)
  moreover have "between CHR ''1'' CHR ''9'' c" "list_all digit_char r"
    using nat_to_string_hd [of "nat pk"] nat_to_string_digit_chars [of "nat pk"] s assms(1) by auto
  ultimately show ?thesis
    using assms(1) by (simp add: machine_topic_def startsWith_def int_to_string_def)
qed

section \<open>Signing\<close>

text \<open>
  What the platform promises: a HMAC-SHA-256 is 32 bytes, JSON text of the claims is well-formed UTF-8 that
  starts with a brace and parses back.
\<close>

definition mac_ok :: "mac \<Rightarrow> bool" where
  "mac_ok hmac \<longleftrightarrow> (\<forall>key message. length (hmac key message) = 32 \<and> byte_list (hmac key message))"

definition json_text_ok :: "platform \<Rightarrow> json \<Rightarrow> bool" where
  "json_text_ok pf j \<longleftrightarrow>
     JSON_parse pf (JSON_stringify pf j) = Some j \<and> utf8_valid (text_encode (JSON_stringify pf j))
     \<and> startsWith (JSON_stringify pf j) ''{''"

lemma json_text_decode:
  "json_text_ok pf j \<Longrightarrow> TextDecoder_decode (text_encode (JSON_stringify pf j)) = JSON_stringify pf j"
proof -
  assume ok: "json_text_ok pf j"
  then have "strip_bom (text_encode (JSON_stringify pf j)) = text_encode (JSON_stringify pf j)"
    by (cases "JSON_stringify pf j") (auto simp: json_text_ok_def strip_bom_def startsWith_def text_encode_def)
  then show ?thesis using ok by (simp add: TextDecoder_decode_def json_text_ok_def utf8_lossy_valid)
qed

lemma length_text_encode [simp]: "length (text_encode s) = length s"
  by (simp add: text_encode_def)

lemma byte_list_text_encode [simp]: "byte_list (text_encode s)"
proof -
  have "0 \<le> (of_char c :: int) \<and> (of_char c :: int) < 256" for c
    by (metis of_char_of of_nat_of_char of_nat_0_le_iff nat_of_char_less_256 of_nat_less_iff of_nat_numeral)
  then show ?thesis by (simp add: byte_list_def text_encode_def list_all_iff)
qed

definition viewer_claims :: "string \<Rightarrow> string \<Rightarrow> int \<Rightarrow> int \<Rightarrow> ticket_claims" where
  "viewer_claims workspace subject pk now =
     Viewer_claims \<lparr>lc_workspaceId = workspace, lc_subjectId = subject,
       lc_topics = [''machine:'' @ int_to_string pk], lc_issuedAt = now, lc_notBefore = max 0 (now - 5000),
       lc_expiresAt = now + 300000\<rparr>"

lemma parse_viewer_claims:
  assumes "0 < js_length workspace" "js_length workspace \<le> 128" "0 < js_length subject" "js_length subject \<le> 128"
    and "0 < pk" "is_safe_integer pk" "0 \<le> now" "is_safe_integer (now + 300000)"
    and "now - 5000 \<le> later" "later < now + 300000"
  shows "parseClaims (viewer_claims_json workspace subject pk now) later = Inr (viewer_claims workspace subject pk now)"
proof -
  let ?data = "[(''version'', JNum 1), (''workspaceId'', JStr workspace), (''subjectId'', JStr subject),
       (''role'', JStr ''viewer''), (''topics'', JArr [JStr (''machine:'' @ int_to_string pk)]),
       (''projection'', JStr ''machine-summary''), (''issuedAt'', JNum (of_int now)),
       (''notBefore'', JNum (of_int (max 0 (now - 5000)))),
       (''expiresAt'', JNum (of_int (now + 5 * 60000)))]"
  have topic: "machine_topic (''machine:'' @ int_to_string pk)"
    using assms(5,6) by (rule machine_topic_of_pk)
  have "is_safe_integer now" "is_safe_integer (max 0 (now - 5000))"
    using assms(7,8) by (auto simp: is_safe_integer_def max_safe_integer_def)
  then have times: "validTimestamp (Some (JNum (of_int now)))"
      "validTimestamp (Some (JNum (of_int (max 0 (now - 5000)))))"
      "validTimestamp (Some (JNum (of_int (now + 5 * 60000))))"
    using assms(7,8) by (simp_all add: validTimestamp_def is_integer_num_def)
  have "\<not> claims_refused ?data later"
    using assms topic times by (simp add: claims_refused_def jfield_def validScope_def)
  moreover have "claims_base ?data = \<lparr>lc_workspaceId = workspace, lc_subjectId = subject,
       lc_topics = [''machine:'' @ int_to_string pk], lc_issuedAt = now, lc_notBefore = max 0 (now - 5000),
       lc_expiresAt = now + 300000\<rparr>"
    using topic by (simp add: claims_base_def jfield_def)
  ultimately show ?thesis
    by (simp add: parseClaims_def viewer_claims_json_def viewer_claims_def jfield_def)
qed

lemma js_length_ascii: "\<forall>c \<in> set s. utf16_units c = 1 \<Longrightarrow> js_length s = length s"
  by (induction s) (auto simp: js_length_def)

lemma js_length_append: "js_length (s @ t) = js_length s + js_length t"
  by (simp add: js_length_def)

lemma sign_verify:
  assumes "mac_ok hmac" "json_text_ok pf json" "length (JSON_stringify pf json) \<le> 3039" "32 \<le> length secret"
  shows "\<exists>token. signClaims pf hmac json secret = Inr token
    \<and> (\<forall>later. verifyLiveTicket pf hmac token secret later = parseClaims json later)"
proof -
  define payload where "payload = encodeBase64Url (text_encode (JSON_stringify pf json))"
  define digest where "digest =
    hmac (text_encode secret) (text_encode ''alphaping/v1/live-ticket'' @ 0 # text_encode payload)"
  define signature where "signature = encodeBase64Url digest"
  have digest: "byte_list digest" "length digest = 32"
    using assms(1) by (simp_all add: mac_ok_def digest_def)
  have keyed: "keyedDigest hmac secret ''alphaping/v1/live-ticket'' [text_encode payload] = Inr digest"
    using assms(4) by (simp add: keyedDigest_def digest_def)
  have chars: "\<forall>c \<in> set (payload @ signature). c \<noteq> CHR ''.'' \<and> utf16_units c = 1"
    using encodeBase64Url_chars [OF digest(1)] encodeBase64Url_chars [OF byte_list_text_encode]
    by (auto simp: payload_def signature_def)
  have sizes: "length payload = (4 * length (JSON_stringify pf json) + 2) div 3" "length signature = 43"
    using digest by (simp_all add: payload_def signature_def length_encodeBase64Url)
  have "js_length (payload @ ''.'' @ signature) = length payload + 44"
    using sizes(2) chars by (simp add: js_length_append js_length_ascii js_length_ascii [of "''.''"] utf16_units_def)
  moreover have "length payload \<le> 4052" using assms(3) sizes(1) by linarith
  ultimately have short: "js_length (payload @ ''.'' @ signature) \<le> 4096" by simp
  have nonempty: "payload \<noteq> []" "signature \<noteq> []"
    using assms(2) sizes by (auto simp: json_text_ok_def startsWith_def)
  have "decodeBase64Url payload 4096 = Inr (text_encode (JSON_stringify pf json))"
    unfolding payload_def using assms(3) by (intro decode_encode_base64url) simp_all
  moreover have "decodeBase64Url signature 32 = Inr digest"
    unfolding signature_def using digest by (intro decode_encode_base64url) simp_all
  moreover have "split_char CHR ''.'' (payload @ ''.'' @ signature) = [payload, signature]"
    using chars by (intro split_char_pair) auto
  moreover have "JSON_parse pf (JSON_stringify pf json) = Some json"
    using assms(2) by (simp add: json_text_ok_def)
  ultimately have "verifyLiveTicket pf hmac (payload @ ''.'' @ signature) secret later = parseClaims json later" for later
    using keyed digest short nonempty json_text_decode [OF assms(2)]
    by (simp add: verifyLiveTicket_def timingSafeEqual_iff)
  moreover have "signClaims pf hmac json secret = Inr (payload @ ''.'' @ signature)"
    using keyed by (simp add: signClaims_def Let_def payload_def [symmetric] signature_def)
  ultimately show ?thesis by blast
qed

text \<open>A platform on which the promises hold for one object.\<close>

definition ticket_platform :: platform where
  "ticket_platform =
     \<lparr>sha256 = (\<lambda>_. []), JSON_parse = (\<lambda>_. Some (viewer_claims_json ''w'' ''u'' 7 10000)),
      JSON_stringify = (\<lambda>_. ''{}'')\<rparr>"

definition ticket_mac :: mac where
  "ticket_mac key message = replicate 32 7"

definition ticket_secret :: string where
  "ticket_secret = replicate 32 CHR ''s''"

lemma ticket_sample_ok:
  "mac_ok ticket_mac" "json_text_ok ticket_platform (viewer_claims_json ''w'' ''u'' 7 10000)"
  "length (JSON_stringify ticket_platform (viewer_claims_json ''w'' ''u'' 7 10000)) \<le> 3039"
  "32 \<le> length ticket_secret"
  by (simp_all add: mac_ok_def ticket_mac_def byte_list_def list_all_iff json_text_ok_def ticket_platform_def
      text_encode_def startsWith_def ticket_secret_def)

section \<open>Properties\<close>

text \<open>
  C25. What a verified ticket guarantees: the token is a payload and its HMAC under a secret of at least 32
  bytes, the claims name one machine topic, lie within their validity with at most five seconds of clock
  skew, and expire at most five minutes (a viewer) or fifteen minutes (an agent) after they were issued.
\<close>

theorem verified_ticket_sound:
  assumes "verifyLiveTicket pf hmac token secret now = Inr claims"
  shows "claims_ok claims now \<and> 32 \<le> length secret \<and> js_length token \<le> 4096 \<and>
    (\<exists>payload signature. token = payload @ ''.'' @ signature \<and>
      decodeBase64Url signature 32 =
        Inr (hmac (text_encode secret) (text_encode (''alphaping/v1/live-ticket'') @ 0 # text_encode payload)))"
  using assms by (rule verifyLiveTicket_cases) (use parseClaims_ok in blast)

lemma verified_ticket_sound_witness:
  "claims_ok (viewer_claims ''w'' ''u'' 7 10000) 20000 \<and> 32 \<le> length ticket_secret"
proof -
  obtain token where "verifyLiveTicket ticket_platform ticket_mac token ticket_secret 20000 =
      parseClaims (viewer_claims_json ''w'' ''u'' 7 10000) 20000"
    using sign_verify [OF ticket_sample_ok] by blast
  also have "\<dots> = Inr (viewer_claims ''w'' ''u'' 7 10000)"
    by (rule parse_viewer_claims)
      (simp_all add: js_length_def utf16_units_def is_safe_integer_def max_safe_integer_def)
  finally show ?thesis using verified_ticket_sound by blast
qed

text \<open>
  Round trip of a viewer's ticket: a ticket signed for a machine verifies to exactly its claims from five
  seconds before it was signed until five minutes after, provided the token is not longer than the limit of
  4096 characters (JSON text of at most 3039 bytes).
\<close>

theorem viewer_ticket_roundtrip:
  assumes "mac_ok hmac" "json_text_ok pf (viewer_claims_json workspace subject pk now)"
    and "length (JSON_stringify pf (viewer_claims_json workspace subject pk now)) \<le> 3039" "32 \<le> length secret"
    and "0 < js_length workspace" "js_length workspace \<le> 128" "0 < js_length subject" "js_length subject \<le> 128"
    and "0 < pk" "is_safe_integer pk" "0 \<le> now" "is_safe_integer (now + 300000)"
    and "now - 5000 \<le> later" "later < now + 300000"
  shows "\<exists>token. signViewerLiveTicket pf hmac workspace subject pk secret now = Inr (token, now + 300000)
    \<and> verifyLiveTicket pf hmac token secret later = Inr (viewer_claims workspace subject pk now)"
proof -
  obtain token where "signClaims pf hmac (viewer_claims_json workspace subject pk now) secret = Inr token"
    and "verifyLiveTicket pf hmac token secret later = parseClaims (viewer_claims_json workspace subject pk now) later"
    using sign_verify [OF assms(1-4)] by blast
  then show ?thesis
    using assms(9,10) parse_viewer_claims [OF assms(5-14)] by (simp add: signViewerLiveTicket_def)
qed

lemma viewer_ticket_roundtrip_witness:
  "\<exists>token. signViewerLiveTicket ticket_platform ticket_mac ''w'' ''u'' 7 ticket_secret 10000 = Inr (token, 310000)
    \<and> verifyLiveTicket ticket_platform ticket_mac token ticket_secret 20000 =
      Inr (viewer_claims ''w'' ''u'' 7 10000)"
  using viewer_ticket_roundtrip [OF ticket_sample_ok, of 20000]
  by (simp add: js_length_def utf16_units_def is_safe_integer_def max_safe_integer_def)

end
