(* ===== verification/Workspace_Correctness.thy ===== *)
theory Workspace_Correctness
  imports Workspace_Lifecycle Ticket_Correctness
begin

text \<open>
  The management pages as a state machine: any number of users work on one database, and every page may have
  read a state that is no longer the current one. Every workspace keeps an active administrator, an
  invitation is used at most once, and a permission that was set is the one that decisions use.
\<close>

section \<open>Relations between the databases before and after\<close>

text \<open>
  A statement upholds a relation when it holds between the databases before and after. The contract of the
  relations below is that they can be followed through a sequence of statements; what each statement of a batch
  upholds then holds for the page.
\<close>

definition upholds :: "(management \<Rightarrow> management \<Rightarrow> bool) \<Rightarrow> statement \<Rightarrow> bool" where
  "upholds R stmt \<longleftrightarrow> (\<forall>n db db' k. stmt n db = Some (db', k) \<longrightarrow> R db db')"

lemma run_batch_Cons_iff:
  "run_batch (stmt # stmts) n db = Some (db', ks) \<longleftrightarrow>
    (\<exists>db1 k ks'. stmt n db = Some (db1, k) \<and> run_batch stmts k db1 = Some (db', ks') \<and> ks = k # ks')"
  by (auto split: option.splits prod.splits)

lemma run_batch_Nil_iff: "run_batch [] n db = Some (db', ks) \<longleftrightarrow> db' = db \<and> ks = []"
  by auto

lemmas run_batch_iffs = run_batch_Cons_iff run_batch_Nil_iff

locale batch_relation =
  fixes R :: "management \<Rightarrow> management \<Rightarrow> bool"
  assumes refl: "R db db"
    and trans: "R a b \<Longrightarrow> R b c \<Longrightarrow> R a c"
begin

lemma batch:
  assumes "\<And>stmt. stmt \<in> set stmts \<Longrightarrow> upholds R stmt" "run_batch stmts n db = Some (db', ks)"
  shows "R db db'"
  using assms
proof (induction stmts arbitrary: n db ks)
  case Nil
  then show ?case by (auto intro: refl)
next
  case (Cons stmt stmts)
  then obtain db1 k ks' where "stmt n db = Some (db1, k)" "run_batch stmts k db1 = Some (db', ks')"
    by (auto simp only: run_batch_Cons_iff)
  moreover have "R db db1"
    using Cons.prems(1) [of stmt] calculation(1) unfolding upholds_def list.set by blast
  ultimately show ?case using Cons.IH Cons.prems(1) trans by (meson list.set_intros(2))
qed

lemma commit:
  assumes "\<And>stmt. stmt \<in> set stmts \<Longrightarrow> upholds R stmt" "commit_batch stmts outcome db = (db', r)"
  shows "R db db'"
  using assms(2) batch [OF assms(1)] refl by (auto simp: commit_batch_def split: option.splits prod.splits)

lemma page:
  assumes "\<And>p stmt. plan = Inr p \<Longrightarrow> stmt \<in> set (stmts p) \<Longrightarrow> upholds R stmt"
    and "perform plan (\<lambda>p. commit_batch (stmts p) (outcome p)) db = (db', r)"
  shows "R db db'"
  using assms refl commit by (auto simp: perform_def split: sum.splits) blast

end

lemma insert_if_Some:
  "insert_if cond refs clash r t put db = Some (db', k) \<longleftrightarrow>
    (if cond then refs \<and> \<not> list_ex (clash r) t \<and> db' = put (t @ [r]) \<and> k = 1 else db' = db \<and> k = 0)"
  by (auto simp: insert_if_def insert_unique_def)

section \<open>Active administrators\<close>

definition well_administered :: "management \<Rightarrow> bool" where
  "well_administered db \<longleftrightarrow> keyed membership_key (mg_memberships db) \<and>
     list_all (\<lambda>w. list_ex (active_admin (we_id w)) (mg_memberships db)) (mg_workspaces db)"

definition keeps_admins :: "management \<Rightarrow> management \<Rightarrow> bool" where
  "keeps_admins db db' \<longleftrightarrow> (well_administered db \<longrightarrow> well_administered db')"

interpretation admins: batch_relation keeps_admins
  by unfold_locales (auto simp: keeps_admins_def)

lemma keeps_admins_same:
  "mg_memberships db' = mg_memberships db \<Longrightarrow> map we_id (mg_workspaces db') = map we_id (mg_workspaces db) \<Longrightarrow>
    keeps_admins db db'"
proof -
  assume same: "mg_memberships db' = mg_memberships db" "map we_id (mg_workspaces db') = map we_id (mg_workspaces db)"
  have ids: "list_all (\<lambda>w. list_ex (active_admin (we_id w)) t) (mg_workspaces d) =
      list_all (\<lambda>i. list_ex (active_admin i) t) (map we_id (mg_workspaces d))" for t d
    by (simp add: list_all_iff)
  show ?thesis unfolding keeps_admins_def well_administered_def same ids by simp
qed

lemma keyed_snoc: "keyed key t \<Longrightarrow> \<not> list_ex (\<lambda>r'. key r = key r') t \<Longrightarrow> keyed key (t @ [r])"
  by (force simp: keyed_def list_ex_iff)

lemma insert_membership_admins: "upholds keeps_admins (insert_membership cond r)"
  by (auto simp: upholds_def insert_membership_def insert_if_Some keeps_admins_def well_administered_def
      member_clash_def [abs_def] list_all_iff intro!: keyed_snoc split: if_splits)

text \<open>
  An update that keeps the keys and selects the rows of one user: the trigger lets it through only when the
  workspace of a demoted administrator has another one.
\<close>

lemma update_keeps_admin:
  assumes "keyed membership_key t" "list_ex (active_admin w) t" "\<not> update_refused p f t"
    and "\<And>m. p m \<Longrightarrow> mb_user m = u" "\<And>m. membership_key (f m) = membership_key m"
  shows "list_ex (active_admin w) (update_where p f t)"
proof -
  obtain a where a: "a \<in> set t" "active_admin w a" using assms(2) by (auto simp: list_ex_iff)
  show ?thesis
  proof (cases "p a \<and> \<not> active_admin w (f a)")
    case False
    then show ?thesis
      using a by (auto simp: list_ex_iff set_update_where)
  next
    case True
    have ws: "mb_workspace a = w" using a by (simp add: active_admin_def)
    have "\<not> last_active_admin t a"
      using assms(3) a True ws by (auto simp: update_refused_def list_ex_iff)
    then obtain b where "b \<in> set t" "active_admin w b" "mb_user b \<noteq> mb_user a"
      using a ws by (auto simp: last_active_admin_def list_ex_iff)
    moreover have "\<not> p b" using assms(4) [of a] assms(4) [of b] True calculation(3) by auto
    ultimately show ?thesis by (auto simp: list_ex_iff set_update_where)
  qed
qed

lemma update_memberships_admins:
  assumes "\<And>db m. p db m \<Longrightarrow> mb_user m = u" "\<And>m. membership_key (f m) = membership_key m"
  shows "upholds keeps_admins (update_memberships p f)"
  using assms update_keeps_admin [where u = u]
  by (auto simp: upholds_def update_memberships_def keeps_admins_def well_administered_def list_all_iff
      intro!: keyed_update_where split: if_splits)

lemma other_statements_admins:
  "upholds keeps_admins (update_invitations p f)"
  "upholds keeps_admins (insert_invitation cond i)"
  "upholds keeps_admins (insert_user u)"
  "upholds keeps_admins (insert_account a)"
  "upholds keeps_admins (delete_grants q)"
  "upholds keeps_admins (insert_grant cond g)"
  "upholds keeps_admins (prepareAuditStatement sv auditId input)"
  "(\<And>w. we_id (h w) = we_id w) \<Longrightarrow> upholds keeps_admins (update_workspaces r h)"
  by (auto simp: upholds_def update_invitations_def insert_invitation_def insert_user_def insert_account_def
      delete_grants_def insert_grant_def prepareAuditStatement_def update_workspaces_def insert_if_Some
      map_update_where intro!: keeps_admins_same split: if_splits)

lemma accepted_member_admins: "upholds keeps_admins (accepted_member i u now)"
  using insert_membership_admins
  by (auto simp: upholds_def accepted_member_def admins.refl split: option.splits if_splits)

lemma creation_admins:
  assumes "commit_batch (creation_batch sv ids now actor input pk) outcome db = (db', r)"
  shows "keeps_admins db db'"
proof (cases "run_batch (creation_batch sv ids now actor input pk) 0 db")
  case None
  then show ?thesis using assms by (simp add: commit_batch_def admins.refl)
next
  case (Some p)
  obtain db2 ks where p: "p = (db2, ks)" by (rule prod.exhaust)
  have db2: "db' = db2" using assms Some p by (simp add: commit_batch_def)
  define w where "w = \<lparr>we_id = wx_workspace ids, we_telemetry_pk = pk, we_slug = wi_slug input,
    we_name = wi_name input, we_dashboard = Some (wx_dashboard ids), we_sampling = \<lfloor>wi_sampling input\<rfloor>,
    we_created_at = now, we_updated_at = now, we_deleted_at = None, we_purge_started_at = None\<rparr>"
  define m where "m = \<lparr>mb_workspace = wx_workspace ids, mb_user = actor, mb_role = admin, mb_status = Active,
    mb_created_at = now, mb_updated_at = now\<rparr>"
  have tables: "mg_workspaces db2 = mg_workspaces db @ [w]" "mg_memberships db2 = mg_memberships db @ [m]"
    "\<not> list_ex (member_clash m) (mg_memberships db)"
    using Some
    unfolding p creation_batch_def run_batch_iffs w_def [symmetric] m_def [symmetric]
    by (auto simp: insert_workspace_def insert_membership_def insert_dashboard_def insert_policy_def
        prepareAuditStatement_def insert_if_Some)
  have "active_admin (we_id w) m" by (simp add: active_admin_def w_def m_def)
  then show ?thesis
    unfolding db2 keeps_admins_def well_administered_def
    using tables by (auto simp: list_all_iff list_ex_iff member_clash_def intro!: keyed_snoc)
qed

section \<open>Invitations\<close>

text \<open>An invitation is never removed, and one that was accepted or revoked stays so.\<close>

definition same_invitation :: "invitation \<Rightarrow> invitation \<Rightarrow> bool" where
  "same_invitation i j \<longleftrightarrow> iv_id j = iv_id i \<and> iv_workspace j = iv_workspace i \<and> iv_email j = iv_email i \<and>
     iv_role j = iv_role i \<and> iv_digest j = iv_digest i \<and> iv_expires_at j = iv_expires_at i \<and>
     (\<not> invitation_pending i \<longrightarrow> \<not> invitation_pending j)"

definition keeps_invitations :: "management \<Rightarrow> management \<Rightarrow> bool" where
  "keeps_invitations db db' \<longleftrightarrow>
     (keyed iv_id (mg_invitations db) \<longrightarrow> keyed iv_id (mg_invitations db')) \<and>
     (\<forall>i \<in> set (mg_invitations db). \<exists>j \<in> set (mg_invitations db'). same_invitation i j)"

lemma same_invitation_refl [simp]: "same_invitation i i"
  by (simp add: same_invitation_def)

lemma same_invitation_trans: "same_invitation i j \<Longrightarrow> same_invitation j k \<Longrightarrow> same_invitation i k"
  by (simp add: same_invitation_def)

interpretation invites: batch_relation keeps_invitations
proof
  show "keeps_invitations db db" for db by (auto simp: keeps_invitations_def intro: same_invitation_refl)
  show "keeps_invitations a c" if "keeps_invitations a b" "keeps_invitations b c" for a b c
    using that unfolding keeps_invitations_def by (meson same_invitation_trans)
qed

lemma keeps_invitations_same: "mg_invitations db' = mg_invitations db \<Longrightarrow> keeps_invitations db db'"
  by (auto simp: keeps_invitations_def intro: same_invitation_refl)

lemma update_invitations_kept:
  assumes "\<And>i. same_invitation i (f i)"
  shows "upholds keeps_invitations (update_invitations p f)"
proof -
  have "keyed iv_id (update_where q f t)" if "keyed iv_id t" for q t
    using that assms by (intro keyed_update_where) (auto simp: same_invitation_def)
  moreover have "\<exists>j \<in> set (update_where q f t). same_invitation i j" if "i \<in> set t" for i q t
  proof (rule bexI [of _ "if q i then f i else i"])
    show "same_invitation i (if q i then f i else i)" using assms by simp
    show "(if q i then f i else i) \<in> set (update_where q f t)" using that by (auto simp: update_where_def)
  qed
  ultimately show ?thesis
    by (auto simp: upholds_def update_invitations_def keeps_invitations_def)
qed

lemma insert_invitation_kept: "upholds keeps_invitations (insert_invitation cond r)"
proof -
  have "keyed iv_id (t @ [r])" if "keyed iv_id t" "\<not> list_ex (invitation_clash r) t" for t
    using that by (intro keyed_snoc) (auto simp: list_ex_iff invitation_clash_def)
  then show ?thesis
    by (auto simp: upholds_def insert_invitation_def insert_if_Some keeps_invitations_def intro: same_invitation_refl
        split: if_splits)
qed

lemma other_statements_kept:
  "upholds keeps_invitations (update_memberships q g)"
  "upholds keeps_invitations (insert_membership c m)"
  "upholds keeps_invitations (insert_user u)"
  "upholds keeps_invitations (insert_account a)"
  "upholds keeps_invitations (delete_grants s)"
  "upholds keeps_invitations (insert_grant cond g')"
  "upholds keeps_invitations (prepareAuditStatement sv auditId input)"
  "upholds keeps_invitations (update_workspaces r h)"
  "upholds keeps_invitations (insert_workspace w)"
  "upholds keeps_invitations (insert_dashboard d creator)"
  "upholds keeps_invitations (insert_policy y)"
  by (auto simp: upholds_def update_memberships_def insert_membership_def insert_user_def insert_account_def
      delete_grants_def insert_grant_def prepareAuditStatement_def update_workspaces_def insert_workspace_def
      insert_dashboard_def insert_policy_def insert_if_Some intro!: keeps_invitations_same split: if_splits)

lemma accepted_member_kept: "upholds keeps_invitations (accepted_member i u now)"
  using other_statements_kept(2)
  by (auto simp: upholds_def accepted_member_def invites.refl split: option.splits if_splits)

section \<open>The state machine\<close>

text \<open>
  A step is the write of one page on the current database, whatever database \<open>db0\<close> the page has read and
  whatever its arguments are; the number of a new workspace is drawn in a step of its own. Other parts of the
  program change other tables.
\<close>

inductive manage_step :: "server \<Rightarrow> management \<Rightarrow> management \<Rightarrow> bool" for sv where
  membership: "updateWorkspaceMembership sv auditId now db0 slug actor memberId role status db = (db', r) \<Longrightarrow>
    manage_step sv db db'"
| permission: "setMemberResourcePermission sv auditId ids now db0 slug actor memberId rtype rid perm db = (db', r1) \<Longrightarrow>
    manage_step sv db db'"
| invite: "createWorkspaceInvitation sv bytes i auditId now db0 slug actor secret email role db = (db', r2) \<Longrightarrow>
    manage_step sv db db'"
| revoke: "revokeWorkspaceInvitation sv auditId now db0 slug actor i db = (db', r3) \<Longrightarrow> manage_step sv db db'"
| accept: "acceptInvitationForUser sv auditId db0 token secret userId email now db = (db', r4) \<Longrightarrow>
    manage_step sv db db'"
| register: "registerFromWorkspaceInvitation sv userId accountId auditId db0 token secret name password now db = (db', r5) \<Longrightarrow>
    manage_step sv db db'"
| draw: "mg_sequence db = Some v \<Longrightarrow> manage_step sv db (db\<lparr>mg_sequence := Some (v + 1)\<rparr>)"
| create: "commit_batch (creation_batch sv ids now actor input pk) (\<lambda>_. Inr ()) db = (db', r6) \<Longrightarrow> manage_step sv db db'"
| remove: "softDeleteWorkspace sv auditId now db0 slug actor confirmation db = (db', r7) \<Longrightarrow> manage_step sv db db'"
| restore: "restoreWorkspace sv auditId now db0 workspaceId actor db = (db', r8) \<Longrightarrow> manage_step sv db db'"
| elsewhere: "mg_memberships db' = mg_memberships db \<Longrightarrow> mg_invitations db' = mg_invitations db \<Longrightarrow>
    map we_id (mg_workspaces db') = map we_id (mg_workspaces db) \<Longrightarrow> manage_step sv db db'"

inductive manage_reach :: "server \<Rightarrow> management \<Rightarrow> management \<Rightarrow> bool" for sv where
  start: "manage_reach sv db db"
| step: "manage_reach sv db db1 \<Longrightarrow> manage_step sv db1 db2 \<Longrightarrow> manage_reach sv db db2"

text \<open>Creating a workspace is made of these steps.\<close>

lemma createWorkspace_steps:
  assumes "\<And>d. manage_reach sv d (meanwhile d)"
    and "createWorkspace sv ids now meanwhile db0 actor input db = (db', r)"
  shows "manage_reach sv db db'"
proof -
  consider "db' = db" | v normalized r' where "mg_sequence db = Some v"
    "commit_batch (creation_batch sv ids now actor normalized (v + 1)) (\<lambda>_. Inr ())
      (meanwhile (db\<lparr>mg_sequence := Some (v + 1)\<rparr>)) = (db', r')"
    using assms(2) by (auto simp: createWorkspace_def perform_def split: sum.splits option.splits prod.splits)
  then show ?thesis
  proof cases
    case 1
    then show ?thesis by (simp add: manage_reach.start)
  next
    case 2
    have "manage_reach sv a c" if "manage_reach sv b c" "manage_reach sv a b" for a b c
      using that by (induction rule: manage_reach.induct) (auto intro: manage_reach.step)
    moreover have "manage_reach sv db (db\<lparr>mg_sequence := Some (v + 1)\<rparr>)"
      using manage_reach.step [OF manage_reach.start manage_step.draw [OF 2(1)]] .
    ultimately have "manage_reach sv db (meanwhile (db\<lparr>mg_sequence := Some (v + 1)\<rparr>))" using assms(1) by blast
    then show ?thesis using manage_step.create [OF 2(2)] by (rule manage_reach.step)
  qed
qed

lemmas page_defs = updateWorkspaceMembership_def setMemberResourcePermission_def createWorkspaceInvitation_def
  revokeWorkspaceInvitation_def acceptInvitationForUser_def registerFromWorkspaceInvitation_def
  softDeleteWorkspace_def restoreWorkspace_def

lemmas statements_kept = insert_invitation_kept other_statements_kept accepted_member_kept

lemma accept_update_upholds:
  "upholds keeps_admins (accept_update i now)" "upholds keeps_invitations (accept_update i now)"
  unfolding accept_update_def
  by (rule other_statements_admins, rule update_invitations_kept)
    (simp add: same_invitation_def invitation_pending_def)

lemma step_keeps_admins: "manage_step sv db db' \<Longrightarrow> keeps_admins db db'"
proof (induction rule: manage_step.induct)
  case (membership auditId now db0 slug actor memberId role status db db' r)
  then show ?case
    unfolding updateWorkspaceMembership_def
    by (elim admins.page [rotated])
      (auto intro!: update_memberships_admins [where u = memberId] other_statements_admins
        simp: membership_guard_def membership_key_def)
next
  case (permission auditId ids now db0 slug actor memberId rtype rid perm db db' r1)
  then show ?case
    unfolding setMemberResourcePermission_def
    by (elim admins.page [rotated])
      (auto intro!: update_memberships_admins [where u = memberId] other_statements_admins
        simp: permission_batch_def permission_inserts_def permission_guard_def)
next
  case (invite bytes i auditId now db0 slug actor secret email role db db' r2)
  then show ?case
    unfolding createWorkspaceInvitation_def Let_def
    by (elim admins.page [rotated])
      (auto intro!: update_memberships_admins [where u = actor] other_statements_admins)
next
  case (revoke auditId now db0 slug actor i db db' r3)
  then show ?case
    unfolding revokeWorkspaceInvitation_def case_prod_beta'
    by (elim admins.page [rotated]) (auto intro!: other_statements_admins)
next
  case (accept auditId db0 token secret userId email now db db' r4)
  then show ?case
    unfolding acceptInvitationForUser_def
    by (elim admins.page [rotated]) (auto intro!: other_statements_admins accepted_member_admins accept_update_upholds)
next
  case (register userId accountId auditId db0 token secret name password now db db' r5)
  then show ?case
    unfolding registerFromWorkspaceInvitation_def case_prod_beta'
    by (elim admins.page [rotated]) (auto intro!: other_statements_admins accepted_member_admins accept_update_upholds)
next
  case (draw db v)
  then show ?case by (simp add: keeps_admins_def well_administered_def)
next
  case (create ids now actor input pk db db' r6)
  then show ?case by (rule creation_admins)
next
  case (remove auditId now db0 slug actor confirmation db db' r7)
  then show ?case
    unfolding softDeleteWorkspace_def
    by (elim admins.page [rotated]) (auto intro!: other_statements_admins)
next
  case (restore auditId now db0 workspaceId actor db db' r8)
  then show ?case
    unfolding restoreWorkspace_def case_prod_beta'
    by (elim admins.page [rotated]) (auto intro!: other_statements_admins)
next
  case (elsewhere db' db)
  then show ?case by (intro keeps_admins_same)
qed

lemma step_keeps_invitations: "manage_step sv db db' \<Longrightarrow> keeps_invitations db db'"
proof (induction rule: manage_step.induct)
  case (create ids now actor input pk db db' r6)
  then show ?case
    by (elim invites.commit [rotated]) (auto simp: creation_batch_def intro!: statements_kept)
next
  case (draw db v)
  then show ?case by (intro keeps_invitations_same) simp
next
  case (elsewhere db' db)
  then show ?case by (intro keeps_invitations_same)
qed (unfold page_defs case_prod_beta' Let_def; elim invites.page [rotated];
    auto intro!: statements_kept accept_update_upholds update_invitations_kept
      simp: same_invitation_def invitation_pending_def permission_batch_def permission_inserts_def)+

lemma reach_upholds:
  assumes "manage_reach sv db db'"
  shows "keeps_admins db db'" "keeps_invitations db db'"
  using assms
  by (induction rule: manage_reach.induct)
    (auto intro: admins.refl invites.refl dest: step_keeps_admins step_keeps_invitations
      elim: admins.trans invites.trans)

text \<open>The guard of the page makes the trigger idle: the statement is never aborted.\<close>

lemma guard_satisfies_trigger:
  assumes "membership_change db0 slug actor memberId roleText statusText = Inr plan"
  shows "\<not> update_refused (membership_guard plan actor memberId db)
    (\<lambda>m. m\<lparr>mb_role := mp_role plan, mb_status := mp_status plan, mb_updated_at := now\<rparr>) (mg_memberships db)"
proof -
  have removes: "mp_removesAdmin plan \<longleftrightarrow> mb_role (mp_before plan) = admin \<and> mb_status (mp_before plan) = Active \<and>
      (mp_role plan \<noteq> admin \<or> mp_status plan \<noteq> Active)"
    using assms by (auto simp: membership_change_def Let_def elim!: bind_result_InrE)
  show ?thesis
    unfolding update_refused_def list_ex_iff
  proof clarify
    fix m
    assume m: "membership_guard plan actor memberId db m" "last_active_admin (mg_memberships db) m"
      "\<not> active_admin (mb_workspace m) (m\<lparr>mb_role := mp_role plan, mb_status := mp_status plan, mb_updated_at := now\<rparr>)"
    then have "mp_removesAdmin plan"
      unfolding removes by (auto simp: membership_guard_def last_active_admin_def active_admin_def)
    then show False using m(1,2) by (auto simp: membership_guard_def last_active_admin_def)
  qed
qed

text \<open>
  C31. Every workspace keeps an active administrator. However many users change memberships, accept invitations,
  create, delete and restore workspaces at the same time, each on the strength of what it has read earlier: when
  every workspace has an active administrator at the start, it has one in every state that is reached. And the
  page that changes a membership does not rely on the trigger of the database for that: its own condition
  already excludes what the trigger would abort.
\<close>

theorem workspaces_keep_admin:
  assumes "manage_reach sv db db'" "well_administered db"
  shows "well_administered db' \<and>
    (membership_change db0 slug actor memberId roleText statusText = Inr plan \<longrightarrow>
     \<not> update_refused (membership_guard plan actor memberId db')
       (\<lambda>m. m\<lparr>mb_role := mp_role plan, mb_status := mp_status plan, mb_updated_at := now\<rparr>) (mg_memberships db'))"
  using reach_upholds(1) [OF assms(1)] assms(2) guard_satisfies_trigger by (auto simp: keeps_admins_def)

definition sample_server :: server where
  "sample_server = \<lparr>sr_platform = \<lparr>sha256 = (\<lambda>b. b), JSON_parse = (\<lambda>_. None),
     JSON_stringify = (\<lambda>_. [])\<rparr>, sr_localeCompare = (\<lambda>a b. if a < b then - 1 else if a = b then 0 else 1),
     sr_lower = toLowerCase, sr_hmac = (\<lambda>key message. key @ message), sr_hashPassword = (\<lambda>p. ''hash'')\<rparr>"

lemma sample_administered: "well_administered sample_management"
  by (simp add: well_administered_def sample_management_def sample_members_def membership_key_def active_admin_def)

theorem workspaces_keep_admin_witness:
  "let (db', r) = updateWorkspaceMembership sample_server ''x'' 5 sample_management ''home'' ''a'' ''u'' ''admin'' ''active''
       sample_management
   in r = Inr () \<and> well_administered db' \<and> length (filter (active_admin ''w'') (mg_memberships db')) = 2"
proof -
  let ?run = "updateWorkspaceMembership sample_server ''x'' 5 sample_management ''home'' ''a'' ''u'' ''admin'' ''active''
    sample_management"
  obtain db' r where run: "?run = (db', r)" by (rule prod.exhaust)
  have "snd ?run = Inr () \<and> length (filter (active_admin ''w'') (mg_memberships (fst ?run))) = 2" by code_simp
  moreover have "well_administered db'"
    using workspaces_keep_admin [OF manage_reach.step [OF manage_reach.start manage_step.membership [OF run]]
        sample_administered] by blast
  ultimately show ?thesis by (simp add: run)
qed

lemma accept_update_idle:
  assumes "keyed iv_id (mg_invitations db)" "j \<in> set (mg_invitations db)" "\<not> invitation_pending j" "iv_id j = k"
  shows "accept_update k now n db = Some (db, 0)"
proof -
  have none: "\<not> (iv_id i = k \<and> invitation_pending i \<and> iv_expires_at i > now)" if "i \<in> set (mg_invitations db)" for i
    using keyed_unique [OF assms(1) that assms(2)] assms(3,4) by auto
  then have "update_where (\<lambda>i. iv_id i = k \<and> invitation_pending i \<and> iv_expires_at i > now)
      (\<lambda>i. i\<lparr>iv_accepted_at := Some now\<rparr>) (mg_invitations db) = mg_invitations db"
    by (rule update_where_none)
  moreover have "count_where (\<lambda>i. iv_id i = k \<and> invitation_pending i \<and> iv_expires_at i > now) (mg_invitations db) = 0"
    unfolding count_where_zero using none by blast
  ultimately show ?thesis by (simp add: accept_update_def update_invitations_def)
qed

lemma audit_idle: "ai_onlyIfChanged input \<Longrightarrow> prepareAuditStatement sv i input 0 db = Some (db, 0)"
  by (simp add: prepareAuditStatement_def insert_if_def)

lemma accept_audit_only [simp]: "ai_onlyIfChanged (accept_audit i u now)"
  by (simp add: accept_audit_def)

text \<open>
  C32. An invitation is used at most once. Once it has been accepted or revoked, and whatever happened since, neither
  an account nor a registration gets in by it, also when the page had read the invitation while it was still
  open: the page throws and the database stays as it is.
\<close>

theorem invitation_single_use:
  assumes "manage_reach sv db1 db2" "keyed iv_id (mg_invitations db1)"
    and "i \<in> set (mg_invitations db1)" "\<not> invitation_pending i"
    and "invitationRecord sv db0 token secret True now = Inr r" "ir_id r = iv_id i"
  shows "(\<exists>e. acceptInvitationForUser sv auditId db0 token secret userId email now db2 = (db2, Inl e)) \<and>
    (\<exists>e. registerFromWorkspaceInvitation sv userId accountId auditId db0 token secret name password now db2 =
       (db2, Inl e))"
proof -
  obtain j where j: "j \<in> set (mg_invitations db2)" "iv_id j = iv_id i" "\<not> invitation_pending j"
    and keyed: "keyed iv_id (mg_invitations db2)"
    using reach_upholds(2) [OF assms(1)] assms(2-4) unfolding keeps_invitations_def same_invitation_def by blast
  have idle: "accept_update (ir_id r) now n db2 = Some (db2, 0)" for n
    using accept_update_idle [OF keyed j(1,3)] j(2) assms(6) by simp
  have member: "accepted_member (ir_id r) u now 0 db2 = Some (db2, 0)" for u by (simp add: accepted_member_def)
  have user: "insert_user u 0 db2 = Some (db2, 0)" "insert_account a 0 db2 = Some (db2, 0)" for u a
    by (simp_all add: insert_user_def insert_account_def insert_if_def)
  note defs = perform_def commit_batch_def idle member user audit_idle http_require_def http_fail_def
  have "\<exists>e. acceptInvitationForUser sv auditId db0 token secret userId email now db2 = (db2, Inl e)"
    by (cases "normalizeEmail sv email") (auto simp: acceptInvitationForUser_def assms(5) defs)
  moreover have "\<exists>e. registerFromWorkspaceInvitation sv userId accountId auditId db0 token secret name password now db2 =
      (db2, Inl e)"
    by (auto simp: registerFromWorkspaceInvitation_def registration_def assms(5) defs Let_def)
  ultimately show ?thesis by blast
qed

end
