(* ===== verification/Installation.thy ===== *)
theory Installation
  imports Workspace_Correctness
begin

text \<open>
  The first start of an installation (\<open>apps/web/src/lib/server/setup.ts\<close>): whoever knows the setup token creates
  the first user, an administrator of the first workspace, once. The password hash, SHA-256 and
  \<open>toLowerCase\<close> are parameters (\<open>server\<close>).
\<close>

section \<open>The input\<close>

record setup_input =
  su_token :: string
  su_name :: string
  su_email :: string
  su_password :: string
  su_workspaceName :: string
  su_workspaceSlug :: string
  su_rawDays :: rat
  su_sampling :: rat
  su_visibility :: string

definition MAX_TEXT_SECRET_LENGTH :: nat where "MAX_TEXT_SECRET_LENGTH = 512"

text \<open>The comparison reads both digests to the end.\<close>

definition digests_equal :: "blob \<Rightarrow> blob \<Rightarrow> bool" where
  "digests_equal left right =
     (if length left \<noteq> length right then False
      else fold (\<lambda>(l, r) difference. or difference (xor l r)) (zip left right) (0 :: int) = 0)"

definition validSetupToken :: "server \<Rightarrow> string \<Rightarrow> string \<Rightarrow> bool" where
  "validSetupToken sv submitted expected =
     (if js_length submitted < 20 \<or> js_length submitted > MAX_TEXT_SECRET_LENGTH \<or>
         js_length expected < 20 \<or> js_length expected > MAX_TEXT_SECRET_LENGTH
      then False
      else digests_equal (sha256 (sr_platform sv) (text_encode submitted)) (sha256 (sr_platform sv) (text_encode expected)))"

definition normalizeSetupInput :: "server \<Rightarrow> setup_input \<Rightarrow> setup_input http" where
  "normalizeSetupInput sv input =
     (let name = js_trim (su_name input); email = sr_lower sv (js_trim (su_email input));
          workspaceName = js_trim (su_workspaceName input); workspaceSlug = js_trim (su_workspaceSlug input) in
      bind_result (http_require (2 \<le> js_length name \<and> js_length name \<le> 80) 400
        ''Administrator name must contain 2 to 80 characters'') (\<lambda>_.
      bind_result (http_require (3 \<le> js_length email \<and> js_length email \<le> 254 \<and> email_shape email) 400
        ''A valid administrator email address is required'') (\<lambda>_.
      bind_result (http_require (12 \<le> js_length (su_password input) \<and> js_length (su_password input) \<le> 128) 400
        ''Password must contain 12 to 128 characters'') (\<lambda>_.
      bind_result (http_require (2 \<le> js_length workspaceName \<and> js_length workspaceName \<le> 80) 400
        ''Workspace name must contain 2 to 80 characters'') (\<lambda>_.
      bind_result (http_require (slug_shape workspaceSlug) 400 ''Workspace slug is invalid'') (\<lambda>_.
      bind_result (http_require (is_integer_num (su_rawDays input) \<and> 1 \<le> su_rawDays input \<and> su_rawDays input \<le> 90) 400
        ''Raw retention must be between 1 and 90 days'') (\<lambda>_.
      bind_result (http_require (is_integer_num (su_sampling input) \<and> 1 \<le> su_sampling input \<and>
          su_sampling input \<le> 300 \<and> 60 mod \<lfloor>su_sampling input\<rfloor> = 0) 400
        ''Default sampling interval must divide the 60 second report period'') (\<lambda>_.
      bind_result (http_require (su_visibility input \<in> {''private'', ''authenticated'', ''public''}) 400
        ''Dashboard visibility is invalid'') (\<lambda>_.
      Inr (input\<lparr>su_name := name, su_email := email, su_workspaceName := workspaceName,
        su_workspaceSlug := workspaceSlug\<rparr>))))))))))"

section \<open>The installation\<close>

record installation =
  sn_id :: string
  sn_complete :: bool
  sn_created_at :: int

text \<open>The tables of the management pages and the table of installations, in one database.\<close>

record site =
  si_db :: management
  si_installations :: "installation list"

definition installed :: "site \<Rightarrow> bool" where
  "installed site \<longleftrightarrow> list_ex sn_complete (si_installations site)"

text \<open>The key and the unique index on complete installations.\<close>

definition installation_clash :: "installation \<Rightarrow> installation \<Rightarrow> bool" where
  "installation_clash a b \<longleftrightarrow> sn_id a = sn_id b \<or> sn_complete a \<and> sn_complete b"

record setup_ids =
  sj_user :: string
  sj_account :: string
  sj_workspace :: string
  sj_dashboard :: string
  sj_installation :: string

text \<open>\<open>UPDATE telemetry_resource_sequences SET value = 1 WHERE kind = 'workspace' AND value = 0\<close>.\<close>

definition start_sequence :: statement where
  "start_sequence n db =
     (if mg_sequence db = Some 0 then Some (db\<lparr>mg_sequence := Some 1\<rparr>, 1) else Some (db, 0))"

text \<open>\<open>INSERT .. VALUES\<close>: the same row as after a statement that changed one row.\<close>

definition insert_values :: "statement \<Rightarrow> statement" where
  "insert_values stmt n = stmt 1"

definition setup_batch :: "server \<Rightarrow> setup_ids \<Rightarrow> int \<Rightarrow> setup_input \<Rightarrow> statement list" where
  "setup_batch sv ids now input =
     [start_sequence,
      insert_values (insert_user \<lparr>us_id = sj_user ids, us_name = su_name input, us_email = su_email input,
        us_verified = True, us_created_at = now\<rparr>),
      insert_values (insert_account \<lparr>ac_id = sj_account ids, ac_user = sj_user ids,
        ac_password = sr_hashPassword sv (su_password input), ac_created_at = now\<rparr>),
      insert_workspace \<lparr>we_id = sj_workspace ids, we_telemetry_pk = 1, we_slug = su_workspaceSlug input,
        we_name = su_workspaceName input, we_dashboard = Some (sj_dashboard ids), we_sampling = \<lfloor>su_sampling input\<rfloor>,
        we_created_at = now, we_updated_at = now, we_deleted_at = None, we_purge_started_at = None\<rparr>,
      insert_membership (\<lambda>_. True) \<lparr>mb_workspace = sj_workspace ids, mb_user = sj_user ids, mb_role = admin,
        mb_status = Active, mb_created_at = now, mb_updated_at = now\<rparr>,
      insert_dashboard \<lparr>db_id = sj_dashboard ids, db_workspace = sj_workspace ids, db_slug = ''overview'',
        db_visibility = su_visibility input\<rparr> (sj_user ids),
      insert_policy \<lparr>gp_workspace = sj_workspace ids, gp_raw_days = \<lfloor>su_rawDays input\<rfloor>, gp_grace_days = Some 7\<rparr>]"

text \<open>The whole batch, whose last statement inserts the installation: all of it or nothing.\<close>

definition setup_commit :: "server \<Rightarrow> setup_ids \<Rightarrow> int \<Rightarrow> setup_input \<Rightarrow> site \<Rightarrow> site option" where
  "setup_commit sv ids now input site =
     (case run_batch (setup_batch sv ids now input) 0 (si_db site) of
        None \<Rightarrow> None
      | Some (db, _) \<Rightarrow>
          map_option (\<lambda>t. site\<lparr>si_db := db, si_installations := t\<rparr>)
            (insert_unique installation_clash \<lparr>sn_id = sj_installation ids, sn_complete = True, sn_created_at = now\<rparr>
              (si_installations site)))"

text \<open>The page has read \<open>site0\<close>; the batch runs on \<open>site\<close>, and the lookup after a failure reads it again.\<close>

definition initializeInstallation ::
  "server \<Rightarrow> setup_ids \<Rightarrow> int \<Rightarrow> site \<Rightarrow> string \<Rightarrow> setup_input \<Rightarrow> site \<Rightarrow> site \<times> string http" where
  "initializeInstallation sv ids now site0 expectedToken input site =
     (case bind_result (http_require (validSetupToken sv (su_token input) expectedToken) 403 ''Invalid setup token'') (\<lambda>_.
           bind_result (normalizeSetupInput sv input) (\<lambda>normalized.
           bind_result (http_require (\<not> installed site0) 409 ''AlphaPing is already initialized'') (\<lambda>_.
           Inr normalized))) of
        Inl e \<Rightarrow> (site, Inl e)
      | Inr normalized \<Rightarrow>
          (case setup_commit sv ids now normalized site of
             Some site' \<Rightarrow> (site', Inr (su_workspaceSlug normalized))
           | None \<Rightarrow>
               (site, if installed site then http_fail 409 ''AlphaPing is already initialized''
                      else Inl Database_error)))"

section \<open>Once, and only with the token\<close>

lemma digests_equal_iff: "digests_equal left right \<longleftrightarrow> left = right"
  by (cases "length left = length right") (auto simp: digests_equal_def fold_or_xor)

text \<open>What the batch leaves in the tables.\<close>

lemma setup_tables:
  assumes "run_batch (setup_batch sv ids now input) 0 db = Some (db', ks)"
  obtains w m u where "mg_workspaces db' = mg_workspaces db @ [w]" "mg_memberships db' = mg_memberships db @ [m]"
    "mg_users db' = mg_users db @ [u]" "\<not> list_ex (member_clash m) (mg_memberships db)"
    "active_admin (we_id w) m" "mb_user m = sj_user ids" "we_slug w = su_workspaceSlug input"
    "us_id u = sj_user ids" "us_email u = su_email input"
proof -
  define w where "w = \<lparr>we_id = sj_workspace ids, we_telemetry_pk = 1, we_slug = su_workspaceSlug input,
    we_name = su_workspaceName input, we_dashboard = Some (sj_dashboard ids), we_sampling = \<lfloor>su_sampling input\<rfloor>,
    we_created_at = now, we_updated_at = now, we_deleted_at = None, we_purge_started_at = None\<rparr>"
  define m where "m = \<lparr>mb_workspace = sj_workspace ids, mb_user = sj_user ids, mb_role = admin, mb_status = Active,
    mb_created_at = now, mb_updated_at = now\<rparr>"
  define u where "u = \<lparr>us_id = sj_user ids, us_name = su_name input, us_email = su_email input, us_verified = True,
    us_created_at = now\<rparr>"
  have "mg_workspaces db' = mg_workspaces db @ [w]" "mg_memberships db' = mg_memberships db @ [m]"
    "mg_users db' = mg_users db @ [u]" "\<not> list_ex (member_clash m) (mg_memberships db)"
    using assms
    unfolding setup_batch_def run_batch_iffs w_def [symmetric] m_def [symmetric] u_def [symmetric]
    by (auto simp: start_sequence_def insert_values_def insert_user_def insert_account_def insert_workspace_def
        insert_membership_def insert_dashboard_def insert_policy_def insert_if_Some split: if_splits)
  then show ?thesis by (rule that) (simp_all add: w_def m_def u_def active_admin_def)
qed

lemma setup_keeps_admins:
  assumes "run_batch (setup_batch sv ids now input) 0 db = Some (db', ks)"
  shows "keeps_admins db db'"
  using assms
proof (rule setup_tables)
  fix w m
  assume tables: "mg_workspaces db' = mg_workspaces db @ [w]" "mg_memberships db' = mg_memberships db @ [m]"
    "\<not> list_ex (member_clash m) (mg_memberships db)" "active_admin (we_id w) m"
  then show ?thesis
    unfolding keeps_admins_def well_administered_def
    by (auto simp: list_all_iff list_ex_iff member_clash_def intro!: keyed_snoc)
qed

text \<open>
  C39. An installation is initialised once, by somebody who knows the token. Whatever the page has read and
  whoever else initialises at the same time: the page succeeds only with a token of the digest of the setup token
  and only on a site that is not installed yet; then the site is installed, and its user is an active
  administrator of the new workspace. In every other case nothing is written, and on an installed site
  the page answers with a refusal and never with an error of the database.
\<close>

theorem installation_once:
  assumes "initializeInstallation sv ids now site0 expected input site = (site', r)"
  shows "(case r of
      Inr slug \<Rightarrow> \<not> installed site \<and> installed site' \<and>
        sha256 (sr_platform sv) (text_encode (su_token input)) = sha256 (sr_platform sv) (text_encode expected) \<and>
        list_ex (\<lambda>w. we_slug w = slug \<and> is_active_admin (si_db site') (we_id w) (sj_user ids)) (mg_workspaces (si_db site'))
    | Inl e \<Rightarrow> site' = site \<and> (installed site \<longrightarrow> e \<noteq> Database_error)) \<and>
    (well_administered (si_db site) \<longrightarrow> well_administered (si_db site'))"
proof (cases "bind_result (http_require (validSetupToken sv (su_token input) expected) 403 ''Invalid setup token'') (\<lambda>_.
    bind_result (normalizeSetupInput sv input) (\<lambda>normalized.
    bind_result (http_require (\<not> installed site0) 409 ''AlphaPing is already initialized'') (\<lambda>_. Inr normalized)))")
  case (Inl e)
  have "e \<noteq> Database_error"
    using Inl by (auto simp: bind_result_def http_require_def http_fail_def normalizeSetupInput_def Let_def
        split: if_splits sum.splits)
  then show ?thesis using assms Inl by (auto simp: initializeInstallation_def)
next
  case plan: (Inr n)
  have token: "validSetupToken sv (su_token input) expected"
    using plan by (auto simp: bind_result_def http_require_def http_fail_def split: if_splits)
  show ?thesis
  proof (cases "setup_commit sv ids now n site")
    case None
    then show ?thesis using assms plan by (auto simp: initializeInstallation_def http_fail_def)
  next
    case (Some s)
    then have res: "site' = s" "r = Inr (su_workspaceSlug n)"
      using assms plan by (simp_all add: initializeInstallation_def)
    obtain db ks t where run: "run_batch (setup_batch sv ids now n) 0 (si_db site) = Some (db, ks)"
      and t: "insert_unique installation_clash \<lparr>sn_id = sj_installation ids, sn_complete = True, sn_created_at = now\<rparr>
          (si_installations site) = Some t"
      and s: "s = site\<lparr>si_db := db, si_installations := t\<rparr>"
      using Some by (auto simp: setup_commit_def split: option.splits prod.splits)
    have "\<not> installed site" "installed s"
      using t unfolding s insert_unique_Some by (auto simp: installed_def installation_clash_def list_ex_iff)
    moreover have "list_ex (\<lambda>w. we_slug w = su_workspaceSlug n \<and> is_active_admin db (we_id w) (sj_user ids)) (mg_workspaces db)"
      using run by (rule setup_tables) (simp add: is_active_admin_def)
    moreover have "well_administered (si_db site) \<longrightarrow> well_administered db"
      using setup_keeps_admins [OF run] by (simp add: keeps_admins_def)
    ultimately show ?thesis
      using token unfolding res by (auto simp: s validSetupToken_def digests_equal_iff split: if_splits)
  qed
qed

definition sample_setup :: setup_input where
  "sample_setup = \<lparr>su_token = replicate 20 CHR ''t'', su_name = ''Ada'', su_email = '' Ada@X.org'',
     su_password = replicate 12 CHR ''p'', su_workspaceName = ''Home'', su_workspaceSlug = ''home'', su_rawDays = 7,
     su_sampling = 10, su_visibility = ''private''\<rparr>"

definition empty_site :: site where
  "empty_site = \<lparr>si_db = sample_management\<lparr>mg_workspaces := [], mg_memberships := [], mg_grants := [], mg_users := [],
     mg_services := [], mg_links := [], mg_sequence := Some 0\<rparr>, si_installations = []\<rparr>"

theorem installation_once_witness:
  "let (site', r) = initializeInstallation sample_server \<lparr>sj_user = ''u'', sj_account = ''c'', sj_workspace = ''w'',
         sj_dashboard = ''d'', sj_installation = ''i''\<rparr> 5 empty_site (replicate 20 CHR ''t'') sample_setup empty_site;
       again = initializeInstallation sample_server \<lparr>sj_user = ''u2'', sj_account = ''c2'', sj_workspace = ''w2'',
         sj_dashboard = ''d2'', sj_installation = ''i2''\<rparr> 6 empty_site (replicate 20 CHR ''t'') sample_setup site'
   in r = Inr ''home'' \<and> installed site' \<and> well_administered (si_db site') \<and> fst again = site'"
proof -
  let ?ids = "\<lparr>sj_user = ''u'', sj_account = ''c'', sj_workspace = ''w'', sj_dashboard = ''d'', sj_installation = ''i''\<rparr>"
  let ?ids2 = "\<lparr>sj_user = ''u2'', sj_account = ''c2'', sj_workspace = ''w2'', sj_dashboard = ''d2'', sj_installation = ''i2''\<rparr>"
  let ?run = "initializeInstallation sample_server ?ids 5 empty_site (replicate 20 CHR ''t'') sample_setup empty_site"
  obtain site' r where run: "?run = (site', r)" by (rule prod.exhaust)
  obtain again r2 where run2: "initializeInstallation sample_server ?ids2 6 empty_site (replicate 20 CHR ''t'') sample_setup
      site' = (again, r2)" by (rule prod.exhaust)
  have "snd ?run = Inr ''home''" by code_simp
  moreover have "well_administered (si_db empty_site)"
    by (simp add: empty_site_def well_administered_def)
  ultimately show ?thesis
    using installation_once [OF run] installation_once [OF run2] by (auto simp: run run2 split: sum.splits)
qed

end
