(* ===== verification/Check_Config.thy ===== *)
theory Check_Config
  imports Base64 Check_Persistence
begin

text \<open>
  Reading the configuration of a check: the request parsers of \<open>workers/checks/src/validation.ts\<close>, the
  secrets of \<open>secrets.ts\<close> and the envelope of \<open>packages/contracts/src/check-secrets.ts\<close>. Everything a
  request may be is decided here, before any connection is opened.
\<close>

section \<open>Requests\<close>

datatype assertion_source = SHeader | SJsonpath | SBody

datatype assertion_operator =
  OpExists | OpEquals | OpContains | OpMatches | OpType | OpGreaterThan | OpLessThan

record check_assertion =
  as_source :: assertion_source
  as_operator :: assertion_operator
  as_selector :: "string option"
  as_expected :: "json option"
  as_severity :: health

record http_request =
  hr_url :: string
  hr_method :: string
  hr_headers :: "(string \<times> string) list"
  hr_sensitive :: "string list"
  hr_body :: "string option"
  hr_expected_status :: "int list"
  hr_degraded_after :: "int option"
  hr_down_after :: "int option"
  hr_max_redirects :: int
  hr_tls_verify :: bool
  hr_max_response_bytes :: int
  hr_assertions :: "check_assertion list"

record tcp_request =
  tr_hostname :: string
  tr_port :: int
  tr_secure :: bool
  tr_tls_verify :: bool
  tr_payload :: "blob option"
  tr_prefix :: "blob option"

record secret_references =
  rf_headers :: "(string \<times> string) list"
  rf_body :: "string option"
  rf_tcp_payload :: "string option"

section \<open>Hostnames\<close>

definition BLOCKED_HOSTNAMES :: "string list" where
  "BLOCKED_HOSTNAMES = [''localhost'', ''localhost.localdomain'']"

definition BLOCKED_HEADERS :: "string list" where
  "BLOCKED_HEADERS = [''cf-connecting-ip'', ''cf-ipcountry'', ''cf-ray'', ''connection'',
     ''content-length'', ''host'', ''transfer-encoding'', ''upgrade'']"

fun asRecord :: "json \<Rightarrow> (string \<times> json) list attempt" where
  "asRecord (JObj props) = Inr props"
| "asRecord _ = raise_error ''invalid_check_config''"

definition withoutIpv6Brackets :: "string \<Rightarrow> string" where
  "withoutIpv6Brackets hostname =
     (if startsWith hostname ''['' \<and> endsWith hostname '']''
      then take (length hostname - 2) (drop 1 hostname) else hostname)"

definition address_candidates :: "web \<Rightarrow> string \<Rightarrow> string list" where
  "address_candidates wb hostname =
     withoutIpv6Brackets hostname #
       (case URL_parse wb (''http://'' @ hostname) of
          None \<Rightarrow> []
        | Some u \<Rightarrow> [withoutIpv6Brackets (u_hostname u)])"

definition parseAddressLiteral :: "web \<Rightarrow> string \<Rightarrow> string option" where
  "parseAddressLiteral wb hostname =
     (case find (\<lambda>c. address_range wb c \<noteq> None) (address_candidates wb hostname) of
        None \<Rightarrow> None
      | Some c \<Rightarrow> address_range wb c)"

definition normalized_hostname :: "string \<Rightarrow> string" where
  "normalized_hostname hostname =
     (let lower = toLowerCase hostname
      in if endsWith lower ''.'' then butlast lower else lower)"

definition blocked_hostname :: "web \<Rightarrow> string \<Rightarrow> bool" where
  "blocked_hostname wb hostname \<longleftrightarrow>
     (let normalized = normalized_hostname hostname
      in js_length normalized = 0 \<or> 253 < js_length normalized \<or>
         endsWith normalized ''.local'' \<or> endsWith normalized ''.internal'' \<or>
         normalized \<in> set BLOCKED_HOSTNAMES \<or>
         (case parseAddressLiteral wb normalized of
            None \<Rightarrow> False | Some kind \<Rightarrow> kind \<noteq> ''unicast''))"

definition assertPublicHostname :: "web \<Rightarrow> string \<Rightarrow> unit attempt" where
  "assertPublicHostname wb hostname =
     (if blocked_hostname wb hostname then raise_error ''blocked_target'' else Inr ())"

section \<open>Assertions\<close>

definition boundedInteger :: "json option \<Rightarrow> int \<Rightarrow> int \<Rightarrow> int \<Rightarrow> int attempt" where
  "boundedInteger value fallback minimum maximum =
     (case value of
        None \<Rightarrow> Inr fallback
      | Some (JNum x) \<Rightarrow>
          if \<not> is_integer_num x \<or> x < of_int minimum \<or> x > of_int maximum
          then raise_error ''invalid_integer'' else Inr \<lfloor>x\<rfloor>
      | Some _ \<Rightarrow> raise_error ''invalid_integer'')"

fun parse_source :: "json option \<Rightarrow> assertion_source option" where
  "parse_source (Some (JStr s)) =
     (if s = ''header'' then Some SHeader else if s = ''jsonpath'' then Some SJsonpath
      else if s = ''body'' then Some SBody else None)"
| "parse_source _ = None"

fun parse_operator :: "json option \<Rightarrow> assertion_operator option" where
  "parse_operator (Some (JStr s)) =
     (if s = ''exists'' then Some OpExists else if s = ''equals'' then Some OpEquals
      else if s = ''contains'' then Some OpContains else if s = ''matches'' then Some OpMatches
      else if s = ''type'' then Some OpType else if s = ''greater_than'' then Some OpGreaterThan
      else if s = ''less_than'' then Some OpLessThan else None)"
| "parse_operator _ = None"

fun parse_severity :: "json option \<Rightarrow> health option" where
  "parse_severity (Some (JStr s)) =
     (if s = ''degraded'' then Some Degraded else if s = ''down'' then Some Down else None)"
| "parse_severity _ = None"

definition optional_text :: "web \<Rightarrow> json option \<Rightarrow> string option" where
  "optional_text wb v = (if nullish v then None else map_option (js_String wb) v)"

definition selector_ok :: "assertion_source \<Rightarrow> string option \<Rightarrow> unit attempt" where
  "selector_ok source selector =
     bind_result (require (case selector of None \<Rightarrow> True | Some s \<Rightarrow> s \<noteq> [] \<and> js_length s \<le> 512)
       ''invalid_assertion_selector'') (\<lambda>_.
     bind_result (require (\<not> (source = SHeader \<and> selector = None)) ''missing_header_selector'') (\<lambda>_.
     require (\<not> (source = SJsonpath \<and>
         (case selector of None \<Rightarrow> True
          | Some s \<Rightarrow> \<not> startsWith s ''$'' \<or> includes_text s ''('')))
       ''unsafe_jsonpath_selector''))"

definition expected_ok :: "assertion_operator \<Rightarrow> json option \<Rightarrow> unit attempt" where
  "expected_ok operator expected =
     bind_result
       (if operator = OpMatches then
          (case json_text expected of
             None \<Rightarrow> raise_error ''invalid_regex_assertion''
           | Some s \<Rightarrow> require (js_length s \<le> 256) ''regex_assertion_too_large'')
        else Inr ()) (\<lambda>_.
     require (case json_text expected of None \<Rightarrow> True | Some s \<Rightarrow> js_length s \<le> 2048)
       ''assertion_expected_too_large'')"

definition parse_assertion :: "web \<Rightarrow> json \<Rightarrow> check_assertion attempt" where
  "parse_assertion wb raw =
     bind_result (asRecord raw) (\<lambda>a.
       case (parse_source (jfield a ''source''), parse_operator (jfield a ''operator''),
             parse_severity (jfield a ''severity'')) of
         (Some source, Some operator, Some severity) \<Rightarrow>
           (let selector = optional_text wb (jfield a ''selector'');
                expected = jfield a ''expected''
            in bind_result (selector_ok source selector) (\<lambda>_.
               bind_result (expected_ok operator expected) (\<lambda>_.
                 Inr \<lparr>as_source = source, as_operator = operator, as_selector = selector,
                      as_expected = expected, as_severity = severity\<rparr>)))
       | _ \<Rightarrow> raise_error ''invalid_assertion'')"

definition parseAssertions :: "web \<Rightarrow> json option \<Rightarrow> check_assertion list attempt" where
  "parseAssertions wb value =
     (case value of
        None \<Rightarrow> Inr []
      | Some (JArr raws) \<Rightarrow>
          if 20 < length raws then raise_error ''invalid_assertions''
          else map_attempt (parse_assertion wb) raws
      | Some _ \<Rightarrow> raise_error ''invalid_assertions'')"

section \<open>Request parsers\<close>

definition decodeBase64 :: "json option \<Rightarrow> string \<Rightarrow> blob option attempt" where
  "decodeBase64 value field =
     (if nullish value \<or> value = Some (JStr []) then Inr None
      else case value of
        Some (JStr s) \<Rightarrow>
          if 5464 < js_length s then raise_error (''invalid_'' @ field)
          else (case atob s of
                  None \<Rightarrow> raise_error (''invalid_'' @ field)
                | Some bytes \<Rightarrow>
                    if 4096 < length bytes then raise_error (''invalid_'' @ field)
                    else Inr (Some bytes))
      | _ \<Rightarrow> raise_error (''invalid_'' @ field))"

definition parse_json :: "platform \<Rightarrow> string \<Rightarrow> json attempt" where
  "parse_json pf text = (case JSON_parse pf text of None \<Rightarrow> Inl JsEngineError | Some v \<Rightarrow> Inr v)"

definition HTTP_METHODS :: "string list" where
  "HTTP_METHODS = [''GET'', ''HEAD'', ''POST'', ''PUT'', ''PATCH'', ''DELETE'']"

definition parse_url :: "web \<Rightarrow> json option \<Rightarrow> url attempt" where
  "parse_url wb value =
     (case json_text value of
        None \<Rightarrow> raise_error ''invalid_url''
      | Some s \<Rightarrow>
          if 2048 < js_length s then raise_error ''invalid_url''
          else (case URL_parse wb s of
                  None \<Rightarrow> Inl JsEngineError
                | Some u \<Rightarrow>
                    bind_result (require (u_protocol u = ''http:'' \<or> u_protocol u = ''https:'')
                      ''invalid_protocol'') (\<lambda>_.
                    bind_result (require (u_username u = [] \<and> u_password u = [])
                      ''url_credentials_unsupported'') (\<lambda>_.
                    bind_result (assertPublicHostname wb (u_hostname u)) (\<lambda>_. Inr u)))))"

definition parse_status_list :: "json option \<Rightarrow> int list" where
  "parse_status_list value =
     (case value of
        Some (JArr xs) \<Rightarrow>
          concat (map (\<lambda>v. case v of JNum x \<Rightarrow> if is_integer_num x then [\<lfloor>x\<rfloor>] else [] | _ \<Rightarrow> []) xs)
      | _ \<Rightarrow> [200])"

fun parse_headers ::
  "(string \<times> json) list \<Rightarrow> (string \<times> string) list \<Rightarrow> (string \<times> string) list attempt" where
  "parse_headers [] headers = Inr headers"
| "parse_headers ((name, value) # rest) headers =
     (case value of
        JStr s \<Rightarrow>
          if 128 < js_length name \<or> toLowerCase name \<in> set BLOCKED_HEADERS \<or> 1024 < js_length s
          then raise_error ''invalid_header''
          else parse_headers rest (set_text_prop headers name s)
      | _ \<Rightarrow> raise_error ''invalid_header'')"

definition optional_bounded :: "json option \<Rightarrow> int option attempt" where
  "optional_bounded v =
     (if nullish v then Inr None
      else bind_result (boundedInteger v 0 0 30000) (\<lambda>n. Inr (Some n)))"

definition parse_record :: "json option \<Rightarrow> (string \<times> json) list attempt" where
  "parse_record v = (case v of None \<Rightarrow> Inr [] | Some x \<Rightarrow> asRecord x)"

definition parse_thresholds :: "(string \<times> json) list \<Rightarrow> (int option \<times> int option) attempt" where
  "parse_thresholds data =
     bind_result (optional_bounded (jfield data ''degradedAfterMs'')) (\<lambda>degraded.
     bind_result (optional_bounded (jfield data ''downAfterMs'')) (\<lambda>down.
     bind_result (require (case (degraded, down) of (Some a, Some b) \<Rightarrow> a \<le> b | _ \<Rightarrow> True)
       ''invalid_latency_thresholds'') (\<lambda>_. Inr (degraded, down))))"

text \<open>A one-element array that prints as a method name is kept as that name.\<close>

definition parse_method :: "web \<Rightarrow> json option \<Rightarrow> string attempt" where
  "parse_method wb value =
     (let method = (if nullish value then ''GET'' else js_String wb (the value))
      in if method \<in> set HTTP_METHODS then Inr method else raise_error ''invalid_method'')"

definition parseHttpRequest :: "platform \<Rightarrow> web \<Rightarrow> string \<Rightarrow> http_request attempt" where
  "parseHttpRequest pf wb text =
     bind_result (parse_json pf text) (\<lambda>v.
     bind_result (asRecord v) (\<lambda>data.
     bind_result (parse_url wb (jfield data ''url'')) (\<lambda>u.
     bind_result (parse_method wb (jfield data ''method'')) (\<lambda>method.
     let expectedStatus = parse_status_list (jfield data ''expectedStatus'');
         body = optional_text wb (jfield data ''body'') in
     bind_result (require (expectedStatus \<noteq> [] \<and> length expectedStatus \<le> 20)
       ''invalid_expected_status'') (\<lambda>_.
     bind_result (require (case body of None \<Rightarrow> True | Some b \<Rightarrow> length (text_encode b) \<le> 16384)
       ''request_body_too_large'') (\<lambda>_.
     bind_result (parse_record (jfield data ''headers'')) (\<lambda>rawHeaders.
     bind_result (require (length rawHeaders \<le> 32) ''too_many_headers'') (\<lambda>_.
     bind_result (parse_headers rawHeaders []) (\<lambda>headers.
     bind_result (parse_thresholds data) (\<lambda>(degraded, down).
     bind_result (require (jfield data ''tlsVerify'' \<noteq> Some (JBool False))
       ''tls_verification_disabled'') (\<lambda>_.
     bind_result (boundedInteger (jfield data ''maxRedirects'') 3 0 3) (\<lambda>maxRedirects.
     bind_result (boundedInteger (jfield data ''maxResponseBytes'') 65536 1024 262144) (\<lambda>maxBytes.
     bind_result (parseAssertions wb (jfield data ''assertions'')) (\<lambda>assertions.
       Inr \<lparr>hr_url = u_href u, hr_method = method, hr_headers = headers, hr_sensitive = [],
            hr_body = body, hr_expected_status = expectedStatus, hr_degraded_after = degraded,
            hr_down_after = down, hr_max_redirects = maxRedirects, hr_tls_verify = True,
            hr_max_response_bytes = maxBytes, hr_assertions = assertions\<rparr>))))))))))))))"

definition parse_port :: "json option \<Rightarrow> int attempt" where
  "parse_port value =
     (case json_number value of
        None \<Rightarrow> raise_error ''invalid_port''
      | Some x \<Rightarrow>
          if is_integer_num x \<and> 1 \<le> x \<and> x \<le> 65535 then Inr \<lfloor>x\<rfloor> else raise_error ''invalid_port'')"

definition parseTcpRequest :: "platform \<Rightarrow> web \<Rightarrow> string \<Rightarrow> tcp_request attempt" where
  "parseTcpRequest pf wb text =
     bind_result (parse_json pf text) (\<lambda>v.
     bind_result (asRecord v) (\<lambda>data.
     case json_text (jfield data ''hostname'') of
       None \<Rightarrow> raise_error ''invalid_hostname''
     | Some hostname \<Rightarrow>
         bind_result (require (js_length hostname \<le> 253) ''invalid_hostname'') (\<lambda>_.
         bind_result (assertPublicHostname wb hostname) (\<lambda>_.
         bind_result (parse_port (jfield data ''port'')) (\<lambda>port.
         bind_result (require (nullish (jfield data ''serverName'')) ''server_name_unsupported'') (\<lambda>_.
         bind_result (require (jfield data ''tlsVerify'' \<noteq> Some (JBool False))
           ''tls_verification_disabled'') (\<lambda>_.
         bind_result (decodeBase64 (jfield data ''payloadBase64'') ''tcp_payload'') (\<lambda>payload.
         bind_result (decodeBase64 (jfield data ''responsePrefixBase64'') ''tcp_response_prefix'') (\<lambda>prefix.
           Inr \<lparr>tr_hostname = hostname, tr_port = port,
                tr_secure = (jfield data ''secureTransport'' = Some (JStr ''on'')),
                tr_tls_verify = True, tr_payload = payload, tr_prefix = prefix\<rparr>)))))))))"

fun parse_secret_headers ::
  "(string \<times> json) list \<Rightarrow> (string \<times> string) list \<Rightarrow> (string \<times> string) list attempt" where
  "parse_secret_headers [] headers = Inr headers"
| "parse_secret_headers ((name, value) # rest) headers =
     (case value of
        JStr s \<Rightarrow>
          if 128 < js_length name \<or> toLowerCase name \<in> set BLOCKED_HEADERS
          then raise_error ''invalid_secret_header_reference''
          else parse_secret_headers rest (set_text_prop headers name s)
      | _ \<Rightarrow> raise_error ''invalid_secret_header_reference'')"

definition secret_id_ok :: "string option \<Rightarrow> bool" where
  "secret_id_ok secretId \<longleftrightarrow>
     (case secretId of None \<Rightarrow> True | Some s \<Rightarrow> s \<noteq> [] \<and> js_length s \<le> 128)"

definition parseCheckSecretReferences :: "platform \<Rightarrow> web \<Rightarrow> string \<Rightarrow> secret_references attempt" where
  "parseCheckSecretReferences pf wb text =
     bind_result (parse_json pf text) (\<lambda>v.
     bind_result (asRecord v) (\<lambda>data.
     bind_result (parse_record (jfield data ''headers'')) (\<lambda>rawHeaders.
     bind_result (require (length rawHeaders \<le> 32) ''too_many_secret_headers'') (\<lambda>_.
     bind_result (parse_secret_headers rawHeaders []) (\<lambda>headers.
     let body = optional_text wb (jfield data ''body'');
         tcpPayload = optional_text wb (jfield data ''tcpPayload'') in
     bind_result (require (secret_id_ok body \<and> secret_id_ok tcpPayload) ''invalid_secret_reference'') (\<lambda>_.
       Inr \<lparr>rf_headers = headers, rf_body = body, rf_tcp_payload = tcpPayload\<rparr>))))))"

section \<open>The envelope of a secret\<close>

text \<open>
  AES-GCM of \<open>crypto.subtle\<close> with the key, the nonce, the associated data and the text; \<open>decrypt\<close>
  rejects with an \<open>OperationError\<close> when the tag does not fit.
\<close>

record aes_gcm =
  gcm_encrypt :: "blob \<Rightarrow> blob \<Rightarrow> blob \<Rightarrow> blob \<Rightarrow> blob"
  gcm_decrypt :: "blob \<Rightarrow> blob \<Rightarrow> blob \<Rightarrow> blob \<Rightarrow> blob option"

definition hex_value :: "char \<Rightarrow> int option" where
  "hex_value c =
     (if between CHR ''0'' CHR ''9'' c then Some (char_code c - 48)
      else if between CHR ''a'' CHR ''f'' c then Some (char_code c - 87)
      else if between CHR ''A'' CHR ''F'' c then Some (char_code c - 55)
      else None)"

fun hex_pairs :: "string \<Rightarrow> blob" where
  "hex_pairs (a # b # r) =
     (case (hex_value a, hex_value b) of
        (Some x, Some y) \<Rightarrow> (x * 16 + y) # hex_pairs r
      | _ \<Rightarrow> 0 # hex_pairs r)"
| "hex_pairs _ = []"

definition decodeHexKey :: "string \<Rightarrow> blob attempt" where
  "decodeHexKey value =
     (if length value = 64 \<and> list_all (\<lambda>c. hex_value c \<noteq> None) value then Inr (hex_pairs value)
      else raise_error ''invalid_check_secret_wrapping_key'')"

definition AAD_PREFIX :: string where
  "AAD_PREFIX = ''alphaping/check-secret/v1''"

definition associatedData :: "string \<Rightarrow> string \<Rightarrow> blob attempt" where
  "associatedData workspaceId secretId =
     (if workspaceId = [] \<or> 128 < js_length workspaceId \<or> secretId = [] \<or> 128 < js_length secretId
      then raise_error ''invalid_check_secret_scope''
      else Inr (text_encode (AAD_PREFIX @ '':'' @ workspaceId @ '':'' @ secretId)))"

record wrapped_secret =
  ws_ciphertext :: blob
  ws_nonce :: blob

text \<open>The random nonce of twelve bytes is an argument.\<close>

definition wrapCheckSecret ::
  "aes_gcm \<Rightarrow> blob \<Rightarrow> string \<Rightarrow> string \<Rightarrow> string \<Rightarrow> string \<Rightarrow> wrapped_secret attempt" where
  "wrapCheckSecret gcm nonce plaintext keyHex workspaceId secretId =
     (let value = text_encode plaintext in
      bind_result (require (value \<noteq> [] \<and> length value \<le> 16384) ''invalid_check_secret_size'') (\<lambda>_.
      bind_result (associatedData workspaceId secretId) (\<lambda>aad.
      bind_result (decodeHexKey keyHex) (\<lambda>key.
        Inr \<lparr>ws_ciphertext = gcm_encrypt gcm key nonce aad value, ws_nonce = nonce\<rparr>))))"

definition unwrapCheckSecret ::
  "aes_gcm \<Rightarrow> wrapped_secret \<Rightarrow> string \<Rightarrow> string \<Rightarrow> string \<Rightarrow> string attempt" where
  "unwrapCheckSecret gcm wrapped keyHex workspaceId secretId =
     bind_result (require (length (ws_nonce wrapped) = 12 \<and> length (ws_ciphertext wrapped) \<le> 16400)
       ''invalid_check_secret_envelope'') (\<lambda>_.
     bind_result (associatedData workspaceId secretId) (\<lambda>aad.
     bind_result (decodeHexKey keyHex) (\<lambda>key.
       case gcm_decrypt gcm key (ws_nonce wrapped) aad (ws_ciphertext wrapped) of
         None \<Rightarrow> Inl (JsDomException ''OperationError'')
       | Some bytes \<Rightarrow> (case utf8_decode_fatal bytes of
           None \<Rightarrow> Inl JsEngineError
         | Some text \<Rightarrow> Inr text))))"

section \<open>Resolving the secrets of a check\<close>

record secret_row =
  se_workspace_id :: string
  se_id :: string
  se_wrapped :: blob
  se_nonce :: blob
  se_created_at :: millis

record resolved_secrets =
  rs_headers :: "(string \<times> string) list"
  rs_body :: "string option"
  rs_tcp_payload :: "blob option"

definition referencedIds :: "secret_references \<Rightarrow> string list" where
  "referencedIds references =
     rev (remdups (rev (map snd (rf_headers references) @
       (case rf_body references of None \<Rightarrow> [] | Some b \<Rightarrow> [b]) @
       (case rf_tcp_payload references of None \<Rightarrow> [] | Some p \<Rightarrow> [p]))))"

text \<open>
  The decryptions run concurrently and the first rejection wins; the model takes them in row order.
\<close>

definition unwrap_rows ::
  "aes_gcm \<Rightarrow> string \<Rightarrow> string \<Rightarrow> secret_row list \<Rightarrow> (string \<times> string) list attempt" where
  "unwrap_rows gcm keyHex workspaceId rows =
     map_attempt (\<lambda>r. bind_result
       (unwrapCheckSecret gcm \<lparr>ws_ciphertext = se_wrapped r, ws_nonce = se_nonce r\<rparr>
         keyHex workspaceId (se_id r)) (\<lambda>text. Inr (se_id r, text))) rows"

definition secret_value :: "(string \<times> string) list \<Rightarrow> string \<Rightarrow> string attempt" where
  "secret_value plaintext secretId =
     (case map_of plaintext secretId of
        None \<Rightarrow> raise_error ''missing_check_secret''
      | Some v \<Rightarrow> Inr v)"

fun optional_secret :: "(string \<times> string) list \<Rightarrow> string option \<Rightarrow> string option attempt" where
  "optional_secret plaintext None = Inr None"
| "optional_secret plaintext (Some i) = bind_result (secret_value plaintext i) (\<lambda>v. Inr (Some v))"

definition resolveCheckSecrets ::
  "platform \<Rightarrow> web \<Rightarrow> aes_gcm \<Rightarrow> secret_row list \<Rightarrow> check_config \<Rightarrow> string \<Rightarrow> resolved_secrets attempt" where
  "resolveCheckSecrets pf wb gcm secrets row keyHex =
     bind_result (parseCheckSecretReferences pf wb (cc_secret_refs_json row)) (\<lambda>references.
     let ids = referencedIds references in
     if ids = [] then Inr \<lparr>rs_headers = [], rs_body = None, rs_tcp_payload = None\<rparr>
     else
       let found = filter (\<lambda>s. se_workspace_id s = cc_workspace_id row \<and> se_id s \<in> set ids) secrets in
       bind_result (require (length found = length ids) ''missing_check_secret'') (\<lambda>_.
       bind_result (unwrap_rows gcm keyHex (cc_workspace_id row) found) (\<lambda>plaintext.
       bind_result (map_attempt (\<lambda>(name, i). bind_result (secret_value plaintext i) (\<lambda>v. Inr (name, v)))
         (rf_headers references)) (\<lambda>headers.
       bind_result (optional_secret plaintext (rf_body references)) (\<lambda>body.
       bind_result (optional_secret plaintext (rf_tcp_payload references)) (\<lambda>payloadText.
       let tcpPayload = map_option text_encode payloadText in
       bind_result (require (case tcpPayload of None \<Rightarrow> True | Some p \<Rightarrow> length p \<le> 4096)
         ''secret_payload_too_large'') (\<lambda>_.
         Inr \<lparr>rs_headers = headers, rs_body = body, rs_tcp_payload = tcpPayload\<rparr>)))))))"

text \<open>\<open>{ ...a, ...b }\<close>: the properties of \<open>b\<close> replace those of \<open>a\<close> in place, new ones come last.\<close>

definition spread_props ::
  "(string \<times> string) list \<Rightarrow> (string \<times> string) list \<Rightarrow> (string \<times> string) list" where
  "spread_props a b =
     map (\<lambda>(n, v). (n, case map_of b n of None \<Rightarrow> v | Some w \<Rightarrow> w)) a @
     filter (\<lambda>(n, v). n \<notin> fst ` set a) b"

definition applyHttpSecrets :: "http_request \<Rightarrow> resolved_secrets \<Rightarrow> http_request" where
  "applyHttpSecrets config secrets =
     config\<lparr>hr_headers := spread_props (hr_headers config) (rs_headers secrets),
            hr_sensitive := map (\<lambda>(name, v). toLowerCase name) (rs_headers secrets),
            hr_body := coalesce (rs_body secrets) (hr_body config)\<rparr>"

definition applyTcpSecrets :: "tcp_request \<Rightarrow> resolved_secrets \<Rightarrow> tcp_request" where
  "applyTcpSecrets config secrets =
     config\<lparr>tr_payload := coalesce (rs_tcp_payload secrets) (tr_payload config)\<rparr>"

end
