(* ===== verification/Site_Appearance.thy ===== *)
theory Site_Appearance
  imports Check_Config
begin

text \<open>
  The appearance of a public site (\<open>packages/contracts/src/site-appearance.ts\<close>): a JSON object that an
  administrator writes is validated, and what the database holds is normalised for the public page, which never
  fails on it. JSON text and URL parsing are parameters.
\<close>

definition appearancePalettes :: "string list" where
  "appearancePalettes = [''iris'', ''ocean'', ''mint'', ''sunset'', ''rose'']"

definition appearanceModes :: "string list" where
  "appearanceModes = [''system'', ''light'', ''dark'']"

definition appearanceDensities :: "string list" where
  "appearanceDensities = [''comfortable'', ''compact'']"

record site_appearance =
  sa_title :: string
  sa_description :: string
  sa_logoUrl :: string
  sa_palette :: string
  sa_mode :: string
  sa_density :: string

definition defaultSiteAppearance :: site_appearance where
  "defaultSiteAppearance = \<lparr>sa_title = [], sa_description = [], sa_logoUrl = [], sa_palette = ''iris'',
     sa_mode = ''system'', sa_density = ''comfortable''\<rparr>"

definition appearance_json :: "site_appearance \<Rightarrow> (string \<times> json) list" where
  "appearance_json a = [(''title'', JStr (sa_title a)), (''description'', JStr (sa_description a)),
     (''logoUrl'', JStr (sa_logoUrl a)), (''palette'', JStr (sa_palette a)), (''mode'', JStr (sa_mode a)),
     (''density'', JStr (sa_density a))]"

text \<open>\<open>/^https:\/\//iu\<close>; Unicode case folding also takes the long s (U+017F).\<close>

definition https_prefix :: "string \<Rightarrow> bool" where
  "https_prefix s \<longleftrightarrow> toLowerCase (take 8 s) = ''https://'' \<or>
     toLowerCase (take 9 s) = ''http'' @ [CHR 0xC5, CHR 0xBF] @ ''://''"

definition logo_text_refused :: "string \<Rightarrow> bool" where
  "logo_text_refused url \<longleftrightarrow> js_length url > 512 \<or>
     list_ex (includes_text url) ([CHR 0x5C] # space_texts) \<or>
     list_ex (\<lambda>c. (of_char c :: int) < 32 \<or> c = CHR 0x7F) url"

definition validateSiteLogoUrl :: "web \<Rightarrow> json option \<Rightarrow> string attempt" where
  "validateSiteLogoUrl wb v =
     (case v of
        None \<Rightarrow> Inr []
      | Some JNull \<Rightarrow> Inr []
      | Some (JStr s) \<Rightarrow>
          let url = js_trim s in
          if url = [] then Inr []
          else if logo_text_refused url
            then raise_error ''Use a logo address of up to 512 characters without spaces or backslashes''
          else
            let local_path = startsWith url ''/'' \<and> \<not> startsWith url ''//'' in
            (case (if local_path then Option.bind (URL_parse wb ''https://alphaping.invalid'') (URL_resolve wb url)
                   else URL_parse wb url) of
               None \<Rightarrow> raise_error ''Use an HTTPS logo address or a path beginning with /''
             | Some parsed \<Rightarrow>
                 if u_protocol parsed \<noteq> ''https:'' \<or> \<not> local_path \<and> \<not> https_prefix url \<or>
                    u_username parsed \<noteq> [] \<or> u_password parsed \<noteq> []
                 then raise_error ''Use an HTTPS logo address without credentials, or a path beginning with /''
                 else Inr url)
      | Some _ \<Rightarrow> raise_error ''Enter a public logo image address'')"

definition trimmed_field :: "(string \<times> json) list \<Rightarrow> string \<Rightarrow> string" where
  "trimmed_field props name = (case jfield props name of Some (JStr s) \<Rightarrow> js_trim s | _ \<Rightarrow> [])"

definition chosen_field :: "(string \<times> json) list \<Rightarrow> string \<Rightarrow> string list \<Rightarrow> string \<Rightarrow> string attempt" where
  "chosen_field props name choices message =
     (case jfield props name of
        Some (JStr s) \<Rightarrow> if s \<in> set choices then Inr s else raise_error message
      | _ \<Rightarrow> raise_error message)"

definition validateSiteAppearance :: "platform \<Rightarrow> web \<Rightarrow> json \<Rightarrow> site_appearance attempt" where
  "validateSiteAppearance pf wb v =
     (case v of
        JObj props \<Rightarrow>
          let title = trimmed_field props ''title''; description = trimmed_field props ''description'' in
          bind_result (require (\<not> (js_length title > 80 \<or> js_length description > 240))
            ''Use up to 80 characters for the title and 240 for the introduction'') (\<lambda>_.
          bind_result (chosen_field props ''palette'' appearancePalettes ''Choose a supported color palette'') (\<lambda>palette.
          bind_result (chosen_field props ''mode'' appearanceModes ''Choose a supported color mode'') (\<lambda>mode.
          bind_result (chosen_field props ''density'' appearanceDensities ''Choose a supported layout density'') (\<lambda>density.
          bind_result (validateSiteLogoUrl wb (jfield props ''logoUrl'')) (\<lambda>logoUrl.
          let appearance = \<lparr>sa_title = title, sa_description = description, sa_logoUrl = logoUrl, sa_palette = palette,
                sa_mode = mode, sa_density = density\<rparr> in
          bind_result (require (length (text_encode (JSON_stringify pf (JObj (appearance_json appearance)))) \<le> 2048)
            ''Appearance settings are too large'') (\<lambda>_. Inr appearance))))))
      | _ \<Rightarrow> raise_error ''Appearance settings are invalid'')"

text \<open>\<open>{...defaultSiteAppearance, ...value}\<close>: the properties of the value win.\<close>

definition with_defaults :: "(string \<times> json) list \<Rightarrow> (string \<times> json) list" where
  "with_defaults props =
     filter (\<lambda>(name, _). name \<notin> fst ` set props) (appearance_json defaultSiteAppearance) @ props"

definition normalizeSiteAppearance :: "platform \<Rightarrow> web \<Rightarrow> json \<Rightarrow> site_appearance" where
  "normalizeSiteAppearance pf wb v =
     (case v of
        JObj props \<Rightarrow>
          (case validateSiteAppearance pf wb (JObj (with_defaults props)) of
             Inr a \<Rightarrow> a
           | Inl _ \<Rightarrow> defaultSiteAppearance)
      | _ \<Rightarrow> defaultSiteAppearance)"

definition parseSiteAppearance :: "platform \<Rightarrow> web \<Rightarrow> string option \<Rightarrow> site_appearance" where
  "parseSiteAppearance pf wb v =
     (case v of
        None \<Rightarrow> defaultSiteAppearance
      | Some s \<Rightarrow>
          if s = [] \<or> js_length s > 2048 then defaultSiteAppearance
          else (case JSON_parse pf s of
              None \<Rightarrow> defaultSiteAppearance
            | Some parsed \<Rightarrow> normalizeSiteAppearance pf wb parsed))"

section \<open>A validated appearance stays as it is\<close>

lemma skip_texts_stops: "list_all (\<lambda>p. p = [] \<or> \<not> startsWith (skip_texts texts s) p) texts"
proof (induction texts s rule: skip_texts.induct)
  case (1 texts s)
  show ?case
  proof (cases "find (\<lambda>p. p \<noteq> [] \<and> startsWith s p) texts")
    case None
    then have "skip_texts texts s = s" by (subst skip_texts.simps) simp
    then show ?thesis using None by (auto simp: find_None_iff list_all_iff)
  next
    case (Some p)
    then have "skip_texts texts s = skip_texts texts (drop (length p) s)" by (subst skip_texts.simps) simp
    then show ?thesis using 1 [OF Some] by simp
  qed
qed

lemma skip_texts_id: "list_all (\<lambda>p. p = [] \<or> \<not> startsWith s p) texts \<Longrightarrow> skip_texts texts s = s"
proof -
  assume none: "list_all (\<lambda>p. p = [] \<or> \<not> startsWith s p) texts"
  have "find (\<lambda>p. p \<noteq> [] \<and> startsWith s p) texts = None"
    using none by (auto simp: find_None_iff list_all_iff)
  then show ?thesis by (subst skip_texts.simps) simp
qed

lemma skip_texts_suffix: "\<exists>pre. s = pre @ skip_texts texts s"
proof (induction texts s rule: skip_texts.induct)
  case (1 texts s)
  show ?case
  proof (cases "find (\<lambda>p. p \<noteq> [] \<and> startsWith s p) texts")
    case None
    then have "skip_texts texts s = s" by (subst skip_texts.simps) simp
    then show ?thesis by simp
  next
    case (Some p)
    then have step: "skip_texts texts s = skip_texts texts (drop (length p) s)" by (subst skip_texts.simps) simp
    obtain pre where "drop (length p) s = pre @ skip_texts texts (drop (length p) s)" using 1 [OF Some] by blast
    then have "s = (take (length p) s @ pre) @ skip_texts texts s" unfolding step by (metis append.assoc append_take_drop_id)
    then show ?thesis by blast
  qed
qed

lemma js_trim_trim: "js_trim (js_trim s) = js_trim s"
proof -
  let ?front = "skip_texts space_texts s"
  let ?rear = "skip_texts (map rev space_texts) (rev ?front)"
  have trim: "js_trim s = rev ?rear" by (simp add: js_trim_def)
  obtain pre where "rev ?front = pre @ ?rear" using skip_texts_suffix by blast
  then have "?front = rev ?rear @ rev pre" by (metis rev_append rev_rev_ident)
  then have "startsWith ?front p" if "startsWith (rev ?rear) p" for p
    using that by (metis append.assoc append_take_drop_id append_eq_conv_conj startsWith_def)
  then have "list_all (\<lambda>p. p = [] \<or> \<not> startsWith (rev ?rear) p) space_texts"
    using skip_texts_stops [of space_texts s] by (auto simp: list_all_iff)
  then have "skip_texts space_texts (rev ?rear) = rev ?rear" by (rule skip_texts_id)
  moreover have "skip_texts (map rev space_texts) ?rear = ?rear"
    by (rule skip_texts_id [OF skip_texts_stops])
  ultimately show ?thesis unfolding trim by (simp add: js_trim_def)
qed

lemma logo_again:
  assumes "validateSiteLogoUrl wb f = Inr url"
  shows "validateSiteLogoUrl wb (Some (JStr url)) = Inr url"
proof (cases "url = []")
  case True
  moreover have "js_trim [] = []" by code_simp
  ultimately show ?thesis by (simp add: validateSiteLogoUrl_def)
next
  case False
  then obtain s where f: "f = Some (JStr s)" "js_trim s = url"
    using assms by (auto simp: validateSiteLogoUrl_def Let_def raise_error_def split: option.splits json.splits if_splits)
  then have "js_trim url = url" using js_trim_trim by blast
  then show ?thesis using assms f by (simp add: validateSiteLogoUrl_def)
qed

text \<open>
  What validation accepts it accepts again unchanged, so that saving the appearance that is shown is no change, and
  the public page reads back what was saved.
\<close>

lemma appearance_roundtrip:
  assumes "validateSiteAppearance pf wb v = Inr a"
    and "JSON_parse pf s = Some (JObj (appearance_json a))" "s \<noteq> []" "js_length s \<le> 2048"
  shows "validateSiteAppearance pf wb (JObj (appearance_json a)) = Inr a \<and> parseSiteAppearance pf wb (Some s) = a"
proof -
  obtain props where v: "v = JObj props" using assms(1) by (cases v) (auto simp: validateSiteAppearance_def raise_error_def)
  note facts = assms(1) [unfolded v validateSiteAppearance_def json.case Let_def]
  obtain palette mode density logoUrl where
    "js_length (trimmed_field props ''title'') \<le> 80" "js_length (trimmed_field props ''description'') \<le> 240"
    and chosen: "chosen_field props ''palette'' appearancePalettes ''Choose a supported color palette'' = Inr palette"
      "chosen_field props ''mode'' appearanceModes ''Choose a supported color mode'' = Inr mode"
      "chosen_field props ''density'' appearanceDensities ''Choose a supported layout density'' = Inr density"
    and "validateSiteLogoUrl wb (jfield props ''logoUrl'') = Inr logoUrl"
    and "length (text_encode (JSON_stringify pf (JObj (appearance_json a)))) \<le> 2048"
    and a: "a = \<lparr>sa_title = trimmed_field props ''title'', sa_description = trimmed_field props ''description'',
      sa_logoUrl = logoUrl, sa_palette = palette, sa_mode = mode, sa_density = density\<rparr>"
    using facts by (auto simp: bind_result_Inr_iff require_def raise_error_def split: if_splits)
  note limits = this
  have choices: "palette \<in> set appearancePalettes" "mode \<in> set appearanceModes" "density \<in> set appearanceDensities"
    using chosen by (auto simp: chosen_field_def raise_error_def split: option.splits json.splits if_splits)
  have trimmed: "js_trim (trimmed_field props n) = trimmed_field props n" for n
  proof -
    have "js_trim [] = []" by code_simp
    then show ?thesis by (simp add: trimmed_field_def js_trim_trim split: option.splits json.splits)
  qed
  have fields: "jfield (appearance_json a) ''title'' = Some (JStr (sa_title a))"
    "jfield (appearance_json a) ''description'' = Some (JStr (sa_description a))"
    "jfield (appearance_json a) ''logoUrl'' = Some (JStr (sa_logoUrl a))"
    "jfield (appearance_json a) ''palette'' = Some (JStr (sa_palette a))"
    "jfield (appearance_json a) ''mode'' = Some (JStr (sa_mode a))"
    "jfield (appearance_json a) ''density'' = Some (JStr (sa_density a))"
    by (simp_all add: appearance_json_def jfield_def)
  have again: "validateSiteAppearance pf wb (JObj (appearance_json a)) = Inr a"
  proof -
    have "trimmed_field (appearance_json a) ''title'' = sa_title a" "trimmed_field (appearance_json a) ''description'' = sa_description a"
      unfolding trimmed_field_def fields option.case json.case using trimmed by (simp_all add: a)
    moreover have "chosen_field (appearance_json a) ''palette'' appearancePalettes e1 = Inr (sa_palette a)"
      "chosen_field (appearance_json a) ''mode'' appearanceModes e2 = Inr (sa_mode a)"
      "chosen_field (appearance_json a) ''density'' appearanceDensities e3 = Inr (sa_density a)" for e1 e2 e3
      using fields choices by (simp_all add: chosen_field_def a)
    moreover have "validateSiteLogoUrl wb (jfield (appearance_json a) ''logoUrl'') = Inr (sa_logoUrl a)"
      using logo_again [OF limits(6)] fields(3) by (simp add: a)
    moreover have "\<lparr>sa_title = sa_title a, sa_description = sa_description a, sa_logoUrl = sa_logoUrl a,
        sa_palette = sa_palette a, sa_mode = sa_mode a, sa_density = sa_density a\<rparr> = a" by simp
    moreover have "js_length (sa_title a) \<le> 80" "js_length (sa_description a) \<le> 240" using limits(1,2) by (simp_all add: a)
    ultimately show ?thesis
      using limits(7) by (cases a) (simp add: validateSiteAppearance_def Let_def)
  qed
  have "with_defaults (appearance_json a) = appearance_json a"
    by (simp add: with_defaults_def appearance_json_def)
  then show ?thesis
    using again assms(2-4) by (simp add: parseSiteAppearance_def normalizeSiteAppearance_def)
qed

end
