(* ===== verification/Public_Projection.thy ===== *)
theory Public_Projection
  imports Site_Appearance
begin

text \<open>
  What the public pages make of the rows they have read
  (\<open>packages/db/src/repositories/public-status-projection.ts\<close>), with the parser of the inventory of containers
  (\<open>parseContainerInventory\<close> of \<open>machines.ts\<close>). The projection decides which measurements an anonymous visitor
  sees.
\<close>

section \<open>The inventory of containers\<close>

record runtime_status =
  rs_kind :: string
  rs_instance :: string
  rs_availability :: string
  rs_version :: string
  rs_detailCode :: string

record container_port =
  cq_private :: int
  cq_public :: int
  cq_protocol :: string

record machine_container =
  ct_id :: string
  ct_runtime :: string
  ct_runtimeInstance :: string
  ct_name :: string
  ct_image :: string
  ct_state :: string
  ct_health :: string
  ct_numbers :: "int list"
  ct_ports :: "container_port list"

record container_inventory =
  cy_observedAt :: int
  cy_runtimes :: "runtime_status list"
  cy_containers :: "machine_container list"

definition runtimeKinds :: "string list" where
  "runtimeKinds = [''docker'', ''colima-docker'', ''colima-containerd'', ''apple-container'', ''unknown'']"

definition runtimeAvailability :: "string list" where
  "runtimeAvailability =
     [''available'', ''absent'', ''stopped'', ''permission-denied'', ''incompatible'', ''error'', ''unknown'']"

definition containerStates :: "string list" where
  "containerStates = [''created'', ''running'', ''paused'', ''restarting'', ''exited'', ''dead'', ''unknown'']"

definition containerHealth :: "string list" where
  "containerHealth = [''none'', ''starting'', ''healthy'', ''unhealthy'', ''unknown'']"

definition boundedString :: "json option \<Rightarrow> nat \<Rightarrow> string option" where
  "boundedString v maximum = (case v of Some (JStr s) \<Rightarrow> if js_length s \<le> maximum then Some s else None | _ \<Rightarrow> None)"

text \<open>\<open>safeInteger(value)\<close> with the default minimum 0.\<close>

definition safeInteger :: "json option \<Rightarrow> int option" where
  "safeInteger v =
     (case v of
        Some (JNum x) \<Rightarrow> if is_integer_num x \<and> is_safe_integer \<lfloor>x\<rfloor> \<and> \<lfloor>x\<rfloor> \<ge> 0 then Some \<lfloor>x\<rfloor> else None
      | _ \<Rightarrow> None)"

definition chosen :: "string list \<Rightarrow> string option \<Rightarrow> string option" where
  "chosen choices v = Option.bind v (\<lambda>s. if s \<noteq> [] \<and> s \<in> set choices then Some s else None)"

definition parse_runtime :: "json \<Rightarrow> runtime_status option" where
  "parse_runtime item =
     (case item of
        JObj p \<Rightarrow>
          Option.bind (chosen runtimeKinds (boundedString (jfield p ''kind'') 32)) (\<lambda>kind.
          Option.bind (chosen runtimeAvailability (boundedString (jfield p ''availability'') 32)) (\<lambda>availability.
          Option.bind (boundedString (jfield p ''instance'') 64) (\<lambda>inst.
          Option.bind (boundedString (jfield p ''version'') 64) (\<lambda>version.
          Option.bind (boundedString (jfield p ''detailCode'') 64) (\<lambda>detailCode.
          Some \<lparr>rs_kind = kind, rs_instance = inst, rs_availability = availability, rs_version = version,
                rs_detailCode = detailCode\<rparr>)))))
      | _ \<Rightarrow> None)"

definition parse_container_port :: "json \<Rightarrow> container_port option" where
  "parse_container_port port =
     (case port of
        JObj p \<Rightarrow>
          Option.bind (safeInteger (jfield p ''privatePort'')) (\<lambda>privatePort.
          Option.bind (safeInteger (jfield p ''publicPort'')) (\<lambda>publicPort.
          Option.bind (boundedString (jfield p ''protocol'') 8) (\<lambda>protocol.
          Some \<lparr>cq_private = privatePort, cq_public = publicPort, cq_protocol = protocol\<rparr>)))
      | _ \<Rightarrow> None)"

text \<open>\<open>/^[a-f0-9]{32}$/\<close>.\<close>

definition container_id_ok :: "string \<Rightarrow> bool" where
  "container_id_ok s \<longleftrightarrow> length s = 32 \<and> list_all (\<lambda>c. between CHR ''a'' CHR ''f'' c \<or> between CHR ''0'' CHR ''9'' c) s"

definition number_names :: "string list" where
  "number_names = [''startedAt'', ''restartCount'', ''cpuPermille'', ''memoryUsedBytes'', ''memoryLimitBytes'',
     ''networkRxBps'', ''networkTxBps'']"

definition parse_container :: "json \<Rightarrow> machine_container option" where
  "parse_container item =
     (case item of
        JObj p \<Rightarrow>
          (case jfield p ''ports'' of
             Some (JArr ports) \<Rightarrow>
               if length ports > 8 then None
               else
                 Option.bind (boundedString (jfield p ''id'') 32) (\<lambda>i. if \<not> container_id_ok i then None else
                 Option.bind (chosen runtimeKinds (boundedString (jfield p ''runtime'') 32)) (\<lambda>runtime.
                 Option.bind (boundedString (jfield p ''runtimeInstance'') 64) (\<lambda>runtimeInstance.
                 Option.bind (boundedString (jfield p ''name'') 128) (\<lambda>name.
                 Option.bind (boundedString (jfield p ''image'') 512) (\<lambda>image.
                 Option.bind (chosen containerStates (boundedString (jfield p ''state'') 32)) (\<lambda>state.
                 Option.bind (chosen containerHealth (boundedString (jfield p ''health'') 32)) (\<lambda>health.
                 Option.bind (those (map (\<lambda>n. safeInteger (jfield p n)) number_names)) (\<lambda>numbers.
                 Option.bind (those (map parse_container_port ports)) (\<lambda>parsedPorts.
                 Some \<lparr>ct_id = i, ct_runtime = runtime, ct_runtimeInstance = runtimeInstance, ct_name = name,
                       ct_image = image, ct_state = state, ct_health = health, ct_numbers = numbers,
                       ct_ports = parsedPorts\<rparr>)))))))))
           | _ \<Rightarrow> None)
      | _ \<Rightarrow> None)"

definition ct_cpuPermille :: "machine_container \<Rightarrow> int" where "ct_cpuPermille c = ct_numbers c ! 2"
definition ct_memoryUsedBytes :: "machine_container \<Rightarrow> int" where "ct_memoryUsedBytes c = ct_numbers c ! 3"

definition parseContainerInventory :: "platform \<Rightarrow> string option \<Rightarrow> container_inventory option" where
  "parseContainerInventory pf v =
     (case v of
        None \<Rightarrow> None
      | Some s \<Rightarrow>
          if s = [] \<or> js_length s > 256 * 1024 then None
          else (case JSON_parse pf s of
              Some (JObj p) \<Rightarrow>
                (case (jfield p ''runtimes'', jfield p ''containers'', safeInteger (jfield p ''observedAt'')) of
                   (Some (JArr runtimes), Some (JArr containers), Some observedAt) \<Rightarrow>
                     if length runtimes > 16 \<or> length containers > 64 then None
                     else
                       Option.bind (those (map parse_runtime runtimes)) (\<lambda>rs.
                       Option.bind (those (map parse_container containers)) (\<lambda>cs.
                       Some \<lparr>cy_observedAt = observedAt, cy_runtimes = rs, cy_containers = cs\<rparr>))
                 | _ \<Rightarrow> None)
            | _ \<Rightarrow> None))"

section \<open>Machines\<close>

datatype projection_profile = Summary | Detailed

record public_machine_row =
  pm_id :: string
  pm_slug :: string
  pm_pk :: int
  pm_name :: string
  pm_description :: string
  pm_offlineAfter :: int
  pm_profile :: projection_profile

record public_machine_latest =
  pl_machinePk :: int
  pl_observedAt :: int
  pl_receivedAt :: int
  pl_state :: string
  pl_cpuPermille :: int
  pl_memoryUsed :: int
  pl_memoryTotal :: int
  pl_storageUsed :: int
  pl_storageTotal :: int
  pl_networkRx :: int
  pl_networkTx :: int
  pl_inventory :: "string option"

record public_container_row =
  pc_id :: string
  pc_machine :: string
  pc_profile :: projection_profile

record public_container =
  pk_name :: string
  pk_state :: string
  pk_health :: string
  pk_cpuPermille :: "int option"
  pk_memoryUsed :: "int option"

record public_machine =
  pb_slug :: string
  pb_name :: string
  pb_description :: string
  pb_state :: string
  pb_observedAt :: "int option"
  pb_cpuPermille :: "int option"
  pb_memoryUsed :: "int option"
  pb_memoryTotal :: "int option"
  pb_storageUsed :: "int option"
  pb_storageTotal :: "int option"
  pb_networkRx :: "int option"
  pb_networkTx :: "int option"
  pb_containers :: "public_container list"

definition normalizeState :: "string \<Rightarrow> string" where
  "normalizeState v =
     (if v \<in> {''healthy'', ''degraded'', ''down'', ''maintenance''} then v else ''unknown'')"

definition normalizeMachineState :: "string \<Rightarrow> string" where
  "normalizeMachineState v =
     (if v \<in> {''healthy'', ''degraded'', ''down'', ''offline'', ''maintenance''} then v else ''unknown'')"

text \<open>A JavaScript \<open>Map\<close> of the containers by identifier: the last one wins.\<close>

definition container_by_id :: "container_inventory option \<Rightarrow> string \<Rightarrow> machine_container option" where
  "container_by_id inventory =
     map_of (rev (map (\<lambda>c. (ct_id c, c)) (case inventory of None \<Rightarrow> [] | Some y \<Rightarrow> cy_containers y)))"

definition project_container :: "public_container_row \<Rightarrow> machine_container \<Rightarrow> public_container" where
  "project_container policy c =
     (let detailed = pc_profile policy = Detailed
      in \<lparr>pk_name = ct_name c, pk_state = ct_state c, pk_health = ct_health c,
          pk_cpuPermille = (if detailed then Some (ct_cpuPermille c) else None),
          pk_memoryUsed = (if detailed then Some (ct_memoryUsedBytes c) else None)\<rparr>)"

definition projectPublicStatusMachine ::
  "public_machine_row \<Rightarrow> public_machine_latest option \<Rightarrow> container_inventory option \<Rightarrow> public_container_row list \<Rightarrow> int \<Rightarrow>
   public_machine" where
  "projectPublicStatusMachine m latest inventory publicContainers now =
     (let detailed = pm_profile m = Detailed;
          metric = (\<lambda>get. if detailed then map_option get latest else None)
      in \<lparr>pb_slug = pm_slug m, pb_name = pm_name m, pb_description = (if detailed then pm_description m else []),
          pb_state = (case latest of
              None \<Rightarrow> ''unknown''
            | Some l \<Rightarrow> if now - pl_receivedAt l > pm_offlineAfter m * 1000 then ''offline''
                else normalizeMachineState (pl_state l)),
          pb_observedAt = map_option pl_observedAt latest,
          pb_cpuPermille = metric pl_cpuPermille, pb_memoryUsed = metric pl_memoryUsed,
          pb_memoryTotal = metric pl_memoryTotal, pb_storageUsed = metric pl_storageUsed,
          pb_storageTotal = metric pl_storageTotal, pb_networkRx = metric pl_networkRx,
          pb_networkTx = metric pl_networkTx,
          pb_containers = concat (map (\<lambda>policy.
              case container_by_id inventory (pc_id policy) of
                None \<Rightarrow> [] | Some c \<Rightarrow> [project_container policy c]) publicContainers)\<rparr>)"

section \<open>Services\<close>

record public_service_row =
  pv_id :: string
  pv_pk :: int
  pv_name :: string
  pv_slug :: "string option"
  pv_description :: string
  pv_profile :: projection_profile

record public_service_latest =
  pt_servicePk :: int
  pt_state :: string
  pt_lastTransitionAt :: int

record public_bucket =
  pq_resourcePk :: int
  pq_start :: int
  pq_state :: string
  pq_availability :: int
  pq_latency :: "int option"
  pq_summary :: string

record timeline_bucket =
  tb_start :: int
  tb_state :: string
  tb_availability :: "int option"
  tb_latency :: "int option"
  tb_summary :: "string option"

record open_bucket =
  ob_start :: int
  ob_hasRows :: bool
  ob_state :: string
  ob_availabilityTotal :: int
  ob_availabilityCount :: int
  ob_latencyTotal :: int
  ob_latencyCount :: int
  ob_summary :: "string option"

definition stateRank :: "string \<Rightarrow> nat" where
  "stateRank s = (if s = ''healthy'' then 1 else if s = ''degraded'' then 2 else if s = ''down'' then 3
     else if s = ''maintenance'' then 4 else 0)"

definition BUCKET_MS :: int where "BUCKET_MS = 30 * 60000"
definition BUCKET_COUNT :: nat where "BUCKET_COUNT = 48"

definition add_bucket :: "public_bucket \<Rightarrow> open_bucket \<Rightarrow> open_bucket" where
  "add_bucket row b =
     (let candidate = normalizeState (pq_state row);
          b1 = (if \<not> ob_hasRows b \<or> stateRank candidate > stateRank (ob_state b)
                then b\<lparr>ob_state := candidate, ob_summary := Some (pq_summary row)\<rparr> else b);
          b2 = b1\<lparr>ob_hasRows := True, ob_availabilityTotal := ob_availabilityTotal b1 + pq_availability row,
                ob_availabilityCount := ob_availabilityCount b1 + 1\<rparr>
      in (case pq_latency row of
            None \<Rightarrow> b2
          | Some ms \<Rightarrow> b2\<lparr>ob_latencyTotal := ob_latencyTotal b2 + ms, ob_latencyCount := ob_latencyCount b2 + 1\<rparr>))"

text \<open>The loop over the rows; an index outside the timeline is \<open>undefined\<close> and the row is skipped.\<close>

definition add_row :: "int \<Rightarrow> int \<Rightarrow> int \<Rightarrow> open_bucket list \<Rightarrow> public_bucket \<Rightarrow> open_bucket list" where
  "add_row servicePk start fin timeline row =
     (let index = (pq_start row - start) div BUCKET_MS
      in if pq_resourcePk row \<noteq> servicePk \<or> index < 0 \<or> index \<ge> int (length timeline) \<or> pq_start row \<ge> fin then timeline
         else timeline[nat index := add_bucket row (timeline ! nat index)])"

definition close_bucket :: "open_bucket \<Rightarrow> timeline_bucket" where
  "close_bucket b = \<lparr>tb_start = ob_start b, tb_state = ob_state b,
     tb_availability = (if ob_availabilityCount b = 0 then None
       else Some (round_div (ob_availabilityTotal b) (ob_availabilityCount b))),
     tb_latency = (if ob_latencyCount b = 0 then None else Some (round_div (ob_latencyTotal b) (ob_latencyCount b))),
     tb_summary = ob_summary b\<rparr>"

definition buildTimeline :: "int \<Rightarrow> public_bucket list \<Rightarrow> int \<Rightarrow> timeline_bucket list" where
  "buildTimeline servicePk buckets now =
     (let fin = now div BUCKET_MS * BUCKET_MS + BUCKET_MS;
          start = fin - int BUCKET_COUNT * BUCKET_MS;
          empty = map (\<lambda>i. \<lparr>ob_start = start + int i * BUCKET_MS, ob_hasRows = False, ob_state = ''unknown'',
            ob_availabilityTotal = 0, ob_availabilityCount = 0, ob_latencyTotal = 0, ob_latencyCount = 0,
            ob_summary = None\<rparr>) [0..<BUCKET_COUNT]
      in map close_bucket (foldl (add_row servicePk start fin) empty buckets))"

record public_service =
  pe_name :: string
  pe_slug :: string
  pe_description :: string
  pe_state :: string
  pe_lastCheckedAt :: "int option"
  pe_lastTransitionAt :: "int option"
  pe_availability24h :: "int option"
  pe_timeline :: "timeline_bucket list"

definition projectPublicStatusService ::
  "public_service_row \<Rightarrow> public_service_latest option \<Rightarrow> int option \<Rightarrow> public_bucket list \<Rightarrow> int \<Rightarrow> public_service" where
  "projectPublicStatusService s latest lastCheckedAt buckets now =
     (let own = filter (\<lambda>row. pq_resourcePk row = pv_pk s) buckets
      in \<lparr>pe_name = pv_name s, pe_slug = (case pv_slug s of Some slug \<Rightarrow> slug | None \<Rightarrow> pv_id s),
          pe_description = (if pv_profile s = Detailed then pv_description s else []),
          pe_state = (case latest of Some l \<Rightarrow> normalizeState (pt_state l) | None \<Rightarrow> ''unknown''),
          pe_lastCheckedAt = lastCheckedAt, pe_lastTransitionAt = map_option pt_lastTransitionAt latest,
          pe_availability24h = (if own = [] then None
            else Some (round_div (sum_list (map pq_availability own)) (int (length own)))),
          pe_timeline = buildTimeline (pv_pk s) own now\<rparr>)"

section \<open>What a visitor sees\<close>

lemma parse_container_numbers:
  assumes "parse_container item = Some c"
  shows "container_id_ok (ct_id c) \<and> length (ct_numbers c) = 7 \<and> length (ct_ports c) \<le> 8"
proof -
  have length_those: "those xs = Some ys \<Longrightarrow> length ys = length xs" for xs :: "'x option list" and ys
    by (induction xs arbitrary: ys) (auto split: option.splits)
  show ?thesis
    using assms
    by (auto simp: parse_container_def bind_eq_Some_conv number_names_def split: json.splits option.splits if_splits
        dest!: length_those)
qed

text \<open>
  A machine of the summary profile shows the same page whatever it measures, whatever its description is, and whatever
  containers have no policy.
\<close>

lemma summary_hides_measurements:
  assumes "pm_profile m = Summary" "pm_profile m' = Summary"
    and "pm_slug m = pm_slug m'" "pm_name m = pm_name m'" "pm_offlineAfter m = pm_offlineAfter m'"
    and "rel_option (\<lambda>l l'. pl_observedAt l = pl_observedAt l' \<and> pl_receivedAt l = pl_receivedAt l' \<and>
        pl_state l = pl_state l') latest latest'"
    and "\<forall>policy \<in> set policies. container_by_id y (pc_id policy) = container_by_id y' (pc_id policy)"
  shows "projectPublicStatusMachine m latest y policies now = projectPublicStatusMachine m' latest' y' policies now"
  using assms by (cases latest; cases latest') (simp_all add: projectPublicStatusMachine_def cong: map_cong)

section \<open>The timeline of a service\<close>

definition in_bucket :: "int \<Rightarrow> int \<Rightarrow> public_bucket \<Rightarrow> bool" where
  "in_bucket servicePk from row \<longleftrightarrow>
     pq_resourcePk row = servicePk \<and> from \<le> pq_start row \<and> pq_start row < from + BUCKET_MS"

definition rounded_mean :: "int list \<Rightarrow> int option" where
  "rounded_mean xs = (if xs = [] then None else Some (round_div (sum_list xs) (int (length xs))))"

text \<open>What an open bucket is after the rows \<open>rows\<close>.\<close>

definition bucket_of :: "public_bucket list \<Rightarrow> open_bucket \<Rightarrow> bool" where
  "bucket_of rows b \<longleftrightarrow>
     ob_hasRows b = (rows \<noteq> []) \<and>
     ob_availabilityTotal b = sum_list (map pq_availability rows) \<and> ob_availabilityCount b = int (length rows) \<and>
     ob_latencyTotal b = sum_list (List.map_filter pq_latency rows) \<and>
     ob_latencyCount b = int (length (List.map_filter pq_latency rows)) \<and>
     (\<forall>row \<in> set rows. stateRank (normalizeState (pq_state row)) \<le> stateRank (ob_state b)) \<and>
     (if rows = [] then ob_state b = ''unknown'' \<and> ob_summary b = None
      else \<exists>row \<in> set rows. ob_state b = normalizeState (pq_state row) \<and> ob_summary b = Some (pq_summary row))"

lemma bucket_of_snoc: "bucket_of rows b \<Longrightarrow> bucket_of (rows @ [row]) (add_bucket row b)"
  by (cases "pq_latency row")
    (auto simp: bucket_of_def add_bucket_def Let_def map_filter_simps List.map_filter_def split: if_splits)

lemma add_bucket_start [simp]: "ob_start (add_bucket row b) = ob_start b"
  by (simp add: add_bucket_def Let_def split: option.splits)

lemma bucket_index:
  assumes "0 < n"
  shows "(x - start) div n = int i \<longleftrightarrow> start + int i * n \<le> x \<and> x < start + int i * n + (n :: int)"
proof -
  have "(x - start) div n = int i \<longleftrightarrow> int i * n \<le> x - start \<and> x - start < int i * n + n"
  proof
    assume "(x - start) div n = int i"
    then have "x - start = int i * n + (x - start) mod n" by (metis div_mult_mod_eq)
    moreover have "0 \<le> (x - start) mod n" "(x - start) mod n < n" using assms by simp_all
    ultimately show "int i * n \<le> x - start \<and> x - start < int i * n + n" by linarith
  next
    assume "int i * n \<le> x - start \<and> x - start < int i * n + n"
    then show "(x - start) div n = int i" by (intro int_div_pos_eq [of _ _ _ "x - start - int i * n"]) (auto simp: algebra_simps)
  qed
  then show ?thesis by auto
qed

lemma add_row_nth:
  assumes "i < length timeline" "fin = start + int (length timeline) * BUCKET_MS"
  shows "length (add_row pk start fin timeline row) = length timeline \<and>
    add_row pk start fin timeline row ! i =
      (if in_bucket pk (start + int i * BUCKET_MS) row then add_bucket row (timeline ! i) else timeline ! i)"
proof -
  have pos: "0 < BUCKET_MS" by (simp add: BUCKET_MS_def)
  have "pq_start row < fin" if "in_bucket pk (start + int i * BUCKET_MS) row"
  proof -
    have "int (Suc i) * BUCKET_MS \<le> int (length timeline) * BUCKET_MS"
      using assms(1) pos by (intro mult_right_mono) auto
    then show ?thesis using that unfolding assms(2) in_bucket_def by (simp add: algebra_simps)
  qed
  moreover have "in_bucket pk (start + int i * BUCKET_MS) row \<longleftrightarrow>
      pq_resourcePk row = pk \<and> (pq_start row - start) div BUCKET_MS = int i"
    unfolding in_bucket_def bucket_index [OF pos] ..
  ultimately show ?thesis
    using assms(1) by (auto simp: add_row_def Let_def nth_list_update)
qed

lemma fold_rows_nth:
  assumes "i < length timeline" "fin = start + int (length timeline) * BUCKET_MS" "bucket_of before (timeline ! i)"
  shows "length (foldl (add_row pk start fin) timeline rows) = length timeline \<and>
    ob_start (foldl (add_row pk start fin) timeline rows ! i) = ob_start (timeline ! i) \<and>
    bucket_of (before @ filter (in_bucket pk (start + int i * BUCKET_MS)) rows)
      (foldl (add_row pk start fin) timeline rows ! i)"
  using assms
proof (induction rows arbitrary: timeline before)
  case (Cons row rows)
  note step = add_row_nth [OF Cons.prems(1,2), of pk row]
  let ?next = "add_row pk start fin timeline row"
  have len: "i < length ?next" "fin = start + int (length ?next) * BUCKET_MS" using step Cons.prems by auto
  show ?case
  proof (cases "in_bucket pk (start + int i * BUCKET_MS) row")
    case True
    then have "bucket_of (before @ [row]) (?next ! i)" using step bucket_of_snoc [OF Cons.prems(3)] by simp
    from Cons.IH [OF len this] show ?thesis using True step by simp
  next
    case False
    then have "bucket_of before (?next ! i)" using step Cons.prems(3) by simp
    from Cons.IH [OF len this] show ?thesis using False step by simp
  qed
qed simp

text \<open>
  C40. The timeline of a service is the last day in 48 half hours, without a gap and up to the half hour of
  \<open>now\<close>. Every half hour shows exactly the rows of the service that start in it, however they are ordered:
  the rounded means of their availabilities and of the latencies that were measured (nothing where there is none),
  and the state of the highest rank with the summary of a row in that state; it is unknown without rows.
\<close>

theorem timeline_shows_rows:
  assumes "i < BUCKET_COUNT"
    and "b = buildTimeline servicePk rows now ! i"
    and "own = filter (in_bucket servicePk (tb_start b)) rows"
  shows "length (buildTimeline servicePk rows now) = 48 \<and>
    tb_start b = (now div BUCKET_MS - 47 + int i) * BUCKET_MS \<and>
    tb_availability b = rounded_mean (map pq_availability own) \<and>
    tb_latency b = rounded_mean (List.map_filter pq_latency own) \<and>
    (\<forall>row \<in> set own. stateRank (normalizeState (pq_state row)) \<le> stateRank (tb_state b)) \<and>
    (if own = [] then tb_state b = ''unknown'' \<and> tb_summary b = None
     else \<exists>row \<in> set own. tb_state b = normalizeState (pq_state row) \<and> tb_summary b = Some (pq_summary row))"
proof -
  define fin where "fin = now div BUCKET_MS * BUCKET_MS + BUCKET_MS"
  define start where "start = fin - int BUCKET_COUNT * BUCKET_MS"
  define empty where "empty = map (\<lambda>i. \<lparr>ob_start = start + int i * BUCKET_MS, ob_hasRows = False, ob_state = ''unknown'',
    ob_availabilityTotal = 0, ob_availabilityCount = 0, ob_latencyTotal = 0, ob_latencyCount = 0,
    ob_summary = None\<rparr>) [0..<BUCKET_COUNT]"
  define ob where "ob = foldl (add_row servicePk start fin) empty rows ! i"
  have first: "i < length empty" "fin = start + int (length empty) * BUCKET_MS" "bucket_of [] (empty ! i)"
    and at_i: "ob_start (empty ! i) = start + int i * BUCKET_MS"
    using assms(1) by (simp_all add: empty_def start_def bucket_of_def List.map_filter_def)
  note all = fold_rows_nth [OF first, of servicePk rows, folded ob_def]
  have timeline: "buildTimeline servicePk rows now = map close_bucket (foldl (add_row servicePk start fin) empty rows)"
    by (simp add: buildTimeline_def Let_def fin_def start_def empty_def)
  have b: "b = close_bucket ob" using assms(1,2) all by (simp add: timeline ob_def empty_def)
  have "tb_start b = start + int i * BUCKET_MS" using all at_i by (simp add: b close_bucket_def)
  moreover from this have "bucket_of own ob" using all assms(3) by simp
  ultimately show ?thesis
    using all by (auto simp: b close_bucket_def bucket_of_def rounded_mean_def timeline empty_def start_def fin_def
        BUCKET_COUNT_def algebra_simps)
qed

definition sample_buckets :: "public_bucket list" where
  "sample_buckets =
     [\<lparr>pq_resourcePk = 7, pq_start = 86400000, pq_state = ''down'', pq_availability = 501, pq_latency = None,
       pq_summary = ''timeout''\<rparr>,
      \<lparr>pq_resourcePk = 8, pq_start = 86400000, pq_state = ''maintenance'', pq_availability = 0, pq_latency = Some 900,
       pq_summary = ''other''\<rparr>,
      \<lparr>pq_resourcePk = 7, pq_start = 86700000, pq_state = ''healthy'', pq_availability = 1000, pq_latency = Some 40,
       pq_summary = ''ok''\<rparr>]"

theorem timeline_shows_rows_witness:
  "buildTimeline 7 sample_buckets 86800000 ! 47 =
     \<lparr>tb_start = 86400000, tb_state = ''down'', tb_availability = Some 751, tb_latency = Some 40,
      tb_summary = Some ''timeout''\<rparr>"
proof -
  define b where "b = buildTimeline 7 sample_buckets 86800000 ! 47"
  have i: "(47 :: nat) < BUCKET_COUNT" by (simp add: BUCKET_COUNT_def)
  note facts = timeline_shows_rows [OF i b_def refl]
  then have start: "tb_start b = 86400000" by (simp add: BUCKET_MS_def)
  have own: "filter (in_bucket 7 (tb_start b)) sample_buckets = [sample_buckets ! 0, sample_buckets ! 2]"
    unfolding start by (simp add: in_bucket_def BUCKET_MS_def sample_buckets_def)
  have "stateRank ''down'' \<le> stateRank (tb_state b)" "tb_state b = ''down'' \<and> tb_summary b = Some ''timeout'' \<or>
      tb_state b = ''healthy'' \<and> tb_summary b = Some ''ok''"
    using facts unfolding own by (auto simp: sample_buckets_def normalizeState_def)
  moreover have "tb_availability b = Some 751" "tb_latency b = Some 40"
    using facts unfolding own
    by (simp_all add: sample_buckets_def rounded_mean_def round_div_def List.map_filter_def)
  ultimately show ?thesis
    using start unfolding b_def [symmetric] by (cases b) (auto simp: stateRank_def)
qed

end
