(* ===== verification/Incident_Management.thy ===== *)
theory Incident_Management
  imports Workspace_Access
begin

text \<open>
  Incidents and announcements: the pages that write them (\<open>apps/web/src/lib/server/incident-management.ts\<close>) and the
  page that shows them (\<open>incidents.ts\<close> and \<open>incident-updates.ts\<close> of \<open>packages/db/src/repositories\<close>). A member
  with the right to manage all affected services may write, and what a member sees is filtered by the
  conditions of \<open>Access_Query\<close>.
\<close>

section \<open>Statements\<close>

definition incident_exists :: "management \<Rightarrow> string \<Rightarrow> bool" where
  "incident_exists db iid \<longleftrightarrow> list_ex (\<lambda>i. in_id i = iid) (mg_incidents db)"

definition insert_incident :: "(management \<Rightarrow> bool) \<Rightarrow> incident_row \<Rightarrow> statement" where
  "insert_incident cond r n db =
     insert_if (cond db) (workspace_exists db (in_workspace r) \<and> user_exists db (in_created_by r))
       (\<lambda>a b. in_id a = in_id b) r (mg_incidents db) (\<lambda>t. db\<lparr>mg_incidents := t\<rparr>) db"

definition insert_update :: "(nat \<Rightarrow> management \<Rightarrow> bool) \<Rightarrow> incident_update \<Rightarrow> statement" where
  "insert_update cond r n db =
     insert_if (cond n db) (incident_exists db (iu_incident r) \<and> user_exists db (iu_created_by r))
       (\<lambda>a b. iu_id a = iu_id b) r (mg_updates db) (\<lambda>t. db\<lparr>mg_updates := t\<rparr>) db"

definition link_key :: "incident_link \<Rightarrow> string \<times> resource_type \<times> string" where
  "link_key l = (il_incident l, il_type l, il_resource l)"

definition insert_link :: "(management \<Rightarrow> bool) \<Rightarrow> incident_link \<Rightarrow> statement" where
  "insert_link cond r n db =
     insert_if (cond db) (incident_exists db (il_incident r)) (\<lambda>a b. link_key a = link_key b) r (mg_links db)
       (\<lambda>t. db\<lparr>mg_links := t\<rparr>) db"

definition insert_announcement :: "(management \<Rightarrow> bool) \<Rightarrow> announcement_row \<Rightarrow> statement" where
  "insert_announcement cond r n db =
     insert_if (cond db) (workspace_exists db (ar_workspace r) \<and> user_exists db (ar_created_by r))
       (\<lambda>a b. ar_id a = ar_id b) r (mg_announcements db) (\<lambda>t. db\<lparr>mg_announcements := t\<rparr>) db"

definition update_incidents ::
  "(management \<Rightarrow> incident_row \<Rightarrow> bool) \<Rightarrow> (incident_row \<Rightarrow> incident_row) \<Rightarrow> statement" where
  "update_incidents p f n db =
     Some (db\<lparr>mg_incidents := update_where (p db) f (mg_incidents db)\<rparr>, count_where (p db) (mg_incidents db))"

section \<open>Texts and the final condition on a set of services\<close>

definition MAX_INCIDENT_SERVICES :: nat where "MAX_INCIDENT_SERVICES = 20"

definition validText :: "string \<Rightarrow> nat \<Rightarrow> nat \<Rightarrow> string \<Rightarrow> string http" where
  "validText s minimum maximum label =
     (let trimmed = js_trim s
      in if js_length trimmed < minimum \<or> js_length trimmed > maximum
         then http_fail 400 (label @ '' must contain between '' @ nat_to_string minimum @ '' and '' @
                nat_to_string maximum @ '' characters'')
         else Inr trimmed)"

definition finalServiceSetManageCondition ::
  "monitoring_access \<Rightarrow> string \<Rightarrow> string list \<Rightarrow> management \<Rightarrow> bool" where
  "finalServiceSetManageCondition access actorUserId serviceIds db =
     (let w = ma_workspaceId access
      in if ma_role access = admin
         then is_active_admin db w actorUserId \<and>
           count_where (\<lambda>s. or_workspace s = w \<and> or_deleted_at s = None \<and> or_id s \<in> set serviceIds) (mg_services db) =
             length serviceIds
         else list_ex (\<lambda>m. mb_workspace m = w \<and> mb_user m = actorUserId \<and> mb_role m = member_role \<and>
             mb_status m = Active) (mg_memberships db) \<and>
           count_where (\<lambda>s. or_workspace s = w \<and> or_deleted_at s = None \<and> or_id s \<in> set serviceIds \<and>
               has_grant (or_workspace s) actorUserId service (or_id s) [manage] allow db \<and>
               \<not> has_grant (or_workspace s) actorUserId service (or_id s) [view, manage] deny db) (mg_services db) =
             length serviceIds)"

section \<open>Creating an incident\<close>

text \<open>A number that need not be an integer; NaN is \<open>None\<close>.\<close>

type_synonym number_input = "rat option"

definition safe_integer_input :: "number_input \<Rightarrow> int option" where
  "safe_integer_input v =
     (case v of Some x \<Rightarrow> if is_integer_num x \<and> is_safe_integer \<lfloor>x\<rfloor> then Some \<lfloor>x\<rfloor> else None | None \<Rightarrow> None)"

record incident_input =
  ci_title :: string
  ci_summary :: string
  ci_severity :: string
  ci_serviceIds :: "string list"
  ci_impact :: string
  ci_startsAt :: number_input

record incident_plan =
  cp_access :: monitoring_access
  cp_services :: "string list"
  cp_title :: string
  cp_summary :: string
  cp_startsAt :: int

text \<open>\<open>[...new Set(xs)]\<close>.\<close>

definition distinct_ids :: "string list \<Rightarrow> string list" where
  "distinct_ids xs = rev (remdups (rev xs))"

definition incident_creation ::
  "management \<Rightarrow> string \<Rightarrow> string \<Rightarrow> int \<Rightarrow> incident_input \<Rightarrow> incident_plan http" where
  "incident_creation db workspaceSlug userId now input =
     (let serviceIds = distinct_ids (ci_serviceIds input) in
     bind_result (http_require (serviceIds \<noteq> []) 400 ''Select at least one affected service'') (\<lambda>_.
     bind_result (http_require (\<not> length serviceIds > MAX_INCIDENT_SERVICES) 400
       (''An incident can affect at most '' @ nat_to_string MAX_INCIDENT_SERVICES @ '' services'')) (\<lambda>_.
     bind_result (http_require (ci_severity input \<in> {''minor'', ''major'', ''critical''}) 400
       ''Incident severity is invalid'') (\<lambda>_.
     bind_result (http_require (ci_impact input = ''degraded'' \<or> ci_impact input = ''down'') 400
       ''Incident impact is invalid'') (\<lambda>_.
     bind_result (http_some (case safe_integer_input (ci_startsAt input) of
         Some t \<Rightarrow> if t < now - 365 * 24 * 60 * 60000 \<or> t > now + 30 * 24 * 60 * 60000 then None else Some t
       | None \<Rightarrow> None) 400 ''Incident start time is outside the allowed range'') (\<lambda>startsAt.
     bind_result (validText (ci_title input) 2 120 ''Incident title'') (\<lambda>title.
     bind_result (validText (ci_summary input) 2 2000 ''Incident summary'') (\<lambda>summary.
     bind_result (loadMonitoringAccess db workspaceSlug userId) (\<lambda>access.
     let found = filter (\<lambda>s. or_workspace s = ma_workspaceId access \<and> or_deleted_at s = None \<and>
           or_id s \<in> set serviceIds) (mg_services db) in
     bind_result (http_require (\<not> (length found \<noteq> length serviceIds \<or>
         list_ex (\<lambda>sid. \<not> canAccessResource (ma_role access) (ma_grants access) service sid manage) serviceIds)) 404
       ''Service not found'') (\<lambda>_.
     Inr \<lparr>cp_access = access, cp_services = serviceIds, cp_title = title, cp_summary = summary,
          cp_startsAt = startsAt\<rparr>))))))))))"

definition new_incident :: "string \<Rightarrow> int \<Rightarrow> string \<Rightarrow> incident_input \<Rightarrow> incident_plan \<Rightarrow> incident_row" where
  "new_incident incidentId now userId input plan =
     \<lparr>in_id = incidentId, in_workspace = ma_workspaceId (cp_access plan), in_title = cp_title plan,
      in_summary = cp_summary plan, in_severity = ci_severity input, in_state = ''investigating'',
      in_starts_at = cp_startsAt plan, in_resolved_at = None, in_created_by = userId, in_created_at = now,
      in_updated_at = now, in_deleted_at = None\<rparr>"

definition first_update :: "string \<Rightarrow> string \<Rightarrow> int \<Rightarrow> string \<Rightarrow> incident_plan \<Rightarrow> incident_update" where
  "first_update updateId incidentId now userId plan =
     \<lparr>iu_id = updateId, iu_incident = incidentId, iu_state = ''investigating'', iu_body = cp_summary plan,
      iu_published_at = Some now, iu_created_by = userId, iu_created_at = now\<rparr>"

text \<open>\<open>EXISTS (SELECT 1 FROM incidents created WHERE created.id = ? AND created.workspace_id = ?)\<close>.\<close>

definition incident_created :: "string \<Rightarrow> string \<Rightarrow> management \<Rightarrow> bool" where
  "incident_created incidentId workspaceId db \<longleftrightarrow>
     list_ex (\<lambda>i. in_id i = incidentId \<and> in_workspace i = workspaceId) (mg_incidents db)"

definition incident_batch ::
  "string \<Rightarrow> string \<Rightarrow> int \<Rightarrow> string \<Rightarrow> incident_input \<Rightarrow> incident_plan \<Rightarrow> statement list" where
  "incident_batch incidentId updateId now userId input plan =
     (let created = incident_created incidentId (ma_workspaceId (cp_access plan)) in
     insert_incident (finalServiceSetManageCondition (cp_access plan) userId (cp_services plan))
       (new_incident incidentId now userId input plan) #
     insert_update (\<lambda>_. created) (first_update updateId incidentId now userId plan) #
     map (\<lambda>sid. insert_link created
         \<lparr>il_incident = incidentId, il_type = service, il_resource = sid, il_impact = ci_impact input\<rparr>)
       (cp_services plan))"

definition createIncident ::
  "string \<Rightarrow> string \<Rightarrow> int \<Rightarrow> management \<Rightarrow> string \<Rightarrow> string \<Rightarrow> incident_input \<Rightarrow> management \<Rightarrow>
   management \<times> string http" where
  "createIncident incidentId updateId now db0 workspaceSlug userId input =
     perform (incident_creation db0 workspaceSlug userId now input) (\<lambda>plan.
       commit_batch (incident_batch incidentId updateId now userId input plan)
         (\<lambda>ks. bind_result (http_require (hd ks = 1) 409 ''Incident access changed; reload and try again'')
            (\<lambda>_. Inr incidentId)))"

section \<open>Updating an incident\<close>

record update_plan =
  up_access :: monitoring_access
  up_services :: "string list"
  up_direct :: bool
  up_body :: string

definition incident_states :: "string list" where
  "incident_states = [''investigating'', ''identified'', ''monitoring'', ''resolved'']"

definition update_decision ::
  "management \<Rightarrow> string \<Rightarrow> string \<Rightarrow> string \<Rightarrow> string \<Rightarrow> string \<Rightarrow> update_plan http" where
  "update_decision db workspaceSlug userId incidentId state body =
     bind_result (loadMonitoringAccess db workspaceSlug userId) (\<lambda>access.
     bind_result (http_require (list_ex (\<lambda>i. in_id i = incidentId \<and> in_workspace i = ma_workspaceId access \<and>
         in_deleted_at i = None) (mg_incidents db)) 404 ''Incident not found'') (\<lambda>_.
     let resources = take (MAX_INCIDENT_SERVICES + 1) (incident_services db incidentId);
         decide = canAccessIncident (ma_role access) (ma_grants access) incidentId manage in
     bind_result (http_require (\<not> length resources > MAX_INCIDENT_SERVICES) 503
       ''Incident resource scope exceeds the supported limit'') (\<lambda>_.
     bind_result (http_require (decide (resources \<noteq> [] \<and>
         list_all (\<lambda>sid. canAccessResource (ma_role access) (ma_grants access) service sid manage) resources)) 404
       ''Incident not found'') (\<lambda>_.
     bind_result (http_require (state \<in> set incident_states) 400 ''Incident state is invalid'') (\<lambda>_.
     bind_result (validText body 2 4000 ''Incident update'') (\<lambda>trimmed.
     Inr \<lparr>up_access = access, up_services = resources, up_direct = decide False, up_body = trimmed\<rparr>))))))"

definition update_authorized :: "update_plan \<Rightarrow> string \<Rightarrow> management \<Rightarrow> incident_row \<Rightarrow> bool" where
  "update_authorized plan userId db i =
     (if up_direct plan
      then finalResourceCapabilityCondition (up_access plan) userId incident (in_workspace i) (in_id i) manage db
      else finalServiceSetManageCondition (up_access plan) userId (up_services plan) db)"

definition new_state :: "string \<Rightarrow> int \<Rightarrow> incident_row \<Rightarrow> incident_row" where
  "new_state state now i =
     i\<lparr>in_state := state, in_resolved_at := (if state = ''resolved'' then Some now else None), in_updated_at := now\<rparr>"

definition appendIncidentUpdate ::
  "string \<Rightarrow> int \<Rightarrow> management \<Rightarrow> string \<Rightarrow> string \<Rightarrow> string \<Rightarrow> string \<Rightarrow> string \<Rightarrow> management \<Rightarrow>
   management \<times> unit http" where
  "appendIncidentUpdate updateId now db0 workspaceSlug userId incidentId state body =
     perform (update_decision db0 workspaceSlug userId incidentId state body) (\<lambda>plan.
       commit_batch
         [update_incidents (\<lambda>db i. in_id i = incidentId \<and> in_workspace i = ma_workspaceId (up_access plan) \<and>
              in_deleted_at i = None \<and> update_authorized plan userId db i) (new_state state now),
          insert_update (\<lambda>n _. n = 1)
            \<lparr>iu_id = updateId, iu_incident = incidentId, iu_state = state, iu_body = up_body plan,
             iu_published_at = Some now, iu_created_by = userId, iu_created_at = now\<rparr>]
         (\<lambda>ks. http_require (hd ks = 1) 409 ''Incident access changed; reload and try again''))"

section \<open>Announcements\<close>

record announcement_input =
  ni_title :: string
  ni_body :: string
  ni_severity :: string
  ni_visibility :: string
  ni_startsAt :: number_input
  ni_expiresAt :: number_input

definition announcement_creation ::
  "string \<Rightarrow> int \<Rightarrow> management \<Rightarrow> string \<Rightarrow> string \<Rightarrow> announcement_input \<Rightarrow> announcement_row http" where
  "announcement_creation announcementId now db workspaceSlug userId input =
     bind_result (loadMonitoringAccess db workspaceSlug userId) (\<lambda>access.
     bind_result (requireAdmin access) (\<lambda>_.
     bind_result (http_require (\<not> (ni_severity input \<notin> {''info'', ''maintenance'', ''minor'', ''major'', ''critical''} \<or>
         ni_visibility input \<notin> {''private'', ''authenticated'', ''public''})) 400
       ''Announcement options are invalid'') (\<lambda>_.
     bind_result (http_some (case (safe_integer_input (ni_startsAt input), safe_integer_input (ni_expiresAt input)) of
         (Some s, Some e) \<Rightarrow> if e \<le> s \<or> e - s > 365 * 24 * 60 * 60000 then None else Some (s, e)
       | _ \<Rightarrow> None) 400 ''Announcement expiry must be after its start and within one year'') (\<lambda>(s, e).
     bind_result (validText (ni_title input) 2 120 ''Announcement title'') (\<lambda>title.
     bind_result (validText (ni_body input) 2 4000 ''Announcement body'') (\<lambda>body.
     Inr \<lparr>ar_id = announcementId, ar_workspace = ma_workspaceId access, ar_title = title, ar_body = body,
          ar_severity = ni_severity input, ar_visibility = ni_visibility input, ar_starts_at = s, ar_expires_at = e,
          ar_created_by = userId, ar_created_at = now, ar_updated_at = now, ar_deleted_at = None\<rparr>))))))"

definition createAnnouncement ::
  "string \<Rightarrow> int \<Rightarrow> management \<Rightarrow> string \<Rightarrow> string \<Rightarrow> announcement_input \<Rightarrow> management \<Rightarrow>
   management \<times> unit http" where
  "createAnnouncement announcementId now db0 workspaceSlug userId input =
     perform (announcement_creation announcementId now db0 workspaceSlug userId input) (\<lambda>r.
       commit_batch [insert_announcement (finalAdminCondition userId (ar_workspace r)) r]
         (\<lambda>ks. http_require (hd ks = 1) 409 ''Workspace access changed; reload and try again''))"

end
