(* ===== verification/Incident_Center.thy ===== *)
theory Incident_Center
  imports Incident_Management
begin

text \<open>
  The incident page of a workspace (\<open>packages/db/src/repositories/incidents.ts\<close>, with the latest updates of
  \<open>incident-updates.ts\<close> and the batches of \<open>d1-query-batches.ts\<close>). Every query carries the conditions of
  \<open>Access_Query\<close>, so the database filters what the user may see.
\<close>

section \<open>Queries in batches\<close>

definition D1_IN_BATCH_SIZE :: nat where "D1_IN_BATCH_SIZE = 90"

text \<open>The slices of ninety values; \<open>database.batch\<close> answers each statement with its rows, in order.\<close>

function batches :: "nat \<Rightarrow> 'v list \<Rightarrow> 'v list list" where
  "batches n values = (if values = [] \<or> n = 0 then [] else take n values # batches n (drop n values))"
  by auto
termination by (relation "measure (\<lambda>(n, values). length values)") auto

declare batches.simps [simp del]

definition queryInBatches :: "'v list \<Rightarrow> ('v list \<Rightarrow> 'r list) \<Rightarrow> 'r list" where
  "queryInBatches values query = concat (map query (batches D1_IN_BATCH_SIZE values))"

definition queryEachInBatches :: "'v list \<Rightarrow> ('v \<Rightarrow> 'r list) \<Rightarrow> 'r list" where
  "queryEachInBatches values query =
     foldl (\<lambda>rows batch. rows @ concat (map query batch)) [] (batches D1_IN_BATCH_SIZE values)"

section \<open>The latest updates\<close>

definition published_time :: "incident_update \<Rightarrow> int" where
  "published_time u = (case iu_published_at u of Some t \<Rightarrow> t | None \<Rightarrow> iu_created_at u)"

definition update_order :: "incident_update \<Rightarrow> int \<times> string" where
  "update_order u = (- published_time u, iu_id u)"

definition loadLatestIncidentUpdates ::
  "management \<Rightarrow> string list \<Rightarrow> int \<Rightarrow> int \<Rightarrow> incident_update list attempt" where
  "loadLatestIncidentUpdates db incidentIds perIncidentLimit globalLimit =
     (if \<not> is_safe_integer perIncidentLimit \<or> perIncidentLimit < 1 \<or> \<not> is_safe_integer globalLimit \<or> globalLimit < 1
      then raise_error ''incident update limits must be positive safe integers''
      else Inr (take (nat globalLimit) (sort_key update_order
        (queryEachInBatches incidentIds (\<lambda>iid.
           select_limit (\<lambda>u. iu_incident u = iid) update_order (nat perIncidentLimit) (mg_updates db))))))"

section \<open>The page\<close>

definition INCIDENT_UPDATES_PER_INCIDENT_LIMIT :: int where "INCIDENT_UPDATES_PER_INCIDENT_LIMIT = 50"
definition INCIDENT_UPDATES_GLOBAL_LIMIT :: int where "INCIDENT_UPDATES_GLOBAL_LIMIT = 500"
definition INCIDENT_SERVICES_LIMIT :: nat where "INCIDENT_SERVICES_LIMIT = 20"

record center_service =
  cs_id :: string
  cs_name :: string
  cs_canManage :: bool

record center_incident =
  cd_id :: string
  cd_title :: string
  cd_summary :: string
  cd_severity :: string
  cd_state :: string
  cd_startsAt :: int
  cd_resolvedAt :: "int option"
  cd_services :: "(string \<times> string \<times> string) list"
  cd_updates :: "(string \<times> string \<times> string \<times> int) list"
  cd_canManage :: bool

record center_announcement =
  cn_id :: string
  cn_title :: string
  cn_body :: string
  cn_severity :: string
  cn_startsAt :: int
  cn_expiresAt :: int
  cn_visibility :: string

record incident_center =
  ce_workspace :: "string \<times> string \<times> string \<times> workspace_role"
  ce_services :: "center_service list"
  ce_incidents :: "center_incident list"
  ce_announcements :: "center_announcement list"
  ce_canCreateIncident :: bool
  ce_canManageAnnouncements :: bool

text \<open>\<open>IncidentCenterNotFoundError\<close>, \<open>IncidentCenterDataError\<close>, and an exception of the updates.\<close>

datatype center_error = Center_not_found | Center_data_error | Center_exception js_error

definition center_services :: "resource_query_access \<Rightarrow> management \<Rightarrow> center_service list" where
  "center_services access db =
     map (\<lambda>s. \<lparr>cs_id = or_id s, cs_name = or_name s,
         cs_canManage = resourceCapabilityCondition access service (or_id s) manage db\<rparr>)
       (select_limit (\<lambda>s. or_workspace s = qa_workspaceId access \<and> or_deleted_at s = None \<and>
           resourceCapabilityCondition access service (or_id s) view db) or_name 200 (mg_services db))"

definition center_rows :: "resource_query_access \<Rightarrow> management \<Rightarrow> incident_row list" where
  "center_rows access db =
     select_limit (\<lambda>i. in_workspace i = qa_workspaceId access \<and> in_deleted_at i = None \<and>
         incidentViewCondition access (in_id i) db) (\<lambda>i. - in_starts_at i) 100 (mg_incidents db)"

definition center_links :: "string list \<Rightarrow> management \<Rightarrow> incident_link list" where
  "center_links incidentIds db =
     queryEachInBatches incidentIds (\<lambda>iid.
       select_limit (\<lambda>l. il_type l = service \<and> il_incident l = iid) il_resource (INCIDENT_SERVICES_LIMIT + 1)
         (mg_links db))"

text \<open>The loop that counts the services of every incident, and throws on too many.\<close>

fun count_links :: "(string \<Rightarrow> nat) \<Rightarrow> incident_link list \<Rightarrow> (string \<Rightarrow> nat) option" where
  "count_links counts [] = Some counts"
| "count_links counts (l # ls) =
     (let count = counts (il_incident l) + 1
      in if count > INCIDENT_SERVICES_LIMIT then None else count_links (counts(il_incident l := count)) ls)"

definition center_incident_of ::
  "(string \<Rightarrow> string option) \<Rightarrow> incident_link list \<Rightarrow> incident_update list \<Rightarrow> (incident_row \<Rightarrow> bool) \<Rightarrow> incident_row \<Rightarrow>
   center_incident" where
  "center_incident_of names links updates canManage i =
     \<lparr>cd_id = in_id i, cd_title = in_title i, cd_summary = in_summary i, cd_severity = in_severity i,
      cd_state = in_state i, cd_startsAt = in_starts_at i, cd_resolvedAt = in_resolved_at i,
      cd_services = map (\<lambda>l. (il_resource l,
          case names (il_resource l) of Some name \<Rightarrow> name | None \<Rightarrow> ''Service'', il_impact l))
        (filter (\<lambda>l. names (il_resource l) \<noteq> None) (filter (\<lambda>l. il_incident l = in_id i) links)),
      cd_updates = map (\<lambda>u. (iu_id u, iu_state u, iu_body u, published_time u))
        (filter (\<lambda>u. iu_incident u = in_id i) updates),
      cd_canManage = canManage i\<rparr>"

definition center_announcements :: "resource_query_access \<Rightarrow> int \<Rightarrow> management \<Rightarrow> center_announcement list" where
  "center_announcements access now db =
     map (\<lambda>a. \<lparr>cn_id = ar_id a, cn_title = ar_title a, cn_body = ar_body a, cn_severity = ar_severity a,
         cn_startsAt = ar_starts_at a, cn_expiresAt = ar_expires_at a, cn_visibility = ar_visibility a\<rparr>)
       (select_limit (\<lambda>a. ar_workspace a = qa_workspaceId access \<and> ar_deleted_at a = None \<and> ar_expires_at a > now \<and>
           (ar_starts_at a \<le> now \<or> qa_role access = admin) \<and>
           (ar_visibility a \<noteq> ''private'' \<or> qa_role access = admin)) (\<lambda>a. - ar_starts_at a) 100 (mg_announcements db))"

text \<open>A JavaScript \<open>Map\<close> of pairs keeps the last value of a key.\<close>

definition service_names :: "center_service list \<Rightarrow> string \<Rightarrow> string option" where
  "service_names services = map_of (rev (map (\<lambda>s. (cs_id s, cs_name s)) services))"

definition loadIncidentCenter :: "management \<Rightarrow> string \<Rightarrow> string \<Rightarrow> int \<Rightarrow> center_error + incident_center" where
  "loadIncidentCenter db workspaceSlug userId now =
     (case workspace_members (\<lambda>w m. we_slug w = workspaceSlug \<and> we_deleted_at w = None \<and> mb_user m = userId \<and>
             mb_status m = Active) db of
        [] \<Rightarrow> Inl Center_not_found
      | (w, m) # _ \<Rightarrow>
          let access = \<lparr>qa_workspaceId = we_id w, qa_userId = userId, qa_role = mb_role m\<rparr>;
              services = center_services access db;
              rows = center_rows access db;
              incidentIds = map in_id rows;
              links = center_links incidentIds db
          in case loadLatestIncidentUpdates db incidentIds INCIDENT_UPDATES_PER_INCIDENT_LIMIT
                 INCIDENT_UPDATES_GLOBAL_LIMIT of
               Inl e \<Rightarrow> Inl (Center_exception e)
             | Inr updates \<Rightarrow>
                 (case count_links (\<lambda>_. 0) links of
                    None \<Rightarrow> Inl Center_data_error
                  | Some _ \<Rightarrow> Inr
                      \<lparr>ce_workspace = (we_id w, we_name w, we_slug w, mb_role m), ce_services = services,
                       ce_incidents = map (center_incident_of (service_names services) links updates
                         (\<lambda>i. incidentManageCondition access (in_id i) db)) rows,
                       ce_announcements = center_announcements access now db,
                       ce_canCreateIncident = (mb_role m = admin \<or> list_ex cs_canManage services),
                       ce_canManageAnnouncements = (mb_role m = admin)\<rparr>))"

section \<open>Batches\<close>

lemma concat_batches: "concat (batches n xs) = xs" if "n \<noteq> 0"
  using that
proof (induction n xs rule: batches.induct)
  case (1 n xs)
  then show ?case by (subst batches.simps) auto
qed

text \<open>Reading in batches is reading one after the other.\<close>

lemma queryEachInBatches_concat: "queryEachInBatches xs query = concat (map query xs)"
proof -
  have fold: "foldl (\<lambda>rows batch. rows @ concat (map query batch)) rs bs = rs @ concat (map query (concat bs))" for rs bs
    by (induction bs arbitrary: rs) auto
  show ?thesis by (simp add: queryEachInBatches_def fold concat_batches D1_IN_BATCH_SIZE_def)
qed

lemma length_batches: "b \<in> set (batches n xs) \<Longrightarrow> 0 < length b \<and> length b \<le> n"
proof (induction n xs rule: batches.induct)
  case (1 n xs)
  then show ?case by (subst (asm) (2) batches.simps) (auto split: if_splits)
qed

end
