(* ===== verification/Incident_Correctness.thy ===== *)
theory Incident_Correctness
  imports Incident_Center Workspace_Correctness
begin

text \<open>
  Incidents: what a page commits is authorised by the database that it commits to, the state of an incident and
  its timeline stay in step whatever the users do at the same time, and the incident page shows a user only
  what the decision functions allow.
\<close>

section \<open>The state of an incident and its timeline\<close>

text \<open>The update of an incident that was written last.\<close>

definition latest_update :: "management \<Rightarrow> string \<Rightarrow> incident_update option" where
  "latest_update db iid =
     (case rev (filter (\<lambda>u. iu_incident u = iid) (mg_updates db)) of [] \<Rightarrow> None | u # _ \<Rightarrow> Some u)"

definition in_step :: "management \<Rightarrow> incident_row \<Rightarrow> bool" where
  "in_step db i \<longleftrightarrow>
     (case latest_update db (in_id i) of
        None \<Rightarrow> False
      | Some u \<Rightarrow> iu_state u = in_state i \<and> in_state i \<in> set incident_states \<and>
          in_resolved_at i = (if in_state i = ''resolved'' then iu_published_at u else None))"

definition well_incidents :: "management \<Rightarrow> bool" where
  "well_incidents db \<longleftrightarrow> keyed in_id (mg_incidents db) \<and>
     list_all (\<lambda>l. incident_exists db (il_incident l)) (mg_links db) \<and>
     list_all (\<lambda>u. incident_exists db (iu_incident u)) (mg_updates db) \<and>
     list_all (\<lambda>i. in_step db i \<and> length (incident_services db (in_id i)) \<le> MAX_INCIDENT_SERVICES) (mg_incidents db)"

section \<open>The batches\<close>

lemma link_inserts:
  assumes "run_batch (map (\<lambda>sid. insert_link cond (mk sid)) ids) n db = Some (db', ks)"
    and "\<And>d t. cond (d\<lparr>mg_links := t\<rparr>) = cond d"
  shows "db' = (if cond db then db\<lparr>mg_links := mg_links db @ map mk ids\<rparr> else db)"
  using assms(1)
proof (induction ids arbitrary: n db ks)
  case (Cons sid ids)
  then obtain db1 k ks' where first: "insert_link cond (mk sid) n db = Some (db1, k)"
    and rest: "run_batch (map (\<lambda>sid. insert_link cond (mk sid)) ids) k db1 = Some (db', ks')"
    unfolding list.map run_batch_Cons_iff by blast
  have "db1 = (if cond db then db\<lparr>mg_links := mg_links db @ [mk sid]\<rparr> else db)"
    using first by (auto simp: insert_link_def insert_if_Some split: if_splits)
  then show ?case using Cons.IH [OF rest] assms(2) by (cases "cond db") auto
qed simp

lemma incident_batch_cases:
  assumes "run_batch (incident_batch iid uid now user input plan) 0 db = Some (db', ks)" "\<not> incident_exists db iid"
  obtains (Created) "hd ks = 1" "finalServiceSetManageCondition (cp_access plan) user (cp_services plan) db"
      "db' = db\<lparr>mg_incidents := mg_incidents db @ [new_incident iid now user input plan],
        mg_updates := mg_updates db @ [first_update uid iid now user plan],
        mg_links := mg_links db @ map (\<lambda>sid. \<lparr>il_incident = iid, il_type = service, il_resource = sid,
          il_impact = ci_impact input\<rparr>) (cp_services plan)\<rparr>"
  | (Refused) "hd ks = 0" "db' = db"
proof -
  let ?w = "ma_workspaceId (cp_access plan)"
  let ?created = "incident_created iid ?w"
  obtain db1 k1 db2 k2 ks' where
    one: "insert_incident (finalServiceSetManageCondition (cp_access plan) user (cp_services plan))
        (new_incident iid now user input plan) 0 db = Some (db1, k1)"
    and two: "insert_update (\<lambda>_. ?created) (first_update uid iid now user plan) k1 db1 = Some (db2, k2)"
    and three: "run_batch (map (\<lambda>sid. insert_link ?created \<lparr>il_incident = iid, il_type = service, il_resource = sid,
        il_impact = ci_impact input\<rparr>) (cp_services plan)) k2 db2 = Some (db', ks')"
    and ks: "ks = k1 # k2 # ks'"
    using assms(1) unfolding incident_batch_def Let_def run_batch_Cons_iff by blast
  have links: "db' = (if ?created db2 then db2\<lparr>mg_links := mg_links db2 @ map (\<lambda>sid. \<lparr>il_incident = iid, il_type = service,
      il_resource = sid, il_impact = ci_impact input\<rparr>) (cp_services plan)\<rparr> else db2)"
    by (rule link_inserts [OF three]) (simp add: incident_created_def)
  have none: "\<not> ?created db" using assms(2) by (auto simp: incident_created_def incident_exists_def list_ex_iff)
  show ?thesis
  proof (cases "finalServiceSetManageCondition (cp_access plan) user (cp_services plan) db")
    case True
    then have db1: "db1 = db\<lparr>mg_incidents := mg_incidents db @ [new_incident iid now user input plan]\<rparr>" "k1 = 1"
      using one by (simp_all add: insert_incident_def insert_if_Some)
    have made: "?created db1" by (simp add: db1 incident_created_def new_incident_def)
    then have db2: "db2 = db1\<lparr>mg_updates := mg_updates db1 @ [first_update uid iid now user plan]\<rparr>"
      using two by (simp add: insert_update_def insert_if_Some)
    have "?created db2" using made by (simp add: db2 incident_created_def)
    then show ?thesis using Created True links ks db1(2) by (simp add: db2 db1(1))
  next
    case False
    then have db1: "db1 = db" "k1 = 0" using one by (simp_all add: insert_incident_def insert_if_Some)
    then have "db2 = db" using two none by (simp add: insert_update_def insert_if_Some)
    then show ?thesis using Refused links none ks db1(2) by simp
  qed
qed

lemma incident_creation_bound:
  "incident_creation db slug user now input = Inr plan \<Longrightarrow>
    cp_services plan = distinct_ids (ci_serviceIds input) \<and> length (cp_services plan) \<le> MAX_INCIDENT_SERVICES"
  by (auto simp: incident_creation_def Let_def http_require_def http_fail_def bind_result_def split: if_splits sum.splits)

section \<open>Every page keeps them in step\<close>

lemma latest_update_snoc:
  assumes "mg_updates db' = mg_updates db @ [u]"
  shows "latest_update db' i = (if iu_incident u = i then Some u else latest_update db i)"
  by (simp add: latest_update_def assms)

lemma latest_update_same: "mg_updates db' = mg_updates db \<Longrightarrow> latest_update db' i = latest_update db i"
  by (simp add: latest_update_def)

lemma no_update:
  assumes "well_incidents db" "\<not> incident_exists db iid"
  shows "incident_services db iid = []"
  using assms by (auto simp: well_incidents_def incident_services_def filter_empty_conv list_all_iff)

lemma well_created:
  assumes "well_incidents db" "\<not> incident_exists db iid" "length (cp_services plan) \<le> MAX_INCIDENT_SERVICES"
    and "db' = db\<lparr>mg_incidents := mg_incidents db @ [new_incident iid now user input plan],
        mg_updates := mg_updates db @ [first_update uid iid now user plan],
        mg_links := mg_links db @ map (\<lambda>sid. \<lparr>il_incident = iid, il_type = service, il_resource = sid,
          il_impact = ci_impact input\<rparr>) (cp_services plan)\<rparr>"
  shows "well_incidents db'"
proof -
  have latest: "latest_update db' i = (if i = iid then Some (first_update uid iid now user plan) else latest_update db i)" for i
    by (subst latest_update_snoc [of db' db "first_update uid iid now user plan"]) (auto simp: assms(4) first_update_def)
  have services: "incident_services db' i = (if i = iid then cp_services plan else incident_services db i)" for i
    using no_update [OF assms(1,2)] by (auto simp: assms(4) incident_services_def filter_map o_def)
  have exists: "incident_exists db' i \<longleftrightarrow> i = iid \<or> incident_exists db i" for i
    by (auto simp: assms(4) incident_exists_def new_incident_def)
  have "in_step db' (new_incident iid now user input plan)"
    unfolding in_step_def latest by (simp add: new_incident_def first_update_def incident_states_def)
  moreover have "in_step db' i \<longleftrightarrow> in_step db i" if "i \<in> set (mg_incidents db)" for i
  proof -
    have "in_id i \<noteq> iid" using that assms(2) by (auto simp: incident_exists_def list_ex_iff)
    then show ?thesis by (simp add: in_step_def latest)
  qed
  moreover have "keyed in_id (mg_incidents db')"
    using assms(1,2) unfolding assms(4)
    by (auto simp: well_incidents_def incident_exists_def new_incident_def list_ex_iff intro!: keyed_snoc)
  moreover have "list_all (\<lambda>l. incident_exists db' (il_incident l)) (mg_links db')"
    "list_all (\<lambda>u. incident_exists db' (iu_incident u)) (mg_updates db')"
    using assms(1) unfolding list_all_iff exists well_incidents_def by (auto simp: assms(4) first_update_def)
  moreover have "list_all (\<lambda>i. length (incident_services db' (in_id i)) \<le> MAX_INCIDENT_SERVICES) (mg_incidents db')"
    using assms(1,3) unfolding list_all_iff services well_incidents_def by (auto simp: assms(4) new_incident_def)
  moreover have "mg_incidents db' = mg_incidents db @ [new_incident iid now user input plan]" by (simp add: assms(4))
  ultimately show ?thesis
    using assms(1) unfolding well_incidents_def list_all_iff by (auto simp del: list_all_append)
qed

lemma create_well:
  assumes "createIncident iid uid now db0 slug user input db = (db', r)" "\<not> incident_exists db iid" "well_incidents db"
  shows "well_incidents db'"
proof (cases "incident_creation db0 slug user now input")
  case (Inl e)
  then show ?thesis using assms(1,3) by (simp add: createIncident_def perform_def)
next
  case plan: (Inr plan)
  show ?thesis
  proof (cases "run_batch (incident_batch iid uid now user input plan) 0 db")
    case None
    then show ?thesis using assms(1,3) plan by (simp add: createIncident_def perform_def commit_batch_def)
  next
    case (Some res)
    then obtain ks where run: "run_batch (incident_batch iid uid now user input plan) 0 db = Some (db', ks)"
      using assms(1) plan by (cases res) (simp add: createIncident_def perform_def commit_batch_def)
    from run assms(2) show ?thesis
    proof (rule incident_batch_cases)
      assume db': "db' = db\<lparr>mg_incidents := mg_incidents db @ [new_incident iid now user input plan],
        mg_updates := mg_updates db @ [first_update uid iid now user plan],
        mg_links := mg_links db @ map (\<lambda>sid. \<lparr>il_incident = iid, il_type = service, il_resource = sid,
          il_impact = ci_impact input\<rparr>) (cp_services plan)\<rparr>"
      show ?thesis by (rule well_created [OF assms(3,2) conjunct2 [OF incident_creation_bound [OF plan]] db'])
    qed (use assms(3) in simp)
  qed
qed

text \<open>What an update of an incident does: all of it or nothing.\<close>

lemma append_cases:
  assumes "appendIncidentUpdate uid now db0 slug user iid state body db = (db', r)" "keyed in_id (mg_incidents db)"
  obtains (Unchanged) e where "db' = db" "r = Inl e"
  | (Appended) plan i where "r = Inr ()" "update_decision db0 slug user iid state body = Inr plan" "i \<in> set (mg_incidents db)"
      "in_id i = iid" "in_workspace i = ma_workspaceId (up_access plan)" "in_deleted_at i = None"
      "update_authorized plan user db i"
      "db' = db\<lparr>mg_incidents := map (\<lambda>x. if in_id x = iid then new_state state now x else x) (mg_incidents db),
        mg_updates := mg_updates db @ [\<lparr>iu_id = uid, iu_incident = iid, iu_state = state, iu_body = up_body plan,
          iu_published_at = Some now, iu_created_by = user, iu_created_at = now\<rparr>]\<rparr>"
proof (cases "update_decision db0 slug user iid state body")
  case (Inl e)
  then show ?thesis using Unchanged [of e] assms(1) by (simp add: appendIncidentUpdate_def perform_def)
next
  case plan: (Inr plan)
  let ?p = "\<lambda>i. in_id i = iid \<and> in_workspace i = ma_workspaceId (up_access plan) \<and> in_deleted_at i = None \<and>
    update_authorized plan user db i"
  let ?u = "\<lparr>iu_id = uid, iu_incident = iid, iu_state = state, iu_body = up_body plan, iu_published_at = Some now,
    iu_created_by = user, iu_created_at = now\<rparr>"
  show ?thesis
  proof (cases "\<exists>i \<in> set (mg_incidents db). ?p i")
    case False
    then have none: "update_where ?p f (mg_incidents db) = mg_incidents db" "count_where ?p (mg_incidents db) = 0" for f
      using update_where_none [of "mg_incidents db" ?p f] unfolding count_where_zero by blast+
    show ?thesis
      by (rule Unchanged [where e = "Http 409 ''Incident access changed; reload and try again''"])
        (use assms(1) none in \<open>auto simp: appendIncidentUpdate_def perform_def plan commit_batch_def update_incidents_def
          insert_update_def insert_if_def http_require_def http_fail_def\<close>)
  next
    case True
    then obtain i where i: "i \<in> set (mg_incidents db)" "?p i" by blast
    have same: "?p x \<longleftrightarrow> in_id x = iid" if "x \<in> set (mg_incidents db)" for x
      using keyed_unique [OF assms(2) that i(1)] i(2) by auto
    have upd: "update_where ?p f (mg_incidents db) = map (\<lambda>x. if in_id x = iid then f x else x) (mg_incidents db)" for f
      unfolding update_where_def using same by (intro map_cong) auto
    have "count_where ?p (mg_incidents db) \<le> 1" by (rule count_where_key [OF assms(2)])
    moreover have "count_where ?p (mg_incidents db) \<noteq> 0" unfolding count_where_zero using i by blast
    ultimately have one: "count_where ?p (mg_incidents db) = 1" by linarith
    let ?db1 = "db\<lparr>mg_incidents := map (\<lambda>x. if in_id x = iid then new_state state now x else x) (mg_incidents db)\<rparr>"
    have run: "appendIncidentUpdate uid now db0 slug user iid state body db =
        commit_batch [\<lambda>_ _. Some (?db1, 1), insert_update (\<lambda>n _. n = 1) ?u]
          (\<lambda>ks. http_require (hd ks = 1) 409 ''Incident access changed; reload and try again'') db"
      by (simp add: appendIncidentUpdate_def perform_def plan commit_batch_def update_incidents_def upd one)
    show ?thesis
    proof (cases "insert_update (\<lambda>n _. n = 1) ?u 1 ?db1")
      case None
      then show ?thesis
        using Unchanged [of Database_error] assms(1) unfolding run by (simp add: commit_batch_def)
    next
      case (Some res)
      then have "res = (?db1\<lparr>mg_updates := mg_updates db @ [?u]\<rparr>, 1)"
        by (cases res) (auto simp: insert_update_def insert_if_Some)
      then show ?thesis
        using Appended [OF _ plan i(1)] i(2) assms(1) Some unfolding run
        by (simp add: commit_batch_def http_require_def)
    qed
  qed
qed

lemma update_decision_state:
  "update_decision db slug user iid state body = Inr plan \<Longrightarrow> state \<in> set incident_states"
  by (auto simp: update_decision_def Let_def http_require_def http_fail_def bind_result_def split: if_splits sum.splits)

lemma append_well:
  assumes "appendIncidentUpdate uid now db0 slug user iid state body db = (db', r)" "well_incidents db"
  shows "well_incidents db'"
proof -
  have keyed: "keyed in_id (mg_incidents db)" using assms(2) by (simp add: well_incidents_def)
  from assms(1) keyed show ?thesis
  proof (rule append_cases)
    fix plan i
    assume plan: "update_decision db0 slug user iid state body = Inr plan" and i: "i \<in> set (mg_incidents db)" "in_id i = iid"
      and db': "db' = db\<lparr>mg_incidents := map (\<lambda>x. if in_id x = iid then new_state state now x else x) (mg_incidents db),
        mg_updates := mg_updates db @ [\<lparr>iu_id = uid, iu_incident = iid, iu_state = state, iu_body = up_body plan,
          iu_published_at = Some now, iu_created_by = user, iu_created_at = now\<rparr>]\<rparr>"
    let ?u = "\<lparr>iu_id = uid, iu_incident = iid, iu_state = state, iu_body = up_body plan, iu_published_at = Some now,
      iu_created_by = user, iu_created_at = now\<rparr>"
    let ?f = "\<lambda>x. if in_id x = iid then new_state state now x else x"
    have latest: "latest_update db' k = (if k = iid then Some ?u else latest_update db k)" for k
      by (subst latest_update_snoc [of db' db ?u]) (auto simp: db')
    have ids: "map in_id (mg_incidents db') = map in_id (mg_incidents db)" by (simp add: db' new_state_def)
    then have exists: "incident_exists db' k \<longleftrightarrow> incident_exists db k" for k
      unfolding incident_exists_def list_ex_iff by (metis (mono_tags, lifting) imageE imageI list.set_map)
    have services: "incident_services db' k = incident_services db k" for k by (simp add: db' incident_services_def)
    have "in_step db' (?f x)" if "x \<in> set (mg_incidents db)" for x
      using that assms(2) update_decision_state [OF plan]
      by (auto simp: in_step_def latest new_state_def well_incidents_def list_all_iff)
    moreover have "length (incident_services db' (in_id (?f x))) \<le> MAX_INCIDENT_SERVICES" if "x \<in> set (mg_incidents db)" for x
    proof -
      have "in_id (?f x) = in_id x" by (simp add: new_state_def)
      then show ?thesis using that assms(2) unfolding services by (simp add: well_incidents_def list_all_iff)
    qed
    moreover have "mg_incidents db' = map ?f (mg_incidents db)" by (simp add: db')
    ultimately have "list_all (\<lambda>i. in_step db' i \<and> length (incident_services db' (in_id i)) \<le> MAX_INCIDENT_SERVICES)
        (mg_incidents db')"
      unfolding list_all_iff by (metis (no_types, lifting) imageE list.set_map)
    moreover have "keyed in_id (mg_incidents db')" using keyed ids by (simp add: keyed_def)
    moreover have "list_all (\<lambda>l. incident_exists db' (il_incident l)) (mg_links db')"
      "list_all (\<lambda>u. incident_exists db' (iu_incident u)) (mg_updates db')"
      using assms(2) i unfolding list_all_iff exists well_incidents_def
      by (auto simp: db' incident_exists_def list_ex_iff)
    ultimately show ?thesis unfolding well_incidents_def by blast
  qed (use assms(2) in simp)
qed

lemma announce_well:
  assumes "createAnnouncement aid now db0 slug user input db = (db', r)" "well_incidents db"
  shows "well_incidents db'"
proof -
  have "mg_incidents db' = mg_incidents db \<and> mg_updates db' = mg_updates db \<and> mg_links db' = mg_links db"
    using assms(1)
    by (auto simp: createAnnouncement_def perform_def commit_batch_def insert_announcement_def insert_if_def
        insert_unique_def split: sum.splits if_splits)
  then show ?thesis
    using assms(2)
    by (simp add: well_incidents_def in_step_def latest_update_def incident_services_def incident_exists_def list_all_iff)
qed

text \<open>
  The incident pages of any number of users as a state machine: each step is the commit of one page, with
  whatever it read before. \<open>crypto.randomUUID()\<close> gives an incident an identifier that is not in use.
\<close>

inductive incident_step :: "management \<Rightarrow> management \<Rightarrow> bool" where
  created: "createIncident iid uid now db0 slug user input db = (db', r) \<Longrightarrow> \<not> incident_exists db iid \<Longrightarrow>
    incident_step db db'"
| updated: "appendIncidentUpdate uid now db0 slug user iid state body db = (db', r) \<Longrightarrow> incident_step db db'"
| announced: "createAnnouncement aid now db0 slug user announcement db = (db', r) \<Longrightarrow> incident_step db db'"

inductive incident_reach :: "management \<Rightarrow> management \<Rightarrow> bool" for db where
  start: "incident_reach db db"
| step: "incident_reach db db1 \<Longrightarrow> incident_step db1 db2 \<Longrightarrow> incident_reach db db2"

lemma incident_step_well: "incident_step db db' \<Longrightarrow> well_incidents db \<Longrightarrow> well_incidents db'"
  by (induction rule: incident_step.induct) (auto intro: create_well append_well announce_well)

lemma incident_reach_well: "incident_reach db db' \<Longrightarrow> well_incidents db \<Longrightarrow> well_incidents db'"
  by (induction rule: incident_reach.induct) (auto intro: incident_step_well)

section \<open>The incident page does not break\<close>

lemma count_links_enough:
  assumes "\<And>k. counts k + length (filter (\<lambda>l. il_incident l = k) ls) \<le> INCIDENT_SERVICES_LIMIT"
  shows "count_links counts ls \<noteq> None"
  using assms
proof (induction ls arbitrary: counts)
  case (Cons l ls)
  have "\<not> counts (il_incident l) + 1 > INCIDENT_SERVICES_LIMIT"
    using Cons.prems [of "il_incident l"] by simp
  moreover have "count_links (counts(il_incident l := counts (il_incident l) + 1)) ls \<noteq> None"
  proof (rule Cons.IH)
    show "(counts(il_incident l := counts (il_incident l) + 1)) k + length (filter (\<lambda>l. il_incident l = k) ls) \<le>
        INCIDENT_SERVICES_LIMIT" for k
      using Cons.prems [of k] by (cases "il_incident l = k") simp_all
  qed
  ultimately show ?case by (simp add: Let_def)
qed simp

lemma filter_concat_key:
  assumes "distinct ids" "\<And>i x. x \<in> set (q i) \<Longrightarrow> key x = i"
  shows "filter (\<lambda>x. key x = k) (concat (map q ids)) = (if k \<in> set ids then q k else [])"
  using assms(1)
proof (induction ids)
  case (Cons i ids)
  have "filter (\<lambda>x. key x = k) (q i) = (if i = k then q i else [])"
    using assms(2) by (auto simp: filter_id_conv filter_empty_conv)
  then show ?case using Cons by auto
qed simp

lemma select_limit_set: "x \<in> set (select_limit p f n t) \<Longrightarrow> x \<in> set t \<and> p x"
  by (auto simp: select_limit_def dest: in_set_takeD)

lemma center_rows_distinct:
  assumes "keyed in_id (mg_incidents db)"
  shows "distinct (map in_id (center_rows access db))"
proof -
  have "distinct (map in_id (sort_key k (filter p (mg_incidents db))))" for p and k :: "incident_row \<Rightarrow> int"
  proof -
    have "distinct (map in_id (filter p (mg_incidents db)))"
      using assms by (simp add: keyed_def distinct_map_filter)
    then show ?thesis by (simp add: distinct_map inj_on_def)
  qed
  then have "distinct (take n (map in_id (sort_key k (filter p (mg_incidents db)))))"
    for n p and k :: "incident_row \<Rightarrow> int" by (rule distinct_take)
  then show ?thesis unfolding center_rows_def select_limit_def take_map .
qed

text \<open>Every link list that the page reads is one of the incident, of at most twenty services.\<close>

lemma count_links_center:
  assumes "well_incidents db"
  shows "count_links (\<lambda>_. 0) (center_links (map in_id (center_rows access db)) db) \<noteq> None"
proof (rule count_links_enough)
  fix k
  let ?q = "\<lambda>iid. select_limit (\<lambda>l. il_type l = service \<and> il_incident l = iid) il_resource (INCIDENT_SERVICES_LIMIT + 1)
    (mg_links db)"
  let ?ids = "map in_id (center_rows access db)"
  have "filter (\<lambda>l. il_incident l = k) (center_links ?ids db) = (if k \<in> set ?ids then ?q k else [])"
    unfolding center_links_def queryEachInBatches_concat
  proof (rule filter_concat_key)
    show "distinct ?ids" using assms by (intro center_rows_distinct) (simp add: well_incidents_def)
    show "il_incident l = i" if "l \<in> set (?q i)" for i l using select_limit_set [OF that] by blast
  qed
  moreover have "length (?q k) \<le> INCIDENT_SERVICES_LIMIT" if "k \<in> set ?ids"
  proof -
    from that obtain i where i: "i \<in> set (center_rows access db)" "in_id i = k" by auto
    have "i \<in> set (mg_incidents db)" using select_limit_set [OF i(1) [unfolded center_rows_def]] by blast
    then have "length (incident_services db k) \<le> MAX_INCIDENT_SERVICES"
      using assms i(2) by (auto simp: well_incidents_def list_all_iff)
    moreover have "length (?q k) \<le> length (incident_services db k)"
      by (simp add: select_limit_def incident_services_def conj_commute)
    ultimately show ?thesis by (simp add: MAX_INCIDENT_SERVICES_def INCIDENT_SERVICES_LIMIT_def)
  qed
  ultimately show "0 + length (filter (\<lambda>l. il_incident l = k) (center_links ?ids db)) \<le> INCIDENT_SERVICES_LIMIT"
    by simp
qed

lemma loadLatestIncidentUpdates_ok:
  "\<exists>us. loadLatestIncidentUpdates db ids INCIDENT_UPDATES_PER_INCIDENT_LIMIT INCIDENT_UPDATES_GLOBAL_LIMIT = Inr us"
  by (simp add: loadLatestIncidentUpdates_def INCIDENT_UPDATES_PER_INCIDENT_LIMIT_def
      INCIDENT_UPDATES_GLOBAL_LIMIT_def is_safe_integer_def max_safe_integer_def)

section \<open>A sample\<close>

text \<open>A workspace without incidents, and a member who reports one of the service that he may manage.\<close>

definition sample_quiet :: management where
  "sample_quiet = sample_management\<lparr>mg_links := []\<rparr>"

definition sample_incident :: incident_input where
  "sample_incident = \<lparr>ci_title = ''Outage'', ci_summary = '' Down '', ci_severity = ''major'', ci_serviceIds = [''s1'', ''s1''],
     ci_impact = ''down'', ci_startsAt = Some 5\<rparr>"

definition sample_reported :: management where
  "sample_reported = fst (createIncident ''i1'' ''p1'' 5 sample_quiet ''home'' ''u'' sample_incident sample_quiet)"

definition sample_resolved :: management where
  "sample_resolved =
     fst (appendIncidentUpdate ''p2'' 9 sample_reported ''home'' ''u'' ''i1'' ''resolved'' ''Fixed'' sample_reported)"

lemma sample_quiet_ok:
  "well_incidents sample_quiet" "keyed or_id (mg_services sample_quiet)" "keyed membership_key (mg_memberships sample_quiet)"
  "\<not> incident_exists sample_quiet iid"
  by (simp_all add: sample_quiet_def sample_management_def sample_members_def well_incidents_def keyed_def
      membership_key_def incident_exists_def)

lemma sample_created: "snd (createIncident ''i1'' ''p1'' 5 sample_quiet ''home'' ''u'' sample_incident sample_quiet) = Inr ''i1''"
  by code_simp

lemma incident_sample_reach: "incident_reach sample_quiet sample_resolved"
proof (rule incident_reach.step [OF incident_reach.step [OF incident_reach.start]])
  show "incident_step sample_quiet sample_reported"
    unfolding sample_reported_def by (rule incident_step.created [OF prod.collapse [symmetric] sample_quiet_ok(4)])
  show "incident_step sample_reported sample_resolved"
    unfolding sample_resolved_def by (rule incident_step.updated [OF prod.collapse [symmetric]])
qed

text \<open>
  C36. The timeline of an incident and its state never part. However many users create and update incidents at the
  same time, each on the strength of what it has read earlier: the state of every incident is the state of the
  update that was written last, it is resolved at the time of that update and only then, and no incident affects
  more than twenty services. Therefore the incident page never meets the data it refuses: it is shown to every
  member of the workspace.
\<close>

theorem incident_timeline_in_step:
  assumes "incident_reach db db'" "well_incidents db"
  shows "well_incidents db' \<and>
    (loadIncidentCenter db' slug user now = Inl e \<longrightarrow>
     e = Center_not_found \<and> loadMonitoringAccess db' slug user = Inl (Http 404 ''Workspace not found''))"
proof -
  have well: "well_incidents db'" using incident_reach_well assms by blast
  obtain counted where counted:
      "count_links (\<lambda>_. 0) (center_links (map in_id (center_rows access db')) db') = Some (counted access)" for access
    by (rule that [of "\<lambda>access. the (count_links (\<lambda>_. 0) (center_links (map in_id (center_rows access db')) db'))"])
      (rule option.collapse [symmetric], rule count_links_center [OF well])
  obtain us where us: "loadLatestIncidentUpdates db' ids INCIDENT_UPDATES_PER_INCIDENT_LIMIT INCIDENT_UPDATES_GLOBAL_LIMIT =
      Inr (us ids)" for ids
    using loadLatestIncidentUpdates_ok by metis
  show ?thesis
    using well
    by (auto simp: loadIncidentCenter_def us counted loadMonitoringAccess_def http_fail_def Let_def split: list.splits)
qed

theorem incident_timeline_in_step_witness:
  "map in_state (mg_incidents sample_resolved) = [''resolved''] \<and> map in_resolved_at (mg_incidents sample_resolved) = [Some 9] \<and>
   well_incidents sample_resolved \<and> loadIncidentCenter sample_resolved ''home'' ''u'' 9 \<noteq> Inl Center_data_error"
proof -
  have "map in_state (mg_incidents sample_resolved) = [''resolved'']" "map in_resolved_at (mg_incidents sample_resolved) = [Some 9]"
    by code_simp+
  then show ?thesis using incident_timeline_in_step [OF incident_sample_reach sample_quiet_ok(1)] by blast
qed

section \<open>What is committed is authorised now\<close>

lemma set_distinct_ids [simp]: "set (distinct_ids xs) = set xs" "distinct (distinct_ids xs)"
  by (simp_all add: distinct_ids_def)

text \<open>As many rows as identifiers: every identifier has its row.\<close>

lemma counted_rows:
  assumes "keyed key t" "count_where p t = length ids" "distinct ids" "\<And>r. p r \<Longrightarrow> key r \<in> set ids"
    and "k \<in> set ids"
  shows "\<exists>r \<in> set t. p r \<and> key r = k"
proof -
  let ?keys = "map key (filter p t)"
  have "distinct ?keys" using assms(1) by (simp add: keyed_def distinct_map_filter)
  then have "card (set ?keys) = length ids" using distinct_card [of ?keys] assms(2) by (simp add: count_where_def)
  moreover have "card (set ids) = length ids" using assms(3) by (rule distinct_card)
  moreover have "set ?keys \<subseteq> set ids" using assms(4) by auto
  ultimately have "set ?keys = set ids" by (metis List.finite_set card_subset_eq)
  then have "k \<in> key ` set (filter p t)" using assms(5) by simp
  then show ?thesis by auto
qed

lemma final_services_current:
  assumes "finalServiceSetManageCondition stale u ids db" "distinct ids" "sid \<in> set ids"
    and "keyed or_id (mg_services db)" "keyed membership_key (mg_memberships db)"
    and "loadMonitoringAccess db slug u = Inr fresh" "ma_workspaceId fresh = ma_workspaceId stale"
  shows "ma_role fresh = ma_role stale \<and> sid \<in> set (live_services db (ma_workspaceId stale)) \<and>
    canAccessResource (ma_role fresh) (ma_grants fresh) service sid manage"
proof -
  let ?w = "ma_workspaceId stale"
  obtain m where m: "m \<in> set (mg_memberships db)" "membership_key m = (?w, u)" "mb_role m = ma_role fresh"
    using assms(6,7) by (elim loadMonitoringAccess_InrD) (auto simp: membership_key_def)
  obtain r where r: "r \<in> set (mg_memberships db)" "membership_key r = (?w, u)" "mb_role r = ma_role stale"
    using assms(1) unfolding finalServiceSetManageCondition_def Let_def
    by (cases "ma_role stale")
      (auto simp: is_active_admin_def active_admin_def list_ex_iff membership_key_def split: if_splits)
  have role: "ma_role fresh = ma_role stale" using keyed_unique [OF assms(5) m(1) r(1)] m r by simp
  have live: "sid \<in> set (live_services db ?w) \<and> (ma_role stale = admin \<or>
      has_grant ?w u service sid [manage] allow db \<and> \<not> has_grant ?w u service sid [view, manage] deny db)"
  proof (cases "ma_role stale")
    case admin
    then have "count_where (\<lambda>s. or_workspace s = ?w \<and> or_deleted_at s = None \<and> or_id s \<in> set ids) (mg_services db) = length ids"
      using assms(1) by (simp add: finalServiceSetManageCondition_def Let_def)
    then show ?thesis
      using counted_rows [OF assms(4) _ assms(2) _ assms(3)] admin
      by (fastforce simp: live_services_def)
  next
    case member_role
    then have "count_where (\<lambda>s. or_workspace s = ?w \<and> or_deleted_at s = None \<and> or_id s \<in> set ids \<and>
        has_grant (or_workspace s) u service (or_id s) [manage] allow db \<and>
        \<not> has_grant (or_workspace s) u service (or_id s) [view, manage] deny db) (mg_services db) = length ids"
      using assms(1) by (simp add: finalServiceSetManageCondition_def Let_def)
    then obtain s where "s \<in> set (mg_services db)" "or_workspace s = ?w" "or_deleted_at s = None" "or_id s = sid"
      "has_grant ?w u service sid [manage] allow db" "\<not> has_grant ?w u service sid [view, manage] deny db"
      using counted_rows [OF assms(4) _ assms(2) _ assms(3)] by fastforce
    then show ?thesis by (force simp: live_services_def)
  qed
  have "canAccessResource (ma_role fresh) (ma_grants fresh) service sid manage"
    using live role loaded_grants [OF assms(6)] assms(7) allow_iff [of ?w u service sid manage db]
      deny_iff [of ?w u service sid manage db]
    by (auto simp: canAccessResource_iff allowedCapabilities_def deniedCapabilities_def)
  then show ?thesis using role live by blast
qed

text \<open>
  C37. An incident is created completely and on current authority, or not at all. When the page returns, the
  incident has its first update, exactly the selected services, each once, and a user who loads his access to
  the workspace from the database that the incident was committed to still may manage every one of them, and
  none of them is deleted, whatever has changed since the page read. When the page throws, nothing was written.
\<close>

theorem incident_commits_current:
  assumes "createIncident iid uid now db0 slug user input db = (db', r)" "\<not> incident_exists db iid"
    and "well_incidents db" "keyed or_id (mg_services db)" "keyed membership_key (mg_memberships db)"
  shows "case r of
      Inl e \<Rightarrow> db' = db
    | Inr i \<Rightarrow> i = iid \<and> incident_services db' iid = distinct_ids (ci_serviceIds input) \<and>
        map_option iu_state (latest_update db' iid) = Some ''investigating'' \<and>
        (\<exists>w. incident_created iid w db' \<and>
          (\<forall>slug' fresh sid. loadMonitoringAccess db slug' user = Inr fresh \<and> ma_workspaceId fresh = w \<and>
             sid \<in> set (ci_serviceIds input) \<longrightarrow>
             sid \<in> set (live_services db w) \<and> canAccessResource (ma_role fresh) (ma_grants fresh) service sid manage))"
proof (cases "incident_creation db0 slug user now input")
  case (Inl e)
  then show ?thesis using assms(1) by (auto simp: createIncident_def perform_def)
next
  case plan: (Inr plan)
  note ids = conjunct1 [OF incident_creation_bound [OF plan]]
  show ?thesis
  proof (cases "run_batch (incident_batch iid uid now user input plan) 0 db")
    case None
    then show ?thesis using assms(1) plan by (auto simp: createIncident_def perform_def commit_batch_def)
  next
    case (Some res)
    then obtain ks where run: "run_batch (incident_batch iid uid now user input plan) 0 db = Some (db', ks)"
      and r: "r = bind_result (http_require (hd ks = 1) 409 ''Incident access changed; reload and try again'') (\<lambda>_. Inr iid)"
      using assms(1) plan by (cases res) (simp add: createIncident_def perform_def commit_batch_def)
    from run assms(2) show ?thesis
    proof (rule incident_batch_cases)
      assume ok: "hd ks = 1" and final: "finalServiceSetManageCondition (cp_access plan) user (cp_services plan) db"
        and db': "db' = db\<lparr>mg_incidents := mg_incidents db @ [new_incident iid now user input plan],
          mg_updates := mg_updates db @ [first_update uid iid now user plan],
          mg_links := mg_links db @ map (\<lambda>sid. \<lparr>il_incident = iid, il_type = service, il_resource = sid,
            il_impact = ci_impact input\<rparr>) (cp_services plan)\<rparr>"
      have "incident_services db' iid = cp_services plan"
        using no_update [OF assms(3,2)] by (simp add: db' incident_services_def filter_map o_def)
      moreover have "latest_update db' iid = Some (first_update uid iid now user plan)"
        by (subst latest_update_snoc [of db' db "first_update uid iid now user plan"]) (simp_all add: db' first_update_def)
      moreover have "incident_created iid (ma_workspaceId (cp_access plan)) db'"
        by (simp add: db' incident_created_def new_incident_def)
      moreover have "sid \<in> set (live_services db (ma_workspaceId (cp_access plan))) \<and>
          canAccessResource (ma_role fresh) (ma_grants fresh) service sid manage"
        if "loadMonitoringAccess db slug' user = Inr fresh" "ma_workspaceId fresh = ma_workspaceId (cp_access plan)"
          "sid \<in> set (ci_serviceIds input)" for slug' fresh sid
      proof -
        have "sid \<in> set (cp_services plan)" "distinct (cp_services plan)" using that(3) ids by simp_all
        then show ?thesis using final_services_current [OF final _ _ assms(4,5) that(1,2), of sid] by blast
      qed
      ultimately show ?thesis using ids ok r by (auto simp: http_require_def first_update_def)
    qed (use r in \<open>auto simp: http_require_def http_fail_def\<close>)
  qed
qed

theorem incident_commits_current_witness:
  "incident_services sample_reported ''i1'' = [''s1''] \<and>
   map_option iu_state (latest_update sample_reported ''i1'') = Some ''investigating''"
proof -
  have "distinct_ids (ci_serviceIds sample_incident) = [''s1'']" by code_simp
  then show ?thesis
    using incident_commits_current [OF prod.collapse [symmetric] sample_quiet_ok(4,1,2,3), of "''i1''" "''p1''" 5 sample_quiet
        "''home''" "''u''" sample_incident] sample_created
    by (simp add: sample_reported_def)
qed

section \<open>The incident page shows what the user may see\<close>

lemma center_parts:
  assumes "loadIncidentCenter db slug user now = Inr center" "loadMonitoringAccess db slug user = Inr access"
  obtains links updates where
    "ce_incidents center = map (center_incident_of (service_names (center_services (query_access access user) db)) links updates
        (\<lambda>i. incidentManageCondition (query_access access user) (in_id i) db)) (center_rows (query_access access user) db)"
    "links = center_links (map in_id (center_rows (query_access access user) db)) db"
    "ce_announcements center = center_announcements (query_access access user) now db"
proof -
  obtain w m rest where rows: "workspace_members (\<lambda>w m. we_slug w = slug \<and> we_deleted_at w = None \<and> mb_user m = user \<and>
      mb_status m = Active) db = (w, m) # rest"
    using assms(2) by (auto simp: loadMonitoringAccess_def http_fail_def split: list.splits)
  have access: "query_access access user = \<lparr>qa_workspaceId = we_id w, qa_userId = user, qa_role = mb_role m\<rparr>"
    using assms(2) rows
    by (auto simp: loadMonitoringAccess_def http_fail_def query_access_def Let_def split: if_splits)
  obtain us where us: "loadLatestIncidentUpdates db (map in_id (center_rows (query_access access user) db))
      INCIDENT_UPDATES_PER_INCIDENT_LIMIT INCIDENT_UPDATES_GLOBAL_LIMIT = Inr us"
    using loadLatestIncidentUpdates_ok by blast
  show ?thesis
    by (rule that [OF _ refl, where updates = us])
      (use assms(1) rows us in \<open>auto simp: loadIncidentCenter_def Let_def access split: option.splits\<close>)
qed

lemma service_names_Some:
  assumes "service_names services sid = Some name"
  shows "\<exists>s \<in> set services. cs_id s = sid \<and> cs_name s = name"
  using map_of_SomeD [OF assms [unfolded service_names_def]] by auto

lemma center_services_in:
  assumes "s \<in> set (center_services access db)"
  obtains r where "r \<in> set (mg_services db)" "cs_id s = or_id r" "cs_name s = or_name r"
    "or_workspace r = qa_workspaceId access" "or_deleted_at r = None"
    "resourceCapabilityCondition access service (or_id r) view db"
  using assms select_limit_set unfolding center_services_def by fastforce

lemma center_links_in: "l \<in> set (center_links ids db) \<Longrightarrow> il_resource l \<in> set (incident_services db (il_incident l))"
  unfolding center_links_def queryEachInBatches_concat incident_services_def
  by (auto dest!: select_limit_set)

text \<open>
  C38. The incident page discloses nothing that the decision functions withhold. Every incident on it is one of the
  workspace that was not deleted and that the user may view, directly or through a visible service; the page
  offers to manage it exactly when the user may; every affected service it names is a live service
  that the user may view; and a member sees no private announcement and none before its time.
\<close>

theorem incident_center_filters:
  assumes "loadIncidentCenter db slug user now = Inr center" "loadMonitoringAccess db slug user = Inr access"
  shows "list_all (\<lambda>c.
      list_ex (\<lambda>i. in_id i = cd_id c \<and> in_workspace i = ma_workspaceId access \<and> in_deleted_at i = None) (mg_incidents db) \<and>
      canAccessIncident (ma_role access) (ma_grants access) (cd_id c) view
        (list_ex (\<lambda>sid. sid \<in> set (live_services db (ma_workspaceId access)) \<and>
           canAccessResource (ma_role access) (ma_grants access) service sid view) (incident_services db (cd_id c))) \<and>
      cd_canManage c = canAccessIncident (ma_role access) (ma_grants access) (cd_id c) manage
        (incident_services db (cd_id c) \<noteq> [] \<and>
         list_all (\<lambda>sid. canAccessResource (ma_role access) (ma_grants access) service sid manage)
           (incident_services db (cd_id c))) \<and>
      list_all (\<lambda>(sid, name, impact). sid \<in> set (incident_services db (cd_id c)) \<and>
          list_ex (\<lambda>s. or_id s = sid \<and> or_name s = name \<and> or_workspace s = ma_workspaceId access \<and> or_deleted_at s = None)
            (mg_services db) \<and>
          canAccessResource (ma_role access) (ma_grants access) service sid view) (cd_services c)) (ce_incidents center) \<and>
    (ma_role access = admin \<or>
     list_all (\<lambda>a. cn_visibility a \<noteq> ''private'' \<and> cn_startsAt a \<le> now) (ce_announcements center))"
proof -
  let ?qa = "query_access access user"
  note agree = conditions_agree [OF assms(2)]
  obtain links updates where incidents: "ce_incidents center = map (center_incident_of (service_names (center_services ?qa db))
        links updates (\<lambda>i. incidentManageCondition ?qa (in_id i) db)) (center_rows ?qa db)"
    and links: "links = center_links (map in_id (center_rows ?qa db)) db"
    and announcements: "ce_announcements center = center_announcements ?qa now db"
    using center_parts [OF assms] by blast
  have ws: "qa_workspaceId ?qa = ma_workspaceId access" "qa_role ?qa = ma_role access"
    by (simp_all add: query_access_def)
  have shown: "i \<in> set (mg_incidents db) \<and> in_workspace i = ma_workspaceId access \<and> in_deleted_at i = None \<and>
      incidentViewCondition ?qa (in_id i) db" if "i \<in> set (center_rows ?qa db)" for i
    using select_limit_set [OF that [unfolded center_rows_def]] ws by simp
  have named: "list_ex (\<lambda>s. or_id s = sid \<and> or_name s = name \<and> or_workspace s = ma_workspaceId access \<and> or_deleted_at s = None)
        (mg_services db) \<and> canAccessResource (ma_role access) (ma_grants access) service sid view"
    if "service_names (center_services ?qa db) sid = Some name" for sid name
  proof -
    from service_names_Some [OF that]
    obtain s where s: "s \<in> set (center_services ?qa db)" "cs_id s = sid" "cs_name s = name" by blast
    then show ?thesis
      using agree ws by (elim center_services_in) (auto simp: list_ex_iff)
  qed
  have "cn_visibility a \<noteq> ''private'' \<and> cn_startsAt a \<le> now"
    if "a \<in> set (ce_announcements center)" "ma_role access \<noteq> admin" for a
    using that ws unfolding announcements center_announcements_def by (auto dest!: select_limit_set)
  moreover have "list_all (\<lambda>(sid, name, impact). sid \<in> set (incident_services db (in_id i)) \<and>
      list_ex (\<lambda>s. or_id s = sid \<and> or_name s = name \<and> or_workspace s = ma_workspaceId access \<and> or_deleted_at s = None)
        (mg_services db) \<and> canAccessResource (ma_role access) (ma_grants access) service sid view)
      (cd_services (center_incident_of (service_names (center_services ?qa db)) links updates c i))" for i c
    using named center_links_in unfolding links by (fastforce simp: list_all_iff center_incident_of_def)
  ultimately show ?thesis
    using shown agree unfolding incidents list_all_iff
    by (auto simp: center_incident_of_def list_ex_iff)
qed

theorem incident_center_filters_witness:
  "\<exists>center. loadIncidentCenter sample_resolved ''home'' ''u'' 9 = Inr center \<and>
    map cd_id (ce_incidents center) = [''i1''] \<and> map cd_canManage (ce_incidents center) = [True] \<and>
    canAccessIncident member_role (ma_grants sample_access) ''i1'' view
      (canAccessResource member_role (ma_grants sample_access) service ''s1'' view)"
proof -
  have page: "map_sum id (\<lambda>c. map cd_id (ce_incidents c)) (loadIncidentCenter sample_resolved ''home'' ''u'' 9) = Inr [''i1'']"
    by code_simp
  obtain center where center: "loadIncidentCenter sample_resolved ''home'' ''u'' 9 = Inr center"
      "map cd_id (ce_incidents center) = [''i1'']"
    using page by (cases "loadIncidentCenter sample_resolved ''home'' ''u'' 9") auto
  obtain c where c: "ce_incidents center = [c]" "cd_id c = ''i1''" using center(2) by auto
  have load: "loadMonitoringAccess sample_resolved ''home'' ''u'' = Inr sample_access" by code_simp
  have db: "incident_services sample_resolved ''i1'' = [''s1''] \<and> live_services sample_resolved ''w'' = [''s1'', ''s2'']"
    by code_simp
  have "canAccessIncident member_role (ma_grants sample_access) ''i1'' view
      (canAccessResource member_role (ma_grants sample_access) service ''s1'' view)" "cd_canManage c"
    using incident_center_filters [OF center(1) load] db
    by (auto simp: c sample_access_def canAccessIncident_def canAccessResource_def allowsCapability_def deniesCapability_def)
  then show ?thesis using center c by simp
qed

end
