(* ===== verification/History_Cursor.thy ===== *)
theory History_Cursor
  imports Ticket_Correctness
begin

text \<open>
  The cursors with which the history pages continue (\<open>packages/db/src/repositories/history-cursor.ts\<close>): a JSON
  object in base64url that names the resolution and the last timestamp. JSON text is the parameter of the
  platform.
\<close>

datatype history_resolution = Raw | Five_minutes | One_hour

fun resolution_text :: "history_resolution \<Rightarrow> string" where
  "resolution_text Raw = ''raw''"
| "resolution_text Five_minutes = ''5m''"
| "resolution_text One_hour = ''1h''"

datatype history_error = HistoryCursorError

definition isResolution :: "json option \<Rightarrow> bool" where
  "isResolution v \<longleftrightarrow> v = Some (JStr ''raw'') \<or> v = Some (JStr ''5m'') \<or> v = Some (JStr ''1h'')"

definition cursor_json :: "history_resolution \<Rightarrow> int \<Rightarrow> json" where
  "cursor_json res lastTime =
     JObj [(''v'', JNum 1), (''resolution'', JStr (resolution_text res)), (''last'', JNum (of_int lastTime))]"

text \<open>A number that need not be an integer; NaN and the infinities are \<open>None\<close>.\<close>

definition encodeHistoryCursor :: "platform \<Rightarrow> history_resolution \<Rightarrow> rat option \<Rightarrow> history_error + string" where
  "encodeHistoryCursor pf res lastTime =
     (case lastTime of
        None \<Rightarrow> Inl HistoryCursorError
      | Some x \<Rightarrow>
          if \<not> (is_integer_num x \<and> is_safe_integer \<lfloor>x\<rfloor>) \<or> x < 0 then Inl HistoryCursorError
          else Inr (encodeBase64Url (text_encode (JSON_stringify pf (cursor_json res \<lfloor>x\<rfloor>)))))"

text \<open>The checks of the parsed value; every exception in the \<open>try\<close> block becomes the error of the cursor.\<close>

definition cursor_last :: "json \<Rightarrow> history_resolution \<Rightarrow> history_error + int" where
  "cursor_last parsed res =
     (case parsed of
        JObj props \<Rightarrow>
          (case jfield props ''last'' of
             Some (JNum x) \<Rightarrow>
               if length props \<noteq> 3 \<or> jfield props ''v'' \<noteq> Some (JNum 1) \<or> \<not> isResolution (jfield props ''resolution'') \<or>
                  jfield props ''resolution'' \<noteq> Some (JStr (resolution_text res)) \<or>
                  \<not> (is_integer_num x \<and> is_safe_integer \<lfloor>x\<rfloor>) \<or> x < 0
               then Inl HistoryCursorError else Inr \<lfloor>x\<rfloor>
           | _ \<Rightarrow> Inl HistoryCursorError)
      | _ \<Rightarrow> Inl HistoryCursorError)"

definition decodeHistoryCursor :: "platform \<Rightarrow> string option \<Rightarrow> history_resolution \<Rightarrow> history_error + int option" where
  "decodeHistoryCursor pf v res =
     (case v of
        None \<Rightarrow> Inr None
      | Some s \<Rightarrow>
          if js_length s = 0 \<or> js_length s > 128 \<or> \<not> (s \<noteq> [] \<and> list_all base64url_char s) then Inl HistoryCursorError
          else (case decodeBase64Url s 96 of
              Inl _ \<Rightarrow> Inl HistoryCursorError
            | Inr bytes \<Rightarrow>
                (case JSON_parse pf (TextDecoder_decode bytes) of
                   None \<Rightarrow> Inl HistoryCursorError
                 | Some parsed \<Rightarrow> map_sum id Some (cursor_last parsed res))))"

section \<open>Round trip\<close>

lemma cursor_last_json:
  assumes "is_safe_integer lastTime" "0 \<le> lastTime"
  shows "cursor_last (cursor_json res lastTime) res' = (if res = res' then Inr lastTime else Inl HistoryCursorError)"
  using assms
  by (cases res; cases res') (simp_all add: cursor_last_def cursor_json_def jfield_def isResolution_def is_integer_num_def)

lemma cursor_last_range: "cursor_last parsed res = Inr n \<Longrightarrow> 0 \<le> n \<and> is_safe_integer n"
  by (auto simp: cursor_last_def split: json.splits option.splits if_splits)

lemma map_sum_eq: "map_sum id f m = Inr y \<longleftrightarrow> (\<exists>x. m = Inr x \<and> y = f x)"
  by (cases m) auto

text \<open>
  A history cursor leads back to where it was made, and only there. For every timestamp that the encoder
  accepts, the decoder of the same resolution returns it, and the decoder of another resolution refuses the
  cursor; whatever text comes in, a decoded position is a safe integer that is not negative.
\<close>

theorem history_cursor_roundtrip:
  assumes "is_safe_integer lastTime" "0 \<le> lastTime" "json_text_ok pf (cursor_json res lastTime)"
    and "length (JSON_stringify pf (cursor_json res lastTime)) \<le> 96"
  shows "(\<exists>cursor. encodeHistoryCursor pf res (Some (of_int lastTime)) = Inr cursor \<and>
      decodeHistoryCursor pf (Some cursor) res' = (if res' = res then Inr (Some lastTime) else Inl HistoryCursorError)) \<and>
    (decodeHistoryCursor pf v res' = Inr (Some n) \<longrightarrow> 0 \<le> n \<and> is_safe_integer n)"
proof -
  let ?text = "JSON_stringify pf (cursor_json res lastTime)"
  let ?cursor = "encodeBase64Url (text_encode ?text)"
  have chars: "list_all base64url_char ?cursor" "\<forall>c \<in> set ?cursor. utf16_units c = 1"
    using encodeBase64Url_chars [OF byte_list_text_encode] by (auto simp: list_all_iff)
  have size: "length ?cursor = (4 * length ?text + 2) div 3" by (simp add: length_encodeBase64Url)
  have "?text \<noteq> []" using assms(3) by (auto simp: json_text_ok_def startsWith_def)
  then have "0 < length ?text" by simp
  then have "0 < length ?cursor" "length ?cursor \<le> 128" using assms(4) unfolding size by linarith+
  then have bounds: "?cursor \<noteq> []" "js_length ?cursor \<noteq> 0" "\<not> js_length ?cursor > 128"
    unfolding js_length_ascii [OF chars(2)] by simp_all
  have "decodeBase64Url ?cursor 96 = Inr (text_encode ?text)"
    using assms(4) by (intro decode_encode_base64url) simp_all
  then have "decodeHistoryCursor pf (Some ?cursor) res' = (if res' = res then Inr (Some lastTime) else Inl HistoryCursorError)"
    using bounds chars(1) assms(3) json_text_decode [OF assms(3)] cursor_last_json [OF assms(1,2)]
    by (auto simp: decodeHistoryCursor_def json_text_ok_def)
  moreover have "encodeHistoryCursor pf res (Some (of_int lastTime)) = Inr ?cursor"
    using assms(1,2) by (simp add: encodeHistoryCursor_def is_integer_num_def)
  moreover have "0 \<le> n \<and> is_safe_integer n" if "decodeHistoryCursor pf v res' = Inr (Some n)"
    using that cursor_last_range
    by (auto simp: decodeHistoryCursor_def map_sum_eq split: option.splits if_splits sum.splits)
  ultimately show ?thesis by blast
qed

definition cursor_platform :: platform where
  "cursor_platform = \<lparr>sha256 = (\<lambda>_. []), JSON_parse = (\<lambda>_. Some (cursor_json Raw 7)), JSON_stringify = (\<lambda>_. ''{}'')\<rparr>"

theorem history_cursor_roundtrip_witness:
  "\<exists>cursor. encodeHistoryCursor cursor_platform Raw (Some 7) = Inr cursor \<and>
    decodeHistoryCursor cursor_platform (Some cursor) Raw = Inr (Some 7)"
proof -
  have "json_text_ok cursor_platform (cursor_json Raw 7)"
    by (simp add: json_text_ok_def cursor_platform_def text_encode_def startsWith_def)
  then show ?thesis
    using history_cursor_roundtrip [of 7 cursor_platform Raw Raw]
    by (simp add: is_safe_integer_def max_safe_integer_def cursor_platform_def)
qed

end
