(* ===== verification/Management_Correctness.thy ===== *)
theory Management_Correctness
  imports Workspace_Correctness
begin

text \<open>
  What a management page achieves when nobody interferes: an invitation lets the invited account in, a permission
  that was set is what the decisions use, the pages of a list show every row once, and a deleted workspace can be
  restored within its grace period.
\<close>

section \<open>From an invitation to a membership\<close>

lemma update_where_id [simp]: "update_where p (\<lambda>m. m) t = t"
  by (induction t) auto

lemma update_refused_id: "\<not> update_refused p (\<lambda>m. m) t"
  by (auto simp: update_refused_def list_ex_iff last_active_admin_def)

lemma createInvitation_effect:
  assumes "createWorkspaceInvitation sv bytes iid auditId now db0 slug actor secret emailText roleText db =
      (db1, Inr (i, token, expiresAt))"
  obtains plan X t where "invitation_creation sv bytes db0 slug actor secret emailText roleText = Inr plan"
    "i = iid" "token = np_token plan" "expiresAt = now + INVITATION_LIFETIME_MS"
    "\<not> list_ex (invitation_clash (new_invitation iid plan actor now)) X"
    "db1 = db\<lparr>mg_audit := t, mg_invitations := X @ [new_invitation iid plan actor now]\<rparr>"
proof -
  let ?new = "\<lambda>plan. new_invitation iid plan actor now"
  obtain plan where plan: "invitation_creation sv bytes db0 slug actor secret emailText roleText = Inr plan"
    using assms by (auto simp: createWorkspaceInvitation_def perform_def split: sum.splits)
  obtain ks where run: "run_batch
      [update_memberships (\<lambda>db m. mb_workspace m = np_workspace plan \<and> mb_user m = actor \<and>
         mb_role m = admin \<and> mb_status m = Active \<and> finalAdminCondition actor (mb_workspace m) db) (\<lambda>m. m),
       prepareAuditStatement sv auditId \<lparr>ai_workspaceId = np_workspace plan, ai_actorUserId = actor,
         ai_action = ''workspace_invitation.create'', ai_resourceType = ''workspace_invitation'',
         ai_resourceId = iid, ai_before = None,
         ai_after = Some (JObj [(''role'', JStr (role_text (np_role plan))),
           (''expiresAt'', JNum (of_int (now + INVITATION_LIFETIME_MS)))]),
         ai_now = now, ai_onlyIfChanged = True\<rparr>,
       update_invitations (\<lambda>db i. iv_workspace i = np_workspace plan \<and> iv_email i = np_email plan \<and>
         invitation_pending i \<and> is_active_admin db (iv_workspace i) actor) (\<lambda>i. i\<lparr>iv_revoked_at := Some now\<rparr>),
       insert_invitation (\<lambda>db. is_active_admin db (np_workspace plan) actor) (?new plan)] 0 db = Some (db1, ks)"
    and ks: "hd ks = 1" "i = iid" "token = np_token plan" "expiresAt = now + INVITATION_LIFETIME_MS"
    using assms plan
    by (auto simp: createWorkspaceInvitation_def perform_def commit_batch_def http_require_def http_fail_def Let_def
        split: option.splits if_splits simp del: run_batch.simps)
  have "is_active_admin db (np_workspace plan) actor"
  proof -
    have "count_where (\<lambda>m. mb_workspace m = np_workspace plan \<and> mb_user m = actor \<and> mb_role m = admin \<and>
        mb_status m = Active \<and> finalAdminCondition actor (mb_workspace m) db) (mg_memberships db) = 1"
      using run ks(1) unfolding run_batch_iffs by (auto simp: update_memberships_def split: if_splits)
    then obtain m where "m \<in> set (mg_memberships db)" "mb_workspace m = np_workspace plan"
      "finalAdminCondition actor (mb_workspace m) db"
      using count_where_zero [of "\<lambda>m. mb_workspace m = np_workspace plan \<and> mb_user m = actor \<and> mb_role m = admin \<and>
        mb_status m = Active \<and> finalAdminCondition actor (mb_workspace m) db" "mg_memberships db"] by auto
    then show ?thesis by (simp add: finalAdminCondition_def)
  qed
  then have still: "is_active_admin (db\<lparr>mg_audit := t, mg_invitations := X\<rparr>) (np_workspace plan) actor" for t X
    by (simp add: is_active_admin_def)
  obtain t X where "\<not> list_ex (invitation_clash (?new plan)) X"
    "db1 = db\<lparr>mg_audit := t, mg_invitations := X @ [?new plan]\<rparr>"
    using run still unfolding run_batch_iffs
    by (auto simp: update_memberships_def update_refused_id update_invitations_def insert_invitation_def insert_if_Some
        dest!: audit_effect split: if_splits)
  then show ?thesis using that plan ks by blast
qed

lemma update_where_none_snoc:
  assumes "\<And>r. r \<in> set X \<Longrightarrow> \<not> p r"
  shows "update_where p f (X @ [r]) = X @ [if p r then f r else r]" "count_where p (X @ [r]) = (if p r then 1 else 0)"
    "find p (X @ [r]) = (if p r then Some r else None)" "filter p (X @ [r]) = (if p r then [r] else [])"
proof -
  show "update_where p f (X @ [r]) = X @ [if p r then f r else r]"
    using update_where_none [of X p f] assms by (simp add: update_where_def)
  have "filter p X = []" using assms by (simp add: filter_empty_conv)
  then show "count_where p (X @ [r]) = (if p r then 1 else 0)" "filter p (X @ [r]) = (if p r then [r] else [])"
    by (simp_all add: count_where_def)
  show "find p (X @ [r]) = (if p r then Some r else None)" using assms by (induction X) auto
qed

lemma invitationRecord_new:
  assumes "invitationDigest sv token secret = Inr (iv_digest new)" "mg_invitations db = X @ [new]"
    and "\<not> list_ex (invitation_clash new) X" "invitation_pending new"
    and "keyed we_id (mg_workspaces db)" "w \<in> set (mg_workspaces db)" "we_id w = iv_workspace new" "we_deleted_at w = None"
    and "b \<longrightarrow> now < iv_expires_at new"
  shows "\<exists>existing. invitationRecord sv db token secret b now =
    Inr \<lparr>ir_id = iv_id new, ir_workspaceId = iv_workspace new, ir_workspaceName = we_name w, ir_workspaceSlug = we_slug w,
      ir_email = iv_email new, ir_role = iv_role new, ir_expiresAt = iv_expires_at new, ir_existingUser = existing\<rparr>"
proof -
  have "\<not> (iv_digest i = iv_digest new \<and> invitation_pending i)" if "i \<in> set X" for i
    using assms(3) that by (auto simp: list_ex_iff invitation_clash_def)
  then have rows: "filter (\<lambda>i. iv_digest i = iv_digest new \<and> invitation_pending i) (X @ [new]) = [new]"
    using update_where_none_snoc(4) [of X "\<lambda>i. iv_digest i = iv_digest new \<and> invitation_pending i" new] assms(4) by simp
  let ?p = "\<lambda>v. we_id v = iv_workspace new \<and> we_deleted_at v = None"
  have "set (filter ?p (mg_workspaces db)) = {w}"
    using assms(5-8) keyed_unique [OF assms(5)] by auto
  then obtain rest where "filter ?p (mg_workspaces db) = w # rest"
    by (cases "filter ?p (mg_workspaces db)") auto
  then have "invitation_joined db (iv_digest new) = (new, w) # map (Pair new) rest"
    unfolding invitation_joined_def assms(2) rows by simp
  then show ?thesis using assms(1,9) by (cases b) (simp_all add: invitationRecord_def)
qed

lemma acceptInvitation_new:
  assumes "invitationRecord sv db token secret True now = Inr r" "normalizeEmail sv email = Inr (ir_email r)"
    and "mg_invitations db = X @ [new]" "\<not> list_ex (invitation_clash new) X" "invitation_pending new"
    and "ir_id r = iv_id new" "ir_workspaceId r = iv_workspace new" "now < iv_expires_at new"
    and "workspace_exists db (iv_workspace new)" "user_exists db u"
    and "\<not> list_ex (\<lambda>m. membership_key m = (iv_workspace new, u)) (mg_memberships db)"
    and "\<not> list_ex (\<lambda>a. ae_id a = auditId) (mg_audit db)"
  shows "\<exists>db2. acceptInvitationForUser sv auditId db token secret u email now db = (db2, Inr (ir_workspaceSlug r)) \<and>
    mg_memberships db2 = mg_memberships db @ [\<lparr>mb_workspace = iv_workspace new, mb_user = u, mb_role = iv_role new,
      mb_status = Active, mb_created_at = now, mb_updated_at = now\<rparr>] \<and>
    mg_invitations db2 = X @ [new\<lparr>iv_accepted_at := Some now\<rparr>]"
proof -
  let ?m = "\<lparr>mb_workspace = iv_workspace new, mb_user = u, mb_role = iv_role new, mb_status = Active,
    mb_created_at = now, mb_updated_at = now\<rparr>"
  let ?new = "new\<lparr>iv_accepted_at := Some now\<rparr>"
  have ids: "iv_id i \<noteq> iv_id new" if "i \<in> set X" for i
    using assms(4) that by (auto simp: list_ex_iff invitation_clash_def)
  let ?p = "\<lambda>i. iv_id i = iv_id new \<and> invitation_pending i \<and> iv_expires_at i > now"
  have accept: "accept_update (ir_id r) now 0 db = Some (db\<lparr>mg_invitations := X @ [?new]\<rparr>, 1)"
    using update_where_none_snoc(1,2) [of X ?p] ids assms(5,6,8)
    by (simp add: accept_update_def update_invitations_def assms(3))
  have found: "find (\<lambda>i. iv_id i = iv_id new \<and> iv_accepted_at i = Some now) (X @ [?new]) = Some ?new"
    using update_where_none_snoc(3) [of X "\<lambda>i. iv_id i = iv_id new \<and> iv_accepted_at i = Some now" ?new] ids by simp
  have fresh: "\<not> list_ex (member_clash ?m) (mg_memberships db)"
    using assms(11) by (auto simp: list_ex_iff member_clash_def membership_key_def)
  have member: "accepted_member (ir_id r) u now 1 (db\<lparr>mg_invitations := X @ [?new]\<rparr>) =
      Some (db\<lparr>mg_invitations := X @ [?new], mg_memberships := mg_memberships db @ [?m]\<rparr>, 1)"
    using found fresh assms(6,9,10)
    by (simp add: accepted_member_def insert_membership_def insert_if_def insert_unique_def workspace_exists_def
        user_exists_def)
  have audit: "prepareAuditStatement sv auditId (accept_audit r u now) 1
      (db\<lparr>mg_invitations := X @ [?new], mg_memberships := mg_memberships db @ [?m]\<rparr>) =
      Some (db\<lparr>mg_invitations := X @ [?new], mg_memberships := mg_memberships db @ [?m],
        mg_audit := mg_audit db @ [audit_row sv auditId (accept_audit r u now)]\<rparr>, 1)"
    using assms(7,9,10,12)
    by (auto simp: prepareAuditStatement_def insert_if_def insert_unique_def workspace_exists_def user_exists_def
        accept_audit_def audit_row_def list_ex_iff)
  show ?thesis
    using assms(1,2)
    by (simp add: acceptInvitationForUser_def perform_def commit_batch_def accept member audit http_require_def
        del: One_nat_def)
qed

text \<open>
  C33. An invitation lets the invited account in. When an administrator has created an invitation for an address,
  the token that was returned shows the workspace and the role to its holder, and until seven days have passed
  the account with that address becomes an active member of the workspace in the invited role by accepting it.
\<close>

theorem invitation_roundtrip:
  assumes "createWorkspaceInvitation sv bytes iid auditId now db slug actor secret emailText roleText db =
      (db1, Inr (i, token, expiresAt))"
    and "keyed we_id (mg_workspaces db)"
    and "u \<in> set (mg_users db)" "normalizeEmail sv emailText = Inr (us_email u)"
      "normalizeEmail sv (us_email u) = Inr (us_email u)"
    and "t < now + 604800000" "\<not> list_ex (\<lambda>a. ae_id a = auditId2) (mg_audit db1)"
  shows "\<exists>role w db2 page. parse_role roleText = Some role \<and> w \<in> set (mg_workspaces db) \<and> we_slug w = slug \<and>
    expiresAt = now + 604800000 \<and>
    loadWorkspaceInvitation sv db1 token secret t None = Inr page \<and> ip_workspaceSlug page = slug \<and>
    ip_role page = role \<and> \<not> ip_expired page \<and>
    acceptInvitationForUser sv auditId2 db1 token secret (us_id u) (us_email u) t db1 = (db2, Inr slug) \<and>
    mg_memberships db2 = mg_memberships db @ [\<lparr>mb_workspace = we_id w, mb_user = us_id u, mb_role = role,
      mb_status = Active, mb_created_at = t, mb_updated_at = t\<rparr>]"
proof -
  obtain plan X a where plan: "invitation_creation sv bytes db slug actor secret emailText roleText = Inr plan"
    and out: "i = iid" "token = np_token plan" "expiresAt = now + INVITATION_LIFETIME_MS"
    and clash: "\<not> list_ex (invitation_clash (new_invitation iid plan actor now)) X"
    and db1: "db1 = db\<lparr>mg_audit := a, mg_invitations := X @ [new_invitation iid plan actor now]\<rparr>"
    using createInvitation_effect [OF assms(1)] by metis
  define new where "new = new_invitation iid plan actor now"
  obtain access where access: "requireWorkspaceAdmin db slug actor = Inr access" "np_workspace plan = ma_workspaceId access"
    and role: "parse_role roleText = Some (np_role plan)" and email: "np_email plan = us_email u"
    and fresh: "\<not> list_ex (\<lambda>m. mb_workspace m = np_workspace plan \<and>
         list_ex (\<lambda>v. us_id v = mb_user m \<and> us_email v = us_email u) (mg_users db)) (mg_memberships db)"
    and digest: "invitationDigest sv token secret = Inr (np_digest plan)"
    using plan assms(4) by (auto simp: invitation_creation_def out(2) elim!: bind_result_InrE)
  have load: "loadMonitoringAccess db slug actor = Inr access"
    using access(1) by (auto simp: requireWorkspaceAdmin_def elim!: bind_result_InrE)
  obtain w where w: "w \<in> set (mg_workspaces db)" "we_slug w = slug" "we_deleted_at w = None" "we_id w = np_workspace plan"
    using load access(2) by (elim loadMonitoringAccess_InrD) auto
  have new: "iv_workspace new = np_workspace plan" "iv_digest new = np_digest plan" "invitation_pending new"
    "iv_expires_at new = now + 604800000" "iv_role new = np_role plan" "iv_email new = us_email u"
    by (simp_all add: new_def new_invitation_def invitation_pending_def INVITATION_LIFETIME_MS_def email)
  have invs: "mg_invitations db1 = X @ [new]" by (simp add: db1 new_def)
  have ws: "keyed we_id (mg_workspaces db1)" "w \<in> set (mg_workspaces db1)" "we_id w = iv_workspace new"
    "we_deleted_at w = None"
    using assms(2) w by (simp_all add: db1 new)
  have read: "\<exists>x. invitationRecord sv db1 token secret b t = Inr \<lparr>ir_id = iv_id new, ir_workspaceId = iv_workspace new,
      ir_workspaceName = we_name w, ir_workspaceSlug = we_slug w, ir_email = iv_email new, ir_role = iv_role new,
      ir_expiresAt = iv_expires_at new, ir_existingUser = x\<rparr>" for b
    using digest new(2) assms(6) new(4) by (intro invitationRecord_new [OF _ invs clash [folded new_def] new(3) ws]) auto
  obtain x where x: "invitationRecord sv db1 token secret True t = Inr \<lparr>ir_id = iv_id new,
      ir_workspaceId = iv_workspace new, ir_workspaceName = we_name w, ir_workspaceSlug = we_slug w,
      ir_email = iv_email new, ir_role = iv_role new, ir_expiresAt = iv_expires_at new, ir_existingUser = x\<rparr>"
    using read by blast
  have "\<exists>db2. acceptInvitationForUser sv auditId2 db1 token secret (us_id u) (us_email u) t db1 = (db2, Inr (we_slug w)) \<and>
      mg_memberships db2 = mg_memberships db1 @ [\<lparr>mb_workspace = iv_workspace new, mb_user = us_id u,
        mb_role = iv_role new, mb_status = Active, mb_created_at = t, mb_updated_at = t\<rparr>]"
  proof -
    have "workspace_exists db1 (iv_workspace new)" "user_exists db1 (us_id u)"
      using w new(1) assms(3) by (auto simp: db1 workspace_exists_def user_exists_def list_ex_iff)
    moreover have "\<not> list_ex (\<lambda>m. membership_key m = (iv_workspace new, us_id u)) (mg_memberships db1)"
      using fresh assms(3) new(1) by (fastforce simp: db1 list_ex_iff membership_key_def)
    ultimately show ?thesis
      using acceptInvitation_new [OF x _ invs clash [folded new_def] new(3), of "us_email u" "us_id u" auditId2]
        assms(5-7) new(4,6) by auto
  qed
  moreover obtain y where "invitationRecord sv db1 token secret False t = Inr \<lparr>ir_id = iv_id new,
      ir_workspaceId = iv_workspace new, ir_workspaceName = we_name w, ir_workspaceSlug = we_slug w,
      ir_email = iv_email new, ir_role = iv_role new, ir_expiresAt = iv_expires_at new, ir_existingUser = y\<rparr>"
    using read by blast
  ultimately show ?thesis
    using role w new assms(6) out(3)
    by (auto simp: loadWorkspaceInvitation_def db1 INVITATION_LIFETIME_MS_def)
qed

text \<open>An invitation for an account that is not yet a member.\<close>

definition sample_guest :: management where
  "sample_guest = sample_management\<lparr>mg_users := mg_users sample_management @
     [\<lparr>us_id = ''g'', us_name = ''Gus'', us_email = ''g@x.org'', us_verified = True, us_created_at = 0\<rparr>]\<rparr>"

definition sample_secret :: string where
  "sample_secret = replicate 32 (CHR ''k'')"

definition sample_invited :: "management \<times> (string \<times> string \<times> int) http" where
  "sample_invited = createWorkspaceInvitation sample_server (replicate 32 7) ''i1'' ''x'' 5 sample_guest ''home'' ''a''
     sample_secret '' G@X.org'' ''member'' sample_guest"

lemma sample_invited_ok:
  "snd sample_invited = Inr (''i1'', randomToken (replicate 32 7), 604800005) \<and>
   map ae_id (mg_audit (fst sample_invited)) = [''x''] \<and> keyed iv_id (mg_invitations (fst sample_invited))"
  by code_simp

lemma sample_emails:
  "normalizeEmail sample_server '' G@X.org'' = Inr ''g@x.org'' \<and> normalizeEmail sample_server ''g@x.org'' = Inr ''g@x.org''"
  by code_simp

theorem invitation_roundtrip_witness:
  "isl (snd (acceptInvitationForUser sample_server ''y'' (fst sample_invited) (randomToken (replicate 32 7)) sample_secret
     ''g'' ''g@x.org'' 6 (fst sample_invited))) = False"
proof -
  let ?u = "\<lparr>us_id = ''g'', us_name = ''Gus'', us_email = ''g@x.org'', us_verified = True, us_created_at = 0\<rparr>"
  have run: "createWorkspaceInvitation sample_server (replicate 32 7) ''i1'' ''x'' 5 sample_guest ''home'' ''a''
      sample_secret '' G@X.org'' ''member'' sample_guest =
      (fst sample_invited, Inr (''i1'', randomToken (replicate 32 7), 604800005))"
    using sample_invited_ok unfolding sample_invited_def by (metis prod.collapse)
  have "\<not> list_ex (\<lambda>a. ae_id a = ''y'') (mg_audit (fst sample_invited))"
    using sample_invited_ok by (auto simp: list_ex_iff)
  then show ?thesis
    using invitation_roundtrip [OF run, of ?u 6 "''y''"] sample_emails
    by (fastforce simp: sample_guest_def sample_management_def)
qed

theorem invitation_single_use_witness:
  "isl (snd (acceptInvitationForUser sample_server ''z'' (fst sample_invited) (randomToken (replicate 32 7)) sample_secret
     ''u'' ''g@x.org'' 6 (fst (acceptInvitationForUser sample_server ''y'' (fst sample_invited)
        (randomToken (replicate 32 7)) sample_secret ''g'' ''g@x.org'' 6 (fst sample_invited)))))"
proof -
  let ?token = "randomToken (replicate 32 7)"
  let ?accept = "acceptInvitationForUser sample_server ''y'' (fst sample_invited) ?token sample_secret ''g'' ''g@x.org'' 6
    (fst sample_invited)"
  obtain db r where acc: "?accept = (db, r)" by (rule prod.exhaust)
  have facts: "keyed iv_id (mg_invitations (fst ?accept)) \<and> map iv_id (mg_invitations (fst ?accept)) = [''i1''] \<and>
      \<not> list_ex invitation_pending (mg_invitations (fst ?accept))" by code_simp
  have read: "map_sum (\<lambda>e. ()) ir_id (invitationRecord sample_server (fst sample_invited) ?token sample_secret True 6) =
      Inr ''i1''" by code_simp
  obtain x where x: "invitationRecord sample_server (fst sample_invited) ?token sample_secret True 6 = Inr x" "ir_id x = ''i1''"
    using read by (cases "invitationRecord sample_server (fst sample_invited) ?token sample_secret True 6") auto
  obtain i where i: "i \<in> set (mg_invitations db)" "iv_id i = ''i1''" "\<not> invitation_pending i"
    using facts by (auto simp: acc list_ex_iff)
  have keyed: "keyed iv_id (mg_invitations db)" using facts by (simp add: acc)
  show ?thesis
    using invitation_single_use [OF manage_reach.start keyed i(1,3) x(1), of "''z''" "''u''" "''g@x.org''" "[]" "[]" "[]"] x(2) i(2)
    by (auto simp: acc)
qed

section \<open>Permissions\<close>

lemma permission_grants_read:
  "permissionFromGrants (map (\<lambda>(c, e). \<lparr>resourceType = t, resourceId = i, capability_of = c, effect = e\<rparr>)
     (permission_grants p)) = p"
  by (cases p) (simp_all add: permissionFromGrants_def permission_grants_def)

lemma insert_grant_done:
  assumes "insert_grant cond g n db = Some (db', k)" "cond db"
  shows "db' = db\<lparr>mg_grants := mg_grants db @ [g]\<rparr>"
  using assms by (simp add: insert_grant_def insert_if_Some)

lemma insert_grants_effect:
  assumes "run_batch (map (\<lambda>(i, ce). insert_grant authorized (new_grant (ids i) plan actor memberId rid now ce)) ces) n db =
      Some (db', ks)"
    and "\<And>db g. authorized (db\<lparr>mg_grants := g\<rparr>) = authorized db" "authorized db"
  shows "db' = db\<lparr>mg_grants := mg_grants db @ map (\<lambda>(i, ce). new_grant (ids i) plan actor memberId rid now ce) ces\<rparr>"
  using assms(1,3)
proof (induction ces arbitrary: n db ks)
  case (Cons ce ces)
  obtain i x where ce: "ce = (i, x)" by (rule prod.exhaust)
  let ?g = "new_grant (ids i) plan actor memberId rid now x"
  obtain db1 k ks' where one: "insert_grant authorized ?g n db = Some (db1, k)"
    and rest: "run_batch (map (\<lambda>(i, ce). insert_grant authorized (new_grant (ids i) plan actor memberId rid now ce)) ces) k
      db1 = Some (db', ks')"
    using Cons.prems(1) unfolding ce list.map prod.case run_batch_Cons_iff by blast
  have db1: "db1 = db\<lparr>mg_grants := mg_grants db @ [?g]\<rparr>" using insert_grant_done [OF one Cons.prems(2)] .
  have "authorized db1" using Cons.prems(2) assms(2) by (simp add: db1)
  from Cons.IH [OF rest this] show ?case by (simp add: ce db1)
qed simp

definition about :: "string \<Rightarrow> string \<Rightarrow> resource_type \<Rightarrow> string \<Rightarrow> grant_row \<Rightarrow> bool" where
  "about workspaceId memberId rtype rid g \<longleftrightarrow>
     gr_workspace g = workspaceId \<and> gr_subject g = memberId \<and> gr_type g = rtype \<and> gr_resource g = rid"

lemma permission_effect:
  assumes "setMemberResourcePermission sv auditId ids now db0 slug actor memberId typeText rid permText db = (db', Inr ())"
  obtains plan t where "permission_change db0 slug actor memberId typeText rid permText = Inr plan"
    "permission_authorized plan actor memberId rid db"
    "db' = db\<lparr>mg_audit := t, mg_grants := filter (\<lambda>g. \<not> about (pp_workspace plan) memberId (pp_type plan) rid g) (mg_grants db) @
       map (\<lambda>(i, ce). new_grant (ids i) plan actor memberId rid now ce) (enumerate 0 (permission_grants (pp_permission plan)))\<rparr>"
proof -
  obtain plan where plan: "permission_change db0 slug actor memberId typeText rid permText = Inr plan"
    using assms by (auto simp: setMemberResourcePermission_def perform_def split: sum.splits)
  let ?auth = "permission_authorized plan actor memberId rid"
  let ?guard = "permission_guard plan actor memberId rid"
  let ?audit = "prepareAuditStatement sv auditId (permission_audit plan actor memberId rid now)"
  let ?inserts = "permission_inserts ids now plan actor memberId rid"
  let ?delete = "delete_grants (\<lambda>db g. gr_workspace g = pp_workspace plan \<and> gr_subject g = memberId \<and>
    gr_type g = pp_type plan \<and> gr_resource g = rid \<and> ?auth db)"
  obtain ks where run: "run_batch (permission_batch sv auditId ids now plan actor memberId rid) 0 db = Some (db', ks)"
    and ks: "hd ks = 1"
    using assms plan by (auto simp: setMemberResourcePermission_def perform_def commit_batch_def split: option.splits)
  obtain db1 ks1 where one: "update_memberships ?guard (\<lambda>m. m) 0 db = Some (db1, 1)"
    and rest: "run_batch (?audit # ?delete # ?inserts) 1 db1 = Some (db', ks1)"
    using run ks unfolding permission_batch_def run_batch_Cons_iff by fastforce
  have db1: "db1 = db" using one by (auto simp: update_memberships_def split: if_splits)
  have auth: "?auth db"
    using one count_where_zero [of "?guard db" "mg_memberships db"]
    by (auto simp: update_memberships_def permission_guard_def split: if_splits)
  have stable: "?auth (d\<lparr>mg_grants := g\<rparr>) = ?auth d" "?auth (d\<lparr>mg_audit := t\<rparr>) = ?auth d" for d g t
    by (simp_all add: permission_authorized_def is_active_admin_def live_resource_def workspace_table_def)
  obtain db2 k2 ks2 where audit: "?audit 1 db = Some (db2, k2)"
    and two': "run_batch (?delete # ?inserts) k2 db2 = Some (db', ks2)"
    using rest unfolding db1 run_batch_Cons_iff [of ?audit] by blast
  obtain t where "db2 = db\<lparr>mg_audit := t\<rparr>" using audit_effect [OF audit] by blast
  note two = two' [unfolded this]
  let ?kept = "filter (\<lambda>g. \<not> about (pp_workspace plan) memberId (pp_type plan) rid g) (mg_grants db)"
  obtain db3 k3 ks3 where del: "?delete k2 (db\<lparr>mg_audit := t\<rparr>) = Some (db3, k3)"
    and three': "run_batch ?inserts k3 db3 = Some (db', ks3)"
    using two unfolding run_batch_Cons_iff [of ?delete] by blast
  have "db3 = db\<lparr>mg_audit := t, mg_grants := ?kept\<rparr>"
    using del auth by (simp add: delete_grants_def stable about_def delete_where_def)
  note three = three' [unfolded this permission_inserts_def]
  have "db' = db\<lparr>mg_audit := t, mg_grants := ?kept @ map (\<lambda>(i, ce). new_grant (ids i) plan actor memberId rid now ce)
      (enumerate 0 (permission_grants (pp_permission plan)))\<rparr>"
    using insert_grants_effect [OF three] stable auth by simp
  then show ?thesis using that plan auth by blast
qed

text \<open>A page that fails leaves the database as it was.\<close>

lemma inserts_idle:
  assumes "\<not> authorized db"
  shows "\<exists>ks. run_batch (map (\<lambda>(i, ce). insert_grant authorized (g i ce)) ces) n db = Some (db, ks)"
proof (induction ces arbitrary: n)
  case (Cons ce ces)
  obtain i x where ce: "ce = (i, x)" by (rule prod.exhaust)
  have "insert_grant authorized (g i x) n db = Some (db, 0)" using assms by (simp add: insert_grant_def insert_if_def)
  then show ?case using Cons [of 0] by (auto simp: ce)
qed simp

lemma permission_failed:
  assumes "setMemberResourcePermission sv auditId ids now db0 slug actor memberId typeText rid permText db = (db', Inl e)"
    and "keyed membership_key (mg_memberships db)"
  shows "db' = db"
proof (cases "permission_change db0 slug actor memberId typeText rid permText")
  case (Inl x)
  then show ?thesis using assms(1) by (simp add: setMemberResourcePermission_def perform_def)
next
  case (Inr plan)
  let ?auth = "permission_authorized plan actor memberId rid"
  let ?guard = "permission_guard plan actor memberId rid"
  have page: "(db', Inl e) = commit_batch (permission_batch sv auditId ids now plan actor memberId rid)
      (\<lambda>ks. http_require (hd ks = 1) 409 ''Resource permission changed; reload and try again'') db"
    using assms(1) Inr by (simp add: setMemberResourcePermission_def perform_def)
  have one: "update_memberships ?guard (\<lambda>m. m) 0 db = Some (db, count_where (?guard db) (mg_memberships db))"
    by (simp add: update_memberships_def update_refused_id)
  show ?thesis
  proof (cases "?auth db")
    case True
    have "count_where (?guard db) (mg_memberships db) \<noteq> 0"
      using True unfolding count_where_zero by (auto simp: permission_guard_def permission_authorized_def list_ex_iff)
    moreover have "count_where (?guard db) (mg_memberships db) \<le> 1"
      using count_where_key [OF assms(2), of "(pp_workspace plan, memberId)" "\<lambda>m. mb_role m = member_role \<and>
        mb_status m \<in> {Active, Suspended} \<and> ?auth db"]
      by (simp add: permission_guard_def [abs_def] membership_key_def conj_assoc)
    ultimately have "count_where (?guard db) (mg_memberships db) = 1" by linarith
    then show ?thesis
      using page unfolding commit_batch_def permission_batch_def run_batch.simps one
      by (auto simp: http_require_def split: option.splits prod.splits)
  next
    case False
    have "update_memberships ?guard (\<lambda>m. m) 0 db = Some (db, 0)"
      using one False by (simp add: permission_guard_def [abs_def] count_where_def)
    moreover have "delete_grants (\<lambda>db g. gr_workspace g = pp_workspace plan \<and> gr_subject g = memberId \<and>
        gr_type g = pp_type plan \<and> gr_resource g = rid \<and> ?auth db) n db = Some (db, 0)" for n
      using False by (simp add: delete_grants_def delete_where_def count_where_def)
    moreover obtain ks where "run_batch (permission_inserts ids now plan actor memberId rid) 0 db = Some (db, ks)"
      unfolding permission_inserts_def using inserts_idle [of ?auth db "\<lambda>i ce. new_grant (ids i) plan actor memberId rid now ce", OF False] by blast
    moreover have "prepareAuditStatement sv auditId (permission_audit plan actor memberId rid now) 0 db = Some (db, 0)"
      by (rule audit_idle) (simp add: permission_audit_def)
    ultimately show ?thesis
      using page by (simp add: commit_batch_def permission_batch_def)
  qed
qed

text \<open>
  C34. The permission that an administrator sets is the one that counts. When the page succeeds, the panel shows the
  permission, and decisions on the stored grants follow it: \<open>none\<close> and \<open>deny\<close> give no access, \<open>view\<close> lets view and
  not manage, \<open>manage\<close> lets both, and a denied container is not reached through its machine. No other grant and no
  membership changes, and the actor is an administrator when the statements run. When the page fails, the
  database stays as it was.
\<close>

theorem permission_readback:
  assumes "setMemberResourcePermission sv auditId ids now db0 slug actor memberId typeText rid permText db = (db', r)"
    and "keyed membership_key (mg_memberships db)"
  shows "(isl r \<longrightarrow> db' = db) \<and>
    (r = Inr () \<longrightarrow> (\<exists>w rtype perm. parse_resource typeText = Some rtype \<and> parse_permission permText = Some perm \<and>
       is_active_admin db w actor \<and>
       permissionFromGrants (member_grants db' w memberId rtype rid) = perm \<and>
       (\<forall>gs. set gs = grants_in db' w memberId \<longrightarrow>
          canAccessResource member_role gs rtype rid view = (perm \<in> {Perm_view, Perm_manage}) \<and>
          canAccessResource member_role gs rtype rid manage = (perm = Perm_manage) \<and>
          (rtype = container \<and> perm = Perm_deny \<longrightarrow>
            (\<forall>machineId cap. \<not> canAccessContainer member_role gs machineId rid cap))) \<and>
       filter (\<lambda>g. \<not> about w memberId rtype rid g) (mg_grants db') =
         filter (\<lambda>g. \<not> about w memberId rtype rid g) (mg_grants db) \<and>
       mg_memberships db' = mg_memberships db))"
proof (cases r)
  case (Inl e)
  then show ?thesis using permission_failed [OF assms(1) [unfolded Inl] assms(2)] by simp
next
  case (Inr x)
  obtain plan t where plan: "permission_change db0 slug actor memberId typeText rid permText = Inr plan"
    and auth: "permission_authorized plan actor memberId rid db"
    and db': "db' = db\<lparr>mg_audit := t, mg_grants := filter (\<lambda>g. \<not> about (pp_workspace plan) memberId (pp_type plan) rid g)
       (mg_grants db) @ map (\<lambda>(i, ce). new_grant (ids i) plan actor memberId rid now ce)
         (enumerate 0 (permission_grants (pp_permission plan)))\<rparr>"
    using permission_effect [of sv auditId ids now db0 slug actor memberId typeText rid permText db db'] assms(1) Inr by auto
  let ?w = "pp_workspace plan" and ?t = "pp_type plan" and ?p = "pp_permission plan"
  have parsed: "parse_resource typeText = Some ?t" "parse_permission permText = Some ?p"
    using plan by (auto simp: permission_change_def elim!: bind_result_InrE)
  let ?new = "map (\<lambda>(i, ce). new_grant (ids i) plan actor memberId rid now ce) (enumerate 0 (permission_grants ?p))"
  have all_new: "about ?w memberId ?t rid g" if "g \<in> set ?new" for g
    using that by (auto simp: new_grant_def about_def)
  have mine: "filter (about ?w memberId ?t rid) (mg_grants db') = ?new"
    using all_new by (auto simp: db' filter_empty_conv intro!: filter_True)
  have others: "filter (\<lambda>g. \<not> about ?w memberId ?t rid g) (mg_grants db') =
      filter (\<lambda>g. \<not> about ?w memberId ?t rid g) (mg_grants db)"
    using all_new by (auto simp: db' filter_empty_conv)
  have "map grant_of ?new =
      map (\<lambda>(c, e). \<lparr>resourceType = ?t, resourceId = rid, capability_of = c, effect = e\<rparr>) (permission_grants ?p)"
    by (cases ?p) (simp_all add: permission_grants_def new_grant_def grant_of_def)
  then have grants: "member_grants db' ?w memberId ?t rid =
      map (\<lambda>(c, e). \<lparr>resourceType = ?t, resourceId = rid, capability_of = c, effect = e\<rparr>) (permission_grants ?p)"
    using mine by (simp add: member_grants_def about_def [abs_def])
  have on: "{g \<in> grants_in db' ?w memberId. resourceType g = ?t \<and> resourceId g = rid} =
      set (member_grants db' ?w memberId ?t rid)"
    by (force simp: grants_in_def member_grants_def grant_of_def)
  have access: "denied_on (grants_in db' ?w memberId) ?t rid cap \<longleftrightarrow> (\<exists>g \<in> set (member_grants db' ?w memberId ?t rid).
      deniesCapability g cap)"
    "allowed_on (grants_in db' ?w memberId) ?t rid cap \<longleftrightarrow> (\<exists>g \<in> set (member_grants db' ?w memberId ?t rid).
      allowsCapability g cap)" for cap
    unfolding on [symmetric] denied_on_def allowed_on_def by auto
  have decide: "canAccessResource member_role gs ?t rid view = (?p \<in> {Perm_view, Perm_manage})"
    "canAccessResource member_role gs ?t rid manage = (?p = Perm_manage)"
    if "set gs = grants_in db' ?w memberId" for gs
    unfolding canAccessResource_iff that access grants
    by (cases ?p; simp add: permission_grants_def allowsCapability_def deniesCapability_def)+
  have "\<not> canAccessContainer member_role gs machineId rid cap"
    if "set gs = grants_in db' ?w memberId" "?t = container" "?p = Perm_deny" for gs machineId cap
  proof -
    have "denied_on (set gs) container rid cap"
      using that access(1) [of cap] grants by (cases cap) (simp_all add: permission_grants_def deniesCapability_def)
    then show ?thesis by (auto simp: canAccessContainer_def denied_on_def list_ex_iff Let_def)
  qed
  moreover have "is_active_admin db ?w actor" using auth by (simp add: permission_authorized_def)
  moreover have "permissionFromGrants (member_grants db' ?w memberId ?t rid) = ?p"
    unfolding grants by (rule permission_grants_read)
  moreover have "mg_memberships db' = mg_memberships db" by (simp add: db')
  ultimately show ?thesis using Inr parsed decide others by auto
qed

theorem permission_readback_witness:
  "let (db', r) = setMemberResourcePermission sample_server ''x'' (\<lambda>i. if i = 0 then ''g0'' else ''g1'') 5 sample_management
       ''home'' ''a'' ''u'' ''service'' ''s1'' ''deny'' sample_management
   in r = Inr () \<and> \<not> canAccessResource member_role
        (map grant_of (filter (\<lambda>g. gr_workspace g = ''w'' \<and> gr_subject g = ''u'') (mg_grants db'))) service ''s1'' view"
proof -
  let ?run = "setMemberResourcePermission sample_server ''x'' (\<lambda>i. if i = 0 then ''g0'' else ''g1'') 5 sample_management
    ''home'' ''a'' ''u'' ''service'' ''s1'' ''deny'' sample_management"
  obtain db' r where run: "?run = (db', r)" by (rule prod.exhaust)
  have keyed: "keyed membership_key (mg_memberships sample_management)" using sample_administered
    by (simp add: well_administered_def)
  have ok: "snd ?run = Inr () \<and> map gr_workspace (mg_grants (fst ?run)) = [''w'', ''w'']" by code_simp
  have only: "is_active_admin sample_management w ''a'' \<Longrightarrow> w = ''w''" for w
    by (auto simp: is_active_admin_def active_admin_def sample_management_def sample_members_def)
  have "parse_resource ''service'' = Some service" "parse_permission ''deny'' = Some Perm_deny"
    by (simp_all add: parse_resource_def parse_permission_def)
  then have "\<forall>gs. set gs = grants_in db' ''w'' ''u'' \<longrightarrow> \<not> canAccessResource member_role gs service ''s1'' view"
    using permission_readback [OF run keyed] ok only by (auto simp: run)
  then show ?thesis using ok by (simp add: run grants_in_def)
qed

section \<open>Pages of a list\<close>

lemma concat_pages:
  assumes "0 < k"
  shows "concat (map (\<lambda>p. take k (drop ((p - 1) * k) xs)) [1..<Suc n]) = take (n * k) xs"
proof (induction n)
  case (Suc n)
  have "take (n * k) xs @ take k (drop (n * k) xs) = take (n * k + k) xs" by (simp add: take_add)
  then show ?case using Suc by (simp add: ac_simps)
qed simp

lemma ceil_div_mult: "0 < b \<Longrightarrow> a \<le> ceil_div a b * b \<and> (0 < a \<longrightarrow> (ceil_div a b - 1) * b < a)"
proof -
  assume b: "0 < b"
  let ?q = "(a + b - 1) div b"
  have "?q * b + (a + b - 1) mod b = a + b - 1" by (rule div_mult_mod_eq)
  moreover have "(a + b - 1) mod b < b" using b by simp
  ultimately have "a \<le> ?q * b" "0 < a \<longrightarrow> ?q * b - b < a" using b by linarith+
  then show ?thesis by (simp add: ceil_div_def diff_mult_distrib)
qed

text \<open>
  The pages of a list show every entry once. For any list and any requested page, the page that is shown lies
  between one and the number of pages, which is at most a hundred; the pages from the first to the last, put
  together, are the first five thousand entries in their order; and the last page is empty only when the list
  is.
\<close>

theorem pages_cover_list:
  "let n = pagination (capped_count rows) request
   in 1 \<le> pn_page n \<and> pn_page n \<le> pn_pages n \<and> pn_pages n \<le> 100 \<and>
      pn_total n = min (length rows) 5000 \<and> pn_capped n = (length rows > 5000) \<and>
      concat (map (\<lambda>p. page_rows p rows) [1..<Suc (pn_pages n)]) = take 5000 rows \<and>
      (page_rows (pn_pages n) rows = [] \<longleftrightarrow> rows = [])"
proof -
  define n where "n = pagination (capped_count rows) request"
  let ?total = "min (length rows) 5000"
  have total: "pn_total n = ?total" and pages: "pn_pages n = max 1 (min 100 (ceil_div ?total 50))"
    and page: "pn_page n = min (requested_page request) (pn_pages n)" and capped: "pn_capped n = (length rows > 5000)"
    by (simp_all add: n_def pagination_def capped_count_def Let_def MAX_ENTRIES_def PAGE_SIZE_def MAX_PAGE_def min_def)
  have requested: "1 \<le> requested_page request"
    by (auto simp: requested_page_def MAX_PAGE_def split: option.splits)
  have ceil: "?total \<le> ceil_div ?total 50 * 50" "0 < ?total \<longrightarrow> (ceil_div ?total 50 - 1) * 50 < ?total"
    using ceil_div_mult [of 50 ?total] by simp_all
  have le: "ceil_div ?total 50 \<le> 100"
    unfolding ceil_div_def by linarith
  have bounds: "1 \<le> pn_page n" "pn_page n \<le> pn_pages n" "pn_pages n \<le> 100" using requested page pages by auto
  have enough: "?total \<le> pn_pages n * 50" using ceil(1) le pages by auto
  have "concat (map (\<lambda>p. page_rows p rows) [1..<Suc (pn_pages n)]) = take (pn_pages n * 50) rows"
    using concat_pages [of 50 rows "pn_pages n"] by (simp add: page_rows_def PAGE_SIZE_def)
  also have "\<dots> = take 5000 rows"
  proof (cases "length rows \<le> 5000")
    case True
    then show ?thesis using enough by simp
  next
    case False
    then have "pn_pages n = 100" using enough bounds(3) by simp
    then show ?thesis by simp
  qed
  finally have cover: "concat (map (\<lambda>p. page_rows p rows) [1..<Suc (pn_pages n)]) = take 5000 rows" .
  have "rows \<noteq> [] \<Longrightarrow> (pn_pages n - 1) * 50 < length rows"
    using ceil(2) le pages by (cases "ceil_div ?total 50 = 0") (auto simp: max_def min_def split: if_splits)
  then have "page_rows (pn_pages n) rows = [] \<longleftrightarrow> rows = []" by (force simp: page_rows_def PAGE_SIZE_def)
  then show ?thesis using bounds total capped cover unfolding n_def by (simp add: Let_def)
qed

section \<open>Deleting and restoring a workspace\<close>

lemma update_where_one:
  assumes "keyed key t" "r \<in> set t" "p r" "\<And>x. p x \<Longrightarrow> key x = key r"
  shows "count_where p t = 1" "update_where p f t = map (\<lambda>x. if key x = key r then f x else x) t"
proof -
  have iff: "p x \<longleftrightarrow> key x = key r" if "x \<in> set t" for x
  proof
    show "key x = key r" if "p x" using assms(4) that .
    show "p x" if "key x = key r" using keyed_unique [OF assms(1) \<open>x \<in> set t\<close> assms(2) that] assms(3) by simp
  qed
  have "count_where p t = count_where (\<lambda>x. key x = key r \<and> p x) t"
    unfolding count_where_def using iff by (intro arg_cong [where f = length] filter_cong) auto
  then have "count_where p t \<le> 1" using count_where_key [OF assms(1)] by simp
  moreover have "count_where p t \<noteq> 0" unfolding count_where_zero using assms(2,3) by auto
  ultimately show "count_where p t = 1" by linarith
  show "update_where p f t = map (\<lambda>x. if key x = key r then f x else x) t"
    unfolding update_where_def using iff by (intro map_cong) auto
qed

lemma no_pairs: "xs = []" if "\<And>a b. (a, b) \<notin> set xs"
proof (cases xs)
  case (Cons x rest)
  then have "(fst x, snd x) \<in> set xs" by simp
  with that show ?thesis by blast
qed

lemma only_pair:
  assumes "(a, b) \<in> set xs" "\<And>v r. (v, r) \<in> set xs \<Longrightarrow> v = a \<and> r = b"
  obtains rest where "xs = (a, b) # rest"
proof (cases xs)
  case (Cons x rest)
  then have "(fst x, snd x) \<in> set xs" by simp
  then have "fst x = a" "snd x = b" using assms(2) by blast+
  then have "x = (a, b)" by (metis prod.collapse)
  with Cons that show ?thesis by blast
qed (use assms(1) in simp)

lemma administered_unique:
  assumes "keyed we_id (mg_workspaces db)" "keyed membership_key (mg_memberships db)"
    and "w \<in> set (mg_workspaces db)" "is_active_admin db (we_id w) u" "P w"
    and "\<And>v. v \<in> set (mg_workspaces db) \<Longrightarrow> P v \<Longrightarrow> v = w"
  shows "administered db P u = Some w"
proof -
  let ?rows = "workspace_members (\<lambda>w m. P w \<and> mb_user m = u \<and> mb_status m = Active) db"
  obtain m where m: "m \<in> set (mg_memberships db)" "membership_key m = (we_id w, u)" "mb_role m = admin" "mb_status m = Active"
    using assms(4) unfolding is_active_admin_iff by blast
  have same: "v = w \<and> r = m" if "(v, r) \<in> set ?rows" for v r
  proof -
    have v: "v = w" using that assms(6) unfolding workspace_members_in by blast
    have "membership_key r = membership_key m" "r \<in> set (mg_memberships db)"
      using that m(2) unfolding workspace_members_in v by (auto simp: membership_key_def)
    then show ?thesis using v keyed_unique [OF assms(2) _ m(1)] by blast
  qed
  have member: "(w, m) \<in> set ?rows"
    unfolding workspace_members_in using m assms(3,5) by (simp add: membership_key_def)
  obtain rest where "?rows = (w, m) # rest" by (rule only_pair [OF member same])
  then show ?thesis using m(3) by (simp add: administered_def)
qed

text \<open>The statement that touches a workspace and its audit entry, as deletion and restoration run them.\<close>

lemma workspace_batch:
  assumes "keyed we_id (mg_workspaces db)" "w \<in> set (mg_workspaces db)" "p db w" "\<And>x. p db x \<Longrightarrow> we_id x = we_id w"
    and "\<And>x. we_id (f x) = we_id x"
    and "ai_workspaceId input = we_id w" "user_exists db (ai_actorUserId input)"
      "\<not> list_ex (\<lambda>a. ae_id a = auditId) (mg_audit db)"
  shows "commit_batch [update_workspaces p f, prepareAuditStatement sv auditId input] out db =
    (db\<lparr>mg_workspaces := map (\<lambda>x. if we_id x = we_id w then f x else x) (mg_workspaces db),
        mg_audit := mg_audit db @ [audit_row sv auditId input]\<rparr>, out [1, 1])"
proof -
  have one: "count_where (p db) (mg_workspaces db) = 1"
    "update_where (p db) f (mg_workspaces db) = map (\<lambda>x. if we_id x = we_id w then f x else x) (mg_workspaces db)"
    by (rule update_where_one [where key = we_id and r = w and p = "p db"]; use assms(1-4) in blast)+
  have "workspace_exists (db\<lparr>mg_workspaces := map (\<lambda>x. if we_id x = we_id w then f x else x) (mg_workspaces db)\<rparr>) (we_id w)"
    using assms(2,5) by (auto simp: workspace_exists_def list_ex_iff)
  then show ?thesis
    using one assms(6-8)
    by (auto simp: commit_batch_def update_workspaces_def prepareAuditStatement_def insert_if_def insert_unique_def
        user_exists_def audit_row_def list_ex_iff)
qed

definition touch :: "string \<Rightarrow> (workspace_entry \<Rightarrow> workspace_entry) \<Rightarrow> workspace_entry list \<Rightarrow> workspace_entry list" where
  "touch i f ws = map (\<lambda>x. if we_id x = i then f x else x) ws"

lemma softDelete_done:
  assumes "keyed we_id (mg_workspaces db)" "keyed we_slug (mg_workspaces db)" "keyed membership_key (mg_memberships db)"
    and "w \<in> set (mg_workspaces db)" "we_deleted_at w = None" "is_active_admin db (we_id w) actor"
    and "user_exists db actor" "\<not> list_ex (\<lambda>a. ae_id a = auditId) (mg_audit db)"
  shows "\<exists>e. ae_id e = auditId \<and> softDeleteWorkspace sv auditId now db (we_slug w) actor (we_slug w) db =
    (db\<lparr>mg_workspaces := touch (we_id w) (\<lambda>x. x\<lparr>we_deleted_at := Some now, we_updated_at := now\<rparr>) (mg_workspaces db),
        mg_audit := mg_audit db @ [e]\<rparr>, Inr ())"
proof -
  have "administered db (\<lambda>v. we_slug v = we_slug w) actor = Some w"
    using keyed_unique [OF assms(2) _ assms(4)] by (intro administered_unique [OF assms(1,3,4,6)]) auto
  then have plan: "workspace_deletion db (we_slug w) actor (we_slug w) = Inr w"
    using assms(5) by (simp add: workspace_deletion_def http_some_def http_require_def)
  let ?input = "\<lparr>ai_workspaceId = we_id w, ai_actorUserId = actor, ai_action = ''workspace.delete'',
    ai_resourceType = ''workspace'', ai_resourceId = we_id w, ai_before = Some (workspace_json w None),
    ai_after = Some (workspace_json w (Some now)), ai_now = now, ai_onlyIfChanged = True\<rparr>"
  have "softDeleteWorkspace sv auditId now db (we_slug w) actor (we_slug w) db =
    (db\<lparr>mg_workspaces := touch (we_id w) (\<lambda>x. x\<lparr>we_deleted_at := Some now, we_updated_at := now\<rparr>) (mg_workspaces db),
        mg_audit := mg_audit db @ [audit_row sv auditId ?input]\<rparr>, Inr ())"
    unfolding softDeleteWorkspace_def perform_def plan sum.case touch_def
    by (subst workspace_batch [OF assms(1,4)]) (use assms(5-8) in \<open>auto simp: http_require_def\<close>)
  moreover have "ae_id (audit_row sv auditId ?input) = auditId" by (simp add: audit_row_def)
  ultimately show ?thesis by blast
qed

lemma restore_plan:
  assumes "keyed we_id (mg_workspaces db)" "keyed membership_key (mg_memberships db)"
    and "w \<in> set (mg_workspaces db)" "we_deleted_at w = Some deletedAt" "we_purge_started_at w = None"
    and "is_active_admin db (we_id w) actor"
  shows "workspace_restoration db (we_id w) actor t =
    (if t < grace_end (grace_days db (we_id w)) deletedAt then Inr (w, deletedAt)
     else Inl (Http 409 ''The workspace recovery window has expired''))"
proof -
  have "administered db (\<lambda>v. we_id v = we_id w) actor = Some w"
    using keyed_unique [OF assms(1) _ assms(3)] by (intro administered_unique [OF assms(1,2,3,6)]) auto
  then show ?thesis
    using assms(4,5)
    by (cases "grace_days db (we_id w)")
      (auto simp: workspace_restoration_def http_some_def http_require_def http_fail_def grace_end_def Let_def)
qed

text \<open>
  C35. A deleted workspace can be restored, and nobody restores one that is being purged. Deleting a workspace with
  its slug as confirmation makes it disappear for its members; until the grace period of its policy (seven days
  without one) is over an administrator gets it back with all its columns except the time of the last change, and
  afterwards the page refuses. When the retention worker has started the purge after the page has read
  the workspace, the statement does nothing and the page throws.
\<close>

theorem workspace_restore_roundtrip:
  assumes "keyed we_id (mg_workspaces db)" "keyed we_slug (mg_workspaces db)" "keyed membership_key (mg_memberships db)"
    and "w \<in> set (mg_workspaces db)" "we_deleted_at w = None" "we_purge_started_at w = None"
      "is_active_admin db (we_id w) actor" "user_exists db actor"
    and "\<not> list_ex (\<lambda>a. ae_id a = auditId) (mg_audit db)" "\<not> list_ex (\<lambda>a. ae_id a = auditId2) (mg_audit db)"
      "auditId2 \<noteq> auditId"
    and "softDeleteWorkspace sv auditId now db (we_slug w) actor (we_slug w) db = (db1, r)"
    and "restoreWorkspace sv auditId2 t db1 (we_id w) actor db1 = (db2, r2)"
    and "db3 = db1\<lparr>mg_workspaces := touch (we_id w) (\<lambda>x. x\<lparr>we_purge_started_at := Some p\<rparr>) (mg_workspaces db1)\<rparr>"
  shows "r = Inr () \<and> (\<forall>u. loadMonitoringAccess db1 (we_slug w) u = Inl (Http 404 ''Workspace not found'')) \<and>
    (if t < grace_end (grace_days db (we_id w)) now
     then r2 = Inr (we_slug w) \<and>
       mg_workspaces db2 = touch (we_id w) (\<lambda>x. x\<lparr>we_updated_at := t\<rparr>) (mg_workspaces db)
     else r2 = Inl (Http 409 ''The workspace recovery window has expired'') \<and> db2 = db1) \<and>
    (\<exists>e. restoreWorkspace sv auditId2 t db1 (we_id w) actor db3 = (db3, Inl e))"
proof -
  let ?gone = "\<lambda>x. x\<lparr>we_deleted_at := Some now, we_updated_at := now\<rparr>"
  obtain e where e: "ae_id e = auditId" and db1: "db1 = db\<lparr>mg_workspaces := touch (we_id w) ?gone (mg_workspaces db),
      mg_audit := mg_audit db @ [e]\<rparr>" and r: "r = Inr ()"
    using softDelete_done [OF assms(1-5,7-9), of sv now] assms(12) by auto
  have ids: "map we_id (touch i f ws) = map we_id ws" if "\<And>x. we_id (f x) = we_id x" for i f ws
    using that by (simp add: touch_def)
  have keyed1: "keyed we_id (mg_workspaces db1)" "keyed membership_key (mg_memberships db1)"
    using assms(1,3) ids [of ?gone] by (simp_all add: db1 keyed_def)
  have w1: "?gone w \<in> set (mg_workspaces db1)" using assms(4) by (auto simp: db1 touch_def image_iff)
  have admin1: "is_active_admin db1 (we_id w) actor" using assms(7) by (simp add: db1 is_active_admin_def)
  have grace: "grace_days db1 (we_id w) = grace_days db (we_id w)" by (simp add: db1 grace_days_def)
  have hidden: "loadMonitoringAccess db1 (we_slug w) u = Inl (Http 404 ''Workspace not found'')" for u
  proof -
    have "\<not> (v \<in> set (mg_workspaces db1) \<and> we_slug v = we_slug w \<and> we_deleted_at v = None)" for v
      using keyed_unique [OF assms(2) _ assms(4)] by (auto simp: db1 touch_def split: if_splits)
    then have "(v, m) \<notin> set (workspace_members (\<lambda>v m. we_slug v = we_slug w \<and> we_deleted_at v = None \<and> mb_user m = u \<and>
        mb_status m = Active) db1)" for v m
      unfolding workspace_members_in by blast
    then have "workspace_members (\<lambda>v m. we_slug v = we_slug w \<and> we_deleted_at v = None \<and> mb_user m = u \<and>
        mb_status m = Active) db1 = []"
      by (rule no_pairs)
    then show ?thesis by (simp add: loadMonitoringAccess_def http_fail_def)
  qed
  have plan: "workspace_restoration db1 (we_id w) actor t =
      (if t < grace_end (grace_days db (we_id w)) now then Inr (?gone w, now)
       else Inl (Http 409 ''The workspace recovery window has expired''))"
    using restore_plan [OF keyed1 w1, of now actor t] assms(6) admin1 grace by simp
  have restored: "mg_workspaces db2 = touch (we_id w) (\<lambda>x. x\<lparr>we_updated_at := t\<rparr>) (mg_workspaces db)" "r2 = Inr (we_slug w)"
    if "t < grace_end (grace_days db (we_id w)) now"
  proof -
    let ?again = "\<lambda>x. x\<lparr>we_deleted_at := None, we_updated_at := t\<rparr>"
    have run: "restoreWorkspace sv auditId2 t db1 (we_id w) actor db1 =
        (db1\<lparr>mg_workspaces := map (\<lambda>x. if we_id x = we_id (?gone w) then ?again x else x) (mg_workspaces db1),
           mg_audit := mg_audit db1 @ [audit_row sv auditId2 \<lparr>ai_workspaceId = we_id (?gone w), ai_actorUserId = actor,
            ai_action = ''workspace.restore'', ai_resourceType = ''workspace'', ai_resourceId = we_id (?gone w),
            ai_before = Some (workspace_json (?gone w) (Some now)), ai_after = Some (workspace_json (?gone w) None),
            ai_now = t, ai_onlyIfChanged = True\<rparr>]\<rparr>, Inr (we_slug w))"
      unfolding restoreWorkspace_def perform_def plan if_P [OF that] sum.case prod.case
      by (subst workspace_batch [OF keyed1(1) w1])
        (use assms(6,8,10,11) admin1 e in \<open>auto simp: http_require_def db1 user_exists_def\<close>)
    show "r2 = Inr (we_slug w)" using run assms(13) by simp
    have "map (\<lambda>x. if we_id x = we_id w then ?again x else x) (touch (we_id w) ?gone (mg_workspaces db)) =
        touch (we_id w) (\<lambda>x. x\<lparr>we_updated_at := t\<rparr>) (mg_workspaces db)"
    proof -
      have "?again (?gone x) = x\<lparr>we_updated_at := t\<rparr>" if "x \<in> set (mg_workspaces db)" "we_id x = we_id w" for x
        using keyed_unique [OF assms(1) that(1) assms(4) that(2)] assms(5) by simp
      then show ?thesis by (simp add: touch_def)
    qed
    then show "mg_workspaces db2 = touch (we_id w) (\<lambda>x. x\<lparr>we_updated_at := t\<rparr>) (mg_workspaces db)"
      using run assms(13) by (auto simp: db1)
  qed
  have refused: "\<not> (we_id x = we_id w \<and> we_purge_started_at x = None)" if "x \<in> set (mg_workspaces db3)" for x
    using that by (auto simp: assms(14) touch_def split: if_splits)
  let ?p = "\<lambda>x. we_id x = we_id w \<and> we_deleted_at x = Some now \<and> we_purge_started_at x = None \<and>
    is_active_admin db3 (we_id x) actor"
  have idle: "update_where ?p f (mg_workspaces db3) = mg_workspaces db3" "count_where ?p (mg_workspaces db3) = 0" for f
    using refused update_where_none [of "mg_workspaces db3" ?p f] unfolding count_where_zero by blast+
  have "\<exists>e. restoreWorkspace sv auditId2 t db1 (we_id w) actor db3 = (db3, Inl e)"
    unfolding restoreWorkspace_def perform_def plan
    by (auto simp: commit_batch_def update_workspaces_def idle audit_idle http_require_def http_fail_def)
  moreover have "r2 = Inl (Http 409 ''The workspace recovery window has expired'') \<and> db2 = db1"
    if "\<not> t < grace_end (grace_days db (we_id w)) now"
    using assms(13) that by (simp add: restoreWorkspace_def perform_def plan)
  ultimately show ?thesis using r hidden restored by simp
qed

theorem workspace_restore_roundtrip_witness:
  "let db1 = fst (softDeleteWorkspace sample_server ''x'' 5 sample_management ''home'' ''a'' ''home'' sample_management)
   in map we_deleted_at (mg_workspaces db1) = [Some 5] \<and>
     restoreWorkspace sample_server ''y'' 604800004 db1 ''w'' ''a'' db1 =
       (fst (restoreWorkspace sample_server ''y'' 604800004 db1 ''w'' ''a'' db1), Inr ''home'') \<and>
     snd (restoreWorkspace sample_server ''y'' 604800005 db1 ''w'' ''a'' db1) =
       Inl (Http 409 ''The workspace recovery window has expired'')"
proof -
  let ?w = "\<lparr>we_id = ''w'', we_telemetry_pk = 1, we_slug = ''home'', we_name = ''Home'', we_dashboard = Some ''d'',
    we_sampling = 10, we_created_at = 0, we_updated_at = 0, we_deleted_at = None, we_purge_started_at = None\<rparr>"
  let ?delete = "softDeleteWorkspace sample_server ''x'' 5 sample_management ''home'' ''a'' ''home'' sample_management"
  obtain db1 r where del: "?delete = (db1, r)" by (rule prod.exhaust)
  have facts: "keyed we_id (mg_workspaces sample_management)" "keyed we_slug (mg_workspaces sample_management)"
    "keyed membership_key (mg_memberships sample_management)" "?w \<in> set (mg_workspaces sample_management)"
    "is_active_admin sample_management ''w'' ''a''" "user_exists sample_management ''a''"
    "mg_audit sample_management = []" "grace_days sample_management ''w'' = None"
    by (simp_all add: sample_management_def sample_members_def keyed_def membership_key_def is_active_admin_def
        active_admin_def user_exists_def grace_days_def)
  have deleted: "map we_deleted_at (mg_workspaces (fst ?delete)) = [Some 5]" by code_simp
  have "snd (restoreWorkspace sample_server ''y'' t db1 ''w'' ''a'' db1) =
      (if t < 604800005 then Inr ''home'' else Inl (Http 409 ''The workspace recovery window has expired''))" for t
  proof -
    obtain db2 r2 where res: "restoreWorkspace sample_server ''y'' t db1 ''w'' ''a'' db1 = (db2, r2)" by (rule prod.exhaust)
    show ?thesis
      using workspace_restore_roundtrip [OF facts(1-4) _ _ _ facts(6) _ _ _ _ _ refl,
          of "''x''" "''y''" sample_server 5 db1 r t db2 r2] facts(5,7,8) del res
      by (simp add: grace_end_def split: if_splits)
  qed
  then show ?thesis using deleted unfolding Let_def by (simp add: del prod_eq_iff)
qed

end
