(* ===== verification/Protobuf.thy ===== *)
theory Protobuf
  imports Web
begin

text \<open>
  The protocol buffer reader shared by stored machine reports and live frames
  (\<open>packages/contracts/src/protobuf.ts\<close>) and the decoder of a compressed machine report
  (\<open>packages/contracts/src/machine-report.ts\<close>). A byte is an integer below 256, a \<open>bigint\<close> is an integer, and
  the bit operations are those of the source. The inflater of the platform is a parameter: the chunks its
  stream delivers, and the error that ends the stream, if any.
\<close>

unbundle bit_operations_syntax

lemma bind_result_cong [fundef_cong]:
  "m = m' \<Longrightarrow> (\<And>x. m' = Inr x \<Longrightarrow> f x = f' x) \<Longrightarrow> bind_result m f = bind_result m' f'"
  by (cases m') auto

section \<open>Variable-length integers\<close>

definition safeProtobufNumber :: "int \<Rightarrow> int attempt" where
  "safeProtobufNumber v =
     (if v > max_safe_integer then raise_error ''protobuf_integer_out_of_range'' else Inr v)"

function varint_loop :: "blob \<Rightarrow> nat \<Rightarrow> nat \<Rightarrow> int \<Rightarrow> nat \<Rightarrow> (int \<times> nat) attempt" where
  "varint_loop bytes start offset v shift =
     (if \<not> (offset < length bytes \<and> offset < start + 10) then raise_error ''invalid_protobuf_varint''
      else let current = bytes ! offset in
        if offset = start + 9 \<and> current > 1 then raise_error ''invalid_protobuf_varint''
        else let v = v OR push_bit shift (current AND 127) in
          if current AND 128 = 0 then Inr (v, offset + 1)
          else varint_loop bytes start (offset + 1) v (shift + 7))"
  by pat_completeness auto
termination by (relation "measure (\<lambda>(bytes, start, offset, v, shift). start + 10 - offset)") auto

declare varint_loop.simps [simp del]

definition readProtobufVarint :: "blob \<Rightarrow> nat \<Rightarrow> (int \<times> nat) attempt" where
  "readProtobufVarint bytes start =
     (if \<not> is_safe_integer (int start) \<or> start \<ge> length bytes then raise_error ''invalid_protobuf_varint''
      else varint_loop bytes start start 0 0)"

definition skipProtobufField :: "blob \<Rightarrow> nat \<Rightarrow> int \<Rightarrow> nat attempt" where
  "skipProtobufField bytes offset wireType =
     (if wireType = 0 then bind_result (readProtobufVarint bytes offset) (\<lambda>(_, nxt). Inr nxt)
      else if wireType = 1 then
        (if offset + 8 > length bytes then raise_error ''invalid_protobuf_field'' else Inr (offset + 8))
      else if wireType = 2 then
        bind_result (readProtobufVarint bytes offset) (\<lambda>(len, lnext).
        bind_result (safeProtobufNumber len) (\<lambda>len.
          let nxt = lnext + nat len in
          if nxt > length bytes then raise_error ''invalid_protobuf_field'' else Inr nxt))
      else if wireType = 5 then
        (if offset + 4 > length bytes then raise_error ''invalid_protobuf_field'' else Inr (offset + 4))
      else raise_error ''invalid_protobuf_wire_type'')"

text \<open>Every read moves forward and stays inside the buffer: the decoding loops end.\<close>

lemma varint_loop_next:
  "varint_loop bytes start offset v shift = Inr (w, nxt) \<Longrightarrow> offset < nxt \<and> nxt \<le> length bytes"
proof (induction bytes start offset v shift rule: varint_loop.induct)
  case (1 bytes start offset v shift)
  from "1.prems" have step: "offset < length bytes" "offset < start + 10"
    by (auto simp: varint_loop.simps [of bytes start offset] raise_error_def split: if_splits)
  show ?case
  proof (cases "bytes ! offset AND 128 = 0")
    case True
    with "1.prems" step show ?thesis
      by (auto simp: varint_loop.simps [of bytes start offset] raise_error_def Let_def split: if_splits)
  next
    case False
    with "1.prems" step
    have "varint_loop bytes start (offset + 1) (v OR push_bit shift (bytes ! offset AND 127)) (shift + 7) = Inr (w, nxt)"
      and "\<not> (offset = start + 9 \<and> bytes ! offset > 1)"
      by (auto simp: varint_loop.simps [of bytes start offset] raise_error_def Let_def split: if_splits)
    with "1.IH" step False show ?thesis by fastforce
  qed
qed

lemma readProtobufVarint_next:
  "readProtobufVarint bytes start = Inr (w, nxt) \<Longrightarrow> start < nxt \<and> nxt \<le> length bytes"
  by (auto simp: readProtobufVarint_def raise_error_def split: if_splits dest: varint_loop_next)

lemma skipProtobufField_next:
  "skipProtobufField bytes offset wireType = Inr nxt \<Longrightarrow> offset < nxt \<and> nxt \<le> length bytes"
  by (auto simp: skipProtobufField_def raise_error_def bind_result_Inr_iff Let_def
      split: if_splits prod.splits dest: readProtobufVarint_next)

section \<open>Machine metric samples\<close>

record metric_sample =
  observedAt :: int
  cpuPermille :: int
  memoryUsedBytes :: int
  memoryTotalBytes :: int
  storageUsedBytes :: int
  storageTotalBytes :: int
  networkRxBps :: int
  networkTxBps :: int
  networkRxTotal :: int
  networkTxTotal :: int
  load1mMilli :: "int option"
  uptimeSeconds :: "int option"

text \<open>
  The loop over the fields of a sample, which \<open>machine-report.ts\<close> and \<open>live-frame.ts\<close> both contain; they differ
  in the message of the error for a known field of another wire type.
\<close>

definition initial_values :: "int option list" where
  "initial_values = map (\<lambda>index. if index < 10 then Some 0 else None) [0..<12]"

definition tag_field :: "int \<Rightarrow> int" where
  "tag_field tag = drop_bit 3 tag"

definition tag_wire :: "int \<Rightarrow> int" where
  "tag_wire tag = tag AND 7"

function metric_fields ::
  "string \<Rightarrow> blob \<Rightarrow> nat \<Rightarrow> int option list \<Rightarrow> int option list attempt" where
  "metric_fields message bytes offset values =
     (if \<not> offset < length bytes then Inr values
      else bind_result (readProtobufVarint bytes offset) (\<lambda>(tag, offset').
        if tag_field tag \<ge> 1 \<and> tag_field tag \<le> 12 then
          (if tag_wire tag \<noteq> 0 then raise_error message
           else bind_result (readProtobufVarint bytes offset') (\<lambda>(decoded, nxt).
             bind_result (safeProtobufNumber decoded) (\<lambda>number.
               metric_fields message bytes nxt (values[nat (tag_field tag) - 1 := Some number]))))
        else bind_result (skipProtobufField bytes offset' (tag_wire tag)) (\<lambda>nxt.
          metric_fields message bytes nxt values)))"
  by pat_completeness auto
termination
  by (relation "measure (\<lambda>(message, bytes, offset, values). length bytes - offset)")
    (auto dest!: readProtobufVarint_next skipProtobufField_next)

declare metric_fields.simps [simp del]

definition field_number :: "int option list \<Rightarrow> nat \<Rightarrow> int" where
  "field_number values index = (case values ! index of None \<Rightarrow> 0 | Some n \<Rightarrow> n)"

definition sample_of_values :: "int option list \<Rightarrow> metric_sample" where
  "sample_of_values values =
     \<lparr> observedAt = field_number values 0, cpuPermille = field_number values 1,
       memoryUsedBytes = field_number values 2, memoryTotalBytes = field_number values 3,
       storageUsedBytes = field_number values 4, storageTotalBytes = field_number values 5,
       networkRxBps = field_number values 6, networkTxBps = field_number values 7,
       networkRxTotal = field_number values 8, networkTxTotal = field_number values 9,
       load1mMilli = values ! 10, uptimeSeconds = values ! 11 \<rparr>"

definition decodeMetricSample :: "blob \<Rightarrow> metric_sample attempt" where
  "decodeMetricSample bytes =
     bind_result (metric_fields ''invalid_machine_metric_wire_type'' bytes 0 initial_values) (\<lambda>values.
       let s = sample_of_values values in
       if observedAt s \<le> 0 \<or> cpuPermille s > 1000
         \<or> (memoryTotalBytes s > 0 \<and> memoryUsedBytes s > memoryTotalBytes s)
         \<or> (storageTotalBytes s > 0 \<and> storageUsedBytes s > storageTotalBytes s)
       then raise_error ''invalid_machine_metric_value''
       else Inr s)"

section \<open>Compressed machine reports\<close>

definition MAX_COMPRESSED_BYTES :: nat where
  "MAX_COMPRESSED_BYTES = 64 * 1024"

definition MAX_DECOMPRESSED_BYTES :: nat where
  "MAX_DECOMPRESSED_BYTES = 256 * 1024"

text \<open>The stream of the inflater: its chunks, and the error it ends with when the input is corrupt.\<close>

type_synonym byte_stream = "blob list \<times> js_error option"

fun collect_chunks :: "blob list \<Rightarrow> js_error option \<Rightarrow> nat \<Rightarrow> blob \<Rightarrow> blob attempt" where
  "collect_chunks [] None received acc = Inr acc"
| "collect_chunks [] (Some e) received acc = Inl e"
| "collect_chunks (chunk # rest) e received acc =
     (if received + length chunk > MAX_DECOMPRESSED_BYTES then raise_error ''machine_report_too_large''
      else collect_chunks rest e (received + length chunk) (acc @ chunk))"

definition inflateZlib :: "(blob \<Rightarrow> byte_stream) \<Rightarrow> blob \<Rightarrow> blob attempt" where
  "inflateZlib inflate data =
     (if length data = 0 \<or> length data > MAX_COMPRESSED_BYTES then raise_error ''invalid_machine_report_size''
      else (case inflate data of (parts, e) \<Rightarrow> collect_chunks parts e 0 []))"

function report_samples :: "blob \<Rightarrow> nat \<Rightarrow> metric_sample list \<Rightarrow> metric_sample list attempt" where
  "report_samples bytes offset samples =
     (if \<not> offset < length bytes then Inr samples
      else bind_result (readProtobufVarint bytes offset) (\<lambda>(tag, offset').
        if tag_field tag = 5 then
          (if tag_wire tag \<noteq> 2 then raise_error ''invalid_machine_report_wire_type''
           else bind_result (readProtobufVarint bytes offset') (\<lambda>(len, lnext).
             bind_result (safeProtobufNumber len) (\<lambda>len.
               let stop = lnext + nat len in
               if stop > length bytes then raise_error ''invalid_machine_report_field''
               else bind_result (decodeMetricSample (take (stop - lnext) (drop lnext bytes))) (\<lambda>sample.
                 let samples' = samples @ [sample] in
                 if length samples' > 60 then raise_error ''machine_report_sample_limit''
                 else report_samples bytes stop samples'))))
        else bind_result (skipProtobufField bytes offset' (tag_wire tag)) (\<lambda>nxt.
          report_samples bytes nxt samples)))"
  by pat_completeness auto
termination
  by (relation "measure (\<lambda>(bytes, offset, samples). length bytes - offset)")
    (auto dest!: readProtobufVarint_next skipProtobufField_next)

declare report_samples.simps [simp del]

definition decodeCompressedMachineSamples ::
  "(blob \<Rightarrow> byte_stream) \<Rightarrow> blob \<Rightarrow> metric_sample list attempt" where
  "decodeCompressedMachineSamples inflate data =
     bind_result (inflateZlib inflate data) (\<lambda>bytes.
     bind_result (report_samples bytes 0 []) (\<lambda>samples.
       if length samples = 0 then raise_error ''machine_report_samples_missing'' else Inr samples))"

end
