(* ===== verification/Live_Frame.thy ===== *)
theory Live_Frame
  imports Live_Ticket Protobuf Check_Config
begin

text \<open>
  The binary frames of the live channel and the messages that viewers read
  (\<open>packages/contracts/src/live-frame.ts\<close>). AES-GCM is the parameter that the envelope of a secret takes.
\<close>

definition MAX_LIVE_FRAME_BYTES :: nat where
  "MAX_LIVE_FRAME_BYTES = 16 * 1024"

definition LIVE_FRESHNESS_MS :: int where
  "LIVE_FRESHNESS_MS = 20000"

definition FRAME_HEADER_BYTES :: nat where
  "FRAME_HEADER_BYTES = 48"

definition AUTHENTICATED_HEADER_BYTES :: nat where
  "AUTHENTICATED_HEADER_BYTES = 44"

definition LIVE_MAGIC :: blob where
  "LIVE_MAGIC = [0x41, 0x50, 0x4c, 0x31]"

record live_frame =
  lf_sessionId :: blob
  lf_machinePk :: int
  lf_sequence :: int
  lf_observedAt :: int
  lf_aad :: blob
  lf_ciphertext :: blob

record live_snapshot =
  ls_topic :: string
  ls_sample :: metric_sample

section \<open>Frames\<close>

text \<open>\<open>DataView\<close>: the big-endian number in \<open>n\<close> bytes, and the bytes of a number.\<close>

definition be_number :: "blob \<Rightarrow> int" where
  "be_number bs = foldl (\<lambda>v b. v * 256 + b) 0 bs"

definition view_number :: "blob \<Rightarrow> nat \<Rightarrow> nat \<Rightarrow> int" where
  "view_number bytes offset n = be_number (take n (drop offset bytes))"

fun be_bytes :: "nat \<Rightarrow> int \<Rightarrow> blob" where
  "be_bytes 0 v = []"
| "be_bytes (Suc n) v = be_bytes n (v div 256) @ [v mod 256]"

definition readUnsigned64 :: "blob \<Rightarrow> nat \<Rightarrow> int attempt" where
  "readUnsigned64 bytes offset = safeProtobufNumber (view_number bytes offset 8)"

definition parseAgentLiveFrame :: "blob \<Rightarrow> live_frame attempt" where
  "parseAgentLiveFrame bytes =
     (if length bytes < FRAME_HEADER_BYTES + 16 \<or> length bytes > MAX_LIVE_FRAME_BYTES
      then raise_error ''invalid_live_frame_size''
      else if take (length LIVE_MAGIC) bytes \<noteq> LIVE_MAGIC then raise_error ''invalid_live_frame_magic''
      else let ciphertextBytes = view_number bytes 44 4 in
        if ciphertextBytes < 16 \<or> int FRAME_HEADER_BYTES + ciphertextBytes \<noteq> int (length bytes)
        then raise_error ''invalid_live_frame_length''
        else
          bind_result (readUnsigned64 bytes 20) (\<lambda>machinePk.
          bind_result (readUnsigned64 bytes 28) (\<lambda>sequence.
          bind_result (readUnsigned64 bytes 36) (\<lambda>observed.
            Inr \<lparr>lf_sessionId = take 16 (drop 4 bytes), lf_machinePk = machinePk, lf_sequence = sequence,
              lf_observedAt = observed, lf_aad = take AUTHENTICATED_HEADER_BYTES bytes,
              lf_ciphertext = drop FRAME_HEADER_BYTES bytes\<rparr>))))"

definition decodeLiveMetricSample :: "blob \<Rightarrow> metric_sample attempt" where
  "decodeLiveMetricSample bytes =
     (if length bytes = 0 \<or> length bytes > 2048 then raise_error ''invalid_live_metric_size''
      else bind_result (metric_fields ''invalid_live_metric_wire_type'' bytes 0 initial_values) (\<lambda>values.
        let s = sample_of_values values in
        if observedAt s \<le> 0 \<or> cpuPermille s > 1000 then raise_error ''invalid_live_metric_value''
        else Inr s))"

definition nonce :: "blob \<Rightarrow> int \<Rightarrow> blob attempt" where
  "nonce prefix sequence =
     (if length prefix \<noteq> 4 \<or> \<not> is_safe_integer sequence \<or> sequence \<le> 0 then raise_error ''invalid_live_nonce''
      else Inr (prefix @ be_bytes 8 sequence))"

definition topic_of_machine :: "int \<Rightarrow> string" where
  "topic_of_machine machinePk = ''machine:'' @ int_to_string machinePk"

definition decryptAgentLiveFrame ::
  "mac \<Rightarrow> aes_gcm \<Rightarrow> live_frame \<Rightarrow> string \<Rightarrow> string \<Rightarrow> string \<Rightarrow> int \<Rightarrow> live_snapshot attempt" where
  "decryptAgentLiveFrame hmac gcm frame secret sessionId noncePrefix machinePk =
     bind_result (decodeBase64Url sessionId 16) (\<lambda>expectedSession.
     bind_result (require (length expectedSession = 16
         \<and> take (length expectedSession) (lf_sessionId frame) = expectedSession
         \<and> lf_machinePk frame = machinePk) ''live_frame_scope_mismatch'') (\<lambda>_.
     bind_result (deriveAgentLiveKey hmac secret sessionId) (\<lambda>key.
     bind_result (decodeBase64Url noncePrefix 4) (\<lambda>prefix.
     bind_result (nonce prefix (lf_sequence frame)) (\<lambda>iv.
       case gcm_decrypt gcm key iv (lf_aad frame) (lf_ciphertext frame) of
         None \<Rightarrow> Inl (JsDomException ''OperationError'')
       | Some plaintext \<Rightarrow>
           bind_result (decodeLiveMetricSample plaintext) (\<lambda>sample.
             if observedAt sample \<noteq> lf_observedAt frame then raise_error ''live_frame_time_mismatch''
             else Inr \<lparr>ls_topic = topic_of_machine (lf_machinePk frame), ls_sample = sample\<rparr>))))))"

section \<open>Messages to viewers\<close>

text \<open>\<open>JSON.stringify(snapshot)\<close> of the hub: the properties in the order in which the object gets them.\<close>

definition metric_json :: "int \<Rightarrow> json" where
  "metric_json n = JNum (of_int n)"

definition json_optional :: "int option \<Rightarrow> json" where
  "json_optional v = (case v of None \<Rightarrow> JNull | Some n \<Rightarrow> metric_json n)"

definition snapshot_json :: "live_snapshot \<Rightarrow> json" where
  "snapshot_json snapshot =
     (let s = ls_sample snapshot in
      JObj [(''type'', JStr ''snapshot''), (''topic'', JStr (ls_topic snapshot)),
        (''observedAt'', metric_json (observedAt s)), (''cpuPermille'', metric_json (cpuPermille s)),
        (''memoryUsedBytes'', metric_json (memoryUsedBytes s)),
        (''memoryTotalBytes'', metric_json (memoryTotalBytes s)),
        (''storageUsedBytes'', metric_json (storageUsedBytes s)),
        (''storageTotalBytes'', metric_json (storageTotalBytes s)),
        (''networkRxBps'', metric_json (networkRxBps s)), (''networkTxBps'', metric_json (networkTxBps s)),
        (''networkRxTotal'', metric_json (networkRxTotal s)),
        (''networkTxTotal'', metric_json (networkTxTotal s)),
        (''load1mMilli'', json_optional (load1mMilli s)),
        (''uptimeSeconds'', json_optional (uptimeSeconds s))])"

definition isSafeMetric :: "json option \<Rightarrow> bool" where
  "isSafeMetric v =
     (case v of Some (JNum x) \<Rightarrow> is_integer_num x \<and> is_safe_integer \<lfloor>x\<rfloor> \<and> x \<ge> 0 | _ \<Rightarrow> False)"

definition metricValue :: "(string \<times> json) list \<Rightarrow> string \<Rightarrow> int attempt" where
  "metricValue data key =
     (if isSafeMetric (jfield data key) then Inr (claim_int (jfield data key))
      else raise_error ''invalid_live_viewer_message'')"

definition optionalMetricValue :: "(string \<times> json) list \<Rightarrow> string \<Rightarrow> int option attempt" where
  "optionalMetricValue data key =
     (if jfield data key = Some JNull then Inr None
      else bind_result (metricValue data key) (\<lambda>n. Inr (Some n)))"

definition parseLiveViewerMessage :: "platform \<Rightarrow> string \<Rightarrow> live_snapshot attempt" where
  "parseLiveViewerMessage pf text =
     (if js_length text > 4096 then raise_error ''invalid_live_viewer_message''
      else case JSON_parse pf text of
        None \<Rightarrow> Inl JsEngineError
      | Some (JObj data) \<Rightarrow>
          bind_result (metricValue data ''observedAt'') (\<lambda>v1.
          bind_result (metricValue data ''cpuPermille'') (\<lambda>v2.
          bind_result (metricValue data ''memoryUsedBytes'') (\<lambda>v3.
          bind_result (metricValue data ''memoryTotalBytes'') (\<lambda>v4.
          bind_result (metricValue data ''storageUsedBytes'') (\<lambda>v5.
          bind_result (metricValue data ''storageTotalBytes'') (\<lambda>v6.
          bind_result (metricValue data ''networkRxBps'') (\<lambda>v7.
          bind_result (metricValue data ''networkTxBps'') (\<lambda>v8.
          bind_result (metricValue data ''networkRxTotal'') (\<lambda>v9.
          bind_result (metricValue data ''networkTxTotal'') (\<lambda>v10.
          bind_result (optionalMetricValue data ''load1mMilli'') (\<lambda>v11.
          bind_result (optionalMetricValue data ''uptimeSeconds'') (\<lambda>v12.
            (case jfield data ''topic'' of
               Some (JStr topic) \<Rightarrow>
                 if jfield data ''type'' \<noteq> Some (JStr ''snapshot'') \<or> \<not> machine_topic topic \<or> v2 > 1000
                 then raise_error ''invalid_live_viewer_message''
                 else Inr \<lparr>ls_topic = topic, ls_sample =
                   \<lparr>observedAt = v1, cpuPermille = v2, memoryUsedBytes = v3, memoryTotalBytes = v4,
                    storageUsedBytes = v5, storageTotalBytes = v6, networkRxBps = v7, networkTxBps = v8,
                    networkRxTotal = v9, networkTxTotal = v10, load1mMilli = v11, uptimeSeconds = v12\<rparr>\<rparr>
             | _ \<Rightarrow> raise_error ''invalid_live_viewer_message'')))))))))))))
      | Some _ \<Rightarrow> raise_error ''invalid_live_viewer_message'')"

end
