(* ===== verification/Live_Hub.thy ===== *)
theory Live_Hub
  imports Live_Frame
begin

text \<open>
  The live worker (\<open>workers/live/src\<close>): the durable object that relays frames of agents to the viewers of a
  machine (\<open>live-hub.ts\<close>) and the entry point that admits connections by ticket (\<open>index.ts\<close>).

  A socket carries the tags it was accepted with and the attachment that \<open>serializeAttachment\<close> stored, which
  survives hibernation; \<open>sequenceStates\<close> is memory of the object. \<open>close\<close> marks a socket, which
  \<open>getWebSockets\<close> may still return until its close event; \<open>send\<close> throws on a marked socket, and what is sent
  is appended to the log of the hub. The handler of a frame waits for the decryption, so it is two functions:
  other events may come between them. \<open>Date.now()\<close> does not move while a handler runs, so one value of it
  is an argument.
\<close>

section \<open>Sockets and attachments\<close>

datatype socket_attachment =
    Agent_socket (sa_subjectId: string) (sa_topic: string) (sa_expiresAt: int) (sa_sessionId: string)
      (sa_noncePrefix: string) (sa_highestSequence: "int option")
  | Viewer_socket (sa_subjectId: string) (sa_topic: string) (sa_expiresAt: int)

definition is_agent :: "socket_attachment \<Rightarrow> bool" where
  "is_agent a = (case a of Agent_socket _ _ _ _ _ _ \<Rightarrow> True | Viewer_socket _ _ _ \<Rightarrow> False)"

record socket =
  sk_id :: nat
  sk_tags :: "string list"
  sk_value :: json
  sk_closed :: "(int \<times> string) option"

record seq_state =
  committed :: "int option"
  pending :: "int list"

record hub =
  hb_sockets :: "socket list"
  hb_states :: "string \<Rightarrow> seq_state option"
  hb_sent :: "(nat \<times> string) list"
  hb_next :: nat

definition DEMAND_TTL_MS :: int where
  "DEMAND_TTL_MS = 30000"

definition MAX_LIVE_SEQUENCE :: int where
  "MAX_LIVE_SEQUENCE = 1000000"

definition MAX_SEQUENCE_JUMP :: int where
  "MAX_SEQUENCE_JUMP = 1024"

definition MAX_AGENT_CONNECTIONS_PER_SESSION :: nat where
  "MAX_AGENT_CONNECTIONS_PER_SESSION = 2"

definition MAX_VIEWER_CONNECTIONS_PER_TOPIC :: nat where
  "MAX_VIEWER_CONNECTIONS_PER_TOPIC = 4"

definition liveConnectionAvailable :: "nat \<Rightarrow> nat \<Rightarrow> bool" where
  "liveConnectionAvailable activeConnections limit \<longleftrightarrow>
     is_safe_integer (int activeConnections) \<and> activeConnections < limit"

text \<open>The value that \<open>serializeAttachment\<close> stores, and its validation when it is read back.\<close>

fun attachment_value :: "socket_attachment \<Rightarrow> json" where
  "attachment_value (Agent_socket subject topic expires session prefix highest) =
     JObj [(''version'', JNum 1), (''role'', JStr ''agent''), (''subjectId'', JStr subject),
       (''topics'', JArr [JStr topic]), (''projection'', JStr ''internal''), (''expiresAt'', metric_json expires),
       (''sessionId'', JStr session), (''noncePrefix'', JStr prefix), (''highestSequence'', json_optional highest)]"
| "attachment_value (Viewer_socket subject topic expires) =
     JObj [(''version'', JNum 1), (''role'', JStr ''viewer''), (''subjectId'', JStr subject),
       (''topics'', JArr [JStr topic]), (''projection'', JStr ''machine-summary''),
       (''expiresAt'', metric_json expires)]"

definition stored_sequence_ok :: "json option \<Rightarrow> bool" where
  "stored_sequence_ok v =
     (case v of
        None \<Rightarrow> True
      | Some JNull \<Rightarrow> True
      | Some (JNum x) \<Rightarrow>
          is_integer_num x \<and> is_safe_integer \<lfloor>x\<rfloor> \<and> \<not> x < 1 \<and> \<not> x > of_int MAX_LIVE_SEQUENCE
      | _ \<Rightarrow> False)"

definition parse_attachment :: "json \<Rightarrow> socket_attachment option" where
  "parse_attachment stored_value =
     (case stored_value of
        JObj data \<Rightarrow>
          (case (jfield data ''subjectId'', jfield data ''topics'', jfield data ''expiresAt'') of
             (Some (JStr subject), Some (JArr [JStr topic]), Some (JNum expires)) \<Rightarrow>
               if jfield data ''version'' \<noteq> Some (JNum 1)
                 \<or> (jfield data ''role'' \<noteq> Some (JStr ''agent'') \<and> jfield data ''role'' \<noteq> Some (JStr ''viewer''))
                 \<or> \<not> (is_integer_num expires \<and> is_safe_integer \<lfloor>expires\<rfloor>)
               then None
               else
                 (case (jfield data ''role'' = Some (JStr ''agent'')
                     \<and> jfield data ''projection'' = Some (JStr ''internal''),
                     jfield data ''sessionId'', jfield data ''noncePrefix'') of
                    (True, Some (JStr session), Some (JStr prefix)) \<Rightarrow>
                      if \<not> stored_sequence_ok (jfield data ''highestSequence'') then None
                      else Some (Agent_socket subject topic \<lfloor>expires\<rfloor> session prefix
                        (case jfield data ''highestSequence'' of Some (JNum x) \<Rightarrow> Some \<lfloor>x\<rfloor> | _ \<Rightarrow> None))
                  | _ \<Rightarrow>
                      if jfield data ''role'' = Some (JStr ''viewer'')
                        \<and> jfield data ''projection'' = Some (JStr ''machine-summary'')
                      then Some (Viewer_socket subject topic \<lfloor>expires\<rfloor>)
                      else None)
           | _ \<Rightarrow> None)
      | _ \<Rightarrow> None)"

definition attachment :: "socket \<Rightarrow> socket_attachment option" where
  "attachment s = parse_attachment (sk_value s)"

text \<open>\<open>Number\<close> of a string of decimal digits.\<close>

definition digits_number :: "string \<Rightarrow> int" where
  "digits_number s = foldl (\<lambda>v c. v * 10 + (char_code c - 48)) 0 s"

definition topicMachinePk :: "string \<Rightarrow> int option" where
  "topicMachinePk topic =
     (if machine_topic topic then
        (let n = digits_number (drop 8 topic) in if is_safe_integer n then Some n else None)
      else None)"

section \<open>Operations on sockets\<close>

definition getWebSockets :: "hub \<Rightarrow> string \<Rightarrow> socket list" where
  "getWebSockets h tag = filter (\<lambda>s. tag \<in> set (sk_tags s)) (hb_sockets h)"

definition update_socket :: "nat \<Rightarrow> (socket \<Rightarrow> socket) \<Rightarrow> hub \<Rightarrow> hub" where
  "update_socket i f h = h\<lparr>hb_sockets := map (\<lambda>s. if sk_id s = i then f s else s) (hb_sockets h)\<rparr>"

text \<open>The first \<open>close\<close> decides the code; a later one has no effect.\<close>

definition close_socket :: "nat \<Rightarrow> int \<Rightarrow> string \<Rightarrow> hub \<Rightarrow> hub" where
  "close_socket i code reason =
     update_socket i (\<lambda>s. if sk_closed s = None then s\<lparr>sk_closed := Some (code, reason)\<rparr> else s)"

definition serializeAttachment :: "nat \<Rightarrow> socket_attachment \<Rightarrow> hub \<Rightarrow> hub" where
  "serializeAttachment i a = update_socket i (\<lambda>s. s\<lparr>sk_value := attachment_value a\<rparr>)"

text \<open>\<open>try { socket.send(text) } catch { socket.close(code, reason) }\<close>.\<close>

definition send_or_close :: "socket \<Rightarrow> string \<Rightarrow> int \<Rightarrow> string \<Rightarrow> hub \<Rightarrow> hub" where
  "send_or_close s text code reason h =
     (if sk_closed s = None then h\<lparr>hb_sent := hb_sent h @ [(sk_id s, text)]\<rparr>
      else close_socket (sk_id s) code reason h)"

definition activeConnections :: "hub \<Rightarrow> string \<Rightarrow> bool \<Rightarrow> int \<Rightarrow> hub \<times> nat" where
  "activeConnections h tag agent now =
     fold (\<lambda>s (h, active).
         case attachment s of
           None \<Rightarrow> (close_socket (sk_id s) 1008 ''Ticket expired'' h, active)
         | Some current \<Rightarrow>
             if sa_expiresAt current \<le> now then (close_socket (sk_id s) 1008 ''Ticket expired'' h, active)
             else (h, if is_agent current = agent then active + 1 else active))
       (getWebSockets h tag) (h, 0)"

definition topic_tag :: "string \<Rightarrow> string" where
  "topic_tag topic = ''topic:'' @ topic"

definition session_tag :: "string \<Rightarrow> string" where
  "session_tag session = ''session:'' @ session"

definition viewer_tag :: "string \<Rightarrow> string \<Rightarrow> string" where
  "viewer_tag subject topic = ''viewer:'' @ subject @ '':'' @ topic"

definition hasViewer :: "hub \<Rightarrow> string \<Rightarrow> nat option \<Rightarrow> int \<Rightarrow> bool" where
  "hasViewer h topic excluded now =
     list_ex (\<lambda>s.
         if Some (sk_id s) = excluded then False
         else case attachment s of
             None \<Rightarrow> False
           | Some current \<Rightarrow> \<not> is_agent current \<and> sa_expiresAt current > now)
       (getWebSockets h (topic_tag topic))"

definition demand_text :: "platform \<Rightarrow> string \<Rightarrow> string \<Rightarrow> bool \<Rightarrow> int \<Rightarrow> string" where
  "demand_text pf topic session active now =
     JSON_stringify pf (JObj [(''type'', JStr ''demand''), (''topic'', JStr topic), (''sessionId'', JStr session),
       (''active'', JBool active), (''expiresAt'', metric_json (if active then now + DEMAND_TTL_MS else now))])"

definition sendDemand :: "platform \<Rightarrow> hub \<Rightarrow> string \<Rightarrow> nat option \<Rightarrow> int \<Rightarrow> hub" where
  "sendDemand pf h topic excludedViewer now =
     (let active = hasViewer h topic excludedViewer now in
      fold (\<lambda>s h.
          case attachment s of
            Some (Agent_socket _ _ expires session _ _) \<Rightarrow>
              if expires \<le> now then h
              else send_or_close s (demand_text pf topic session active now) 1011 ''Demand delivery failed'' h
          | _ \<Rightarrow> h)
        (getWebSockets h (topic_tag topic)) h)"

section \<open>Accepting a connection\<close>

text \<open>
  What the handlers take from the environment: the JSON functions, HMAC, AES-GCM, \<open>Number\<close> of a text (none
  for \<open>NaN\<close>) and the secret of the worker.
\<close>

record live_env =
  le_platform :: platform
  le_hmac :: mac
  le_gcm :: aes_gcm
  le_Number :: "string \<Rightarrow> rat option"
  le_secret :: string

datatype live_response =
    Response int string headers
  | Upgraded nat headers

definition header :: "headers \<Rightarrow> string \<Rightarrow> string option" where
  "header hs name = map_of hs (toLowerCase name)"

definition unauthorized :: live_response where
  "unauthorized = Response 401 ''Unauthorized'' []"

text \<open>The check of the common headers: the subject, the topic and the expiry.\<close>

definition safe_number :: "live_env \<Rightarrow> string option \<Rightarrow> int option" where
  "safe_number env text =
     (case text of
        None \<Rightarrow> Some 0
      | Some t \<Rightarrow> (case le_Number env t of
            Some x \<Rightarrow> if is_integer_num x \<and> is_safe_integer \<lfloor>x\<rfloor> then Some \<lfloor>x\<rfloor> else None
          | None \<Rightarrow> None))"

definition base64_size_is :: "nat \<Rightarrow> string option \<Rightarrow> bool attempt" where
  "base64_size_is n text =
     (case text of
        None \<Rightarrow> Inr False
      | Some [] \<Rightarrow> Inr False
      | Some t \<Rightarrow> bind_result (decodeBase64Url t n) (\<lambda>bytes. Inr (length bytes = n)))"

text \<open>The attachment that the headers describe: none when the request is to be refused with status 401.\<close>

definition requested_attachment :: "live_env \<Rightarrow> headers \<Rightarrow> int \<Rightarrow> socket_attachment option attempt" where
  "requested_attachment env hs now =
     (case JSON_parse (le_platform env)
         (case header hs ''x-alphaping-topics'' of None \<Rightarrow> ''null'' | Some t \<Rightarrow> t) of
        Some (JArr [JStr topic]) \<Rightarrow>
          (case (header hs ''x-alphaping-subject'', safe_number env (header hs ''x-alphaping-expires'')) of
             (Some subject, Some expires) \<Rightarrow>
               if (header hs ''x-alphaping-role'' \<noteq> Some ''agent'' \<and> header hs ''x-alphaping-role'' \<noteq> Some ''viewer'')
                 \<or> subject = [] \<or> js_length subject > 128 \<or> expires \<le> now
                 \<or> topicMachinePk topic = None \<or> header hs ''x-alphaping-protocol'' \<noteq> Some ''alphaping.v1''
               then Inr None
               else if header hs ''x-alphaping-role'' = Some ''agent'' then
                 (if header hs ''x-alphaping-projection'' \<noteq> Some ''internal'' then Inr None
                  else bind_result (base64_size_is 16 (header hs ''x-alphaping-session'')) (\<lambda>session_ok.
                    if \<not> session_ok then Inr None
                    else bind_result (base64_size_is 4 (header hs ''x-alphaping-nonce-prefix'')) (\<lambda>prefix_ok.
                      if \<not> prefix_ok then Inr None
                      else Inr (Some (Agent_socket subject topic expires
                        (the (header hs ''x-alphaping-session'')) (the (header hs ''x-alphaping-nonce-prefix''))
                        None)))))
               else if header hs ''x-alphaping-projection'' \<noteq> Some ''machine-summary'' then Inr None
               else Inr (Some (Viewer_socket subject topic expires))
           | _ \<Rightarrow> Inr None)
      | _ \<Rightarrow> Inr None)"

fun connection_tag :: "socket_attachment \<Rightarrow> string" where
  "connection_tag (Agent_socket _ _ _ session _ _) = session_tag session"
| "connection_tag (Viewer_socket subject topic _) = viewer_tag subject topic"

definition connection_limit :: "socket_attachment \<Rightarrow> nat" where
  "connection_limit a =
     (if is_agent a then MAX_AGENT_CONNECTIONS_PER_SESSION else MAX_VIEWER_CONNECTIONS_PER_TOPIC)"

definition new_socket :: "nat \<Rightarrow> socket_attachment \<Rightarrow> socket" where
  "new_socket i a =
     \<lparr>sk_id = i,
      sk_tags = [if is_agent a then ''agent'' else ''viewer'', topic_tag (sa_topic a), connection_tag a],
      sk_value = attachment_value a, sk_closed = None\<rparr>"

definition hub_fetch :: "live_env \<Rightarrow> hub \<Rightarrow> headers \<Rightarrow> int \<Rightarrow> (hub \<times> live_response) attempt" where
  "hub_fetch env h hs now =
     (if map_option toLowerCase (header hs ''Upgrade'') \<noteq> Some ''websocket''
      then Inr (h, Response 426 ''Upgrade required'' [])
      else bind_result (requested_attachment env hs now) (\<lambda>requested.
        case requested of
          None \<Rightarrow> Inr (h, unauthorized)
        | Some a \<Rightarrow>
            (case activeConnections h (connection_tag a) (is_agent a) now of
               (h1, active) \<Rightarrow>
                 if \<not> liveConnectionAvailable active (connection_limit a)
                 then Inr (h1, Response 429 ''Connection limit reached'' [(''retry-after'', ''5'')])
                 else
                   let i = hb_next h1;
                       h2 = h1\<lparr>hb_sockets := hb_sockets h1 @ [new_socket i a], hb_next := i + 1\<rparr>
                   in Inr (sendDemand (le_platform env) h2 (sa_topic a) None now,
                        Upgraded i [(''sec-websocket-protocol'', ''alphaping.v1'')]))))"

section \<open>Messages\<close>

datatype live_message = Text_message string | Binary_message blob

text \<open>\<open>Math.max(current ?? 0, v)\<close>.\<close>

definition raise_to :: "int option \<Rightarrow> int \<Rightarrow> int" where
  "raise_to current v = max (case current of None \<Rightarrow> 0 | Some c \<Rightarrow> c) v"

definition socket_of :: "hub \<Rightarrow> nat \<Rightarrow> socket option" where
  "socket_of h i = find (\<lambda>s. sk_id s = i) (hb_sockets h)"

text \<open>The sockets of the session, the socket of the message first.\<close>

definition session_sockets :: "hub \<Rightarrow> nat \<Rightarrow> string \<Rightarrow> nat list" where
  "session_sockets h i session =
     i # filter (\<lambda>j. j \<noteq> i) (map sk_id (getWebSockets h (session_tag session)))"

definition session_sequence :: "hub \<Rightarrow> string \<Rightarrow> nat \<Rightarrow> int option" where
  "session_sequence h session i =
     (case socket_of h i of
        None \<Rightarrow> None
      | Some s \<Rightarrow> (case attachment s of
            Some (Agent_socket _ _ _ session' _ highest) \<Rightarrow> if session' = session then highest else None
          | _ \<Rightarrow> None))"

definition stored_committed :: "hub \<Rightarrow> string \<Rightarrow> nat list \<Rightarrow> int option \<Rightarrow> int option" where
  "stored_committed h session ids initial =
     fold (\<lambda>i acc. case session_sequence h session i of None \<Rightarrow> acc | Some v \<Rightarrow> Some (raise_to acc v))
       ids initial"

text \<open>The entry of the session, created or raised to what the attachments hold.\<close>

definition refreshed_state :: "hub \<Rightarrow> string \<Rightarrow> int option \<Rightarrow> seq_state" where
  "refreshed_state h session kept =
     (case hb_states h session of
        None \<Rightarrow> \<lparr>committed = kept, pending = []\<rparr>
      | Some st \<Rightarrow> (case kept of None \<Rightarrow> st | Some v \<Rightarrow> st\<lparr>committed := Some (raise_to (committed st) v)\<rparr>))"

definition highest_sequence :: "seq_state \<Rightarrow> int option" where
  "highest_sequence st = fold (\<lambda>v acc. Some (raise_to acc v)) (pending st) (committed st)"

text \<open>What the handler of a frame keeps while it waits for the decryption.\<close>

record inflight =
  if_socket :: nat
  if_frame :: live_frame
  if_session :: string
  if_noncePrefix :: string
  if_topic :: string
  if_machinePk :: int
  if_sockets :: "nat list"
  if_now :: int

text \<open>
  The part of the handler before the decryption, for a frame of an agent; no frame is in flight when it
  throws, and the entry of the session stays as refreshed when it throws because of the sequence.
\<close>

definition begin_frame ::
  "hub \<Rightarrow> nat \<Rightarrow> string \<Rightarrow> string \<Rightarrow> string \<Rightarrow> int option \<Rightarrow> blob \<Rightarrow> int \<Rightarrow> hub \<times> inflight option" where
  "begin_frame h i topic session prefix highest message now =
     (case (parseAgentLiveFrame message, topicMachinePk topic) of
        (Inr frame, Some machinePk) \<Rightarrow>
          if lf_sequence frame \<le> 0 \<or> lf_sequence frame > MAX_LIVE_SEQUENCE
            \<or> lf_observedAt frame < now - LIVE_FRESHNESS_MS \<or> lf_observedAt frame > now + 5000
          then (h, None)
          else
            let ids = session_sockets h i session;
                st = refreshed_state h session (stored_committed h session ids highest)
            in if (case highest_sequence st of
                     None \<Rightarrow> False
                   | Some v \<Rightarrow> lf_sequence frame \<le> v \<or> lf_sequence frame > v + MAX_SEQUENCE_JUMP)
               then (h\<lparr>hb_states := (hb_states h)(session \<mapsto> st)\<rparr>, None)
               else
                 (h\<lparr>hb_states := (hb_states h)(session \<mapsto> st\<lparr>pending := pending st @ [lf_sequence frame]\<rparr>)\<rparr>,
                  Some \<lparr>if_socket = i, if_frame = frame, if_session = session, if_noncePrefix = prefix,
                    if_topic = topic, if_machinePk = machinePk, if_sockets = ids, if_now = now\<rparr>)
      | _ \<Rightarrow> (h, None))"

definition demand_refresh :: "platform \<Rightarrow> live_message \<Rightarrow> bool" where
  "demand_refresh pf message =
     (case message of
        Binary_message _ \<Rightarrow> False
      | Text_message text \<Rightarrow>
          js_length text \<le> 128 \<and>
          (case JSON_parse pf text of
             Some (JObj data) \<Rightarrow> jfield data ''type'' = Some (JStr ''demand_refresh'')
           | _ \<Rightarrow> False))"

definition webSocketMessage ::
  "live_env \<Rightarrow> hub \<Rightarrow> nat \<Rightarrow> live_message \<Rightarrow> int \<Rightarrow> hub \<times> inflight option" where
  "webSocketMessage env h i message now =
     (case Option.bind (socket_of h i) attachment of
        None \<Rightarrow> (close_socket i 1008 ''Ticket expired'' h, None)
      | Some current \<Rightarrow>
          if sa_expiresAt current \<le> now then (close_socket i 1008 ''Ticket expired'' h, None)
          else (case current of
              Viewer_socket _ topic _ \<Rightarrow>
                if demand_refresh (le_platform env) message
                then (sendDemand (le_platform env) h topic None now, None)
                else (close_socket i 1003 ''Unsupported viewer message'' h, None)
            | Agent_socket _ topic _ session prefix highest \<Rightarrow>
                (case message of
                   Text_message _ \<Rightarrow> (close_socket i 1003 ''Binary live frames required'' h, None)
                 | Binary_message bytes \<Rightarrow>
                     if length bytes > MAX_LIVE_FRAME_BYTES then (close_socket i 1009 ''Frame too large'' h, None)
                     else if \<not> hasViewer h topic None now then (h, None)
                     else (case begin_frame h i topic session prefix highest bytes now of
                         (h', Some fl) \<Rightarrow> (h', Some fl)
                       | (h', None) \<Rightarrow> (close_socket i 1008 ''Invalid live frame'' h', None)))))"

text \<open>After the decryption: the sequence is committed, stored in the attachments and the snapshot relayed.\<close>

definition remove_pending :: "int \<Rightarrow> seq_state \<Rightarrow> seq_state" where
  "remove_pending v st = st\<lparr>pending := filter (\<lambda>w. w \<noteq> v) (pending st)\<rparr>"

definition store_committed :: "string \<Rightarrow> int \<Rightarrow> nat \<Rightarrow> hub \<Rightarrow> hub" where
  "store_committed session v i h =
     (case Option.bind (socket_of h i) attachment of
        Some (Agent_socket subject topic expires session' prefix highest) \<Rightarrow>
          if session' = session \<and> (case highest of None \<Rightarrow> 0 | Some w \<Rightarrow> w) < v
          then serializeAttachment i (Agent_socket subject topic expires session' prefix (Some v)) h
          else h
      | _ \<Rightarrow> h)"

definition relay_snapshot :: "string \<Rightarrow> string \<Rightarrow> int \<Rightarrow> hub \<Rightarrow> hub" where
  "relay_snapshot topic text now h =
     fold (\<lambda>s h.
         case attachment s of
           Some (Viewer_socket _ _ expires) \<Rightarrow>
             if expires > now then send_or_close s text 1011 ''Snapshot delivery failed'' h else h
         | _ \<Rightarrow> h)
       (getWebSockets h (topic_tag topic)) h"

definition finish_frame :: "live_env \<Rightarrow> hub \<Rightarrow> inflight \<Rightarrow> hub \<times> live_snapshot option" where
  "finish_frame env h fl =
     (let session = if_session fl; sequence = lf_sequence (if_frame fl);
          st = (case hb_states h session of Some st \<Rightarrow> st | None \<Rightarrow> \<lparr>committed = None, pending = []\<rparr>)
      in case decryptAgentLiveFrame (le_hmac env) (le_gcm env) (if_frame fl) (le_secret env) session
           (if_noncePrefix fl) (if_machinePk fl) of
        Inl _ \<Rightarrow>
          (close_socket (if_socket fl) 1008 ''Invalid live frame''
            (h\<lparr>hb_states := (hb_states h)(session \<mapsto> remove_pending sequence st)\<rparr>), None)
      | Inr snapshot \<Rightarrow>
          let v = raise_to (committed st) sequence;
              h1 = h\<lparr>hb_states := (hb_states h)(session \<mapsto>
                (remove_pending sequence st)\<lparr>committed := Some v\<rparr>)\<rparr>;
              h2 = fold (store_committed session v) (if_sockets fl) h1
          in (relay_snapshot (if_topic fl) (JSON_stringify (le_platform env) (snapshot_json snapshot)) (if_now fl) h2,
              Some snapshot))"

text \<open>\<open>webSocketClose\<close>, which \<open>webSocketError\<close> calls too; the platform then drops the socket.\<close>

definition session_in_use :: "hub \<Rightarrow> nat \<Rightarrow> string \<Rightarrow> bool" where
  "session_in_use h i session =
     list_ex (\<lambda>s. sk_id s \<noteq> i \<and> sk_closed s = None
         \<and> (case attachment s of None \<Rightarrow> False | Some a \<Rightarrow> is_agent a))
       (getWebSockets h (session_tag session))"

definition nothing_pending :: "hub \<Rightarrow> string \<Rightarrow> bool" where
  "nothing_pending h session = (case hb_states h session of None \<Rightarrow> True | Some st \<Rightarrow> pending st = [])"

definition webSocketClose :: "live_env \<Rightarrow> hub \<Rightarrow> nat \<Rightarrow> int \<Rightarrow> hub" where
  "webSocketClose env h i now =
     (case Option.bind (socket_of h i) attachment of
        None \<Rightarrow> h
      | Some (Viewer_socket _ topic _) \<Rightarrow> sendDemand (le_platform env) h topic (Some i) now
      | Some (Agent_socket _ _ _ session _ _) \<Rightarrow>
          if \<not> session_in_use h i session \<and> nothing_pending h session
          then h\<lparr>hb_states := (hb_states h)(session := None)\<rparr>
          else h)"

definition drop_socket :: "nat \<Rightarrow> hub \<Rightarrow> hub" where
  "drop_socket i h = h\<lparr>hb_sockets := filter (\<lambda>s. sk_id s \<noteq> i) (hb_sockets h)\<rparr>"

section \<open>The entry point\<close>

record live_request =
  rq_method :: string
  rq_pathname :: string
  rq_headers :: headers

text \<open>The workspace in a path \<open>/v1/live/<workspace>\<close>.\<close>

definition live_path :: "string \<Rightarrow> string option" where
  "live_path path =
     (if startsWith path ''/v1/live/'' \<and> drop 9 path \<noteq> [] \<and> CHR ''/'' \<notin> set (drop 9 path)
      then Some (drop 9 path) else None)"

definition latin1 :: "string \<Rightarrow> bool" where
  "latin1 s \<longleftrightarrow> list_all (\<lambda>c. of_char c < (196 :: nat)) s"

definition headers_set :: "string \<Rightarrow> string \<Rightarrow> headers \<Rightarrow> headers attempt" where
  "headers_set name text hs =
     (if \<not> header_name_ok name \<or> \<not> header_value_ok (trim_header text) \<or> \<not> latin1 text then Inl JsEngineError
      else Inr (headers_delete name hs @ [(toLowerCase name, trim_header text)]))"

fun set_all :: "(string \<times> string) list \<Rightarrow> headers \<Rightarrow> headers attempt" where
  "set_all [] hs = Inr hs"
| "set_all ((name, text) # rest) hs = bind_result (headers_set name text hs) (set_all rest)"

definition claim_headers :: "platform \<Rightarrow> ticket_claims \<Rightarrow> (string \<times> string) list" where
  "claim_headers pf claims =
     (let b = ticket_base claims in
      [(''x-alphaping-role'', case claims of Agent_claims _ _ _ \<Rightarrow> ''agent'' | Viewer_claims _ \<Rightarrow> ''viewer''),
       (''x-alphaping-subject'', lc_subjectId b), (''x-alphaping-expires'', int_to_string (lc_expiresAt b)),
       (''x-alphaping-topics'', JSON_stringify pf (JArr (map JStr (lc_topics b)))),
       (''x-alphaping-projection'',
         case claims of Agent_claims _ _ _ \<Rightarrow> ''internal'' | Viewer_claims _ \<Rightarrow> ''machine-summary''),
       (''x-alphaping-protocol'', LIVE_PROTOCOL)]
      @ (case claims of
           Agent_claims _ session prefix \<Rightarrow>
             [(''x-alphaping-session'', session), (''x-alphaping-nonce-prefix'', prefix)]
         | Viewer_claims _ \<Rightarrow> []))"

definition not_found :: live_response where
  "not_found = Response 404 ''Not found'' []"

text \<open>The hub of a workspace is addressed by the name in the ticket: the hubs are a map from workspaces.\<close>

definition live_admission :: "live_env \<Rightarrow> live_request \<Rightarrow> int \<Rightarrow> (string \<times> headers) option" where
  "live_admission env request now =
     (if rq_method request \<noteq> ''GET'' then None
      else case live_path (rq_pathname request) of
        None \<Rightarrow> None
      | Some workspace \<Rightarrow>
          (case bind_result (ticketFromProtocols (rq_headers request)) (\<lambda>token.
               verifyLiveTicket (le_platform env) (le_hmac env) token (le_secret env) now) of
             Inl _ \<Rightarrow> None
           | Inr claims \<Rightarrow>
               if lc_workspaceId (ticket_base claims) \<noteq> workspace then None
               else (case set_all (claim_headers (le_platform env) claims) (rq_headers request) of
                   Inl _ \<Rightarrow> None
                 | Inr hs \<Rightarrow> Some (workspace, hs))))"

definition live_fetch ::
  "live_env \<Rightarrow> (string \<Rightarrow> hub) \<Rightarrow> live_request \<Rightarrow> int \<Rightarrow> ((string \<Rightarrow> hub) \<times> live_response) attempt" where
  "live_fetch env hubs request now =
     (case live_admission env request now of
        None \<Rightarrow> Inr (hubs, not_found)
      | Some (workspace, hs) \<Rightarrow>
          bind_result (hub_fetch env (hubs workspace) hs now) (\<lambda>(h, response).
            Inr (hubs(workspace := h), response)))"

end
