(* ===== verification/Protobuf_Correctness.thy ===== *)
theory Protobuf_Correctness
  imports Protobuf
begin

text \<open>
  Reference encoders of the wire format, the round trip through the decoders of \<open>protobuf.ts\<close> and
  \<open>machine-report.ts\<close>, and what every sample that the decoder accepts satisfies.
\<close>

unbundle bit_operations_syntax

section \<open>Bits of a byte\<close>

lemma and_127: "x AND 127 = x mod 128" for x :: int
  using take_bit_eq_mask [of 7 x] by (simp add: take_bit_eq_mod mask_eq_exp_minus_1)

lemma and_7: "x AND 7 = x mod 8" for x :: int
  using take_bit_eq_mask [of 3 x] by (simp add: take_bit_eq_mod mask_eq_exp_minus_1)

lemma and_128: "x AND 128 = 0 \<longleftrightarrow> even (x div 128)" for x :: int
  using and_exp_eq_0_iff_not_bit [of x 7] by (simp add: bit_iff_odd)

lemma or_push_bit:
  fixes v x :: int
  assumes "0 \<le> v" "v < 2 ^ k"
  shows "v OR push_bit k x = v + x * 2 ^ k"
proof -
  have "\<not> bit v n \<or> \<not> bit (push_bit k x) n" for n
  proof (cases "n < k")
    case False
    then have "v < 2 ^ n" using assms(2) by (meson linorder_not_less order_less_le_trans power_increasing one_le_numeral)
    then show ?thesis using assms(1) by (simp add: bit_iff_odd)
  qed (simp add: bit_simps)
  then have "v AND push_bit k x = 0"
    by (intro bit_eqI) (auto simp: bit_simps)
  then show ?thesis by (simp add: disjunctive_add_eq_or [symmetric] push_bit_eq_mult)
qed

section \<open>Variable-length integers\<close>

function encode_varint :: "int \<Rightarrow> blob" where
  "encode_varint n = (if n < 128 then [n] else (n mod 128 + 128) # encode_varint (n div 128))"
  by pat_completeness auto
termination by (relation "measure nat") auto

declare encode_varint.simps [simp del]

lemma varint_byte:
  "(n mod 128 + 128) AND 127 = n mod 128" "(n mod 128 + 128) AND 128 \<noteq> 0" for n :: int
  by (simp_all add: and_127 and_128)

lemma varint_loop_encode:
  assumes "0 \<le> n" "n < 2 ^ (64 - 7 * k)" "k \<le> 9" "0 \<le> v" "v < 2 ^ (7 * k)"
    and "drop (start + k) bytes = encode_varint n @ post"
  shows "varint_loop bytes start (start + k) v (7 * k) =
    Inr (v + n * 2 ^ (7 * k), start + k + length (encode_varint n))"
  using assms
proof (induction n arbitrary: k v rule: encode_varint.induct)
  case (1 n)
  define current where "current = hd (encode_varint n)"
  have "drop (start + k) bytes \<noteq> []" using "1.prems"(6) by (simp add: encode_varint.simps)
  then have inside: "start + k < length bytes" by simp
  then have current: "bytes ! (start + k) = current"
    using "1.prems"(6) unfolding current_def
    by (metis (no_types, lifting) encode_varint.simps hd_append2 hd_drop_conv_nth list.distinct(1))
  show ?case
  proof (cases "n < 128")
    case True
    then have n: "encode_varint n = [n]" "current = n" by (simp_all add: encode_varint.simps current_def)
    have "\<not> (k = 9 \<and> n > 1)" using "1.prems"(2) by auto
    then show ?thesis
      using True inside current n "1.prems"
      by (auto simp: varint_loop.simps [of bytes start] Let_def and_127 and_128 or_push_bit)
  next
    case False
    then have n: "encode_varint n = (n mod 128 + 128) # encode_varint (n div 128)"
        "current = n mod 128 + 128"
      by (simp_all add: encode_varint.simps [of n] current_def)
    have k: "k < 9" using False "1.prems"(2,3) by (cases "k = 9") auto
    let ?v = "v + n mod 128 * 2 ^ (7 * k)"
    have pow: "(2 :: int) ^ (7 * (k + 1)) = 128 * 2 ^ (7 * k)" by (simp add: power_add)
    have "n mod 128 * 2 ^ (7 * k) \<le> 127 * 2 ^ (7 * k)"
      by (intro mult_right_mono) auto
    then have v: "0 \<le> ?v" "?v < 2 ^ (7 * (k + 1))"
      unfolding pow using "1.prems"(4,5) by (simp, linarith)
    have "64 - 7 * k = 7 + (64 - 7 * (k + 1))" using k by simp
    then have "(2 :: int) ^ (64 - 7 * k) = 2 ^ 7 * 2 ^ (64 - 7 * (k + 1))" by (simp only: power_add)
    then have "n < 128 * 2 ^ (64 - 7 * (k + 1))" using "1.prems"(2) by simp
    then have bound: "n div 128 < 2 ^ (64 - 7 * (k + 1))" by (simp add: div_less_iff_less_mult mult.commute)
    have "drop (start + (k + 1)) bytes = encode_varint (n div 128) @ post"
      using "1.prems"(6) n(1) by (metis add.assoc add.commute append_Cons drop_drop drop_Suc_Cons drop0 plus_1_eq_Suc)
    then have "varint_loop bytes start (start + (k + 1)) ?v (7 * (k + 1)) =
        Inr (?v + n div 128 * 2 ^ (7 * (k + 1)), start + (k + 1) + length (encode_varint (n div 128)))"
      using False k v bound "1.prems"(1) by (intro "1.IH") auto
    moreover have "varint_loop bytes start (start + k) v (7 * k) =
        varint_loop bytes start (start + (k + 1)) ?v (7 * (k + 1))"
      using inside current n k "1.prems"(4,5) varint_byte [of n]
      by (simp add: varint_loop.simps [of bytes start "start + k"] Let_def or_push_bit add.commute [of 7 "7 * k"]
          del: push_bit_and)
    moreover have "?v + n div 128 * 2 ^ (7 * (k + 1)) = v + n * 2 ^ (7 * k)"
    proof -
      have "n * 2 ^ (7 * k) = (n div 128 * 128 + n mod 128) * 2 ^ (7 * k)" by simp
      then show ?thesis unfolding pow by (simp only: algebra_simps)
    qed
    ultimately show ?thesis by (simp add: n(1))
  qed
qed

lemma encode_varint_not_Nil [simp]: "encode_varint n \<noteq> []"
  by (simp add: encode_varint.simps)

lemma readProtobufVarint_encode:
  assumes "0 \<le> n" "n < 2 ^ 64" "drop start bytes = encode_varint n @ post" "length bytes < 2 ^ 53"
  shows "readProtobufVarint bytes start = Inr (n, start + length (encode_varint n))"
proof -
  have "start < length bytes" using assms(3) by (metis append_is_Nil_conv drop_eq_Nil encode_varint_not_Nil leI)
  moreover have "is_safe_integer (int start)"
    using \<open>start < length bytes\<close> assms(4) by (simp add: is_safe_integer_def max_safe_integer_def)
  ultimately show ?thesis
    using varint_loop_encode [of n 0 0 start bytes post] assms by (simp add: readProtobufVarint_def)
qed

lemma drop_after: "drop start bytes = x @ post \<Longrightarrow> drop (start + length x) bytes = post"
  by (metis add.commute append_eq_conv_conj drop_drop)

lemma encode_varint_length: "0 \<le> n \<Longrightarrow> n < 128 ^ k \<Longrightarrow> 0 < k \<Longrightarrow> length (encode_varint n) \<le> k"
proof (induction n arbitrary: k rule: encode_varint.induct)
  case (1 n)
  show ?case
  proof (cases "n < 128")
    case False
    with 1 obtain j where k: "k = Suc j" "0 < j" by (cases k; cases "k - 1") auto
    then have "n div 128 < 128 ^ j" using "1.prems"(2) by (simp add: div_less_iff_less_mult mult.commute)
    then show ?thesis using "1.IH" [of j] False k "1.prems"(1) by (simp add: encode_varint.simps [of n])
  qed (use "1.prems"(3) in \<open>simp add: encode_varint.simps\<close>)
qed

section \<open>Messages\<close>

definition safe_metric :: "int \<Rightarrow> bool" where
  "safe_metric v \<longleftrightarrow> 0 \<le> v \<and> v \<le> max_safe_integer"

definition valid_sample :: "metric_sample \<Rightarrow> bool" where
  "valid_sample s \<longleftrightarrow>
     0 < observedAt s \<and> cpuPermille s \<le> 1000
     \<and> (memoryTotalBytes s > 0 \<longrightarrow> memoryUsedBytes s \<le> memoryTotalBytes s)
     \<and> (storageTotalBytes s > 0 \<longrightarrow> storageUsedBytes s \<le> storageTotalBytes s)
     \<and> list_all safe_metric
         [observedAt s, cpuPermille s, memoryUsedBytes s, memoryTotalBytes s, storageUsedBytes s,
          storageTotalBytes s, networkRxBps s, networkTxBps s, networkRxTotal s, networkTxTotal s]
     \<and> pred_option safe_metric (load1mMilli s) \<and> pred_option safe_metric (uptimeSeconds s)"

text \<open>
  A message on the wire: its fields in the order in which they stand, each with its number and a value of one of
  the wire types 0, 1, 2 and 5 (the decoder rejects the obsolete groups of types 3 and 4).
\<close>

datatype wire_value = Varint int | Fixed64 blob | Delimited blob | Fixed32 blob

type_synonym wire_message = "(int \<times> wire_value) list"

fun wire_type :: "wire_value \<Rightarrow> int" where
  "wire_type (Varint v) = 0"
| "wire_type (Fixed64 bs) = 1"
| "wire_type (Delimited bs) = 2"
| "wire_type (Fixed32 bs) = 5"

fun encode_value :: "wire_value \<Rightarrow> blob" where
  "encode_value (Varint v) = encode_varint v"
| "encode_value (Fixed64 bs) = bs"
| "encode_value (Delimited bs) = encode_varint (int (length bs)) @ bs"
| "encode_value (Fixed32 bs) = bs"

fun wire_ok :: "wire_value \<Rightarrow> bool" where
  "wire_ok (Varint v) \<longleftrightarrow> 0 \<le> v \<and> v < 2 ^ 64"
| "wire_ok (Fixed64 bs) \<longleftrightarrow> length bs = 8"
| "wire_ok (Delimited bs) \<longleftrightarrow> True"
| "wire_ok (Fixed32 bs) \<longleftrightarrow> length bs = 4"

definition encode_field :: "int \<Rightarrow> wire_value \<Rightarrow> blob" where
  "encode_field field v = encode_varint (field * 8 + wire_type v) @ encode_value v"

definition encode_fields :: "wire_message \<Rightarrow> blob" where
  "encode_fields fs = concat (map (\<lambda>(field, v). encode_field field v) fs)"

definition field_ok :: "int \<Rightarrow> wire_value \<Rightarrow> bool" where
  "field_ok field v \<longleftrightarrow> 0 < field \<and> field < 2 ^ 29 \<and> wire_ok v"

lemma encode_fields_simps [simp]:
  "encode_fields [] = []" "encode_fields ((field, v) # fs) = encode_field field v @ encode_fields fs"
  by (simp_all add: encode_fields_def)

lemma tag_parts [simp]:
  "0 \<le> w \<Longrightarrow> w < 8 \<Longrightarrow> tag_field (field * 8 + w) = field"
  "0 \<le> w \<Longrightarrow> w < 8 \<Longrightarrow> tag_wire (field * 8 + w) = w"
  by (simp_all add: tag_field_def tag_wire_def and_7 drop_bit_eq_div)

lemma wire_type_range [simp]: "0 \<le> wire_type v" "wire_type v < 8"
  by (cases v; simp)+

lemma wire_type_iffs: "wire_type v = 0 \<longleftrightarrow> (\<exists>x. v = Varint x)" "wire_type v = 2 \<longleftrightarrow> (\<exists>bs. v = Delimited bs)"
  by (cases v; simp)+

text \<open>A field of length-delimited wire type: the tag, the length and the payload are read back in turn.\<close>

lemma read_delimited:
  assumes "drop offset bytes = encode_varint tag @ encode_varint (int (length bs)) @ bs @ post"
    and "0 \<le> tag" "tag < 2 ^ 64" "length bytes < 2 ^ 53"
  obtains o1 o2 where "offset < length bytes" "readProtobufVarint bytes offset = Inr (tag, o1)"
    "readProtobufVarint bytes o1 = Inr (int (length bs), o2)" "o2 + length bs \<le> length bytes"
    "take (length bs) (drop o2 bytes) = bs" "drop (o2 + length bs) bytes = post"
    "int (length bs) \<le> max_safe_integer"
proof -
  let ?o1 = "offset + length (encode_varint tag)"
  let ?o2 = "?o1 + length (encode_varint (int (length bs)))"
  note d1 = drop_after [OF assms(1)]
  note d2 = drop_after [OF d1]
  have fits: "length bs \<le> length (drop ?o2 bytes)" "length (drop ?o2 bytes) \<le> length bytes"
    unfolding d2 by (simp, metis d2 diff_le_self length_drop)
  then have len: "length bs < 2 ^ 53" using assms(4) by simp
  then have "int (length bs) < 2 ^ 64" by simp
  then have reads: "readProtobufVarint bytes offset = Inr (tag, ?o1)"
    "readProtobufVarint bytes ?o1 = Inr (int (length bs), ?o2)"
    using assms by (auto intro!: readProtobufVarint_encode [OF _ _ assms(1)] readProtobufVarint_encode [OF _ _ d1])
  show thesis
  proof (rule that [OF _ reads])
    show "offset < length bytes" using readProtobufVarint_next [OF reads(1)] by linarith
    show "?o2 + length bs \<le> length bytes"
      using fits(1) readProtobufVarint_next [OF reads(2)] by simp
    show "take (length bs) (drop ?o2 bytes) = bs" by (simp add: d2)
    show "drop (?o2 + length bs) bytes = post" by (rule drop_after [OF d2])
    show "int (length bs) \<le> max_safe_integer" using len by (simp add: max_safe_integer_def)
  qed
qed

text \<open>The tag of a field is read back, and a value of any wire type is skipped exactly.\<close>

lemma read_tag:
  assumes "drop offset bytes = encode_field field v @ post" "field_ok field v" "length bytes < 2 ^ 53"
  obtains o1 where "offset < length bytes" "readProtobufVarint bytes offset = Inr (field * 8 + wire_type v, o1)"
    "drop o1 bytes = encode_value v @ post" "o1 + length (encode_value v) = offset + length (encode_field field v)"
proof -
  have d0: "drop offset bytes = encode_varint (field * 8 + wire_type v) @ encode_value v @ post"
    using assms(1) by (simp add: encode_field_def)
  have tag: "0 \<le> field * 8 + w" "field * 8 + w < 2 ^ 64" if "0 \<le> w" "w < 8" for w
    using assms(2) that by (simp_all add: field_ok_def)
  have r: "readProtobufVarint bytes offset =
      Inr (field * 8 + wire_type v, offset + length (encode_varint (field * 8 + wire_type v)))"
    using tag [OF wire_type_range] d0 assms(3) by (rule readProtobufVarint_encode)
  have "offset < length bytes"
    using conjunct1 [OF readProtobufVarint_next [OF r]] conjunct2 [OF readProtobufVarint_next [OF r]]
    by (rule less_le_trans)
  then show thesis by (intro that [OF _ r drop_after [OF d0]]) (auto simp: encode_field_def)
qed

lemma skip_value:
  assumes "drop offset bytes = encode_value v @ post" "wire_ok v" "length bytes < 2 ^ 53"
  shows "skipProtobufField bytes offset (wire_type v) = Inr (offset + length (encode_value v))"
proof -
  have fits: "encode_value v = [] \<or> offset + length (encode_value v) \<le> length bytes"
    using arg_cong [OF assms(1), of length] by (cases "encode_value v") auto
  show ?thesis
  proof (cases v)
    case (Varint x)
    then show ?thesis
      using assms readProtobufVarint_encode [of x offset bytes post] by (simp add: skipProtobufField_def)
  next
    case (Delimited bs)
    have d0: "drop offset bytes = encode_varint (int (length bs)) @ bs @ post"
      using assms(1) Delimited by simp
    have "length bs < 2 ^ 53" using arg_cong [OF d0, of length] assms(3) by simp
    then have "int (length bs) < 2 ^ 64" "int (length bs) \<le> max_safe_integer"
      by (simp_all add: max_safe_integer_def)
    then show ?thesis
      using Delimited fits readProtobufVarint_encode [OF _ _ d0 assms(3)]
      by (simp add: skipProtobufField_def safeProtobufNumber_def Let_def)
  qed (use assms(2) fits in \<open>auto simp: skipProtobufField_def\<close>)
qed

section \<open>Samples\<close>

text \<open>
  What a message means as a sample: of several values of a number the last one counts; a number that does
  not occur is zero, or nothing when it is optional.
\<close>

fun last_varint :: "wire_message \<Rightarrow> int \<Rightarrow> int option" where
  "last_varint [] n = None"
| "last_varint ((field, v) # fs) n =
     (case last_varint fs n of
        Some x \<Rightarrow> Some x
      | None \<Rightarrow> (case v of Varint x \<Rightarrow> if field = n then Some x else None | _ \<Rightarrow> None))"

definition scalar :: "wire_message \<Rightarrow> int \<Rightarrow> int" where
  "scalar fs n = (case last_varint fs n of None \<Rightarrow> 0 | Some x \<Rightarrow> x)"

definition message_sample :: "wire_message \<Rightarrow> metric_sample" where
  "message_sample fs =
     \<lparr> observedAt = scalar fs 1, cpuPermille = scalar fs 2, memoryUsedBytes = scalar fs 3,
       memoryTotalBytes = scalar fs 4, storageUsedBytes = scalar fs 5, storageTotalBytes = scalar fs 6,
       networkRxBps = scalar fs 7, networkTxBps = scalar fs 8, networkRxTotal = scalar fs 9,
       networkTxTotal = scalar fs 10, load1mMilli = last_varint fs 11, uptimeSeconds = last_varint fs 12 \<rparr>"

text \<open>The fields of a sample have wire type 0 and exact values; fields of other numbers are arbitrary.\<close>

definition sample_field_ok :: "int \<Rightarrow> wire_value \<Rightarrow> bool" where
  "sample_field_ok field v \<longleftrightarrow> field_ok field v \<and> (field \<le> 12 \<longrightarrow> (\<exists>x. v = Varint x \<and> safe_metric x))"

definition store_field :: "int \<times> wire_value \<Rightarrow> int option list \<Rightarrow> int option list" where
  "store_field = (\<lambda>(field, v) vals.
     case v of Varint x \<Rightarrow> if field \<le> 12 then vals[nat field - 1 := Some x] else vals | _ \<Rightarrow> vals)"

lemma length_store [simp]: "length (fold store_field fs vals) = length vals"
  by (induction fs arbitrary: vals) (auto simp: store_field_def split: prod.splits wire_value.splits)

lemma store_fields_nth:
  assumes "list_all (\<lambda>(field, v). sample_field_ok field v) fs" "length vals = 12" "i < 12"
  shows "fold store_field fs vals ! i = (case last_varint fs (int i + 1) of None \<Rightarrow> vals ! i | Some x \<Rightarrow> Some x)"
  using assms(1,2)
proof (induction fs arbitrary: vals)
  case (Cons a fs)
  obtain field v where a: "a = (field, v)" by (cases a)
  have len: "length (store_field a vals) = 12"
    using Cons.prems(2) by (auto simp: store_field_def a split: wire_value.splits)
  have "0 < field" using Cons.prems(1) by (simp add: a sample_field_ok_def field_ok_def)
  then have "nat field - 1 = i \<longleftrightarrow> field = int i + 1" by auto
  then show ?case
    using Cons.IH [OF _ len] Cons.prems assms(3)
    by (auto simp: a store_field_def nth_list_update split: option.splits wire_value.splits)
qed simp

lemma metric_fields_encode:
  assumes "list_all (\<lambda>(field, v). sample_field_ok field v) fs"
    and "drop offset bytes = encode_fields fs" "length bytes < 2 ^ 53"
  shows "metric_fields message bytes offset vals = Inr (fold store_field fs vals)"
  using assms(1,2)
proof (induction fs arbitrary: offset vals)
  case Nil
  then show ?case by (simp add: metric_fields.simps)
next
  case (Cons a fs)
  obtain field v where a: "a = (field, v)" by (cases a)
  have ok: "field_ok field v" "field \<le> 12 \<longrightarrow> (\<exists>x. v = Varint x \<and> safe_metric x)"
    and rest: "list_all (\<lambda>(field, v). sample_field_ok field v) fs"
    using Cons.prems(1) by (auto simp: a sample_field_ok_def)
  have d0: "drop offset bytes = encode_field field v @ encode_fields fs" using Cons.prems(2) by (simp add: a)
  obtain o1 where tag: "offset < length bytes" "readProtobufVarint bytes offset = Inr (field * 8 + wire_type v, o1)"
    "drop o1 bytes = encode_value v @ encode_fields fs"
    using d0 ok(1) assms(3) by (rule read_tag)
  let ?o2 = "o1 + length (encode_value v)"
  have step: "metric_fields message bytes ?o2 u = Inr (fold store_field fs u)" for u
    using rest drop_after [OF tag(3)] by (rule Cons.IH)
  show ?case
  proof (cases "field \<le> 12")
    case True
    then obtain x where x: "v = Varint x" "0 \<le> x" "x \<le> max_safe_integer"
      using ok(2) by (auto simp: safe_metric_def)
    have "readProtobufVarint bytes o1 = Inr (x, ?o2)"
      using tag(3) x assms(3) readProtobufVarint_encode [of x o1 bytes "encode_fields fs"]
      by (simp add: max_safe_integer_def)
    then show ?thesis
      using True tag ok(1) x step tag_parts [of 0 field]
      by (simp add: metric_fields.simps [of message bytes offset] safeProtobufNumber_def a store_field_def field_ok_def)
  next
    case False
    then have "store_field a vals = vals" by (simp add: a store_field_def split: wire_value.splits)
    then show ?thesis
      using False tag step ok(1) skip_value [OF tag(3) _ assms(3)]
      by (simp add: metric_fields.simps [of message bytes offset] field_ok_def a)
  qed
qed

lemma initial_values_list:
  "initial_values = [Some 0, Some 0, Some 0, Some 0, Some 0, Some 0, Some 0, Some 0, Some 0, Some 0, None, None]"
  by (simp add: initial_values_def upt_rec)

lemma initial_values_nth: "i < 12 \<Longrightarrow> initial_values ! i = (if i < 10 then Some 0 else None)"
  by (simp add: initial_values_def)

lemma sample_of_stored:
  assumes "list_all (\<lambda>(field, v). sample_field_ok field v) fs"
  shows "sample_of_values (fold store_field fs initial_values) = message_sample fs"
proof -
  have len: "length initial_values = 12" by (simp add: initial_values_def)
  have "field_number (fold store_field fs initial_values) i = scalar fs (int i + 1)" if "i < 10" for i
    using that store_fields_nth [OF assms len, of i]
    by (simp add: field_number_def scalar_def initial_values_nth split: option.splits)
  note scalars = this
  have "fold store_field fs initial_values ! i = last_varint fs (int i + 1)" if "10 \<le> i" "i < 12" for i
    using that store_fields_nth [OF assms len, of i] by (simp add: initial_values_nth split: option.splits)
  note optionals = this
  show ?thesis
    using scalars [of 0] scalars [of 1] scalars [of 2] scalars [of 3] scalars [of 4] scalars [of 5] scalars [of 6]
      scalars [of 7] scalars [of 8] scalars [of 9] optionals [of 10] optionals [of 11]
    by (simp add: sample_of_values_def message_sample_def)
qed

definition sample_message_ok :: "wire_message \<Rightarrow> bool" where
  "sample_message_ok fs \<longleftrightarrow>
     list_all (\<lambda>(field, v). sample_field_ok field v) fs \<and> valid_sample (message_sample fs)"

lemma decodeMetricSample_encode:
  assumes "sample_message_ok fs" "length (encode_fields fs) < 2 ^ 53"
  shows "decodeMetricSample (encode_fields fs) = Inr (message_sample fs)"
proof -
  have "metric_fields message (encode_fields fs) 0 initial_values = Inr (fold store_field fs initial_values)" for message
    using assms by (intro metric_fields_encode) (simp_all add: sample_message_ok_def)
  then show ?thesis
    using assms(1) by (auto simp: decodeMetricSample_def sample_of_stored valid_sample_def sample_message_ok_def Let_def)
qed

section \<open>The encoding of proto3\<close>

text \<open>
  \<open>encode_message\<close> of the agents on a \<open>MetricSample\<close>: the fields in the order of their numbers, where a field of
  implicit presence is left out when it is zero and an optional one when it is absent.
\<close>

definition sample_numbers :: "metric_sample \<Rightarrow> (int \<times> int) list" where
  "sample_numbers s =
     [(1, observedAt s), (2, cpuPermille s), (3, memoryUsedBytes s), (4, memoryTotalBytes s),
      (5, storageUsedBytes s), (6, storageTotalBytes s), (7, networkRxBps s), (8, networkTxBps s),
      (9, networkRxTotal s), (10, networkTxTotal s)]"

definition optional_field :: "int \<Rightarrow> int option \<Rightarrow> wire_message" where
  "optional_field field v = (case v of None \<Rightarrow> [] | Some n \<Rightarrow> [(field, Varint n)])"

definition proto3_fields :: "metric_sample \<Rightarrow> wire_message" where
  "proto3_fields s =
     concat (map (\<lambda>(field, v). if v = 0 then [] else [(field, Varint v)]) (sample_numbers s)) @
     optional_field 11 (load1mMilli s) @ optional_field 12 (uptimeSeconds s)"

definition encode_message :: "metric_sample \<Rightarrow> blob" where
  "encode_message s = encode_fields (proto3_fields s)"

lemma last_varint_append:
  "last_varint (fs @ gs) n = (case last_varint gs n of None \<Rightarrow> last_varint fs n | Some x \<Rightarrow> Some x)"
  by (induction fs) (auto split: option.splits)

definition implicit_fields :: "(int \<times> int) list \<Rightarrow> wire_message" where
  "implicit_fields xs = concat (map (\<lambda>(field, v). if v = 0 then [] else [(field, Varint v)]) xs)"

lemma implicit_fields_simps [simp]:
  "implicit_fields [] = []"
  "implicit_fields ((field, v) # xs) = (if v = 0 then [] else [(field, Varint v)]) @ implicit_fields xs"
  by (simp_all add: implicit_fields_def)

lemma last_varint_implicit:
  "distinct (map fst xs) \<Longrightarrow> last_varint (implicit_fields xs) n =
    (case map_of xs n of None \<Rightarrow> None | Some v \<Rightarrow> if v = 0 then None else Some v)"
proof (induction xs)
  case (Cons a xs)
  obtain field v where a: "a = (field, v)" by (cases a)
  show ?case
  proof (cases "field = n")
    case True
    then have "map_of xs n = None" using Cons.prems by (simp add: a map_of_eq_None_iff)
    then show ?thesis using Cons True by (simp add: a)
  next
    case False
    then show ?thesis using Cons by (simp add: a split: option.splits)
  qed
qed simp

lemma last_varint_optional: "last_varint (optional_field field w) n = (if field = n then w else None)"
  by (auto simp: optional_field_def split: option.splits)

lemma scalar_proto3: "n \<le> 10 \<Longrightarrow> scalar (proto3_fields s) n = (case map_of (sample_numbers s) n of None \<Rightarrow> 0 | Some v \<Rightarrow> v)"
  unfolding scalar_def proto3_fields_def implicit_fields_def [symmetric]
  by (simp add: last_varint_append last_varint_optional last_varint_implicit sample_numbers_def
      split: option.splits del: implicit_fields_simps)

lemma optional_proto3:
  "last_varint (proto3_fields s) 11 = load1mMilli s" "last_varint (proto3_fields s) 12 = uptimeSeconds s"
  unfolding proto3_fields_def implicit_fields_def [symmetric]
  by (simp_all add: last_varint_append last_varint_optional last_varint_implicit sample_numbers_def
      split: option.splits del: implicit_fields_simps)

lemma message_sample_proto3 [simp]: "message_sample (proto3_fields s) = s"
  by (simp add: message_sample_def scalar_proto3 optional_proto3) (simp add: sample_numbers_def)

lemma implicit_fields_ok:
  "list_all (\<lambda>(field, v). 0 < field \<and> field \<le> 12 \<and> safe_metric v) xs \<Longrightarrow>
    list_all (\<lambda>(field, v). sample_field_ok field v) (implicit_fields xs)"
  by (induction xs) (auto simp: sample_field_ok_def field_ok_def safe_metric_def max_safe_integer_def)

lemma optional_field_ok:
  "0 < field \<Longrightarrow> field \<le> 12 \<Longrightarrow> pred_option safe_metric w \<Longrightarrow>
    list_all (\<lambda>(field, v). sample_field_ok field v) (optional_field field w)"
  by (cases w) (auto simp: optional_field_def sample_field_ok_def field_ok_def safe_metric_def max_safe_integer_def)

text \<open>The conditions on the numbers of a sample that both decoders share.\<close>

definition exact_sample :: "metric_sample \<Rightarrow> bool" where
  "exact_sample s \<longleftrightarrow> list_all (\<lambda>(field, v). safe_metric v) (sample_numbers s) \<and>
     pred_option safe_metric (load1mMilli s) \<and> pred_option safe_metric (uptimeSeconds s)"

lemma exact_fields_ok:
  assumes "exact_sample s"
  shows "list_all (\<lambda>(field, v). sample_field_ok field v) (proto3_fields s)"
proof -
  have "list_all (\<lambda>(field, v). 0 < field \<and> field \<le> 12 \<and> safe_metric v) (sample_numbers s)"
    using assms by (simp add: exact_sample_def sample_numbers_def)
  then show ?thesis
    using assms unfolding proto3_fields_def implicit_fields_def [symmetric]
    by (simp add: implicit_fields_ok optional_field_ok exact_sample_def)
qed

lemma proto3_fields_ok: "valid_sample s \<Longrightarrow> sample_message_ok (proto3_fields s)"
  unfolding sample_message_ok_def
  by (intro conjI exact_fields_ok) (simp_all add: exact_sample_def sample_numbers_def valid_sample_def)

section \<open>Reports\<close>

text \<open>A report: samples in field 5, and fields of any other numbers and wire types, which the decoder skips.\<close>

datatype report_part =
    Sample_part wire_message
  | Other_part int wire_value

fun encode_part :: "report_part \<Rightarrow> blob" where
  "encode_part (Sample_part fs) = encode_field 5 (Delimited (encode_fields fs))"
| "encode_part (Other_part field v) = encode_field field v"

fun part_ok :: "report_part \<Rightarrow> bool" where
  "part_ok (Sample_part fs) \<longleftrightarrow> sample_message_ok fs"
| "part_ok (Other_part field v) \<longleftrightarrow> field_ok field v \<and> field \<noteq> 5"

fun part_messages :: "report_part \<Rightarrow> wire_message list" where
  "part_messages (Sample_part fs) = [fs]"
| "part_messages (Other_part field v) = []"

definition encode_report :: "report_part list \<Rightarrow> blob" where
  "encode_report ps = concat (map encode_part ps)"

definition report_messages :: "report_part list \<Rightarrow> wire_message list" where
  "report_messages ps = concat (map part_messages ps)"

lemma encode_report_Cons [simp]:
  "encode_report [] = []" "encode_report (p # ps) = encode_part p @ encode_report ps"
  "report_messages [] = []" "report_messages (p # ps) = part_messages p @ report_messages ps"
  by (simp_all add: encode_report_def report_messages_def)

lemma report_samples_encode:
  assumes "list_all part_ok ps" "drop offset bytes = encode_report ps" "length bytes < 2 ^ 53"
    and "length acc + length (report_messages ps) \<le> 60"
  shows "report_samples bytes offset acc = Inr (acc @ map message_sample (report_messages ps))"
  using assms(1,2,4)
proof (induction ps arbitrary: offset acc)
  case Nil
  then show ?case by (simp add: report_samples.simps)
next
  case (Cons p ps)
  show ?case
  proof (cases p)
    case (Sample_part fs)
    then have "drop offset bytes =
        encode_varint (5 * 8 + 2) @ encode_varint (int (length (encode_fields fs))) @ encode_fields fs @ encode_report ps"
      using Cons.prems(2) by (simp add: encode_field_def)
    then obtain o1 o2 where r: "offset < length bytes" "readProtobufVarint bytes offset = Inr (5 * 8 + 2, o1)"
        "readProtobufVarint bytes o1 = Inr (int (length (encode_fields fs)), o2)"
        "o2 + length (encode_fields fs) \<le> length bytes"
        "take (length (encode_fields fs)) (drop o2 bytes) = encode_fields fs"
        "drop (o2 + length (encode_fields fs)) bytes = encode_report ps"
        "int (length (encode_fields fs)) \<le> max_safe_integer"
      by (rule read_delimited) (use assms(3) in auto)
    have "decodeMetricSample (encode_fields fs) = Inr (message_sample fs)"
      using Cons.prems(1) Sample_part r(4) assms(3) by (intro decodeMetricSample_encode) auto
    moreover have "report_samples bytes (o2 + length (encode_fields fs)) (acc @ [message_sample fs]) =
        Inr ((acc @ [message_sample fs]) @ map message_sample (report_messages ps))"
      using Cons.prems(1,3) Sample_part by (intro Cons.IH [OF _ r(6)]) auto
    ultimately show ?thesis
      using r Cons.prems(3) Sample_part tag_parts [of 2 5]
      by (simp add: report_samples.simps [of bytes offset] safeProtobufNumber_def Let_def)
  next
    case (Other_part field v)
    have ok: "field_ok field v" "field \<noteq> 5" using Cons.prems(1) Other_part by auto
    have d0: "drop offset bytes = encode_field field v @ encode_report ps" using Cons.prems(2) Other_part by simp
    obtain o1 where tag: "offset < length bytes" "readProtobufVarint bytes offset = Inr (field * 8 + wire_type v, o1)"
      "drop o1 bytes = encode_value v @ encode_report ps"
      using d0 ok(1) assms(3) by (rule read_tag)
    show ?thesis
      using tag ok skip_value [OF tag(3) _ assms(3)] Cons.IH [OF _ drop_after [OF tag(3)], of acc] Cons.prems(1,3) Other_part
      by (simp add: report_samples.simps [of bytes offset] field_ok_def)
  qed
qed

lemma collect_chunks_ok:
  "received + length (concat parts) \<le> MAX_DECOMPRESSED_BYTES \<Longrightarrow>
    collect_chunks parts None received acc = Inr (acc @ concat parts)"
  by (induction parts arbitrary: received acc) auto

section \<open>What the decoder accepts\<close>

lemma varint_loop_nonneg:
  "varint_loop bytes start offset v shift = Inr (w, nxt) \<Longrightarrow> 0 \<le> v \<Longrightarrow> 0 \<le> w"
proof (induction bytes start offset v shift rule: varint_loop.induct)
  case (1 bytes start offset v shift)
  then show ?case
    by (cases "bytes ! offset AND 128 = 0")
      (auto simp: varint_loop.simps [of bytes start offset] raise_error_def Let_def simp del: push_bit_and split: if_splits)
qed

lemma readProtobufVarint_nonneg: "readProtobufVarint bytes start = Inr (w, nxt) \<Longrightarrow> 0 \<le> w"
  by (auto simp: readProtobufVarint_def raise_error_def split: if_splits dest: varint_loop_nonneg)

definition stored_values_ok :: "int option list \<Rightarrow> bool" where
  "stored_values_ok vals \<longleftrightarrow>
     length vals = 12 \<and> list_all (pred_option safe_metric) vals \<and> list_all (\<lambda>v. v \<noteq> None) (take 10 vals)"

lemma stored_values_ok_initial: "stored_values_ok initial_values"
  by (simp add: stored_values_ok_def initial_values_list safe_metric_def max_safe_integer_def)

lemma stored_values_ok_update:
  assumes "stored_values_ok vals" "safe_metric v"
  shows "stored_values_ok (vals[i := Some v])"
  using assms
  by (auto simp: stored_values_ok_def list_all_iff take_update_swap dest!: subsetD [OF set_update_subset_insert])

lemma safeProtobufNumber_ok: "safeProtobufNumber v = Inr n \<Longrightarrow> 0 \<le> v \<Longrightarrow> n = v \<and> safe_metric n"
  by (auto simp: safeProtobufNumber_def raise_error_def safe_metric_def split: if_splits)

lemma metric_fields_ok:
  "metric_fields message bytes offset vals = Inr vals' \<Longrightarrow> stored_values_ok vals \<Longrightarrow> stored_values_ok vals'"
proof (induction message bytes offset vals rule: metric_fields.induct)
  case (1 message bytes offset vals)
  show ?case
  proof (cases "offset < length bytes")
    case True
    with "1.prems"(1) obtain tag o1 where tag: "readProtobufVarint bytes offset = Inr (tag, o1)"
      by (auto simp: metric_fields.simps [of message bytes offset] bind_result_Inr_iff)
    show ?thesis
    proof (cases "tag_field tag \<ge> 1 \<and> tag_field tag \<le> 12")
      case known: True
      with "1.prems"(1) True tag obtain decoded nxt number where d: "tag_wire tag = 0"
          "readProtobufVarint bytes o1 = Inr (decoded, nxt)" "safeProtobufNumber decoded = Inr number"
          "metric_fields message bytes nxt (vals[nat (tag_field tag) - 1 := Some number]) = Inr vals'"
        by (auto simp: metric_fields.simps [of message bytes offset] bind_result_Inr_iff raise_error_def
            split: if_splits)
      have "safe_metric number" using safeProtobufNumber_ok [OF d(3)] readProtobufVarint_nonneg [OF d(2)] by blast
      then have "stored_values_ok (vals[nat (tag_field tag) - 1 := Some number])"
        using "1.prems"(2) by (rule stored_values_ok_update [rotated])
      with "1.IH"(1) [of "(tag, o1)" tag o1 "(decoded, nxt)" decoded nxt number] True tag known d
      show ?thesis by simp
    next
      case False
      with "1.prems"(1) True tag obtain nxt where "skipProtobufField bytes o1 (tag_wire tag) = Inr nxt"
          "metric_fields message bytes nxt vals = Inr vals'"
        by (auto simp: metric_fields.simps [of message bytes offset] bind_result_Inr_iff)
      with "1.IH"(2) [of "(tag, o1)" tag o1 nxt] "1.prems"(2) True tag False show ?thesis by simp
    qed
  next
    case False
    then show ?thesis using "1.prems" by (simp add: metric_fields.simps [of message bytes offset])
  qed
qed

lemma stored_values_number:
  assumes "stored_values_ok vals" "i < 10"
  shows "safe_metric (field_number vals i)"
proof -
  have "vals ! i \<noteq> None" "pred_option safe_metric (vals ! i)"
    using assms by (auto simp: stored_values_ok_def list_all_length)
  then show ?thesis by (auto simp: field_number_def)
qed

lemma stored_values_option: "stored_values_ok vals \<Longrightarrow> i < 12 \<Longrightarrow> pred_option safe_metric (vals ! i)"
  by (simp add: stored_values_ok_def list_all_length)

lemma decodeMetricSample_valid:
  assumes "decodeMetricSample bytes = Inr s"
  shows "valid_sample s"
proof -
  obtain vals where "metric_fields ''invalid_machine_metric_wire_type'' bytes 0 initial_values = Inr vals"
    and s: "s = sample_of_values vals"
    and guard: "0 < observedAt s" "cpuPermille s \<le> 1000"
      "memoryTotalBytes s > 0 \<longrightarrow> memoryUsedBytes s \<le> memoryTotalBytes s"
      "storageTotalBytes s > 0 \<longrightarrow> storageUsedBytes s \<le> storageTotalBytes s"
    using assms by (auto simp: decodeMetricSample_def bind_result_Inr_iff raise_error_def Let_def not_less split: if_splits)
  then have "stored_values_ok vals"
    using metric_fields_ok [OF _ stored_values_ok_initial] by blast
  then show ?thesis
    unfolding valid_sample_def using guard
    by (simp add: s sample_of_values_def stored_values_number stored_values_option)
qed

lemma report_samples_valid:
  "report_samples bytes offset acc = Inr ss \<Longrightarrow> list_all valid_sample acc \<Longrightarrow> length acc \<le> 60 \<Longrightarrow>
    list_all valid_sample ss \<and> length ss \<le> 60"
proof (induction bytes offset acc rule: report_samples.induct)
  case (1 bytes offset acc)
  show ?case
  proof (cases "offset < length bytes")
    case True
    with "1.prems"(1) obtain tag o1 where tag: "readProtobufVarint bytes offset = Inr (tag, o1)"
      by (auto simp: report_samples.simps [of bytes offset] bind_result_Inr_iff)
    show ?thesis
    proof (cases "tag_field tag = 5")
      case sample: True
      with "1.prems"(1) True tag obtain len o2 n s where d: "tag_wire tag = 2"
          "readProtobufVarint bytes o1 = Inr (len, o2)" "safeProtobufNumber len = Inr n"
          "o2 + nat n \<le> length bytes" "decodeMetricSample (take (o2 + nat n - o2) (drop o2 bytes)) = Inr s"
          "length (acc @ [s]) \<le> 60" "report_samples bytes (o2 + nat n) (acc @ [s]) = Inr ss"
        by (auto simp: report_samples.simps [of bytes offset] bind_result_Inr_iff raise_error_def Let_def
            not_less split: if_splits)
      have "list_all valid_sample (acc @ [s])" using "1.prems"(2) decodeMetricSample_valid [OF d(5)] by simp
      with "1.IH"(1) [of "(tag, o1)" tag o1 "(len, o2)" len o2 n "o2 + nat n" s "acc @ [s]"] True tag sample d
      show ?thesis by simp
    next
      case False
      with "1.prems"(1) True tag obtain nxt where "skipProtobufField bytes o1 (tag_wire tag) = Inr nxt"
          "report_samples bytes nxt acc = Inr ss"
        by (auto simp: report_samples.simps [of bytes offset] bind_result_Inr_iff)
      with "1.IH"(2) [of "(tag, o1)" tag o1 nxt] "1.prems"(2,3) True tag False show ?thesis by simp
    qed
  next
    case False
    then show ?thesis using "1.prems" by (simp add: report_samples.simps [of bytes offset])
  qed
qed

section \<open>Whole reports\<close>

lemma decode_encoded_report:
  assumes "0 < length data" "length data \<le> MAX_COMPRESSED_BYTES"
    and "inflate data = (parts, None)" "concat parts = encode_report ps"
    and "length (encode_report ps) \<le> MAX_DECOMPRESSED_BYTES"
    and "list_all part_ok ps" "0 < length (report_messages ps)" "length (report_messages ps) \<le> 60"
  shows "decodeCompressedMachineSamples inflate data = Inr (map message_sample (report_messages ps))"
proof -
  have "inflateZlib inflate data = Inr (encode_report ps)"
    using assms(1-5) by (simp add: inflateZlib_def collect_chunks_ok)
  moreover have "report_samples (encode_report ps) 0 [] = Inr ([] @ map message_sample (report_messages ps))"
    using assms(5,6,8) by (intro report_samples_encode) (auto simp: MAX_DECOMPRESSED_BYTES_def)
  ultimately show ?thesis
    using assms(7) by (simp add: decodeCompressedMachineSamples_def)
qed

definition witness_sample :: metric_sample where
  "witness_sample =
     \<lparr> observedAt = 300, cpuPermille = 7, memoryUsedBytes = 2, memoryTotalBytes = 4, storageUsedBytes = 0,
       storageTotalBytes = 0, networkRxBps = 1, networkTxBps = 1, networkRxTotal = 9, networkTxTotal = 9,
       load1mMilli = None, uptimeSeconds = Some 0 \<rparr>"

text \<open>A report with the sample and unknown fields of all four wire types.\<close>

definition witness_parts :: "report_part list" where
  "witness_parts =
     [Other_part 1 (Fixed64 (replicate 8 1)), Other_part 4 (Varint 200), Sample_part (proto3_fields witness_sample),
      Other_part 7 (Delimited [1, 2]), Other_part 900 (Fixed32 [1, 2, 3, 4])]"

definition witness_stream :: byte_stream where
  "witness_stream = ([[9], drop 1 (encode_report witness_parts)], None)"

lemma witness_valid: "valid_sample witness_sample"
  by (simp add: witness_sample_def valid_sample_def safe_metric_def max_safe_integer_def)

lemma witness_report:
  "witness_stream = ([[9], drop 1 (encode_report witness_parts)], None)"
  "concat [[9], drop 1 (encode_report witness_parts)] = encode_report witness_parts"
  "length (encode_report witness_parts) \<le> MAX_DECOMPRESSED_BYTES"
  "list_all part_ok witness_parts"
  "0 < length (report_messages witness_parts)" "length (report_messages witness_parts) \<le> 60"
proof -
  show "concat [[9], drop 1 (encode_report witness_parts)] = encode_report witness_parts"
    by (simp add: witness_parts_def encode_field_def encode_varint.simps)
  show "length (encode_report witness_parts) \<le> MAX_DECOMPRESSED_BYTES"
    by (simp add: witness_parts_def encode_field_def encode_varint.simps proto3_fields_def sample_numbers_def
        optional_field_def witness_sample_def MAX_DECOMPRESSED_BYTES_def)
qed (simp_all add: witness_stream_def witness_parts_def field_ok_def proto3_fields_ok witness_valid)

section \<open>Properties\<close>

text \<open>
  C23. Round trip of a machine report. The decoder reads a report as the wire format means it, when the inflater gives
  the report back, whatever the sizes of its chunks: the fields of a sample in any order, repeated or left out,
  unknown fields of all wire types between them and between the samples, one to sixty samples. In particular a report
  whose samples an agent has encoded, where zeros are left out, is decoded to exactly these samples, in order.
\<close>

theorem machine_report_roundtrip:
  assumes "0 < length data" "length data \<le> MAX_COMPRESSED_BYTES"
    and "inflate data = (parts, None)" "concat parts = encode_report ps"
    and "length (encode_report ps) \<le> MAX_DECOMPRESSED_BYTES"
    and "list_all part_ok ps" "0 < length (report_messages ps)" "length (report_messages ps) \<le> 60"
  shows "decodeCompressedMachineSamples inflate data = Inr (map message_sample (report_messages ps)) \<and>
    (\<forall>samples. report_messages ps = map proto3_fields samples \<longrightarrow>
      decodeCompressedMachineSamples inflate data = Inr samples)"
proof -
  have "decodeCompressedMachineSamples inflate data = Inr (map message_sample (report_messages ps))"
    using assms by (rule decode_encoded_report)
  then show ?thesis by (auto simp: comp_def)
qed

lemma machine_report_roundtrip_witness:
  "decodeCompressedMachineSamples (\<lambda>_. witness_stream) [120] = Inr [witness_sample]"
proof -
  have "report_messages witness_parts = map proto3_fields [witness_sample]" by (simp add: witness_parts_def)
  then show ?thesis
    using machine_report_roundtrip [of "[120]" "\<lambda>_. witness_stream", OF _ _ witness_report]
    by (simp add: MAX_COMPRESSED_BYTES_def)
qed

text \<open>
  C24. Every sample the decoder returns is well formed, whatever the bytes: a report yields one to sixty
  samples, each with a positive time, at most 1000 permille of processor time, no more memory or storage used
  than there is where a total is given, and all counters exact integers.
\<close>

theorem machine_samples_valid:
  assumes "decodeCompressedMachineSamples inflate data = Inr ss"
  shows "list_all valid_sample ss \<and> 0 < length ss \<and> length ss \<le> 60 \<and> length data \<le> MAX_COMPRESSED_BYTES"
proof -
  obtain bytes where "inflateZlib inflate data = Inr bytes" "report_samples bytes 0 [] = Inr ss" "ss \<noteq> []"
    using assms by (auto simp: decodeCompressedMachineSamples_def bind_result_Inr_iff raise_error_def split: if_splits)
  then show ?thesis
    using report_samples_valid [of bytes 0 "[]" ss] by (auto simp: inflateZlib_def raise_error_def split: if_splits)
qed

lemma machine_samples_valid_witness: "valid_sample witness_sample"
proof -
  have "decodeCompressedMachineSamples (\<lambda>_. witness_stream) [120] = Inr [witness_sample]"
    using decode_encoded_report [of "[120]" "\<lambda>_. witness_stream", OF _ _ witness_report]
    by (simp add: MAX_COMPRESSED_BYTES_def witness_parts_def)
  from machine_samples_valid [OF this] show ?thesis by simp
qed

end
