(* ===== verification/Frame_Correctness.thy ===== *)
theory Frame_Correctness
  imports Live_Frame Protobuf_Correctness Ticket_Correctness
begin

text \<open>
  A frame that an agent seals in the documented format, with AES-GCM under the key of its session, is opened
  by the hub, and the message the hub sends is read back by the viewer with the values the agent measured.
\<close>

section \<open>Big-endian numbers\<close>

lemma length_be_bytes [simp]: "length (be_bytes n v) = n"
  by (induction n arbitrary: v) auto

lemma be_number_append: "be_number (bs @ [b]) = be_number bs * 256 + b"
  by (simp add: be_number_def)

lemma be_number_be_bytes: "0 \<le> v \<Longrightarrow> v < 256 ^ n \<Longrightarrow> be_number (be_bytes n v) = v"
proof (induction n arbitrary: v)
  case (Suc n)
  then have "v div 256 < 256 ^ n" by (simp add: div_less_iff_less_mult mult.commute)
  then show ?case using Suc by (simp add: be_number_append)
qed (simp add: be_number_def)

section \<open>Frames of an agent\<close>

definition frame_header :: "blob \<Rightarrow> int \<Rightarrow> int \<Rightarrow> int \<Rightarrow> blob" where
  "frame_header session pk sequence observed =
     LIVE_MAGIC @ session @ be_bytes 8 pk @ be_bytes 8 sequence @ be_bytes 8 observed"

definition encode_frame :: "blob \<Rightarrow> int \<Rightarrow> int \<Rightarrow> int \<Rightarrow> blob \<Rightarrow> blob" where
  "encode_frame session pk sequence observed ciphertext =
     frame_header session pk sequence observed @ be_bytes 4 (int (length ciphertext)) @ ciphertext"

lemma length_frame_header: "length session = 16 \<Longrightarrow> length (frame_header session pk sequence observed) = 44"
  by (simp add: frame_header_def LIVE_MAGIC_def)

lemma parse_encoded_frame:
  assumes "length session = 16" "safe_metric pk" "safe_metric sequence" "safe_metric observed"
    and "16 \<le> length ciphertext" "length ciphertext \<le> MAX_LIVE_FRAME_BYTES - 48"
  shows "parseAgentLiveFrame (encode_frame session pk sequence observed ciphertext) =
    Inr \<lparr>lf_sessionId = session, lf_machinePk = pk, lf_sequence = sequence, lf_observedAt = observed,
      lf_aad = frame_header session pk sequence observed, lf_ciphertext = ciphertext\<rparr>"
proof -
  let ?f = "encode_frame session pk sequence observed ciphertext"
  have f: "?f = LIVE_MAGIC @ session @ be_bytes 8 pk @ be_bytes 8 sequence @ be_bytes 8 observed
      @ be_bytes 4 (int (length ciphertext)) @ ciphertext"
    by (simp add: encode_frame_def frame_header_def)
  have bound: "safe_metric v \<Longrightarrow> 0 \<le> v \<and> v < 256 ^ 8" for v
    by (simp add: safe_metric_def max_safe_integer_def)
  have magic: "length LIVE_MAGIC = 4" by (simp add: LIVE_MAGIC_def)
  have numbers: "view_number ?f 20 8 = pk" "view_number ?f 28 8 = sequence" "view_number ?f 36 8 = observed"
    using assms(1) bound [OF assms(2)] bound [OF assms(3)] bound [OF assms(4)]
    by (simp_all add: view_number_def f magic be_number_be_bytes)
  have "view_number ?f 44 4 = int (length ciphertext)"
    using assms(1,6) by (simp add: view_number_def f magic be_number_be_bytes MAX_LIVE_FRAME_BYTES_def)
  moreover have "length ?f = 48 + length ciphertext" using assms(1) by (simp add: f magic)
  moreover have "take 4 ?f = LIVE_MAGIC" "take 16 (drop 4 ?f) = session"
    using assms(1) magic by (simp_all add: f)
  moreover have "take 44 ?f = frame_header session pk sequence observed" "drop 48 ?f = ciphertext"
    using length_frame_header [OF assms(1)] by (simp_all add: encode_frame_def)
  ultimately show ?thesis
    using assms(2-6) numbers magic
    by (simp add: parseAgentLiveFrame_def readUnsigned64_def safeProtobufNumber_def safe_metric_def
        FRAME_HEADER_BYTES_def AUTHENTICATED_HEADER_BYTES_def MAX_LIVE_FRAME_BYTES_def)
qed

section \<open>Samples in frames\<close>

definition live_sample_ok :: "metric_sample \<Rightarrow> bool" where
  "live_sample_ok s \<longleftrightarrow> 0 < observedAt s \<and> cpuPermille s \<le> 1000 \<and> exact_sample s"

lemma sample_message_length:
  assumes "list_all (\<lambda>(field, v). 0 < field \<and> field \<le> 12 \<and> (\<exists>x. v = Varint x \<and> safe_metric x)) fs"
  shows "length (encode_fields fs) \<le> 9 * length fs"
  using assms
proof (induction fs)
  case (Cons a fs)
  obtain field x where a: "a = (field, Varint x)" "0 < field" "field \<le> 12" "safe_metric x"
    using Cons.prems by (cases a) auto
  then have "length (encode_varint (field * 8)) \<le> 1" "length (encode_varint x) \<le> 8"
    by (auto simp: safe_metric_def max_safe_integer_def intro!: encode_varint_length)
  then show ?case using Cons a(1) by (simp add: encode_field_def)
qed simp

lemma length_implicit_fields: "length (implicit_fields xs) \<le> length xs"
  by (induction xs) auto

lemma encode_message_length:
  assumes "live_sample_ok s"
  shows "length (encode_message s) \<le> 108" "encode_message s \<noteq> []"
proof -
  have known: "list_all (\<lambda>(field, v). 0 < field \<and> field \<le> 12 \<and> (\<exists>x. v = Varint x \<and> safe_metric x)) (implicit_fields xs)"
    if "list_all (\<lambda>(field, v). 0 < field \<and> field \<le> 12 \<and> safe_metric v) xs" for xs
    using that by (induction xs) auto
  have "list_all (\<lambda>(field, v). 0 < field \<and> field \<le> 12 \<and> safe_metric v) (sample_numbers s)"
    using assms by (simp add: live_sample_ok_def exact_sample_def sample_numbers_def)
  note numbers = known [OF this]
  have optional: "list_all (\<lambda>(field, v). 0 < field \<and> field \<le> 12 \<and> (\<exists>x. v = Varint x \<and> safe_metric x)) (optional_field field w)"
    "length (optional_field field w) \<le> 1"
    if "0 < field" "field \<le> 12" "pred_option safe_metric w" for field w
    using that by (auto simp: optional_field_def split: option.splits)
  have opts: "pred_option safe_metric (load1mMilli s)" "pred_option safe_metric (uptimeSeconds s)"
    using assms by (simp_all add: live_sample_ok_def exact_sample_def)
  have "length (proto3_fields s) \<le> 12"
    using length_implicit_fields [of "sample_numbers s"] optional(2) [OF _ _ opts(1), of 11] optional(2) [OF _ _ opts(2), of 12]
    unfolding proto3_fields_def implicit_fields_def [symmetric] by (simp add: sample_numbers_def)
  moreover have "length (encode_message s) \<le> 9 * length (proto3_fields s)"
    unfolding encode_message_def
    using numbers optional(1) [OF _ _ opts(1), of 11] optional(1) [OF _ _ opts(2), of 12]
    by (intro sample_message_length) (simp add: proto3_fields_def implicit_fields_def [symmetric])
  ultimately show "length (encode_message s) \<le> 108" by linarith
  show "encode_message s \<noteq> []"
    using assms by (simp add: encode_message_def proto3_fields_def sample_numbers_def encode_field_def live_sample_ok_def)
qed

lemma decodeLiveMetricSample_encode:
  assumes "live_sample_ok s"
  shows "decodeLiveMetricSample (encode_message s) = Inr s"
proof -
  note len = encode_message_length [OF assms]
  have ok: "list_all (\<lambda>(field, v). sample_field_ok field v) (proto3_fields s)"
    using assms by (simp add: live_sample_ok_def exact_fields_ok)
  then have "metric_fields message (encode_message s) 0 initial_values =
      Inr (fold store_field (proto3_fields s) initial_values)" for message
    by (rule metric_fields_encode) (use len in \<open>simp_all add: encode_message_def\<close>)
  then show ?thesis
    using assms len by (simp add: decodeLiveMetricSample_def sample_of_stored [OF ok] live_sample_ok_def Let_def)
qed

section \<open>From the agent to the viewer\<close>

text \<open>
  The agent's side (\<open>crates/agent/src/live/frame.rs\<close>): the frame that seals a sample with the key and the nonce prefix of
  its credential. A message of an error is left out; \<open>seal\<close> of \<open>crates/crypto\<close> is AES-GCM with the nonce
  \<open>prefix | sequence\<close>.
\<close>

record live_credential =
  cr_session_id :: blob
  cr_session_key :: blob
  cr_nonce_prefix :: blob

definition seal_live_snapshot :: "aes_gcm \<Rightarrow> live_credential \<Rightarrow> int \<Rightarrow> int \<Rightarrow> metric_sample \<Rightarrow> blob option" where
  "seal_live_snapshot gcm credential machine_pk sequence s =
     (if observedAt s \<le> 0 \<or> sequence = 0 \<or> sequence > 1000000 then None
      else if length (cr_session_key credential) \<noteq> 32 \<or> length (cr_nonce_prefix credential) \<noteq> 4 then None
      else
        let aad = frame_header (cr_session_id credential) machine_pk sequence (observedAt s);
            ciphertext = gcm_encrypt gcm (cr_session_key credential) (cr_nonce_prefix credential @ be_bytes 8 sequence)
              aad (encode_message s) in
        if int (length ciphertext) \<ge> 2 ^ 32 then None
        else let frame = aad @ be_bytes 4 (int (length ciphertext)) @ ciphertext in
          if int (length frame) > 16 * 1024 then None else Some frame)"

text \<open>AES-GCM opens what it sealed, and appends a tag of sixteen bytes.\<close>

definition gcm_ok :: "aes_gcm \<Rightarrow> bool" where
  "gcm_ok gcm \<longleftrightarrow> (\<forall>key iv aad plain.
     gcm_decrypt gcm key iv aad (gcm_encrypt gcm key iv aad plain) = Some plain
     \<and> length (gcm_encrypt gcm key iv aad plain) = length plain + 16)"

lemma json_int_number [simp]:
  "claim_int (Some (metric_json n)) = n" "isSafeMetric (Some (metric_json n)) \<longleftrightarrow> safe_metric n"
  by (auto simp: metric_json_def isSafeMetric_def is_integer_num_def is_safe_integer_def safe_metric_def
      max_safe_integer_def)

lemma metric_json_not_null [simp]: "metric_json n \<noteq> JNull"
  by (simp add: metric_json_def)

lemma optional_metric [simp]:
  "jfield data key = Some (json_optional v) \<Longrightarrow> pred_option safe_metric v \<Longrightarrow> optionalMetricValue data key = Inr v"
  by (cases v) (simp_all add: optionalMetricValue_def json_optional_def metricValue_def)

lemma parse_snapshot:
  assumes "JSON_parse pf text = Some (snapshot_json snapshot)" "js_length text \<le> 4096"
    and "live_sample_ok (ls_sample snapshot)" "machine_topic (ls_topic snapshot)"
  shows "parseLiveViewerMessage pf text = Inr snapshot"
proof -
  let ?s = "ls_sample snapshot"
  have safe: "safe_metric (observedAt ?s)" "safe_metric (cpuPermille ?s)" "safe_metric (memoryUsedBytes ?s)"
    "safe_metric (memoryTotalBytes ?s)" "safe_metric (storageUsedBytes ?s)" "safe_metric (storageTotalBytes ?s)"
    "safe_metric (networkRxBps ?s)" "safe_metric (networkTxBps ?s)" "safe_metric (networkRxTotal ?s)"
    "safe_metric (networkTxTotal ?s)" "pred_option safe_metric (load1mMilli ?s)"
    "pred_option safe_metric (uptimeSeconds ?s)" "cpuPermille ?s \<le> 1000"
    using assms(3) by (simp_all add: live_sample_ok_def exact_sample_def sample_numbers_def)
  show ?thesis
    using assms(1,2,4) safe
    by (simp add: parseLiveViewerMessage_def snapshot_json_def Let_def metricValue_def jfield_def)
qed

section \<open>Properties\<close>

text \<open>
  C26. End to end: a sample that an agent seals with a live sequence under the key of its session, in the encoding of
  proto3 that leaves out zeros, becomes a frame within the limits that the hub opens as a snapshot of that machine's
  topic, and the viewer reads exactly that snapshot from the message the hub sends.
\<close>

theorem live_frame_end_to_end:
  assumes "gcm_ok gcm" "length (cr_session_id credential) = 16" "byte_list (cr_session_id credential)"
    and "length (cr_nonce_prefix credential) = 4" "byte_list (cr_nonce_prefix credential)"
    and "length (cr_session_key credential) = 32"
    and "deriveAgentLiveKey hmac secret (encodeBase64Url (cr_session_id credential)) = Inr (cr_session_key credential)"
    and "0 < pk" "safe_metric pk" "0 < sequence" "sequence \<le> 1000000" "live_sample_ok s"
    and "JSON_parse pf (JSON_stringify pf (snapshot_json \<lparr>ls_topic = topic_of_machine pk, ls_sample = s\<rparr>)) =
      Some (snapshot_json \<lparr>ls_topic = topic_of_machine pk, ls_sample = s\<rparr>)"
    and "js_length (JSON_stringify pf (snapshot_json \<lparr>ls_topic = topic_of_machine pk, ls_sample = s\<rparr>)) \<le> 4096"
  shows "\<exists>bytes. seal_live_snapshot gcm credential pk sequence s = Some bytes \<and>
    bind_result (parseAgentLiveFrame bytes) (\<lambda>frame.
      bind_result (decryptAgentLiveFrame hmac gcm frame secret (encodeBase64Url (cr_session_id credential))
          (encodeBase64Url (cr_nonce_prefix credential)) pk)
        (\<lambda>snapshot. parseLiveViewerMessage pf (JSON_stringify pf (snapshot_json snapshot)))) =
    Inr \<lparr>ls_topic = topic_of_machine pk, ls_sample = s\<rparr>"
proof -
  let ?session = "cr_session_id credential" and ?prefix = "cr_nonce_prefix credential" and ?key = "cr_session_key credential"
  let ?iv = "?prefix @ be_bytes 8 sequence"
  let ?aad = "frame_header ?session pk sequence (observedAt s)"
  let ?ct = "gcm_encrypt gcm ?key ?iv ?aad (encode_message s)"
  let ?snapshot = "\<lparr>ls_topic = topic_of_machine pk, ls_sample = s\<rparr>"
  let ?frame = "\<lparr>lf_sessionId = ?session, lf_machinePk = pk, lf_sequence = sequence, lf_observedAt = observedAt s,
      lf_aad = ?aad, lf_ciphertext = ?ct\<rparr>"
  have ct: "length ?ct = length (encode_message s) + 16" "gcm_decrypt gcm ?key ?iv ?aad ?ct = Some (encode_message s)"
    using assms(1) by (simp_all add: gcm_ok_def)
  have observed: "safe_metric (observedAt s)" "0 < observedAt s" and seq: "safe_metric sequence"
    using assms(10-12) by (simp_all add: live_sample_ok_def exact_sample_def sample_numbers_def safe_metric_def max_safe_integer_def)
  have sealed: "seal_live_snapshot gcm credential pk sequence s = Some (encode_frame ?session pk sequence (observedAt s) ?ct)"
    using assms(2,4,6,10,11) observed(2) ct(1) encode_message_length [OF assms(12)]
    by (simp add: seal_live_snapshot_def encode_frame_def length_frame_header Let_def)
  have parse: "parseAgentLiveFrame (encode_frame ?session pk sequence (observedAt s) ?ct) = Inr ?frame"
    using assms(2,9) observed(1) seq ct encode_message_length [OF assms(12)]
    by (intro parse_encoded_frame) (simp_all add: MAX_LIVE_FRAME_BYTES_def)
  have "nonce ?prefix sequence = Inr ?iv"
    using assms(4,10) seq by (simp add: nonce_def is_safe_integer_def safe_metric_def max_safe_integer_def)
  then have decrypt: "decryptAgentLiveFrame hmac gcm ?frame secret (encodeBase64Url ?session) (encodeBase64Url ?prefix) pk =
      Inr ?snapshot"
    using assms(2-5,7) ct(2) decodeLiveMetricSample_encode [OF assms(12)]
    by (simp add: decryptAgentLiveFrame_def decode_encode_base64url)
  have "is_safe_integer pk" using assms(9) by (simp add: is_safe_integer_def safe_metric_def max_safe_integer_def)
  then have "machine_topic (topic_of_machine pk)"
    using assms(8) by (simp only: topic_of_machine_def machine_topic_of_pk)
  then have "parseLiveViewerMessage pf (JSON_stringify pf (snapshot_json ?snapshot)) = Inr ?snapshot"
    using assms(12-14) by (intro parse_snapshot) simp_all
  then show ?thesis using sealed parse decrypt by simp
qed

definition frame_gcm :: aes_gcm where
  "frame_gcm = \<lparr>gcm_encrypt = (\<lambda>key iv aad plain. plain @ replicate 16 0),
     gcm_decrypt = (\<lambda>key iv aad sealed. Some (take (length sealed - 16) sealed))\<rparr>"

definition frame_platform :: platform where
  "frame_platform =
     \<lparr>sha256 = (\<lambda>_. []),
      JSON_parse = (\<lambda>_. Some (snapshot_json \<lparr>ls_topic = topic_of_machine 7, ls_sample = witness_sample\<rparr>)),
      JSON_stringify = (\<lambda>_. ''{}'')\<rparr>"

definition sample_credential :: live_credential where
  "sample_credential = \<lparr>cr_session_id = replicate 16 9, cr_session_key = replicate 32 7, cr_nonce_prefix = [1, 2, 3, 4]\<rparr>"

lemma live_frame_end_to_end_witness:
  "\<exists>bytes. seal_live_snapshot frame_gcm sample_credential 7 5 witness_sample = Some bytes \<and>
    bind_result (parseAgentLiveFrame bytes) (\<lambda>frame.
      bind_result (decryptAgentLiveFrame ticket_mac frame_gcm frame ticket_secret
          (encodeBase64Url (cr_session_id sample_credential)) (encodeBase64Url (cr_nonce_prefix sample_credential)) 7)
        (\<lambda>snapshot. parseLiveViewerMessage frame_platform (JSON_stringify frame_platform (snapshot_json snapshot)))) =
    Inr \<lparr>ls_topic = topic_of_machine 7, ls_sample = witness_sample\<rparr>"
proof (rule live_frame_end_to_end)
  have bytes: "byte_list (replicate 16 9)" by (simp add: byte_list_def list_all_iff)
  then show "deriveAgentLiveKey ticket_mac ticket_secret (encodeBase64Url (cr_session_id sample_credential)) =
      Inr (cr_session_key sample_credential)"
    by (simp add: deriveAgentLiveKey_def decode_encode_base64url keyedDigest_def ticket_mac_def ticket_secret_def
        sample_credential_def)
  show "byte_list (cr_session_id sample_credential)" using bytes by (simp add: sample_credential_def)
qed (simp_all add: gcm_ok_def frame_gcm_def frame_platform_def safe_metric_def max_safe_integer_def live_sample_ok_def
    witness_sample_def exact_sample_def sample_numbers_def js_length_def utf16_units_def sample_credential_def)

end
