(* ===== verification/Hub_Correctness.thy ===== *)
theory Hub_Correctness
  imports Live_Hub Frame_Correctness
begin

text \<open>
  The hub as a state machine: connections, messages, the end of a decryption, closed sockets and hibernation
  interleave. In every reachable state the numbers of connections are bounded, a sequence number is accepted
  at most once while the hub remembers the session, and a snapshot reaches the viewers of its machine only.
\<close>

section \<open>Attachments\<close>

fun valid_attachment :: "socket_attachment \<Rightarrow> bool" where
  "valid_attachment (Agent_socket _ _ expires _ _ highest) \<longleftrightarrow>
     is_safe_integer expires \<and> pred_option (\<lambda>v. 1 \<le> v \<and> v \<le> MAX_LIVE_SEQUENCE) highest"
| "valid_attachment (Viewer_socket _ _ expires) \<longleftrightarrow> is_safe_integer expires"

lemma parse_attachment_value: "valid_attachment a \<Longrightarrow> parse_attachment (attachment_value a) = Some a"
  by (cases a)
    (auto simp: parse_attachment_def jfield_def metric_json_def is_integer_num_def json_optional_def
      stored_sequence_ok_def is_safe_integer_def max_safe_integer_def MAX_LIVE_SEQUENCE_def split: option.splits)

definition tags_of :: "socket_attachment \<Rightarrow> string list" where
  "tags_of a = [if is_agent a then ''agent'' else ''viewer'', topic_tag (sa_topic a), connection_tag a]"

type_synonym core = "nat \<times> string list \<times> json"

definition socket_core :: "socket \<Rightarrow> core" where
  "socket_core s = (sk_id s, sk_tags s, sk_value s)"

definition cores :: "hub \<Rightarrow> core list" where
  "cores h = map socket_core (hb_sockets h)"

definition core_ok :: "nat \<Rightarrow> core \<Rightarrow> bool" where
  "core_ok fresh = (\<lambda>(i, tags, v). i < fresh \<and> (\<exists>a. valid_attachment a \<and> v = attachment_value a \<and> tags = tags_of a))"

definition sockets_ok :: "hub \<Rightarrow> bool" where
  "sockets_ok h \<longleftrightarrow> list_all (core_ok (hb_next h)) (cores h) \<and> distinct (map fst (cores h))"

text \<open>An operation that neither touches attachments nor sequence states.\<close>

definition quiet :: "hub \<Rightarrow> hub \<Rightarrow> bool" where
  "quiet h h' \<longleftrightarrow> cores h' = cores h \<and> hb_states h' = hb_states h \<and> hb_next h' = hb_next h"

lemma quiet_refl [simp]: "quiet h h"
  by (simp add: quiet_def)

lemma quiet_trans: "quiet h h' \<Longrightarrow> quiet h' h'' \<Longrightarrow> quiet h h''"
  by (simp add: quiet_def)

lemma quiet_fold: "(\<And>x u. x \<in> set xs \<Longrightarrow> quiet u (f x u)) \<Longrightarrow> quiet h (fold f xs h)"
proof (induction xs arbitrary: h)
  case (Cons x xs)
  have "quiet h (f x h)" "quiet (f x h) (fold f xs (f x h))"
    using Cons by auto
  then show ?case by (simp add: quiet_trans [of h "f x h"])
qed simp

lemma quiet_close [simp]: "quiet h (close_socket i code reason h)"
  by (auto simp: quiet_def cores_def close_socket_def update_socket_def socket_core_def)

lemma quiet_send [simp]: "quiet h (send_or_close s text code reason h)"
  by (auto simp: send_or_close_def) (simp add: quiet_def cores_def)

lemma quiet_sendDemand: "quiet h (sendDemand pf h topic excluded now)"
  unfolding sendDemand_def Let_def by (rule quiet_fold) (simp split: option.splits socket_attachment.splits)

lemma quiet_relay: "quiet h (relay_snapshot topic text now h)"
  unfolding relay_snapshot_def by (rule quiet_fold) (simp split: option.splits socket_attachment.splits)

section \<open>Counting connections\<close>

definition core_active :: "string \<Rightarrow> bool \<Rightarrow> int \<Rightarrow> core \<Rightarrow> bool" where
  "core_active tag agent now = (\<lambda>(i, tags, v). tag \<in> set tags \<and>
     (case parse_attachment v of None \<Rightarrow> False | Some a \<Rightarrow> is_agent a = agent \<and> sa_expiresAt a > now))"

definition active_count :: "hub \<Rightarrow> string \<Rightarrow> bool \<Rightarrow> int \<Rightarrow> nat" where
  "active_count h tag agent now = length (filter (core_active tag agent now) (cores h))"

lemma activeConnections_count:
  "quiet h (fst (activeConnections h tag agent now)) \<and> snd (activeConnections h tag agent now) = active_count h tag agent now"
proof -
  define step where "step = (\<lambda>s (u, active :: nat).
         case attachment s of
           None \<Rightarrow> (close_socket (sk_id s) 1008 ''Ticket expired'' u, active)
         | Some current \<Rightarrow>
             if sa_expiresAt current \<le> now then (close_socket (sk_id s) 1008 ''Ticket expired'' u, active)
             else (u, if is_agent current = agent then active + 1 else active))"
  have "quiet u (fst (fold step ss (u, n))) \<and>
      snd (fold step ss (u, n)) = n + length (filter (core_active tag agent now) (map socket_core ss))"
    if "\<forall>s \<in> set ss. tag \<in> set (sk_tags s)" for ss u n
    using that
  proof (induction ss arbitrary: u n)
    case (Cons s ss)
    obtain u' n' where step: "step s (u, n) = (u', n')" by (cases "step s (u, n)")
    then have "quiet u u'" "n' = (if core_active tag agent now (socket_core s) then n + 1 else n)"
      using Cons.prems by (auto simp: step_def core_active_def socket_core_def attachment_def
          split: option.splits if_splits)
    then show ?case using Cons.IH [of u' n'] Cons.prems step quiet_trans by auto
  qed simp
  from this [of "getWebSockets h tag" h 0]
  have "quiet h (fst (activeConnections h tag agent now))"
    "snd (activeConnections h tag agent now) =
      length (filter (core_active tag agent now) (map socket_core (getWebSockets h tag)))"
    by (simp_all add: activeConnections_def getWebSockets_def step_def)
  moreover have "filter (core_active tag agent now) (map socket_core (getWebSockets h tag)) =
      filter (core_active tag agent now) (cores h)"
    by (auto simp: cores_def getWebSockets_def filter_map core_active_def socket_core_def o_def intro!: arg_cong [where f = "map socket_core"] filter_cong)
  ultimately show ?thesis by (simp add: active_count_def)
qed

lemma active_count_later: "now \<le> later \<Longrightarrow> active_count h tag agent later \<le> active_count h tag agent now"
proof -
  assume "now \<le> later"
  then have "filter (core_active tag agent later) xs = filter (core_active tag agent later) (filter (core_active tag agent now) xs)" for xs
    by (auto simp: core_active_def intro!: filter_cong split: option.splits)
  then show ?thesis unfolding active_count_def by (metis length_filter_le)
qed

definition within_limits :: "hub \<Rightarrow> int \<Rightarrow> bool" where
  "within_limits h now \<longleftrightarrow>
     (\<forall>session. active_count h (session_tag session) True now \<le> MAX_AGENT_CONNECTIONS_PER_SESSION)
     \<and> (\<forall>subject topic. active_count h (viewer_tag subject topic) False now \<le> MAX_VIEWER_CONNECTIONS_PER_TOPIC)"

lemma within_limits_later: "within_limits h now \<Longrightarrow> now \<le> later \<Longrightarrow> within_limits h later"
  unfolding within_limits_def using active_count_later order_trans by blast

lemma tag_simps [simp]:
  "session_tag a = session_tag b \<longleftrightarrow> a = b" "topic_tag a = topic_tag b \<longleftrightarrow> a = b"
  "session_tag a \<noteq> topic_tag b" "topic_tag b \<noteq> session_tag a" "session_tag a \<noteq> viewer_tag b c" "viewer_tag b c \<noteq> session_tag a"
  "topic_tag a \<noteq> viewer_tag b c" "viewer_tag b c \<noteq> topic_tag a"
  "session_tag a \<noteq> ''agent''" "session_tag a \<noteq> ''viewer''" "topic_tag a \<noteq> ''agent''" "topic_tag a \<noteq> ''viewer''"
  "viewer_tag a c \<noteq> ''agent''" "viewer_tag a c \<noteq> ''viewer''"
  by (simp_all add: session_tag_def topic_tag_def viewer_tag_def)

lemma tags_of_session: "session_tag session \<in> set (tags_of a) \<longleftrightarrow> is_agent a \<and> sa_sessionId a = session"
  by (cases a) (auto simp: tags_of_def is_agent_def)

lemma tags_of_viewer: "viewer_tag subject topic \<in> set (tags_of a) \<Longrightarrow> connection_tag a = viewer_tag subject topic"
  by (cases a) (auto simp: tags_of_def is_agent_def)

lemma tags_of_topic: "topic_tag topic \<in> set (tags_of a) \<longleftrightarrow> sa_topic a = topic"
  by (cases a) (auto simp: tags_of_def is_agent_def)

section \<open>Accepting a connection\<close>

lemma cores_new_socket:
  "cores (h\<lparr>hb_sockets := hb_sockets h @ [new_socket i a], hb_next := n\<rparr>) = cores h @ [(i, tags_of a, attachment_value a)]"
  by (simp add: cores_def socket_core_def new_socket_def tags_of_def)

lemma requested_attachment_ok:
  assumes "requested_attachment env hs now = Inr (Some a)"
  shows "valid_attachment a \<and> now < sa_expiresAt a \<and> topicMachinePk (sa_topic a) \<noteq> None"
proof -
  obtain topic where "JSON_parse (le_platform env)
      (case header hs ''x-alphaping-topics'' of None \<Rightarrow> ''null'' | Some t \<Rightarrow> t) = Some (JArr [JStr topic])"
    using assms by (auto simp: requested_attachment_def split: option.splits json.splits list.splits)
  moreover from assms this obtain subject expires where "header hs ''x-alphaping-subject'' = Some subject"
    and expires: "safe_number env (header hs ''x-alphaping-expires'') = Some expires"
    by (auto simp: requested_attachment_def split: option.splits)
  moreover have "is_safe_integer expires"
    using expires by (auto simp: safe_number_def is_safe_integer_def max_safe_integer_def split: option.splits if_splits)
  ultimately show ?thesis
    using assms by (auto simp: requested_attachment_def bind_result_Inr_iff split: if_splits)
qed

text \<open>Every outcome of a request: the cores stay, or one socket is added below its limit.\<close>

lemma hub_fetch_cases:
  assumes "hub_fetch env h hs now = Inr (h', response)"
  obtains (refused) "quiet h h'" "\<nexists>i rh. response = Upgraded i rh"
  | (accepted) a where "requested_attachment env hs now = Inr (Some a)"
      "cores h' = cores h @ [(hb_next h, tags_of a, attachment_value a)]"
      "hb_states h' = hb_states h" "hb_next h' = hb_next h + 1"
      "active_count h (connection_tag a) (is_agent a) now < connection_limit a"
      "response = Upgraded (hb_next h) [(''sec-websocket-protocol'', ''alphaping.v1'')]"
proof (cases "map_option toLowerCase (header hs ''Upgrade'') \<noteq> Some ''websocket''
    \<or> requested_attachment env hs now = Inr None")
  case True
  then show thesis using assms refused by (auto simp: hub_fetch_def unauthorized_def split: if_splits)
next
  case False
  then obtain a where a: "requested_attachment env hs now = Inr (Some a)"
    using assms by (auto simp: hub_fetch_def bind_result_Inr_iff split: option.splits)
  obtain h1 active where h1: "activeConnections h (connection_tag a) (is_agent a) now = (h1, active)"
    by (cases "activeConnections h (connection_tag a) (is_agent a) now")
  then have q: "quiet h h1" "active = active_count h (connection_tag a) (is_agent a) now"
    using activeConnections_count [of h "connection_tag a" "is_agent a" now] by simp_all
  show thesis
  proof (cases "liveConnectionAvailable active (connection_limit a)")
    case False
    then show thesis using assms a h1 q \<open>\<not> (_ \<or> _)\<close> refused by (auto simp: hub_fetch_def)
  next
    case True
    let ?h2 = "h1\<lparr>hb_sockets := hb_sockets h1 @ [new_socket (hb_next h1) a], hb_next := hb_next h1 + 1\<rparr>"
    have "h' = sendDemand (le_platform env) ?h2 (sa_topic a) None now"
        "response = Upgraded (hb_next h1) [(''sec-websocket-protocol'', ''alphaping.v1'')]"
      using assms a h1 True \<open>\<not> (_ \<or> _)\<close> by (auto simp: hub_fetch_def Let_def)
    moreover have "quiet ?h2 (sendDemand (le_platform env) ?h2 (sa_topic a) None now)" by (rule quiet_sendDemand)
    ultimately show thesis
      using a q True
      by (intro accepted) (auto simp: quiet_def liveConnectionAvailable_def cores_new_socket)
  qed
qed

lemma quiet_transport:
  assumes "quiet h h'"
  shows "sockets_ok h' \<longleftrightarrow> sockets_ok h" "within_limits h' now \<longleftrightarrow> within_limits h now"
  using assms by (simp_all add: quiet_def sockets_ok_def within_limits_def active_count_def)

lemma core_ok_fresh: "core_ok n c \<Longrightarrow> n \<le> m \<Longrightarrow> core_ok m c"
  by (auto simp: core_ok_def)

lemma hub_fetch_ok:
  assumes "hub_fetch env h hs now = Inr (h', response)" "sockets_ok h" "within_limits h now"
  shows "sockets_ok h' \<and> within_limits h' now"
  using assms(1)
proof (cases rule: hub_fetch_cases)
  case refused
  then show ?thesis using assms(2,3) quiet_transport by blast
next
  case (accepted a)
  note valid = requested_attachment_ok [OF accepted(1)]
  have old: "list_all (core_ok (hb_next h)) (cores h)" "distinct (map fst (cores h))"
    using assms(2) by (simp_all add: sockets_ok_def)
  then have "hb_next h \<notin> fst ` set (cores h)" by (auto simp: list_all_iff core_ok_def)
  moreover have "list_all (core_ok (hb_next h')) (cores h)"
    using old accepted(4) by (auto simp: list_all_iff intro: core_ok_fresh)
  ultimately have "sockets_ok h'"
    using accepted(2,4) valid old by (auto simp: sockets_ok_def core_ok_def)
  moreover have "within_limits h' now"
  proof -
    have new: "active_count h' tag agent now = active_count h tag agent now +
        (if tag \<in> set (tags_of a) \<and> is_agent a = agent then 1 else 0)" for tag agent
      using accepted(2) valid by (simp add: active_count_def core_active_def parse_attachment_value)
    have bound: "connection_tag a = tag \<Longrightarrow> is_agent a = agent \<Longrightarrow> active_count h tag agent now < connection_limit a"
      for tag agent using accepted(5) by auto
    show ?thesis
      unfolding within_limits_def
    proof (intro conjI allI)
      fix session
      show "active_count h' (session_tag session) True now \<le> MAX_AGENT_CONNECTIONS_PER_SESSION"
        using assms(3) bound [of "session_tag session" True] tags_of_session [of session a]
        by (cases a) (auto simp: new within_limits_def connection_limit_def is_agent_def)
    next
      fix subject topic
      show "active_count h' (viewer_tag subject topic) False now \<le> MAX_VIEWER_CONNECTIONS_PER_TOPIC"
        using assms(3) bound [of "viewer_tag subject topic" False] tags_of_viewer [of subject topic a]
        by (cases "viewer_tag subject topic \<in> set (tags_of a) \<and> is_agent a = False")
          (auto simp: new within_limits_def connection_limit_def)
    qed
  qed
  ultimately show ?thesis by simp
qed

section \<open>Sequences in the attachments\<close>

definition attached :: "hub \<Rightarrow> nat \<Rightarrow> socket_attachment option" where
  "attached h i = Option.bind (map_of (cores h) i) (\<lambda>(tags, v). parse_attachment v)"

lemma socket_of_cores: "map_option (\<lambda>s. (sk_tags s, sk_value s)) (socket_of h i) = map_of (cores h) i"
proof -
  have "map_option (\<lambda>s. (sk_tags s, sk_value s)) (find (\<lambda>s. sk_id s = i) ss) = map_of (map socket_core ss) i" for ss
    by (induction ss) (auto simp: socket_core_def)
  then show ?thesis by (simp add: socket_of_def cores_def)
qed

lemma attached_socket: "Option.bind (socket_of h i) attachment = attached h i"
  using socket_of_cores [of h i, symmetric] by (cases "socket_of h i") (auto simp: attached_def attachment_def)

lemma attached_quiet: "quiet h h' \<Longrightarrow> attached h' i = attached h i"
  by (simp add: attached_def quiet_def)

text \<open>A core of a well-formed hub and the attachment behind it.\<close>

lemma sockets_ok_core:
  assumes "sockets_ok h" "(i, tags, v) \<in> set (cores h)"
  obtains a where "valid_attachment a" "v = attachment_value a" "tags = tags_of a" "i < hb_next h" "attached h i = Some a"
proof -
  obtain a where a: "valid_attachment a" "v = attachment_value a" "tags = tags_of a" "i < hb_next h"
    using assms by (auto simp: sockets_ok_def list_all_iff core_ok_def)
  moreover have "map_of (cores h) i = Some (tags, v)"
    using assms by (simp add: sockets_ok_def map_of_eq_Some_iff)
  ultimately show thesis using that by (simp add: attached_def parse_attachment_value)
qed

lemma attached_core:
  assumes "sockets_ok h" "attached h i = Some a"
  shows "(i, tags_of a, attachment_value a) \<in> set (cores h)" "valid_attachment a" "i < hb_next h"
proof -
  obtain tags v where core: "(i, tags, v) \<in> set (cores h)"
    using assms(2) by (auto simp: attached_def dest: map_of_SomeD split: Option.bind_splits)
  from assms(1) core obtain b where "valid_attachment b" "v = attachment_value b" "tags = tags_of b" "i < hb_next h"
      "attached h i = Some b"
    by (rule sockets_ok_core)
  then show "(i, tags_of a, attachment_value a) \<in> set (cores h)" "valid_attachment a" "i < hb_next h"
    using core assms(2) by auto
qed

lemma getWebSockets_cores: "map sk_id (getWebSockets h tag) = map fst (filter (\<lambda>(i, tags, v). tag \<in> set tags) (cores h))"
proof -
  have "map sk_id (filter (\<lambda>s. tag \<in> set (sk_tags s)) ss) =
      map fst (filter (\<lambda>(i, tags, v). tag \<in> set tags) (map socket_core ss))" for ss
    by (induction ss) (auto simp: socket_core_def)
  then show ?thesis by (simp add: getWebSockets_def cores_def)
qed

lemma session_sockets_attached:
  assumes "sockets_ok h" "attached h i = Some a" "is_agent a" "sa_sessionId a = session"
  shows "distinct (session_sockets h i session)"
    and "j \<in> set (session_sockets h i session) \<longleftrightarrow> (\<exists>b. attached h j = Some b \<and> is_agent b \<and> sa_sessionId b = session)"
proof -
  have ids: "set (map sk_id (getWebSockets h tag)) = {j. \<exists>b. attached h j = Some b \<and> tag \<in> set (tags_of b)}" for tag
    unfolding getWebSockets_cores using assms(1)
    by (force elim: sockets_ok_core dest: attached_core)
  have "distinct (map fst (filter (\<lambda>(i, tags, v). session_tag session \<in> set tags) (cores h)))"
    using assms(1) by (auto simp: sockets_ok_def distinct_map intro: inj_on_subset)
  then show "distinct (session_sockets h i session)"
    by (simp only: session_sockets_def getWebSockets_cores distinct.simps distinct_filter) simp
  show "j \<in> set (session_sockets h i session) \<longleftrightarrow> (\<exists>b. attached h j = Some b \<and> is_agent b \<and> sa_sessionId b = session)"
    using ids [of "session_tag session"] assms(2-4)
    by (auto simp: session_sockets_def tags_of_session simp del: set_map)
qed

lemma session_sequence_attached:
  "session_sequence h session j =
    (case attached h j of
       Some (Agent_socket _ _ _ session' _ highest) \<Rightarrow> if session' = session then highest else None
     | _ \<Rightarrow> None)"
  using attached_socket [of h j]
  by (cases "socket_of h j") (auto simp: session_sequence_def split: option.splits socket_attachment.splits)

text \<open>Maxima over optional numbers, as the loops of the handler compute them.\<close>

definition raise_all :: "('x \<Rightarrow> int option) \<Rightarrow> 'x list \<Rightarrow> int option \<Rightarrow> int option" where
  "raise_all f xs acc = fold (\<lambda>x acc. case f x of None \<Rightarrow> acc | Some v \<Rightarrow> Some (raise_to acc v)) xs acc"

lemma stored_committed_raise: "stored_committed h session ids initial = raise_all (session_sequence h session) ids initial"
  by (simp add: stored_committed_def raise_all_def)

lemma highest_sequence_raise: "highest_sequence st = raise_all Some (pending st) (committed st)"
  by (simp add: highest_sequence_def raise_all_def)

definition at_least :: "int option \<Rightarrow> int \<Rightarrow> bool" where
  "at_least current v \<longleftrightarrow> (\<exists>w. current = Some w \<and> v \<le> w)"

definition in_sequence :: "int \<Rightarrow> bool" where
  "in_sequence v \<longleftrightarrow> 1 \<le> v \<and> v \<le> MAX_LIVE_SEQUENCE"

lemma at_least_raise_to: "at_least acc v \<Longrightarrow> at_least (Some (raise_to acc w)) v" "at_least (Some (raise_to acc v)) v"
  by (auto simp: at_least_def raise_to_def)

lemma raise_all_acc: "at_least acc v \<Longrightarrow> at_least (raise_all f xs acc) v"
  by (induction xs arbitrary: acc) (auto simp: raise_all_def at_least_raise_to split: option.splits)

lemma raise_all_Cons: "raise_all f (x # xs) acc = raise_all f xs (case f x of None \<Rightarrow> acc | Some v \<Rightarrow> Some (raise_to acc v))"
  by (simp add: raise_all_def)

lemma raise_all_member: "x \<in> set xs \<Longrightarrow> f x = Some v \<Longrightarrow> at_least (raise_all f xs acc) v"
  by (induction xs arbitrary: acc) (auto simp: raise_all_Cons raise_all_acc at_least_raise_to)

lemma in_sequence_raise_to: "pred_option in_sequence acc \<Longrightarrow> in_sequence v \<Longrightarrow> in_sequence (raise_to acc v)"
  by (cases acc) (auto simp: raise_to_def in_sequence_def)

lemma raise_all_in_sequence:
  "pred_option in_sequence acc \<Longrightarrow> (\<And>x. x \<in> set xs \<Longrightarrow> pred_option in_sequence (f x)) \<Longrightarrow>
    pred_option in_sequence (raise_all f xs acc)"
proof (induction xs arbitrary: acc)
  case (Cons x xs)
  have "pred_option in_sequence (case f x of None \<Rightarrow> acc | Some v \<Rightarrow> Some (raise_to acc v))"
    using Cons.prems(1) Cons.prems(2) [of x] by (cases "f x") (auto simp: in_sequence_raise_to)
  then show ?case using Cons by (simp add: raise_all_Cons)
qed (simp add: raise_all_def)

text \<open>What storing a committed sequence does to an attachment.\<close>

fun raise_att :: "string \<Rightarrow> int \<Rightarrow> socket_attachment \<Rightarrow> socket_attachment" where
  "raise_att session v (Agent_socket subject topic expires session' prefix highest) =
     Agent_socket subject topic expires session' prefix
       (if session' = session \<and> (case highest of None \<Rightarrow> 0 | Some w \<Rightarrow> w) < v then Some v else highest)"
| "raise_att session v (Viewer_socket subject topic expires) = Viewer_socket subject topic expires"

lemma raise_att_simps [simp]:
  "raise_att session v (raise_att session v a) = raise_att session v a"
  "is_agent (raise_att session v a) = is_agent a" "sa_expiresAt (raise_att session v a) = sa_expiresAt a"
  "sa_topic (raise_att session v a) = sa_topic a" "connection_tag (raise_att session v a) = connection_tag a"
  "tags_of (raise_att session v a) = tags_of a"
  by (cases a; auto simp: is_agent_def tags_of_def)+

lemma raise_att_session [simp]: "is_agent a \<Longrightarrow> sa_sessionId (raise_att session v a) = sa_sessionId a"
  by (cases a) (auto simp: is_agent_def)

lemma valid_raise_att: "valid_attachment a \<Longrightarrow> in_sequence v \<Longrightarrow> valid_attachment (raise_att session v a)"
  by (cases a) (auto simp: in_sequence_def)

definition raise_value :: "string \<Rightarrow> int \<Rightarrow> json \<Rightarrow> json" where
  "raise_value session v w =
     (case parse_attachment w of None \<Rightarrow> w | Some a \<Rightarrow> attachment_value (raise_att session v a))"

definition raised :: "string \<Rightarrow> int \<Rightarrow> nat set \<Rightarrow> hub \<Rightarrow> hub \<Rightarrow> bool" where
  "raised session v I h h' \<longleftrightarrow>
     cores h' = map (\<lambda>(j, tags, w). (j, tags, if j \<in> I then raise_value session v w else w)) (cores h)
     \<and> hb_states h' = hb_states h \<and> hb_next h' = hb_next h"

lemma cores_serialize:
  "cores (serializeAttachment i a h) =
    map (\<lambda>(j, tags, w). (j, tags, if j = i then attachment_value a else w)) (cores h)"
  by (auto simp: cores_def serializeAttachment_def update_socket_def socket_core_def)

lemma store_committed_alt:
  assumes "attached h i = Some a"
  shows "store_committed session v i h =
    (if raise_att session v a = a then h else serializeAttachment i (raise_att session v a) h)"
  using assms by (cases a) (auto simp: store_committed_def attached_socket split: if_splits)

lemma raised_store:
  assumes "sockets_ok h"
  shows "raised session v {i} h (store_committed session v i h)"
proof (cases "attached h i")
  case None
  then have "i \<notin> fst ` set (cores h)" using assms by (force elim: sockets_ok_core)
  then have "map (\<lambda>(j, tags, w). (j, tags, if j \<in> {i} then raise_value session v w else w)) (cores h) = cores h"
    by (intro map_idI) force
  then show ?thesis using None by (simp add: raised_def store_committed_def attached_socket)
next
  case (Some a)
  have core: "w = attachment_value a" if "(i, tags, w) \<in> set (cores h)" for tags w
    using sockets_ok_core [OF assms that] Some by (metis option.inject)
  have "raise_value session v (attachment_value a) = attachment_value (raise_att session v a)"
    using attached_core(2) [OF assms Some] by (simp add: raise_value_def parse_attachment_value)
  then have goal: "map (\<lambda>(j, tags, w). (j, tags, if j \<in> {i} then raise_value session v w else w)) (cores h) =
      map (\<lambda>(j, tags, w). (j, tags, if j = i then attachment_value (raise_att session v a) else w)) (cores h)"
    using core by auto
  show ?thesis
  proof (cases "raise_att session v a = a")
    case True
    have "map (\<lambda>(j, tags, w). (j, tags, if j = i then attachment_value a else w)) (cores h) = cores h"
      using core by (intro map_idI) auto
    moreover have "store_committed session v i h = h"
      using True store_committed_alt [OF Some] by simp
    ultimately show ?thesis using goal unfolding raised_def True by simp
  next
    case False
    then have "store_committed session v i h = serializeAttachment i (raise_att session v a) h"
      using store_committed_alt [OF Some] by simp
    then show ?thesis
      unfolding raised_def goal by (simp only: cores_serialize) (simp add: serializeAttachment_def update_socket_def)
  qed
qed

lemma raise_value_valid:
  "valid_attachment a \<Longrightarrow> raise_value session v (attachment_value a) = attachment_value (raise_att session v a)"
  by (simp add: raise_value_def parse_attachment_value)

lemma raised_core:
  assumes "core_ok n (i, tags, w)" "in_sequence v" "w' = (if b then raise_value session v w else w)"
  shows "core_ok n (i, tags, w')" "core_active tag agent t (i, tags, w') \<longleftrightarrow> core_active tag agent t (i, tags, w)"
proof -
  obtain a where a: "valid_attachment a" "w = attachment_value a" "tags = tags_of a" "i < n"
    using assms(1) by (auto simp: core_ok_def)
  define a' where "a' = (if b then raise_att session v a else a)"
  have a': "valid_attachment a'" "w' = attachment_value a'" "tags = tags_of a'" "is_agent a' = is_agent a"
    "sa_expiresAt a' = sa_expiresAt a"
    using a assms(2,3) by (auto simp: a'_def raise_value_valid valid_raise_att)
  then show "core_ok n (i, tags, w')" using a(4) by (auto simp: core_ok_def)
  show "core_active tag agent t (i, tags, w') \<longleftrightarrow> core_active tag agent t (i, tags, w)"
    using a a' by (simp add: core_active_def parse_attachment_value)
qed

lemma raised_facts:
  assumes "raised session v I h h'" "sockets_ok h" "in_sequence v"
  shows "sockets_ok h'" "attached h' j = (if j \<in> I then map_option (raise_att session v) (attached h j) else attached h j)"
    and "within_limits h' now \<longleftrightarrow> within_limits h now"
proof -
  let ?f = "\<lambda>(j, tags, w). (j :: nat, tags :: string list, if j \<in> I then raise_value session v w else w)"
  have cores': "cores h' = map ?f (cores h)" and next': "hb_next h' = hb_next h"
    using assms(1) by (simp_all add: raised_def)
  have core: "core_ok n (?f c)" "core_active tag agent t (?f c) \<longleftrightarrow> core_active tag agent t c" if "core_ok n c" for c n tag agent t
    using raised_core [OF _ assms(3) refl] that by (cases c; simp)+
  have ok: "\<forall>c \<in> set (cores h). core_ok (hb_next h) c" using assms(2) by (simp add: sockets_ok_def list_all_iff)
  have "map fst (cores h') = map fst (cores h)" unfolding cores' by auto
  moreover have "list_all (core_ok (hb_next h)) (cores h')"
    using ok core(1) by (auto simp: cores' list_all_iff)
  ultimately show "sockets_ok h'"
    using assms(2) unfolding sockets_ok_def next' by simp
  have "filter (core_active tag agent now) (cores h') = map ?f (filter (core_active tag agent now) (cores h))" for tag agent
    unfolding cores' filter_map o_def using ok core(2) by (intro arg_cong [where f = "map ?f"] filter_cong) auto
  then show "within_limits h' now \<longleftrightarrow> within_limits h now"
    by (simp add: within_limits_def active_count_def)
  have "map_of (map ?f cs) j = map_option (\<lambda>(tags, w). (tags, if j \<in> I then raise_value session v w else w)) (map_of cs j)" for cs
    by (induction cs) auto
  then have map': "map_of (cores h') j = map_option (\<lambda>(tags, w). (tags, if j \<in> I then raise_value session v w else w)) (map_of (cores h) j)"
    by (simp add: cores')
  show "attached h' j = (if j \<in> I then map_option (raise_att session v) (attached h j) else attached h j)"
  proof (cases "map_of (cores h) j")
    case (Some c)
    then obtain a where "c = (tags_of a, attachment_value a)" "valid_attachment a"
      using ok map_of_SomeD [OF Some] by (cases c) (fastforce simp: core_ok_def)
    then show ?thesis using Some map' assms(3)
      by (simp add: attached_def raise_value_valid parse_attachment_value valid_raise_att)
  qed (simp add: attached_def map')
qed

lemma raised_trans:
  assumes "raised session v I h h1" "raised session v J h1 h2" "sockets_ok h" "in_sequence v"
  shows "raised session v (I \<union> J) h h2"
proof -
  have "raise_value session v (raise_value session v w) = raise_value session v w" if "core_ok n (j, tags, w)" for n j tags w
    using that assms(4) by (auto simp: core_ok_def raise_value_valid valid_raise_att)
  then have "\<forall>(j, tags, w) \<in> set (cores h). raise_value session v (raise_value session v w) = raise_value session v w"
    using assms(3) by (fastforce simp: sockets_ok_def list_all_iff)
  then show ?thesis using assms(1,2) by (auto simp: raised_def)
qed

lemma raised_fold:
  "sockets_ok h \<Longrightarrow> in_sequence v \<Longrightarrow> raised session v (set ids) h (fold (store_committed session v) ids h)"
proof (induction ids arbitrary: h)
  case Nil
  then show ?case by (simp add: raised_def case_prod_unfold)
next
  case (Cons i ids)
  note one = raised_store [OF Cons.prems(1), of session v i]
  have "raised session v (set ids) (store_committed session v i h) (fold (store_committed session v) (i # ids) h)"
    using Cons.IH raised_facts(1) [OF one Cons.prems] Cons.prems(2) by simp
  then show ?case using raised_trans [OF one _ Cons.prems] by simp
qed

section \<open>The state machine\<close>

text \<open>
  A state of the worker: the hub, the handlers that wait for a decryption, the clock, the sequences accepted
  since the hub last forgot each session, and every accepted sequence with the sockets of its session at the
  time it arrived.
\<close>

record live_world =
  lw_hub :: hub
  lw_flight :: "inflight list"
  lw_now :: int
  lw_recent :: "string \<Rightarrow> int list"
  lw_history :: "(string \<times> int \<times> nat list) list"

definition empty_hub :: hub where
  "empty_hub = \<lparr>hb_sockets = [], hb_states = (\<lambda>_. None), hb_sent = [], hb_next = 0\<rparr>"

definition empty_world :: "int \<Rightarrow> live_world" where
  "empty_world now =
     \<lparr>lw_hub = empty_hub, lw_flight = [], lw_now = now, lw_recent = (\<lambda>_. []), lw_history = []\<rparr>"

definition forget :: "hub \<Rightarrow> (string \<Rightarrow> int list) \<Rightarrow> string \<Rightarrow> int list" where
  "forget h recent session = (if hb_states h session = None then [] else recent session)"

definition frame_key :: "inflight \<Rightarrow> int" where
  "frame_key fl = lf_sequence (if_frame fl)"

inductive live_step :: "live_env \<Rightarrow> live_world \<Rightarrow> live_world \<Rightarrow> bool" for env where
  connect: "lw_now w \<le> now \<Longrightarrow> hub_fetch env (lw_hub w) hs now = Inr (h', response) \<Longrightarrow>
    live_step env w (w\<lparr>lw_hub := h', lw_now := now\<rparr>)"
| message: "lw_now w \<le> now \<Longrightarrow> webSocketMessage env (lw_hub w) i m now = (h', started) \<Longrightarrow>
    live_step env w (w\<lparr>lw_hub := h', lw_now := now,
      lw_flight := lw_flight w @ (case started of None \<Rightarrow> [] | Some fl \<Rightarrow> [fl])\<rparr>)"
| decrypted: "lw_flight w = before @ fl # after \<Longrightarrow> finish_frame env (lw_hub w) fl = (h', Some snapshot) \<Longrightarrow>
    live_step env w (w\<lparr>lw_hub := h', lw_flight := before @ after,
      lw_recent := (lw_recent w)(if_session fl := lw_recent w (if_session fl) @ [frame_key fl]),
      lw_history := lw_history w @ [(if_session fl, frame_key fl, if_sockets fl)]\<rparr>)"
| failed: "lw_flight w = before @ fl # after \<Longrightarrow> finish_frame env (lw_hub w) fl = (h', None) \<Longrightarrow>
    live_step env w (w\<lparr>lw_hub := h', lw_flight := before @ after\<rparr>)"
| closed_event: "lw_now w \<le> now \<Longrightarrow> h' = drop_socket i (webSocketClose env (lw_hub w) i now) \<Longrightarrow>
    live_step env w (w\<lparr>lw_hub := h', lw_now := now, lw_recent := forget h' (lw_recent w)\<rparr>)"
| hibernated: "lw_flight w = [] \<Longrightarrow>
    live_step env w (w\<lparr>lw_hub := (lw_hub w)\<lparr>hb_states := (\<lambda>_. None)\<rparr>, lw_recent := (\<lambda>_. [])\<rparr>)"

inductive live_reachable :: "live_env \<Rightarrow> live_world \<Rightarrow> bool" for env where
  start: "live_reachable env (empty_world now)"
| step: "live_reachable env w \<Longrightarrow> live_step env w w' \<Longrightarrow> live_reachable env w'"

text \<open>The invariant.\<close>

definition session_pending :: "inflight list \<Rightarrow> string \<Rightarrow> int list" where
  "session_pending flight session = map frame_key (filter (\<lambda>fl. if_session fl = session) flight)"

definition session_inv :: "live_world \<Rightarrow> string \<Rightarrow> bool" where
  "session_inv w session \<longleftrightarrow>
     (case hb_states (lw_hub w) session of
        None \<Rightarrow> session_pending (lw_flight w) session = [] \<and> lw_recent w session = []
      | Some st \<Rightarrow>
          pending st = session_pending (lw_flight w) session
          \<and> distinct (lw_recent w session @ pending st)
          \<and> list_all (at_least (committed st)) (lw_recent w session)
          \<and> pred_option in_sequence (committed st))"

definition flight_inv :: "hub \<Rightarrow> inflight \<Rightarrow> bool" where
  "flight_inv h fl \<longleftrightarrow>
     in_sequence (frame_key fl) \<and> topicMachinePk (if_topic fl) = Some (if_machinePk fl)
     \<and> if_now fl - LIVE_FRESHNESS_MS \<le> lf_observedAt (if_frame fl) \<and> lf_observedAt (if_frame fl) \<le> if_now fl + 5000
     \<and> (\<forall>j \<in> set (if_sockets fl). j < hb_next h \<and>
          (\<forall>a. attached h j = Some a \<longrightarrow> is_agent a \<and> sa_sessionId a = if_session fl))"

definition history_inv :: "hub \<Rightarrow> string \<times> int \<times> nat list \<Rightarrow> bool" where
  "history_inv h = (\<lambda>(session, v, ids). \<forall>j \<in> set ids. j < hb_next h \<and>
     (\<forall>a. attached h j = Some a \<longrightarrow> is_agent a \<and> sa_sessionId a = session \<and> at_least (sa_highestSequence a) v))"

definition live_inv :: "live_world \<Rightarrow> bool" where
  "live_inv w \<longleftrightarrow>
     sockets_ok (lw_hub w) \<and> within_limits (lw_hub w) (lw_now w)
     \<and> (\<forall>session. session_inv w session)
     \<and> (\<forall>fl \<in> set (lw_flight w). flight_inv (lw_hub w) fl)
     \<and> (\<forall>e \<in> set (lw_history w). history_inv (lw_hub w) e)"

lemma live_inv_start: "live_inv (empty_world now)"
  by (simp add: live_inv_def empty_world_def empty_hub_def sockets_ok_def cores_def within_limits_def
      active_count_def session_inv_def session_pending_def)

text \<open>Keeping the facts about attachments: sockets may come, go and have their sequence raised.\<close>

lemma flight_inv_mono:
  assumes "flight_inv h fl" "hb_next h \<le> hb_next h'"
    and "\<And>j a. j < hb_next h \<Longrightarrow> attached h' j = Some a \<Longrightarrow>
      \<exists>b. attached h j = Some b \<and> is_agent b = is_agent a \<and> (is_agent a \<longrightarrow> sa_sessionId b = sa_sessionId a)"
  shows "flight_inv h' fl"
  using assms(1,2) assms(3) unfolding flight_inv_def by (metis order_less_le_trans)

lemma history_inv_mono:
  assumes "history_inv h e" "hb_next h \<le> hb_next h'"
    and "\<And>j a. j < hb_next h \<Longrightarrow> attached h' j = Some a \<Longrightarrow>
      \<exists>b. attached h j = Some b \<and> is_agent b = is_agent a \<and> (is_agent a \<longrightarrow> sa_sessionId b = sa_sessionId a)
        \<and> (\<forall>v. is_agent a \<longrightarrow> at_least (sa_highestSequence b) v \<longrightarrow> at_least (sa_highestSequence a) v)"
  shows "history_inv h' e"
  using assms(1,2) assms(3) unfolding history_inv_def
  by (cases e) (simp, metis order_less_le_trans)

section \<open>Preservation\<close>

definition kept :: "live_world \<Rightarrow> live_world \<Rightarrow> bool" where
  "kept w w' \<longleftrightarrow> hb_states (lw_hub w') = hb_states (lw_hub w) \<and> lw_flight w' = lw_flight w \<and> lw_recent w' = lw_recent w"

lemma session_inv_kept: "kept w w' \<Longrightarrow> session_inv w session \<Longrightarrow> session_inv w' session"
  by (auto simp: session_inv_def kept_def split: option.splits)

lemma flight_inv_quiet: "quiet h h' \<Longrightarrow> flight_inv h fl \<Longrightarrow> flight_inv h' fl"
  by (simp add: flight_inv_def attached_quiet) (simp add: quiet_def)

lemma history_inv_quiet: "quiet h h' \<Longrightarrow> history_inv h e \<Longrightarrow> history_inv h' e"
  by (cases e) (simp add: history_inv_def attached_quiet, simp add: quiet_def)

lemma live_inv_quiet:
  assumes "live_inv w" "quiet (lw_hub w) h'" "lw_now w \<le> now"
  shows "live_inv (w\<lparr>lw_hub := h', lw_now := now\<rparr>)"
proof -
  have "kept w (w\<lparr>lw_hub := h', lw_now := now\<rparr>)" using assms(2) by (simp add: kept_def quiet_def)
  then show ?thesis
    using assms quiet_transport [OF assms(2)] within_limits_later [OF _ assms(3)] session_inv_kept
      flight_inv_quiet [OF assms(2)] history_inv_quiet [OF assms(2)]
    by (simp add: live_inv_def)
qed

lemma live_inv_connect:
  assumes "live_inv w" "hub_fetch env (lw_hub w) hs now = Inr (h', response)" "lw_now w \<le> now"
  shows "live_inv (w\<lparr>lw_hub := h', lw_now := now\<rparr>)"
  using assms(2)
proof (cases rule: hub_fetch_cases)
  case refused
  then show ?thesis using assms live_inv_quiet by blast
next
  case (accepted a)
  let ?h = "lw_hub w"
  have ok: "sockets_ok ?h" "within_limits ?h now"
    using assms(1,3) within_limits_later by (auto simp: live_inv_def)
  then have new: "sockets_ok h'" "within_limits h' now" using hub_fetch_ok [OF assms(2)] by simp_all
  have old: "attached h' j = attached ?h j" if "j < hb_next ?h" for j
    using that accepted(2) by (auto simp: attached_def map_add_Some_iff simp del: map_of_append
        simp add: map_of_append map_add_def split: option.splits)
  have "flight_inv h' fl" if "flight_inv ?h fl" for fl
    using that accepted(4) old by (intro flight_inv_mono [of ?h fl h']) auto
  moreover have "history_inv h' e" if "history_inv ?h e" for e
    using that accepted(4) old by (intro history_inv_mono [of ?h e h']) auto
  moreover have "kept w (w\<lparr>lw_hub := h', lw_now := now\<rparr>)" using accepted(3) by (simp add: kept_def)
  ultimately show ?thesis
    using assms(1) new session_inv_kept by (simp add: live_inv_def)
qed

text \<open>The entry of a session after it was refreshed from the attachments.\<close>

lemma refreshed_state_inv:
  assumes "session_inv w session" "pred_option in_sequence stored_value"
    and "st = refreshed_state (lw_hub w) session stored_value"
  shows "pending st = session_pending (lw_flight w) session" "distinct (lw_recent w session @ pending st)"
    and "list_all (at_least (committed st)) (lw_recent w session)" "pred_option in_sequence (committed st)"
    and "at_least stored_value v \<Longrightarrow> at_least (committed st) v"
proof -
  have mono: "at_least c v \<Longrightarrow> at_least (Some (raise_to c x)) v" for c v x by (rule at_least_raise_to)
  have "pending st = session_pending (lw_flight w) session \<and> distinct (lw_recent w session @ pending st) \<and>
    list_all (at_least (committed st)) (lw_recent w session) \<and> pred_option in_sequence (committed st) \<and>
    (at_least stored_value v \<longrightarrow> at_least (committed st) v)"
  proof (cases "hb_states (lw_hub w) session")
    case None
    then show ?thesis using assms by (simp add: session_inv_def refreshed_state_def)
  next
    case (Some old)
    then show ?thesis
      using assms mono [of "committed old"] in_sequence_raise_to [of "committed old"]
      by (cases stored_value) (auto simp: session_inv_def refreshed_state_def at_least_raise_to list_all_iff at_least_def raise_to_def
          split: option.splits)
  qed
  then show "pending st = session_pending (lw_flight w) session" "distinct (lw_recent w session @ pending st)"
    "list_all (at_least (committed st)) (lw_recent w session)" "pred_option in_sequence (committed st)"
    "at_least stored_value v \<Longrightarrow> at_least (committed st) v" by blast+
qed

lemma begin_frame_cases:
  assumes "begin_frame h i topic session prefix highest bytes now = (h', started)"
  defines "st \<equiv> refreshed_state h session (stored_committed h session (session_sockets h i session) highest)"
  obtains (unread) "h' = h" "started = None"
  | (replayed) "h' = h\<lparr>hb_states := (hb_states h)(session \<mapsto> st)\<rparr>" "started = None"
  | (begun) frame machinePk where "parseAgentLiveFrame bytes = Inr frame" "topicMachinePk topic = Some machinePk"
      "in_sequence (lf_sequence frame)" "now - LIVE_FRESHNESS_MS \<le> lf_observedAt frame" "lf_observedAt frame \<le> now + 5000"
      "\<not> at_least (highest_sequence st) (lf_sequence frame)"
      "h' = h\<lparr>hb_states := (hb_states h)(session \<mapsto> st\<lparr>pending := pending st @ [lf_sequence frame]\<rparr>)\<rparr>"
      "started = Some \<lparr>if_socket = i, if_frame = frame, if_session = session, if_noncePrefix = prefix,
         if_topic = topic, if_machinePk = machinePk, if_sockets = session_sockets h i session, if_now = now\<rparr>"
proof -
  consider (bad) "h' = h" "started = None"
    | (good) frame machinePk where "parseAgentLiveFrame bytes = Inr frame" "topicMachinePk topic = Some machinePk"
      "in_sequence (lf_sequence frame)" "now - LIVE_FRESHNESS_MS \<le> lf_observedAt frame" "lf_observedAt frame \<le> now + 5000"
    using assms(1) by (auto simp: begin_frame_def in_sequence_def Let_def split: sum.splits option.splits if_splits)
  then show thesis
  proof cases
    case bad
    then show thesis by (rule unread)
  next
    case good
    then show thesis
      using assms(1) replayed begun [OF good]
      by (auto simp: begin_frame_def Let_def st_def in_sequence_def at_least_def split: if_splits option.splits)
  qed
qed

text \<open>A change of one session's entry, with the handlers and the log that go with it.\<close>

lemma session_inv_other:
  assumes "session_inv w other" "other \<noteq> session"
    and "hb_states (lw_hub w') other = hb_states (lw_hub w) other"
    and "session_pending (lw_flight w') other = session_pending (lw_flight w) other"
    and "lw_recent w' other = lw_recent w other"
  shows "session_inv w' other"
  using assms by (auto simp: session_inv_def split: option.splits)

lemma quiet_states: "cores (h\<lparr>hb_states := f\<rparr>) = cores h" "attached (h\<lparr>hb_states := f\<rparr>) j = attached h j"
  "sockets_ok (h\<lparr>hb_states := f\<rparr>) = sockets_ok h" "within_limits (h\<lparr>hb_states := f\<rparr>) now = within_limits h now"
  "flight_inv (h\<lparr>hb_states := f\<rparr>) fl = flight_inv h fl" "history_inv (h\<lparr>hb_states := f\<rparr>) e = history_inv h e"
  by (cases e; simp add: cores_def attached_def sockets_ok_def within_limits_def active_count_def flight_inv_def
      history_inv_def)+

lemma pred_in_sequence [simp]: "pred_option (\<lambda>v. 1 \<le> v \<and> v \<le> MAX_LIVE_SEQUENCE) x \<longleftrightarrow> pred_option in_sequence x"
  by (cases x) (auto simp: in_sequence_def)

lemma stored_committed_in_sequence:
  assumes "sockets_ok h" "pred_option in_sequence highest"
  shows "pred_option in_sequence (stored_committed h session ids highest)"
  unfolding stored_committed_raise
proof (rule raise_all_in_sequence [OF assms(2)])
  fix j
  show "pred_option in_sequence (session_sequence h session j)"
    using attached_core(2) [OF assms(1), of j]
    by (auto simp: session_sequence_attached split: option.splits socket_attachment.splits)
qed

lemma live_inv_begin:
  assumes "live_inv w" "lw_now w \<le> now"
    and "attached (lw_hub w) i = Some (Agent_socket subject topic expires session prefix highest)"
    and "begin_frame (lw_hub w) i topic session prefix highest bytes now = (h', started)"
  shows "live_inv (w\<lparr>lw_hub := h', lw_now := now,
      lw_flight := lw_flight w @ (case started of None \<Rightarrow> [] | Some fl \<Rightarrow> [fl])\<rparr>)"
proof -
  let ?h = "lw_hub w"
  let ?ids = "session_sockets ?h i session"
  define st where "st = refreshed_state ?h session (stored_committed ?h session ?ids highest)"
  have ok: "sockets_ok ?h" "within_limits ?h now" and sessions: "\<And>s. session_inv w s"
    and flights: "\<And>fl. fl \<in> set (lw_flight w) \<Longrightarrow> flight_inv ?h fl"
    and histories: "\<And>e. e \<in> set (lw_history w) \<Longrightarrow> history_inv ?h e"
    using assms(1,2) within_limits_later by (auto simp: live_inv_def)
  have "pred_option in_sequence highest"
    using attached_core(2) [OF ok(1) assms(3)] by simp
  then have range: "pred_option in_sequence (stored_committed ?h session ?ids highest)"
    using ok(1) by (intro stored_committed_in_sequence)
  note st = refreshed_state_inv [OF sessions [of session] range st_def]
  show ?thesis
    using assms(4)
  proof (cases rule: begin_frame_cases)
    case unread
    then show ?thesis using live_inv_quiet [OF assms(1) quiet_refl assms(2)] by simp
  next
    case replayed
    let ?w = "w\<lparr>lw_hub := ?h\<lparr>hb_states := (hb_states ?h)(session \<mapsto> st)\<rparr>, lw_now := now\<rparr>"
    have "session_inv ?w other" for other
    proof (cases "other = session")
      case True
      then show ?thesis using st(1-4) by (simp add: session_inv_def)
    next
      case False
      then show ?thesis by (intro session_inv_other [OF sessions [of other]]) auto
    qed
    then show ?thesis
      using ok flights histories replayed by (simp add: live_inv_def quiet_states st_def [symmetric])
  next
    case (begun frame machinePk)
    let ?fl = "\<lparr>if_socket = i, if_frame = frame, if_session = session, if_noncePrefix = prefix,
         if_topic = topic, if_machinePk = machinePk, if_sockets = ?ids, if_now = now\<rparr>"
    let ?st = "st\<lparr>pending := pending st @ [lf_sequence frame]\<rparr>"
    let ?w = "w\<lparr>lw_hub := ?h\<lparr>hb_states := (hb_states ?h)(session \<mapsto> ?st)\<rparr>, lw_now := now, lw_flight := lw_flight w @ [?fl]\<rparr>"
    have high: "\<not> at_least (highest_sequence st) (lf_sequence frame)" using begun(6) by (simp add: st_def)
    have "lf_sequence frame \<notin> set (pending st)"
      using high raise_all_member [of "lf_sequence frame" "pending st" Some] by (auto simp: highest_sequence_raise)
    moreover have "lf_sequence frame \<notin> set (lw_recent w session)"
      using high st(3) raise_all_acc [of "committed st" "lf_sequence frame" Some "pending st"]
      by (auto simp: highest_sequence_raise list_all_iff)
    ultimately have here: "session_inv ?w session"
      using st(1-4) by (simp add: session_inv_def session_pending_def frame_key_def)
    have "session_inv ?w other" for other
    proof (cases "other = session")
      case False
      then show ?thesis by (intro session_inv_other [OF sessions [of other]]) (auto simp: session_pending_def)
    qed (use here in simp)
    moreover have "flight_inv ?h ?fl"
      using begun(2-5) session_sockets_attached(2) [OF ok(1) assms(3), of session] attached_core(3) [OF ok(1)]
      by (auto simp: flight_inv_def frame_key_def is_agent_def)
    ultimately show ?thesis
      using ok flights histories begun(7,8) by (auto simp: live_inv_def quiet_states st_def [symmetric])
  qed
qed

lemma live_inv_now: "live_inv w \<Longrightarrow> lw_now w \<le> now \<Longrightarrow> live_inv (w\<lparr>lw_now := now\<rparr>)"
  using live_inv_quiet [of w "lw_hub w" now] by simp

lemma live_inv_message:
  assumes "live_inv w" "lw_now w \<le> now" "webSocketMessage env (lw_hub w) i m now = (h', started)"
  shows "live_inv (w\<lparr>lw_hub := h', lw_now := now,
      lw_flight := lw_flight w @ (case started of None \<Rightarrow> [] | Some fl \<Rightarrow> [fl])\<rparr>)"
proof -
  let ?h = "lw_hub w"
  have still: ?thesis if "quiet ?h h'" "started = None"
    using live_inv_quiet [OF assms(1) that(1) assms(2)] that(2) by simp
  consider (quiet) "quiet ?h h'" "started = None"
    | (frame) subject topic expires session prefix highest bytes h1 where
      "attached ?h i = Some (Agent_socket subject topic expires session prefix highest)"
      "begin_frame ?h i topic session prefix highest bytes now = (h1, started)" "quiet h1 h'" "started = None \<or> h' = h1"
  proof (cases "attached ?h i")
    case None
    then show thesis using quiet assms(3) by (auto simp: webSocketMessage_def attached_socket)
  next
    case (Some current)
    show thesis
    proof (cases current)
      case (Viewer_socket subject topic expires)
      then show thesis using quiet assms(3) Some quiet_sendDemand
        by (auto simp: webSocketMessage_def attached_socket split: if_splits)
    next
      case (Agent_socket subject topic expires session prefix highest)
      show thesis
      proof (cases m)
        case (Binary_message bytes)
        obtain h1 fl where "begin_frame ?h i topic session prefix highest bytes now = (h1, fl)"
          by (cases "begin_frame ?h i topic session prefix highest bytes now")
        then show thesis using quiet frame assms(3) Some Agent_socket Binary_message
          by (auto simp: webSocketMessage_def attached_socket split: if_splits option.splits)
      qed (use quiet assms(3) Some Agent_socket in \<open>auto simp: webSocketMessage_def attached_socket split: if_splits\<close>)
    qed
  qed
  then show ?thesis
  proof cases
    case quiet
    then show ?thesis by (rule still)
  next
    case frame
    note begun = live_inv_begin [OF assms(1,2) frame(1,2)]
    show ?thesis using frame(4)
    proof
      assume "started = None"
      then show ?thesis using live_inv_quiet [OF begun, of h' now] frame(3) by simp
    qed (use begun in simp)
  qed
qed

text \<open>The end of a handler: its frame leaves the entry of the session.\<close>

lemma session_pending_remove:
  assumes "flight = before @ fl # after" "distinct (session_pending flight (if_session fl))"
  shows "session_pending (before @ after) (if_session fl) =
      filter (\<lambda>v. v \<noteq> frame_key fl) (session_pending flight (if_session fl))"
    and "frame_key fl \<in> set (session_pending flight (if_session fl))"
    and "other \<noteq> if_session fl \<Longrightarrow> session_pending (before @ after) other = session_pending flight other"
proof -
  have split: "session_pending flight (if_session fl) =
      session_pending before (if_session fl) @ frame_key fl # session_pending after (if_session fl)"
    by (simp add: assms(1) session_pending_def)
  have same: "filter (\<lambda>v. v \<noteq> frame_key fl) (session_pending xs (if_session fl)) = session_pending xs (if_session fl)"
    if "xs = before \<or> xs = after" for xs
  proof -
    have "frame_key fl \<notin> set (session_pending xs (if_session fl))" using that assms(2) unfolding split by auto
    then show ?thesis by (intro filter_True) metis
  qed
  show "session_pending (before @ after) (if_session fl) =
      filter (\<lambda>v. v \<noteq> frame_key fl) (session_pending flight (if_session fl))"
    unfolding split using same by (simp add: session_pending_def)
  show "frame_key fl \<in> set (session_pending flight (if_session fl))" by (simp add: split)
qed (simp add: assms(1) session_pending_def)

lemma finish_entry:
  assumes "session_inv w (if_session fl)" "lw_flight w = before @ fl # after"
  obtains st where "hb_states (lw_hub w) (if_session fl) = Some st"
    "pending (remove_pending (frame_key fl) st) = session_pending (before @ after) (if_session fl)"
    "distinct (lw_recent w (if_session fl) @ [frame_key fl] @ pending (remove_pending (frame_key fl) st))"
    "list_all (at_least (committed st)) (lw_recent w (if_session fl))" "pred_option in_sequence (committed st)"
proof -
  let ?s = "if_session fl"
  have "session_pending (lw_flight w) ?s \<noteq> []" using assms(2) by (simp add: session_pending_def)
  then obtain st where st: "hb_states (lw_hub w) ?s = Some st" "pending st = session_pending (lw_flight w) ?s"
      "distinct (lw_recent w ?s @ pending st)" "list_all (at_least (committed st)) (lw_recent w ?s)"
      "pred_option in_sequence (committed st)"
    using assms(1) by (auto simp: session_inv_def split: option.splits)
  then have "distinct (session_pending (lw_flight w) ?s)" by simp
  note removed = session_pending_remove [OF assms(2) this]
  show thesis
  proof (rule that [OF st(1)])
    show "pending (remove_pending (frame_key fl) st) = session_pending (before @ after) ?s"
      using removed(1) st(2) by (simp add: remove_pending_def)
    show "distinct (lw_recent w ?s @ [frame_key fl] @ pending (remove_pending (frame_key fl) st))"
      using st(2,3) removed(2) by (auto simp: remove_pending_def)
  qed (fact st)+
qed

lemma live_inv_failed:
  assumes "live_inv w" "lw_flight w = before @ fl # after" "finish_frame env (lw_hub w) fl = (h', None)"
  shows "live_inv (w\<lparr>lw_hub := h', lw_flight := before @ after\<rparr>)"
proof -
  let ?h = "lw_hub w" and ?s = "if_session fl"
  have sessions: "\<And>s. session_inv w s" using assms(1) by (simp add: live_inv_def)
  from sessions [of ?s] assms(2) obtain st where st: "hb_states ?h ?s = Some st"
      "pending (remove_pending (frame_key fl) st) = session_pending (before @ after) ?s"
      "distinct (lw_recent w ?s @ [frame_key fl] @ pending (remove_pending (frame_key fl) st))"
      "list_all (at_least (committed st)) (lw_recent w ?s)" "pred_option in_sequence (committed st)"
    by (rule finish_entry)
  let ?h1 = "?h\<lparr>hb_states := (hb_states ?h)(?s \<mapsto> remove_pending (frame_key fl) st)\<rparr>"
  let ?w = "w\<lparr>lw_hub := ?h1, lw_flight := before @ after\<rparr>"
  have h': "h' = close_socket (if_socket fl) 1008 ''Invalid live frame'' ?h1"
    using assms(3) st(1) by (auto simp: finish_frame_def Let_def frame_key_def split: sum.splits)
  have here: "session_inv ?w ?s"
    using st by (simp add: session_inv_def) (simp add: remove_pending_def)
  have "session_inv ?w other" for other
  proof (cases "other = ?s")
    case False
    have "session_pending (before @ after) other = session_pending (lw_flight w) other"
      using assms(2) False by (simp add: session_pending_def)
    then show ?thesis using False by (intro session_inv_other [OF sessions [of other]]) auto
  qed (use here in simp)
  then have "live_inv ?w" using assms(1,2) by (simp add: live_inv_def quiet_states)
  then have "live_inv (?w\<lparr>lw_hub := h', lw_now := lw_now w\<rparr>)" by (rule live_inv_quiet) (simp_all add: h')
  moreover have "?w\<lparr>lw_hub := h', lw_now := lw_now w\<rparr> = w\<lparr>lw_hub := h', lw_flight := before @ after\<rparr>"
    by (cases w) simp
  ultimately show ?thesis by (simp only:)
qed

lemma raised_attached:
  assumes "raised session v I h h'" "sockets_ok h" "in_sequence v" "attached h' j = Some a"
  obtains b where "attached h j = Some b" "is_agent b = is_agent a" "is_agent a \<longrightarrow> sa_sessionId b = sa_sessionId a"
    "\<forall>u. is_agent a \<longrightarrow> at_least (sa_highestSequence b) u \<longrightarrow> at_least (sa_highestSequence a) u"
    "j \<in> I \<and> is_agent a \<and> sa_sessionId a = session \<longrightarrow> at_least (sa_highestSequence a) v"
proof (cases "j \<in> I")
  case True
  then obtain b where b: "attached h j = Some b" "a = raise_att session v b"
    using raised_facts(2) [OF assms(1-3), of j] assms(4) by (cases "attached h j") auto
  moreover have "valid_attachment b" using attached_core(2) [OF assms(2) b(1)] .
  ultimately show thesis
    using that assms(3)
    by (cases b) (auto simp: at_least_def in_sequence_def is_agent_def split: option.splits if_splits)
next
  case False
  then show thesis using raised_facts(2) [OF assms(1-3), of j] assms(4) by (intro that [of a]) auto
qed

lemma live_inv_decrypted:
  assumes "live_inv w" "lw_flight w = before @ fl # after" "finish_frame env (lw_hub w) fl = (h', Some snapshot)"
  shows "live_inv (w\<lparr>lw_hub := h', lw_flight := before @ after,
      lw_recent := (lw_recent w)(if_session fl := lw_recent w (if_session fl) @ [frame_key fl]),
      lw_history := lw_history w @ [(if_session fl, frame_key fl, if_sockets fl)]\<rparr>)" (is "live_inv ?w'")
proof -
  let ?h = "lw_hub w" and ?s = "if_session fl"
  have sessions: "\<And>s. session_inv w s" and ok: "sockets_ok ?h" "within_limits ?h (lw_now w)"
    and flight: "flight_inv ?h fl" and flights: "\<forall>f \<in> set (before @ after). flight_inv ?h f"
    and histories: "\<forall>e \<in> set (lw_history w). history_inv ?h e"
    using assms(1,2) by (auto simp: live_inv_def)
  from sessions [of ?s] assms(2) obtain st where st: "hb_states ?h ?s = Some st"
      "pending (remove_pending (frame_key fl) st) = session_pending (before @ after) ?s"
      "distinct (lw_recent w ?s @ [frame_key fl] @ pending (remove_pending (frame_key fl) st))"
      "list_all (at_least (committed st)) (lw_recent w ?s)" "pred_option in_sequence (committed st)"
    by (rule finish_entry)
  define v where "v = raise_to (committed st) (frame_key fl)"
  have v: "in_sequence v" "frame_key fl \<le> v" "list_all (at_least (Some v)) (lw_recent w ?s)"
    using flight st(4) in_sequence_raise_to [OF st(5), of "frame_key fl"] at_least_raise_to(1) [of "committed st"]
    by (auto simp: v_def flight_inv_def list_all_iff) (simp add: raise_to_def)
  let ?st = "(remove_pending (frame_key fl) st)\<lparr>committed := Some v\<rparr>"
  let ?h1 = "?h\<lparr>hb_states := (hb_states ?h)(?s \<mapsto> ?st)\<rparr>"
  let ?h2 = "fold (store_committed ?s v) (if_sockets fl) ?h1"
  have ok1: "sockets_ok ?h1" using ok(1) by (simp add: quiet_states)
  note raised = raised_fold [OF ok1 v(1), of ?s "if_sockets fl"]
  have q: "quiet ?h2 h'"
    using assms(3) st(1) quiet_relay
    by (auto simp: finish_frame_def Let_def frame_key_def v_def split: sum.splits)
  have h': "sockets_ok h'" "within_limits h' (lw_now w)" "hb_states h' = (hb_states ?h)(?s \<mapsto> ?st)"
      "hb_next h' = hb_next ?h" "\<And>j. attached h' j = attached ?h2 j"
  proof -
    show "sockets_ok h'" using raised_facts(1) [OF raised ok1 v(1)] quiet_transport(1) [OF q] by simp
    show "within_limits h' (lw_now w)"
      using raised_facts(3) [OF raised ok1 v(1)] quiet_transport(2) [OF q] ok(2) by (simp add: quiet_states)
    show "hb_states h' = (hb_states ?h)(?s \<mapsto> ?st)" "hb_next h' = hb_next ?h"
      using raised q unfolding raised_def quiet_def by simp_all
    show "\<And>j. attached h' j = attached ?h2 j" using attached_quiet [OF q] by simp
  qed
  have earlier: "\<exists>b. attached ?h j = Some b \<and> is_agent b = is_agent a \<and> (is_agent a \<longrightarrow> sa_sessionId b = sa_sessionId a)
      \<and> (\<forall>u. is_agent a \<longrightarrow> at_least (sa_highestSequence b) u \<longrightarrow> at_least (sa_highestSequence a) u)
      \<and> (j \<in> set (if_sockets fl) \<and> is_agent a \<and> sa_sessionId a = ?s \<longrightarrow> at_least (sa_highestSequence a) v)"
    if "attached h' j = Some a" for j a
    using raised_attached [OF raised ok1 v(1), of j a] that h'(5) by (simp add: quiet_states) metis
  have "flight_inv h' f" if "f \<in> set (before @ after)" for f
    using flights that earlier h'(4) by (intro flight_inv_mono [of ?h f h']) (auto dest!: earlier)
  moreover have "history_inv h' e" if "e \<in> set (lw_history w)" for e
    using histories that h'(4) by (intro history_inv_mono [of ?h e h']) (auto dest!: earlier)
  moreover have "history_inv h' (?s, frame_key fl, if_sockets fl)"
    using flight h'(4) v(2) unfolding history_inv_def flight_inv_def by (auto simp: at_least_def dest!: earlier)
  moreover have "session_inv ?w' other" for other
  proof (cases "other = ?s")
    case True
    then show ?thesis
      using st(2,3) v h'(3) by (auto simp: session_inv_def at_least_def remove_pending_def)
  next
    case False
    then show ?thesis
      using assms(2) h'(3) by (intro session_inv_other [OF sessions [of other]]) (auto simp: session_pending_def)
  qed
  ultimately show ?thesis using h'(1,2) by (auto simp: live_inv_def)
qed

text \<open>The close event, and hibernation.\<close>

lemma drop_socket_cores: "cores (drop_socket i h) = filter (\<lambda>c. fst c \<noteq> i) (cores h)"
  by (simp add: cores_def drop_socket_def filter_map o_def socket_core_def)

lemma drop_socket_facts:
  "attached (drop_socket i h) j = (if j = i then None else attached h j)"
  "sockets_ok h \<Longrightarrow> sockets_ok (drop_socket i h)" "within_limits h now \<Longrightarrow> within_limits (drop_socket i h) now"
  "hb_next (drop_socket i h) = hb_next h" "hb_states (drop_socket i h) = hb_states h"
proof -
  have "map_of (filter (\<lambda>c. fst c \<noteq> i) cs) j = (if j = i then None else map_of cs j)" for cs :: "core list"
    by (induction cs) auto
  then show "attached (drop_socket i h) j = (if j = i then None else attached h j)"
    by (simp add: attached_def drop_socket_cores)
  show "hb_next (drop_socket i h) = hb_next h" "hb_states (drop_socket i h) = hb_states h"
    by (simp_all add: drop_socket_def)
  then show "sockets_ok (drop_socket i h)" if "sockets_ok h"
    using that by (auto simp: sockets_ok_def drop_socket_cores list_all_iff distinct_map intro: inj_on_subset)
  have "length (filter P (filter (\<lambda>c. fst c \<noteq> i) cs)) \<le> length (filter P cs)" for P and cs :: "core list"
    by (induction cs) auto
  then have "active_count (drop_socket i h) tag agent now \<le> active_count h tag agent now" for tag agent
    unfolding active_count_def drop_socket_cores .
  then show "within_limits (drop_socket i h) now" if "within_limits h now"
    using that unfolding within_limits_def by (meson order_trans)
qed

lemma webSocketClose_cases:
  obtains "quiet h (webSocketClose env h i now)"
  | session where "webSocketClose env h i now = h\<lparr>hb_states := (hb_states h)(session := None)\<rparr>"
      "hb_states h session = None \<or> (\<exists>st. hb_states h session = Some st \<and> pending st = [])"
proof (cases "attached h i")
  case None
  then show thesis using that(1) by (simp add: webSocketClose_def attached_socket)
next
  case (Some a)
  show thesis
  proof (cases a)
    case (Viewer_socket subject topic expires)
    then show thesis using that(1) Some quiet_sendDemand by (simp add: webSocketClose_def attached_socket)
  next
    case (Agent_socket subject topic expires session prefix highest)
    show thesis
    proof (cases "webSocketClose env h i now = h")
      case False
      then show thesis
        using that(2) [of session] Some Agent_socket
        by (auto simp: webSocketClose_def attached_socket nothing_pending_def split: option.splits if_splits)
    qed (use that(1) in simp)
  qed
qed

lemma webSocketClose_facts:
  assumes "sockets_ok h" "within_limits h now" "h' = webSocketClose env h i now"
  shows "sockets_ok h' \<and> within_limits h' now \<and> hb_next h' = hb_next h \<and> (\<forall>j. attached h' j = attached h j)"
proof (cases rule: webSocketClose_cases [of h env i now])
  case 1
  then show ?thesis using assms quiet_transport [OF 1] attached_quiet [OF 1] by (simp add: quiet_def)
next
  case (2 session)
  then show ?thesis using assms by (simp add: quiet_states)
qed

lemma live_inv_closed:
  assumes "live_inv w" "lw_now w \<le> now" "h' = drop_socket i (webSocketClose env (lw_hub w) i now)"
  shows "live_inv (w\<lparr>lw_hub := h', lw_now := now, lw_recent := forget h' (lw_recent w)\<rparr>)" (is "live_inv ?w'")
proof -
  let ?h = "lw_hub w" and ?h1 = "webSocketClose env (lw_hub w) i now"
  have ok: "sockets_ok ?h" "within_limits ?h now" and sessions: "\<And>s. session_inv w s"
    using assms(1,2) within_limits_later by (auto simp: live_inv_def)
  have h1: "sockets_ok ?h1" "within_limits ?h1 now" "hb_next ?h1 = hb_next ?h" "\<And>j. attached ?h1 j = attached ?h j"
    using webSocketClose_facts [OF ok refl, of env i] by simp_all
  have entry: "hb_states ?h1 s = hb_states ?h s \<or>
      hb_states ?h1 s = None \<and> (\<exists>st. hb_states ?h s = Some st \<and> pending st = [])" for s
    by (cases rule: webSocketClose_cases [of ?h env i now]) (auto simp: quiet_def)
  have states: "hb_states h' = hb_states ?h1" by (simp add: assms(3) drop_socket_facts)
  have session: "session_inv ?w' s" for s
    using entry [of s] sessions [of s] states
    by (auto simp: session_inv_def forget_def split: option.splits)
  have attached': "attached h' j = Some a \<Longrightarrow> attached ?h j = Some a" for j a
    by (auto simp: assms(3) drop_socket_facts h1(4) split: if_splits)
  have next': "hb_next h' = hb_next ?h" by (simp add: assms(3) drop_socket_facts h1(3))
  have "flight_inv h' fl" if "flight_inv ?h fl" for fl
    using that next' attached' by (intro flight_inv_mono [of ?h fl h']) auto
  moreover have "history_inv h' e" if "history_inv ?h e" for e
    using that next' attached' by (intro history_inv_mono [of ?h e h']) auto
  moreover have "sockets_ok h'" "within_limits h' now"
    unfolding assms(3) using h1 by (simp_all add: drop_socket_facts)
  ultimately show ?thesis
    using session assms(1) by (simp add: live_inv_def)
qed

lemma live_inv_hibernated:
  assumes "live_inv w" "lw_flight w = []"
  shows "live_inv (w\<lparr>lw_hub := (lw_hub w)\<lparr>hb_states := (\<lambda>_. None)\<rparr>, lw_recent := (\<lambda>_. [])\<rparr>)"
  using assms by (simp add: live_inv_def quiet_states session_inv_def session_pending_def)

lemma live_inv_step: "live_step env w w' \<Longrightarrow> live_inv w \<Longrightarrow> live_inv w'"
  by (induction rule: live_step.induct)
    (simp_all only: live_inv_connect live_inv_message live_inv_decrypted live_inv_failed live_inv_closed
      live_inv_hibernated)

lemma live_reachable_inv: "live_reachable env w \<Longrightarrow> live_inv w"
  by (induction rule: live_reachable.induct) (auto intro: live_inv_start live_inv_step)

section \<open>Relaying\<close>

definition reaches :: "string \<Rightarrow> int \<Rightarrow> socket \<Rightarrow> bool" where
  "reaches topic now s \<longleftrightarrow> sk_closed s = None \<and> topic_tag topic \<in> set (sk_tags s) \<and>
     (case attachment s of Some (Viewer_socket _ _ expires) \<Rightarrow> expires > now | _ \<Rightarrow> False)"

lemma hb_sent_close [simp]: "hb_sent (close_socket i code reason h) = hb_sent h"
  by (simp add: close_socket_def update_socket_def)

lemma relay_sent:
  "hb_sent (relay_snapshot topic text now h) =
    hb_sent h @ map (\<lambda>s. (sk_id s, text)) (filter (reaches topic now) (hb_sockets h))"
proof -
  define step where "step = (\<lambda>s h.
         case attachment s of
           Some (Viewer_socket _ _ expires) \<Rightarrow>
             if expires > now then send_or_close s text 1011 ''Snapshot delivery failed'' h else h
         | _ \<Rightarrow> h)"
  have "hb_sent (fold step ss u) = hb_sent u @ map (\<lambda>s. (sk_id s, text)) (filter (reaches topic now) ss)"
    if "\<forall>s \<in> set ss. topic_tag topic \<in> set (sk_tags s)" for ss u
    using that
  proof (induction ss arbitrary: u)
    case (Cons s ss)
    have "hb_sent (step s u) = hb_sent u @ (if reaches topic now s then [(sk_id s, text)] else [])"
      using Cons.prems by (auto simp: step_def reaches_def send_or_close_def split: option.splits socket_attachment.splits)
    then show ?case using Cons by simp
  qed simp
  from this [of "getWebSockets h (topic_tag topic)" h]
  have "hb_sent (relay_snapshot topic text now h) =
      hb_sent h @ map (\<lambda>s. (sk_id s, text)) (filter (reaches topic now) (getWebSockets h (topic_tag topic)))"
    by (simp add: relay_snapshot_def getWebSockets_def step_def)
  moreover have "filter (reaches topic now) (getWebSockets h (topic_tag topic)) = filter (reaches topic now) (hb_sockets h)"
    by (auto simp: getWebSockets_def reaches_def intro!: filter_cong)
  ultimately show ?thesis by simp
qed

text \<open>Storing sequences touches neither the viewers nor what was sent.\<close>

lemma hb_sent_store [simp]: "hb_sent (store_committed session v i h) = hb_sent h"
  by (auto simp: store_committed_def serializeAttachment_def update_socket_def
      split: Option.bind_splits option.splits socket_attachment.splits)

lemma agent_not_reached: "attachment s = Some a \<Longrightarrow> is_agent a \<Longrightarrow> \<not> reaches topic now s"
  by (cases a) (auto simp: reaches_def is_agent_def)

lemma raise_att_agent: "raise_att session v a \<noteq> a \<Longrightarrow> is_agent a"
  by (cases a) (auto simp: is_agent_def)

lemma store_committed_viewers:
  assumes "sockets_ok h" "in_sequence v"
  shows "filter (reaches topic now) (hb_sockets (store_committed session v i h)) = filter (reaches topic now) (hb_sockets h)"
proof (cases "attached h i")
  case (Some a)
  show ?thesis
  proof (cases "raise_att session v a = a")
    case False
    let ?b = "raise_att session v a"
    have filt: "filter P (map f ss) = filter P ss" if "\<forall>s \<in> set ss. f s = s \<or> \<not> P s \<and> \<not> P (f s)" for P f and ss :: "socket list"
      using that by (induction ss) auto
    have b: "valid_attachment ?b" "is_agent ?b" "is_agent a"
      using attached_core(2) [OF assms(1) Some] assms(2) raise_att_agent [OF False] by (simp_all add: valid_raise_att)
    have new: "\<not> reaches topic now (s\<lparr>sk_value := attachment_value ?b\<rparr>)" for s
      using b by (intro agent_not_reached [of _ ?b]) (simp_all add: attachment_def parse_attachment_value)
    have old: "\<not> reaches topic now s" if "s \<in> set (hb_sockets h)" "sk_id s = i" for s
    proof (rule agent_not_reached [OF _ b(3)])
      have "(i, sk_tags s, sk_value s) \<in> set (cores h)" using that by (force simp: cores_def socket_core_def)
      from sockets_ok_core [OF assms(1) this] Some show "attachment s = Some a"
        by (metis attachment_def option.inject parse_attachment_value)
    qed
    show ?thesis
      unfolding store_committed_alt [OF Some] if_not_P [OF False] serializeAttachment_def update_socket_def
      using new old by (simp add: filt)
  qed (simp add: store_committed_alt [OF Some])
qed (simp add: store_committed_def attached_socket)

lemma fold_store_viewers:
  assumes "sockets_ok h" "in_sequence v"
  shows "hb_sent (fold (store_committed session v) ids h) = hb_sent h"
    and "filter (reaches topic now) (hb_sockets (fold (store_committed session v) ids h)) = filter (reaches topic now) (hb_sockets h)"
proof -
  have "hb_sent (fold (store_committed session v) ids h) = hb_sent h \<and>
    filter (reaches topic now) (hb_sockets (fold (store_committed session v) ids h)) = filter (reaches topic now) (hb_sockets h)"
    using assms
  proof (induction ids arbitrary: h)
    case (Cons i ids)
    then show ?case
      using raised_facts(1) [OF raised_store [OF Cons.prems(1)] Cons.prems] store_committed_viewers [OF Cons.prems]
      by simp
  qed simp
  then show "hb_sent (fold (store_committed session v) ids h) = hb_sent h"
    "filter (reaches topic now) (hb_sockets (fold (store_committed session v) ids h)) = filter (reaches topic now) (hb_sockets h)"
    by simp_all
qed

section \<open>The topic of a frame\<close>

lemma digits_number_append: "digits_number (s @ [c]) = digits_number s * 10 + (char_code c - 48)"
  by (simp add: digits_number_def)

lemma char_code_nat: "char_code c = int (of_char c)"
  by (metis char_code_def of_nat_of_char)

lemma digit_code:
  assumes "between lo CHR ''9'' c" "CHR ''0'' \<le> lo"
  shows "0 \<le> char_code c - 48" "char_code c - 48 < 10" "char_of (48 + nat (char_code c - 48)) = c"
proof -
  have "48 \<le> (of_char c :: nat)" "(of_char c :: nat) \<le> 57"
    using assms by (auto simp: between_def less_eq_char_def)
  then show "0 \<le> char_code c - 48" "char_code c - 48 < 10" by (simp_all add: char_code_nat)
  have "48 + nat (char_code c - 48) = of_char c"
    using \<open>48 \<le> of_char c\<close> by (simp add: char_code_nat nat_diff_distrib)
  then show "char_of (48 + nat (char_code c - 48)) = c" by simp
qed

lemma nat_to_string_digits_number:
  assumes "list_all digit_char s" "s \<noteq> []" "between CHR ''1'' CHR ''9'' (hd s)"
  shows "0 < digits_number s \<and> nat_to_string (nat (digits_number s)) = s"
  using assms
proof (induction s rule: rev_induct)
  case (snoc c s)
  have c: "0 \<le> char_code c - 48" "char_code c - 48 < 10" "char_of (48 + nat (char_code c - 48)) = c"
    using snoc.prems(1) digit_code [of "CHR ''0''" c] by (auto simp: digit_char_def)
  show ?case
  proof (cases "s = []")
    case True
    then have "between CHR ''1'' CHR ''9'' c" using snoc.prems(3) by simp
    then have "49 \<le> (of_char c :: nat)" by (simp add: between_def less_eq_char_def)
    then have "0 < char_code c - 48" by (simp add: char_code_nat)
    then show ?thesis
      using True c by (simp add: digits_number_append nat_to_string.simps [of "nat _"] digits_number_def)
  next
    case False
    let ?n = "digits_number s" and ?d = "char_code c - 48"
    have IH: "0 < ?n" "nat_to_string (nat ?n) = s" using snoc False by auto
    obtain n d where nd: "?n = int n" "?d = int d" "d < 10" using IH(1) c(1,2)
      by (metis less_imp_le nonneg_int_cases of_nat_less_iff of_nat_numeral)
    have num: "digits_number (s @ [c]) = int (n * 10 + d)" using nd by (simp add: digits_number_append)
    have "\<not> n * 10 + d < 10" "(n * 10 + d) div 10 = n" "(n * 10 + d) mod 10 = d" using IH(1) nd by simp_all
    then have "nat_to_string (n * 10 + d) = s @ [c]"
      using IH c(3) nd by (simp add: nat_to_string.simps [of "n * 10 + d"])
    then show ?thesis using IH(1) nd unfolding num nat_int by simp
  qed
qed simp

lemma topicMachinePk_canonical:
  assumes "topicMachinePk topic = Some pk"
  shows "topic_of_machine pk = topic \<and> 0 < pk"
proof -
  have topic: "machine_topic topic" "pk = digits_number (drop 8 topic)"
    using assms by (auto simp: topicMachinePk_def Let_def split: if_splits)
  then obtain c r where cr: "drop 8 topic = c # r" "between CHR ''1'' CHR ''9'' c" "list_all digit_char r"
    by (auto simp: machine_topic_def split: list.splits)
  moreover have "digit_char c" using cr(2) by (auto simp: digit_char_def between_def less_eq_char_def)
  ultimately have "0 < pk" "nat_to_string (nat pk) = drop 8 topic"
    using nat_to_string_digits_number [of "c # r"] topic(2) by simp_all
  moreover have "take 8 topic = ''machine:''"
    using topic(1) by (simp add: machine_topic_def startsWith_def eval_nat_numeral)
  moreover have "take 8 topic @ drop 8 topic = topic" by simp
  ultimately show ?thesis
    unfolding topic_of_machine_def int_to_string_def by (simp only: if_not_P not_less less_imp_le)
qed

section \<open>Delivery\<close>

text \<open>The open sockets of the viewers of a topic whose tickets have not expired.\<close>

definition viewers_of :: "hub \<Rightarrow> string \<Rightarrow> int \<Rightarrow> nat list" where
  "viewers_of h topic now =
     map sk_id (filter (\<lambda>s. sk_closed s = None \<and>
       (case attachment s of Some (Viewer_socket _ topic' expires) \<Rightarrow> topic' = topic \<and> expires > now | _ \<Rightarrow> False))
       (hb_sockets h))"

lemma viewers_of_reaches:
  assumes "sockets_ok h"
  shows "map sk_id (filter (reaches topic now) (hb_sockets h)) = viewers_of h topic now"
proof -
  have "reaches topic now s \<longleftrightarrow> sk_closed s = None \<and>
      (case attachment s of Some (Viewer_socket _ topic' expires) \<Rightarrow> topic' = topic \<and> expires > now | _ \<Rightarrow> False)"
    if "s \<in> set (hb_sockets h)" for s
  proof -
    have "(sk_id s, sk_tags s, sk_value s) \<in> set (cores h)" using that by (force simp: cores_def socket_core_def)
    from assms this obtain a where "valid_attachment a" "sk_value s = attachment_value a" "sk_tags s = tags_of a"
      by (rule sockets_ok_core)
    then show ?thesis
      by (cases a) (auto simp: reaches_def attachment_def parse_attachment_value tags_of_topic
          simp del: attachment_value.simps)
  qed
  then show ?thesis unfolding viewers_of_def by (intro arg_cong [where f = "map sk_id"] filter_cong) auto
qed

lemma finish_frame_sent:
  assumes "live_inv w" "fl \<in> set (lw_flight w)" "finish_frame env (lw_hub w) fl = (h', Some snapshot)"
  shows "hb_sent h' = hb_sent (lw_hub w) @ map (\<lambda>i. (i, JSON_stringify (le_platform env) (snapshot_json snapshot)))
      (viewers_of (lw_hub w) (if_topic fl) (if_now fl))"
    and "decryptAgentLiveFrame (le_hmac env) (le_gcm env) (if_frame fl) (le_secret env) (if_session fl)
      (if_noncePrefix fl) (if_machinePk fl) = Inr snapshot"
proof -
  let ?h = "lw_hub w" and ?s = "if_session fl"
  let ?text = "JSON_stringify (le_platform env) (snapshot_json snapshot)"
  have ok: "sockets_ok ?h" and inv: "session_inv w ?s" "flight_inv ?h fl"
    using assms(1,2) by (auto simp: live_inv_def)
  obtain before after where "lw_flight w = before @ fl # after" using assms(2) by (meson split_list)
  from inv(1) this obtain st where st: "hb_states ?h ?s = Some st" "pred_option in_sequence (committed st)"
    by (rule finish_entry)
  define v where "v = raise_to (committed st) (frame_key fl)"
  have v: "in_sequence v" using inv(2) st(2) by (simp add: v_def flight_inv_def in_sequence_raise_to)
  let ?h1 = "?h\<lparr>hb_states := (hb_states ?h)(?s \<mapsto> (remove_pending (frame_key fl) st)\<lparr>committed := Some v\<rparr>)\<rparr>"
  have ok1: "sockets_ok ?h1" using ok by (simp add: quiet_states)
  have "h' = relay_snapshot (if_topic fl) ?text (if_now fl) (fold (store_committed ?s v) (if_sockets fl) ?h1)"
    using assms(3) st(1) by (auto simp: finish_frame_def Let_def frame_key_def v_def split: sum.splits)
  then have "hb_sent h' = hb_sent ?h @ map (\<lambda>s. (sk_id s, ?text)) (filter (reaches (if_topic fl) (if_now fl)) (hb_sockets ?h))"
    by (simp add: relay_sent fold_store_viewers [OF ok1 v])
  then show "hb_sent h' = hb_sent ?h @ map (\<lambda>i. (i, ?text)) (viewers_of ?h (if_topic fl) (if_now fl))"
    unfolding viewers_of_reaches [OF ok, symmetric] by simp
  show "decryptAgentLiveFrame (le_hmac env) (le_gcm env) (if_frame fl) (le_secret env) (if_session fl)
      (if_noncePrefix fl) (if_machinePk fl) = Inr snapshot"
    using assms(3) by (auto simp: finish_frame_def Let_def split: sum.splits)
qed

section \<open>A run\<close>

text \<open>A viewer and an agent connect, and the agent sends a frame.\<close>

definition demo_env :: live_env where
  "demo_env =
     \<lparr>le_platform = \<lparr>sha256 = (\<lambda>_. []),
        JSON_parse = (\<lambda>s. if s = ''T'' then Some (JArr [JStr ''machine:7'']) else None),
        JSON_stringify = (\<lambda>_. ''{}'')\<rparr>,
      le_hmac = ticket_mac, le_gcm = frame_gcm, le_Number = (\<lambda>_. Some 1000000), le_secret = ticket_secret\<rparr>"

definition demo_headers :: "string \<Rightarrow> string \<Rightarrow> headers" where
  "demo_headers role projection =
     [(''upgrade'', ''websocket''), (''x-alphaping-role'', role), (''x-alphaping-subject'', ''u''),
      (''x-alphaping-expires'', ''1000000''), (''x-alphaping-topics'', ''T''), (''x-alphaping-projection'', projection),
      (''x-alphaping-protocol'', ''alphaping.v1''), (''x-alphaping-session'', ''CQkJCQkJCQkJCQkJCQkJCQ''),
      (''x-alphaping-nonce-prefix'', ''AQIDBA'')]"

definition demo_connect :: "hub \<Rightarrow> headers \<Rightarrow> hub" where
  "demo_connect h hs = (case hub_fetch demo_env h hs 300 of Inr (h', _) \<Rightarrow> h' | Inl _ \<Rightarrow> h)"

definition demo_hub :: hub where
  "demo_hub = demo_connect (demo_connect empty_hub (demo_headers ''viewer'' ''machine-summary''))
     (demo_headers ''agent'' ''internal'')"

definition demo_frame :: blob where
  "demo_frame = the (seal_live_snapshot frame_gcm sample_credential 7 5 witness_sample)"

lemma demo_connected:
  "\<not> isl (hub_fetch demo_env empty_hub (demo_headers ''viewer'' ''machine-summary'') 300)"
  "\<not> isl (hub_fetch demo_env (demo_connect empty_hub (demo_headers ''viewer'' ''machine-summary''))
     (demo_headers ''agent'' ''internal'') 300)"
  by code_simp+

definition demo_start :: "hub \<times> inflight option" where
  "demo_start = webSocketMessage demo_env demo_hub 1 (Binary_message demo_frame) 300"

definition demo_flight :: inflight where
  "demo_flight = the (snd demo_start)"

definition demo_world :: live_world where
  "demo_world = (empty_world 300)\<lparr>lw_hub := fst demo_start, lw_flight := [demo_flight]\<rparr>"

lemma demo_started: "\<not> Option.is_none (snd demo_start)"
  by code_simp

lemma demo_decrypted: "\<not> Option.is_none (snd (finish_frame demo_env (fst demo_start) demo_flight))"
  by code_simp

lemma demo_connect_step:
  assumes "live_reachable demo_env (empty_world 300\<lparr>lw_hub := h\<rparr>)" "\<not> isl (hub_fetch demo_env h hs 300)"
  shows "live_reachable demo_env (empty_world 300\<lparr>lw_hub := demo_connect h hs\<rparr>)"
proof -
  obtain h' response where "hub_fetch demo_env h hs 300 = Inr (h', response)"
    using assms(2) by (cases "hub_fetch demo_env h hs 300") auto
  then have "live_step demo_env (empty_world 300\<lparr>lw_hub := h\<rparr>) (empty_world 300\<lparr>lw_hub := demo_connect h hs\<rparr>)"
    using live_step.connect [of "empty_world 300\<lparr>lw_hub := h\<rparr>" 300 demo_env hs h' response]
    by (simp add: demo_connect_def empty_world_def)
  with assms(1) show ?thesis by (rule live_reachable.step)
qed

lemma demo_reachable: "live_reachable demo_env demo_world"
proof -
  have "live_reachable demo_env (empty_world 300\<lparr>lw_hub := empty_hub\<rparr>)"
    using live_reachable.start [of demo_env 300] by (simp add: empty_world_def)
  then have hub: "live_reachable demo_env (empty_world 300\<lparr>lw_hub := demo_hub\<rparr>)"
    unfolding demo_hub_def using demo_connect_step demo_connected by blast
  have "webSocketMessage demo_env demo_hub 1 (Binary_message demo_frame) 300 = (fst demo_start, Some demo_flight)"
    using demo_started unfolding demo_flight_def by (cases "snd demo_start") (auto simp: demo_start_def prod_eq_iff)
  then have "live_step demo_env (empty_world 300\<lparr>lw_hub := demo_hub\<rparr>) demo_world"
    using live_step.message [of "empty_world 300\<lparr>lw_hub := demo_hub\<rparr>" 300 demo_env 1 "Binary_message demo_frame"
        "fst demo_start" "Some demo_flight"]
    by (simp add: demo_world_def empty_world_def)
  with hub show ?thesis by (rule live_reachable.step)
qed

definition demo_end :: "hub \<times> live_snapshot option" where
  "demo_end = finish_frame demo_env (fst demo_start) demo_flight"

lemma demo_end_pair: "finish_frame demo_env (lw_hub demo_world) demo_flight = (fst demo_end, Some (the (snd demo_end)))"
  using demo_decrypted by (cases "snd demo_end") (auto simp: demo_end_def demo_world_def prod_eq_iff)

text \<open>The frame was accepted; the socket of the agent now holds its sequence.\<close>

definition demo_accepted :: live_world where
  "demo_accepted = (empty_world 300)\<lparr>lw_hub := fst demo_end,
     lw_recent := (\<lambda>_. [])(if_session demo_flight := [frame_key demo_flight]),
     lw_history := [(if_session demo_flight, frame_key demo_flight, if_sockets demo_flight)]\<rparr>"

lemma demo_accepted_reachable: "live_reachable demo_env demo_accepted"
proof -
  have "live_step demo_env demo_world demo_accepted"
    using live_step.decrypted [OF _ demo_end_pair, of "[]" "[]"]
    by (simp add: demo_world_def demo_accepted_def empty_world_def)
  with demo_reachable show ?thesis by (rule live_reachable.step)
qed

lemma demo_flight_facts:
  "(if_session demo_flight, frame_key demo_flight, if_sockets demo_flight) = (''CQkJCQkJCQkJCQkJCQkJCQ'', 5, [1])"
  by code_simp

lemma demo_attached:
  "attached (fst demo_end) 1 =
    Some (Agent_socket ''u'' ''machine:7'' 1000000 ''CQkJCQkJCQkJCQkJCQkJCQ'' ''AQIDBA'' (Some 5))"
  by code_simp

lemma demo_frame_sequence: "map_sum (\<lambda>_. ()) lf_sequence (parseAgentLiveFrame demo_frame) = Inr 5"
  by code_simp

section \<open>Properties\<close>

text \<open>
  C27. Connection limits: whatever the order of connections, messages, expiries and closings, at no time does
  a session have more than two live agent connections, nor a viewer more than four live connections to a
  topic.
\<close>

theorem live_connections_bounded:
  assumes "live_reachable env w"
  shows "active_count (lw_hub w) (session_tag session) True (lw_now w) \<le> 2
    \<and> active_count (lw_hub w) (viewer_tag subject topic) False (lw_now w) \<le> 4"
  using live_reachable_inv [OF assms]
  by (simp add: live_inv_def within_limits_def MAX_AGENT_CONNECTIONS_PER_SESSION_def MAX_VIEWER_CONNECTIONS_PER_TOPIC_def)

lemma live_connections_bounded_witness:
  "active_count (lw_hub demo_world) (session_tag ''CQkJCQkJCQkJCQkJCQkJCQ'') True (lw_now demo_world) \<le> 2"
  using live_connections_bounded [OF demo_reachable] by blast

text \<open>
  C28. No replay in memory: while the hub remembers a session, no sequence of it is accepted twice, and no
  frame is being decrypted whose sequence was already accepted or is being decrypted in another handler.
\<close>

theorem live_sequence_once:
  assumes "live_reachable env w"
  shows "distinct (lw_recent w session @ session_pending (lw_flight w) session)"
proof -
  have "session_inv w session" using live_reachable_inv [OF assms] by (simp add: live_inv_def)
  then show ?thesis by (auto simp: session_inv_def split: option.splits)
qed

lemma live_sequence_once_witness: "distinct (lw_recent demo_world ''s'' @ session_pending (lw_flight demo_world) ''s'')"
  by (rule live_sequence_once [OF demo_reachable])

text \<open>
  No replay across hibernation: once a frame was accepted, a frame of the same session with that sequence
  or a lower one is refused as long as any socket is still connected that belonged to the session when the
  frame arrived, even if the hub lost its memory in between.
\<close>

theorem live_replay_refused:
  assumes "live_reachable env w" "(session, v, ids) \<in> set (lw_history w)" "j \<in> set ids" "attached (lw_hub w) j = Some a"
    and "attached (lw_hub w) i = Some (Agent_socket subject topic expires session prefix highest)"
    and "parseAgentLiveFrame bytes = Inr frame" "lf_sequence frame \<le> v"
    and "webSocketMessage env (lw_hub w) i (Binary_message bytes) now = (h', started)"
  shows "started = None"
proof (rule ccontr)
  assume "started \<noteq> None"
  let ?h = "lw_hub w" and ?ids = "session_sockets (lw_hub w) i session"
  have inv: "sockets_ok ?h" "session_inv w session" "history_inv ?h (session, v, ids)"
    using live_reachable_inv [OF assms(1)] assms(2) by (auto simp: live_inv_def)
  have a: "is_agent a" "sa_sessionId a = session" "at_least (sa_highestSequence a) v"
    using inv(3) assms(3,4) by (auto simp: history_inv_def)
  obtain h1 where "begin_frame ?h i topic session prefix highest bytes now = (h1, started)"
    using assms(8) assms(5) \<open>started \<noteq> None\<close>
    by (auto simp: webSocketMessage_def attached_socket split: if_splits prod.splits option.splits)
  then show False
  proof (cases rule: begin_frame_cases)
    case (begun frame' machinePk)
    let ?stored = "stored_committed ?h session ?ids highest"
    have highest: "pred_option in_sequence highest" using attached_core(2) [OF inv(1) assms(5)] by simp
    have "j \<in> set ?ids"
      using session_sockets_attached(2) [OF inv(1) assms(5), of session j] a assms(4) by (simp add: is_agent_def)
    moreover obtain x where x: "session_sequence ?h session j = Some x" "v \<le> x"
      using a assms(4) by (cases a) (auto simp: session_sequence_attached at_least_def is_agent_def)
    ultimately have "at_least ?stored x"
      unfolding stored_committed_raise by (intro raise_all_member)
    then have "at_least ?stored v" using x(2) by (auto simp: at_least_def)
    then have "at_least (committed (refreshed_state ?h session ?stored)) v"
      using refreshed_state_inv(5) [OF inv(2) stored_committed_in_sequence [OF inv(1) highest] refl] by blast
    then have "at_least (highest_sequence (refreshed_state ?h session ?stored)) v"
      unfolding highest_sequence_raise by (rule raise_all_acc)
    then show False using begun(1,6) assms(6,7) by (auto simp: at_least_def)
  qed (use \<open>started \<noteq> None\<close> in simp_all)
qed

lemma live_replay_refused_witness:
  "snd (webSocketMessage demo_env (fst demo_end) 1 (Binary_message demo_frame) 310) = None"
proof -
  have hub: "lw_hub demo_accepted = fst demo_end"
    and history: "(''CQkJCQkJCQkJCQkJCQkJCQ'', 5, [1]) \<in> set (lw_history demo_accepted)"
    using demo_flight_facts by (simp_all add: demo_accepted_def)
  obtain frame where frame: "parseAgentLiveFrame demo_frame = Inr frame" "lf_sequence frame = 5"
    using demo_frame_sequence by (cases "parseAgentLiveFrame demo_frame") auto
  show ?thesis
    using live_replay_refused [OF demo_accepted_reachable history, of 1, unfolded hub, OF _ demo_attached demo_attached
        frame(1) _ prod.collapse [symmetric]] frame(2) by simp
qed

text \<open>
  Delivery: when a frame decrypts, its snapshot is sent to exactly the open sockets of viewers of that
  machine's topic whose tickets had not expired, it is the topic that the agent's ticket names, and its
  measurement is at most twenty seconds old and at most five seconds ahead of the hub's clock.
\<close>

theorem live_snapshot_delivery:
  assumes "live_reachable env w" "fl \<in> set (lw_flight w)" "finish_frame env (lw_hub w) fl = (h', Some snapshot)"
  shows "hb_sent h' = hb_sent (lw_hub w) @ map (\<lambda>i. (i, JSON_stringify (le_platform env) (snapshot_json snapshot)))
      (viewers_of (lw_hub w) (ls_topic snapshot) (if_now fl))
    \<and> ls_topic snapshot = if_topic fl
    \<and> if_now fl - 20000 \<le> observedAt (ls_sample snapshot) \<and> observedAt (ls_sample snapshot) \<le> if_now fl + 5000"
proof -
  have inv: "live_inv w" "flight_inv (lw_hub w) fl"
    using live_reachable_inv [OF assms(1)] assms(2) by (auto simp: live_inv_def)
  note sent = finish_frame_sent [OF inv(1) assms(2,3)]
  have "ls_topic snapshot = topic_of_machine (if_machinePk fl)"
    "observedAt (ls_sample snapshot) = lf_observedAt (if_frame fl)"
    using sent(2) by (auto simp: decryptAgentLiveFrame_def bind_result_Inr_iff raise_error_def split: option.splits if_splits)
  moreover have "topic_of_machine (if_machinePk fl) = if_topic fl"
    using inv(2) topicMachinePk_canonical by (auto simp: flight_inv_def)
  ultimately show ?thesis using sent(1) inv(2) by (simp add: flight_inv_def LIVE_FRESHNESS_MS_def)
qed

lemma live_snapshot_delivery_witness:
  "hb_sent (fst demo_end) = hb_sent (lw_hub demo_world) @ map (\<lambda>i. (i, ''{}''))
    (viewers_of (lw_hub demo_world) (ls_topic (the (snd demo_end))) (if_now demo_flight))
    \<and> ls_topic (the (snd demo_end)) = if_topic demo_flight"
proof -
  have "demo_flight \<in> set (lw_flight demo_world)" by (simp add: demo_world_def)
  from live_snapshot_delivery [OF demo_reachable this demo_end_pair] show ?thesis
    by (simp add: demo_env_def)
qed

end
