(* ===== verification/Lease.thy ===== *)
theory Lease
  imports Prelude
begin

text \<open>
  The lease protocol that the scheduled workers share. Three tables of the program
  (\<open>check_scheduler_state\<close>, \<open>retention_cursors\<close> and \<open>artifact_retention_cursors\<close>) hold a
  \<open>lease_until\<close> column: a worker takes the lease by an upsert guarded by \<open>lease_until <= now\<close>, keeps
  the expiry it wrote as its token, and gives it back by an update guarded by
  \<open>lease_until = token\<close>. The locale states what such a table promises; the theorems about many workers
  that take, lose and return the lease are proved once, and each component interprets the locale on
  its own two functions.
\<close>

section \<open>Many workers on one lease\<close>

record ('db, 'l) lease_sys =
  ls_db :: 'db
  ls_clock :: millis
  ls_holders :: "(nat \<times> 'l) list"

text \<open>
  One step: time passes, a worker takes the lease or is refused, a worker that holds a lease value
  gives it back (too late or not), or a worker dies and never gives it back.
\<close>

inductive lease_step ::
  "('db \<Rightarrow> millis \<Rightarrow> 'db \<times> 'l option) \<Rightarrow> ('db \<Rightarrow> 'l \<Rightarrow> 'arg \<Rightarrow> millis \<Rightarrow> 'db \<times> bool) \<Rightarrow>
   ('db, 'l) lease_sys \<Rightarrow> ('db, 'l) lease_sys \<Rightarrow> bool"
  for acq rel where
  tick: "ls_clock s \<le> t \<Longrightarrow> lease_step acq rel s (s\<lparr>ls_clock := t\<rparr>)"
| acquired: "acq (ls_db s) (ls_clock s) = (db', Some l) \<Longrightarrow>
    lease_step acq rel s (s\<lparr>ls_db := db', ls_holders := (w, l) # ls_holders s\<rparr>)"
| refused: "acq (ls_db s) (ls_clock s) = (db', None) \<Longrightarrow> lease_step acq rel s (s\<lparr>ls_db := db'\<rparr>)"
| released: "(w, l) \<in> set (ls_holders s) \<Longrightarrow> rel (ls_db s) l x (ls_clock s) = (db', ok) \<Longrightarrow>
    lease_step acq rel s (s\<lparr>ls_db := db', ls_holders := remove1 (w, l) (ls_holders s)\<rparr>)"
| died: "(w, l) \<in> set (ls_holders s) \<Longrightarrow>
    lease_step acq rel s (s\<lparr>ls_holders := remove1 (w, l) (ls_holders s)\<rparr>)"

inductive lease_reach ::
  "('db \<Rightarrow> millis \<Rightarrow> 'db \<times> 'l option) \<Rightarrow> ('db \<Rightarrow> 'l \<Rightarrow> 'arg \<Rightarrow> millis \<Rightarrow> 'db \<times> bool) \<Rightarrow>
   'db \<Rightarrow> millis \<Rightarrow> ('db, 'l) lease_sys \<Rightarrow> bool"
  for acq rel db0 t0 where
  start: "lease_reach acq rel db0 t0 \<lparr>ls_db = db0, ls_clock = t0, ls_holders = []\<rparr>"
| step: "lease_reach acq rel db0 t0 s \<Longrightarrow> lease_step acq rel s s' \<Longrightarrow> lease_reach acq rel db0 t0 s'"

inductive_cases lease_step_elim: "lease_step acq rel s s'"

text \<open>The holders whose lease has not expired.\<close>

definition live_holders :: "('l \<Rightarrow> millis) \<Rightarrow> ('db, 'l) lease_sys \<Rightarrow> (nat \<times> 'l) list" where
  "live_holders token s = filter (\<lambda>(w, l). ls_clock s < token l) (ls_holders s)"

section \<open>What a lease table promises\<close>

locale lease_table =
  fixes acquire :: "'db \<Rightarrow> millis \<Rightarrow> 'db \<times> 'l option"
    and release :: "'db \<Rightarrow> 'l \<Rightarrow> 'arg \<Rightarrow> millis \<Rightarrow> 'db \<times> bool"
    and token :: "'l \<Rightarrow> millis"
    and held_until :: "'db \<Rightarrow> millis option"
    and duration :: millis
    and wf :: "'db \<Rightarrow> bool"
  assumes duration_pos: "0 < duration"
    and acquire_free: "wf db \<Longrightarrow> (case held_until db of None \<Rightarrow> True | Some u \<Rightarrow> u \<le> now) \<Longrightarrow>
      \<exists>db' l. acquire db now = (db', Some l)"
    and acquire_held: "wf db \<Longrightarrow> held_until db = Some u \<Longrightarrow> now < u \<Longrightarrow> acquire db now = (db, None)"
    and acquire_token: "wf db \<Longrightarrow> acquire db now = (db', Some l) \<Longrightarrow>
      token l = now + duration \<and> held_until db' = Some (now + duration)"
    and release_current: "wf db \<Longrightarrow> held_until db = Some (token l) \<Longrightarrow>
      \<exists>db'. release db l x now = (db', True) \<and> held_until db' = Some 0"
    and release_stale: "wf db \<Longrightarrow> held_until db \<noteq> Some (token l) \<Longrightarrow> release db l x now = (db, False)"
    and wf_acquire: "wf db \<Longrightarrow> wf (fst (acquire db now))"
    and wf_release: "wf db \<Longrightarrow> wf (fst (release db l x now))"
begin

lemma acquire_None_iff:
  assumes "wf db"
  shows "snd (acquire db now) = None \<longleftrightarrow> (\<exists>u. held_until db = Some u \<and> now < u)"
proof (cases "\<exists>u. held_until db = Some u \<and> now < u")
  case True
  then show ?thesis using acquire_held [OF assms] by auto
next
  case False
  then have "case held_until db of None \<Rightarrow> True | Some u \<Rightarrow> u \<le> now"
    by (auto split: option.splits)
  then show ?thesis using acquire_free [OF assms, of now] False by auto
qed

definition lease_inv :: "('db, 'l) lease_sys \<Rightarrow> bool" where
  "lease_inv s \<longleftrightarrow> wf (ls_db s) \<and> length (live_holders token s) \<le> 1 \<and>
     (\<forall>(w, l) \<in> set (live_holders token s). held_until (ls_db s) = Some (token l))"

lemma lease_inv_live:
  "lease_inv s \<Longrightarrow> (w, l) \<in> set (live_holders token s) \<Longrightarrow>
    held_until (ls_db s) = Some (token l) \<and> ls_clock s < token l"
  by (auto simp: lease_inv_def live_holders_def)

lemma live_remove1:
  "live_holders token (s\<lparr>ls_holders := remove1 h (ls_holders s)\<rparr>) =
    remove1 h (live_holders token s)"
  by (simp add: live_holders_def filter_remove1)

lemma live_db [simp]: "live_holders token (s\<lparr>ls_db := db'\<rparr>) = live_holders token s"
  by (simp add: live_holders_def)

lemma live_tick:
  "ls_clock s \<le> t \<Longrightarrow>
    live_holders token (s\<lparr>ls_clock := t\<rparr>) = filter (\<lambda>(w, l). t < token l) (live_holders token s)"
  by (auto simp: live_holders_def intro!: filter_cong)

lemma lease_inv_tick: "lease_inv s \<Longrightarrow> ls_clock s \<le> t \<Longrightarrow> lease_inv (s\<lparr>ls_clock := t\<rparr>)"
  unfolding lease_inv_def live_tick
  by (auto intro: order_trans [OF length_filter_le])

lemma free_no_live:
  assumes "lease_inv s" "snd (acquire (ls_db s) (ls_clock s)) \<noteq> None"
  shows "live_holders token s = []"
proof -
  have "wf (ls_db s)" using assms(1) by (simp add: lease_inv_def)
  then have "\<not> (\<exists>u. held_until (ls_db s) = Some u \<and> ls_clock s < u)"
    using assms(2) acquire_None_iff [of "ls_db s" "ls_clock s"] by simp
  then have "(w, l) \<notin> set (live_holders token s)" for w l
    using lease_inv_live [OF assms(1), of w l] by auto
  then show ?thesis by (cases "live_holders token s") auto
qed

lemma lease_inv_acquired:
  assumes inv: "lease_inv s" and acq: "acquire (ls_db s) (ls_clock s) = (db', Some l)"
  shows "lease_inv (s\<lparr>ls_db := db', ls_holders := (w, l) # ls_holders s\<rparr>)"
proof -
  have wf: "wf (ls_db s)" using inv by (simp add: lease_inv_def)
  have none: "live_holders token s = []" using free_no_live [OF inv] acq by simp
  have "token l = ls_clock s + duration" "held_until db' = Some (token l)"
    using acquire_token [OF wf acq] by auto
  moreover have "wf db'" using wf_acquire [OF wf, of "ls_clock s"] acq by simp
  ultimately show ?thesis
    using none by (simp add: lease_inv_def live_holders_def)
qed

lemma lease_inv_released:
  assumes inv: "lease_inv s" and mem: "(w, l) \<in> set (ls_holders s)"
    and rel: "release (ls_db s) l x (ls_clock s) = (db', ok)"
  shows "lease_inv (s\<lparr>ls_db := db', ls_holders := remove1 (w, l) (ls_holders s)\<rparr>)"
proof -
  have wf: "wf (ls_db s)" using inv by (simp add: lease_inv_def)
  have wf': "wf db'" using wf_release [OF wf, of l x "ls_clock s"] rel by simp
  have live: "live_holders token (s\<lparr>ls_db := db', ls_holders := remove1 (w, l) (ls_holders s)\<rparr>) =
      remove1 (w, l) (live_holders token s)"
    using live_remove1 [where s = "s\<lparr>ls_db := db'\<rparr>" and h = "(w, l)"] by simp
  show ?thesis
  proof (cases "held_until (ls_db s) = Some (token l)")
    case True
    have "remove1 (w, l) (live_holders token s) = []"
    proof (cases "ls_clock s < token l")
      case True
      then have "(w, l) \<in> set (live_holders token s)" using mem by (simp add: live_holders_def)
      moreover have "length (live_holders token s) \<le> 1" using inv by (simp add: lease_inv_def)
      ultimately show ?thesis by (cases "live_holders token s") auto
    next
      case False
      have "(v, k) \<notin> set (live_holders token s)" for v k
        using lease_inv_live [OF inv, of v k] True False by auto
      then have "live_holders token s = []" by (cases "live_holders token s") auto
      then show ?thesis by simp
    qed
    with wf' live show ?thesis by (simp add: lease_inv_def)
  next
    case False
    then have "db' = ls_db s" using release_stale [OF wf False] rel by auto
    with inv live show ?thesis
      by (auto simp: lease_inv_def length_remove1 dest: notin_set_remove1 set_remove1_subset [THEN subsetD])
  qed
qed

lemma lease_inv_step:
  assumes "lease_step acquire release s s'" "lease_inv s"
  shows "lease_inv s'"
  using assms
proof (induction rule: lease_step.induct)
  case (tick s t)
  then show ?case by (simp add: lease_inv_tick)
next
  case (acquired s db' l w)
  then show ?case by (simp add: lease_inv_acquired)
next
  case (refused s db')
  then have "wf (ls_db s)" by (simp add: lease_inv_def)
  moreover from this obtain u where "held_until (ls_db s) = Some u" "ls_clock s < u"
    using refused acquire_None_iff [of "ls_db s" "ls_clock s"] by auto
  ultimately have "db' = ls_db s"
    using refused acquire_held [of "ls_db s" u "ls_clock s"] by simp
  with refused show ?case by simp
next
  case (released w l s x db' ok)
  then show ?case by (simp add: lease_inv_released)
next
  case (died w l s)
  then show ?case
    by (auto simp: lease_inv_def live_remove1 length_remove1
        dest: set_remove1_subset [THEN subsetD])
qed

lemma lease_reach_inv:
  assumes "lease_reach acquire release db0 t0 s" "wf db0"
  shows "lease_inv s"
  using assms
proof (induction rule: lease_reach.induct)
  case start
  then show ?case by (simp add: lease_inv_def live_holders_def)
next
  case (step s s')
  then show ?case by (blast intro: lease_inv_step)
qed

lemma mutual_exclusion:
  assumes "lease_reach acquire release db0 t0 s" "wf db0"
  shows "length (live_holders token s) \<le> 1"
  using lease_reach_inv [OF assms] by (simp add: lease_inv_def)

lemma live_lease_blocks:
  assumes "lease_reach acquire release db0 t0 s" "wf db0" "live_holders token s \<noteq> []"
  shows "acquire (ls_db s) (ls_clock s) = (ls_db s, None)"
proof -
  obtain w l where "(w, l) \<in> set (live_holders token s)"
    using assms(3) by (cases "live_holders token s") auto
  moreover have inv: "lease_inv s" using lease_reach_inv [OF assms(1,2)] .
  ultimately have "held_until (ls_db s) = Some (token l)" "ls_clock s < token l"
    using lease_inv_live by blast+
  then show ?thesis using inv acquire_held by (auto simp: lease_inv_def)
qed

lemma expired_lease_recovers:
  assumes "lease_reach acquire release db0 t0 s" "wf db0"
    and "\<And>u. held_until (ls_db s) = Some u \<Longrightarrow> u \<le> t"
  shows "\<exists>db' l. acquire (ls_db s) t = (db', Some l)"
  using assms lease_reach_inv [OF assms(1,2)]
  by (intro acquire_free) (auto simp: lease_inv_def split: option.splits)

end

section \<open>A row of a keyed table as a lease\<close>

text \<open>
  The guarded upsert that takes a lease and the update that gives it back, on the row of the key \<open>k\<close>:
  \<open>fresh\<close> is the inserted row, \<open>seize\<close> the assignment of the conflict clause, \<open>give\<close> that of the release
  and \<open>grant\<close> the lease that the worker gets.
\<close>

definition row_acquire ::
  "('r \<Rightarrow> 'k) \<Rightarrow> ('r \<Rightarrow> millis) \<Rightarrow> (millis \<Rightarrow> 'r) \<Rightarrow> (millis \<Rightarrow> 'r \<Rightarrow> 'r) \<Rightarrow> (millis \<Rightarrow> 'r \<Rightarrow> 'l) \<Rightarrow>
   'r list \<Rightarrow> millis \<Rightarrow> 'r list \<times> 'l option" where
  "row_acquire key until fresh seize grant t now =
     (upsert key (fresh now) (\<lambda>old. until old \<le> now) (seize now) t,
      map_option (grant now)
        (snd (upsert_returning key (fresh now) (\<lambda>old. until old \<le> now) (seize now) t)))"

definition row_release ::
  "('r \<Rightarrow> 'k) \<Rightarrow> 'k \<Rightarrow> ('r \<Rightarrow> millis) \<Rightarrow> ('arg \<Rightarrow> millis \<Rightarrow> 'r \<Rightarrow> 'r) \<Rightarrow> ('l \<Rightarrow> millis) \<Rightarrow>
   'r list \<Rightarrow> 'l \<Rightarrow> 'arg \<Rightarrow> millis \<Rightarrow> 'r list \<times> bool" where
  "row_release key k until give token t l x now =
     (update_where (\<lambda>r. key r = k \<and> until r = token l) (give x now) t,
      count_where (\<lambda>r. key r = k \<and> until r = token l) t = 1)"

lemma row_lease:
  assumes dur: "0 < duration"
    and fresh: "\<And>now. key (fresh now) = k" "\<And>now. until (fresh now) = now + duration"
    and seize: "\<And>now r. key (seize now r) = key r" "\<And>now r. until (seize now r) = now + duration"
    and give: "\<And>x now r. key (give x now r) = key r" "\<And>x now r. until (give x now r) = 0"
    and grant: "\<And>now r. token (grant now r) = now + duration"
  shows "lease_table (row_acquire key until fresh seize grant) (row_release key k until give token) token
    (\<lambda>t. map_option until (row_of key k t)) duration (keyed key)"
proof
  show "0 < duration" by (rule dur)
next
  fix t now
  assume "case map_option until (row_of key k t) of None \<Rightarrow> True | Some u \<Rightarrow> u \<le> now"
  then show "\<exists>t' l. row_acquire key until fresh seize grant t now = (t', Some l)"
    by (cases "row_of key k t") (auto simp: row_acquire_def upsert_returning_eq fresh)
next
  fix t u now
  assume t: "keyed key t" "map_option until (row_of key k t) = Some u" "now < u"
  then obtain r where r: "row_of key k t = Some r" "until r = u" by auto
  then have "upsert key (fresh now) (\<lambda>old. until old \<le> now) (seize now) t = t"
    using t upsert_refused [of key t "fresh now" r "\<lambda>old. until old \<le> now" "seize now"] by (simp add: fresh)
  then show "row_acquire key until fresh seize grant t now = (t, None)"
    using r t(3) by (simp add: row_acquire_def upsert_returning_eq fresh)
next
  fix t now t' l
  assume t: "keyed key t" "row_acquire key until fresh seize grant t now = (t', Some l)"
  obtain r where r: "l = grant now r"
      "t' = upsert key (fresh now) (\<lambda>old. until old \<le> now) (seize now) t"
      "snd (upsert_returning key (fresh now) (\<lambda>old. until old \<le> now) (seize now) t) = Some r"
    using t(2) by (auto simp: row_acquire_def)
  have rows: "row_of key k t' = (case row_of key k t of None \<Rightarrow> Some (fresh now)
      | Some old \<Rightarrow> Some (if until old \<le> now then seize now old else old))"
    unfolding r(2) by (subst row_of_upsert) (simp_all add: seize fresh)
  have "map_option until (row_of key k t') = Some (now + duration)"
  proof (cases "row_of key k t")
    case None
    then show ?thesis by (simp add: rows fresh)
  next
    case (Some old)
    then have "until old \<le> now"
      using r(3) by (simp add: upsert_returning_eq fresh split: if_splits)
    then show ?thesis using Some by (simp add: rows seize)
  qed
  with r(1) grant show "token l = now + duration \<and> map_option until (row_of key k t') = Some (now + duration)"
    by simp
next
  fix t l x now
  assume t: "keyed key t" "map_option until (row_of key k t) = Some (token l)"
  then obtain r where r: "row_of key k t = Some r" "until r = token l" by auto
  let ?p = "\<lambda>r. key r = k \<and> until r = token l"
  have "count_where ?p t \<noteq> 0" using row_of_SomeD [OF r(1)] r(2) by (auto simp: count_where_zero)
  moreover have "count_where ?p t \<le> 1" by (rule count_where_key [OF t(1)])
  ultimately have "count_where ?p t = 1" by linarith
  moreover have "map_option until (row_of key k (update_where ?p (give x now) t)) = Some 0"
    using r row_of_SomeD [OF r(1)] by (subst row_of_update_where) (auto simp: give)
  ultimately show "\<exists>t'. row_release key k until give token t l x now = (t', True) \<and>
      map_option until (row_of key k t') = Some 0"
    by (auto simp: row_release_def)
next
  fix t l x now
  assume t: "keyed key t" "map_option until (row_of key k t) \<noteq> Some (token l)"
  have none: "\<not> (key r = k \<and> until r = token l)" if "r \<in> set t" for r
    using t row_of_keyed [OF t(1) that] by auto
  then have "update_where (\<lambda>r. key r = k \<and> until r = token l) (give x now) t = t"
    by (intro update_where_none) auto
  moreover have "count_where (\<lambda>r. key r = k \<and> until r = token l) t = 0"
    using none by (auto simp: count_where_zero)
  ultimately show "row_release key k until give token t l x now = (t, False)"
    by (simp add: row_release_def)
next
  fix t now
  assume "keyed key t"
  then show "keyed key (fst (row_acquire key until fresh seize grant t now))"
    by (simp add: row_acquire_def keyed_upsert seize)
next
  fix t l x now
  assume "keyed key t"
  then show "keyed key (fst (row_release key k until give token t l x now))"
    by (simp add: row_release_def keyed_update_where give)
qed

end
