(* ===== verification/Control_Db.thy ===== *)
theory Control_Db
  imports Check_Config
begin

text \<open>
  The rows of the control database that the workers read and write, with the columns they use
  (\<open>packages/db/migrations/control\<close>). Flags are the integers that the columns hold.
\<close>

record workspace_row =
  wk_id :: string
  wk_pk :: pk
  wk_deleted_at :: "millis option"
  wk_purge_started_at :: "millis option"

record service_row =
  sv_id :: string
  sv_pk :: pk
  sv_workspace_id :: string
  sv_maintenance_until :: "millis option"
  sv_deleted_at :: "millis option"
  sv_purge_started_at :: "millis option"
  sv_purge_check_cursor :: pk

record check_row =
  cf_id :: string
  cf_pk :: pk
  cf_workspace_id :: string
  cf_service_id :: string
  cf_revision :: int
  cf_kind :: string
  cf_enabled :: int
  cf_executor :: string
  cf_executor_agent_id :: "string option"
  cf_interval :: int
  cf_phase :: int
  cf_timeout_ms :: int
  cf_retry_count :: int
  cf_critical :: int
  cf_request_json :: string
  cf_secret_refs_json :: string
  cf_failure_confirmations :: int
  cf_recovery_confirmations :: int
  cf_last_claimed_slot :: int

record machine_row =
  mc_id :: string
  mc_pk :: pk
  mc_workspace_id :: string
  mc_offline_after :: int
  mc_maintenance_until :: "millis option"
  mc_deleted_at :: "millis option"
  mc_purge_started_at :: "millis option"
  mc_purge_agent_cursor :: string

record scheduler_row =
  sc_singleton :: int
  sc_check_cursor :: pk
  sc_machine_cursor :: pk
  sc_lease_until :: millis
  sc_updated_at :: millis

datatype sync_reason = Check_configuration | Maintenance_window | Maintenance_window_ended

record sync_job =
  jobKey :: string
  syncToken :: string
  sj_workspaceId :: string
  sj_workspacePk :: pk
  sj_serviceId :: string
  sj_servicePk :: pk
  sj_checkId :: "string option"
  sj_checkPk :: "pk option"
  reasonCode :: sync_reason
  protectUntil :: millis
  nextAttemptAt :: millis
  lastAttemptedAt :: millis
  sj_updatedAt :: millis

record control_db =
  cd_workspaces :: "workspace_row list"
  cd_services :: "service_row list"
  cd_checks :: "check_row list"
  cd_machines :: "machine_row list"
  cd_scheduler :: "scheduler_row list"
  cd_secrets :: "secret_row list"
  cd_sync_jobs :: "sync_job list"

text \<open>The rows that a primary or unique key of the control schema keeps apart.\<close>

definition wf_control :: "control_db \<Rightarrow> bool" where
  "wf_control db \<longleftrightarrow> keyed wk_id (cd_workspaces db) \<and> keyed sv_id (cd_services db) \<and>
     keyed cf_id (cd_checks db) \<and> keyed cf_pk (cd_checks db) \<and> keyed mc_pk (cd_machines db) \<and>
     keyed sc_singleton (cd_scheduler db) \<and> keyed jobKey (cd_sync_jobs db)"

end
