(* ===== verification/Check_Correctness.thy ===== *)
theory Check_Correctness
  imports Check_Persistence "HOL-Library.Multiset"
begin

text \<open>
  What persisting check results guarantees: how many results the confirmation window waits for, that
  the SQL aggregate and the TypeScript function agree on a service's state, that rollups and status
  buckets stay within the table's constraints and do not depend on the order of arrival, and that
  \<open>persistCheckResult\<close> is idempotent, never steps back and keeps the service row, the state events and
  the notification queue in agreement with the check rows.
\<close>

section \<open>Runs of results through the confirmation window\<close>

text \<open>What the stored row remembers of a confirmed result, and a whole sequence of results.\<close>

definition confirmation_after ::
  "check_config \<Rightarrow> confirmation_state option \<Rightarrow> executed_check \<Rightarrow> confirmation_state" where
  "confirmation_after config previous result =
     confirmation_of (latest_row config 0 [] (applyConfirmationWindow config previous result))"

definition confirmation_run ::
  "check_config \<Rightarrow> confirmation_state \<Rightarrow> executed_check list \<Rightarrow> confirmation_state" where
  "confirmation_run config p rs = foldl (\<lambda>s r. confirmation_after config (Some s) r) p rs"

lemma confirmation_run_snoc [simp]:
  "confirmation_run config p (rs @ [r]) = confirmation_after config (Some (confirmation_run config p rs)) r"
  by (simp add: confirmation_run_def)

lemma confirmation_run_Nil [simp]: "confirmation_run config p [] = p"
  by (simp add: confirmation_run_def)

lemma after_healthy:
  "ex_state r = Healthy \<Longrightarrow>
    cs_state (confirmation_after config (Some p) r) =
      (if cs_state p = Healthy \<or> cc_recovery_confirmations config \<le> cs_successes p + 1
       then Healthy else cs_state p) \<and>
    cs_failures (confirmation_after config (Some p) r) = 0 \<and>
    cs_successes (confirmation_after config (Some p) r) = cs_successes p + 1"
  by (simp add: confirmation_after_def confirmation_of_def latest_row_def applyConfirmationWindow_def
      Let_def)

lemma after_failure:
  "ex_state r \<noteq> Healthy \<Longrightarrow>
    cs_state (confirmation_after config (Some p) r) =
      (if cs_state p = Down \<and> ex_state r = Degraded then Down
       else if cs_state p \<in> {Down, Degraded} \<or> cc_failure_confirmations config \<le> cs_failures p + 1
       then ex_state r else cs_state p) \<and>
    cs_failures (confirmation_after config (Some p) r) = cs_failures p + 1 \<and>
    cs_successes (confirmation_after config (Some p) r) = 0"
  by (simp add: confirmation_after_def confirmation_of_def latest_row_def applyConfirmationWindow_def
      Let_def)

lemma failures_counted:
  assumes "\<forall>r \<in> set rs. ex_state r \<noteq> Healthy" "cs_failures p = 0"
  shows "cs_failures (confirmation_run config p rs) = int (length rs)"
  using assms by (induction rs rule: rev_induct) (auto simp: after_failure)

lemma successes_counted:
  assumes "\<forall>r \<in> set rs. ex_state r = Healthy" "cs_successes p = 0"
  shows "cs_successes (confirmation_run config p rs) = int (length rs)"
  using assms by (induction rs rule: rev_induct) (auto simp: after_healthy)

lemma failing_run_state:
  assumes "\<forall>r \<in> set rs. ex_state r = Down \<or> ex_state r = Degraded"
    and "cs_state p = Healthy" "cs_failures p = 0" "1 \<le> cc_failure_confirmations config"
  shows "cs_state (confirmation_run config p rs) =
    (if int (length rs) < cc_failure_confirmations config then Healthy
     else if Down \<in> set (map ex_state (drop (nat (cc_failure_confirmations config) - 1) rs)) then Down
     else Degraded)"
  using assms(1)
proof (induction rs rule: rev_induct)
  case Nil
  then show ?case using assms(2,4) by simp
next
  case (snoc r rs)
  have r: "ex_state r = Down \<or> ex_state r = Degraded" "ex_state r \<noteq> Healthy" using snoc.prems by auto
  have n: "cs_failures (confirmation_run config p rs) = int (length rs)"
    using snoc.prems assms(3) by (intro failures_counted) auto
  have IH: "cs_state (confirmation_run config p rs) =
    (if int (length rs) < cc_failure_confirmations config then Healthy
     else if Down \<in> set (map ex_state (drop (nat (cc_failure_confirmations config) - 1) rs)) then Down
     else Degraded)"
    using snoc by simp
  show ?case
    using r assms(4) by (auto simp: after_failure [OF r(2)] n IH)
qed

lemma healthy_run_state:
  assumes "\<forall>r \<in> set rs. ex_state r = Healthy"
    and "cs_state p \<noteq> Healthy" "cs_successes p = 0" "1 \<le> cc_recovery_confirmations config"
  shows "cs_state (confirmation_run config p rs) =
    (if int (length rs) < cc_recovery_confirmations config then cs_state p else Healthy)"
  using assms(1)
proof (induction rs rule: rev_induct)
  case Nil
  then show ?case using assms(4) by simp
next
  case (snoc r rs)
  have "cs_successes (confirmation_run config p rs) = int (length rs)"
    using snoc.prems assms(3) by (intro successes_counted) auto
  then show ?case
    using snoc assms(2) by (auto simp: after_healthy)
qed

section \<open>Service state: SQL against TypeScript\<close>

lemma fold_max_snoc: "fold max (xs @ [x]) (a::int) = max x (fold max xs a)"
  by simp

lemma rank_of_checks:
  "fold max (map check_rank cs) 0 =
    (if list_ex (\<lambda>(s, c). c = 1 \<and> s = Down) cs then 3
     else if list_ex (\<lambda>(s, c). s = Down \<or> s = Degraded) cs then 2
     else if list_ex (\<lambda>(s, c). s = Healthy) cs then 1 else 0)"
proof (induction cs rule: rev_induct)
  case (snoc c cs)
  show ?case
    unfolding map_append list.map fold_max_snoc snoc.IH
    by (cases c) (auto simp: check_rank_def)
qed simp

definition service_checks :: "pk \<Rightarrow> pk \<Rightarrow> check_latest_row list \<Rightarrow> (health \<times> int) list" where
  "service_checks ws service rows =
     map (\<lambda>r. (cl_state r, cl_critical r))
       (filter (\<lambda>r. cl_workspace r = ws \<and> cl_service r = service) rows)"

lemma aggregate_checks:
  "service_aggregate ws service rows = fold max (map check_rank (service_checks ws service rows)) 0"
  by (simp add: service_aggregate_def service_checks_def comp_def)

lemma next_service_eq:
  "next_service (service_aggregate ws service rows) m now =
    serviceState (service_checks ws service rows) m now"
  by (simp add: aggregate_checks rank_of_checks next_service_def serviceState_def)

lemma serviceReason_sql: "st \<noteq> Offline \<Longrightarrow> serviceReasonSql st = serviceReason st"
  by (cases st) (simp_all add: serviceReason_def)

lemma serviceState_range: "serviceState cs m now \<noteq> Offline"
  by (simp add: serviceState_def)

section \<open>Rollups and buckets\<close>

definition rollup_ok :: "check_rollup \<Rightarrow> bool" where
  "rollup_ok r \<longleftrightarrow> 0 \<le> healthyCount r \<and> 0 \<le> degradedCount r \<and> 0 \<le> downCount r \<and>
     totalCount r = healthyCount r + degradedCount r + downCount r \<and>
     0 \<le> latencyCount r \<and> latencyCount r \<le> totalCount r"

lemma rollup_ok_empty [simp]: "rollup_ok emptyRollup"
  by (simp add: rollup_ok_def emptyRollup_def)

lemma total_empty [simp]: "totalCount emptyRollup = 0"
  by (simp add: emptyRollup_def)

lemma rollup_ok_add: "rollup_ok r \<Longrightarrow> executed_ok x \<Longrightarrow> rollup_ok (addResult r x)"
  by (auto simp: rollup_ok_def executed_ok_def addResult_def Let_def split: option.splits)

lemma total_add [simp]: "totalCount (addResult r x) = totalCount r + 1"
  by (simp add: addResult_def Let_def split: option.splits)

lemma rollup_fold:
  assumes "rollup_ok r" "\<forall>x \<in> set xs. executed_ok x"
  shows "rollup_ok (foldl addResult r xs) \<and> totalCount (foldl addResult r xs) = totalCount r + int (length xs)"
  using assms by (induction xs arbitrary: r) (auto simp: rollup_ok_add)

lemma executed_state_ok: "executed_state j = Some s \<Longrightarrow> s \<in> {Healthy, Degraded, Down}"
  by (induction j rule: executed_state.induct) (auto split: if_splits)

lemma parseStoredResult_ok: "parseStoredResult pf p = Some x \<Longrightarrow> executed_ok x"
  by (auto simp: parseStoredResult_def executed_ok_def
      split: option.splits json.splits dest: executed_state_ok)

lemma length_map_filter: "length (List.map_filter f xs) \<le> length xs"
  by (simp add: List.map_filter_def)

lemma five_minute_ok:
  assumes "executed_ok current"
  shows "rollup_ok (five_minute_rollup pf db config bucket current) \<and>
    1 \<le> totalCount (five_minute_rollup pf db config bucket current) \<and>
    totalCount (five_minute_rollup pf db config bucket current) \<le> 5"
proof -
  define ps where "ps = (case find (\<lambda>b. b_workspace b = cc_workspace_pk config \<and> b_pk b = cc_pk config \<and>
      b_start b = bucket) (td_check_blocks db) of
      None \<Rightarrow> [] | Some b \<Rightarrow> map (\<lambda>i. b_payloads b ! i) [0, 1, 2, 3])"
  define xs where "xs = List.map_filter (parseStoredResult pf) ps"
  have eq: "five_minute_rollup pf db config bucket current = addResult (foldl addResult emptyRollup xs) current"
    by (simp add: five_minute_rollup_def ps_def xs_def Let_def)
  have "\<forall>x \<in> set xs. executed_ok x"
    by (auto simp: xs_def List.map_filter_def dest: parseStoredResult_ok)
  then have "rollup_ok (foldl addResult emptyRollup xs)"
    "totalCount (foldl addResult emptyRollup xs) = int (length xs)"
    using rollup_fold [of emptyRollup xs] by simp_all
  moreover have "length xs \<le> 4"
    using length_map_filter [of "parseStoredResult pf" ps]
    by (simp add: xs_def ps_def split: option.splits)
  ultimately show ?thesis using assms by (simp add: eq rollup_ok_add)
qed

lemma availability_bounds:
  assumes "rollup_ok r" "0 < totalCount r"
  shows "0 \<le> js_round (of_int (healthyCount r) / of_int (totalCount r) * 1000) \<and>
    js_round (of_int (healthyCount r) / of_int (totalCount r) * 1000) \<le> 1000"
proof -
  have "(of_int (healthyCount r) :: rat) \<le> of_int (totalCount r)"
    using assms by (simp add: rollup_ok_def)
  then have "(of_int (healthyCount r) :: rat) / of_int (totalCount r) \<le> 1"
    using assms(2) by (simp add: divide_le_eq)
  then have "(of_int (healthyCount r) :: rat) / of_int (totalCount r) * 1000 \<le> 1 * 1000"
    by (rule mult_right_mono) simp
  then have "(of_int (healthyCount r) :: rat) / of_int (totalCount r) * 1000 \<le> of_int 1000"
    by (simp only: mult_1 of_int_numeral)
  moreover have "(of_int 0 :: rat) \<le> of_int (healthyCount r) / of_int (totalCount r) * 1000"
    using assms by (simp add: rollup_ok_def)
  ultimately show ?thesis using js_round_bounds by blast
qed

lemma bucket_state_known:
  "rollup_ok r \<Longrightarrow> 0 < totalCount r \<Longrightarrow>
    bucket_state config m r \<in> {Healthy, Degraded, Down, Maintenance}"
  by (auto simp: bucket_state_def rollup_ok_def)

text \<open>A bucket as the worker writes it: a known state with the summary of that state.\<close>

definition bucket_wf :: "status_bucket \<Rightarrow> bool" where
  "bucket_wf b \<longleftrightarrow> sb_state b \<in> {Healthy, Degraded, Down, Maintenance} \<and>
     sb_summary b = serviceReason (sb_state b) \<and> 0 \<le> sb_availability b \<and> sb_availability b \<le> 1000"

lemma status_bucket_wf:
  "rollup_ok r \<Longrightarrow> 0 < totalCount r \<Longrightarrow> bucket_wf (status_bucket_of config m r)"
  using availability_bounds [of r] bucket_state_known [of r config m]
  by (auto simp: bucket_wf_def status_bucket_of_def Let_def)

lemma merge_latency_commute: "merge_latency (merge_latency a x) y = merge_latency (merge_latency a y) x"
  by (auto simp: merge_latency_def max.left_commute max.commute max.assoc split: option.splits)

lemma merge_latency_idem: "merge_latency (merge_latency a x) x = merge_latency a x"
  by (auto simp: merge_latency_def split: option.splits)

lemma merge_state_commute: "merge_state (merge_state a x) y = merge_state (merge_state a y) x"
  by (auto simp: merge_state_def)

lemma merge_bucket_wf: "bucket_wf new \<Longrightarrow> bucket_wf old \<Longrightarrow> bucket_wf (merge_bucket new old)"
  by (auto simp: bucket_wf_def merge_bucket_def merge_state_def serviceReason_def)

lemma merge_summary:
  assumes "bucket_wf x"
  shows "sb_summary (merge_bucket x b) = serviceReason (merge_state (sb_state b) (sb_state x))"
  using assms by (auto simp: bucket_wf_def merge_bucket_def merge_state_def serviceReason_def)

lemma merge_bucket_commute:
  assumes "bucket_wf x" "bucket_wf y"
  shows "merge_bucket x (merge_bucket y b) = merge_bucket y (merge_bucket x b)"
proof -
  have sel: "sb_state (merge_bucket u c) = merge_state (sb_state c) (sb_state u)"
    "sb_availability (merge_bucket u c) = min (sb_availability c) (sb_availability u)"
    "sb_latency_avg (merge_bucket u c) = merge_latency (sb_latency_avg c) (sb_latency_avg u)"
    "sb_latency_max (merge_bucket u c) = merge_latency (sb_latency_max c) (sb_latency_max u)"
    "sb_type (merge_bucket u c) = sb_type c" "sb_pk (merge_bucket u c) = sb_pk c"
    "sb_workspace (merge_bucket u c) = sb_workspace c" "sb_start (merge_bucket u c) = sb_start c"
    "sb_seconds (merge_bucket u c) = sb_seconds c" for u c
    by (simp_all add: merge_bucket_def)
  show ?thesis
    using merge_latency_commute [of "sb_latency_avg b" "sb_latency_avg y" "sb_latency_avg x"]
      merge_latency_commute [of "sb_latency_max b" "sb_latency_max y" "sb_latency_max x"]
      merge_state_commute [of "sb_state b" "sb_state y" "sb_state x"]
    by (intro status_bucket.equality) (simp_all add: sel merge_summary assms ac_simps)
qed

section \<open>Service statements\<close>

lemma find_service:
  assumes "\<forall>s \<in> set t. sl_service_pk s = k \<longrightarrow> sl_workspace s = ws"
  shows "find (\<lambda>s. sl_workspace s = ws \<and> sl_service_pk s = k) t = row_of sl_service_pk k t"
  using assms by (induction t) auto

lemma event_fresh_find:
  assumes "\<not> has_key event_key (event_key e) es" "is_service_event config now rid e"
  shows "find (is_service_event config now rid) (es @ [e]) = Some e"
proof -
  have "\<not> is_service_event config now rid e'" if "e' \<in> set es" for e'
    using assms that by (auto simp: is_service_event_def event_key_def has_key_def image_iff)
  then show ?thesis using assms(2) by (induction es) auto
qed

text \<open>The event the batch writes when the state of the service changes.\<close>

definition transition_event ::
  "check_config \<Rightarrow> millis \<Rightarrow> blob \<Rightarrow> health \<Rightarrow> health \<Rightarrow> state_event" where
  "transition_event config observedAt rid previous nxt =
     \<lparr>ev_workspace = cc_workspace_pk config, ev_type = 2, ev_resource_pk = cc_service_pk config,
      ev_occurred_at = observedAt, ev_id = rid, ev_previous = previous, ev_current = nxt,
      ev_reason = serviceReason nxt\<rparr>"

lemma transition_event_is [simp]:
  "is_service_event config now rid (transition_event config now rid p n)"
  "event_key (transition_event config now rid p n) = (2, cc_service_pk config, now, rid)"
  "ev_current (transition_event config now rid p n) = n"
  "ev_reason (transition_event config now rid p n) = serviceReason n"
  by (simp_all add: is_service_event_def transition_event_def event_key_def)

lemma run_service_frame [simp]:
  "td_check_latest (runServiceStateStatements config now rid db) = td_check_latest db"
  by (auto simp: runServiceStateStatements_def service_unknown_def service_from_event_def
      service_event_def Let_def split: prod.splits option.splits)
    (metis fst_conv insert_event_frame(2))+

lemma run_service_correct:
  assumes cur: "current_result config rid db"
    and own: "\<forall>s \<in> set (td_service_latest db). sl_service_pk s = cc_service_pk config \<longrightarrow>
      sl_workspace s = cc_workspace_pk config"
    and fresh: "\<not> has_key event_key (2, cc_service_pk config, now, rid) (td_state_events db)"
  defines "nxt \<equiv> serviceState (service_checks (cc_workspace_pk config) (cc_service_pk config)
      (td_check_latest db)) (cc_maintenance_until config) now"
    and "prev \<equiv> previous_service config db"
    and "db' \<equiv> runServiceStateStatements config now rid db"
  shows "map_option sl_state (row_of sl_service_pk (cc_service_pk config) (td_service_latest db')) = Some nxt"
    and "td_state_events db' = (if prev = nxt then td_state_events db
      else td_state_events db @ [transition_event config now rid prev nxt])"
proof -
  let ?e = "transition_event config now rid prev nxt"
  have none: "\<not> list_ex (\<lambda>s. sl_service_pk s = cc_service_pk config \<and>
      sl_workspace s \<noteq> cc_workspace_pk config) (td_service_latest db)"
    using own by (auto simp: list_ex_iff)
  have prev: "prev = (case row_of sl_service_pk (cc_service_pk config) (td_service_latest db) of
      None \<Rightarrow> Unknown | Some s \<Rightarrow> sl_state s)"
    by (simp add: prev_def previous_service_def find_service [OF own])
  have reason: "serviceReasonSql nxt = serviceReason nxt"
    by (simp add: nxt_def serviceReason_sql serviceState_range)
  have ev: "service_event config now rid db =
      (if prev \<noteq> nxt then insert_event ?e db else (db, 0))"
    using cur none reason
    by (simp add: service_event_def Let_def next_service_eq transition_event_def
        flip: nxt_def prev_def)
  have no_event: "\<not> list_ex (is_service_event config now rid) (td_state_events db)"
    using fresh by (auto simp: is_service_event_def list_ex_iff has_key_def event_key_def image_iff)
  have "map_option sl_state (row_of sl_service_pk (cc_service_pk config) (td_service_latest db')) = Some nxt
    \<and> td_state_events db' = (if prev = nxt then td_state_events db else td_state_events db @ [?e])"
  proof (cases "prev = nxt")
    case True
    then have "db' = service_unknown config now rid db"
      by (simp add: db'_def runServiceStateStatements_def ev service_from_event_def)
    then show ?thesis
      using cur no_event prev True
      by (auto simp: service_unknown_def row_of_insert_or_ignore split: option.splits)
  next
    case False
    let ?d = "queue_event ?e (db\<lparr>td_state_events := td_state_events db @ [?e]\<rparr>)"
    have ins: "insert_event ?e db = (?d, 1)"
      using fresh by (simp add: insert_event_def)
    have fnd: "find (is_service_event config now rid) (td_state_events ?d) = Some ?e"
      using event_fresh_find [of ?e "td_state_events db"] fresh by simp
    define row where "row = \<lparr>sl_service_pk = cc_service_pk config,
        sl_workspace = cc_workspace_pk config, sl_state = nxt, sl_status_since = now,
        sl_reason = serviceReason nxt, sl_last_transition_at = now, sl_updated_at = now\<rparr>"
    define d2 where "d2 = ?d\<lparr>td_service_latest := upsert sl_service_pk row
        (\<lambda>old. sl_workspace old = sl_workspace row) (\<lambda>_. row) (td_service_latest db)\<rparr>"
    have row_sel: "sl_service_pk row = cc_service_pk config" "sl_workspace row = cc_workspace_pk config"
      "sl_state row = nxt"
      by (simp_all add: row_def)
    have d2: "service_from_event config now rid (service_event config now rid db) = d2"
      using False fnd
      by (simp add: ev ins service_from_event_def d2_def row_def Let_def)
    have d2_events: "td_state_events d2 = td_state_events db @ [?e]" by (simp add: d2_def)
    have "\<not> (current_result config rid d2 \<and>
        \<not> list_ex (is_service_event config now rid) (td_state_events d2))"
      by (simp add: d2_events)
    then have db': "db' = d2"
      unfolding db'_def runServiceStateStatements_def d2 service_unknown_def by (simp only: if_False)
    have "row_of sl_service_pk (cc_service_pk config) (td_service_latest d2) = Some row"
      using own row_sel
      by (auto simp: d2_def row_of_upsert split: option.splits dest: row_of_SomeD)
    then show ?thesis using False db' d2_events row_sel by simp
  qed
  then show "map_option sl_state (row_of sl_service_pk (cc_service_pk config) (td_service_latest db')) = Some nxt"
    and "td_state_events db' = (if prev = nxt then td_state_events db
      else td_state_events db @ [transition_event config now rid prev nxt])"
    by simp_all
qed

section \<open>The batch\<close>

lemma frame_latest [simp]:
  "td_check_latest (runCheckBlock w db) = td_check_latest db"
  "td_check_latest (runClosedRollups config z db) = td_check_latest db"
  "td_check_latest (prepareStatusBucket config m r db) = td_check_latest db"
  by (auto simp: runCheckBlock_def runClosedRollups_def prepareStatusBucket_def Let_def
      split: option.splits)

lemma frame_service [simp]:
  "td_service_latest (runCheckBlock w db) = td_service_latest db"
  "td_service_latest (runClosedRollups config z db) = td_service_latest db"
  "td_service_latest (prepareStatusBucket config m r db) = td_service_latest db"
  "td_service_latest (runLatest row db) = td_service_latest db"
  by (auto simp: runCheckBlock_def runClosedRollups_def prepareStatusBucket_def runLatest_def Let_def
      split: option.splits)

lemma frame_events [simp]:
  "td_state_events (runCheckBlock w db) = td_state_events db"
  "td_state_events (runClosedRollups config z db) = td_state_events db"
  "td_state_events (prepareStatusBucket config m r db) = td_state_events db"
  "td_state_events (runLatest row db) = td_state_events db"
  by (auto simp: runCheckBlock_def runClosedRollups_def prepareStatusBucket_def runLatest_def Let_def
      split: option.splits)

lemma closedRollups_total: "\<exists>z. prepareClosedRollups pf db config m r = Inr z"
  by (simp add: prepareClosedRollups_def reportSlot_eq Let_def)

text \<open>The row that the result writes to \<open>check_latest\<close>.\<close>

definition result_row ::
  "platform \<Rightarrow> telemetry_db \<Rightarrow> check_config \<Rightarrow> millis \<Rightarrow> millis \<Rightarrow> executed_check \<Rightarrow> check_latest_row" where
  "result_row pf db config nominalMinute observedAt result =
     latest_row config observedAt (executionId pf (cc_id config) (cc_revision config) nominalMinute)
       (applyConfirmationWindow config (map_option confirmation_of (previous_check config db)) result)"

lemma latest_row_sel [simp]:
  "cl_check_pk (latest_row config t rid c) = cc_pk config"
  "cl_workspace (latest_row config t rid c) = cc_workspace_pk config"
  "cl_revision (latest_row config t rid c) = cc_revision config"
  "cl_observed_at (latest_row config t rid c) = t"
  "cl_result_id (latest_row config t rid c) = rid"
  by (simp_all add: latest_row_def)

text \<open>
  A call is stale when the stored row belongs to a newer revision or is of the same execution.
\<close>

definition stale_call :: "platform \<Rightarrow> telemetry_db \<Rightarrow> check_config \<Rightarrow> millis \<Rightarrow> bool" where
  "stale_call pf db config m \<longleftrightarrow>
     (\<exists>p. previous_check config db = Some p \<and> (cl_revision p > cc_revision config \<or>
        cl_result_id p = executionId pf (cc_id config) (cc_revision config) m))"

lemma persist_skipped: "stale_call pf db config m \<Longrightarrow> persistCheckResult pf db config m t r = Inr db"
  by (auto simp: stale_call_def persistCheckResult_def Let_def)

text \<open>
  Otherwise the batch runs: its effect on the check rows is one upsert, and its effect on service rows
  and events is that of the service statements.
\<close>

lemma persist_written:
  assumes "\<not> stale_call pf db config m"
  obtains d db' where "persistCheckResult pf db config m t r = Inr db'"
    and "td_check_latest d =
      upsert cl_check_pk (result_row pf db config m t r) (supersedes (result_row pf db config m t r))
        (\<lambda>_. result_row pf db config m t r) (td_check_latest db)"
    and "td_service_latest d = td_service_latest db" and "td_state_events d = td_state_events db"
    and "td_check_latest db' = td_check_latest d"
    and "td_service_latest db' = td_service_latest (runServiceStateStatements config t
      (executionId pf (cc_id config) (cc_revision config) m) d)"
    and "td_state_events db' = td_state_events (runServiceStateStatements config t
      (executionId pf (cc_id config) (cc_revision config) m) d)"
proof -
  obtain z where z: "prepareClosedRollups pf db config m r = Inr z"
    using closedRollups_total by blast
  let ?rid = "executionId pf (cc_id config) (cc_revision config) m"
  let ?pay = "result_payload pf config ?rid t r"
  let ?w = "\<lparr>w_pk = cc_pk config, w_workspace = cc_workspace_pk config, w_minute = m, w_id = ?rid,
      w_hash = sha256 pf ?pay, w_payload = ?pay, w_schema = 1\<rparr>"
  let ?d = "runClosedRollups config z (runLatest (result_row pf db config m t r) (runCheckBlock ?w db))"
  let ?s = "runServiceStateStatements config t ?rid ?d"
  let ?f = "case cz_five z of None \<Rightarrow> ?s | Some (_, v) \<Rightarrow> prepareStatusBucket config m v ?s"
  have res: "persistCheckResult pf db config m t r = Inr ?f"
    using assms z
    by (auto simp: persistCheckResult_def stale_call_def result_row_def Let_def split: option.splits)
  show ?thesis
  proof (rule that [OF res, of ?d])
    show "td_check_latest ?d =
        upsert cl_check_pk (result_row pf db config m t r) (supersedes (result_row pf db config m t r))
          (\<lambda>_. result_row pf db config m t r) (td_check_latest db)"
      by (simp add: runLatest_def)
  qed (auto split: option.splits)
qed

lemma result_row_sel [simp]:
  "cl_check_pk (result_row pf db config m t r) = cc_pk config"
  "cl_workspace (result_row pf db config m t r) = cc_workspace_pk config"
  "cl_revision (result_row pf db config m t r) = cc_revision config"
  "cl_observed_at (result_row pf db config m t r) = t"
  "cl_result_id (result_row pf db config m t r) = executionId pf (cc_id config) (cc_revision config) m"
  by (simp_all add: result_row_def)

text \<open>
  A result is newer than what the database holds of its check: an older revision or an earlier
  observation of the same workspace, and not the same execution.
\<close>

definition newer_result :: "platform \<Rightarrow> telemetry_db \<Rightarrow> check_config \<Rightarrow> millis \<Rightarrow> millis \<Rightarrow> bool" where
  "newer_result pf db config nominalMinute observedAt \<longleftrightarrow>
     (\<forall>r \<in> set (td_check_latest db). cl_check_pk r = cc_pk config \<longrightarrow>
        cl_workspace r = cc_workspace_pk config \<and>
        (cl_revision r < cc_revision config \<or>
         cl_revision r = cc_revision config \<and> cl_observed_at r \<le> observedAt) \<and>
        cl_result_id r \<noteq> executionId pf (cc_id config) (cc_revision config) nominalMinute)"

lemma previous_check_in: "previous_check config db = Some p \<Longrightarrow>
    p \<in> set (td_check_latest db) \<and> cl_check_pk p = cc_pk config \<and> cl_workspace p = cc_workspace_pk config"
  by (auto simp: previous_check_def find_Some_iff)

lemma newer_stored:
  assumes "newer_result pf db config m t"
    and "td_check_latest d =
      upsert cl_check_pk (result_row pf db config m t r) (supersedes (result_row pf db config m t r))
        (\<lambda>_. result_row pf db config m t r) (td_check_latest db)"
  shows "row_of cl_check_pk (cc_pk config) (td_check_latest d) = Some (result_row pf db config m t r)"
  using assms
  by (auto simp: row_of_upsert newer_result_def supersedes_def split: option.splits
      dest: row_of_SomeD)

lemma stored_is_current:
  assumes "row_of cl_check_pk (cc_pk config) (td_check_latest d) = Some (result_row pf db config m t r)"
  shows "current_result config (executionId pf (cc_id config) (cc_revision config) m) d"
  using row_of_SomeD [OF assms]
  by (auto simp: current_result_def list_ex_iff intro!: bexI [of _ "result_row pf db config m t r"])

lemma persist_newer:
  assumes new: "newer_result pf db config m t"
    and own: "\<forall>s \<in> set (td_service_latest db). sl_service_pk s = cc_service_pk config \<longrightarrow>
      sl_workspace s = cc_workspace_pk config"
    and fresh: "\<not> has_key event_key (2, cc_service_pk config, t,
      executionId pf (cc_id config) (cc_revision config) m) (td_state_events db)"
  defines "rid \<equiv> executionId pf (cc_id config) (cc_revision config) m"
    and "prev \<equiv> previous_service config db"
  obtains db' nxt where "persistCheckResult pf db config m t r = Inr db'"
    and "nxt = serviceState (service_checks (cc_workspace_pk config) (cc_service_pk config)
      (td_check_latest db')) (cc_maintenance_until config) t"
    and "row_of cl_check_pk (cc_pk config) (td_check_latest db') = Some (result_row pf db config m t r)"
    and "map_option sl_state (row_of sl_service_pk (cc_service_pk config) (td_service_latest db')) = Some nxt"
    and "td_state_events db' = (if prev = nxt then td_state_events db
      else td_state_events db @ [transition_event config t rid prev nxt])"
    and "keyed cl_check_pk (td_check_latest db) \<Longrightarrow> keyed cl_check_pk (td_check_latest db')"
proof -
  have "\<not> stale_call pf db config m"
    using new previous_check_in [of config db] by (fastforce simp: newer_result_def stale_call_def)
  from persist_written [OF this, of t r] obtain d db' where written:
    "persistCheckResult pf db config m t r = Inr db'"
    "td_check_latest d =
      upsert cl_check_pk (result_row pf db config m t r) (supersedes (result_row pf db config m t r))
        (\<lambda>_. result_row pf db config m t r) (td_check_latest db)"
    "td_service_latest d = td_service_latest db" "td_state_events d = td_state_events db"
    "td_check_latest db' = td_check_latest d"
    "td_service_latest db' = td_service_latest (runServiceStateStatements config t rid d)"
    "td_state_events db' = td_state_events (runServiceStateStatements config t rid d)"
    unfolding rid_def by blast
  have row: "row_of cl_check_pk (cc_pk config) (td_check_latest d) = Some (result_row pf db config m t r)"
    by (rule newer_stored [OF new written(2)])
  have cur: "current_result config rid d"
    using stored_is_current [OF row] by (simp add: rid_def)
  have same: "previous_service config d = prev"
    by (simp add: previous_service_def prev_def written(3))
  have keyed': "keyed cl_check_pk (td_check_latest db')" if "keyed cl_check_pk (td_check_latest db)"
    using that by (simp add: written(2,5) keyed_upsert)
  show ?thesis
    using run_service_correct [OF cur, of t] own fresh written row keyed' same
    by (intro that [of db' "serviceState (service_checks (cc_workspace_pk config)
        (cc_service_pk config) (td_check_latest db')) (cc_maintenance_until config) t"])
      (auto simp: rid_def)
qed

lemma persist_again:
  assumes "row_of cl_check_pk (cc_pk config) (td_check_latest db') = Some row"
    and "cl_workspace row = cc_workspace_pk config" "cl_revision row = cc_revision config"
    and "cl_result_id row = executionId pf (cc_id config) (cc_revision config) m"
    and "keyed cl_check_pk (td_check_latest db')"
  shows "persistCheckResult pf db' config m t r = Inr db'"
proof -
  obtain p where p: "previous_check config db' = Some p"
    using row_of_SomeD [OF assms(1)] assms(2)
    by (cases "previous_check config db'") (auto simp: previous_check_def find_None_iff)
  then have "p = row"
    using previous_check_in [OF p] row_of_SomeD [OF assms(1)] keyed_unique [OF assms(5)] by auto
  with p assms show ?thesis by (simp add: persistCheckResult_def Let_def)
qed

lemma persist_monotone:
  assumes "row_of cl_check_pk k (td_check_latest db) = Some old"
  obtains db' new where "persistCheckResult pf db config m t r = Inr db'"
    and "row_of cl_check_pk k (td_check_latest db') = Some new"
    and "(cl_revision old, cl_observed_at old) \<le> (cl_revision new, cl_observed_at new)"
    and "cl_workspace new = cl_workspace old"
proof (cases "stale_call pf db config m")
  case True
  then show ?thesis using that assms persist_skipped by blast
next
  case False
  obtain d :: telemetry_db and db' where written:
    "persistCheckResult pf db config m t r = Inr db'"
    "td_check_latest d =
      upsert cl_check_pk (result_row pf db config m t r) (supersedes (result_row pf db config m t r))
        (\<lambda>_. result_row pf db config m t r) (td_check_latest db)"
    "td_check_latest db' = td_check_latest d"
    by (rule persist_written [OF False, of t r]) (rule that, assumption+)
  let ?row = "result_row pf db config m t r"
  have "row_of cl_check_pk k (td_check_latest db') =
      Some (if k = cc_pk config \<and> supersedes ?row old then ?row else old)"
    using assms by (auto simp: written(2,3) row_of_upsert)
  then show ?thesis
    using that [OF written(1)] by (auto simp: supersedes_def split: if_splits)
qed

section \<open>Properties\<close>

text \<open>
  C4. A confirmed-healthy check is declared failed after exactly \<open>failure_confirmations\<close> failing results
  in a row: with fewer the stored state stays healthy, and from then on it is down if one of the results
  since that moment was down and degraded otherwise, so an outage never softens to degraded by itself.
\<close>

theorem confirmation_failure_window:
  assumes "\<forall>r \<in> set rs. ex_state r = Down \<or> ex_state r = Degraded"
    and "cs_state p = Healthy" "cs_failures p = 0" "1 \<le> cc_failure_confirmations config"
  shows "cs_state (confirmation_run config p rs) =
    (if int (length rs) < cc_failure_confirmations config then Healthy
     else if Down \<in> set (map ex_state (drop (nat (cc_failure_confirmations config) - 1) rs)) then Down
     else Degraded)"
  using assms by (rule failing_run_state)

definition sample_config :: check_config where
  "sample_config = \<lparr>cc_id = ''c1'', cc_pk = 11, cc_workspace_pk = 1, cc_workspace_id = ''w'',
     cc_service_pk = 21, cc_maintenance_until = None, cc_revision = 2, cc_kind = Http,
     cc_interval = 60, cc_phase = 0, cc_timeout_ms = 5000, cc_retry_count = 1, cc_critical = 1,
     cc_request_json = [], cc_secret_refs_json = [], cc_failure_confirmations = 2,
     cc_recovery_confirmations = 2, cc_last_claimed_slot = 0\<rparr>"

definition sample_failure :: executed_check where
  "sample_failure = \<lparr>ex_state = Down, ex_latency = None, ex_failure_code = Some ''timeout'',
     ex_failure_summary = None\<rparr>"

definition sample_success :: executed_check where
  "sample_success = \<lparr>ex_state = Healthy, ex_latency = Some 40, ex_failure_code = None,
     ex_failure_summary = None\<rparr>"

theorem confirmation_failure_window_witness:
  "cs_state (confirmation_run sample_config \<lparr>cs_state = Healthy, cs_failure_code = None,
     cs_failure_summary = None, cs_failures = 0, cs_successes = 4\<rparr> [sample_failure, sample_failure]) = Down"
  using confirmation_failure_window [of "[sample_failure, sample_failure]"
      "\<lparr>cs_state = Healthy, cs_failure_code = None, cs_failure_summary = None, cs_failures = 0,
        cs_successes = 4\<rparr>" sample_config]
  by (simp add: sample_failure_def sample_config_def)

text \<open>
  A check that is not healthy recovers after exactly \<open>recovery_confirmations\<close> healthy results in a
  row; with fewer it keeps the state it had.
\<close>

theorem confirmation_recovery_window:
  assumes "\<forall>r \<in> set rs. ex_state r = Healthy"
    and "cs_state p \<noteq> Healthy" "cs_successes p = 0" "1 \<le> cc_recovery_confirmations config"
  shows "cs_state (confirmation_run config p rs) =
    (if int (length rs) < cc_recovery_confirmations config then cs_state p else Healthy)"
  using assms by (rule healthy_run_state)

theorem confirmation_recovery_window_witness:
  "cs_state (confirmation_run sample_config \<lparr>cs_state = Down, cs_failure_code = None,
     cs_failure_summary = None, cs_failures = 3, cs_successes = 0\<rparr> [sample_success]) = Down"
  using confirmation_recovery_window [of "[sample_success]"
      "\<lparr>cs_state = Down, cs_failure_code = None, cs_failure_summary = None, cs_failures = 3,
        cs_successes = 0\<rparr>" sample_config]
  by (simp add: sample_success_def sample_config_def)

text \<open>
  C5. The two implementations of a service's state agree: the SQL expressions \<open>service_aggregate\<close> and
  \<open>next_service\<close>, evaluated over \<open>check_latest\<close>, give what the exported function \<open>serviceState\<close> gives for
  the service's checks, and the SQL reason code is the one of \<open>serviceReason\<close>.
\<close>

theorem service_state_sql_equiv:
  "next_service (service_aggregate ws service rows) maintenanceUntil now =
     serviceState (service_checks ws service rows) maintenanceUntil now \<and>
   serviceReasonSql (next_service (service_aggregate ws service rows) maintenanceUntil now) =
     serviceReason (serviceState (service_checks ws service rows) maintenanceUntil now)"
  by (simp add: next_service_eq serviceReason_sql serviceState_range)

text \<open>
  The bucket that closing a five-minute block writes satisfies the constraints of \<open>status_buckets\<close>:
  whatever the stored payloads decode to, the rollup counts between one and five results that split into
  healthy, degraded and down ones, availability lies in 0..1000 per mille, the state is never unknown and
  the summary code is that of the state.
\<close>

theorem closed_block_bucket_valid:
  assumes "executed_ok current"
  shows "let r = five_minute_rollup pf db config bucket current in
    1 \<le> totalCount r \<and> totalCount r \<le> 5 \<and>
    totalCount r = healthyCount r + degradedCount r + downCount r \<and>
    (let b = status_bucket_of config m r in
       0 \<le> sb_availability b \<and> sb_availability b \<le> 1000 \<and>
       sb_state b \<in> {Healthy, Degraded, Down, Maintenance} \<and>
       sb_summary b = serviceReason (sb_state b))"
  using five_minute_ok [OF assms, of pf db config bucket]
    status_bucket_wf [of "five_minute_rollup pf db config bucket current" config m]
  by (simp add: Let_def bucket_wf_def rollup_ok_def)

definition empty_db :: telemetry_db where
  "empty_db = \<lparr>td_check_blocks = [], td_check_latest = [], td_service_latest = [],
     td_machine_latest = [], td_state_events = [], td_queue = [], td_queue_high = 0,
     td_rollups_5m = [], td_rollups_1h = [], td_status_buckets = []\<rparr>"

definition sample_platform :: platform where
  "sample_platform = \<lparr>sha256 = (\<lambda>b. b), JSON_parse = (\<lambda>_. None), JSON_stringify = (\<lambda>_. [])\<rparr>"

theorem closed_block_bucket_valid_witness:
  "sb_availability (status_bucket_of sample_config 240000
     (five_minute_rollup sample_platform empty_db sample_config 0 sample_success)) \<le> 1000"
proof -
  have "executed_ok sample_success" by (simp add: executed_ok_def sample_success_def)
  from closed_block_bucket_valid [OF this, of sample_platform empty_db sample_config 0 240000]
  show ?thesis by (simp add: Let_def)
qed

text \<open>
  The status bucket of a service does not depend on the order in which its checks report: merging
  the same buckets in any order gives the same row, every column included.
\<close>

theorem status_bucket_order_independent:
  assumes "\<forall>b \<in> set new. bucket_wf b" "mset new = mset new'"
  shows "fold merge_bucket new old = fold merge_bucket new' old"
proof -
  have "fold merge_bucket new = fold merge_bucket new'"
    using assms by (intro fold_multiset_equiv) (auto simp: fun_eq_iff merge_bucket_commute)
  then show ?thesis by simp
qed

theorem status_bucket_order_independent_witness:
  "fold merge_bucket
     [status_bucket_of sample_config 240000 (addResult emptyRollup sample_success),
      status_bucket_of sample_config 240000 (addResult emptyRollup sample_failure)]
     (status_bucket_of sample_config 240000 (addResult emptyRollup sample_success)) =
   fold merge_bucket
     [status_bucket_of sample_config 240000 (addResult emptyRollup sample_failure),
      status_bucket_of sample_config 240000 (addResult emptyRollup sample_success)]
     (status_bucket_of sample_config 240000 (addResult emptyRollup sample_success))"
proof -
  have ok: "rollup_ok (addResult emptyRollup sample_success)" "rollup_ok (addResult emptyRollup sample_failure)"
    by (simp_all add: rollup_ok_add executed_ok_def sample_success_def sample_failure_def)
  show ?thesis
    by (rule status_bucket_order_independent) (auto simp: ok intro!: status_bucket_wf)
qed

text \<open>
  C6. Persisting a result that is newer than the stored one always returns, stores its row in
  \<open>check_latest\<close>, and leaves \<open>service_latest\<close> with exactly the state that \<open>serviceState\<close> computes from the
  check rows it leaves behind. When that state differs from the service's previous one, exactly one
  event with the previous and the new state is appended to \<open>state_events\<close>; otherwise none is.
\<close>

theorem persist_keeps_service_in_step:
  assumes "newer_result pf db config nominalMinute observedAt"
    and "\<forall>s \<in> set (td_service_latest db). sl_service_pk s = cc_service_pk config \<longrightarrow>
      sl_workspace s = cc_workspace_pk config"
    and "\<not> has_key event_key (2, cc_service_pk config, observedAt,
      executionId pf (cc_id config) (cc_revision config) nominalMinute) (td_state_events db)"
  shows "\<exists>db' nxt. persistCheckResult pf db config nominalMinute observedAt result = Inr db' \<and>
    row_of cl_check_pk (cc_pk config) (td_check_latest db') =
      Some (result_row pf db config nominalMinute observedAt result) \<and>
    nxt = serviceState (service_checks (cc_workspace_pk config) (cc_service_pk config)
      (td_check_latest db')) (cc_maintenance_until config) observedAt \<and>
    map_option sl_state (row_of sl_service_pk (cc_service_pk config) (td_service_latest db')) = Some nxt \<and>
    td_state_events db' = td_state_events db @
      (if previous_service config db = nxt then []
       else [transition_event config observedAt
         (executionId pf (cc_id config) (cc_revision config) nominalMinute)
         (previous_service config db) nxt])"
  by (rule persist_newer [OF assms, of result]) auto

theorem persist_keeps_service_in_step_witness:
  "\<exists>db'. persistCheckResult sample_platform empty_db sample_config 60000 61000 sample_success = Inr db' \<and>
     map_option sl_state (row_of sl_service_pk 21 (td_service_latest db')) =
       Some (serviceState (service_checks 1 21 (td_check_latest db')) None 61000)"
proof -
  have "newer_result sample_platform empty_db sample_config 60000 61000"
    by (simp add: newer_result_def empty_db_def)
  moreover have "\<forall>s \<in> set (td_service_latest empty_db).
      sl_service_pk s = cc_service_pk sample_config \<longrightarrow> sl_workspace s = cc_workspace_pk sample_config"
    and "\<not> has_key event_key (2, cc_service_pk sample_config, 61000,
      executionId sample_platform (cc_id sample_config) (cc_revision sample_config) 60000)
      (td_state_events empty_db)"
    by (simp_all add: empty_db_def)
  ultimately show ?thesis
    using persist_keeps_service_in_step [of sample_platform empty_db sample_config 60000 61000 sample_success]
    by (auto simp: sample_config_def)
qed

text \<open>
  Persisting is idempotent: after a newer result is stored, processing the same execution again,
  with any outcome and at any time, returns the database unchanged, so a slot is counted once.
\<close>

theorem persist_idempotent:
  assumes "newer_result pf db config nominalMinute observedAt"
    and "keyed cl_check_pk (td_check_latest db)"
    and "\<forall>s \<in> set (td_service_latest db). sl_service_pk s = cc_service_pk config \<longrightarrow>
      sl_workspace s = cc_workspace_pk config"
    and "\<not> has_key event_key (2, cc_service_pk config, observedAt,
      executionId pf (cc_id config) (cc_revision config) nominalMinute) (td_state_events db)"
  shows "\<exists>db'. persistCheckResult pf db config nominalMinute observedAt result = Inr db' \<and>
    persistCheckResult pf db' config nominalMinute observedAt' result' = Inr db'"
proof (rule persist_newer [OF assms(1,3,4), of result])
  fix db' nxt
  assume p: "persistCheckResult pf db config nominalMinute observedAt result = Inr db'"
    and row: "row_of cl_check_pk (cc_pk config) (td_check_latest db') =
      Some (result_row pf db config nominalMinute observedAt result)"
    and k: "keyed cl_check_pk (td_check_latest db) \<Longrightarrow> keyed cl_check_pk (td_check_latest db')"
  have "persistCheckResult pf db' config nominalMinute observedAt' result' = Inr db'"
    by (rule persist_again [OF row]) (simp_all add: k assms(2))
  with p show ?thesis by blast
qed

theorem persist_idempotent_witness:
  "\<exists>db'. persistCheckResult sample_platform empty_db sample_config 60000 61000 sample_success = Inr db' \<and>
     persistCheckResult sample_platform db' sample_config 60000 99000 sample_failure = Inr db'"
  by (rule persist_idempotent) (simp_all add: newer_result_def empty_db_def)

text \<open>
  C7. The latest row of every check moves forward only: no call of \<open>persistCheckResult\<close>, for any check,
  revision, slot or clock reading, removes a row, moves it to another workspace or takes its
  (revision, observation time) pair back.
\<close>

theorem persist_never_steps_back:
  assumes "row_of cl_check_pk k (td_check_latest db) = Some old"
  shows "\<exists>db' new. persistCheckResult pf db config nominalMinute observedAt result = Inr db' \<and>
    row_of cl_check_pk k (td_check_latest db') = Some new \<and>
    (cl_revision old, cl_observed_at old) \<le> (cl_revision new, cl_observed_at new) \<and>
    cl_workspace new = cl_workspace old"
  by (rule persist_monotone [OF assms, of pf config nominalMinute observedAt result]) blast

definition sample_latest :: check_latest_row where
  "sample_latest = \<lparr>cl_check_pk = 11, cl_workspace = 1, cl_service = 21, cl_observed_at = 5000,
     cl_state = Healthy, cl_latency = None, cl_failure_code = None, cl_failure_summary = None,
     cl_failures = 0, cl_successes = 1, cl_critical = 1, cl_revision = 3, cl_result_id = [1]\<rparr>"

theorem persist_never_steps_back_witness:
  "\<exists>db' new. persistCheckResult sample_platform (empty_db\<lparr>td_check_latest := [sample_latest]\<rparr>)
      sample_config 60000 61000 sample_success = Inr db' \<and>
     row_of cl_check_pk 11 (td_check_latest db') = Some new \<and> (3, 5000) \<le> (cl_revision new, cl_observed_at new)"
proof -
  have "row_of cl_check_pk 11 (td_check_latest (empty_db\<lparr>td_check_latest := [sample_latest]\<rparr>)) =
      Some sample_latest"
    by (simp add: sample_latest_def)
  from persist_never_steps_back [OF this, of sample_platform sample_config 60000 61000 sample_success]
  show ?thesis by (auto simp: sample_latest_def)
qed

end
