(* ===== verification/State_Sync.thy ===== *)
theory State_Sync
  imports Control_Db Check_Correctness
begin

text \<open>
  Service state synchronisation jobs (\<open>packages/db/src/repositories/service-state-sync.ts\<close>). The web
  application records a job in the same batch that changes a check or a maintenance window; the
  scheduler applies the jobs until their guard time has passed, so that the telemetry database follows
  the control database although no transaction spans both.
\<close>

definition JOB_BATCH :: nat where
  "JOB_BATCH = 50"

definition SERVICE_STATE_SYNC_GUARD_MS :: millis where
  "SERVICE_STATE_SYNC_GUARD_MS = 15 * 60000"

fun reason_text :: "sync_reason \<Rightarrow> string" where
  "reason_text Check_configuration = ''check_configuration''"
| "reason_text Maintenance_window = ''maintenance_window''"
| "reason_text Maintenance_window_ended = ''maintenance_window_ended''"

section \<open>Recording a job\<close>

text \<open>The random token and the fields of \<open>input\<close> are arguments.\<close>

definition createServiceStateSyncJob ::
  "string \<Rightarrow> string \<Rightarrow> pk \<Rightarrow> string \<Rightarrow> pk \<Rightarrow> string option \<Rightarrow> pk option \<Rightarrow> sync_reason \<Rightarrow> millis \<Rightarrow>
   millis option \<Rightarrow> sync_job" where
  "createServiceStateSyncJob token workspaceId workspacePk serviceId servicePk checkId checkPk reason
     updatedAt retainUntil =
     (let guardUntil = updatedAt + SERVICE_STATE_SYNC_GUARD_MS in
      \<lparr>jobKey = (case checkId of None \<Rightarrow> ''service:'' @ serviceId | Some c \<Rightarrow> ''check:'' @ c),
       syncToken = token, sj_workspaceId = workspaceId, sj_workspacePk = workspacePk,
       sj_serviceId = serviceId, sj_servicePk = servicePk, sj_checkId = checkId, sj_checkPk = checkPk,
       reasonCode = reason,
       protectUntil = max guardUntil (case retainUntil of None \<Rightarrow> guardUntil | Some u \<Rightarrow> u),
       nextAttemptAt = updatedAt, lastAttemptedAt = updatedAt, sj_updatedAt = updatedAt\<rparr>)"

text \<open>\<open>changes\<close> is the count of the previous statement of the batch.\<close>

definition prepareServiceStateSyncJob ::
  "sync_job \<Rightarrow> bool \<Rightarrow> nat \<Rightarrow> sync_job list \<Rightarrow> sync_job list" where
  "prepareServiceStateSyncJob job onlyIfPreviousStatementChanged changes jobs =
     (if onlyIfPreviousStatementChanged \<and> changes \<noteq> 1 then jobs
      else upsert jobKey job (\<lambda>_. True) (\<lambda>_. job) jobs)"

section \<open>Applying a job\<close>

definition syncServiceState :: "(health \<times> int) list \<Rightarrow> millis option \<Rightarrow> millis \<Rightarrow> health" where
  "syncServiceState checks maintenanceUntil now =
     (if (case maintenanceUntil of None \<Rightarrow> False | Some u \<Rightarrow> u > now) then Maintenance
      else if list_ex (\<lambda>(state, critical). critical = 1 \<and> state = Down) checks then Down
      else if list_ex (\<lambda>(state, critical). state = Down \<or> state = Degraded) checks then Degraded
      else if list_ex (\<lambda>(state, critical). state = Healthy) checks then Healthy
      else Unknown)"

definition sync_eventId :: "platform \<Rightarrow> sync_job \<Rightarrow> health \<Rightarrow> health \<Rightarrow> blob" where
  "sync_eventId pf job previousState currentState =
     sha256 pf (text_encode (jobKey job @ '':'' @ syncToken job @ '':'' @ health_text previousState @
       '':'' @ health_text currentState))"

record desired_state =
  ds_workspace_pk :: pk
  ds_service_pk :: pk
  ds_maintenance_until :: "millis option"
  ds_check :: "check_row option"

definition desiredServiceState :: "control_db \<Rightarrow> sync_job \<Rightarrow> desired_state option" where
  "desiredServiceState control job =
     (case find (\<lambda>s. sv_id s = sj_serviceId job \<and> sv_workspace_id s = sj_workspaceId job \<and>
            sv_deleted_at s = None) (cd_services control) of
        None \<Rightarrow> None
      | Some s \<Rightarrow>
          (case find (\<lambda>w. wk_id w = sv_workspace_id s \<and> wk_deleted_at w = None)
                  (cd_workspaces control) of
             None \<Rightarrow> None
           | Some w \<Rightarrow> Some \<lparr>ds_workspace_pk = wk_pk w, ds_service_pk = sv_pk s,
               ds_maintenance_until = sv_maintenance_until s,
               ds_check = find (\<lambda>c. Some (cf_id c) = sj_checkId job \<and> cf_service_id c = sv_id s \<and>
                 cf_workspace_id c = sv_workspace_id s) (cd_checks control)\<rparr>))"

definition is_job_check :: "sync_job \<Rightarrow> pk \<Rightarrow> check_latest_row \<Rightarrow> bool" where
  "is_job_check job checkPk r \<longleftrightarrow> cl_workspace r = sj_workspacePk job \<and> cl_check_pk r = checkPk"

text \<open>The statements on \<open>check_latest\<close>: the row of a check that is gone or disabled is removed, the row
  of an older revision of a cloud check too, and the others take the configured weight.\<close>

definition sync_check_rows :: "sync_job \<Rightarrow> pk \<Rightarrow> check_row option \<Rightarrow> check_latest_row list \<Rightarrow> check_latest_row list" where
  "sync_check_rows job checkPk desired rows =
     (case desired of
        Some c \<Rightarrow>
          if cf_pk c = checkPk \<and> cf_enabled c = 1 then
            if cf_executor c = ''cloudflare'' then
              update_where (\<lambda>r. is_job_check job checkPk r \<and> cl_revision r = cf_revision c)
                (\<lambda>r. r\<lparr>cl_critical := cf_critical c\<rparr>)
                (delete_where (\<lambda>r. is_job_check job checkPk r \<and> cl_revision r \<noteq> cf_revision c) rows)
            else update_where (is_job_check job checkPk) (\<lambda>r. r\<lparr>cl_critical := cf_critical c\<rparr>) rows
          else delete_where (is_job_check job checkPk) rows
      | None \<Rightarrow> delete_where (is_job_check job checkPk) rows)"

definition sync_checks :: "sync_job \<Rightarrow> check_row option \<Rightarrow> telemetry_db \<Rightarrow> telemetry_db" where
  "sync_checks job desired db =
     (case sj_checkPk job of
        None \<Rightarrow> db
      | Some checkPk \<Rightarrow>
          db\<lparr>td_check_latest := sync_check_rows job checkPk desired (td_check_latest db)\<rparr>)"

definition job_service_row :: "sync_job \<Rightarrow> telemetry_db \<Rightarrow> service_latest_row option" where
  "job_service_row job db =
     find (\<lambda>s. sl_workspace s = sj_workspacePk job \<and> sl_service_pk s = sj_servicePk job)
       (td_service_latest db)"

definition sync_reason_code :: "sync_job \<Rightarrow> health \<Rightarrow> string" where
  "sync_reason_code job nextState =
     (if nextState = Maintenance then ''maintenance_window''
      else if reasonCode job = Maintenance_window then ''maintenance_window_ended''
      else reason_text (reasonCode job))"

text \<open>
  The batch that writes the service row and its event. The event is inserted when the upsert changed a
  row, so it is refused when the row belongs to another workspace; then the job fails.
\<close>

definition write_service_state ::
  "platform \<Rightarrow> telemetry_db \<Rightarrow> sync_job \<Rightarrow> millis \<Rightarrow> health \<Rightarrow> health \<Rightarrow> telemetry_db \<times> bool" where
  "write_service_state pf db job now previousState nextState =
     (let row = \<lparr>sl_service_pk = sj_servicePk job, sl_workspace = sj_workspacePk job,
                 sl_state = nextState, sl_status_since = now,
                 sl_reason = sync_reason_code job nextState,
                 sl_last_transition_at = now, sl_updated_at = now\<rparr>;
          (services, returned) = upsert_returning sl_service_pk row
            (\<lambda>old. sl_workspace old = sl_workspace row) (\<lambda>_. row) (td_service_latest db);
          written = db\<lparr>td_service_latest := services\<rparr>
      in if returned = None then (written, False)
         else (fst (insert_event
                 \<lparr>ev_workspace = sj_workspacePk job, ev_type = 2, ev_resource_pk = sj_servicePk job,
                  ev_occurred_at = now, ev_id = sync_eventId pf job previousState nextState,
                  ev_previous = previousState, ev_current = nextState,
                  ev_reason = sync_reason_code job nextState\<rparr> written), True))"

text \<open>A job that fails keeps what it wrote before the failure.\<close>

definition applyServiceStateSyncJob ::
  "platform \<Rightarrow> control_db \<Rightarrow> telemetry_db \<Rightarrow> sync_job \<Rightarrow> millis \<Rightarrow> telemetry_db \<times> (millis option) result" where
  "applyServiceStateSyncJob pf control db job now =
     (case desiredServiceState control job of
        None \<Rightarrow> (sync_checks job None db, Inr None)
      | Some desired \<Rightarrow>
          if ds_workspace_pk desired \<noteq> sj_workspacePk job \<or> ds_service_pk desired \<noteq> sj_servicePk job
          then (db, throw ''service_state_sync_identity_changed'')
          else
            let db1 = sync_checks job (ds_check desired) db;
                checks = service_checks (sj_workspacePk job) (sj_servicePk job) (td_check_latest db1);
                previous = job_service_row job db1;
                nextState = syncServiceState checks (ds_maintenance_until desired) now
            in if map_option sl_state previous = Some nextState
               then (db1, Inr (ds_maintenance_until desired))
               else
                 let previousState = (case previous of None \<Rightarrow> Unknown | Some s \<Rightarrow> sl_state s);
                     (db2, ok) = write_service_state pf db1 job now previousState nextState
                 in if ok then (db2, Inr (ds_maintenance_until desired))
                    else (db2, throw ''service_state_sync_telemetry_identity_changed''))"

section \<open>Working through the queue\<close>

definition is_job :: "sync_job \<Rightarrow> sync_job \<Rightarrow> bool" where
  "is_job job r \<longleftrightarrow> jobKey r = jobKey job \<and> syncToken r = syncToken job"

definition markServiceStateSyncAttempt ::
  "control_db \<Rightarrow> sync_job \<Rightarrow> millis \<Rightarrow> millis \<Rightarrow> millis \<Rightarrow> control_db" where
  "markServiceStateSyncAttempt control job now protect next =
     control\<lparr>cd_sync_jobs := update_where (is_job job)
       (\<lambda>r. r\<lparr>protectUntil := protect, lastAttemptedAt := now, nextAttemptAt := next\<rparr>)
       (cd_sync_jobs control)\<rparr>"

definition nextAttemptAfterSuccess :: "sync_job \<Rightarrow> millis \<Rightarrow> millis \<Rightarrow> millis" where
  "nextAttemptAfterSuccess job now protect =
     (let guardUntil = sj_updatedAt job + SERVICE_STATE_SYNC_GUARD_MS in
      if reasonCode job = Maintenance_window \<and> now \<ge> guardUntil \<and> protect > now then protect else now)"

record sync_progress =
  sp_completed :: nat
  sp_failed :: nat

text \<open>One iteration of the loop over the selected jobs.\<close>

definition sync_one ::
  "platform \<Rightarrow> millis \<Rightarrow> sync_job \<Rightarrow> control_db \<times> telemetry_db \<times> sync_progress \<Rightarrow>
   control_db \<times> telemetry_db \<times> sync_progress" where
  "sync_one pf now job = (\<lambda>(control, db, progress).
     case applyServiceStateSyncJob pf control db job now of
       (db', Inr maintenanceUntil) \<Rightarrow>
         (let protect = (case maintenanceUntil of
                Some u \<Rightarrow> if reasonCode job = Maintenance_window then max (protectUntil job) u
                         else protectUntil job
              | None \<Rightarrow> protectUntil job)
          in if protect \<le> now then
               (control\<lparr>cd_sync_jobs := delete_where (is_job job) (cd_sync_jobs control)\<rparr>, db',
                progress\<lparr>sp_completed := sp_completed progress + count_where (is_job job) (cd_sync_jobs control)\<rparr>)
             else
               (markServiceStateSyncAttempt control job now protect
                  (nextAttemptAfterSuccess job now protect), db', progress))
     | (db', Inl _) \<Rightarrow>
         (markServiceStateSyncAttempt control job now (protectUntil job) now, db',
          progress\<lparr>sp_failed := sp_failed progress + 1\<rparr>))"

definition sync_order :: "sync_job \<Rightarrow> millis \<times> millis \<times> string" where
  "sync_order j = (nextAttemptAt j, lastAttemptedAt j, jobKey j)"

definition reconcileServiceStateSyncJobs ::
  "platform \<Rightarrow> control_db \<Rightarrow> telemetry_db \<Rightarrow> millis \<Rightarrow> int \<Rightarrow>
   (control_db \<times> telemetry_db \<times> nat \<times> sync_progress) result" where
  "reconcileServiceStateSyncJobs pf control db now batch =
     (if batch < 1 \<or> batch > int JOB_BATCH
      then throw ''service state sync batch must be between 1 and 50''
      else
        let rows = select_limit (\<lambda>j. nextAttemptAt j \<le> now) sync_order (nat batch) (cd_sync_jobs control);
            (control', db', progress) = fold (sync_one pf now) rows
              (control, db, \<lparr>sp_completed = 0, sp_failed = 0\<rparr>)
        in Inr (control', db', length rows, progress))"

section \<open>Lemmas\<close>

lemma syncServiceState_eq: "syncServiceState = serviceState"
  by (intro ext) (simp add: syncServiceState_def serviceState_def)

text \<open>The service row of the telemetry database belongs to the job's workspace.\<close>

definition owns_service :: "sync_job \<Rightarrow> telemetry_db \<Rightarrow> bool" where
  "owns_service job db \<longleftrightarrow> (\<forall>s \<in> set (td_service_latest db).
     sl_service_pk s = sj_servicePk job \<longrightarrow> sl_workspace s = sj_workspacePk job)"

lemma sync_checks_frame [simp]:
  "td_service_latest (sync_checks job d db) = td_service_latest db"
  "td_state_events (sync_checks job d db) = td_state_events db"
  "owns_service job (sync_checks job d db) = owns_service job db"
  by (simp_all add: sync_checks_def owns_service_def split: option.splits)

lemma job_service_row_owned:
  "owns_service job db \<Longrightarrow> job_service_row job db = row_of sl_service_pk (sj_servicePk job) (td_service_latest db)"
  unfolding job_service_row_def row_of_def owns_service_def
  by (induction "td_service_latest db" arbitrary: db rule: list.induct)
    (auto intro!: find_cong)

lemma sync_check_rows_idem:
  "sync_check_rows job p d (sync_check_rows job p d rows) = sync_check_rows job p d rows"
  unfolding sync_check_rows_def
  by (auto simp: update_where_idem delete_where_idem delete_update_idem is_job_check_def split: option.splits)

lemma sync_checks_idem: "sync_checks job d (sync_checks job d db) = sync_checks job d db"
  by (simp add: sync_checks_def sync_check_rows_idem split: option.splits)

lemma write_owned:
  assumes "owns_service job db" "write_service_state pf db job now prev nxt = (db', ok)"
  shows "ok" "td_check_latest db' = td_check_latest db"
    "map_option sl_state (row_of sl_service_pk (sj_servicePk job) (td_service_latest db')) = Some nxt"
    "owns_service job db'"
    "td_state_events db' = insert_or_ignore event_key
       \<lparr>ev_workspace = sj_workspacePk job, ev_type = 2, ev_resource_pk = sj_servicePk job,
        ev_occurred_at = now, ev_id = sync_eventId pf job prev nxt, ev_previous = prev,
        ev_current = nxt, ev_reason = sync_reason_code job nxt\<rparr> (td_state_events db)"
proof -
  let ?row = "\<lparr>sl_service_pk = sj_servicePk job, sl_workspace = sj_workspacePk job,
    sl_state = nxt, sl_status_since = now, sl_reason = sync_reason_code job nxt,
    sl_last_transition_at = now, sl_updated_at = now\<rparr>"
  let ?guard = "\<lambda>old. sl_workspace old = sl_workspace ?row"
  have own: "sl_workspace old = sj_workspacePk job"
    if "row_of sl_service_pk (sj_servicePk job) (td_service_latest db) = Some old" for old
    using row_of_SomeD [OF that] assms(1) by (auto simp: owns_service_def)
  have db': "ok \<and> db' = fst (insert_event
      \<lparr>ev_workspace = sj_workspacePk job, ev_type = 2, ev_resource_pk = sj_servicePk job,
       ev_occurred_at = now, ev_id = sync_eventId pf job prev nxt, ev_previous = prev,
       ev_current = nxt, ev_reason = sync_reason_code job nxt\<rparr>
      (db\<lparr>td_service_latest := upsert sl_service_pk ?row ?guard (\<lambda>_. ?row) (td_service_latest db)\<rparr>))"
    using assms(2) own
    by (auto simp: write_service_state_def Let_def upsert_returning_eq split: option.splits if_splits)
  then show "ok" "td_check_latest db' = td_check_latest db" by simp_all
  show "map_option sl_state (row_of sl_service_pk (sj_servicePk job) (td_service_latest db')) = Some nxt"
    using db' own by (simp add: row_of_upsert split: option.splits)
  show "owns_service job db'"
    using db' assms(1)
    by (auto simp: owns_service_def upsert_def set_update_where)
  show "td_state_events db' = insert_or_ignore event_key
       \<lparr>ev_workspace = sj_workspacePk job, ev_type = 2, ev_resource_pk = sj_servicePk job,
        ev_occurred_at = now, ev_id = sync_eventId pf job prev nxt, ev_previous = prev,
        ev_current = nxt, ev_reason = sync_reason_code job nxt\<rparr> (td_state_events db)"
    using db' by (simp add: insert_event_events)
qed

lemma sync_checks_id:
  "td_check_latest db' = td_check_latest (sync_checks job d db) \<Longrightarrow> sync_checks job d db' = db'"
  by (auto simp: sync_checks_def sync_check_rows_idem split: option.splits)

lemma apply_settled:
  assumes "desiredServiceState control job = Some d"
    and "ds_workspace_pk d = sj_workspacePk job" "ds_service_pk d = sj_servicePk job"
    and "owns_service job db" "sync_checks job (ds_check d) db = db"
    and "map_option sl_state (row_of sl_service_pk (sj_servicePk job) (td_service_latest db)) =
      Some (serviceState (service_checks (sj_workspacePk job) (sj_servicePk job) (td_check_latest db))
        (ds_maintenance_until d) now)"
  shows "applyServiceStateSyncJob pf control db job now = (db, Inr (ds_maintenance_until d))"
  using assms by (simp add: applyServiceStateSyncJob_def job_service_row_owned syncServiceState_eq Let_def)

lemma apply_converges:
  assumes d: "desiredServiceState control job = Some d"
    and pk: "ds_workspace_pk d = sj_workspacePk job" "ds_service_pk d = sj_servicePk job"
    and own: "owns_service job db"
  obtains db' where "applyServiceStateSyncJob pf control db job now = (db', Inr (ds_maintenance_until d))"
    and "td_check_latest db' = td_check_latest (sync_checks job (ds_check d) db)"
    and "owns_service job db'"
    and "map_option sl_state (row_of sl_service_pk (sj_servicePk job) (td_service_latest db')) =
      Some (serviceState (service_checks (sj_workspacePk job) (sj_servicePk job) (td_check_latest db'))
        (ds_maintenance_until d) now)"
proof -
  let ?db1 = "sync_checks job (ds_check d) db"
  let ?next = "serviceState (service_checks (sj_workspacePk job) (sj_servicePk job) (td_check_latest ?db1))
        (ds_maintenance_until d) now"
  let ?row = "row_of sl_service_pk (sj_servicePk job) (td_service_latest db)"
  let ?prev = "case ?row of None \<Rightarrow> Unknown | Some s \<Rightarrow> sl_state s"
  have prev: "job_service_row job ?db1 = ?row" using own by (simp add: job_service_row_owned)
  show ?thesis
  proof (cases "map_option sl_state ?row = Some ?next")
    case True
    then have "applyServiceStateSyncJob pf control db job now = (?db1, Inr (ds_maintenance_until d))"
      using d pk prev by (simp add: applyServiceStateSyncJob_def syncServiceState_eq Let_def)
    then show ?thesis using True own by (intro that [of ?db1]) auto
  next
    case False
    obtain db' ok where w: "write_service_state pf ?db1 job now ?prev ?next = (db', ok)"
      by (cases "write_service_state pf ?db1 job now ?prev ?next")
    have own1: "owns_service job ?db1" using own by simp
    note facts = write_owned [OF own1 w]
    have "applyServiceStateSyncJob pf control db job now = (db', Inr (ds_maintenance_until d))"
      using d pk prev False w facts(1)
      by (auto simp: applyServiceStateSyncJob_def syncServiceState_eq Let_def)
    then show ?thesis using facts by (intro that [of db']) auto
  qed
qed

lemma synced_check_row:
  assumes "r \<in> set (td_check_latest (sync_checks job desired db))"
    and "sj_checkPk job = Some p" "is_job_check job p r"
  shows "\<exists>c. desired = Some c \<and> cf_pk c = p \<and> cf_enabled c = 1 \<and> cl_critical r = cf_critical c \<and>
    (cf_executor c = ''cloudflare'' \<longrightarrow> cl_revision r = cf_revision c)"
proof -
  have r: "r \<in> set (sync_check_rows job p desired (td_check_latest db))"
    using assms(1,2) by (simp add: sync_checks_def)
  then obtain c where c: "desired = Some c" "cf_pk c = p" "cf_enabled c = 1"
    using assms(3) by (auto simp: sync_check_rows_def delete_where_def split: option.splits if_splits)
  show ?thesis
  proof (cases "cf_executor c = ''cloudflare''")
    case True
    have "r \<in> set (update_where (\<lambda>r. is_job_check job p r \<and> cl_revision r = cf_revision c)
        (\<lambda>r. r\<lparr>cl_critical := cf_critical c\<rparr>)
        (delete_where (\<lambda>r. is_job_check job p r \<and> cl_revision r \<noteq> cf_revision c) (td_check_latest db)))"
      using r c True by (simp add: sync_check_rows_def)
    then obtain x where x: "is_job_check job p x \<longrightarrow> cl_revision x = cf_revision c"
      "r = (if is_job_check job p x \<and> cl_revision x = cf_revision c then x\<lparr>cl_critical := cf_critical c\<rparr> else x)"
      by (rule in_update_where) (auto simp: delete_where_def)
    have "is_job_check job p x" using assms(3) x(2) by (auto simp: is_job_check_def split: if_splits)
    then have "cl_revision r = cf_revision c \<and> cl_critical r = cf_critical c" using x by simp
    then show ?thesis using c by blast
  next
    case False
    have "r \<in> set (update_where (is_job_check job p) (\<lambda>r. r\<lparr>cl_critical := cf_critical c\<rparr>) (td_check_latest db))"
      using r c False by (simp add: sync_check_rows_def)
    then have "cl_critical r = cf_critical c"
      using assms(3) by (elim in_update_where) (auto split: if_splits)
    then show ?thesis using c False by blast
  qed
qed

text \<open>What a job does to the queue.\<close>

lemma sync_one_queue:
  assumes "sync_one pf now job (control, db, progress) = (control', db', progress')"
  obtains p n where "protectUntil job \<le> p" "control' = markServiceStateSyncAttempt control job now p n"
  | "protectUntil job \<le> now"
    "control' = control\<lparr>cd_sync_jobs := delete_where (is_job job) (cd_sync_jobs control)\<rparr>"
proof -
  obtain db1 res where a: "applyServiceStateSyncJob pf control db job now = (db1, res)"
    by (cases "applyServiceStateSyncJob pf control db job now")
  show ?thesis
  proof (cases res)
    case (Inl e)
    then show ?thesis using assms a by (intro that(1)) (auto simp: sync_one_def)
  next
    case (Inr m)
    define p where "p = (case m of Some u \<Rightarrow> if reasonCode job = Maintenance_window then max (protectUntil job) u
      else protectUntil job | None \<Rightarrow> protectUntil job)"
    have "protectUntil job \<le> p" by (simp add: p_def split: option.splits)
    moreover have "control' = (if p \<le> now
        then control\<lparr>cd_sync_jobs := delete_where (is_job job) (cd_sync_jobs control)\<rparr>
        else markServiceStateSyncAttempt control job now p (nextAttemptAfterSuccess job now p))"
      using assms a Inr by (simp add: sync_one_def Let_def p_def [symmetric] split: if_splits)
    ultimately show ?thesis using that by (cases "p \<le> now") auto
  qed
qed

lemma sync_one_others:
  assumes "sync_one pf now job (control, db, progress) = (control', db', progress')"
    and "r \<in> set (cd_sync_jobs control)" "\<not> is_job job r"
  shows "r \<in> set (cd_sync_jobs control')"
  using assms(1) by (rule sync_one_queue)
    (use assms(2,3) in \<open>auto simp: markServiceStateSyncAttempt_def delete_where_def set_update_where\<close>)

text \<open>The job of one key and token is in the queue, protected at least until \<open>u\<close>.\<close>

definition job_queued :: "string \<Rightarrow> string \<Rightarrow> millis \<Rightarrow> control_db \<Rightarrow> bool" where
  "job_queued k t u control \<longleftrightarrow>
     (\<exists>j \<in> set (cd_sync_jobs control). jobKey j = k \<and> syncToken j = t \<and> u \<le> protectUntil j)"

lemma sync_one_protected:
  assumes "sync_one pf now job (control, db, progress) = (control', db', progress')"
    and "job_queued k t u control" "now < u"
    and "is_job job j \<Longrightarrow> protectUntil job \<ge> u" "jobKey j = k" "syncToken j = t"
  shows "job_queued k t u control'"
proof -
  obtain r where r: "r \<in> set (cd_sync_jobs control)" "jobKey r = k" "syncToken r = t" "u \<le> protectUntil r"
    using assms(2) by (auto simp: job_queued_def)
  show ?thesis
  proof (cases "is_job job j")
    case False
    then have "\<not> is_job job r" using assms(5,6) r by (simp add: is_job_def)
    then show ?thesis using sync_one_others [OF assms(1) r(1)] r by (auto simp: job_queued_def)
  next
    case True
    then have big: "u \<le> protectUntil job" and same: "is_job job r"
      using assms(4-6) r by (auto simp: is_job_def)
    obtain p n where "u \<le> p" "control' = markServiceStateSyncAttempt control job now p n"
      using assms(1)
      by (rule sync_one_queue) (rule that, rule order_trans [OF big], assumption+, use assms(3) big in linarith)
    then show ?thesis
      using r same
      by (auto simp: job_queued_def markServiceStateSyncAttempt_def set_update_where intro!: bexI
          [of _ "r\<lparr>protectUntil := p, lastAttemptedAt := now, nextAttemptAt := n\<rparr>"])
  qed
qed

lemma sync_fold_protected:
  assumes "\<forall>job \<in> set rows. is_job job j \<longrightarrow> u \<le> protectUntil job" "now < u"
    and "job_queued (jobKey j) (syncToken j) u control"
  shows "job_queued (jobKey j) (syncToken j) u (fst (fold (sync_one pf now) rows (control, db, progress)))"
  using assms
proof (induction rows arbitrary: control db progress)
  case (Cons job rows)
  obtain control' db' progress' where one:
    "sync_one pf now job (control, db, progress) = (control', db', progress')"
    by (cases "sync_one pf now job (control, db, progress)")
  have "job_queued (jobKey j) (syncToken j) u control'"
    using sync_one_protected [OF one Cons.prems(3,2), of j] Cons.prems(1) by auto
  then show ?case using Cons one by simp
qed simp

section \<open>Properties\<close>

text \<open>
  C10. Applying a synchronisation job brings the telemetry database in step with the control database:
  the job returns, the check it names keeps a row only if it still exists, is enabled and, for a cloud
  check, has the configured revision, that row has the configured weight, and the service row has the
  state that \<open>serviceState\<close> gives for the rows that remain. Applying the job again changes nothing.
\<close>

theorem sync_job_converges:
  assumes "desiredServiceState control job = Some d"
    and "ds_workspace_pk d = sj_workspacePk job" "ds_service_pk d = sj_servicePk job"
    and "owns_service job db"
  shows "\<exists>db'. applyServiceStateSyncJob pf control db job now = (db', Inr (ds_maintenance_until d)) \<and>
    (\<forall>p r. sj_checkPk job = Some p \<and> r \<in> set (td_check_latest db') \<and> is_job_check job p r \<longrightarrow>
      (\<exists>c. ds_check d = Some c \<and> cf_pk c = p \<and> cf_enabled c = 1 \<and> cl_critical r = cf_critical c \<and>
        (cf_executor c = ''cloudflare'' \<longrightarrow> cl_revision r = cf_revision c))) \<and>
    map_option sl_state (row_of sl_service_pk (sj_servicePk job) (td_service_latest db')) =
      Some (serviceState (service_checks (sj_workspacePk job) (sj_servicePk job) (td_check_latest db'))
        (ds_maintenance_until d) now) \<and>
    applyServiceStateSyncJob pf control db' job now = (db', Inr (ds_maintenance_until d))"
proof (rule apply_converges [OF assms, of pf now])
  fix db'
  assume a: "applyServiceStateSyncJob pf control db job now = (db', Inr (ds_maintenance_until d))"
    and rows: "td_check_latest db' = td_check_latest (sync_checks job (ds_check d) db)"
    and own: "owns_service job db'"
    and st: "map_option sl_state (row_of sl_service_pk (sj_servicePk job) (td_service_latest db')) =
      Some (serviceState (service_checks (sj_workspacePk job) (sj_servicePk job) (td_check_latest db'))
        (ds_maintenance_until d) now)"
  have again: "applyServiceStateSyncJob pf control db' job now = (db', Inr (ds_maintenance_until d))"
    by (rule apply_settled [OF assms(1-3) own sync_checks_id [OF rows] st])
  show ?thesis
    using a st again synced_check_row [of _ job "ds_check d" db] rows by (intro exI [of _ db']) auto
qed

definition sample_control :: control_db where
  "sample_control = \<lparr>
     cd_workspaces = [\<lparr>wk_id = ''w'', wk_pk = 1, wk_deleted_at = None, wk_purge_started_at = None\<rparr>],
     cd_services = [\<lparr>sv_id = ''s'', sv_pk = 21, sv_workspace_id = ''w'', sv_maintenance_until = None,
       sv_deleted_at = None, sv_purge_started_at = None, sv_purge_check_cursor = 0\<rparr>],
     cd_checks = [], cd_machines = [], cd_scheduler = [], cd_secrets = [], cd_sync_jobs = []\<rparr>"

definition sample_job :: sync_job where
  "sample_job = createServiceStateSyncJob ''t'' ''w'' 1 ''s'' 21 (Some ''c1'') (Some 11)
     Check_configuration 1000 None"

theorem sync_job_converges_witness:
  "\<exists>db'. applyServiceStateSyncJob sample_platform sample_control
      (empty_db\<lparr>td_check_latest := [sample_latest]\<rparr>) sample_job 2000 = (db', Inr None) \<and>
     applyServiceStateSyncJob sample_platform sample_control db' sample_job 2000 = (db', Inr None)"
proof -
  have d: "desiredServiceState sample_control sample_job = Some \<lparr>ds_workspace_pk = 1, ds_service_pk = 21,
      ds_maintenance_until = None, ds_check = None\<rparr>"
    by (simp add: desiredServiceState_def sample_control_def sample_job_def createServiceStateSyncJob_def Let_def)
  have "owns_service sample_job (empty_db\<lparr>td_check_latest := [sample_latest]\<rparr>)"
    by (simp add: owns_service_def empty_db_def)
  from sync_job_converges [OF d _ _ this, of sample_platform 2000] show ?thesis
    by (auto simp: sample_job_def createServiceStateSyncJob_def Let_def)
qed

text \<open>
  C11. A job is not lost while it is protected: a run of \<open>reconcileServiceStateSyncJobs\<close> before the time
  \<open>protectUntil\<close>, which is at least fifteen minutes after the job was recorded, leaves a job of the same
  key and token in the queue whose protection is not shorter. And a job that was recorded again in the
  meantime, with another token, is neither removed nor changed by working on the old one.
\<close>

theorem sync_job_protected:
  assumes "keyed jobKey (cd_sync_jobs control)" "j \<in> set (cd_sync_jobs control)" "now < protectUntil j"
    and "reconcileServiceStateSyncJobs pf control db now batch = Inr (control', db', n, progress)"
    and "sync_one pf now old (control, db, progress0) = (control1, db1, progress1)"
    and "syncToken old \<noteq> syncToken j"
  shows "job_queued (jobKey j) (syncToken j) (protectUntil j) control' \<and> j \<in> set (cd_sync_jobs control1)"
proof -
  let ?rows = "select_limit (\<lambda>j. nextAttemptAt j \<le> now) sync_order (nat batch) (cd_sync_jobs control)"
  have "\<forall>job \<in> set ?rows. is_job job j \<longrightarrow> protectUntil j \<le> protectUntil job"
  proof (intro ballI impI)
    fix job assume "job \<in> set ?rows" "is_job job j"
    then have "job \<in> set (cd_sync_jobs control)" "jobKey job = jobKey j"
      using set_select_limit [of "\<lambda>j. nextAttemptAt j \<le> now"] by (auto simp: is_job_def)
    then show "protectUntil j \<le> protectUntil job" using keyed_unique [OF assms(1) _ assms(2)] by auto
  qed
  moreover have "job_queued (jobKey j) (syncToken j) (protectUntil j) control"
    using assms(2) by (auto simp: job_queued_def)
  moreover have "control' = fst (fold (sync_one pf now) ?rows (control, db, \<lparr>sp_completed = 0, sp_failed = 0\<rparr>))"
    using assms(4)
    by (auto simp: reconcileServiceStateSyncJobs_def throw_def Let_def split: if_splits prod.splits)
  ultimately have "job_queued (jobKey j) (syncToken j) (protectUntil j) control'"
    using sync_fold_protected [OF _ assms(3)] by metis
  moreover have "j \<in> set (cd_sync_jobs control1)"
    using sync_one_others [OF assms(5,2)] assms(6) by (simp add: is_job_def)
  ultimately show ?thesis by blast
qed

theorem sync_job_protected_witness:
  "\<exists>control' db' n progress.
     reconcileServiceStateSyncJobs sample_platform (sample_control\<lparr>cd_sync_jobs := [sample_job]\<rparr>) empty_db 2000 50 =
       Inr (control', db', n, progress) \<and> job_queued ''check:c1'' ''t'' 901000 control'"
proof -
  let ?c = "sample_control\<lparr>cd_sync_jobs := [sample_job]\<rparr>"
  obtain control' db' n progress where r:
    "reconcileServiceStateSyncJobs sample_platform ?c empty_db 2000 50 = Inr (control', db', n, progress)"
    by (cases "fold (sync_one sample_platform 2000)
          (select_limit (\<lambda>j. nextAttemptAt j \<le> 2000) sync_order 50 [sample_job])
          (?c, empty_db, \<lparr>sp_completed = 0, sp_failed = 0\<rparr>)")
      (auto simp: reconcileServiceStateSyncJobs_def JOB_BATCH_def Let_def)
  obtain control1 db1 progress1 where o:
    "sync_one sample_platform 2000 (sample_job\<lparr>syncToken := ''u''\<rparr>) (?c, empty_db, progress) =
      (control1, db1, progress1)"
    by (cases "sync_one sample_platform 2000 (sample_job\<lparr>syncToken := ''u''\<rparr>) (?c, empty_db, progress)")
  have j: "jobKey sample_job = ''check:c1''" "syncToken sample_job = ''t''" "protectUntil sample_job = 901000"
    by (simp_all add: sample_job_def createServiceStateSyncJob_def Let_def SERVICE_STATE_SYNC_GUARD_MS_def)
  have "job_queued (jobKey sample_job) (syncToken sample_job) (protectUntil sample_job) control'"
    using sync_job_protected [OF _ _ _ r o, of sample_job] j by simp
  with r j show ?thesis by auto
qed

end
