(* ===== verification/Machine_Liveness.thy ===== *)
theory Machine_Liveness
  imports Control_Db Telemetry_Db Check_Correctness
begin

text \<open>
  Machine liveness (\<open>workers/checks/src/machine-liveness.ts\<close>): a machine whose last report is older than
  its limit is marked offline, with an event at the moment the limit passed. The states are read in
  batches, the transitions are computed, and each is written only if the row is still the one that was
  read. \<open>meanwhile\<close> stands for what the ingest service writes between the two.
\<close>

definition MAX_MACHINE_CANDIDATES :: nat where "MAX_MACHINE_CANDIDATES = 1000"
definition LATEST_QUERY_BATCH :: nat where "LATEST_QUERY_BATCH = 50"
definition TRANSITION_BATCH :: nat where "TRANSITION_BATCH = 25"

record machine_control =
  mm_pk :: pk
  mm_offline_after :: int
  mm_maintenance_until :: "millis option"

record offline_transition =
  ot_event_id :: blob
  ot_machine_pk :: pk
  ot_occurred_at :: millis
  ot_previous_state :: health
  ot_received_at :: millis

text \<open>\<open>ORDER BY CASE WHEN pk > cursor THEN 0 ELSE 1 END, pk\<close>.\<close>

definition round_robin :: "pk \<Rightarrow> pk \<Rightarrow> int \<times> pk" where
  "round_robin cursor k = (if k > cursor then 0 else 1, k)"

definition live_workspace :: "control_db \<Rightarrow> string \<Rightarrow> bool" where
  "live_workspace control workspaceId \<longleftrightarrow>
     list_ex (\<lambda>w. wk_id w = workspaceId \<and> wk_deleted_at w = None) (cd_workspaces control)"

definition loadMachineLivenessCandidates :: "control_db \<Rightarrow> pk \<Rightarrow> machine_control list" where
  "loadMachineLivenessCandidates control cursor =
     map (\<lambda>m. \<lparr>mm_pk = mc_pk m, mm_offline_after = mc_offline_after m,
               mm_maintenance_until = mc_maintenance_until m\<rparr>)
       (select_limit (\<lambda>m. mc_deleted_at m = None \<and> live_workspace control (mc_workspace_id m))
         (\<lambda>m. round_robin cursor (mc_pk m)) MAX_MACHINE_CANDIDATES (cd_machines control))"

definition offlineTransitionAt :: "machine_control \<Rightarrow> machine_latest_row \<Rightarrow> millis \<Rightarrow> millis option" where
  "offlineTransitionAt machine latest now =
     (if ml_state latest = Offline \<or> ml_state latest = Maintenance \<or>
         (case mm_maintenance_until machine of None \<Rightarrow> False | Some u \<Rightarrow> u > now)
      then None
      else let transitionAt = ml_received_at latest + mm_offline_after machine * 1000
           in if transitionAt \<le> now then Some transitionAt else None)"

definition offlineEventId :: "platform \<Rightarrow> pk \<Rightarrow> millis \<Rightarrow> blob" where
  "offlineEventId pf machinePk occurredAt =
     sha256 pf (text_encode (''alphaping:machine-offline:v1:'' @ int_to_string machinePk @ '':'' @
       int_to_string occurredAt))"

definition loadLatestRows ::
  "telemetry_db \<Rightarrow> machine_control list \<Rightarrow> (pk \<rightharpoonup> machine_latest_row)" where
  "loadLatestRows db machines =
     fold (\<lambda>batch m.
         fold (\<lambda>row m. m(ml_machine_pk row \<mapsto> row))
           (filter (\<lambda>r. ml_machine_pk r \<in> set (map mm_pk batch)) (td_machine_latest db)) m)
       (chunks LATEST_QUERY_BATCH machines) Map.empty"

definition transition_matches :: "offline_transition \<Rightarrow> machine_latest_row \<Rightarrow> bool" where
  "transition_matches t r \<longleftrightarrow> ml_machine_pk r = ot_machine_pk t \<and>
     ml_received_at r = ot_received_at t \<and> ml_state r = ot_previous_state t"

definition offline_event :: "offline_transition \<Rightarrow> machine_latest_row \<Rightarrow> state_event" where
  "offline_event t r =
     \<lparr>ev_workspace = ml_workspace r, ev_type = 1, ev_resource_pk = ml_machine_pk r,
      ev_occurred_at = ot_occurred_at t, ev_id = ot_event_id t, ev_previous = ml_state r,
      ev_current = Offline, ev_reason = ''report_timeout''\<rparr>"

text \<open>The two statements of a transition, with the number of rows that the second one changed.\<close>

definition run_transition :: "offline_transition \<Rightarrow> telemetry_db \<times> nat \<Rightarrow> telemetry_db \<times> nat" where
  "run_transition t = (\<lambda>(db, transitioned).
     let db1 = fold (\<lambda>r d. fst (insert_event (offline_event t r) d))
                 (filter (transition_matches t) (td_machine_latest db)) db
     in (db1\<lparr>td_machine_latest := update_where (transition_matches t) (\<lambda>r. r\<lparr>ml_state := Offline\<rparr>)
              (td_machine_latest db1)\<rparr>,
         transitioned + count_where (transition_matches t) (td_machine_latest db1)))"

definition persistOfflineTransitions ::
  "telemetry_db \<Rightarrow> offline_transition list \<Rightarrow> telemetry_db \<times> nat" where
  "persistOfflineTransitions db transitions =
     fold (fold run_transition) (chunks TRANSITION_BATCH transitions) (db, 0)"

definition machine_transition ::
  "platform \<Rightarrow> (pk \<rightharpoonup> machine_latest_row) \<Rightarrow> millis \<Rightarrow> machine_control \<Rightarrow> offline_transition list" where
  "machine_transition pf latestByMachine now machine =
     (case latestByMachine (mm_pk machine) of
        None \<Rightarrow> []
      | Some latest \<Rightarrow>
          (case offlineTransitionAt machine latest now of
             None \<Rightarrow> []
           | Some occurredAt \<Rightarrow>
               [\<lparr>ot_event_id = offlineEventId pf (mm_pk machine) occurredAt,
                 ot_machine_pk = mm_pk machine, ot_occurred_at = occurredAt,
                 ot_previous_state = ml_state latest, ot_received_at = ml_received_at latest\<rparr>]))"

record liveness_result =
  lr_scanned :: nat
  lr_transitioned :: nat

definition reconcileMachineLiveness ::
  "platform \<Rightarrow> (telemetry_db \<Rightarrow> telemetry_db) \<Rightarrow> telemetry_db \<Rightarrow> millis \<Rightarrow> machine_control list \<Rightarrow>
   telemetry_db \<times> liveness_result" where
  "reconcileMachineLiveness pf meanwhile db now machines =
     (let latestByMachine = loadLatestRows db machines;
          transitions = concat (map (machine_transition pf latestByMachine now) machines);
          (db', transitioned) = persistOfflineTransitions (meanwhile db) transitions
      in (db', \<lparr>lr_scanned = length machines, lr_transitioned = transitioned\<rparr>))"

section \<open>Lemmas\<close>

lemma fold_map_upd_rows:
  "keyed key rows \<Longrightarrow> fold (\<lambda>row m. m(key row \<mapsto> row)) rows m k =
    (case row_of key k rows of None \<Rightarrow> m k | Some r \<Rightarrow> Some r)"
proof (induction rows arbitrary: m)
  case (Cons a rows)
  then have "row_of key (key a) rows = None" by (simp add: row_of_None_iff)
  with Cons show ?case by (auto split: option.splits)
qed simp

lemma keyed_filter: "keyed key t \<Longrightarrow> keyed key (filter p t)"
  by (simp add: keyed_def distinct_map_filter)

lemma row_of_filter_key:
  "row_of key k (filter (\<lambda>r. key r \<in> A) t) = (if k \<in> A then row_of key k t else None)"
  by (induction t) auto

lemma load_batches:
  assumes "keyed ml_machine_pk rows"
  shows "fold (\<lambda>batch m. fold (\<lambda>row m. m(ml_machine_pk row \<mapsto> row))
      (filter (\<lambda>r. ml_machine_pk r \<in> set (map mm_pk batch)) rows) m) batches m k =
    (if k \<in> mm_pk ` \<Union> (set ` set batches) \<and> row_of ml_machine_pk k rows \<noteq> None
     then row_of ml_machine_pk k rows else m k)"
proof (induction batches arbitrary: m)
  case (Cons b bs)
  have "fold (\<lambda>row m. m(ml_machine_pk row \<mapsto> row))
      (filter (\<lambda>r. ml_machine_pk r \<in> set (map mm_pk b)) rows) m k =
    (if k \<in> mm_pk ` set b \<and> row_of ml_machine_pk k rows \<noteq> None then row_of ml_machine_pk k rows else m k)"
    using assms fold_map_upd_rows [OF keyed_filter [OF assms], where m = m and k = k]
    by (simp add: row_of_filter_key split: option.splits)
  then show ?case unfolding fold.simps comp_apply Cons.IH by (auto simp: image_Un simp del: fun_upd_apply)
qed simp

lemma loadLatestRows_eq:
  assumes "keyed ml_machine_pk (td_machine_latest db)"
  shows "loadLatestRows db machines k =
    (if k \<in> mm_pk ` set machines then row_of ml_machine_pk k (td_machine_latest db) else None)"
  unfolding loadLatestRows_def load_batches [OF assms]
  using set_chunks [of LATEST_QUERY_BATCH machines] by (auto simp: LATEST_QUERY_BATCH_def)

lemma fold_fold_concat: "fold (fold f) xss s = fold f (concat xss) s"
  by (induction xss arbitrary: s) auto

lemma persist_eq: "persistOfflineTransitions db ts = fold run_transition ts (db, 0)"
  by (simp add: persistOfflineTransitions_def fold_fold_concat TRANSITION_BATCH_def)

lemma insert_events_frame [simp]:
  "td_machine_latest (fold (\<lambda>r d. fst (insert_event (f r) d)) rs db) = td_machine_latest db"
  by (induction rs arbitrary: db) auto

lemma run_transition_latest:
  "td_machine_latest (fst (run_transition t (db, n))) =
    update_where (transition_matches t) (\<lambda>r. r\<lparr>ml_state := Offline\<rparr>) (td_machine_latest db)"
  "snd (run_transition t (db, n)) = n + count_where (transition_matches t) (td_machine_latest db)"
  by (simp_all add: run_transition_def Let_def)

lemma run_transition_keyed:
  "keyed ml_machine_pk (td_machine_latest db) \<Longrightarrow>
    keyed ml_machine_pk (td_machine_latest (fst (run_transition t (db, n))))"
  by (simp add: run_transition_latest keyed_update_where)

lemma matches_pk: "transition_matches t r \<Longrightarrow> ml_machine_pk r = ot_machine_pk t"
  by (simp add: transition_matches_def)

lemma run_transitions_latest:
  assumes "distinct (map ot_machine_pk ts)"
  shows "td_machine_latest (fst (fold run_transition ts (db, n))) =
      update_where (\<lambda>r. \<exists>t \<in> set ts. transition_matches t r) (\<lambda>r. r\<lparr>ml_state := Offline\<rparr>) (td_machine_latest db)
    \<and> snd (fold run_transition ts (db, n)) =
      n + count_where (\<lambda>r. \<exists>t \<in> set ts. transition_matches t r) (td_machine_latest db)"
  using assms
proof (induction ts arbitrary: db n)
  case Nil
  show ?case by (simp add: update_where_def count_where_def)
next
  case (Cons t ts)
  obtain db1 n1 where one: "run_transition t (db, n) = (db1, n1)" by (cases "run_transition t (db, n)")
  let ?off = "\<lambda>r. r\<lparr>ml_state := Offline\<rparr>"
  have latest: "td_machine_latest db1 = update_where (transition_matches t) ?off (td_machine_latest db)"
    and count: "n1 = n + count_where (transition_matches t) (td_machine_latest db)"
    using run_transition_latest [of t db n] one by simp_all
  have other: "\<not> transition_matches t' r" "\<not> transition_matches t' (?off r)"
    if "transition_matches t r" "t' \<in> set ts" for t' r
  proof -
    have "ot_machine_pk t' \<noteq> ot_machine_pk t"
      using that(2) Cons.prems by (auto simp: image_iff)
    then show "\<not> transition_matches t' r" "\<not> transition_matches t' (?off r)"
      using that(1) by (simp_all add: transition_matches_def)
  qed
  have upd: "update_where (\<lambda>r. \<exists>t' \<in> set ts. transition_matches t' r) ?off
      (update_where (transition_matches t) ?off rows) =
    update_where (\<lambda>r. \<exists>t' \<in> set (t # ts). transition_matches t' r) ?off rows" for rows
    using other by (induction rows) auto
  have cnt: "count_where (transition_matches t) rows +
      count_where (\<lambda>r. \<exists>t' \<in> set ts. transition_matches t' r) (update_where (transition_matches t) ?off rows) =
    count_where (\<lambda>r. \<exists>t' \<in> set (t # ts). transition_matches t' r) rows" for rows
    using other by (induction rows) (auto simp: count_where_def)
  show ?case
    using Cons.IH [of db1 n1] Cons.prems upd [of "td_machine_latest db"] cnt [of "td_machine_latest db"]
    by (simp add: one latest count)
qed

lemma transitions_distinct:
  "distinct (map mm_pk machines) \<Longrightarrow>
    distinct (map ot_machine_pk (concat (map (machine_transition pf latest now) machines)))"
proof (induction machines)
  case (Cons m ms)
  have "\<And>t. t \<in> set (machine_transition pf latest now m) \<Longrightarrow> ot_machine_pk t = mm_pk m" for m
    by (auto simp: machine_transition_def split: option.splits)
  moreover have "distinct (map ot_machine_pk (machine_transition pf latest now m))"
    by (auto simp: machine_transition_def split: option.splits)
  ultimately show ?case using Cons by fastforce
qed simp

text \<open>A row is due when a candidate machine's limit has passed for it.\<close>

definition offline_due :: "machine_control list \<Rightarrow> millis \<Rightarrow> machine_latest_row \<Rightarrow> bool" where
  "offline_due machines now r \<longleftrightarrow>
     (\<exists>m \<in> set machines. mm_pk m = ml_machine_pk r \<and> offlineTransitionAt m r now \<noteq> None)"

lemma planned_matches:
  assumes "keyed ml_machine_pk (td_machine_latest db)" "r \<in> set (td_machine_latest db)"
  shows "(\<exists>t \<in> set (concat (map (machine_transition pf (loadLatestRows db machines) now) machines)).
      transition_matches t r) \<longleftrightarrow> offline_due machines now r"
proof -
  have row: "loadLatestRows db machines (mm_pk m) = Some r" if "m \<in> set machines" "mm_pk m = ml_machine_pk r" for m
    using that row_of_keyed [OF assms] by (force simp: loadLatestRows_eq [OF assms(1)])
  have "(\<exists>t \<in> set (machine_transition pf (loadLatestRows db machines) now m). transition_matches t r) \<longleftrightarrow>
      mm_pk m = ml_machine_pk r \<and> offlineTransitionAt m r now \<noteq> None" if "m \<in> set machines" for m
  proof (cases "mm_pk m = ml_machine_pk r")
    case True
    then show ?thesis
      using row [OF that]
      by (cases "offlineTransitionAt m r now") (simp_all add: machine_transition_def transition_matches_def)
  next
    case False
    then show ?thesis
      by (auto simp: machine_transition_def transition_matches_def split: option.splits)
  qed
  then show ?thesis unfolding offline_due_def by auto
qed

lemma insert_events_mono:
  "has_key event_key k (td_state_events db) \<Longrightarrow>
    has_key event_key k (td_state_events (fold (\<lambda>r d. fst (insert_event (f r) d)) rs db))"
  by (induction rs arbitrary: db) (auto simp: insert_event_events insert_or_ignore_def has_key_def)

lemma insert_event_has: "has_key event_key (event_key e) (td_state_events (fst (insert_event e db)))"
  by (auto simp: insert_event_events insert_or_ignore_def has_key_def)

lemma insert_events_has:
  "r \<in> set rs \<Longrightarrow> has_key event_key (event_key (f r))
    (td_state_events (fold (\<lambda>r d. fst (insert_event (f r) d)) rs db))"
  by (induction rs arbitrary: db) (auto intro: insert_events_mono insert_event_has)

lemma offline_event_key:
  "event_key (offline_event t r) = (1, ml_machine_pk r, ot_occurred_at t, ot_event_id t)"
  by (simp add: offline_event_def event_key_def)

lemma run_transition_events:
  "td_state_events (fst (run_transition t (db, n))) =
    td_state_events (fold (\<lambda>r d. fst (insert_event (offline_event t r) d))
      (filter (transition_matches t) (td_machine_latest db)) db)"
  by (simp add: run_transition_def Let_def)

lemma run_transitions_mono:
  "has_key event_key k (td_state_events db) \<Longrightarrow>
    has_key event_key k (td_state_events (fst (fold run_transition ts (db, n))))"
proof (induction ts arbitrary: db n)
  case (Cons t ts)
  obtain db1 n1 where one: "run_transition t (db, n) = (db1, n1)" by (cases "run_transition t (db, n)")
  have "has_key event_key k (td_state_events db1)"
    using run_transition_events [of t db n] one insert_events_mono [OF Cons.prems] by simp
  then show ?case using Cons.IH one by simp
qed simp

lemma run_transitions_event:
  assumes "distinct (map ot_machine_pk ts)" "t \<in> set ts" "r \<in> set (td_machine_latest db)" "transition_matches t r"
  shows "has_key event_key (1, ml_machine_pk r, ot_occurred_at t, ot_event_id t)
    (td_state_events (fst (fold run_transition ts (db, n))))"
  using assms
proof (induction ts arbitrary: db n)
  case (Cons t' ts)
  obtain db1 n1 where one: "run_transition t' (db, n) = (db1, n1)" by (cases "run_transition t' (db, n)")
  show ?case
  proof (cases "t' = t")
    case True
    have "has_key event_key (event_key (offline_event t r)) (td_state_events db1)"
      using run_transition_events [of t' db n] one Cons.prems True
        insert_events_has [of r "filter (transition_matches t) (td_machine_latest db)" "offline_event t" db]
      by simp
    then show ?thesis using one run_transitions_mono [of _ db1 ts n1] by (simp add: offline_event_key)
  next
    case False
    then have "\<not> transition_matches t' r"
      using Cons.prems matches_pk [of t r] matches_pk [of t' r] by (auto simp: image_iff)
    then have "r \<in> set (td_machine_latest db1)"
      using run_transition_latest(1) [of t' db n] one Cons.prems(3) by (auto simp: set_update_where)
    then show ?thesis using Cons False one by auto
  qed
qed simp

lemma planned_pk:
  assumes "t \<in> set (concat (map (machine_transition pf latest now) machines))"
  shows "\<exists>row. latest (ot_machine_pk t) = Some row \<and> ot_received_at t = ml_received_at row"
  using assms by (auto simp: machine_transition_def split: option.splits) (metis option.sel)

section \<open>Properties\<close>

text \<open>
  Liveness marks exactly the machines whose limit has passed. When nothing is written in between, a
  run changes the rows of those candidate machines that are neither offline nor in maintenance and whose
  last report is at least \<open>offline_after_seconds\<close> old, each of them to offline, leaves every other row as
  it is, reports their number, and leaves for each an event at the moment when the limit passed.
\<close>

theorem liveness_exact:
  assumes "keyed ml_machine_pk (td_machine_latest db)" "distinct (map mm_pk machines)"
    and "reconcileMachineLiveness pf (\<lambda>d. d) db now machines = (db', result)"
  shows "td_machine_latest db' =
      map (\<lambda>r. if offline_due machines now r then r\<lparr>ml_state := Offline\<rparr> else r) (td_machine_latest db) \<and>
    lr_transitioned result = length (filter (offline_due machines now) (td_machine_latest db)) \<and>
    (\<forall>m \<in> set machines. \<forall>r \<in> set (td_machine_latest db). \<forall>t.
      mm_pk m = ml_machine_pk r \<and> offlineTransitionAt m r now = Some t \<longrightarrow>
      has_key event_key (1, ml_machine_pk r, t, offlineEventId pf (ml_machine_pk r) t) (td_state_events db'))"
proof -
  let ?ts = "concat (map (machine_transition pf (loadLatestRows db machines) now) machines)"
  have run: "fold run_transition ?ts (db, 0) = (db', lr_transitioned result)"
    using assms(3) by (auto simp: reconcileMachineLiveness_def persist_eq Let_def split: prod.splits)
  have dist: "distinct (map ot_machine_pk ?ts)" by (rule transitions_distinct [OF assms(2)])
  have rows: "td_machine_latest db' = update_where (\<lambda>r. \<exists>t \<in> set ?ts. transition_matches t r)
      (\<lambda>r. r\<lparr>ml_state := Offline\<rparr>) (td_machine_latest db)"
    and count: "lr_transitioned result = count_where (\<lambda>r. \<exists>t \<in> set ?ts. transition_matches t r) (td_machine_latest db)"
    using run_transitions_latest [OF dist, of db 0] run by simp_all
  have "has_key event_key (1, ml_machine_pk r, t, offlineEventId pf (ml_machine_pk r) t) (td_state_events db')"
    if mem: "m \<in> set machines" "r \<in> set (td_machine_latest db)" "mm_pk m = ml_machine_pk r"
      "offlineTransitionAt m r now = Some t" for m r t
  proof -
    have "loadLatestRows db machines (mm_pk m) = Some r"
      using mem row_of_keyed [OF assms(1) mem(2)] by (force simp: loadLatestRows_eq [OF assms(1)])
    then have "\<lparr>ot_event_id = offlineEventId pf (ml_machine_pk r) t, ot_machine_pk = ml_machine_pk r,
        ot_occurred_at = t, ot_previous_state = ml_state r, ot_received_at = ml_received_at r\<rparr> \<in> set ?ts"
      using mem by (auto simp: machine_transition_def intro!: bexI [of _ m])
    from run_transitions_event [OF dist this mem(2), of 0] show ?thesis
      using run by (simp add: transition_matches_def)
  qed
  moreover have "td_machine_latest db' =
      map (\<lambda>r. if offline_due machines now r then r\<lparr>ml_state := Offline\<rparr> else r) (td_machine_latest db)"
    unfolding rows update_where_def using planned_matches [OF assms(1)] by (intro map_cong) auto
  moreover have "lr_transitioned result = length (filter (offline_due machines now) (td_machine_latest db))"
    unfolding count count_where_def using planned_matches [OF assms(1)]
    by (intro arg_cong [where f = length] filter_cong) auto
  ultimately show ?thesis by blast
qed

definition sample_machine :: machine_control where
  "sample_machine = \<lparr>mm_pk = 5, mm_offline_after = 60, mm_maintenance_until = None\<rparr>"

definition sample_machine_db :: telemetry_db where
  "sample_machine_db = empty_db\<lparr>td_machine_latest :=
     [\<lparr>ml_machine_pk = 5, ml_workspace = 1, ml_received_at = 1000, ml_state = Healthy\<rparr>]\<rparr>"

theorem liveness_exact_witness:
  "td_machine_latest (fst (reconcileMachineLiveness sample_platform (\<lambda>d. d) sample_machine_db 61000 [sample_machine])) =
     [\<lparr>ml_machine_pk = 5, ml_workspace = 1, ml_received_at = 1000, ml_state = Offline\<rparr>]"
proof -
  obtain db' result where r: "reconcileMachineLiveness sample_platform (\<lambda>d. d) sample_machine_db 61000 [sample_machine] =
      (db', result)"
    by (cases "reconcileMachineLiveness sample_platform (\<lambda>d. d) sample_machine_db 61000 [sample_machine]")
  have "keyed ml_machine_pk (td_machine_latest sample_machine_db)" by (simp add: sample_machine_db_def)
  from liveness_exact [OF this _ r] show ?thesis unfolding r
    by (simp add: sample_machine_db_def sample_machine_def offline_due_def offlineTransitionAt_def)
qed

text \<open>
  C12. A report that arrives while liveness is being computed wins: if the row of a machine has another
  arrival time than the one that was read, the run leaves the row as it is, whatever else was written.
\<close>

theorem fresh_report_wins:
  assumes "keyed ml_machine_pk (td_machine_latest db)"
    and "r \<in> set (td_machine_latest (meanwhile db))"
    and "\<And>old. row_of ml_machine_pk (ml_machine_pk r) (td_machine_latest db) = Some old \<Longrightarrow>
      ml_received_at old \<noteq> ml_received_at r"
    and "distinct (map mm_pk machines)"
  shows "r \<in> set (td_machine_latest (fst (reconcileMachineLiveness pf meanwhile db now machines)))"
proof -
  let ?ts = "concat (map (machine_transition pf (loadLatestRows db machines) now) machines)"
  have "\<not> transition_matches t r" if "t \<in> set ?ts" for t
  proof
    assume m: "transition_matches t r"
    obtain row where "loadLatestRows db machines (ot_machine_pk t) = Some row" "ot_received_at t = ml_received_at row"
      using planned_pk [OF \<open>t \<in> set ?ts\<close>] by blast
    then have "row_of ml_machine_pk (ml_machine_pk r) (td_machine_latest db) = Some row"
      using matches_pk [OF m] by (simp add: loadLatestRows_eq [OF assms(1)] split: if_splits)
    then show False
      using assms(3) m \<open>ot_received_at t = ml_received_at row\<close> by (auto simp: transition_matches_def)
  qed
  then have "r \<in> set (td_machine_latest (fst (fold run_transition ?ts (meanwhile db, 0))))"
    using assms(2) run_transitions_latest [OF transitions_distinct [OF assms(4)], of pf _ now "meanwhile db" 0]
    by (auto simp: set_update_where)
  then show ?thesis
    by (auto simp: reconcileMachineLiveness_def persist_eq Let_def split: prod.splits)
qed

definition sample_report :: machine_latest_row where
  "sample_report = \<lparr>ml_machine_pk = 5, ml_workspace = 1, ml_received_at = 60500, ml_state = Healthy\<rparr>"

theorem fresh_report_wins_witness:
  "sample_report \<in> set (td_machine_latest (fst (reconcileMachineLiveness sample_platform
     (\<lambda>d. d\<lparr>td_machine_latest := [sample_report]\<rparr>) sample_machine_db 61000 [sample_machine])))"
  by (rule fresh_report_wins) (auto simp: sample_machine_db_def sample_report_def)

end
