(* ===== verification/Check_Executor.thy ===== *)
theory Check_Executor
  imports Check_Config
begin

text \<open>
  Running a check: the assertions on a response (\<open>workers/checks/src/assertions.ts\<close>), the HTTP executor
  with its redirect loop, the TCP executor and the retries (\<open>executor.ts\<close>). The network is a parameter:
  the n-th \<open>fetch\<close> of a run gives a response or rejects, a body is the list of the chunks that its
  reader gives, and the clock readings are given for each point where the code takes one. The loop
  also returns the requests that it sent, in order.
\<close>

section \<open>Assertions\<close>

text \<open>
  \<open>right[key]\<close> of an object that lacks the property: \<open>__proto__\<close> gives the object it inherits from, which
  has no properties of its own that \<open>Object.keys\<close> lists.
\<close>

definition inherited_field :: "(string \<times> json) list \<Rightarrow> string \<Rightarrow> json option" where
  "inherited_field props name =
     (case jfield props name of
        Some v \<Rightarrow> Some v
      | None \<Rightarrow> if name = ''__proto__'' then Some (JObj []) else None)"

fun structurallyEqual :: "json \<Rightarrow> json \<Rightarrow> bool"
  and every_equal :: "json list \<Rightarrow> json list \<Rightarrow> bool"
  and entries_equal :: "(string \<times> json) list \<Rightarrow> (string \<times> json) list \<Rightarrow> bool" where
  "structurallyEqual JNull r = (r = JNull)"
| "structurallyEqual (JBool b) r = (r = JBool b)"
| "structurallyEqual (JNum x) r = (r = JNum x)"
| "structurallyEqual (JStr s) r = (r = JStr s)"
| "structurallyEqual (JArr xs) r =
     (case r of JArr ys \<Rightarrow> length xs = length ys \<and> every_equal xs ys | _ \<Rightarrow> False)"
| "structurallyEqual (JObj ps) r =
     (case r of JObj qs \<Rightarrow> length ps = length qs \<and> entries_equal ps qs | _ \<Rightarrow> False)"
| "every_equal [] ys = True"
| "every_equal (x # xs) ys =
     (case ys of [] \<Rightarrow> False | y # ys' \<Rightarrow> structurallyEqual x y \<and> every_equal xs ys')"
| "entries_equal [] qs = True"
| "entries_equal ((key, v) # ps) qs =
     ((case inherited_field qs key of None \<Rightarrow> False | Some w \<Rightarrow> structurallyEqual v w) \<and>
      entries_equal ps qs)"

fun valueType :: "json option \<Rightarrow> string" where
  "valueType None = ''undefined''"
| "valueType (Some JNull) = ''null''"
| "valueType (Some (JArr _)) = ''array''"
| "valueType (Some (JBool _)) = ''boolean''"
| "valueType (Some (JNum _)) = ''number''"
| "valueType (Some (JStr _)) = ''string''"
| "valueType (Some (JObj _)) = ''object''"

text \<open>Equality with a candidate or an expectation that may be \<open>undefined\<close>.\<close>

fun equal_values :: "json option \<Rightarrow> json option \<Rightarrow> bool" where
  "equal_values None b = (b = None)"
| "equal_values (Some a) b = (case b of None \<Rightarrow> False | Some b' \<Rightarrow> structurallyEqual a b')"

definition contains_value :: "json option \<Rightarrow> json option \<Rightarrow> bool" where
  "contains_value candidate expected =
     (case (candidate, expected) of
        (Some (JStr s), Some (JStr p)) \<Rightarrow> includes_text s p
      | (Some (JArr items), _) \<Rightarrow> list_ex (\<lambda>item. equal_values (Some item) expected) items
      | _ \<Rightarrow> False)"

definition compare_numbers :: "(rat \<Rightarrow> rat \<Rightarrow> bool) \<Rightarrow> json option \<Rightarrow> json option \<Rightarrow> bool" where
  "compare_numbers rel candidate expected =
     (case (json_number candidate, json_number expected) of
        (Some x, Some y) \<Rightarrow> rel x y
      | _ \<Rightarrow> False)"

text \<open>The comparison of a candidate; none when the regular expression does not compile.\<close>

definition compare_value :: "web \<Rightarrow> json option \<Rightarrow> check_assertion \<Rightarrow> bool option" where
  "compare_value wb candidate assertion =
     (case as_operator assertion of
        OpExists \<Rightarrow> Some (candidate \<noteq> None)
      | OpEquals \<Rightarrow> Some (equal_values candidate (as_expected assertion))
      | OpContains \<Rightarrow> Some (contains_value candidate (as_expected assertion))
      | OpMatches \<Rightarrow>
          (case (json_text candidate, json_text (as_expected assertion)) of
             (Some s, Some r) \<Rightarrow> re2_find wb r s
           | _ \<Rightarrow> Some False)
      | OpType \<Rightarrow>
          Some (case json_text (as_expected assertion) of
                  None \<Rightarrow> False | Some t \<Rightarrow> valueType candidate = t)
      | OpGreaterThan \<Rightarrow> Some (compare_numbers (>) candidate (as_expected assertion))
      | OpLessThan \<Rightarrow> Some (compare_numbers (<) candidate (as_expected assertion)))"

definition bodyCandidates ::
  "web \<Rightarrow> check_assertion \<Rightarrow> string \<Rightarrow> json option \<Rightarrow> json option list" where
  "bodyCandidates wb assertion body parsedJson =
     (if as_source assertion = SBody then [Some (JStr body)]
      else case (as_source assertion, as_selector assertion, parsedJson) of
        (SJsonpath, Some path, Some v) \<Rightarrow>
          (case JSONPath wb path v of None \<Rightarrow> [] | Some selected \<Rightarrow> map Some selected)
      | _ \<Rightarrow> [])"

definition assertion_candidates ::
  "web \<Rightarrow> check_assertion \<Rightarrow> headers \<Rightarrow> string \<Rightarrow> json option \<Rightarrow> json option list attempt" where
  "assertion_candidates wb assertion headers body parsedJson =
     (if as_source assertion = SHeader then
        (case as_selector assertion of
           None \<Rightarrow> Inr [None]
         | Some name \<Rightarrow>
             bind_result (headers_get headers name) (\<lambda>v. Inr [map_option JStr v]))
      else Inr (bodyCandidates wb assertion body parsedJson))"

text \<open>\<open>candidates.some\<close> stops at the first success; a throw inside counts as a failure.\<close>

fun some_passes :: "web \<Rightarrow> check_assertion \<Rightarrow> json option list \<Rightarrow> bool" where
  "some_passes wb assertion [] = False"
| "some_passes wb assertion (c # cs) =
     (case compare_value wb c assertion of
        None \<Rightarrow> False
      | Some True \<Rightarrow> True
      | Some False \<Rightarrow> some_passes wb assertion cs)"

definition assertion_passed :: "web \<Rightarrow> check_assertion \<Rightarrow> json option list \<Rightarrow> bool" where
  "assertion_passed wb assertion candidates =
     (if as_operator assertion = OpExists
      then candidates \<noteq> [] \<and> list_ex (\<lambda>c. c \<noteq> None) candidates
      else some_passes wb assertion candidates)"

fun source_text :: "assertion_source \<Rightarrow> string" where
  "source_text SHeader = ''header''"
| "source_text SJsonpath = ''jsonpath''"
| "source_text SBody = ''body''"

fun operator_text :: "assertion_operator \<Rightarrow> string" where
  "operator_text OpExists = ''exists''"
| "operator_text OpEquals = ''equals''"
| "operator_text OpContains = ''contains''"
| "operator_text OpMatches = ''matches''"
| "operator_text OpType = ''type''"
| "operator_text OpGreaterThan = ''greater_than''"
| "operator_text OpLessThan = ''less_than''"

fun assertion_failures ::
  "web \<Rightarrow> headers \<Rightarrow> string \<Rightarrow> json option \<Rightarrow> check_assertion list \<Rightarrow> (health \<times> string) list attempt" where
  "assertion_failures wb headers body parsedJson [] = Inr []"
| "assertion_failures wb headers body parsedJson (a # rest) =
     bind_result (assertion_candidates wb a headers body parsedJson) (\<lambda>candidates.
     bind_result (assertion_failures wb headers body parsedJson rest) (\<lambda>failures.
       Inr (if assertion_passed wb a candidates then failures
            else (as_severity a, source_text (as_source a) @ '':'' @ operator_text (as_operator a))
              # failures)))"

record assertion_evaluation =
  ae_state :: health
  ae_failure_code :: "string option"
  ae_failure_summary :: "string option"

definition evaluateAssertions ::
  "platform \<Rightarrow> web \<Rightarrow> check_assertion list \<Rightarrow> headers \<Rightarrow> string \<Rightarrow> assertion_evaluation attempt" where
  "evaluateAssertions pf wb assertions headers body =
     (let parsedJson = (if list_ex (\<lambda>a. as_source a = SJsonpath) assertions
                        then JSON_parse pf body else None)
      in bind_result (assertion_failures wb headers body parsedJson assertions) (\<lambda>failures.
           if failures = [] then
             Inr \<lparr>ae_state = Healthy, ae_failure_code = None, ae_failure_summary = None\<rparr>
           else
             Inr \<lparr>ae_state = (if list_ex (\<lambda>f. fst f = Down) failures then Down else Degraded),
                  ae_failure_code = Some ''assertion_failed'',
                  ae_failure_summary = Some (join_text '','' (map snd (take 3 failures)))\<rparr>))"

section \<open>HTTP\<close>

definition outcome ::
  "health \<Rightarrow> int option \<Rightarrow> string option \<Rightarrow> string option \<Rightarrow> executed_check" where
  "outcome state latencyMs failureCode failureSummary =
     \<lparr>ex_state = state, ex_latency = map_option of_int latencyMs, ex_failure_code = failureCode,
      ex_failure_summary = failureSummary\<rparr>"

definition REDIRECT_SENSITIVE_HEADERS :: "string list" where
  "REDIRECT_SENSITIVE_HEADERS = [''authorization'', ''cookie'', ''proxy-authorization'', ''x-api-key'']"

definition redirectHeaders :: "headers \<Rightarrow> url \<Rightarrow> url \<Rightarrow> string list \<Rightarrow> headers" where
  "redirectHeaders configured source target sensitiveHeaders =
     (if u_origin source \<noteq> u_origin target
      then fold (\<lambda>name hs.
             if toLowerCase name \<in> set REDIRECT_SENSITIVE_HEADERS \<or>
                toLowerCase name \<in> set sensitiveHeaders
             then headers_delete name hs else hs)
           (map fst configured) configured
      else configured)"

definition assertPublicUrl :: "web \<Rightarrow> url \<Rightarrow> unit attempt" where
  "assertPublicUrl wb u =
     (if u_protocol u \<noteq> ''http:'' \<and> u_protocol u \<noteq> ''https:'' \<or>
         u_username u \<noteq> [] \<or> u_password u \<noteq> []
      then raise_error ''url_credentials_unsupported''
      else assertPublicHostname wb (u_hostname u))"

record sent_request =
  sq_target :: url
  sq_method :: string
  sq_headers :: headers
  sq_body :: "string option"

record http_response =
  rp_status :: int
  rp_headers :: headers
  rp_chunks :: "blob attempt list"
  rp_elapsed :: rat
  rp_elapsed_body :: rat

text \<open>
  \<open>readBoundedText\<close>: the loop over the reader. The end of the list is the reader's \<open>done\<close>; a response
  without a body has no chunks. The streaming decoder gives the decoding of all the bytes together.
\<close>

fun readBoundedText :: "blob attempt list \<Rightarrow> int \<Rightarrow> int \<Rightarrow> blob \<Rightarrow> string attempt" where
  "readBoundedText [] maximumBytes sz bytes = Inr (TextDecoder_decode bytes)"
| "readBoundedText (Inl e # rest) maximumBytes sz bytes = Inl e"
| "readBoundedText (Inr value # rest) maximumBytes sz bytes =
     (let sz' = sz + int (length value)
      in if sz' > maximumBytes then raise_error ''response_too_large''
         else readBoundedText rest maximumBytes sz' (bytes @ value))"

definition CONTENT_HEADERS :: "string list" where
  "CONTENT_HEADERS = [''content-type'', ''content-length'', ''content-encoding'',
     ''content-language'', ''content-location'']"

definition latency_of :: "rat \<Rightarrow> int" where
  "latency_of elapsed = max 0 (js_round elapsed)"

definition http_graded :: "http_request \<Rightarrow> int \<Rightarrow> assertion_evaluation \<Rightarrow> executed_check" where
  "http_graded config latency assertions =
     (if (case hr_down_after config of None \<Rightarrow> False | Some limit \<Rightarrow> latency \<ge> limit) then
        outcome Down (Some latency) (Some ''latency_threshold'')
          (Some (''latency>='' @ int_to_string (the (hr_down_after config)) @ ''ms''))
      else if ae_state assertions = Down then
        outcome Down (Some latency) (ae_failure_code assertions) (ae_failure_summary assertions)
      else if (case hr_degraded_after config of None \<Rightarrow> False | Some limit \<Rightarrow> latency \<ge> limit) then
        outcome Degraded (Some latency) (Some ''latency_threshold'')
          (Some (''latency>='' @ int_to_string (the (hr_degraded_after config)) @ ''ms''))
      else
        outcome (ae_state assertions) (Some latency) (ae_failure_code assertions)
          (ae_failure_summary assertions))"

definition http_evaluate ::
  "platform \<Rightarrow> web \<Rightarrow> http_request \<Rightarrow> http_response \<Rightarrow> executed_check attempt" where
  "http_evaluate pf wb config response =
     (if rp_status response \<notin> set (hr_expected_status config) then
        Inr (outcome Down (Some (latency_of (rp_elapsed response))) (Some ''unexpected_status'')
          (Some (''status:'' @ int_to_string (rp_status response))))
      else
        let needsBody = list_ex (\<lambda>a. as_source a = SBody \<or> as_source a = SJsonpath) (hr_assertions config) in
        bind_result (if needsBody
                     then readBoundedText (rp_chunks response) (hr_max_response_bytes config) 0 []
                     else Inr []) (\<lambda>responseBody.
        bind_result (evaluateAssertions pf wb (hr_assertions config) (rp_headers response) responseBody)
          (\<lambda>assertions.
            Inr (http_graded config (latency_of (rp_elapsed_body response)) assertions))))"

definition REDIRECT_STATUS :: "int list" where
  "REDIRECT_STATUS = [301, 302, 303, 307, 308]"

definition becomes_get :: "int \<Rightarrow> string \<Rightarrow> bool" where
  "becomes_get status method \<longleftrightarrow>
     (status = 301 \<or> status = 302) \<and> method = ''POST'' \<or> status = 303 \<and> method \<noteq> ''HEAD''"

text \<open>A redirect: the request that follows it, or the outcome that ends the check.\<close>

definition follow_redirect ::
  "web \<Rightarrow> http_request \<Rightarrow> int \<Rightarrow> sent_request \<Rightarrow> http_response \<Rightarrow> (executed_check + sent_request) attempt" where
  "follow_redirect wb config redirect request response =
     bind_result (headers_get (rp_headers response) ''location'') (\<lambda>location.
     case location of
       None \<Rightarrow> Inr (Inl (outcome Down None (Some ''redirect_limit'') None))
     | Some l \<Rightarrow>
         if redirect = hr_max_redirects config
         then Inr (Inl (outcome Down None (Some ''redirect_limit'') None))
         else
           case URL_resolve wb l (sq_target request) of
             None \<Rightarrow> Inl JsEngineError
           | Some nextTarget \<Rightarrow>
               bind_result (assertPublicUrl wb nextTarget) (\<lambda>_.
               if u_protocol (sq_target request) = ''https:'' \<and> u_protocol nextTarget \<noteq> ''https:''
               then Inr (Inl (outcome Down None (Some ''redirect_downgrade'') None))
               else
                 let got = becomes_get (rp_status response) (sq_method request);
                     method = (if got then ''GET'' else sq_method request);
                     body = (if got then None else sq_body request);
                     kept = (if got then fold headers_delete CONTENT_HEADERS (sq_headers request)
                             else sq_headers request)
                 in if body \<noteq> None \<and> body \<noteq> Some [] \<and> u_origin (sq_target request) \<noteq> u_origin nextTarget
                    then Inr (Inl (outcome Down None (Some ''redirect_body_blocked'') None))
                    else Inr (Inr
                      \<lparr>sq_target = nextTarget, sq_method = method,
                       sq_headers = redirectHeaders kept (sq_target request) nextTarget (hr_sensitive config),
                       sq_body = body\<rparr>)))"

function http_loop ::
  "platform \<Rightarrow> web \<Rightarrow> http_request \<Rightarrow> (int \<Rightarrow> sent_request \<Rightarrow> http_response attempt) \<Rightarrow> int \<Rightarrow>
   sent_request \<Rightarrow> sent_request list \<times> executed_check attempt" where
  "http_loop pf wb config fetch redirect request =
     (if hr_max_redirects config < redirect
      then ([], Inr (outcome Down None (Some ''internal'') None))
      else case assertPublicUrl wb (sq_target request) of
        Inl e \<Rightarrow> ([], Inl e)
      | Inr _ \<Rightarrow>
          (case fetch redirect request of
             Inl e \<Rightarrow> ([request], Inl e)
           | Inr response \<Rightarrow>
               if rp_status response \<in> set REDIRECT_STATUS then
                 (case follow_redirect wb config redirect request response of
                    Inl e \<Rightarrow> ([request], Inl e)
                  | Inr (Inl ended) \<Rightarrow> ([request], Inr ended)
                  | Inr (Inr following) \<Rightarrow>
                      (let (sent, result) = http_loop pf wb config fetch (redirect + 1) following
                       in (request # sent, result)))
               else ([request], http_evaluate pf wb config response)))"
  by pat_completeness auto
termination
  by (relation "measure (\<lambda>(pf, wb, config, fetch, redirect, request).
       nat (hr_max_redirects config + 1 - redirect))") auto

declare http_loop.simps [simp del]

definition http_failure :: "js_error \<Rightarrow> executed_check" where
  "http_failure e =
     (if e = JsError ''response_too_large'' then outcome Down None (Some ''response_too_large'') None
      else outcome Down None
        (Some (if e = JsDomException ''TimeoutError'' then ''timeout'' else ''network'')) None)"

text \<open>\<open>executeHttp\<close> with the requests it sent.\<close>

definition executeHttp ::
  "platform \<Rightarrow> web \<Rightarrow> (int \<Rightarrow> sent_request \<Rightarrow> http_response attempt) \<Rightarrow> http_request \<Rightarrow>
   sent_request list \<times> executed_check attempt" where
  "executeHttp pf wb fetch config =
     (case URL_parse wb (hr_url config) of
        None \<Rightarrow> ([], Inl JsEngineError)
      | Some target \<Rightarrow>
          (case new_headers [] (hr_headers config) of
             Inl e \<Rightarrow> ([], Inl e)
           | Inr headers \<Rightarrow>
               (let method = hr_method config;
                    body = (if method = ''GET'' \<or> method = ''HEAD'' then None else hr_body config);
                    (sent, result) = http_loop pf wb config fetch 0
                      \<lparr>sq_target = target, sq_method = method, sq_headers = headers, sq_body = body\<rparr>
                in (sent, case result of Inl e \<Rightarrow> Inr (http_failure e) | Inr r \<Rightarrow> Inr r))))"

section \<open>TCP\<close>

text \<open>
  A connection: whether it opens, whether the write succeeds, the chunks that the reader gives (the end
  of the list is the end of the stream) and the elapsed time at the end. A timeout of \<open>withTimeout\<close> is a
  rejection with \<open>TimeoutError\<close> at the same place.
\<close>

record connection =
  cn_opened :: "unit attempt"
  cn_written :: "unit attempt"
  cn_chunks :: "blob attempt list"
  cn_elapsed :: rat

fun read_prefix :: "blob attempt list \<Rightarrow> blob \<Rightarrow> nat \<Rightarrow> blob option attempt" where
  "read_prefix parts received wanted =
     (if wanted \<le> length received then Inr (Some received)
      else case parts of
        [] \<Rightarrow> Inr None
      | Inl e # rest \<Rightarrow> Inl e
      | Inr value # rest \<Rightarrow>
          read_prefix rest (received @ take (wanted - length received) value) wanted)"

declare read_prefix.simps [simp del]

definition exchangeTcpPayload :: "connection \<Rightarrow> tcp_request \<Rightarrow> bool attempt" where
  "exchangeTcpPayload socket config =
     bind_result (if tr_payload config = None then Inr () else cn_written socket) (\<lambda>_.
     case tr_prefix config of
       None \<Rightarrow> Inr True
     | Some expected \<Rightarrow>
         bind_result (read_prefix (cn_chunks socket) [] (length expected)) (\<lambda>received.
           Inr (case received of None \<Rightarrow> False | Some bytes \<Rightarrow> bytes = expected)))"

definition tcp_failure :: "js_error \<Rightarrow> executed_check" where
  "tcp_failure e =
     outcome Down None
       (Some (if e = JsDomException ''TimeoutError'' then ''timeout'' else ''network'')) None"

definition executeTcp :: "web \<Rightarrow> (tcp_request \<Rightarrow> connection) \<Rightarrow> tcp_request \<Rightarrow> executed_check attempt" where
  "executeTcp wb connect config =
     bind_result (assertPublicHostname wb (tr_hostname config)) (\<lambda>_.
     let socket = connect config;
         latency = Some (latency_of (cn_elapsed socket)) in
     Inr (case bind_result (cn_opened socket) (\<lambda>_. exchangeTcpPayload socket config) of
            Inl e \<Rightarrow> tcp_failure e
          | Inr ok \<Rightarrow> if ok then outcome Healthy latency None None
                     else outcome Down latency (Some ''prefix_mismatch'') None))"

section \<open>Retries\<close>

text \<open>\<open>execute\<close> may answer differently each time: its argument is the number of the attempt.\<close>

function retry_loop ::
  "(nat \<Rightarrow> executed_check attempt) \<Rightarrow> int \<Rightarrow> nat \<Rightarrow> executed_check \<Rightarrow> nat \<times> executed_check attempt" where
  "retry_loop execute retryCount retry result =
     (if ex_state result = Down \<and> int retry < retryCount then
        (case execute (retry + 1) of
           Inl e \<Rightarrow> (retry + 2, Inl e)
         | Inr next \<Rightarrow> retry_loop execute retryCount (retry + 1) next)
      else (retry + 1, Inr result))"
  by pat_completeness auto
termination
  by (relation "measure (\<lambda>(execute, retryCount, retry, result). nat (retryCount - int retry))") auto

declare retry_loop.simps [simp del]

text \<open>The number of times that \<open>execute\<close> was called, with the result.\<close>

definition executeWithRetries ::
  "(nat \<Rightarrow> executed_check attempt) \<Rightarrow> int \<Rightarrow> nat \<times> executed_check attempt" where
  "executeWithRetries execute retryCount =
     (case execute 0 of
        Inl e \<Rightarrow> (1, Inl e)
      | Inr result \<Rightarrow> retry_loop execute retryCount 0 result)"

end
