(* ===== verification/Executor_Correctness.thy ===== *)
theory Executor_Correctness
  imports Check_Executor Check_Correctness
begin

text \<open>
  Correctness of reading and running a check: what a parsed request satisfies, that credentials and
  bodies stay at the configured origin, that only public targets are contacted, that the redirect and
  retry loops stop within their bounds, and that a wrapped secret is read back.
\<close>

section \<open>Parsed requests\<close>

lemma is_integer_num_floor: "is_integer_num x \<Longrightarrow> of_int \<lfloor>x\<rfloor> = x"
  by (simp add: is_integer_num_def)

lemma boundedInteger_bounds:
  "boundedInteger v d lo hi = Inr n \<Longrightarrow> lo \<le> d \<Longrightarrow> d \<le> hi \<Longrightarrow> lo \<le> n \<and> n \<le> hi"
  by (auto simp: boundedInteger_def raise_error_def le_floor_iff floor_le_iff not_less
      split: option.splits json.splits if_splits)

lemma optional_bounded_bounds:
  "optional_bounded v = Inr r \<Longrightarrow> case r of None \<Rightarrow> True | Some n \<Rightarrow> 0 \<le> n \<and> n \<le> 30000"
  using boundedInteger_bounds [of v 0 0 30000]
  by (auto simp: optional_bounded_def bind_result_Inr_iff split: option.splits if_splits)

lemma set_text_prop_bound:
  assumes "\<forall>(n, v) \<in> set props. P n v" "P name value"
  shows "\<forall>(n, v) \<in> set (set_text_prop props name value). P n v"
  using assms by (auto simp: set_text_prop_def split: if_splits)

lemma length_set_text_prop: "length (set_text_prop props name value) \<le> length props + 1"
  by (simp add: set_text_prop_def)

lemma parse_headers_ok:
  assumes "parse_headers raws hs = Inr hs'"
    and "\<forall>(n, v) \<in> set hs. js_length n \<le> 128 \<and> toLowerCase n \<notin> set BLOCKED_HEADERS \<and> js_length v \<le> 1024"
  shows "(\<forall>(n, v) \<in> set hs'. js_length n \<le> 128 \<and> toLowerCase n \<notin> set BLOCKED_HEADERS \<and> js_length v \<le> 1024) \<and>
    length hs' \<le> length hs + length raws"
  using assms
proof (induction raws hs rule: parse_headers.induct)
  case (2 name j rest headers)
  then obtain s where s: "j = JStr s" "js_length name \<le> 128" "toLowerCase name \<notin> set BLOCKED_HEADERS"
      "js_length s \<le> 1024" "parse_headers rest (set_text_prop headers name s) = Inr hs'"
    by (auto simp: raise_error_def split: json.splits if_splits)
  have "\<forall>(n, v) \<in> set (set_text_prop headers name s).
      js_length n \<le> 128 \<and> toLowerCase n \<notin> set BLOCKED_HEADERS \<and> js_length v \<le> 1024"
    using 2 s by (intro set_text_prop_bound) auto
  moreover have "length (set_text_prop headers name s) \<le> length headers + 1"
    by (rule length_set_text_prop)
  ultimately show ?case using 2(1) [of s] s by fastforce
qed simp

lemma three_someE:
  assumes "(case (a, b, c) of (Some x, Some y, Some z) \<Rightarrow> f x y z | _ \<Rightarrow> Inl e) = Inr r"
  obtains x y z where "a = Some x" "b = Some y" "c = Some z" "f x y z = Inr r"
  using assms by (auto split: option.splits)

lemma parse_assertion_ok:
  assumes "parse_assertion wb raw = Inr a"
  shows "as_severity a \<in> {Degraded, Down} \<and>
    (as_source a = SHeader \<longrightarrow> as_selector a \<noteq> None) \<and>
    (as_source a = SJsonpath \<longrightarrow>
      (\<exists>s. as_selector a = Some s \<and> startsWith s ''$'' \<and> \<not> includes_text s ''(''))"
proof -
  obtain p where raw: "asRecord raw = Inr p" and rest:
    "(case (parse_source (jfield p ''source''), parse_operator (jfield p ''operator''),
            parse_severity (jfield p ''severity'')) of
        (Some source, Some operator, Some severity) \<Rightarrow>
          bind_result (selector_ok source (optional_text wb (jfield p ''selector''))) (\<lambda>_.
          bind_result (expected_ok operator (jfield p ''expected'')) (\<lambda>_.
            Inr \<lparr>as_source = source, as_operator = operator,
                 as_selector = optional_text wb (jfield p ''selector''),
                 as_expected = jfield p ''expected'', as_severity = severity\<rparr>))
      | _ \<Rightarrow> Inl (JsError ''invalid_assertion'')) = Inr a"
    using assms unfolding parse_assertion_def raise_error_def Let_def by (rule bind_result_InrE)
  from rest obtain src opr sev where
      p: "parse_severity (jfield p ''severity'') = Some sev"
      "selector_ok src (optional_text wb (jfield p ''selector'')) = Inr ()"
      "a = \<lparr>as_source = src, as_operator = opr, as_selector = optional_text wb (jfield p ''selector''),
         as_expected = jfield p ''expected'', as_severity = sev\<rparr>"
    by (rule three_someE) (auto simp: bind_result_Inr_iff)
  have "sev \<in> {Degraded, Down}"
    using p(1) by (cases "jfield p ''severity''" rule: parse_severity.cases) (auto split: if_splits)
  with p(2,3) show ?thesis
    by (auto simp: selector_ok_def bind_result_Inr_iff split: option.splits)
qed

definition http_request_ok :: "web \<Rightarrow> http_request \<Rightarrow> bool" where
  "http_request_ok wb r \<longleftrightarrow>
     (\<exists>u s. URL_parse wb s = Some u \<and> hr_url r = u_href u \<and>
        assertPublicUrl wb u = Inr ()) \<and>
     hr_method r \<in> set HTTP_METHODS \<and>
     length (hr_headers r) \<le> 32 \<and>
     (\<forall>(n, v) \<in> set (hr_headers r). toLowerCase n \<notin> set BLOCKED_HEADERS \<and> js_length v \<le> 1024) \<and>
     1 \<le> length (hr_expected_status r) \<and> length (hr_expected_status r) \<le> 20 \<and>
     (case hr_body r of None \<Rightarrow> True | Some b \<Rightarrow> length b \<le> 16384) \<and>
     (case (hr_degraded_after r, hr_down_after r) of
        (Some a, Some b) \<Rightarrow> 0 \<le> a \<and> a \<le> b \<and> b \<le> 30000 | _ \<Rightarrow> True) \<and>
     0 \<le> hr_max_redirects r \<and> hr_max_redirects r \<le> 3 \<and>
     1024 \<le> hr_max_response_bytes r \<and> hr_max_response_bytes r \<le> 262144 \<and>
     hr_tls_verify r \<and>
     length (hr_assertions r) \<le> 20 \<and> (\<forall>a \<in> set (hr_assertions r). as_severity a \<in> {Degraded, Down})"

lemma parse_url_ok:
  assumes "parse_url wb v = Inr u"
  shows "(\<exists>s. URL_parse wb s = Some u) \<and> assertPublicUrl wb u = Inr ()"
  using assms
  by (auto simp: parse_url_def raise_error_def bind_result_Inr_iff assertPublicUrl_def
      split: option.splits if_splits)

lemma parseAssertions_ok:
  assumes "parseAssertions wb v = Inr as"
  shows "length as \<le> 20 \<and> (\<forall>a \<in> set as. as_severity a \<in> {Degraded, Down})"
proof (cases v)
  case (Some j)
  then obtain raws where raws: "j = JArr raws" "length raws \<le> 20" "map_attempt (parse_assertion wb) raws = Inr as"
    using assms by (auto simp: parseAssertions_def raise_error_def split: json.splits if_splits)
  then have "as_severity a \<in> {Degraded, Down}" if "a \<in> set as" for a
    using map_attempt_in [OF raws(3) that] parse_assertion_ok by blast
  then show ?thesis using map_attempt_length [OF raws(3)] raws(2) by auto
qed (use assms in \<open>auto simp: parseAssertions_def\<close>)

lemma parse_thresholds_ok:
  assumes "parse_thresholds data = Inr (a, b)"
  shows "case (a, b) of (Some x, Some y) \<Rightarrow> 0 \<le> x \<and> x \<le> y \<and> y \<le> 30000 | _ \<Rightarrow> True"
proof -
  have "optional_bounded (jfield data ''degradedAfterMs'') = Inr a"
    "optional_bounded (jfield data ''downAfterMs'') = Inr b"
    "case (a, b) of (Some x, Some y) \<Rightarrow> x \<le> y | _ \<Rightarrow> True"
    using assms by (auto simp: parse_thresholds_def bind_result_Inr_iff)
  then show ?thesis
    using optional_bounded_bounds [of "jfield data ''degradedAfterMs''" a]
      optional_bounded_bounds [of "jfield data ''downAfterMs''" b]
    by (auto split: option.splits)
qed

lemma parsed_request_ok:
  assumes "parseHttpRequest pf wb text = Inr r"
  shows "http_request_ok wb r"
proof -
  obtain data u m raws hs a b n k as where p:
    "parse_url wb (jfield data ''url'') = Inr u"
    "parse_method wb (jfield data ''method'') = Inr m"
    "parse_status_list (jfield data ''expectedStatus'') \<noteq> []"
    "length (parse_status_list (jfield data ''expectedStatus'')) \<le> 20"
    "case optional_text wb (jfield data ''body'') of None \<Rightarrow> True | Some b \<Rightarrow> length (text_encode b) \<le> 16384"
    "length raws \<le> 32" "parse_headers raws [] = Inr hs"
    "parse_thresholds data = Inr (a, b)"
    "boundedInteger (jfield data ''maxRedirects'') 3 0 3 = Inr n"
    "boundedInteger (jfield data ''maxResponseBytes'') 65536 1024 262144 = Inr k"
    "parseAssertions wb (jfield data ''assertions'') = Inr as"
    "r = \<lparr>hr_url = u_href u, hr_method = m, hr_headers = hs, hr_sensitive = [],
       hr_body = optional_text wb (jfield data ''body''),
       hr_expected_status = parse_status_list (jfield data ''expectedStatus''),
       hr_degraded_after = a, hr_down_after = b, hr_max_redirects = n, hr_tls_verify = True,
       hr_max_response_bytes = k, hr_assertions = as\<rparr>"
    using assms by (auto simp: parseHttpRequest_def bind_result_Inr_iff Let_def)
  have "m \<in> set HTTP_METHODS"
    using p(2) by (auto simp: parse_method_def Let_def raise_error_def split: if_splits)
  moreover have "1 \<le> length (parse_status_list (jfield data ''expectedStatus''))"
    using p(3) by (cases "parse_status_list (jfield data ''expectedStatus'')") auto
  ultimately show ?thesis
    using parse_url_ok [OF p(1)] parse_headers_ok [OF p(7)] parse_thresholds_ok [OF p(8)]
      boundedInteger_bounds [OF p(9)] boundedInteger_bounds [OF p(10)] parseAssertions_ok [OF p(11)]
      p(4,5,6)
    unfolding http_request_ok_def p(12)
    by (auto simp: text_encode_def split: option.splits)
qed

section \<open>The redirect loop\<close>

text \<open>
  What ties a request to the one before it: the target is public, there is no downgrade, headers only
  disappear, and a change of origin leaves neither credentials nor a body.
\<close>

definition lower_names :: "headers \<Rightarrow> bool" where
  "lower_names hs \<longleftrightarrow> (\<forall>(n, v) \<in> set hs. toLowerCase n = n)"

definition sensitive_name :: "http_request \<Rightarrow> string \<Rightarrow> bool" where
  "sensitive_name config n \<longleftrightarrow> n \<in> set REDIRECT_SENSITIVE_HEADERS \<or> n \<in> set (hr_sensitive config)"

definition no_secrets :: "http_request \<Rightarrow> sent_request \<Rightarrow> bool" where
  "no_secrets config q \<longleftrightarrow>
     (\<forall>(n, v) \<in> set (sq_headers q). \<not> sensitive_name config n) \<and> (sq_body q = None \<or> sq_body q = Some [])"

lemma fold_headers_delete_subset:
  "set (fold (\<lambda>name hs. if P name then headers_delete name hs else hs) names hs) \<subseteq> set hs"
proof (induction names arbitrary: hs)
  case (Cons x xs)
  show ?case using Cons [of "headers_delete x hs"] Cons [of hs] by auto
qed simp

lemma fold_headers_delete_gone:
  "(n, v) \<in> set (fold (\<lambda>name hs. if P name then headers_delete name hs else hs) names hs) \<Longrightarrow>
    m \<in> set names \<Longrightarrow> P m \<Longrightarrow> n \<noteq> toLowerCase m"
proof (induction names arbitrary: hs)
  case (Cons x xs)
  show ?case
  proof (cases "m = x")
    case True
    have "(n, v) \<in> set (headers_delete x hs)"
      using Cons.prems fold_headers_delete_subset [of P xs "headers_delete x hs"] True by auto
    then show ?thesis using True by simp
  next
    case False
    then show ?thesis using Cons by auto
  qed
qed simp

lemma redirectHeaders_subset: "set (redirectHeaders hs a b sens) \<subseteq> set hs"
  using fold_headers_delete_subset
    [of "\<lambda>name. toLowerCase name \<in> set REDIRECT_SENSITIVE_HEADERS \<or> toLowerCase name \<in> set sens"]
  by (simp add: redirectHeaders_def)

lemma redirectHeaders_clean:
  assumes "lower_names hs" "u_origin a \<noteq> u_origin b" "(n, v) \<in> set (redirectHeaders hs a b (hr_sensitive c))"
  shows "\<not> sensitive_name c n"
proof
  assume sens: "sensitive_name c n"
  have mem: "(n, v) \<in> set hs" using assms(3) redirectHeaders_subset by blast
  then have low: "toLowerCase n = n" using assms(1) by (auto simp: lower_names_def)
  have "n \<in> set (map fst hs)" using mem by force
  then have "n \<noteq> toLowerCase n"
    using fold_headers_delete_gone [of n v "\<lambda>name. toLowerCase name \<in> set REDIRECT_SENSITIVE_HEADERS \<or>
        toLowerCase name \<in> set (hr_sensitive c)" "map fst hs" hs n] assms sens low
    by (simp add: redirectHeaders_def sensitive_name_def)
  with low show False by simp
qed

lemma lower_names_subset: "lower_names hs \<Longrightarrow> set hs' \<subseteq> set hs \<Longrightarrow> lower_names hs'"
  by (auto simp: lower_names_def)

lemma content_delete_subset: "set (fold headers_delete CONTENT_HEADERS hs) \<subseteq> set hs"
  using fold_headers_delete_subset [of "\<lambda>_. True" CONTENT_HEADERS hs] by simp

lemma lower_names_append_header:
  "lower_names hs \<Longrightarrow> toLowerCase n = n \<Longrightarrow> lower_names (append_header hs n v)"
  by (auto simp: lower_names_def append_header_def split: if_splits)

lemma new_headers_lower: "new_headers hs ps = Inr hs' \<Longrightarrow> lower_names hs \<Longrightarrow> lower_names hs'"
  by (induction hs ps rule: new_headers.induct)
    (auto simp: lower_names_append_header split: if_splits)

definition redirect_step :: "web \<Rightarrow> http_request \<Rightarrow> sent_request \<Rightarrow> sent_request \<Rightarrow> bool" where
  "redirect_step wb config q q' \<longleftrightarrow>
     assertPublicUrl wb (sq_target q') = Inr () \<and>
     (u_protocol (sq_target q) = ''https:'' \<longrightarrow> u_protocol (sq_target q') = ''https:'') \<and>
     set (sq_headers q') \<subseteq> set (sq_headers q) \<and>
     (sq_body q' = None \<or> sq_body q' = sq_body q) \<and>
     (u_origin (sq_target q) \<noteq> u_origin (sq_target q') \<longrightarrow> no_secrets config q')"

lemma followed_step:
  assumes "follow_redirect wb config redirect q response = Inr (Inr q')" "lower_names (sq_headers q)"
  shows "redirect_step wb config q q'"
proof -
  define got where "got = becomes_get (rp_status response) (sq_method q)"
  define kept where "kept = (if got then fold headers_delete CONTENT_HEADERS (sq_headers q) else sq_headers q)"
  obtain u where u: "assertPublicUrl wb u = Inr ()"
    "u_protocol (sq_target q) = ''https:'' \<longrightarrow> u_protocol u = ''https:''"
    "(if got then None else sq_body q) \<noteq> None \<and> (if got then None else sq_body q) \<noteq> Some [] \<longrightarrow>
      u_origin (sq_target q) = u_origin u"
    "q' = \<lparr>sq_target = u, sq_method = (if got then ''GET'' else sq_method q),
       sq_headers = redirectHeaders kept (sq_target q) u (hr_sensitive config),
       sq_body = (if got then None else sq_body q)\<rparr>"
    using assms(1)
    unfolding follow_redirect_def Let_def got_def [symmetric] kept_def [symmetric]
    by (auto elim!: bind_result_InrE split: option.split_asm if_split_asm)
  have sub: "set kept \<subseteq> set (sq_headers q)" using content_delete_subset by (auto simp: kept_def)
  then have low: "lower_names kept" using assms(2) lower_names_subset by blast
  show ?thesis
    using u redirectHeaders_subset [of kept "sq_target q" u "hr_sensitive config"] sub
      redirectHeaders_clean [OF low, of "sq_target q" u _ _ config]
    by (auto simp: redirect_step_def no_secrets_def)
qed

text \<open>The requests of a run form a chain of such steps.\<close>

fun redirect_chain :: "web \<Rightarrow> http_request \<Rightarrow> sent_request \<Rightarrow> sent_request list \<Rightarrow> bool" where
  "redirect_chain wb config q [] = True"
| "redirect_chain wb config q (q' # qs) = (redirect_step wb config q q' \<and> redirect_chain wb config q' qs)"

lemma http_loop_chain:
  assumes "http_loop pf wb config fetch redirect q = (sent, result)" "lower_names (sq_headers q)"
  shows "sent = [] \<or> (hd sent = q \<and> assertPublicUrl wb (sq_target q) = Inr () \<and>
    redirect_chain wb config q (tl sent))"
  using assms
proof (induction pf wb config fetch redirect q arbitrary: sent result rule: http_loop.induct)
  case (1 pf wb config fetch redirect q)
  show ?case
  proof (cases "\<exists>response q'. \<not> hr_max_redirects config < redirect \<and>
      assertPublicUrl wb (sq_target q) = Inr () \<and> fetch redirect q = Inr response \<and>
      rp_status response \<in> set REDIRECT_STATUS \<and>
      follow_redirect wb config redirect q response = Inr (Inr q')")
    case True
    then obtain response q' where c: "\<not> hr_max_redirects config < redirect"
      "assertPublicUrl wb (sq_target q) = Inr ()" "fetch redirect q = Inr response"
      "rp_status response \<in> set REDIRECT_STATUS"
      "follow_redirect wb config redirect q response = Inr (Inr q')" by blast
    obtain sent' result' where rec: "http_loop pf wb config fetch (redirect + 1) q' = (sent', result')"
      by (cases "http_loop pf wb config fetch (redirect + 1) q'")
    have step: "redirect_step wb config q q'" by (rule followed_step [OF c(5) "1.prems"(2)])
    then have low: "lower_names (sq_headers q')"
      using "1.prems"(2) lower_names_subset by (auto simp: redirect_step_def)
    have sent: "sent = q # sent'"
      using "1.prems"(1) c rec by (simp add: http_loop.simps [of pf wb config fetch redirect q])
    have "sent' = [] \<or> hd sent' = q' \<and> assertPublicUrl wb (sq_target q') = Inr () \<and>
        redirect_chain wb config q' (tl sent')"
      using "1.IH" [OF c(1,2,3,4,5) refl rec low] by (cases result') auto
    then show ?thesis using sent step c(2) by (cases sent') auto
  next
    case False
    then show ?thesis
      using "1.prems"(1) unfolding http_loop.simps [of pf wb config fetch redirect q]
      by (auto split: if_splits sum.splits)
  qed
qed

lemma step_contained:
  assumes "redirect_step wb c q q'" "no_secrets c q \<or> u_origin (sq_target q) = home"
  shows "no_secrets c q' \<or> u_origin (sq_target q') = home"
  using assms by (fastforce simp: redirect_step_def no_secrets_def)

lemma chain_contained:
  assumes "redirect_chain wb c q qs" "no_secrets c q \<or> u_origin (sq_target q) = home" "q' \<in> set qs"
  shows "no_secrets c q' \<or> u_origin (sq_target q') = home"
  using assms
proof (induction qs arbitrary: q)
  case (Cons x xs)
  then have "no_secrets c x \<or> u_origin (sq_target x) = home"
    using step_contained by (metis redirect_chain.simps(2))
  then show ?case using Cons by auto
qed simp

lemma chain_public:
  assumes "redirect_chain wb c q qs" "q' \<in> set qs"
  shows "assertPublicUrl wb (sq_target q') = Inr () \<and>
    (u_protocol (sq_target q) = ''https:'' \<longrightarrow> u_protocol (sq_target q') = ''https:'')"
  using assms by (induction qs arbitrary: q) (auto simp: redirect_step_def)

lemma http_loop_length:
  "length (fst (http_loop pf wb config fetch redirect q)) \<le> nat (hr_max_redirects config + 1 - redirect)"
proof (induction pf wb config fetch redirect q rule: http_loop.induct)
  case (1 pf wb config fetch redirect q)
  show ?case
    unfolding http_loop.simps [of pf wb config fetch redirect q]
    using 1 by (auto split: sum.splits prod.splits) (fastforce simp: nat_diff_distrib')+
qed

lemma http_graded_ok:
  "ae_state a \<in> {Healthy, Degraded, Down} \<Longrightarrow> executed_ok (http_graded config l a)"
  by (auto simp: http_graded_def executed_ok_def outcome_def)

lemma evaluate_state_ok:
  "evaluateAssertions pf wb as hs body = Inr a \<Longrightarrow> ae_state a \<in> {Healthy, Degraded, Down}"
  by (auto simp: evaluateAssertions_def Let_def bind_result_Inr_iff split: if_splits)

lemma http_evaluate_ok: "http_evaluate pf wb config response = Inr r \<Longrightarrow> executed_ok r"
  by (auto simp: http_evaluate_def Let_def bind_result_Inr_iff split: if_splits
      dest!: evaluate_state_ok intro!: http_graded_ok) (auto simp: executed_ok_def outcome_def)

lemma follow_ended_ok:
  "follow_redirect wb config redirect q response = Inr (Inl r) \<Longrightarrow> executed_ok r"
  by (auto simp: follow_redirect_def Let_def executed_ok_def outcome_def elim!: bind_result_InrE
      split: option.split_asm if_split_asm)

lemma http_loop_ok: "snd (http_loop pf wb config fetch redirect q) = Inr r \<Longrightarrow> executed_ok r"
proof (induction pf wb config fetch redirect q rule: http_loop.induct)
  case (1 pf wb config fetch redirect q)
  then show ?case
    unfolding http_loop.simps [of pf wb config fetch redirect q]
    by (auto split: sum.split_asm prod.split_asm if_split_asm dest: http_evaluate_ok follow_ended_ok)
      (auto simp: executed_ok_def outcome_def)
qed

lemma assertPublicUrl_iff:
  "assertPublicUrl wb u = Inr x \<longleftrightarrow> u_protocol u \<in> {''http:'', ''https:''} \<and> u_username u = [] \<and>
    u_password u = [] \<and> \<not> blocked_hostname wb (u_hostname u)"
  by (auto simp: assertPublicUrl_def assertPublicHostname_def raise_error_def)

lemma http_failure_ok: "executed_ok (http_failure e)"
  by (simp add: http_failure_def executed_ok_def outcome_def)

section \<open>Retries\<close>

lemma retry_loop_spec:
  assumes "execute retry = Inr result" "\<And>j. j < retry \<Longrightarrow> \<exists>x. execute j = Inr x \<and> ex_state x = Down"
    and "int retry \<le> max 0 retryCount"
  shows "\<exists>k. retry_loop execute retryCount retry result = (k + 1, execute k) \<and> int k \<le> max 0 retryCount \<and>
    (\<forall>j < k. \<exists>x. execute j = Inr x \<and> ex_state x = Down) \<and>
    (int k = max 0 retryCount \<or> \<not> (\<exists>x. execute k = Inr x \<and> ex_state x = Down))"
  using assms
proof (induction execute retryCount retry result rule: retry_loop.induct)
  case (1 execute retryCount retry result)
  show ?case
  proof (cases "ex_state result = Down \<and> int retry < retryCount")
    case True
    have prev: "\<exists>x. execute j = Inr x \<and> ex_state x = Down" if "j < retry + 1" for j
      using that True "1.prems" by (cases "j = retry") auto
    show ?thesis
    proof (cases "execute (retry + 1)")
      case (Inl e)
      then show ?thesis
        using True prev
        by (intro exI [of _ "retry + 1"])
          (auto simp: retry_loop.simps [of execute retryCount retry result])
    next
      case (Inr again)
      then show ?thesis
        using "1.IH" [OF True Inr Inr prev] True
        by (simp add: retry_loop.simps [of execute retryCount retry result])
    qed
  next
    case False
    then show ?thesis
      using "1.prems"
      by (intro exI [of _ retry])
        (auto simp: retry_loop.simps [of execute retryCount retry result])
  qed
qed

section \<open>Secrets\<close>

lemma wrapped_envelope:
  assumes "wrapCheckSecret gcm nonce plaintext keyHex ws sid = Inr w"
  obtains aad key where "associatedData ws sid = Inr aad" "decodeHexKey keyHex = Inr key"
    "w = \<lparr>ws_ciphertext = gcm_encrypt gcm key nonce aad (text_encode plaintext), ws_nonce = nonce\<rparr>"
    "plaintext \<noteq> []" "length plaintext \<le> 16384"
  using assms by (auto simp: wrapCheckSecret_def Let_def bind_result_Inr_iff text_encode_def)

section \<open>Properties\<close>

text \<open>
  C8. Credentials and request bodies stay at the configured origin. Whatever the servers answer and
  wherever redirects lead, a request that \<open>executeHttp\<close> sends to another origin than the configured
  one carries no authorization, cookie, proxy-authorization or x-api-key header, no header that came
  from a secret, and no body; this also holds for a request that comes after a detour.
\<close>

theorem http_secrets_stay_at_origin:
  assumes "q \<in> set (fst (executeHttp pf wb fetch config))"
    and "URL_parse wb (hr_url config) = Some home"
    and "u_origin (sq_target q) \<noteq> u_origin home"
  shows "(\<forall>(n, v) \<in> set (sq_headers q).
      n \<notin> set REDIRECT_SENSITIVE_HEADERS \<and> n \<notin> set (hr_sensitive config)) \<and>
    (sq_body q = None \<or> sq_body q = Some [])"
proof -
  obtain hs body sent result where run:
    "new_headers [] (hr_headers config) = Inr hs" "fst (executeHttp pf wb fetch config) = sent"
    "http_loop pf wb config fetch 0
      \<lparr>sq_target = home, sq_method = hr_method config, sq_headers = hs, sq_body = body\<rparr> = (sent, result)"
    using assms(1,2) by (auto simp: executeHttp_def Let_def split: sum.splits prod.splits)
  have "lower_names hs" using new_headers_lower [OF run(1)] by (simp add: lower_names_def)
  then have "sent = [] \<or> hd sent = \<lparr>sq_target = home, sq_method = hr_method config, sq_headers = hs,
      sq_body = body\<rparr> \<and> redirect_chain wb config (hd sent) (tl sent)"
    using http_loop_chain [OF run(3)] by auto
  then have "no_secrets config q \<or> u_origin (sq_target q) = u_origin home"
    using assms(1) run(2) chain_contained [of wb config "hd sent" "tl sent" "u_origin home" q]
    by (cases sent) auto
  then show ?thesis using assms(3) by (auto simp: no_secrets_def sensitive_name_def)
qed

definition sample_url :: "string \<Rightarrow> url" where
  "sample_url host = \<lparr>u_href = ''https://'' @ host @ ''/'', u_protocol = ''https:'', u_username = [],
     u_password = [], u_hostname = host, u_origin = ''https://'' @ host\<rparr>"

definition sample_web :: web where
  "sample_web = \<lparr>URL_parse = (\<lambda>s. Some (sample_url s)), URL_resolve = (\<lambda>s u. Some (sample_url s)),
     number_text = (\<lambda>_. ''0''), address_range = (\<lambda>_. None), re2_find = (\<lambda>_ _. Some False),
     JSONPath = (\<lambda>_ _. Some [])\<rparr>"

definition sample_request :: http_request where
  "sample_request = \<lparr>hr_url = ''a.example'', hr_method = ''GET'',
     hr_headers = [(''Authorization'', ''t''), (''Accept'', ''x'')], hr_sensitive = [''x-token''],
     hr_body = None, hr_expected_status = [200], hr_degraded_after = None, hr_down_after = None,
     hr_max_redirects = 3, hr_tls_verify = True, hr_max_response_bytes = 65536, hr_assertions = []\<rparr>"

definition sample_fetch :: "int \<Rightarrow> sent_request \<Rightarrow> http_response attempt" where
  "sample_fetch n q = Inr \<lparr>rp_status = (if n = 0 then 302 else 200),
     rp_headers = [(''location'', ''b.example'')], rp_chunks = [], rp_elapsed = 5, rp_elapsed_body = 6\<rparr>"

definition sample_second :: sent_request where
  "sample_second = \<lparr>sq_target = sample_url ''b.example'', sq_method = ''GET'',
     sq_headers = [(''accept'', ''x'')], sq_body = None\<rparr>"

lemma sample_run:
  "executeHttp sample_platform sample_web sample_fetch sample_request =
    ([\<lparr>sq_target = sample_url ''a.example'', sq_method = ''GET'',
       sq_headers = [(''authorization'', ''t''), (''accept'', ''x'')], sq_body = None\<rparr>, sample_second],
     Inr (outcome Healthy (Some 6) None None))"
  by code_simp

theorem http_secrets_stay_at_origin_witness:
  "sample_second \<in> set (fst (executeHttp sample_platform sample_web sample_fetch sample_request)) \<and>
   list_all (\<lambda>(n, v). n \<notin> set REDIRECT_SENSITIVE_HEADERS) (sq_headers sample_second)"
proof -
  have mem: "sample_second \<in> set (fst (executeHttp sample_platform sample_web sample_fetch sample_request))"
    by (simp add: sample_run)
  show ?thesis
    using mem http_secrets_stay_at_origin [OF mem, of "sample_url ''a.example''"]
    by (auto simp: sample_web_def sample_request_def sample_second_def sample_url_def list_all_iff)
qed

text \<open>
  C9. The HTTP executor contacts public targets only and always stops: each request goes to an http or
  https URL without credentials whose host is not blocked, no request that follows an https request is
  plain http, at most \<open>maxRedirects + 1\<close> requests are sent, and the run ends with a healthy, degraded or
  down result unless the URL or the configured headers are rejected before the first request.
\<close>

theorem http_targets_public:
  assumes "0 \<le> hr_max_redirects config"
  shows "(\<forall>q \<in> set (fst (executeHttp pf wb fetch config)).
      u_protocol (sq_target q) \<in> {''http:'', ''https:''} \<and>
      u_username (sq_target q) = [] \<and> u_password (sq_target q) = [] \<and>
      \<not> blocked_hostname wb (u_hostname (sq_target q))) \<and>
    (\<forall>home q. URL_parse wb (hr_url config) = Some home \<and> u_protocol home = ''https:'' \<and>
      q \<in> set (fst (executeHttp pf wb fetch config)) \<longrightarrow> u_protocol (sq_target q) = ''https:'') \<and>
    int (length (fst (executeHttp pf wb fetch config))) \<le> hr_max_redirects config + 1 \<and>
    (case snd (executeHttp pf wb fetch config) of
       Inr r \<Rightarrow> executed_ok r
     | Inl e \<Rightarrow> URL_parse wb (hr_url config) = None \<or> new_headers [] (hr_headers config) = Inl e)"
proof (cases "\<exists>home hs. URL_parse wb (hr_url config) = Some home \<and>
    new_headers [] (hr_headers config) = Inr hs")
  case False
  then show ?thesis using assms by (auto simp: executeHttp_def split: option.splits sum.splits)
next
  case True
  then obtain home hs where start: "URL_parse wb (hr_url config) = Some home"
    "new_headers [] (hr_headers config) = Inr hs" by blast
  define first where "first = \<lparr>sq_target = home, sq_method = hr_method config, sq_headers = hs,
    sq_body = (if hr_method config = ''GET'' \<or> hr_method config = ''HEAD'' then None else hr_body config)\<rparr>"
  obtain sent result where loop: "http_loop pf wb config fetch 0 first = (sent, result)"
    by (cases "http_loop pf wb config fetch 0 first")
  have run: "executeHttp pf wb fetch config =
      (sent, case result of Inl e \<Rightarrow> Inr (http_failure e) | Inr r \<Rightarrow> Inr r)"
    using start loop by (simp add: executeHttp_def first_def Let_def)
  have "lower_names (sq_headers first)"
    using new_headers_lower [OF start(2)] by (simp add: lower_names_def first_def)
  note chain = http_loop_chain [OF loop this]
  have each: "assertPublicUrl wb (sq_target q) = Inr () \<and>
      (u_protocol home = ''https:'' \<longrightarrow> u_protocol (sq_target q) = ''https:'')" if "q \<in> set sent" for q
    using that chain chain_public [of wb config first "tl sent" q]
    by (cases sent) (auto simp: first_def)
  have "int (length sent) \<le> hr_max_redirects config + 1"
    using http_loop_length [of pf wb config fetch 0 first] loop assms by simp
  moreover have "executed_ok r" if "snd (executeHttp pf wb fetch config) = Inr r" for r
    using that loop http_loop_ok [of pf wb config fetch 0 first]
    by (auto simp: run http_failure_ok split: sum.splits)
  ultimately show ?thesis
    using each start(1) by (auto simp: assertPublicUrl_iff run split: sum.splits)
qed

theorem http_targets_public_witness:
  "length (fst (executeHttp sample_platform sample_web sample_fetch sample_request)) \<le> 4"
  using http_targets_public [of sample_request sample_platform sample_web sample_fetch]
  by (simp add: sample_request_def)

text \<open>
  Retrying stops at the first attempt that is not down: \<open>executeWithRetries\<close> makes some number
  \<open>k + 1\<close> of attempts, at most \<open>retryCount + 1\<close>, all before the last were down, it returns what the last
  one gave, and the last one is down only when the retries are used up.
\<close>

theorem executeWithRetries_spec:
  "\<exists>k. executeWithRetries execute retryCount = (k + 1, execute k) \<and> int k \<le> max 0 retryCount \<and>
    (\<forall>j < k. \<exists>x. execute j = Inr x \<and> ex_state x = Down) \<and>
    (int k = max 0 retryCount \<or> \<not> (\<exists>x. execute k = Inr x \<and> ex_state x = Down))"
proof (cases "execute 0")
  case (Inl e)
  then show ?thesis by (intro exI [of _ 0]) (auto simp: executeWithRetries_def)
next
  case (Inr r)
  then show ?thesis using retry_loop_spec [of execute 0 r retryCount] by (simp add: executeWithRetries_def)
qed

definition flaky :: "nat \<Rightarrow> executed_check attempt" where
  "flaky n = Inr (if n = 0 then sample_failure else sample_success)"

theorem executeWithRetries_spec_witness:
  "executeWithRetries flaky 3 = (2, Inr sample_success)"
proof -
  obtain k where k: "executeWithRetries flaky 3 = (k + 1, flaky k)"
    "\<forall>j < k. \<exists>x. flaky j = Inr x \<and> ex_state x = Down"
    "int k = max 0 3 \<or> \<not> (\<exists>x. flaky k = Inr x \<and> ex_state x = Down)"
    using executeWithRetries_spec [of flaky 3] by blast
  have "\<not> 1 < k" using k(2) by (auto simp: flaky_def sample_success_def)
  moreover have "k \<noteq> 0"
  proof
    assume "k = 0"
    with k(3) show False by (simp add: flaky_def sample_failure_def)
  qed
  ultimately have "k = 1" by linarith
  then show ?thesis using k(1) by (simp add: flaky_def)
qed

text \<open>
  A request that \<open>parseHttpRequest\<close> accepts satisfies every limit of the executor, whatever the
  stored JSON holds: a public http or https URL without credentials, a known method, at most 32 headers
  and none that is reserved, between one and twenty expected statuses, a body of at most 16384 bytes,
  latency thresholds in order, at most three redirects, a response bound between 1 KiB and 256 KiB,
  certificate checks on, and at most twenty assertions of severity degraded or down.
\<close>

theorem parsed_http_request_limits:
  assumes "parseHttpRequest pf wb text = Inr r"
  shows "http_request_ok wb r"
  using assms by (rule parsed_request_ok)

definition sample_http_platform :: platform where
  "sample_http_platform = sample_platform\<lparr>JSON_parse := (\<lambda>_. Some (JObj
     [(''url'', JStr ''a.example''), (''maxRedirects'', JNum 2), (''degradedAfterMs'', JNum 500)]))\<rparr>"

theorem parsed_http_request_limits_witness:
  "\<exists>r. parseHttpRequest sample_http_platform sample_web ''{}'' = Inr r \<and> hr_max_redirects r = 2 \<and>
     http_request_ok sample_web r"
proof -
  have "case parseHttpRequest sample_http_platform sample_web ''{}'' of
      Inl _ \<Rightarrow> False | Inr r \<Rightarrow> hr_max_redirects r = 2"
    by code_simp
  then show ?thesis using parsed_http_request_limits by (auto split: sum.splits)
qed

text \<open>
  A secret that was wrapped is read back: when AES-GCM decrypts what it encrypted under the same
  key, nonce and associated data and adds a tag of sixteen bytes, \<open>unwrapCheckSecret\<close> with the same key,
  workspace and secret id returns the text that \<open>wrapCheckSecret\<close> took, for every well-formed UTF-8 text
  that does not begin with a byte order mark.
\<close>

theorem check_secret_roundtrip:
  assumes "wrapCheckSecret gcm nonce plaintext keyHex workspaceId secretId = Inr w"
    and "\<And>key aad bytes. gcm_decrypt gcm key nonce aad (gcm_encrypt gcm key nonce aad bytes) = Some bytes"
    and "\<And>key aad bytes. length (gcm_encrypt gcm key nonce aad bytes) = length bytes + 16"
    and "length nonce = 12" "utf8_valid (text_encode plaintext)"
    and "take 3 (text_encode plaintext) \<noteq> [239, 187, 191]"
  shows "unwrapCheckSecret gcm w keyHex workspaceId secretId = Inr plaintext"
  using assms(1)
proof (rule wrapped_envelope)
  fix aad key
  assume e: "associatedData workspaceId secretId = Inr aad" "decodeHexKey keyHex = Inr key"
    "w = \<lparr>ws_ciphertext = gcm_encrypt gcm key nonce aad (text_encode plaintext), ws_nonce = nonce\<rparr>"
    "length plaintext \<le> 16384"
  have "length (text_encode plaintext) \<le> 16384" using e(4) by (simp add: text_encode_def)
  moreover have "utf8_decode_fatal (text_encode plaintext) = Some plaintext"
    using assms(5,6) by (simp add: utf8_decode_fatal_def strip_bom_def)
  ultimately show ?thesis
    using assms(2-4) e by (simp add: unwrapCheckSecret_def)
qed

definition sample_gcm :: aes_gcm where
  "sample_gcm = \<lparr>gcm_encrypt = (\<lambda>key iv aad b. b @ replicate 16 0),
     gcm_decrypt = (\<lambda>key iv aad b. Some (take (length b - 16) b))\<rparr>"

theorem check_secret_roundtrip_witness:
  "\<exists>w. wrapCheckSecret sample_gcm (replicate 12 7) ''abc'' (replicate 64 CHR ''a'') ''w'' ''s'' = Inr w \<and>
     unwrapCheckSecret sample_gcm w (replicate 64 CHR ''a'') ''w'' ''s'' = Inr ''abc''"
proof -
  have "\<not> isl (wrapCheckSecret sample_gcm (replicate 12 7) ''abc'' (replicate 64 CHR ''a'') ''w'' ''s'')"
    by code_simp
  then obtain w where w:
    "wrapCheckSecret sample_gcm (replicate 12 7) ''abc'' (replicate 64 CHR ''a'') ''w'' ''s'' = Inr w"
    by (cases "wrapCheckSecret sample_gcm (replicate 12 7) ''abc'' (replicate 64 CHR ''a'') ''w'' ''s''") auto
  have "unwrapCheckSecret sample_gcm w (replicate 64 CHR ''a'') ''w'' ''s'' = Inr ''abc''"
    by (rule check_secret_roundtrip [OF w])
      (simp_all add: sample_gcm_def text_encode_def)
  with w show ?thesis by blast
qed

text \<open>An assertion \<open>equals\<close> may hold between different values: an inherited property is compared as if it were its own.\<close>

lemma structurallyEqual_inherits:
  "structurallyEqual (JObj [(''__proto__'', JObj [])]) (JObj [(''a'', JNum 1)])"
  by (simp add: inherited_field_def jfield_def)

end
