(* ===== verification/Scheduling.thy ===== *)
theory Scheduling
  imports Lease State_Sync Machine_Liveness Executor_Correctness
begin

text \<open>
  The scheduled run of the checks worker: the slot arithmetic (\<open>workers/checks/src/schedule.ts\<close>), the
  lease and the cursors (\<open>scheduler-state.ts\<close>), and the selection, the claim, the execution and the
  persistence of the due checks (\<open>index.ts\<close>).
\<close>

section \<open>Slots\<close>

definition dueSlot :: "millis \<Rightarrow> int \<Rightarrow> int \<Rightarrow> int" where
  "dueSlot nowMs intervalSeconds phaseSeconds =
     (let nowSeconds = nowMs div 1000; shifted = nowSeconds - phaseSeconds
      in shifted div intervalSeconds * intervalSeconds + phaseSeconds)"

definition isDue :: "millis \<Rightarrow> int \<Rightarrow> int \<Rightarrow> int \<Rightarrow> bool" where
  "isDue nowMs intervalSeconds phaseSeconds lastClaimedSlot \<longleftrightarrow>
     dueSlot nowMs intervalSeconds phaseSeconds > lastClaimedSlot"

section \<open>The lease of the scheduler\<close>

definition SCHEDULER_LEASE_MS :: millis where
  "SCHEDULER_LEASE_MS = 15 * 60000"

record scheduler_lease =
  checkCursor :: pk
  machineCursor :: pk
  leaseUntil :: millis

definition acquireSchedulerLease :: "control_db \<Rightarrow> millis \<Rightarrow> control_db \<times> scheduler_lease option" where
  "acquireSchedulerLease db now =
     (let until = now + SCHEDULER_LEASE_MS;
          (rows, returned) = upsert_returning sc_singleton
            \<lparr>sc_singleton = 1, sc_check_cursor = 0, sc_machine_cursor = 0, sc_lease_until = until,
             sc_updated_at = now\<rparr>
            (\<lambda>old. sc_lease_until old \<le> now)
            (\<lambda>old. old\<lparr>sc_lease_until := until, sc_updated_at := now\<rparr>) (cd_scheduler db)
      in (db\<lparr>cd_scheduler := rows\<rparr>,
          map_option (\<lambda>r. \<lparr>checkCursor = sc_check_cursor r, machineCursor = sc_machine_cursor r,
            leaseUntil = sc_lease_until r\<rparr>) returned))"

text \<open>The argument holds the two cursors to store.\<close>

definition releaseSchedulerLease ::
  "control_db \<Rightarrow> scheduler_lease \<Rightarrow> pk \<times> pk \<Rightarrow> millis \<Rightarrow> control_db \<times> bool" where
  "releaseSchedulerLease db lease cursors now =
     (let p = (\<lambda>r. sc_singleton r = 1 \<and> sc_lease_until r = leaseUntil lease)
      in (db\<lparr>cd_scheduler := update_where p (\<lambda>r. r\<lparr>sc_check_cursor := fst cursors,
               sc_machine_cursor := snd cursors, sc_lease_until := 0, sc_updated_at := now\<rparr>)
             (cd_scheduler db)\<rparr>,
          count_where p (cd_scheduler db) = 1))"

section \<open>Batches of checks\<close>

definition MAX_CANDIDATES :: nat where "MAX_CANDIDATES = 500"
definition MAX_CONCURRENCY :: nat where "MAX_CONCURRENCY = 5"
definition RUN_WORK_BUDGET_MS :: millis where "RUN_WORK_BUDGET_MS = 12 * 60000"
definition RETRY_DELAY_MS :: millis where "RETRY_DELAY_MS = 100"

record batch_progress =
  bp_processed :: nat
  bp_failed :: nat
  bp_last_cursor :: "pk option"
  bp_deadline_reached :: bool

text \<open>
  The checks of a batch run concurrently; the model takes them in order, with the state they leave.
  \<open>process\<close> returns whether the promise was rejected, \<open>canStart\<close> knows the number of the batch because it
  reads the clock.
\<close>

fun process_batch :: "('c \<Rightarrow> 's \<Rightarrow> 's \<times> bool) \<Rightarrow> 'c list \<Rightarrow> 's \<Rightarrow> 's \<times> nat" where
  "process_batch process [] s = (s, 0)"
| "process_batch process (c # cs) s =
     (let (s1, rejected) = process c s; (s2, n) = process_batch process cs s1
      in (s2, n + (if rejected then 1 else 0)))"

fun batch_loop ::
  "(nat \<Rightarrow> 'c list \<Rightarrow> bool) \<Rightarrow> ('c \<Rightarrow> 's \<Rightarrow> 's \<times> bool) \<Rightarrow> ('c \<Rightarrow> pk) \<Rightarrow> nat \<Rightarrow> 'c list list \<Rightarrow>
   batch_progress \<Rightarrow> 's \<Rightarrow> 's \<times> batch_progress" where
  "batch_loop canStart process telemetry_pk i [] progress s = (s, progress)"
| "batch_loop canStart process telemetry_pk i (batch # rest) progress s =
     (if \<not> canStart i batch then (s, progress\<lparr>bp_deadline_reached := True\<rparr>)
      else let (s', failures) = process_batch process batch s
           in batch_loop canStart process telemetry_pk (i + 1) rest
                (progress\<lparr>bp_processed := bp_processed progress + length batch,
                          bp_failed := bp_failed progress + failures,
                          bp_last_cursor := (if batch = [] then bp_last_cursor progress
                                             else Some (telemetry_pk (last batch)))\<rparr>) s')"

definition processCheckBatches ::
  "(nat \<Rightarrow> 'c list \<Rightarrow> bool) \<Rightarrow> ('c \<Rightarrow> 's \<Rightarrow> 's \<times> bool) \<Rightarrow> ('c \<Rightarrow> pk) \<Rightarrow> 'c list \<Rightarrow> 's \<Rightarrow>
   's \<times> batch_progress" where
  "processCheckBatches canStart process telemetry_pk candidates s =
     batch_loop canStart process telemetry_pk 0 (chunks MAX_CONCURRENCY candidates)
       \<lparr>bp_processed = 0, bp_failed = 0, bp_last_cursor = None, bp_deadline_reached = False\<rparr> s"

section \<open>Processing a check\<close>

definition ALLOWED_SUMMARIES :: "string list" where
  "ALLOWED_SUMMARIES = [''missing_check_secret'', ''invalid_check_secret_wrapping_key'',
     ''invalid_check_secret_envelope'', ''secret_payload_too_large'', ''invalid_check_config'',
     ''invalid_url'', ''invalid_protocol'', ''blocked_target'', ''tls_verification_disabled'',
     ''server_name_unsupported'']"

fun configurationFailureSummary :: "js_error \<Rightarrow> string" where
  "configurationFailureSummary (JsDomException name) =
     (if name = ''OperationError'' then ''secret_decryption_failed'' else ''configuration_rejected'')"
| "configurationFailureSummary (JsError message) =
     (if message \<in> set ALLOWED_SUMMARIES then message else ''configuration_rejected'')"
| "configurationFailureSummary JsEngineError = ''configuration_rejected''"

text \<open>
  The environment of a run: the platform, the key of the secrets, the network as each attempt of a check
  meets it, the clock, what other requests do to the configuration between the claim and the second
  look at it, and whether the telemetry database rejects a call.
\<close>

record check_env =
  en_platform :: platform
  en_web :: web
  en_gcm :: aes_gcm
  en_key :: string
  en_fetch :: "check_config \<Rightarrow> nat \<Rightarrow> int \<Rightarrow> sent_request \<Rightarrow> http_response attempt"
  en_connect :: "check_config \<Rightarrow> nat \<Rightarrow> tcp_request \<Rightarrow> connection"
  en_now :: "check_config \<Rightarrow> millis"
  en_meanwhile :: "check_config \<Rightarrow> control_db \<Rightarrow> control_db"
  en_rejects :: "check_config \<Rightarrow> string option"

definition check_attempt :: "check_env \<Rightarrow> check_config \<Rightarrow> resolved_secrets \<Rightarrow> nat \<Rightarrow> executed_check attempt" where
  "check_attempt env row secrets n =
     (case cc_kind row of
        Http \<Rightarrow> bind_result (parseHttpRequest (en_platform env) (en_web env) (cc_request_json row)) (\<lambda>r.
          snd (executeHttp (en_platform env) (en_web env) (en_fetch env row n) (applyHttpSecrets r secrets)))
      | Tcp \<Rightarrow> bind_result (parseTcpRequest (en_platform env) (en_web env) (cc_request_json row)) (\<lambda>r.
          executeTcp (en_web env) (en_connect env row n) (applyTcpSecrets r secrets)))"

definition configuration_failure :: "js_error \<Rightarrow> executed_check" where
  "configuration_failure cause =
     \<lparr>ex_state = Down, ex_latency = None, ex_failure_code = Some ''invalid_config'',
      ex_failure_summary = Some (configurationFailureSummary cause)\<rparr>"

definition execute_check :: "check_env \<Rightarrow> control_db \<Rightarrow> check_config \<Rightarrow> executed_check" where
  "execute_check env control row =
     (case bind_result
             (resolveCheckSecrets (en_platform env) (en_web env) (en_gcm env) (cd_secrets control) row (en_key env))
             (\<lambda>secrets. snd (executeWithRetries (check_attempt env row secrets) (cc_retry_count row))) of
        Inl cause \<Rightarrow> configuration_failure cause
      | Inr result \<Rightarrow> result)"

definition claimable :: "check_config \<Rightarrow> int \<Rightarrow> check_row \<Rightarrow> bool" where
  "claimable row slot r \<longleftrightarrow> cf_id r = cc_id row \<and> cf_pk r = cc_pk row \<and> cf_revision r = cc_revision row \<and>
     cf_enabled r = 1 \<and> cf_executor r = ''cloudflare'' \<and> cf_last_claimed_slot r < slot"

definition claim_slot :: "check_config \<Rightarrow> int \<Rightarrow> control_db \<Rightarrow> control_db \<times> nat" where
  "claim_slot row slot control =
     (control\<lparr>cd_checks := update_where (claimable row slot) (\<lambda>r. r\<lparr>cf_last_claimed_slot := slot\<rparr>)
        (cd_checks control)\<rparr>,
      count_where (claimable row slot) (cd_checks control))"

definition holds_claim :: "check_config \<Rightarrow> int \<Rightarrow> control_db \<Rightarrow> bool" where
  "holds_claim row slot control \<longleftrightarrow>
     list_ex (\<lambda>r. cf_id r = cc_id row \<and> cf_pk r = cc_pk row \<and> cf_revision r = cc_revision row \<and>
       cf_enabled r = 1 \<and> cf_executor r = ''cloudflare'' \<and> cf_last_claimed_slot r = slot) (cd_checks control)"

definition restore_claim :: "check_config \<Rightarrow> int \<Rightarrow> control_db \<Rightarrow> control_db" where
  "restore_claim row slot control =
     control\<lparr>cd_checks := update_where
       (\<lambda>r. cf_id r = cc_id row \<and> cf_pk r = cc_pk row \<and> cf_revision r = cc_revision row \<and>
            cf_last_claimed_slot r = slot)
       (\<lambda>r. r\<lparr>cf_last_claimed_slot := cc_last_claimed_slot row\<rparr>) (cd_checks control)\<rparr>"

text \<open>The two databases after the check, with whether the promise was rejected.\<close>

definition processCheck ::
  "check_env \<Rightarrow> millis \<Rightarrow> check_config \<Rightarrow> control_db \<times> telemetry_db \<Rightarrow> (control_db \<times> telemetry_db) \<times> bool" where
  "processCheck env nowMs row = (\<lambda>(control, db).
     let slotSeconds = dueSlot nowMs (cc_interval row) (cc_phase row);
         (claimed, changes) = claim_slot row slotSeconds control
     in if changes \<noteq> 1 then ((claimed, db), False)
        else
          let result = execute_check env claimed row;
              later = en_meanwhile env row claimed
          in if \<not> holds_claim row slotSeconds later then ((later, db), False)
             else case (case en_rejects env row of
                     Some e \<Rightarrow> Inl e
                   | None \<Rightarrow> persistCheckResult (en_platform env) db row (slotSeconds * 1000) (en_now env row) result) of
                 Inr db' \<Rightarrow> ((later, db'), False)
               | Inl e \<Rightarrow> ((restore_claim row slotSeconds later, db), True))"

section \<open>Selecting the due checks\<close>

text \<open>\<open>CAST(a / b AS INTEGER)\<close> of SQL, which truncates towards zero.\<close>

definition sql_div :: "int \<Rightarrow> int \<Rightarrow> int" where
  "sql_div a b = (if 0 \<le> a then a div b else - ((- a) div b))"

definition sql_due :: "int \<Rightarrow> check_row \<Rightarrow> bool" where
  "sql_due scheduledSeconds c \<longleftrightarrow>
     sql_div (scheduledSeconds - cf_phase c) (cf_interval c) * cf_interval c + cf_phase c
       > cf_last_claimed_slot c"

definition config_of :: "check_row \<Rightarrow> workspace_row \<Rightarrow> service_row \<Rightarrow> check_config" where
  "config_of c w s =
     \<lparr>cc_id = cf_id c, cc_pk = cf_pk c, cc_workspace_pk = wk_pk w, cc_workspace_id = cf_workspace_id c,
      cc_service_pk = sv_pk s, cc_maintenance_until = sv_maintenance_until s, cc_revision = cf_revision c,
      cc_kind = (if cf_kind c = ''http'' then Http else Tcp), cc_interval = cf_interval c,
      cc_phase = cf_phase c, cc_timeout_ms = cf_timeout_ms c, cc_retry_count = cf_retry_count c,
      cc_critical = cf_critical c, cc_request_json = cf_request_json c,
      cc_secret_refs_json = cf_secret_refs_json c,
      cc_failure_confirmations = cf_failure_confirmations c,
      cc_recovery_confirmations = cf_recovery_confirmations c,
      cc_last_claimed_slot = cf_last_claimed_slot c\<rparr>"

definition check_join :: "control_db \<Rightarrow> check_row \<Rightarrow> check_config list" where
  "check_join control c =
     concat (map (\<lambda>w. map (\<lambda>s. config_of c w s)
         (filter (\<lambda>s. sv_id s = cf_service_id c \<and> sv_deleted_at s = None) (cd_services control)))
       (filter (\<lambda>w. wk_id w = cf_workspace_id c \<and> wk_deleted_at w = None) (cd_workspaces control)))"

definition loadDueChecks :: "control_db \<Rightarrow> millis \<Rightarrow> pk \<Rightarrow> check_config list" where
  "loadDueChecks control scheduledAt cursor =
     (let scheduledSeconds = scheduledAt div 1000
      in take MAX_CANDIDATES (sort_key (\<lambda>r. round_robin cursor (cc_pk r))
           (concat (map (check_join control)
             (filter (\<lambda>c. cf_enabled c = 1 \<and> cf_executor c = ''cloudflare'' \<and>
                cf_kind c \<in> {''http'', ''tcp''} \<and> sql_due scheduledSeconds c) (cd_checks control))))))"

section \<open>A scheduled run\<close>

definition maximum_duration :: "check_config list \<Rightarrow> millis" where
  "maximum_duration batch =
     fold (\<lambda>row maximum. max maximum
       (cc_timeout_ms row * (cc_retry_count row + 1) + cc_retry_count row * RETRY_DELAY_MS)) batch 0"

text \<open>\<open>clock i\<close> is the reading of \<open>Date.now()\<close> before batch \<open>i\<close>.\<close>

definition runChecks ::
  "check_env \<Rightarrow> (nat \<Rightarrow> millis) \<Rightarrow> millis \<Rightarrow> check_config list \<Rightarrow> millis \<Rightarrow> control_db \<times> telemetry_db \<Rightarrow>
   (control_db \<times> telemetry_db) \<times> batch_progress" where
  "runChecks env clock scheduledAt candidates deadline =
     processCheckBatches (\<lambda>i batch. clock i + maximum_duration batch \<le> deadline)
       (processCheck env scheduledAt) cc_pk candidates"

text \<open>
  The clock readings of a run, and the failures of the databases that make a call reject: loading the
  candidates, liveness, the check execution and the state synchronisation as a whole.
\<close>

record run_env =
  rn_acquired :: millis
  rn_started :: millis
  rn_synced :: millis
  rn_released :: millis
  rn_clock :: "nat \<Rightarrow> millis"
  rn_load_error :: "string option"
  rn_liveness_error :: bool
  rn_sync_error :: bool
  rn_ingest :: "telemetry_db \<Rightarrow> telemetry_db"

definition run_liveness ::
  "check_env \<Rightarrow> run_env \<Rightarrow> millis \<Rightarrow> machine_control list \<Rightarrow> telemetry_db \<Rightarrow> telemetry_db \<times> bool" where
  "run_liveness env run scheduledAt machines db =
     (if rn_liveness_error run then (db, True)
      else (fst (reconcileMachineLiveness (en_platform env) (rn_ingest run) db scheduledAt machines), False))"

definition run_sync :: "check_env \<Rightarrow> run_env \<Rightarrow> control_db \<times> telemetry_db \<Rightarrow> (control_db \<times> telemetry_db) \<times> bool" where
  "run_sync env run = (\<lambda>(control, db).
     if rn_sync_error run then ((control, db), True)
     else case reconcileServiceStateSyncJobs (en_platform env) control db (rn_synced run) (int JOB_BATCH) of
            Inl e \<Rightarrow> ((control, db), True)
          | Inr (control', db', processed, progress) \<Rightarrow> ((control', db'), sp_failed progress > 0))"

definition failed_tasks :: "bool \<Rightarrow> batch_progress \<Rightarrow> bool \<Rightarrow> nat" where
  "failed_tasks liveness checks sync =
     (if liveness then 1 else 0) + (if bp_failed checks > 0 then 1 else 0) + (if sync then 1 else 0)"

text \<open>The body of the \<open>try\<close> block: the databases, the two cursors and the error it ends with.\<close>

definition scheduled_body ::
  "check_env \<Rightarrow> run_env \<Rightarrow> millis \<Rightarrow> scheduler_lease \<Rightarrow> control_db \<times> telemetry_db \<Rightarrow>
   (control_db \<times> telemetry_db) \<times> (pk \<times> pk) \<times> string option" where
  "scheduled_body env run scheduledAt lease = (\<lambda>(control, db).
     case rn_load_error run of
       Some e \<Rightarrow> ((control, db), (checkCursor lease, machineCursor lease), Some e)
     | None \<Rightarrow>
         (let checks = loadDueChecks control scheduledAt (checkCursor lease);
              machines = loadMachineLivenessCandidates control (machineCursor lease);
              machineCur = (if machines = [] then machineCursor lease else mm_pk (last machines));
              (db1, livenessFailed) = run_liveness env run scheduledAt machines db;
              (dbs, progress) = runChecks env (rn_clock run) scheduledAt checks
                 (rn_started run + RUN_WORK_BUDGET_MS) (control, db1);
              checkCur = (case bp_last_cursor progress of None \<Rightarrow> checkCursor lease | Some c \<Rightarrow> c);
              (dbs', syncFailed) = run_sync env run dbs;
              n = failed_tasks livenessFailed progress syncFailed
          in (dbs', (checkCur, machineCur),
              if n > 0 then Some (''scheduled_tasks_failed:'' @ nat_to_string n) else None)))"

definition runScheduled ::
  "check_env \<Rightarrow> run_env \<Rightarrow> millis \<Rightarrow> control_db \<times> telemetry_db \<Rightarrow> (control_db \<times> telemetry_db) \<times> string option" where
  "runScheduled env run scheduledAt = (\<lambda>(control, db).
     case acquireSchedulerLease control (rn_acquired run) of
       (control1, None) \<Rightarrow> ((control1, db), None)
     | (control1, Some lease) \<Rightarrow>
         (let ((control2, db2), cursors, err) = scheduled_body env run scheduledAt lease (control1, db);
              (control3, released) = releaseSchedulerLease control2 lease cursors (rn_released run)
          in ((control3, db2), err)))"

end
