(* ===== verification/Check_Claims.thy ===== *)
theory Check_Claims
  imports Scheduling
begin

text \<open>
  The claims of slots as a state machine (\<open>processCheck\<close> and \<open>loadDueChecks\<close> of \<open>workers/checks/src/index.ts\<close>): runs load
  the due checks, each handler claims the slot of its check, executes it, looks whether it still holds the
  claim, and persists the result or, when that fails, gives the claim back. Runs, handlers and users who edit
  the configuration interleave at their statements.
\<close>

section \<open>The world of the claims\<close>

datatype claim_event =
    Claimed string int
  | Persisted string int
  | Restored string int

text \<open>
  \<open>cw_loaded\<close> are the loaded rows whose handler has not claimed yet, with the time their run was scheduled for;
  \<open>cw_running\<close> are the handlers that were granted a claim, with the slot and whether they have seen that
  they still hold it. The log has the newest event first. \<open>cw_overlap\<close> records that a run has loaded its
  rows before an earlier one was over, which only happens when a lease of the scheduler runs out.
\<close>

record claim_world =
  cw_control :: control_db
  cw_loaded :: "(check_config \<times> millis) list"
  cw_running :: "(check_config \<times> int \<times> bool) list"
  cw_log :: "claim_event list"
  cw_overlap :: bool

definition slot_of :: "check_config \<Rightarrow> millis \<Rightarrow> int" where
  "slot_of row now = dueSlot now (cc_interval row) (cc_phase row)"

text \<open>Whether the update of \<open>restore_claim\<close> finds its row.\<close>

definition restorable :: "check_config \<Rightarrow> int \<Rightarrow> control_db \<Rightarrow> bool" where
  "restorable row slot control \<longleftrightarrow>
     list_ex (\<lambda>r. cf_id r = cc_id row \<and> cf_pk r = cc_pk row \<and> cf_revision r = cc_revision row \<and>
       cf_last_claimed_slot r = slot) (cd_checks control)"

definition claimed_ids :: "claim_event list \<Rightarrow> string set" where
  "claimed_ids evs = {i. \<exists>s. Claimed i s \<in> set evs}"

text \<open>
  What others do to the configuration: any change that keeps the keys. No statement of the program besides the claim and
  its restoration writes \<open>last_claimed_slot\<close> of a check, and a new check gets a random identifier.
\<close>

definition configuration_change :: "claim_event list \<Rightarrow> control_db \<Rightarrow> control_db \<Rightarrow> bool" where
  "configuration_change evs control control' \<longleftrightarrow> wf_control control' \<and>
     (\<forall>r' \<in> set (cd_checks control').
        (\<exists>r \<in> set (cd_checks control). cf_id r = cf_id r' \<and> cf_last_claimed_slot r = cf_last_claimed_slot r') \<or>
        cf_id r' \<notin> claimed_ids evs)"

inductive claim_step :: "claim_world \<Rightarrow> claim_world \<Rightarrow> bool" where
  loaded: "claim_step w (w\<lparr>
      cw_loaded := map (\<lambda>row. (row, now)) (loadDueChecks (cw_control w) now cursor) @ cw_loaded w,
      cw_overlap := cw_overlap w \<or> cw_loaded w \<noteq> [] \<or> cw_running w \<noteq> []\<rparr>)"
| claimed: "(row, now) \<in> set (cw_loaded w) \<Longrightarrow> claim_slot row (slot_of row now) (cw_control w) = (control', 1) \<Longrightarrow>
    claim_step w (w\<lparr>cw_control := control', cw_loaded := remove1 (row, now) (cw_loaded w),
      cw_running := (row, slot_of row now, False) # cw_running w,
      cw_log := Claimed (cc_id row) (slot_of row now) # cw_log w\<rparr>)"
| refused: "(row, now) \<in> set (cw_loaded w) \<Longrightarrow> claim_slot row (slot_of row now) (cw_control w) = (control', n) \<Longrightarrow>
    n \<noteq> 1 \<Longrightarrow> claim_step w (w\<lparr>cw_control := control', cw_loaded := remove1 (row, now) (cw_loaded w)\<rparr>)"
| deferred: "claim_step w (w\<lparr>cw_loaded := remove1 c (cw_loaded w)\<rparr>)"
| confirmed: "(row, slot, False) \<in> set (cw_running w) \<Longrightarrow> holds_claim row slot (cw_control w) \<Longrightarrow>
    claim_step w (w\<lparr>cw_running := (row, slot, True) # remove1 (row, slot, False) (cw_running w)\<rparr>)"
| lost: "(row, slot, False) \<in> set (cw_running w) \<Longrightarrow> \<not> holds_claim row slot (cw_control w) \<Longrightarrow>
    claim_step w (w\<lparr>cw_running := remove1 (row, slot, False) (cw_running w)\<rparr>)"
| persisted: "(row, slot, True) \<in> set (cw_running w) \<Longrightarrow>
    claim_step w (w\<lparr>cw_running := remove1 (row, slot, True) (cw_running w),
      cw_log := Persisted (cc_id row) slot # cw_log w\<rparr>)"
| restored: "(row, slot, seen) \<in> set (cw_running w) \<Longrightarrow> restorable row slot (cw_control w) \<Longrightarrow>
    claim_step w (w\<lparr>cw_control := restore_claim row slot (cw_control w),
      cw_running := remove1 (row, slot, seen) (cw_running w), cw_log := Restored (cc_id row) slot # cw_log w\<rparr>)"
| not_restored: "(row, slot, seen) \<in> set (cw_running w) \<Longrightarrow> \<not> restorable row slot (cw_control w) \<Longrightarrow>
    claim_step w (w\<lparr>cw_control := restore_claim row slot (cw_control w),
      cw_running := remove1 (row, slot, seen) (cw_running w)\<rparr>)"
| died: "claim_step w (w\<lparr>cw_running := remove1 c (cw_running w)\<rparr>)"
| changed: "configuration_change (cw_log w) (cw_control w) control' \<Longrightarrow> claim_step w (w\<lparr>cw_control := control'\<rparr>)"

definition claim_start :: "control_db \<Rightarrow> claim_world" where
  "claim_start control = \<lparr>cw_control = control, cw_loaded = [], cw_running = [], cw_log = [], cw_overlap = False\<rparr>"

inductive claim_reach :: "control_db \<Rightarrow> claim_world \<Rightarrow> bool" for control where
  start: "claim_reach control (claim_start control)"
| step: "claim_reach control w \<Longrightarrow> claim_step w w' \<Longrightarrow> claim_reach control w'"

section \<open>Readings of the log\<close>

text \<open>The claims that were granted and not given back, and the results that were persisted.\<close>

fun open_claims :: "claim_event list \<Rightarrow> (string \<times> int) list" where
  "open_claims [] = []"
| "open_claims (Claimed i s # evs) = (i, s) # open_claims evs"
| "open_claims (Persisted i s # evs) = open_claims evs"
| "open_claims (Restored i s # evs) = filter (\<lambda>c. c \<noteq> (i, s)) (open_claims evs)"

fun persisted_slots :: "claim_event list \<Rightarrow> (string \<times> int) list" where
  "persisted_slots [] = []"
| "persisted_slots (Persisted i s # evs) = (i, s) # persisted_slots evs"
| "persisted_slots (Claimed i s # evs) = persisted_slots evs"
| "persisted_slots (Restored i s # evs) = persisted_slots evs"

text \<open>The claims of a check since its last restoration.\<close>

fun standing :: "string \<Rightarrow> claim_event list \<Rightarrow> int set" where
  "standing i [] = {}"
| "standing i (Claimed j s # evs) = (if j = i then insert s (standing i evs) else standing i evs)"
| "standing i (Persisted j s # evs) = standing i evs"
| "standing i (Restored j s # evs) = (if j = i then {} else standing i evs)"

lemma standing_claimed: "standing i evs \<noteq> {} \<Longrightarrow> i \<in> claimed_ids evs"
  by (induction i evs rule: standing.induct) (auto simp: claimed_ids_def split: if_splits)

lemma open_claimed: "(i, s) \<in> set (open_claims evs) \<Longrightarrow> i \<in> claimed_ids evs"
  by (induction evs rule: open_claims.induct) (auto simp: claimed_ids_def)

lemma standing_since:
  "(\<forall>t. Restored i t \<notin> set newer) \<Longrightarrow> s \<in> standing i (newer @ Claimed i s # older)"
proof (induction newer)
  case (Cons e newer)
  then show ?case by (cases e) auto
qed simp

section \<open>The updates\<close>

lemma claim_slot_checks:
  "claim_slot row slot control = (control', n) \<Longrightarrow>
    cd_checks control' = update_where (claimable row slot) (\<lambda>r. r\<lparr>cf_last_claimed_slot := slot\<rparr>) (cd_checks control) \<and>
    n = count_where (claimable row slot) (cd_checks control)"
  by (auto simp: claim_slot_def)

lemma claim_wf: "claim_slot row slot control = (control', n) \<Longrightarrow> wf_control control \<Longrightarrow> wf_control control'"
  by (auto simp: claim_slot_def wf_control_def keyed_update_where)

lemma restore_wf: "wf_control control \<Longrightarrow> wf_control (restore_claim row slot control)"
  by (auto simp: restore_claim_def wf_control_def keyed_update_where)

lemma wf_checks: "wf_control control \<Longrightarrow> keyed cf_id (cd_checks control)"
  by (simp add: wf_control_def)

lemma claimed_check_row:
  assumes "claim_slot row slot control = (control', 1)" "wf_control control"
  obtains r where "r \<in> set (cd_checks control)" "cf_id r = cc_id row" "cf_last_claimed_slot r < slot"
    "\<forall>x \<in> set (cd_checks control'). if cf_id x = cc_id row then cf_last_claimed_slot x = slot
      else x \<in> set (cd_checks control)"
proof -
  have t: "cd_checks control' = update_where (claimable row slot) (\<lambda>r. r\<lparr>cf_last_claimed_slot := slot\<rparr>) (cd_checks control)"
    and "count_where (claimable row slot) (cd_checks control) = 1"
    using claim_slot_checks [OF assms(1)] by auto
  then obtain r where r: "r \<in> set (cd_checks control)" "claimable row slot r"
    using count_where_zero [of "claimable row slot" "cd_checks control"] by auto
  show thesis
  proof (rule that [OF r(1)])
    show "cf_id r = cc_id row" "cf_last_claimed_slot r < slot" using r(2) by (simp_all add: claimable_def)
  next
    show "\<forall>x \<in> set (cd_checks control'). if cf_id x = cc_id row then cf_last_claimed_slot x = slot
      else x \<in> set (cd_checks control)"
    proof
      fix x assume "x \<in> set (cd_checks control')"
      then obtain y where y: "y \<in> set (cd_checks control)"
        "x = (if claimable row slot y then y\<lparr>cf_last_claimed_slot := slot\<rparr> else y)"
        unfolding t by (rule in_update_where)
      show "if cf_id x = cc_id row then cf_last_claimed_slot x = slot else x \<in> set (cd_checks control)"
      proof (cases "cf_id y = cc_id row")
        case True
        then have "y = r"
          using keyed_unique [OF wf_checks [OF assms(2)] y(1) r(1)] r(2) by (simp add: claimable_def)
        then show ?thesis using y(2) r(2) by (simp add: claimable_def)
      next
        case False
        then show ?thesis using y by (auto simp: claimable_def)
      qed
    qed
  qed
qed

lemma refused_row:
  assumes "claim_slot row slot control = (control', n)" "x \<in> set (cd_checks control')"
  shows "\<exists>r \<in> set (cd_checks control). cf_id r = cf_id x \<and> cf_last_claimed_slot r \<le> cf_last_claimed_slot x"
proof -
  have t: "cd_checks control' = update_where (claimable row slot) (\<lambda>r. r\<lparr>cf_last_claimed_slot := slot\<rparr>) (cd_checks control)"
    using claim_slot_checks [OF assms(1)] by auto
  show ?thesis using assms(2) unfolding t by (fastforce elim!: in_update_where simp: claimable_def split: if_splits)
qed

lemma restored_row:
  assumes "x \<in> set (cd_checks (restore_claim row slot control))" "wf_control control" "restorable row slot control"
  shows "if cf_id x = cc_id row then cf_last_claimed_slot x = cc_last_claimed_slot row
    else x \<in> set (cd_checks control)"
proof -
  obtain r where r: "r \<in> set (cd_checks control)" "cf_id r = cc_id row" "cf_pk r = cc_pk row"
    "cf_revision r = cc_revision row" "cf_last_claimed_slot r = slot"
    using assms(3) by (auto simp: restorable_def list_ex_iff)
  have "y = r" if "y \<in> set (cd_checks control)" "cf_id y = cc_id row" for y
    using keyed_unique [OF wf_checks [OF assms(2)] that(1) r(1)] that(2) r(2) by simp
  note unique = this
  let ?p = "\<lambda>r. cf_id r = cc_id row \<and> cf_pk r = cc_pk row \<and> cf_revision r = cc_revision row \<and>
    cf_last_claimed_slot r = slot"
  obtain y where y: "y \<in> set (cd_checks control)"
    "x = (if ?p y then y\<lparr>cf_last_claimed_slot := cc_last_claimed_slot row\<rparr> else y)"
    using in_update_where [of x ?p _ "cd_checks control"] assms(1) by (auto simp: restore_claim_def)
  show ?thesis
  proof (cases "cf_id y = cc_id row")
    case True
    then have "?p y" using unique [OF y(1)] r by simp
    then show ?thesis using y(2) by simp
  next
    case False
    then show ?thesis using y by auto
  qed
qed

lemma restore_misses: "\<not> restorable row slot control \<Longrightarrow> restore_claim row slot control = control"
  by (auto simp: restorable_def restore_claim_def list_ex_iff update_where_none)

lemma due_ids:
  assumes "wf_control control"
  shows "distinct (map cc_id (loadDueChecks control now cursor))"
proof -
  have join: "map cc_id (check_join control c) = [] \<or> map cc_id (check_join control c) = [cf_id c]" for c
  proof -
    have w: "length (filter (\<lambda>w. wk_id w = cf_workspace_id c \<and> wk_deleted_at w = None) (cd_workspaces control)) \<le> 1"
      and s: "length (filter (\<lambda>s. sv_id s = cf_service_id c \<and> sv_deleted_at s = None) (cd_services control)) \<le> 1"
      using count_where_key [of wk_id "cd_workspaces control" "cf_workspace_id c" "\<lambda>w. wk_deleted_at w = None"]
        count_where_key [of sv_id "cd_services control" "cf_service_id c" "\<lambda>s. sv_deleted_at s = None"] assms
      by (simp_all add: wf_control_def count_where_def)
    show ?thesis
      using w s unfolding check_join_def
      by (cases "filter (\<lambda>w. wk_id w = cf_workspace_id c \<and> wk_deleted_at w = None) (cd_workspaces control)";
          cases "filter (\<lambda>s. sv_id s = cf_service_id c \<and> sv_deleted_at s = None) (cd_services control)")
        (auto simp: config_of_def)
  qed
  have all: "distinct (map cc_id (concat (map (check_join control) cs))) \<and>
      set (map cc_id (concat (map (check_join control) cs))) \<subseteq> set (map cf_id cs)"
    if "distinct (map cf_id cs)" for cs
    using that
  proof (induction cs)
    case (Cons c cs)
    let ?new = "map cc_id (check_join control c)" and ?old = "map cc_id (concat (map (check_join control) cs))"
    have new: "set ?new \<subseteq> {cf_id c}" "distinct ?new" using join [of c] by auto
    have old: "distinct ?old" "set ?old \<subseteq> set (map cf_id cs)" using Cons by simp_all
    have "cf_id c \<notin> set (map cf_id cs)" using Cons.prems by simp
    then have "set ?new \<inter> set ?old = {}" using new(1) old(2) by blast
    moreover have "set ?new \<union> set ?old \<subseteq> set (map cf_id (c # cs))"
      using new(1) old(2) unfolding list.map list.set by blast
    ultimately show ?case using new(2) old(1) by (simp only: list.map concat.simps map_append distinct_append set_append)
  qed simp
  have "distinct (map cf_id (filter P (cd_checks control)))" for P
    using assms by (auto simp: wf_control_def keyed_def distinct_map_filter)
  then have "distinct (map cc_id (concat (map (check_join control) (filter P (cd_checks control)))))" for P
    using all by blast
  then have "distinct (map cc_id (sort_key f (concat (map (check_join control) (filter P (cd_checks control))))))"
    for P and f :: "check_config \<Rightarrow> int \<times> pk"
    by (simp add: distinct_map)
  then show ?thesis by (simp add: loadDueChecks_def Let_def take_map [symmetric] distinct_take)
qed

lemma due_check_row:
  assumes "row \<in> set (loadDueChecks control now cursor)"
  shows "\<exists>r \<in> set (cd_checks control). cf_id r = cc_id row \<and> cf_last_claimed_slot r = cc_last_claimed_slot row"
proof -
  obtain c where "c \<in> set (cd_checks control)" "row \<in> set (check_join control c)"
    using assms by (auto simp: loadDueChecks_def Let_def dest!: in_set_takeD)
  then show ?thesis by (auto simp: check_join_def config_of_def)
qed

section \<open>The invariants\<close>

text \<open>Between two claims of one slot the check was restored.\<close>

definition reclaims_restored :: "claim_event list \<Rightarrow> bool" where
  "reclaims_restored evs \<longleftrightarrow> (\<forall>newest newer i s older.
     evs = newest @ Claimed i s # newer @ Claimed i s # older \<longrightarrow> (\<exists>t. Restored i t \<in> set newer))"

lemma reclaims_restored_Cons:
  assumes "reclaims_restored evs"
    and "\<And>i s newer older. e = Claimed i s \<Longrightarrow> evs = newer @ Claimed i s # older \<Longrightarrow> \<exists>t. Restored i t \<in> set newer"
  shows "reclaims_restored (e # evs)"
  unfolding reclaims_restored_def
proof (intro allI impI)
  fix newest newer i s older
  assume eq: "e # evs = newest @ Claimed i s # newer @ Claimed i s # older"
  show "\<exists>t. Restored i t \<in> set newer"
  proof (cases newest)
    case Nil
    then show ?thesis using eq assms(2) by auto
  next
    case (Cons x newest')
    then have "evs = newest' @ Claimed i s # newer @ Claimed i s # older" using eq by simp
    then show ?thesis using assms(1) unfolding reclaims_restored_def by blast
  qed
qed

text \<open>Whatever overlaps: a check stands at or behind every claim since its last restoration.\<close>

definition standing_inv :: "claim_world \<Rightarrow> bool" where
  "standing_inv w \<longleftrightarrow> wf_control (cw_control w) \<and>
     (\<forall>r \<in> set (cd_checks (cw_control w)). \<forall>s \<in> standing (cf_id r) (cw_log w). s \<le> cf_last_claimed_slot r) \<and>
     reclaims_restored (cw_log w)"

lemma standing_keeps:
  assumes "standing_inv w" "wf_control control'" "cw_control w' = control'" "cw_log w' = cw_log w"
    and "\<And>x. x \<in> set (cd_checks control') \<Longrightarrow>
      (\<exists>r \<in> set (cd_checks (cw_control w)). cf_id r = cf_id x \<and> cf_last_claimed_slot r \<le> cf_last_claimed_slot x) \<or>
      cf_id x \<notin> claimed_ids (cw_log w)"
  shows "standing_inv w'"
proof -
  have "s \<le> cf_last_claimed_slot x" if x: "x \<in> set (cd_checks control')" "s \<in> standing (cf_id x) (cw_log w)" for x s
  proof -
    have "cf_id x \<in> claimed_ids (cw_log w)" using that(2) by (intro standing_claimed) auto
    then obtain r where "r \<in> set (cd_checks (cw_control w))" "cf_id r = cf_id x" "cf_last_claimed_slot r \<le> cf_last_claimed_slot x"
      using assms(5) [OF x(1)] by blast
    then show ?thesis using assms(1) x(2) unfolding standing_inv_def by fastforce
  qed
  then show ?thesis using assms(1-4) by (simp add: standing_inv_def)
qed

lemma standing_step: "claim_step w w' \<Longrightarrow> standing_inv w \<Longrightarrow> standing_inv w'"
proof (induction rule: claim_step.induct)
  case (claimed row now w control')
  let ?slot = "slot_of row now"
  have wf: "wf_control (cw_control w)" using claimed.prems by (simp add: standing_inv_def)
  obtain r where r: "r \<in> set (cd_checks (cw_control w))" "cf_id r = cc_id row" "cf_last_claimed_slot r < ?slot"
    "\<forall>x \<in> set (cd_checks control'). if cf_id x = cc_id row then cf_last_claimed_slot x = ?slot
      else x \<in> set (cd_checks (cw_control w))"
    using claimed.hyps(2) wf by (rule claimed_check_row)
  have old: "s < ?slot" if "s \<in> standing (cc_id row) (cw_log w)" for s
    using that r(1-3) claimed.prems unfolding standing_inv_def by fastforce
  have "s \<le> cf_last_claimed_slot x"
    if "x \<in> set (cd_checks control')" "s \<in> standing (cf_id x) (Claimed (cc_id row) ?slot # cw_log w)" for x s
    using that r(4) old claimed.prems unfolding standing_inv_def
    by (cases "cf_id x = cc_id row") (auto split: if_splits dest: less_imp_le)
  moreover have "reclaims_restored (Claimed (cc_id row) ?slot # cw_log w)"
  proof (rule reclaims_restored_Cons)
    fix i s newer older
    assume "Claimed (cc_id row) ?slot = Claimed i s" "cw_log w = newer @ Claimed i s # older"
    then show "\<exists>t. Restored i t \<in> set newer"
      using standing_since [of i newer ?slot older] old by auto
  qed (use claimed.prems in \<open>simp add: standing_inv_def\<close>)
  ultimately show ?case using claim_wf [OF claimed.hyps(2) wf] by (simp add: standing_inv_def)
next
  case (refused row now w control' n)
  show ?case
    by (rule standing_keeps [OF refused.prems claim_wf [OF refused.hyps(2)]])
      (use refused.prems refused_row [OF refused.hyps(2)] in \<open>auto simp: standing_inv_def\<close>)
next
  case (restored row slot seen w)
  have wf: "wf_control (cw_control w)" using restored.prems by (simp add: standing_inv_def)
  have "s \<le> cf_last_claimed_slot x"
    if "x \<in> set (cd_checks (restore_claim row slot (cw_control w)))"
      "s \<in> standing (cf_id x) (Restored (cc_id row) slot # cw_log w)" for x s
    using restored_row [OF that(1) wf restored.hyps(2)] that(2) restored.prems unfolding standing_inv_def
    by (auto split: if_splits)
  moreover have "reclaims_restored (Restored (cc_id row) slot # cw_log w)"
    using restored.prems by (intro reclaims_restored_Cons) (auto simp: standing_inv_def)
  ultimately show ?case using restore_wf [OF wf] by (simp add: standing_inv_def)
next
  case (changed w control')
  show ?case
    by (rule standing_keeps [OF changed.prems]) (use changed.hyps in \<open>fastforce simp: configuration_change_def\<close>)+
qed (auto simp: standing_inv_def restore_misses intro!: reclaims_restored_Cons)

text \<open>
  While no runs overlap, every check has one handler at most, and a row that was loaded is as new as all claims of
  its check but the one its own handler holds.
\<close>

abbreviation handler_id :: "check_config \<times> 'a \<Rightarrow> string" where
  "handler_id c \<equiv> cc_id (fst c)"

definition claims_below :: "claim_event list \<Rightarrow> string \<Rightarrow> int set \<Rightarrow> int \<Rightarrow> bool" where
  "claims_below evs i except bound \<longleftrightarrow> (\<forall>s. (i, s) \<in> set (open_claims evs) \<and> s \<notin> except \<longrightarrow> s \<le> bound)"

definition running_ok :: "claim_event list \<Rightarrow> check_config \<times> int \<times> bool \<Rightarrow> bool" where
  "running_ok evs = (\<lambda>(row, slot, seen).
     (cc_id row, slot) \<in> set (open_claims evs) \<and> (cc_id row, slot) \<notin> set (persisted_slots evs) \<and>
     claims_below evs (cc_id row) {slot} (cc_last_claimed_slot row))"

definition single_inv :: "claim_world \<Rightarrow> bool" where
  "single_inv w \<longleftrightarrow> wf_control (cw_control w) \<and>
     distinct (map handler_id (cw_loaded w) @ map handler_id (cw_running w)) \<and>
     (\<forall>r \<in> set (cd_checks (cw_control w)). claims_below (cw_log w) (cf_id r) {} (cf_last_claimed_slot r)) \<and>
     (\<forall>c \<in> set (cw_loaded w). claims_below (cw_log w) (handler_id c) {} (cc_last_claimed_slot (fst c))) \<and>
     (\<forall>c \<in> set (cw_running w). running_ok (cw_log w) c) \<and>
     distinct (open_claims (cw_log w)) \<and> distinct (persisted_slots (cw_log w)) \<and>
     set (persisted_slots (cw_log w)) \<subseteq> set (open_claims (cw_log w))"

lemma remove1_keys:
  assumes "distinct (map f xs)"
  shows "distinct (map f (remove1 x xs))" "set (remove1 x xs) \<subseteq> set xs"
    "x \<in> set xs \<Longrightarrow> y \<in> set (remove1 x xs) \<Longrightarrow> f y \<noteq> f x"
proof -
  have "distinct xs" using assms by (simp add: distinct_map)
  then show "x \<in> set xs \<Longrightarrow> y \<in> set (remove1 x xs) \<Longrightarrow> f y \<noteq> f x"
    using assms by (auto simp: distinct_map dest: inj_onD)
  show "distinct (map f (remove1 x xs))"
    using assms \<open>distinct xs\<close> by (auto simp: distinct_map intro: inj_on_subset)
qed (rule set_remove1_subset)

lemma claims_below_simps [simp]:
  "claims_below (Claimed j s # evs) i E b \<longleftrightarrow> claims_below evs i E b \<and> (i = j \<and> s \<notin> E \<longrightarrow> s \<le> b)"
  "claims_below (Persisted j s # evs) i E b \<longleftrightarrow> claims_below evs i E b"
  "claims_below (Restored j s # evs) i E b \<longleftrightarrow> claims_below evs i (if i = j then insert s E else E) b"
  by (auto simp: claims_below_def)

lemma claims_below_mono: "claims_below evs i E b \<Longrightarrow> b \<le> b' \<Longrightarrow> E \<subseteq> E' \<Longrightarrow> claims_below evs i E' b'"
  by (fastforce simp: claims_below_def)

lemma claims_below_fresh: "i \<notin> claimed_ids evs \<Longrightarrow> claims_below evs i E b"
  using open_claimed by (fastforce simp: claims_below_def)

text \<open>Handlers may go, and checks may advance.\<close>

lemma single_loaded: "single_inv w \<Longrightarrow> single_inv (w\<lparr>cw_loaded := remove1 c (cw_loaded w)\<rparr>)"
proof -
  assume w: "single_inv w"
  then have ids: "distinct (map handler_id (cw_loaded w))" by (simp add: single_inv_def)
  note left = remove1_keys(1,2) [OF ids, of c]
  show ?thesis
    using w left(1) subsetD [OF left(2)] image_mono [OF left(2), of handler_id] unfolding single_inv_def
    by (simp, blast)
qed

lemma single_running: "single_inv w \<Longrightarrow> single_inv (w\<lparr>cw_running := remove1 c (cw_running w)\<rparr>)"
proof -
  assume w: "single_inv w"
  then have ids: "distinct (map handler_id (cw_running w))" by (simp add: single_inv_def)
  note left = remove1_keys(1,2) [OF ids, of c]
  show ?thesis
    using w left(1) subsetD [OF left(2)] image_mono [OF left(2), of handler_id] unfolding single_inv_def
    by (simp, blast)
qed

lemma single_control:
  assumes "single_inv w" "wf_control control'"
    and "\<And>x. x \<in> set (cd_checks control') \<Longrightarrow>
      (\<exists>r \<in> set (cd_checks (cw_control w)). cf_id r = cf_id x \<and> cf_last_claimed_slot r \<le> cf_last_claimed_slot x) \<or>
      cf_id x \<notin> claimed_ids (cw_log w)"
  shows "single_inv (w\<lparr>cw_control := control'\<rparr>)"
proof -
  have "claims_below (cw_log w) (cf_id x) {} (cf_last_claimed_slot x)" if x: "x \<in> set (cd_checks control')" for x
  proof (cases "cf_id x \<in> claimed_ids (cw_log w)")
    case True
    then obtain r where r: "r \<in> set (cd_checks (cw_control w))" "cf_id r = cf_id x" "cf_last_claimed_slot r \<le> cf_last_claimed_slot x"
      using assms(3) [OF x] by blast
    then have "claims_below (cw_log w) (cf_id r) {} (cf_last_claimed_slot r)"
      using assms(1) r(1) unfolding single_inv_def by blast
    then show ?thesis using claims_below_mono [OF _ r(3) subset_refl] unfolding r(2) by blast
  qed (rule claims_below_fresh)
  then show ?thesis using assms(1,2) by (simp add: single_inv_def)
qed

lemma single_seen:
  assumes "single_inv w" "(row, slot, False) \<in> set (cw_running w)"
  shows "single_inv (w\<lparr>cw_running := (row, slot, True) # remove1 (row, slot, False) (cw_running w)\<rparr>)"
proof -
  have ids: "distinct (map handler_id (cw_running w))" and all: "\<forall>c \<in> set (cw_running w). running_ok (cw_log w) c"
    and apart: "handler_id ` set (cw_loaded w) \<inter> handler_id ` set (cw_running w) = {}"
    using assms(1) by (simp_all add: single_inv_def)
  note ok = bspec [OF all assms(2)]
  note left = remove1_keys(3) [OF ids assms(2)]
  have "cc_id row \<notin> handler_id ` set (remove1 (row, slot, False) (cw_running w))"
  proof
    assume "cc_id row \<in> handler_id ` set (remove1 (row, slot, False) (cw_running w))"
    then obtain c where "c \<in> set (remove1 (row, slot, False) (cw_running w))" "cc_id row = handler_id c" by (rule imageE)
    then show False using left [of c] by simp
  qed
  moreover have "cc_id row \<notin> handler_id ` set (cw_loaded w)"
    using apart imageI [OF assms(2), of handler_id] unfolding fst_conv by blast
  moreover have "running_ok (cw_log w) (row, slot, True)" using ok by (simp add: running_ok_def)
  ultimately show ?thesis
    using single_running [OF assms(1), of "(row, slot, False)"] unfolding single_inv_def by simp
qed

lemma running_ok_other:
  assumes "running_ok evs c" "handler_id c \<noteq> i"
  shows "running_ok (Claimed i s # evs) c" "running_ok (Persisted i s # evs) c" "running_ok (Restored i s # evs) c"
  using assms by (auto simp: running_ok_def elim: claims_below_mono)

lemma finished_handler:
  assumes "single_inv w" "(row, slot, seen) \<in> set (cw_running w)"
  shows "running_ok (cw_log w) (row, slot, seen)"
    and "distinct (map handler_id (cw_loaded w) @ map handler_id (remove1 (row, slot, seen) (cw_running w)))"
    and "\<forall>c \<in> set (remove1 (row, slot, seen) (cw_running w)). running_ok (Persisted (cc_id row) slot # cw_log w) c"
    and "\<forall>c \<in> set (remove1 (row, slot, seen) (cw_running w)). running_ok (Restored (cc_id row) slot # cw_log w) c"
proof -
  have ids: "distinct (map handler_id (cw_running w))" and ok: "\<forall>c \<in> set (cw_running w). running_ok (cw_log w) c"
    and apart: "handler_id ` set (cw_loaded w) \<inter> handler_id ` set (cw_running w) = {}"
      "distinct (map handler_id (cw_loaded w))"
    using assms(1) by (simp_all add: single_inv_def)
  note left = remove1_keys [OF ids, of "(row, slot, seen)"]
  show "running_ok (cw_log w) (row, slot, seen)" by (rule bspec [OF ok assms(2)])
  show "distinct (map handler_id (cw_loaded w) @ map handler_id (remove1 (row, slot, seen) (cw_running w)))"
    using apart left(1) image_mono [OF left(2), of handler_id] by (simp, blast)
  have other: "running_ok (cw_log w) c \<and> handler_id c \<noteq> cc_id row"
    if "c \<in> set (remove1 (row, slot, seen) (cw_running w))" for c
    using ok left(2) left(3) [OF assms(2) that] that by auto
  show "\<forall>c \<in> set (remove1 (row, slot, seen) (cw_running w)). running_ok (Persisted (cc_id row) slot # cw_log w) c"
    "\<forall>c \<in> set (remove1 (row, slot, seen) (cw_running w)). running_ok (Restored (cc_id row) slot # cw_log w) c"
    using other running_ok_other(2,3) by blast+
qed

lemma single_step:
  assumes "claim_step w w'" "single_inv w" "\<not> cw_overlap w'"
  shows "single_inv w'"
  using assms
proof (induction rule: claim_step.induct)
  case (loaded w now cursor)
  then have none: "cw_loaded w = []" "cw_running w = []" by simp_all
  have wf: "wf_control (cw_control w)" using loaded.prems by (simp add: single_inv_def)
  have "claims_below (cw_log w) (cc_id row) {} (cc_last_claimed_slot row)"
    if "row \<in> set (loadDueChecks (cw_control w) now cursor)" for row
    using due_check_row [OF that] loaded.prems by (fastforce simp: single_inv_def)
  then show ?case
    using loaded.prems(1) none due_ids [OF wf, of now cursor] by (auto simp: single_inv_def comp_def)
next
  case (claimed row now w control')
  let ?slot = "slot_of row now"
  have wf: "wf_control (cw_control w)" using claimed.prems by (simp add: single_inv_def)
  obtain r where r: "r \<in> set (cd_checks (cw_control w))" "cf_id r = cc_id row" "cf_last_claimed_slot r < ?slot"
    "\<forall>x \<in> set (cd_checks control'). if cf_id x = cc_id row then cf_last_claimed_slot x = ?slot
      else x \<in> set (cd_checks (cw_control w))"
    using claimed.hyps(2) wf by (rule claimed_check_row)
  have own: "claims_below (cw_log w) (cc_id row) {} (cf_last_claimed_slot r)"
    using claimed.prems(1) r(1) unfolding single_inv_def r(2) [symmetric] by blast
  then have new: "(cc_id row, ?slot) \<notin> set (open_claims (cw_log w))" using r(3) by (auto simp: claims_below_def)
  have checks: "claims_below (Claimed (cc_id row) ?slot # cw_log w) (cf_id x) {} (cf_last_claimed_slot x)"
    if "x \<in> set (cd_checks control')" for x
  proof (cases "cf_id x = cc_id row")
    case True
    then show ?thesis using r(3,4) that claims_below_mono [OF own, of ?slot "{}"] by auto
  next
    case False
    then show ?thesis using r(4) that claimed.prems(1) by (auto simp: single_inv_def)
  qed
  have ids: "distinct (map handler_id (cw_loaded w))" "distinct (map handler_id (cw_running w))"
    "handler_id ` set (cw_loaded w) \<inter> handler_id ` set (cw_running w) = {}"
    using claimed.prems(1) by (simp_all add: single_inv_def)
  have "cc_id row \<in> handler_id ` set (cw_loaded w)" using claimed.hyps(1) by force
  note loaded_id = this
  have other: "handler_id c \<noteq> cc_id row" if c: "c \<in> set (cw_running w)" for c
  proof
    assume "handler_id c = cc_id row"
    then have "handler_id c \<in> handler_id ` set (cw_loaded w) \<inter> handler_id ` set (cw_running w)"
      using loaded_id imageI [OF c, of handler_id] by simp
    then show False unfolding ids(3) by simp
  qed
  note left = remove1_keys [OF ids(1), of "(row, now)"]
  have "\<forall>c \<in> set (cw_loaded w). claims_below (cw_log w) (handler_id c) {} (cc_last_claimed_slot (fst c))"
    "\<forall>c \<in> set (cw_running w). running_ok (cw_log w) c" "set (persisted_slots (cw_log w)) \<subseteq> set (open_claims (cw_log w))"
    using claimed.prems(1) by (simp_all add: single_inv_def)
  note old = this
  have row: "claims_below (cw_log w) (cc_id row) {} (cc_last_claimed_slot row)"
    using bspec [OF old(1) claimed.hyps(1)] by simp
  have "running_ok (Claimed (cc_id row) ?slot # cw_log w) (row, ?slot, False)"
    using new old(3) claims_below_mono [OF row order_refl, of "{?slot}"] by (auto simp: running_ok_def)
  then have running: "running_ok (Claimed (cc_id row) ?slot # cw_log w) c"
    if "c \<in> set ((row, ?slot, False) # cw_running w)" for c
    using that old(2) other running_ok_other(1) by (cases "c = (row, ?slot, False)") simp_all
  have waiting: "claims_below (Claimed (cc_id row) ?slot # cw_log w) (handler_id c) {} (cc_last_claimed_slot (fst c))"
    if "c \<in> set (remove1 (row, now) (cw_loaded w))" for c
    using that left(2) left(3) [OF claimed.hyps(1) that] old(1) by auto
  have "cc_id row \<notin> handler_id ` set (remove1 (row, now) (cw_loaded w))"
    using left(3) [OF claimed.hyps(1)] by (metis fst_conv imageE)
  moreover have "handler_id ` set (remove1 (row, now) (cw_loaded w)) \<inter> handler_id ` set (cw_running w) = {}"
    using image_mono [OF left(2), of handler_id] ids(3) by blast
  moreover have "cc_id row \<notin> handler_id ` set (cw_running w)" using other by (metis imageE)
  ultimately have "distinct (map handler_id (remove1 (row, now) (cw_loaded w)) @
      map handler_id ((row, ?slot, False) # cw_running w))"
    using left(1) ids(2) by simp
  moreover have "distinct ((cc_id row, ?slot) # open_claims (cw_log w))" "distinct (persisted_slots (cw_log w))"
    "set (persisted_slots (cw_log w)) \<subseteq> insert (cc_id row, ?slot) (set (open_claims (cw_log w)))"
    using new claimed.prems(1) by (auto simp: single_inv_def)
  ultimately show ?case
    using claim_wf [OF claimed.hyps(2) wf] checks waiting running unfolding single_inv_def by simp
next
  case (persisted row slot w)
  note rest = finished_handler [OF persisted.prems(1) persisted.hyps]
  have old: "wf_control (cw_control w)"
    "\<forall>r \<in> set (cd_checks (cw_control w)). claims_below (cw_log w) (cf_id r) {} (cf_last_claimed_slot r)"
    "\<forall>c \<in> set (cw_loaded w). claims_below (cw_log w) (handler_id c) {} (cc_last_claimed_slot (fst c))"
    "distinct (open_claims (cw_log w))" "distinct (persisted_slots (cw_log w))"
    "set (persisted_slots (cw_log w)) \<subseteq> set (open_claims (cw_log w))"
    using persisted.prems(1) by (simp_all add: single_inv_def)
  have "(cc_id row, slot) \<in> set (open_claims (cw_log w))" "(cc_id row, slot) \<notin> set (persisted_slots (cw_log w))"
    using rest(1) by (simp_all add: running_ok_def)
  then show ?case using rest(2,3) old unfolding single_inv_def by simp
next
  case (restored row slot seen w)
  note rest = finished_handler [OF restored.prems(1) restored.hyps(1)]
  have old: "wf_control (cw_control w)"
    "\<forall>r \<in> set (cd_checks (cw_control w)). claims_below (cw_log w) (cf_id r) {} (cf_last_claimed_slot r)"
    "\<forall>c \<in> set (cw_loaded w). claims_below (cw_log w) (handler_id c) {} (cc_last_claimed_slot (fst c))"
    "distinct (open_claims (cw_log w))" "distinct (persisted_slots (cw_log w))"
    "set (persisted_slots (cw_log w)) \<subseteq> set (open_claims (cw_log w))"
    using restored.prems(1) by (simp_all add: single_inv_def)
  have own: "(cc_id row, slot) \<notin> set (persisted_slots (cw_log w))"
    "claims_below (cw_log w) (cc_id row) {slot} (cc_last_claimed_slot row)"
    using rest(1) by (simp_all add: running_ok_def)
  have checks: "claims_below (Restored (cc_id row) slot # cw_log w) (cf_id x) {} (cf_last_claimed_slot x)"
    if "x \<in> set (cd_checks (restore_claim row slot (cw_control w)))" for x
    using restored_row [OF that old(1) restored.hyps(2)] own(2) old(2) by (auto split: if_splits)
  have waiting: "claims_below (Restored (cc_id row) slot # cw_log w) (handler_id c) {} (cc_last_claimed_slot (fst c))"
    if "c \<in> set (cw_loaded w)" for c
    using claims_below_mono [OF bspec [OF old(3) that] order_refl, of "{slot}"] bspec [OF old(3) that] by auto
  have "set (persisted_slots (cw_log w)) \<subseteq> set (filter (\<lambda>c. c \<noteq> (cc_id row, slot)) (open_claims (cw_log w)))"
    using old(6) own(1) by auto
  then show ?case
    using rest(2,4) restore_wf [OF old(1)] old(4,5) checks waiting unfolding single_inv_def by simp
next
  case (refused row now w control' n)
  have "wf_control control'" using refused.prems(1) claim_wf [OF refused.hyps(2)] by (simp add: single_inv_def)
  then have "single_inv (w\<lparr>cw_control := control'\<rparr>)"
    using refused_row [OF refused.hyps(2)] by (intro single_control [OF refused.prems(1)]) blast+
  from single_loaded [OF this] show ?case by simp
next
  case (not_restored row slot seen w)
  then show ?case using single_running [OF not_restored.prems(1)] by (simp add: restore_misses)
next
  case (changed w control')
  show ?case
    by (rule single_control [OF changed.prems(1)]) (use changed.hyps in \<open>fastforce simp: configuration_change_def\<close>)+
qed (simp_all add: single_loaded single_running single_seen)

lemma overlap_stays: "claim_step w w' \<Longrightarrow> cw_overlap w \<Longrightarrow> cw_overlap w'"
  by (induction rule: claim_step.induct) auto

lemma claim_reach_invs:
  assumes "claim_reach control w" "wf_control control"
  shows "standing_inv w \<and> (\<not> cw_overlap w \<longrightarrow> single_inv w)"
  using assms
proof (induction rule: claim_reach.induct)
  case start
  then show ?case
    by (auto simp: claim_start_def standing_inv_def single_inv_def claims_below_def reclaims_restored_def)
next
  case (step w w')
  then show ?case using standing_step single_step overlap_stays by blast
qed

section \<open>One claim for a slot\<close>

text \<open>
  C14. A slot of a check is claimed once. In every interleaving of runs, of the handlers of their checks and of users
  who edit the configuration: between two claims of one slot a handler of that check has failed to persist its
  result and given its claim back. While no run starts before an earlier one is over, more holds: at each moment a
  slot has at most one claim that was not given back, nobody is granted it again, and its result is persisted
  once at most and its claim never given back afterwards.
\<close>

theorem slot_claimed_once:
  assumes "claim_reach control w" "wf_control control"
  shows "(\<forall>newest newer i s older. cw_log w = newest @ Claimed i s # newer @ Claimed i s # older \<longrightarrow>
      (\<exists>t. Restored i t \<in> set newer)) \<and>
    (\<not> cw_overlap w \<longrightarrow>
      distinct (open_claims (cw_log w)) \<and> distinct (persisted_slots (cw_log w)) \<and>
      set (persisted_slots (cw_log w)) \<subseteq> set (open_claims (cw_log w)) \<and>
      (\<forall>row s control' n. (cc_id row, s) \<in> set (open_claims (cw_log w)) \<and>
        claim_slot row s (cw_control w) = (control', n) \<longrightarrow> n \<noteq> 1))"
proof -
  have invs: "standing_inv w" "\<not> cw_overlap w \<Longrightarrow> single_inv w"
    using claim_reach_invs [OF assms] by blast+
  have refused: "n \<noteq> 1"
    if "single_inv w" "(cc_id row, s) \<in> set (open_claims (cw_log w))" "claim_slot row s (cw_control w) = (control', n)"
    for row s control' n
  proof
    assume "n = 1"
    moreover have "wf_control (cw_control w)" using that(1) by (simp add: single_inv_def)
    ultimately have "\<exists>r \<in> set (cd_checks (cw_control w)). cf_id r = cc_id row \<and> cf_last_claimed_slot r < s"
      using that(3) claimed_check_row [of row s "cw_control w" control'] by blast
    then obtain r where r: "r \<in> set (cd_checks (cw_control w))" "cf_id r = cc_id row" "cf_last_claimed_slot r < s"
      by blast
    have "claims_below (cw_log w) (cf_id r) {} (cf_last_claimed_slot r)"
      using \<open>single_inv w\<close> r(1) unfolding single_inv_def by blast
    then show False using \<open>(cc_id row, s) \<in> _\<close> r(2,3) by (auto simp: claims_below_def)
  qed
  have "distinct (open_claims (cw_log w))" "distinct (persisted_slots (cw_log w))"
    "set (persisted_slots (cw_log w)) \<subseteq> set (open_claims (cw_log w))" if "single_inv w"
    using that by (simp_all add: single_inv_def)
  then show ?thesis
    using refused invs unfolding standing_inv_def reclaims_restored_def by blast
qed

definition sample_check_row :: check_row where
  "sample_check_row = \<lparr>cf_id = ''c1'', cf_pk = 11, cf_workspace_id = ''w'', cf_service_id = ''s'',
     cf_revision = 2, cf_kind = ''http'', cf_enabled = 1, cf_executor = ''cloudflare'',
     cf_executor_agent_id = None, cf_interval = 60,
     cf_phase = 0, cf_timeout_ms = 5000, cf_retry_count = 1, cf_critical = 1, cf_request_json = [],
     cf_secret_refs_json = [], cf_failure_confirmations = 2, cf_recovery_confirmations = 2,
     cf_last_claimed_slot = 0\<rparr>"

text \<open>A first run fails to persist and gives its claim back; the second run of the same slot persists.\<close>

definition sample_claims :: control_db where
  "sample_claims = sample_control\<lparr>cd_checks := [sample_check_row]\<rparr>"

definition sample_claimed_control :: control_db where
  "sample_claimed_control = sample_control\<lparr>cd_checks := [sample_check_row\<lparr>cf_last_claimed_slot := 60\<rparr>]\<rparr>"

lemma sample_claim_facts:
  "loadDueChecks sample_claims 61000 0 = [sample_config]" "slot_of sample_config 61000 = 60"
  "claim_slot sample_config 60 sample_claims = (sample_claimed_control, 1)"
  "holds_claim sample_config 60 sample_claimed_control" "restorable sample_config 60 sample_claimed_control"
  "restore_claim sample_config 60 sample_claimed_control = sample_claims" "wf_control sample_claims"
  by code_simp+

lemma sample_claim_cycle:
  assumes "claim_reach sample_claims (claim_start sample_claims\<lparr>cw_log := evs\<rparr>)"
  shows "claim_reach sample_claims \<lparr>cw_control = sample_claimed_control, cw_loaded = [],
    cw_running = [(sample_config, 60, True)], cw_log = Claimed ''c1'' 60 # evs, cw_overlap = False\<rparr>"
proof -
  have id: "cc_id sample_config = ''c1''" by (simp add: sample_config_def)
  have "claim_reach sample_claims (claim_start sample_claims\<lparr>cw_log := evs, cw_loaded := [(sample_config, 61000)]\<rparr>)"
    using claim_reach.step [OF assms claim_step.loaded [of _ 61000 0]]
    by (simp add: claim_start_def sample_claim_facts)
  then have "claim_reach sample_claims \<lparr>cw_control = sample_claimed_control, cw_loaded = [],
      cw_running = [(sample_config, 60, False)], cw_log = Claimed ''c1'' 60 # evs, cw_overlap = False\<rparr>"
    using claim_reach.step [OF _ claim_step.claimed [of sample_config 61000]]
    by (fastforce simp: claim_start_def sample_claim_facts id)
  from claim_reach.step [OF this claim_step.confirmed [of sample_config 60]]
  show ?thesis by (simp add: sample_claim_facts)
qed

theorem slot_claimed_once_witness:
  "\<exists>w. claim_reach sample_claims w \<and>
     cw_log w = [Persisted ''c1'' 60, Claimed ''c1'' 60, Restored ''c1'' 60, Claimed ''c1'' 60] \<and>
     distinct (open_claims (cw_log w)) \<and> snd (claim_slot sample_config 60 (cw_control w)) \<noteq> 1"
proof -
  have id: "cc_id sample_config = ''c1''" by (simp add: sample_config_def)
  have "claim_reach sample_claims (claim_start sample_claims\<lparr>cw_log := []\<rparr>)"
    using claim_reach.start [of sample_claims] by (simp add: claim_start_def)
  note first = sample_claim_cycle [OF this]
  have "claim_reach sample_claims (claim_start sample_claims\<lparr>cw_log := [Restored ''c1'' 60, Claimed ''c1'' 60]\<rparr>)"
    using claim_reach.step [OF first claim_step.restored [of sample_config 60 True]]
    by (simp add: claim_start_def sample_claim_facts id)
  note second = sample_claim_cycle [OF this]
  let ?w = "\<lparr>cw_control = sample_claimed_control, cw_loaded = [], cw_running = [],
    cw_log = [Persisted ''c1'' 60, Claimed ''c1'' 60, Restored ''c1'' 60, Claimed ''c1'' 60], cw_overlap = False\<rparr>"
  have reach: "claim_reach sample_claims ?w"
    using claim_reach.step [OF second claim_step.persisted [of sample_config 60]] by (simp add: id)
  obtain d n where again: "claim_slot sample_config 60 (cw_control ?w) = (d, n)" by (rule prod.exhaust)
  have "(cc_id sample_config, 60) \<in> set (open_claims (cw_log ?w))" by (simp add: id)
  then have "n \<noteq> 1" "distinct (open_claims (cw_log ?w))"
    using slot_claimed_once [OF reach sample_claim_facts(7)] again by (auto simp del: open_claims.simps)
  then show ?thesis using reach again by (intro exI [of _ ?w]) simp
qed

end
