(* ===== verification/Scheduling_Correctness.thy ===== *)
theory Scheduling_Correctness
  imports Check_Claims
begin

text \<open>
  Correctness of the scheduled run: the slot arithmetic and its SQL copy, the lease as an instance of the
  lease protocol, claims under interleaving, the batches, the error paths of a check, and the release of
  the lease whatever happened in between.
\<close>

section \<open>Slots\<close>

lemma dueSlot_cong:
  assumes "0 < interval"
  shows "(dueSlot now interval phase - phase) mod interval = 0"
    "dueSlot now interval phase \<le> now div 1000"
    "now div 1000 < dueSlot now interval phase + interval"
proof -
  let ?d = "now div 1000 - phase"
  have eq: "dueSlot now interval phase = ?d div interval * interval + phase"
    by (simp add: dueSlot_def Let_def)
  show "(dueSlot now interval phase - phase) mod interval = 0" by (simp add: eq)
  have "?d div interval * interval = ?d - ?d mod interval" by (simp add: minus_mod_eq_div_mult)
  then show "dueSlot now interval phase \<le> now div 1000" "now div 1000 < dueSlot now interval phase + interval"
    using assms pos_mod_bound [of interval ?d] pos_mod_sign [of interval ?d] by (auto simp: eq)
qed

lemma dueSlot_greatest_slot:
  assumes "0 < interval" "(s - phase) mod interval = 0" "s \<le> now div 1000"
  shows "s \<le> dueSlot now interval phase"
proof -
  have "interval dvd s - phase" using assms(2) by (simp add: mod_eq_0_iff_dvd)
  then obtain a where "s - phase = interval * a" by (rule dvdE)
  then have a: "s = a * interval + phase" by (simp add: algebra_simps)
  have "a = (a * interval) div interval" using assms(1) by simp
  also have "\<dots> \<le> (now div 1000 - phase) div interval"
    using assms a by (intro zdiv_mono1) auto
  finally show ?thesis using assms(1) a by (simp add: dueSlot_def Let_def)
qed

lemma sql_slot:
  assumes "phase \<le> now div 1000" "0 < interval"
  shows "sql_div (now div 1000 - phase) interval * interval + phase = dueSlot now interval phase"
  using assms by (simp add: sql_div_def dueSlot_def Let_def)

section \<open>The lease\<close>

definition scheduler_held :: "control_db \<Rightarrow> millis option" where
  "scheduler_held db = map_option sc_lease_until (row_of sc_singleton 1 (cd_scheduler db))"

definition scheduler_wf :: "control_db \<Rightarrow> bool" where
  "scheduler_wf db \<longleftrightarrow> keyed sc_singleton (cd_scheduler db)"

lemma same_scheduler [simp]: "db\<lparr>cd_scheduler := cd_scheduler db\<rparr> = db"
  by simp

lemma acquire_cases:
  "acquireSchedulerLease db now =
    (case row_of sc_singleton 1 (cd_scheduler db) of
       None \<Rightarrow> (db\<lparr>cd_scheduler := cd_scheduler db @ [\<lparr>sc_singleton = 1, sc_check_cursor = 0,
           sc_machine_cursor = 0, sc_lease_until = now + SCHEDULER_LEASE_MS, sc_updated_at = now\<rparr>]\<rparr>,
         Some \<lparr>checkCursor = 0, machineCursor = 0, leaseUntil = now + SCHEDULER_LEASE_MS\<rparr>)
     | Some r \<Rightarrow>
         (db\<lparr>cd_scheduler := update_where (\<lambda>old. sc_singleton old = 1 \<and> sc_lease_until old \<le> now)
            (\<lambda>old. old\<lparr>sc_lease_until := now + SCHEDULER_LEASE_MS, sc_updated_at := now\<rparr>) (cd_scheduler db)\<rparr>,
          if sc_lease_until r \<le> now
          then Some \<lparr>checkCursor = sc_check_cursor r, machineCursor = sc_machine_cursor r,
                     leaseUntil = now + SCHEDULER_LEASE_MS\<rparr>
          else None))"
  using row_of_None_iff [of sc_singleton 1 "cd_scheduler db"]
  by (auto simp: acquireSchedulerLease_def upsert_returning_eq upsert_def Let_def split: option.splits)

lemma singleton_update:
  assumes "keyed sc_singleton t" "row_of sc_singleton 1 t = Some r" "\<not> p r"
  shows "update_where (\<lambda>x. sc_singleton x = 1 \<and> p x) f t = t"
proof (rule update_where_none)
  fix x assume "x \<in> set t"
  then show "\<not> (sc_singleton x = 1 \<and> p x)"
    using row_of_SomeD [OF assms(2)] keyed_unique [OF assms(1), of x r] assms(3) by auto
qed

lemma singleton_count:
  assumes "keyed key t" "row_of key k t = Some r"
  shows "count_where (\<lambda>x. key x = k \<and> p x) t = (if p r then 1 else 0)"
  using assms
proof (induction t)
  case (Cons a t)
  have "filter (\<lambda>x. key x = key a \<and> p x) t = []"
    using Cons.prems(1) by (auto simp: filter_empty_conv has_key_def image_iff)
  with Cons show ?case by (auto simp: count_where_def split: if_splits)
qed simp

lemma release_held:
  "row_of sc_singleton 1 (cd_scheduler (fst (releaseSchedulerLease db l cur now))) =
    map_option (\<lambda>r. if sc_lease_until r = leaseUntil l
      then r\<lparr>sc_check_cursor := fst cur, sc_machine_cursor := snd cur, sc_lease_until := 0, sc_updated_at := now\<rparr>
      else r) (row_of sc_singleton 1 (cd_scheduler db))"
proof -
  let ?p = "\<lambda>r. sc_singleton r = 1 \<and> sc_lease_until r = leaseUntil l"
  let ?f = "\<lambda>r. r\<lparr>sc_check_cursor := fst cur, sc_machine_cursor := snd cur, sc_lease_until := 0, sc_updated_at := now\<rparr>"
  have "row_of sc_singleton 1 (update_where ?p ?f (cd_scheduler db)) =
      map_option (\<lambda>r. if ?p r then ?f r else r) (row_of sc_singleton 1 (cd_scheduler db))"
    by (rule row_of_update_where) simp
  then show ?thesis
    by (cases "row_of sc_singleton 1 (cd_scheduler db)")
      (auto simp: releaseSchedulerLease_def Let_def dest: row_of_SomeD)
qed

lemma release_result:
  assumes "scheduler_wf db" "row_of sc_singleton 1 (cd_scheduler db) = Some r"
  shows "snd (releaseSchedulerLease db l cur now) \<longleftrightarrow> sc_lease_until r = leaseUntil l"
  using singleton_count [OF _ assms(2), of "\<lambda>x. sc_lease_until x = leaseUntil l"] assms(1)
  by (simp add: releaseSchedulerLease_def scheduler_wf_def Let_def)

lemma release_none:
  assumes "row_of sc_singleton 1 (cd_scheduler db) = None"
  shows "releaseSchedulerLease db l cur now = (db, False)"
proof -
  have none: "\<not> (sc_singleton r = 1 \<and> sc_lease_until r = leaseUntil l)" if "r \<in> set (cd_scheduler db)" for r
    using assms that by (auto simp: row_of_None_iff has_key_def image_iff)
  then have "update_where (\<lambda>r. sc_singleton r = 1 \<and> sc_lease_until r = leaseUntil l) f (cd_scheduler db) =
      cd_scheduler db" for f
    by (intro update_where_none) auto
  moreover have "count_where (\<lambda>r. sc_singleton r = 1 \<and> sc_lease_until r = leaseUntil l) (cd_scheduler db) = 0"
    using none by (auto simp: count_where_zero)
  ultimately show ?thesis by (simp add: releaseSchedulerLease_def Let_def)
qed

interpretation scheduler: lease_table acquireSchedulerLease releaseSchedulerLease leaseUntil
  scheduler_held SCHEDULER_LEASE_MS scheduler_wf
proof (unfold_locales, goal_cases)
  case 1
  show ?case by (simp add: SCHEDULER_LEASE_MS_def)
next
  case (2 db now)
  then show ?case by (auto simp: acquire_cases scheduler_held_def split: option.splits)
next
  case (3 db u now)
  then obtain r where r: "row_of sc_singleton 1 (cd_scheduler db) = Some r" "sc_lease_until r = u"
    by (auto simp: scheduler_held_def)
  then show ?case
    using 3 singleton_update [of "cd_scheduler db" r "\<lambda>old. sc_lease_until old \<le> now"]
    by (simp add: acquire_cases scheduler_wf_def)
next
  case (4 db now db' l)
  show ?case
  proof (cases "row_of sc_singleton 1 (cd_scheduler db)")
    case None
    then show ?thesis using 4 by (auto simp: acquire_cases scheduler_held_def row_of_append)
  next
    case (Some r)
    then have "sc_lease_until r \<le> now" "l = \<lparr>checkCursor = sc_check_cursor r, machineCursor = sc_machine_cursor r,
        leaseUntil = now + SCHEDULER_LEASE_MS\<rparr>"
      "cd_scheduler db' = update_where (\<lambda>old. sc_singleton old = 1 \<and> sc_lease_until old \<le> now)
        (\<lambda>old. old\<lparr>sc_lease_until := now + SCHEDULER_LEASE_MS, sc_updated_at := now\<rparr>) (cd_scheduler db)"
      using 4 by (auto simp: acquire_cases split: if_splits)
    then show ?thesis
      using Some row_of_SomeD [OF Some] by (simp add: scheduler_held_def row_of_update_where)
  qed
next
  case (5 db l x now)
  then obtain r where r: "row_of sc_singleton 1 (cd_scheduler db) = Some r" "sc_lease_until r = leaseUntil l"
    by (auto simp: scheduler_held_def)
  then have "snd (releaseSchedulerLease db l x now)"
    using release_result [OF 5(1) r(1)] by simp
  then show ?case
    using r release_held [of db l x now]
    by (cases "releaseSchedulerLease db l x now") (auto simp: scheduler_held_def)
next
  case (6 db l x now)
  show ?case
  proof (cases "row_of sc_singleton 1 (cd_scheduler db)")
    case None
    then show ?thesis by (rule release_none)
  next
    case (Some r)
    then have ne: "sc_lease_until r \<noteq> leaseUntil l" using 6 by (simp add: scheduler_held_def)
    then show ?thesis
      using singleton_update [of "cd_scheduler db" r "\<lambda>x. sc_lease_until x = leaseUntil l"]
        release_result [OF 6(1) Some, of l x now] 6(1) Some
      by (simp add: releaseSchedulerLease_def scheduler_wf_def Let_def)
  qed
next
  case (7 db now)
  then have "keyed sc_singleton (update_where p (\<lambda>old. old\<lparr>sc_lease_until := a, sc_updated_at := b\<rparr>)
      (cd_scheduler db))" for p a b
    by (intro keyed_update_where) (auto simp: scheduler_wf_def)
  with 7 show ?case
    by (auto simp: acquire_cases scheduler_wf_def row_of_None_iff split: option.splits)
      (auto simp: keyed_def has_key_def)
next
  case (8 db l x now)
  then show ?case by (simp add: releaseSchedulerLease_def scheduler_wf_def keyed_update_where Let_def)
qed

section \<open>Batches\<close>

lemma process_batch_append:
  "process_batch f (xs @ ys) s =
    (let (s1, m) = process_batch f xs s; (s2, n) = process_batch f ys s1 in (s2, m + n))"
  by (induction xs arbitrary: s) (auto split: prod.splits)

text \<open>The loop works through a prefix of the candidates.\<close>

definition prefix_result ::
  "('c \<Rightarrow> 's \<Rightarrow> 's \<times> bool) \<Rightarrow> ('c \<Rightarrow> pk) \<Rightarrow> 'c list \<Rightarrow> nat \<Rightarrow> 's \<Rightarrow> 's \<Rightarrow> batch_progress \<Rightarrow> bool" where
  "prefix_result f key cs n s s' p \<longleftrightarrow> n \<le> length cs \<and>
     process_batch f (take n cs) s = (s', bp_failed p) \<and> bp_processed p = n \<and>
     bp_last_cursor p = (if n = 0 then None else Some (key (cs ! (n - 1))))"

lemma batch_loop_prefix:
  assumes "batch_loop canStart f key i bs p s1 = (s', p')"
    and "prefix_result f key (done_part @ concat bs) (length done_part) s s1 p"
    and "\<forall>b \<in> set bs. b \<noteq> []" "\<not> bp_deadline_reached p"
  shows "\<exists>n. prefix_result f key (done_part @ concat bs) n s s' p' \<and>
    (bp_deadline_reached p' \<longleftrightarrow> n < length (done_part @ concat bs))"
  using assms
proof (induction bs arbitrary: i p s1 done_part)
  case Nil
  then show ?case by (auto intro!: exI [of _ "length done_part"])
next
  case (Cons b bs)
  show ?case
  proof (cases "canStart i b")
    case False
    then have "s' = s1" "p' = p\<lparr>bp_deadline_reached := True\<rparr>" using Cons.prems(1) by auto
    then show ?thesis
      using Cons.prems(2,3) by (intro exI [of _ "length done_part"]) (auto simp: prefix_result_def)
  next
    case True
    obtain s2 m where b: "process_batch f b s1 = (s2, m)" by (cases "process_batch f b s1")
    let ?p = "p\<lparr>bp_processed := bp_processed p + length b, bp_failed := bp_failed p + m,
      bp_last_cursor := (if b = [] then bp_last_cursor p else Some (key (last b)))\<rparr>"
    have rest: "batch_loop canStart f key (i + 1) bs ?p s2 = (s', p')"
      using Cons.prems(1) True b by simp
    have ne: "b \<noteq> []" using Cons.prems(3) by simp
    have last: "(done_part @ b @ concat bs) ! (length done_part + length b - 1) = last b"
      using ne by (cases b rule: rev_cases) (auto simp: nth_append)
    have "prefix_result f key ((done_part @ b) @ concat bs) (length (done_part @ b)) s s2 ?p"
      using Cons.prems(2) b ne last
      by (auto simp: prefix_result_def process_batch_append split: prod.splits)
    then show ?thesis
      using Cons.IH [OF rest, of "done_part @ b"] Cons.prems(3,4) by simp
  qed
qed

section \<open>A check\<close>

lemma persist_returns: "\<exists>db'. persistCheckResult pf db config m t r = Inr db'"
proof (cases "stale_call pf db config m")
  case True
  then show ?thesis using persist_skipped by blast
next
  case False
  show ?thesis by (rule persist_written [OF False, of t r]) blast
qed

lemma claim_one:
  assumes "keyed cf_id (cd_checks control)" "r \<in> set (cd_checks control)" "claimable row slot r"
  shows "snd (claim_slot row slot control) = 1"
proof -
  have id: "cf_id r = cc_id row" using assms(3) by (simp add: claimable_def)
  have "row_of cf_id (cc_id row) (cd_checks control) = Some r"
    using row_of_keyed [OF assms(1,2)] id by simp
  from singleton_count [OF assms(1) this, of "claimable row slot"] assms(3)
  have "count_where (\<lambda>x. cf_id x = cc_id row \<and> claimable row slot x) (cd_checks control) = 1" by simp
  moreover have "(\<lambda>x. cf_id x = cc_id row \<and> claimable row slot x) = claimable row slot"
    by (auto simp: claimable_def)
  ultimately show ?thesis by (simp add: claim_slot_def)
qed

text \<open>What other requests do in between leaves the scheduler's row alone.\<close>

definition spares_lease :: "check_env \<Rightarrow> bool" where
  "spares_lease env \<longleftrightarrow> (\<forall>row control. cd_scheduler (en_meanwhile env row control) = cd_scheduler control)"

lemma processCheck_scheduler:
  assumes "spares_lease env"
  shows "cd_scheduler (fst (fst (processCheck env now row (control, db)))) = cd_scheduler control"
  using assms
  by (auto simp: processCheck_def spares_lease_def claim_slot_def restore_claim_def Let_def split: sum.splits)

lemma process_batch_scheduler:
  assumes "spares_lease env"
  shows "cd_scheduler (fst (fst (process_batch (processCheck env now) cs s))) = cd_scheduler (fst s)"
proof (induction cs arbitrary: s)
  case (Cons c cs)
  obtain control db where s: "s = (control, db)" by (cases s)
  show ?case
    using Cons processCheck_scheduler [OF assms, of now c control db]
    by (auto simp: s Let_def split: prod.splits) (metis fst_conv)
qed simp

lemma batch_loop_scheduler:
  assumes "spares_lease env"
  shows "cd_scheduler (fst (fst (batch_loop canStart (processCheck env now) cc_pk i bs p s))) = cd_scheduler (fst s)"
proof (induction bs arbitrary: i p s)
  case (Cons b bs)
  then show ?case
    using process_batch_scheduler [OF assms, of now b s]
    by (auto split: prod.splits)
qed simp

lemma sync_one_scheduler: "cd_scheduler (fst (sync_one pf now job s)) = cd_scheduler (fst s)"
proof -
  obtain control db progress where s: "s = (control, db, progress)" by (cases s)
  obtain control' db' progress' where r: "sync_one pf now job (control, db, progress) = (control', db', progress')"
    by (cases "sync_one pf now job (control, db, progress)")
  from r have "cd_scheduler control' = cd_scheduler control"
    by (rule sync_one_queue) (simp_all add: markServiceStateSyncAttempt_def)
  then show ?thesis by (simp add: s r)
qed

lemma sync_fold_scheduler: "cd_scheduler (fst (fold (sync_one pf now) rows s)) = cd_scheduler (fst s)"
  by (induction rows arbitrary: s) (auto simp: sync_one_scheduler)

lemma run_sync_scheduler: "cd_scheduler (fst (fst (run_sync env run s))) = cd_scheduler (fst s)"
  using sync_fold_scheduler
  by (cases s) (auto simp: run_sync_def reconcileServiceStateSyncJobs_def throw_def Let_def
      split: sum.splits prod.splits if_splits; metis fst_conv)

lemma body_scheduler:
  assumes "spares_lease env"
  shows "cd_scheduler (fst (fst (scheduled_body env run t lease (control, db)))) = cd_scheduler control"
proof (cases "rn_load_error run")
  case None
  obtain db1 lf where l: "run_liveness env run t (loadMachineLivenessCandidates control (machineCursor lease)) db = (db1, lf)"
    by (cases "run_liveness env run t (loadMachineLivenessCandidates control (machineCursor lease)) db")
  obtain dbs p where c: "runChecks env (rn_clock run) t (loadDueChecks control t (checkCursor lease))
      (rn_started run + RUN_WORK_BUDGET_MS) (control, db1) = (dbs, p)"
    by (cases "runChecks env (rn_clock run) t (loadDueChecks control t (checkCursor lease))
      (rn_started run + RUN_WORK_BUDGET_MS) (control, db1)")
  obtain dbs' sf where y: "run_sync env run dbs = (dbs', sf)" by (cases "run_sync env run dbs")
  have "cd_scheduler (fst dbs) = cd_scheduler control"
    using c batch_loop_scheduler [OF assms, of _ t 0 _ _ "(control, db1)"]
    unfolding runChecks_def processCheckBatches_def by (metis fst_conv)
  moreover have "cd_scheduler (fst dbs') = cd_scheduler (fst dbs)"
    using run_sync_scheduler [of env run dbs] y by simp
  ultimately show ?thesis using None l c y by (simp add: scheduled_body_def Let_def)
qed (simp add: scheduled_body_def)

section \<open>Properties\<close>

text \<open>
  \<open>dueSlot\<close> is the latest slot of the check's schedule: the greatest second that is not after now
  and differs from the phase by a multiple of the interval, so that less than one interval has passed
  since. The \<open>CAST\<close> expression with which \<open>loadDueChecks\<close> selects gives the same slot, so the selection is
  the test \<open>isDue\<close>, from the moment the phase has been reached.
\<close>

theorem dueSlot_latest:
  assumes "0 < interval"
  shows "dueSlot now interval phase \<le> now div 1000 \<and> now div 1000 < dueSlot now interval phase + interval \<and>
    (dueSlot now interval phase - phase) mod interval = 0 \<and>
    (\<forall>s. (s - phase) mod interval = 0 \<and> s \<le> now div 1000 \<longrightarrow> s \<le> dueSlot now interval phase) \<and>
    (\<forall>c. cf_interval c = interval \<and> cf_phase c = phase \<and> phase \<le> now div 1000 \<longrightarrow>
      sql_due (now div 1000) c = isDue now interval phase (cf_last_claimed_slot c))"
  using dueSlot_cong [OF assms, of now phase] dueSlot_greatest_slot [OF assms] sql_slot [OF _ assms]
  by (auto simp: sql_due_def isDue_def)

theorem dueSlot_latest_witness: "dueSlot 125999 60 7 = 67 \<and> 125 < dueSlot 125999 60 7 + 60"
proof -
  have "dueSlot 125999 60 7 = 67" by (simp add: dueSlot_def)
  with dueSlot_latest [of 60 125999 7] show ?thesis by simp
qed

text \<open>
  C13. At most one scheduled run is active. In every interleaving of runs that take the lease, are
  refused, give it back, give it back too late or die, at most one holder's lease has not expired; while
  one has not, every attempt to take the lease is refused and changes nothing; and once the stored
  expiry has passed, the next attempt succeeds.
\<close>

theorem scheduler_exclusive:
  assumes "lease_reach acquireSchedulerLease releaseSchedulerLease db0 t0 s" "scheduler_wf db0"
  shows "length (live_holders leaseUntil s) \<le> 1 \<and>
    (live_holders leaseUntil s \<noteq> [] \<longrightarrow>
      acquireSchedulerLease (ls_db s) (ls_clock s) = (ls_db s, None)) \<and>
    (\<forall>t. (\<forall>u. scheduler_held (ls_db s) = Some u \<longrightarrow> u \<le> t) \<longrightarrow>
      (\<exists>db' l. acquireSchedulerLease (ls_db s) t = (db', Some l)))"
  using scheduler.mutual_exclusion [OF assms] scheduler.live_lease_blocks [OF assms]
    scheduler.expired_lease_recovers [OF assms] by blast

theorem scheduler_exclusive_witness:
  "\<exists>s. lease_reach acquireSchedulerLease releaseSchedulerLease sample_control 1000 s \<and>
     length (live_holders leaseUntil s) = 1 \<and>
     acquireSchedulerLease (ls_db s) (ls_clock s) = (ls_db s, None)"
proof -
  let ?s = "\<lparr>ls_db = fst (acquireSchedulerLease sample_control 1000), ls_clock = 1000,
    ls_holders = [(0, \<lparr>checkCursor = 0, machineCursor = 0, leaseUntil = 901000\<rparr>)]\<rparr>"
  have acq: "acquireSchedulerLease sample_control 1000 = (fst (acquireSchedulerLease sample_control 1000),
      Some \<lparr>checkCursor = 0, machineCursor = 0, leaseUntil = 901000\<rparr>)"
    by (simp add: acquire_cases sample_control_def SCHEDULER_LEASE_MS_def)
  have reach: "lease_reach acquireSchedulerLease releaseSchedulerLease sample_control 1000 ?s"
    using lease_reach.step [OF lease_reach.start lease_step.acquired
        [of acquireSchedulerLease "\<lparr>ls_db = sample_control, ls_clock = 1000, ls_holders = []\<rparr>"]] acq
    by simp
  moreover have "scheduler_wf sample_control" by (simp add: scheduler_wf_def sample_control_def)
  moreover have "live_holders leaseUntil ?s \<noteq> []" by (simp add: live_holders_def)
  ultimately show ?thesis
    using scheduler_exclusive [OF reach]
    by (intro exI [of _ ?s]) (auto simp: live_holders_def)
qed

text \<open>
  The batches work through a prefix of the candidates: some number \<open>n\<close> of them is processed, in order
  and once each, the failures are counted, the cursor is the key of the last one processed (so that the
  next run continues behind it), and the deadline is reported exactly when some were left.
\<close>

theorem processCheckBatches_prefix:
  assumes "processCheckBatches canStart process key candidates s = (s', progress)"
  shows "\<exists>n \<le> length candidates.
    process_batch process (take n candidates) s = (s', bp_failed progress) \<and>
    bp_processed progress = n \<and>
    bp_last_cursor progress = (if n = 0 then None else Some (key (candidates ! (n - 1)))) \<and>
    (bp_deadline_reached progress \<longleftrightarrow> n < length candidates)"
proof -
  let ?p = "\<lparr>bp_processed = 0, bp_failed = 0, bp_last_cursor = None, bp_deadline_reached = False\<rparr>"
  have all: "[] @ concat (chunks MAX_CONCURRENCY candidates) = candidates"
    by (simp add: MAX_CONCURRENCY_def)
  have "prefix_result process key ([] @ concat (chunks MAX_CONCURRENCY candidates)) (length []) s s ?p"
    by (simp add: prefix_result_def)
  moreover have "\<forall>b \<in> set (chunks MAX_CONCURRENCY candidates). b \<noteq> []"
    using chunk_size by blast
  moreover have "\<not> bp_deadline_reached ?p" by simp
  ultimately have "\<exists>n. prefix_result process key candidates n s s' progress \<and>
      (bp_deadline_reached progress \<longleftrightarrow> n < length candidates)"
    using batch_loop_prefix [OF assms [unfolded processCheckBatches_def], of "[]" s] unfolding all by blast
  then show ?thesis by (auto simp: prefix_result_def)
qed

theorem processCheckBatches_prefix_witness:
  "\<exists>s' p. processCheckBatches (\<lambda>i b. i = 0) (\<lambda>c s. (s + c, False)) (\<lambda>c. c) [3, 4, 5, 6, 7, 8] (0 :: int) = (s', p) \<and>
     (\<exists>n \<le> 6. bp_processed p = n \<and> (bp_deadline_reached p \<longleftrightarrow> n < 6))"
proof -
  obtain s' p where r: "processCheckBatches (\<lambda>i b. i = 0) (\<lambda>c s. (s + c, False)) (\<lambda>c. c) [3, 4, 5, 6, 7, 8] (0 :: int) = (s', p)"
    by (cases "processCheckBatches (\<lambda>i b. i = 0) (\<lambda>c s. (s + c, False)) (\<lambda>c. c) [3, 4, 5, 6, 7, 8] (0 :: int)")
  show ?thesis using processCheckBatches_prefix [OF r] r by auto
qed

text \<open>
  Every branch of \<open>processCheck\<close>: without a claim nothing but the claim is tried; a check that was
  disabled, edited or claimed again while it ran is not persisted; a persisted result is that of the
  slot's first second; and when the telemetry database rejects, the last claimed slot is restored so that
  the slot can be taken again, the telemetry database is as before and the rejection is reported.
\<close>

theorem processCheck_branches:
  assumes "dueSlot now (cc_interval row) (cc_phase row) = slot"
    and "claim_slot row slot control = (claimed, changes)"
    and "en_meanwhile env row claimed = later"
  shows "processCheck env now row (control, db) =
    (if changes \<noteq> 1 then ((claimed, db), False)
     else if \<not> holds_claim row slot later then ((later, db), False)
     else if en_rejects env row = None
       then ((later, projr (persistCheckResult (en_platform env) db row (slot * 1000) (en_now env row)
               (execute_check env claimed row))), False)
     else ((restore_claim row slot later, db), True)) \<and>
    (\<forall>r \<in> set (cd_checks later). cf_id r = cc_id row \<and> cf_pk r = cc_pk row \<and>
      cf_revision r = cc_revision row \<and> cf_last_claimed_slot r = slot \<longrightarrow>
      r\<lparr>cf_last_claimed_slot := cc_last_claimed_slot row\<rparr> \<in> set (cd_checks (restore_claim row slot later)))"
proof -
  obtain db' where "persistCheckResult (en_platform env) db row (slot * 1000) (en_now env row)
      (execute_check env claimed row) = Inr db'"
    using persist_returns by blast
  then show ?thesis
    using assms
    by (auto simp: processCheck_def restore_claim_def set_update_where Let_def split: option.splits)
qed

definition sample_env :: check_env where
  "sample_env = \<lparr>en_platform = sample_platform, en_web = sample_web, en_gcm = sample_gcm, en_key = [],
     en_fetch = (\<lambda>_ _. sample_fetch),
     en_connect = (\<lambda>_ _ _. \<lparr>cn_opened = Inr (), cn_written = Inr (), cn_chunks = [], cn_elapsed = 1\<rparr>),
     en_now = (\<lambda>_. 61000), en_meanwhile = (\<lambda>_ c. c), en_rejects = (\<lambda>_. Some ''d1'')\<rparr>"

theorem processCheck_branches_witness:
  "snd (processCheck sample_env 61000 sample_config (sample_control\<lparr>cd_checks := [sample_check_row]\<rparr>, empty_db)) \<and>
   cd_checks (fst (fst (processCheck sample_env 61000 sample_config
     (sample_control\<lparr>cd_checks := [sample_check_row]\<rparr>, empty_db)))) = [sample_check_row]"
proof -
  let ?c = "sample_control\<lparr>cd_checks := [sample_check_row]\<rparr>"
  let ?c' = "?c\<lparr>cd_checks := [sample_check_row\<lparr>cf_last_claimed_slot := 60\<rparr>]\<rparr>"
  have slot: "dueSlot 61000 (cc_interval sample_config) (cc_phase sample_config) = 60"
    by (simp add: dueSlot_def sample_config_def)
  have claim: "claim_slot sample_config 60 ?c = (?c', 1)"
    by (simp add: claim_slot_def claimable_def sample_config_def sample_check_row_def count_where_def)
  have later: "en_meanwhile sample_env sample_config ?c' = ?c'" by (simp add: sample_env_def)
  show ?thesis
    using processCheck_branches [OF slot claim later, of empty_db]
    by (simp add: holds_claim_def restore_claim_def sample_config_def sample_check_row_def sample_env_def)
qed

text \<open>
  A run gives its lease back whatever happens: when the lease was taken, then after loading, liveness,
  checks and synchronisation, each of which may fail, the stored lease is free again, with the two cursors
  of the run; when the lease was refused, the run changes nothing and reports no error.
\<close>

theorem runScheduled_releases:
  assumes "scheduler_wf control" "spares_lease env"
    and "runScheduled env run scheduledAt (control, db) = ((control', db'), err)"
  shows "(\<forall>u. scheduler_held control = Some u \<and> rn_acquired run < u \<longrightarrow>
      control' = control \<and> db' = db \<and> err = None) \<and>
    ((\<forall>u. scheduler_held control = Some u \<longrightarrow> u \<le> rn_acquired run) \<longrightarrow> scheduler_held control' = Some 0)"
proof (intro conjI allI impI)
  fix u assume u: "scheduler_held control = Some u \<and> rn_acquired run < u"
  then have "acquireSchedulerLease control (rn_acquired run) = (control, None)"
    using scheduler.acquire_held [OF assms(1)] by blast
  then show "control' = control" "db' = db" "err = None"
    using assms(3) by (auto simp: runScheduled_def)
next
  assume free: "\<forall>u. scheduler_held control = Some u \<longrightarrow> u \<le> rn_acquired run"
  then have "case scheduler_held control of None \<Rightarrow> True | Some u \<Rightarrow> u \<le> rn_acquired run"
    by (simp split: option.splits)
  then obtain control1 lease where acq: "acquireSchedulerLease control (rn_acquired run) = (control1, Some lease)"
    using scheduler.acquire_free [OF assms(1)] by blast
  obtain control2 db2 cursors e where body: "scheduled_body env run scheduledAt lease (control1, db) =
      ((control2, db2), cursors, e)"
    by (cases "scheduled_body env run scheduledAt lease (control1, db)") auto
  have same: "cd_scheduler control2 = cd_scheduler control1"
    using body_scheduler [OF assms(2), of run scheduledAt lease control1 db] body by simp
  have "scheduler_held control1 = Some (leaseUntil lease)"
    using scheduler.acquire_token [OF assms(1) acq] by simp
  then have "scheduler_held control2 = Some (leaseUntil lease)" by (simp add: scheduler_held_def same)
  moreover have "scheduler_wf control2"
    using scheduler.wf_acquire [OF assms(1), of "rn_acquired run"] acq by (simp add: scheduler_wf_def same)
  ultimately obtain control3 where rel: "releaseSchedulerLease control2 lease cursors (rn_released run) = (control3, True)"
    "scheduler_held control3 = Some 0"
    using scheduler.release_current by blast
  then show "scheduler_held control' = Some 0"
    using assms(3) acq body by (simp add: runScheduled_def Let_def)
qed

definition sample_run_env :: run_env where
  "sample_run_env = \<lparr>rn_acquired = 1000, rn_started = 1000, rn_synced = 2000, rn_released = 3000,
     rn_clock = (\<lambda>_. 1000), rn_load_error = Some ''d1'', rn_liveness_error = False, rn_sync_error = False,
     rn_ingest = (\<lambda>d. d)\<rparr>"

theorem runScheduled_releases_witness:
  "scheduler_held (fst (fst (runScheduled sample_env sample_run_env 1000 (sample_control, empty_db)))) = Some 0"
proof -
  obtain c d e where r: "runScheduled sample_env sample_run_env 1000 (sample_control, empty_db) = ((c, d), e)"
    by (metis prod.collapse)
  have "scheduler_wf sample_control" "spares_lease sample_env"
    by (simp_all add: scheduler_wf_def sample_control_def spares_lease_def sample_env_def)
  from runScheduled_releases [OF this r] show ?thesis
    unfolding r by (simp add: scheduler_held_def sample_control_def)
qed

end
