(* ===== verification/Notification_Db.thy ===== *)
theory Notification_Db
  imports Scheduling_Correctness "HOL-Library.AList"
begin

text \<open>
  The rows of the control database that the notifications worker reads and writes
  (\<open>packages/db/migrations/control\<close>), its shared types (\<open>workers/notifications/src/types.ts\<close>), and the
  identity of a source event, which the deliveries are unique on.
\<close>

section \<open>Types\<close>

datatype notification_provider = Resend | Smtp | Discord | Telegram | Slack | Bark

datatype notification_dimension = Availability | Resource | Recovery

datatype notified_type = Machine_resource | Service_resource

record delivery_result =
  dr_ok :: bool
  retryable :: bool
  dr_status :: "int option"
  dr_error :: "string option"

fun dimension_text :: "notification_dimension \<Rightarrow> string" where
  "dimension_text Availability = ''availability''"
| "dimension_text Resource = ''resource''"
| "dimension_text Recovery = ''recovery''"

fun type_text :: "notified_type \<Rightarrow> string" where
  "type_text Machine_resource = ''machine''"
| "type_text Service_resource = ''service''"

section \<open>Rows\<close>

datatype delivery_state = Dl_pending | Dl_delivering | Dl_sent | Dl_dead

record delivery =
  dl_id :: string
  dl_workspace_id :: string
  dl_channel_id :: string
  dl_source_workspace :: pk
  dl_source_type :: int
  dl_source_pk :: pk
  dl_source_at :: millis
  dl_source_event :: string
  dl_dimension :: notification_dimension
  dl_payload_json :: string
  dl_state :: delivery_state
  dl_attempts :: int
  dl_next_attempt :: millis
  dl_claim_token :: "string option"
  dl_claim_until :: "millis option"
  dl_last_error :: "string option"
  dl_status :: "int option"
  dl_created_at :: millis
  dl_updated_at :: millis
  dl_sent_at :: "millis option"

record named_workspace =
  nw_id :: string
  nw_pk :: pk
  nw_name :: string
  nw_deleted_at :: "millis option"

record resource_row =
  rs_pk :: pk
  rs_id :: string
  rs_name :: string
  rs_workspace_id :: string
  rs_deleted_at :: "millis option"

record channel_row =
  ch_id :: string
  ch_workspace_id :: string
  ch_provider :: notification_provider
  ch_config_ciphertext :: blob
  ch_config_nonce :: blob
  ch_wrapping_key_id :: string
  ch_enabled :: int

record rule_row =
  ru_workspace_id :: string
  ru_type :: notified_type
  ru_resource_id :: string
  ru_dimension :: notification_dimension
  ru_channel_id :: string
  ru_enabled :: int

record notification_cursor =
  nc_singleton :: int
  last_sequence :: int
  nc_updated_at :: millis

record notification_db =
  nd_workspaces :: "named_workspace list"
  nd_machines :: "resource_row list"
  nd_services :: "resource_row list"
  nd_channels :: "channel_row list"
  nd_rules :: "rule_row list"
  nd_deliveries :: "delivery list"
  nd_cursors :: "notification_cursor list"

section \<open>Unique keys\<close>

type_synonym source_key = "string \<times> pk \<times> int \<times> pk \<times> millis \<times> string"

definition delivery_source :: "delivery \<Rightarrow> source_key" where
  "delivery_source d = (dl_channel_id d, dl_source_workspace d, dl_source_type d, dl_source_pk d,
     dl_source_at d, dl_source_event d)"

definition wf_deliveries :: "delivery list \<Rightarrow> bool" where
  "wf_deliveries t \<longleftrightarrow> keyed dl_id t \<and> keyed delivery_source t"

section \<open>The text of a source key\<close>

text \<open>Decimal and hexadecimal texts hold no colon, so the joined identity determines its parts.\<close>

lemma nat_to_string_digits: "c \<in> set (nat_to_string n) \<Longrightarrow> c \<in> set ''0123456789''"
proof (induction n rule: nat_to_string.induct)
  case (1 n)
  have d: "char_of (48 + k) \<in> set ''0123456789''" if "k < 10" for k :: nat
  proof -
    have "k \<in> {0, 1, 2, 3, 4, 5, 6, 7, 8, 9}" using that by auto
    then show ?thesis by (elim insertE emptyE; hypsubst; code_simp)
  qed
  show ?case
    using 1 d [of n] d [of "n mod 10"]
    by (subst (asm) nat_to_string.simps) (auto split: if_splits)
qed

lemma nat_to_string_nonempty: "nat_to_string n \<noteq> []"
  by (subst nat_to_string.simps) simp

lemma digit_inj:
  assumes "a < 10" "b < 10" "char_of (48 + a) = (char_of (48 + b) :: char)"
  shows "a = (b :: nat)"
proof -
  have "(of_char (char_of (48 + a) :: char) :: nat) = of_char (char_of (48 + b) :: char)"
    using assms(3) by simp
  then show ?thesis using assms(1,2) by simp
qed

lemma nat_to_string_inj: "nat_to_string m = nat_to_string n \<Longrightarrow> m = n"
proof (induction m arbitrary: n rule: nat_to_string.induct)
  case (1 m)
  show ?case
  proof (cases "m < 10")
    case True
    have "n < 10"
    proof (rule ccontr)
      assume "\<not> n < 10"
      then have "nat_to_string n = nat_to_string (n div 10) @ [char_of (48 + n mod 10)]"
        by (subst nat_to_string.simps) simp
      moreover have "nat_to_string m = [char_of (48 + m)]"
        using True by (subst nat_to_string.simps) simp
      ultimately show False using "1.prems" nat_to_string_nonempty by simp
    qed
    then show ?thesis
      using True "1.prems" by (simp add: nat_to_string.simps digit_inj)
  next
    case False
    have m: "nat_to_string m = nat_to_string (m div 10) @ [char_of (48 + m mod 10)]"
      using False by (subst nat_to_string.simps) simp
    have "\<not> n < 10"
    proof
      assume "n < 10"
      then have "nat_to_string n = [char_of (48 + n)]" by (subst nat_to_string.simps) simp
      then show False using "1.prems" m nat_to_string_nonempty by simp
    qed
    then have "nat_to_string n = nat_to_string (n div 10) @ [char_of (48 + n mod 10)]"
      by (subst nat_to_string.simps) simp
    then have "m div 10 = n div 10" "m mod 10 = n mod 10"
      using "1.prems" m "1.IH" [OF False] by (auto intro: digit_inj)
    then show ?thesis by (metis div_mult_mod_eq)
  qed
qed

lemma int_to_string_chars: "c \<in> set (int_to_string n) \<Longrightarrow> c \<in> set ''-0123456789''"
  using nat_to_string_digits [of c "nat n"] nat_to_string_digits [of c "nat (- n)"]
  unfolding int_to_string_def by (cases "n < 0") (simp_all del: set_simps, auto)

lemma int_to_string_colon: "CHR '':'' \<notin> set (int_to_string n)"
  using int_to_string_chars [of "CHR '':''" n] by auto

lemma int_to_string_inj: "int_to_string m = int_to_string n \<Longrightarrow> m = n"
proof -
  have "CHR ''-'' \<notin> set (nat_to_string k)" for k
    using nat_to_string_digits [of "CHR ''-''" k] by auto
  then have ne: "CHR ''-'' # nat_to_string a \<noteq> nat_to_string b" "nat_to_string b \<noteq> CHR ''-'' # nat_to_string a"
    for a b
    by (metis list.set_intros(1))+
  assume e: "int_to_string m = int_to_string n"
  show "m = n"
  proof (cases "m < 0"; cases "n < 0")
    assume "m < 0" "n < 0"
    then have "nat (- m) = nat (- n)" using e by (auto simp: int_to_string_def intro: nat_to_string_inj)
    with \<open>m < 0\<close> \<open>n < 0\<close> show ?thesis by simp
  next
    assume "\<not> m < 0" "\<not> n < 0"
    then have "nat m = nat n" using e by (auto simp: int_to_string_def intro: nat_to_string_inj)
    with \<open>\<not> m < 0\<close> \<open>\<not> n < 0\<close> show ?thesis by simp
  qed (use e ne in \<open>auto simp: int_to_string_def\<close>)
qed

lemma split_last_colon:
  assumes "a @ CHR '':'' # b = a' @ CHR '':'' # b'" "CHR '':'' \<notin> set b" "CHR '':'' \<notin> set b'"
  shows "a = a' \<and> b = b'"
proof -
  have "rev b @ CHR '':'' # rev a = rev b' @ CHR '':'' # rev a'"
    using arg_cong [OF assms(1), of rev] by simp
  then have "takeWhile (\<lambda>c. c \<noteq> CHR '':'') (rev b @ CHR '':'' # rev a) =
      takeWhile (\<lambda>c. c \<noteq> CHR '':'') (rev b' @ CHR '':'' # rev a')"
    by simp
  moreover have "takeWhile (\<lambda>c. c \<noteq> CHR '':'') (rev b @ CHR '':'' # rev a) = rev b"
    and "takeWhile (\<lambda>c. c \<noteq> CHR '':'') (rev b' @ CHR '':'' # rev a') = rev b'"
    using assms(2,3) by (subst takeWhile_append2; auto)+
  ultimately have "b = b'" by simp
  with assms(1) show ?thesis by simp
qed

end
