(* ===== verification/Retention.thy ===== *)
theory Retention
  imports Notification_Db
begin

text \<open>
  The retention worker (\<open>workers/retention/src\<close>): the workspace lease (\<open>cursor.ts\<close>), the history of the
  telemetry database (\<open>telemetry-retention.ts\<close>), the control database (\<open>control-retention.ts\<close>) and the
  artifact bucket (\<open>artifact-retention.ts\<close>). The purge of soft-deleted resources and the scheduled run are in
  their own theories.
\<close>

section \<open>Policies and tables\<close>

record retention_policy =
  rp_workspace_id :: string
  rp_workspace_pk :: pk
  rp_workspace_deleted_at :: "millis option"
  rp_workspace_purge_started_at :: "millis option"
  raw_days :: int
  rollup_5m_days :: int
  rollup_1h_days :: int
  event_days :: int
  audit_log_days :: int
  expired_announcement_grace_days :: int
  soft_delete_grace_days :: int

datatype retention_kind =
  Machine_raw | Machine_5m | Machine_1h | Check_raw | Check_5m | Check_1h | Status_5m | Event_kind

datatype control_table = Machines | Check_configs | Services

datatype telemetry_table =
  Telemetry_blocks_5m | Machine_rollups_5m | Machine_rollups_1h | Check_result_blocks_5m |
  Check_rollups_5m | Check_rollups_1h | Status_buckets

record retention_target =
  rg_kind :: retention_kind
  rg_control :: control_table
  rg_table :: telemetry_table
  rg_days :: "retention_policy \<Rightarrow> int"
  rg_resource_type :: "int option"
  rg_bucket_seconds :: "int option"

text \<open>A row of a history table: the columns that the statements read, and the rest of the row.\<close>

record history_row =
  hy_workspace :: pk
  hy_resource :: pk
  hy_time :: millis
  hy_type :: int
  hy_seconds :: int
  hy_payload :: blob

record cursor_row =
  cu_workspace_pk :: pk
  cu_kind :: retention_kind
  cu_resource_pk :: pk
  cu_time :: millis
  cu_lease_until :: millis
  cu_updated_at :: millis

record retention_run =
  rr_id :: string
  rr_started_at :: millis
  rr_completed_at :: "millis option"
  rr_deleted_rows :: int
  rr_workspace_cursor :: pk
  rr_error :: "string option"

record artifact_cursor =
  ac_prefix :: string
  ac_last_key :: string
  ac_lease_until :: millis
  ac_updated_at :: millis

text \<open>The tables of latest rows, by workspace and resource, and the replay state, by agent and key epoch.\<close>

datatype latest_table = Machine_latest | Check_latest | Service_latest

record retention_telemetry =
  rt_history :: "telemetry_table \<Rightarrow> history_row list"
  rt_latest :: "latest_table \<Rightarrow> (pk \<times> pk) list"
  rt_replay :: "(string \<times> int) list"
  rt_summaries :: "pk list"
  rt_events :: "state_event list"
  rt_cursors :: "cursor_row list"
  rt_runs :: "retention_run list"
  rt_artifacts :: "artifact_cursor list"

definition DAY_MS :: millis where "DAY_MS = 86400000"
definition RESOURCE_BATCH :: nat where "RESOURCE_BATCH = 40"
definition ROW_BATCH :: nat where "ROW_BATCH = 200"
definition WORKSPACE_LEASE_MS :: millis where "WORKSPACE_LEASE_MS = 15 * 60000"

section \<open>The lease of a workspace\<close>

record workspace_lease =
  wl_workspace_pk :: pk
  wl_lease_until :: millis
  wl_event_cursor :: millis

definition cursor_key :: "cursor_row \<Rightarrow> pk \<times> retention_kind" where
  "cursor_key c = (cu_workspace_pk c, cu_kind c)"

definition acquireWorkspaceRetentionLease ::
  "pk \<Rightarrow> cursor_row list \<Rightarrow> millis \<Rightarrow> cursor_row list \<times> workspace_lease option" where
  "acquireWorkspaceRetentionLease workspacePk t now =
     (let until = now + WORKSPACE_LEASE_MS;
          (rows, returned) = upsert_returning cursor_key
            \<lparr>cu_workspace_pk = workspacePk, cu_kind = Event_kind, cu_resource_pk = 0, cu_time = 0,
             cu_lease_until = until, cu_updated_at = now\<rparr>
            (\<lambda>old. cu_lease_until old \<le> now)
            (\<lambda>old. old\<lparr>cu_lease_until := until, cu_updated_at := now\<rparr>) t
      in (rows, map_option (\<lambda>r. \<lparr>wl_workspace_pk = workspacePk, wl_lease_until = until,
                                 wl_event_cursor = cu_time r\<rparr>) returned))"

definition is_held_lease :: "workspace_lease \<Rightarrow> cursor_row \<Rightarrow> bool" where
  "is_held_lease lease r \<longleftrightarrow> cursor_key r = (wl_workspace_pk lease, Event_kind) \<and>
     cu_lease_until r = wl_lease_until lease"

text \<open>The update, with whether it changed a row; the function throws when it did not.\<close>

definition release_workspace_statement ::
  "cursor_row list \<Rightarrow> workspace_lease \<Rightarrow> millis \<Rightarrow> millis \<Rightarrow> cursor_row list \<times> bool" where
  "release_workspace_statement t lease eventTimeCursor now =
     (update_where (is_held_lease lease)
        (\<lambda>r. r\<lparr>cu_time := eventTimeCursor, cu_lease_until := 0, cu_updated_at := now\<rparr>) t,
      count_where (is_held_lease lease) t = 1)"

definition releaseWorkspaceRetentionLease ::
  "cursor_row list \<Rightarrow> workspace_lease \<Rightarrow> millis \<Rightarrow> millis \<Rightarrow> cursor_row list \<times> unit result" where
  "releaseWorkspaceRetentionLease t lease eventTimeCursor now =
     (let (t', ok) = release_workspace_statement t lease eventTimeCursor now
      in (t', if ok then Inr () else throw ''retention_lease_lost''))"

section \<open>History of the telemetry database\<close>

definition MACHINE_RAW_TARGET :: retention_target where
  "MACHINE_RAW_TARGET = \<lparr>rg_kind = Machine_raw, rg_control = Machines, rg_table = Telemetry_blocks_5m,
     rg_days = raw_days, rg_resource_type = None, rg_bucket_seconds = None\<rparr>"

definition TARGETS :: "retention_target list" where
  "TARGETS = [MACHINE_RAW_TARGET,
     \<lparr>rg_kind = Machine_5m, rg_control = Machines, rg_table = Machine_rollups_5m, rg_days = rollup_5m_days,
      rg_resource_type = None, rg_bucket_seconds = None\<rparr>,
     \<lparr>rg_kind = Machine_1h, rg_control = Machines, rg_table = Machine_rollups_1h, rg_days = rollup_1h_days,
      rg_resource_type = None, rg_bucket_seconds = None\<rparr>,
     \<lparr>rg_kind = Check_raw, rg_control = Check_configs, rg_table = Check_result_blocks_5m, rg_days = raw_days,
      rg_resource_type = None, rg_bucket_seconds = None\<rparr>,
     \<lparr>rg_kind = Check_5m, rg_control = Check_configs, rg_table = Check_rollups_5m, rg_days = rollup_5m_days,
      rg_resource_type = None, rg_bucket_seconds = None\<rparr>,
     \<lparr>rg_kind = Check_1h, rg_control = Check_configs, rg_table = Check_rollups_1h, rg_days = rollup_1h_days,
      rg_resource_type = None, rg_bucket_seconds = None\<rparr>,
     \<lparr>rg_kind = Status_5m, rg_control = Services, rg_table = Status_buckets, rg_days = rollup_5m_days,
      rg_resource_type = Some 2, rg_bucket_seconds = Some 300\<rparr>]"

definition targetPredicates :: "retention_target \<Rightarrow> history_row \<Rightarrow> bool" where
  "targetPredicates target r \<longleftrightarrow>
     (case rg_resource_type target of None \<Rightarrow> True | Some t \<Rightarrow> hy_type r = t) \<and>
     (case rg_bucket_seconds target of None \<Rightarrow> True | Some s \<Rightarrow> hy_seconds r = s)"

definition due_row :: "retention_target \<Rightarrow> pk \<Rightarrow> millis \<Rightarrow> history_row \<Rightarrow> bool" where
  "due_row target resourcePk cutoff r \<longleftrightarrow>
     hy_resource r = resourcePk \<and> targetPredicates target r \<and> hy_time r < cutoff"

definition deleteResourceRows ::
  "retention_target \<Rightarrow> pk \<Rightarrow> millis \<Rightarrow> nat \<Rightarrow> history_row list \<Rightarrow> history_row list \<times> nat" where
  "deleteResourceRows target resourcePk cutoff rowBatch t =
     (let doomed = map (\<lambda>r. (hy_resource r, hy_time r))
            (select_limit (due_row target resourcePk cutoff) hy_time rowBatch t);
          p = (\<lambda>r. targetPredicates target r \<and> (hy_resource r, hy_time r) \<in> set doomed)
      in (delete_where p t, count_where p t))"

definition workspace_resources :: "control_db \<Rightarrow> control_table \<Rightarrow> string \<Rightarrow> pk list" where
  "workspace_resources control table workspaceId =
     (case table of
        Machines \<Rightarrow> map mc_pk (filter (\<lambda>m. mc_workspace_id m = workspaceId) (cd_machines control))
      | Check_configs \<Rightarrow> map cf_pk (filter (\<lambda>c. cf_workspace_id c = workspaceId) (cd_checks control))
      | Services \<Rightarrow> map sv_pk (filter (\<lambda>s. sv_workspace_id s = workspaceId) (cd_services control)))"

definition retention_resources ::
  "control_db \<Rightarrow> control_table \<Rightarrow> pk \<Rightarrow> pk \<Rightarrow> nat \<Rightarrow> pk list" where
  "retention_resources control table workspacePk cursor resourceBatch =
     select_limit (\<lambda>k. k > cursor) (\<lambda>k. k) resourceBatch
       (concat (map (\<lambda>w. workspace_resources control table (wk_id w))
         (filter (\<lambda>w. wk_pk w = workspacePk) (cd_workspaces control))))"

text \<open>
  The loop over the resources: the rows, the number deleted, the resource cursor, the completed cutoff
  and whether a batch was filled, which ends it.
\<close>

fun clean_resources ::
  "retention_target \<Rightarrow> millis \<Rightarrow> nat \<Rightarrow> pk list \<Rightarrow> history_row list \<times> nat \<times> pk \<times> millis \<Rightarrow>
   history_row list \<times> nat \<times> pk \<times> millis \<times> bool" where
  "clean_resources target cutoff rowBatch [] (t, deleted, cursor, done_cutoff) =
     (t, deleted, cursor, done_cutoff, False)"
| "clean_resources target cutoff rowBatch (k # ks) (t, deleted, cursor, done_cutoff) =
     (let (t', changes) = deleteResourceRows target k cutoff rowBatch t
      in if changes \<ge> rowBatch then (t', deleted + changes, cursor, done_cutoff, True)
         else clean_resources target cutoff rowBatch ks (t', deleted + changes, k, cutoff))"

definition cleanTelemetryTarget ::
  "control_db \<Rightarrow> retention_policy \<Rightarrow> retention_target \<Rightarrow> millis \<Rightarrow> nat \<Rightarrow> nat \<Rightarrow> retention_telemetry \<Rightarrow>
   retention_telemetry \<times> nat" where
  "cleanTelemetryTarget control policy target now resourceBatch rowBatch db =
     (let key = (rp_workspace_pk policy, rg_kind target);
          cursor = row_of cursor_key key (rt_cursors db);
          previous = (case cursor of None \<Rightarrow> 0 | Some c \<Rightarrow> cu_resource_pk c);
          cutoff = now - rg_days target policy * DAY_MS;
          resources = retention_resources control (rg_control target) (rp_workspace_pk policy) previous
            resourceBatch;
          (t, deleted, next, done_cutoff, filled) = clean_resources target cutoff rowBatch resources
            (rt_history db (rg_table target), 0, previous, case cursor of None \<Rightarrow> 0 | Some c \<Rightarrow> cu_time c);
          wrapped = (\<not> filled \<and> length resources < resourceBatch);
          row = \<lparr>cu_workspace_pk = rp_workspace_pk policy, cu_kind = rg_kind target,
                 cu_resource_pk = (if wrapped then 0 else next),
                 cu_time = (if wrapped then cutoff else done_cutoff), cu_lease_until = 0,
                 cu_updated_at = now\<rparr>
      in (db\<lparr>rt_history := (rt_history db)(rg_table target := t),
            rt_cursors := upsert cursor_key row (\<lambda>_. True)
              (\<lambda>old. old\<lparr>cu_resource_pk := cu_resource_pk row, cu_time := cu_time row, cu_updated_at := now\<rparr>)
              (rt_cursors db)\<rparr>,
          deleted))"

definition cleanTelemetryHistory ::
  "control_db \<Rightarrow> retention_policy \<Rightarrow> millis \<Rightarrow> retention_telemetry \<Rightarrow> retention_telemetry \<times> nat" where
  "cleanTelemetryHistory control policy now db =
     fold (\<lambda>target (d, n). let (d', k) = cleanTelemetryTarget control policy target now RESOURCE_BATCH
                                ROW_BATCH d in (d', n + k)) TARGETS (db, 0)"

definition cleanStateEvents ::
  "retention_policy \<Rightarrow> millis \<Rightarrow> millis \<Rightarrow> nat \<Rightarrow> state_event list \<Rightarrow> state_event list \<times> nat \<times> millis" where
  "cleanStateEvents policy previousTimeCursor now rowBatch events =
     (let cutoff = now - event_days policy * DAY_MS;
          (events', deleted) = delete_limit event_key
            (\<lambda>e. ev_workspace e = rp_workspace_pk policy \<and> ev_occurred_at e < cutoff) ev_occurred_at
            rowBatch events
      in (events', deleted, if deleted < rowBatch then cutoff else previousTimeCursor))"

section \<open>History of the control database\<close>

datatype command_state = Cmd_pending | Cmd_delivered | Cmd_succeeded | Cmd_failed | Cmd_expired

record agent_command =
  cmd_id :: string
  cmd_workspace_id :: string
  cmd_agent_id :: string
  cmd_state :: command_state
  cmd_expires_at :: millis
  cmd_completed_at :: "millis option"
  cmd_result_code :: "string option"

record announcement =
  an_id :: string
  an_workspace_id :: string
  an_expires_at :: millis
  an_deleted_at :: "millis option"

record audit_log =
  al_id :: string
  al_workspace_id :: string
  al_created_at :: millis

definition COMMAND_AUDIT_DAYS :: int where "COMMAND_AUDIT_DAYS = 30"
definition ORPHAN_SECRET_GRACE_MS :: millis where "ORPHAN_SECRET_GRACE_MS = DAY_MS"
definition ORPHAN_SECRET_BATCH :: nat where "ORPHAN_SECRET_BATCH = 50"

definition command_order :: "agent_command \<Rightarrow> millis \<times> string" where
  "command_order c = (case cmd_completed_at c of None \<Rightarrow> cmd_expires_at c | Some t \<Rightarrow> t, cmd_id c)"

definition deleteCommands ::
  "(agent_command \<Rightarrow> bool) \<Rightarrow> nat \<Rightarrow> agent_command list \<Rightarrow> agent_command list \<times> nat" where
  "deleteCommands predicate rowBatch t = delete_limit cmd_id predicate command_order rowBatch t"

definition abandoned_command :: "millis \<Rightarrow> agent_command \<Rightarrow> bool" where
  "abandoned_command cutoff c \<longleftrightarrow> cmd_state c \<in> {Cmd_pending, Cmd_delivered} \<and> cmd_expires_at c < cutoff"

definition terminal_command :: "millis \<Rightarrow> agent_command \<Rightarrow> bool" where
  "terminal_command cutoff c \<longleftrightarrow> cmd_state c \<in> {Cmd_succeeded, Cmd_failed, Cmd_expired} \<and>
     (case cmd_completed_at c of None \<Rightarrow> False | Some t \<Rightarrow> t < cutoff)"

definition overdue_command :: "millis \<Rightarrow> agent_command \<Rightarrow> bool" where
  "overdue_command now c \<longleftrightarrow> cmd_state c \<in> {Cmd_pending, Cmd_delivered} \<and> cmd_expires_at c \<le> now"

definition expire_command :: "agent_command \<Rightarrow> agent_command" where
  "expire_command c =
     c\<lparr>cmd_state := Cmd_expired,
       cmd_completed_at := coalesce (cmd_completed_at c) (Some (cmd_expires_at c)),
       cmd_result_code := coalesce (cmd_result_code c) (Some ''command_expired'')\<rparr>"

text \<open>The commands left, the number deleted and the number expired.\<close>

definition cleanAgentCommands ::
  "millis \<Rightarrow> nat \<Rightarrow> agent_command list \<Rightarrow> agent_command list \<times> nat \<times> nat" where
  "cleanAgentCommands now rowBatch t =
     (let auditCutoff = now - COMMAND_AUDIT_DAYS * DAY_MS;
          (t1, abandoned) = deleteCommands (abandoned_command auditCutoff) rowBatch t;
          (t2, terminal) = deleteCommands (terminal_command auditCutoff) rowBatch t1;
          doomed = map cmd_id (select_limit (overdue_command now) (\<lambda>c. (cmd_expires_at c, cmd_id c)) rowBatch t2);
          p = (\<lambda>c. cmd_id c \<in> set doomed)
      in (update_where p expire_command t2, abandoned + terminal, count_where p t2))"

definition expired_announcement :: "string \<Rightarrow> millis \<Rightarrow> announcement \<Rightarrow> bool" where
  "expired_announcement workspaceId cutoff a \<longleftrightarrow> an_workspace_id a = workspaceId \<and> an_expires_at a < cutoff"

definition announcement_order :: "announcement \<Rightarrow> millis \<times> string" where
  "announcement_order a = (an_expires_at a, an_id a)"

definition cleanExpiredAnnouncements ::
  "string \<Rightarrow> millis \<Rightarrow> int \<Rightarrow> nat \<Rightarrow> announcement list \<Rightarrow> announcement list \<times> nat" where
  "cleanExpiredAnnouncements workspaceId now graceDays rowBatch t =
     delete_limit an_id (expired_announcement workspaceId (now - graceDays * DAY_MS)) announcement_order
       rowBatch t"

definition old_audit_log :: "string \<Rightarrow> millis \<Rightarrow> audit_log \<Rightarrow> bool" where
  "old_audit_log workspaceId cutoff a \<longleftrightarrow> al_workspace_id a = workspaceId \<and> al_created_at a < cutoff"

definition audit_order :: "audit_log \<Rightarrow> millis \<times> string" where
  "audit_order a = (al_created_at a, al_id a)"

definition cleanAuditLogs ::
  "string \<Rightarrow> millis \<Rightarrow> int \<Rightarrow> nat \<Rightarrow> audit_log list \<Rightarrow> audit_log list \<times> nat" where
  "cleanAuditLogs workspaceId now retentionDays rowBatch t =
     delete_limit al_id (old_audit_log workspaceId (now - retentionDays * DAY_MS)) audit_order rowBatch t"

definition old_delivery :: "string \<Rightarrow> delivery_state \<Rightarrow> millis \<Rightarrow> delivery \<Rightarrow> bool" where
  "old_delivery workspaceId state cutoff d \<longleftrightarrow>
     dl_workspace_id d = workspaceId \<and> dl_state d = state \<and> dl_updated_at d < cutoff"

definition delivery_age :: "delivery \<Rightarrow> millis \<times> string" where
  "delivery_age d = (dl_updated_at d, dl_id d)"

definition cleanNotificationDeliveries ::
  "string \<Rightarrow> millis \<Rightarrow> int \<Rightarrow> int \<Rightarrow> delivery list \<Rightarrow> delivery list \<times> nat result" where
  "cleanNotificationDeliveries workspaceId now retentionDays rowBatch t =
     (if rowBatch < 1 \<or> rowBatch > 200
      then (t, throw ''notification retention batch must be between 1 and 200'')
      else
        let (t', n) = fold (\<lambda>state (t, n).
             let (t', k) = delete_limit dl_id (old_delivery workspaceId state (now - retentionDays * DAY_MS))
                   delivery_age (nat rowBatch) t
             in (t', n + k)) [Dl_sent, Dl_dead] (t, 0)
        in (t', Inr n))"

text \<open>\<open>json_tree\<close> on the reference document: every text value in it, at any depth.\<close>

fun json_texts :: "json \<Rightarrow> string list" where
  "json_texts (JStr s) = [s]"
| "json_texts (JArr xs) = concat (map json_texts xs)"
| "json_texts (JObj ps) = concat (map (\<lambda>(k, v). json_texts v) ps)"
| "json_texts _ = []"

definition referenced_secret :: "platform \<Rightarrow> control_db \<Rightarrow> secret_row \<Rightarrow> bool" where
  "referenced_secret pf control s \<longleftrightarrow>
     list_ex (\<lambda>c. cf_workspace_id c = se_workspace_id s \<and>
       (case JSON_parse pf (cf_secret_refs_json c) of
          None \<Rightarrow> False | Some v \<Rightarrow> se_id s \<in> set (json_texts v))) (cd_checks control)"

definition orphan_secret :: "platform \<Rightarrow> control_db \<Rightarrow> string \<Rightarrow> millis \<Rightarrow> secret_row \<Rightarrow> bool" where
  "orphan_secret pf control workspaceId cutoff s \<longleftrightarrow>
     se_workspace_id s = workspaceId \<and> se_created_at s < cutoff \<and> \<not> referenced_secret pf control s"

definition cleanOrphanCheckSecrets ::
  "platform \<Rightarrow> control_db \<Rightarrow> string \<Rightarrow> millis \<Rightarrow> int \<Rightarrow> secret_row list \<Rightarrow> secret_row list \<times> nat result" where
  "cleanOrphanCheckSecrets pf control workspaceId now rowBatch t =
     (if rowBatch < 1 \<or> rowBatch > int ORPHAN_SECRET_BATCH
      then (t, throw ''orphan check secret batch must be between 1 and 50'')
      else
        let (t', n) = delete_limit se_id (orphan_secret pf control workspaceId (now - ORPHAN_SECRET_GRACE_MS))
              se_id (nat rowBatch) t
        in (t', Inr n))"

section \<open>The artifact bucket\<close>

text \<open>
  The object store is a service: listing (keys after \<open>startAfter\<close> under a prefix, with the expiry entry of
  their metadata and whether more follow) and deletion are fields of a record.
\<close>

record r2_object =
  ob_key :: string
  ob_expiry :: "string option"

record r2_listing =
  li_objects :: "r2_object list"
  li_truncated :: bool

record 'b r2_bucket =
  r2_list :: "'b \<Rightarrow> string \<Rightarrow> string option \<Rightarrow> int \<Rightarrow> r2_listing"
  r2_delete :: "'b \<Rightarrow> string list \<Rightarrow> 'b"

definition ARTIFACT_PREFIXES :: "string list" where
  "ARTIFACT_PREFIXES = [''exports/v1/'', ''backups/v1/'']"
definition LIST_BATCH :: int where "LIST_BATCH = 500"
definition ARTIFACT_LEASE_MS :: millis where "ARTIFACT_LEASE_MS = 5 * 60000"

fun decimal_value :: "int \<Rightarrow> string \<Rightarrow> int" where
  "decimal_value acc [] = acc"
| "decimal_value acc (c # s) = decimal_value (acc * 10 + (char_code c - 48)) s"

definition expiredAt :: "r2_object \<Rightarrow> millis \<Rightarrow> bool" where
  "expiredAt object now =
     (case ob_expiry object of
        None \<Rightarrow> False
      | Some raw \<Rightarrow>
          raw \<noteq> [] \<and> length raw \<le> 16 \<and> list_all (between CHR ''0'' CHR ''9'') raw \<and>
          is_safe_integer (decimal_value 0 raw) \<and> decimal_value 0 raw \<le> now)"

record artifact_prefix_lease =
  lastKey :: string
  al_leaseUntil :: millis

definition acquirePrefixLease ::
  "string \<Rightarrow> artifact_cursor list \<Rightarrow> millis \<Rightarrow> artifact_cursor list \<times> artifact_prefix_lease option" where
  "acquirePrefixLease prefix t now =
     (let until = now + ARTIFACT_LEASE_MS;
          (rows, returned) = upsert_returning ac_prefix
            \<lparr>ac_prefix = prefix, ac_last_key = [], ac_lease_until = until, ac_updated_at = now\<rparr>
            (\<lambda>old. ac_lease_until old \<le> now)
            (\<lambda>old. old\<lparr>ac_lease_until := until, ac_updated_at := now\<rparr>) t
      in (rows, map_option (\<lambda>r. \<lparr>lastKey = ac_last_key r, al_leaseUntil = until\<rparr>) returned))"

definition release_prefix_statement ::
  "string \<Rightarrow> artifact_cursor list \<Rightarrow> artifact_prefix_lease \<Rightarrow> string \<Rightarrow> millis \<Rightarrow> artifact_cursor list \<times> bool" where
  "release_prefix_statement prefix t lease key now =
     (let p = (\<lambda>r. ac_prefix r = prefix \<and> ac_lease_until r = al_leaseUntil lease)
      in (update_where p (\<lambda>r. r\<lparr>ac_last_key := key, ac_lease_until := 0, ac_updated_at := now\<rparr>) t,
          count_where p t = 1))"

definition releasePrefixLease ::
  "artifact_cursor list \<Rightarrow> string \<Rightarrow> string \<Rightarrow> artifact_prefix_lease \<Rightarrow> millis \<Rightarrow>
   artifact_cursor list \<times> unit result" where
  "releasePrefixLease t prefix key lease now =
     (let (t', ok) = release_prefix_statement prefix t lease key now
      in (t', if ok then Inr () else throw ''artifact_retention_lease_lost''))"

record prefix_result =
  px_scanned :: nat
  px_deleted :: nat
  px_skipped :: bool

definition cleanPrefix ::
  "'b r2_bucket \<Rightarrow> string \<Rightarrow> millis \<Rightarrow> int \<Rightarrow> artifact_cursor list \<times> 'b \<Rightarrow>
   (artifact_cursor list \<times> 'b) \<times> prefix_result result" where
  "cleanPrefix r2 prefix now limit = (\<lambda>(cursors, bucket).
     case acquirePrefixLease prefix cursors now of
       (cursors1, None) \<Rightarrow>
         ((cursors1, bucket), Inr \<lparr>px_scanned = 0, px_deleted = 0, px_skipped = True\<rparr>)
     | (cursors1, Some cursor) \<Rightarrow>
         let listed = r2_list r2 bucket prefix (if lastKey cursor = [] then None else Some (lastKey cursor)) limit;
             expiredKeys = map ob_key (filter (\<lambda>ob. expiredAt ob now) (li_objects listed));
             bucket1 = (if expiredKeys = [] then bucket else r2_delete r2 bucket expiredKeys);
             finalKey = (if li_objects listed = [] then [] else ob_key (last (li_objects listed)));
             nextKey = (if li_truncated listed \<and> finalKey \<noteq> [] then finalKey else []);
             (cursors2, released) = releasePrefixLease cursors1 prefix nextKey cursor now
         in ((cursors2, bucket1),
             bind_result released (\<lambda>_. Inr \<lparr>px_scanned = length (li_objects listed),
               px_deleted = length expiredKeys, px_skipped = False\<rparr>)))"

record artifact_cleanup_result =
  ar_scanned :: nat
  ar_deleted :: nat
  skippedPrefixes :: nat

fun clean_prefixes ::
  "'b r2_bucket \<Rightarrow> millis \<Rightarrow> int \<Rightarrow> string list \<Rightarrow> artifact_cleanup_result \<Rightarrow> artifact_cursor list \<times> 'b \<Rightarrow>
   (artifact_cursor list \<times> 'b) \<times> artifact_cleanup_result result" where
  "clean_prefixes r2 now limit [] acc s = (s, Inr acc)"
| "clean_prefixes r2 now limit (p # ps) acc s =
     (case cleanPrefix r2 p now limit s of
        (s', Inl e) \<Rightarrow> (s', Inl e)
      | (s', Inr r) \<Rightarrow> clean_prefixes r2 now limit ps
          \<lparr>ar_scanned = ar_scanned acc + px_scanned r, ar_deleted = ar_deleted acc + px_deleted r,
           skippedPrefixes = skippedPrefixes acc + (if px_skipped r then 1 else 0)\<rparr> s')"

definition cleanArtifactBucket ::
  "'b r2_bucket \<Rightarrow> millis \<Rightarrow> int \<Rightarrow> artifact_cursor list \<times> 'b \<Rightarrow>
   (artifact_cursor list \<times> 'b) \<times> artifact_cleanup_result result" where
  "cleanArtifactBucket r2 now limit s =
     (if limit < 1 \<or> limit > 1000 then (s, throw ''artifact list batch must be between 1 and 1000'')
      else clean_prefixes r2 now limit ARTIFACT_PREFIXES
        \<lparr>ar_scanned = 0, ar_deleted = 0, skippedPrefixes = 0\<rparr> s)"

end
