(* ===== verification/Soft_Delete.thy ===== *)
theory Soft_Delete
  imports Retention Membership
begin

text \<open>
  The purge of soft-deleted resources (\<open>workers/retention/src/soft-delete.ts\<close> and
  \<open>soft-delete-telemetry.ts\<close>): after a grace period a machine or a service is claimed, its telemetry is
  removed in bounded batches, page by page of its agents or checks, and its control row follows once nothing
  of it is left; containers, dashboards, incidents and announcements follow at once, and a workspace when
  none of its resources is left. Deleting a control row deletes the rows that refer to it with
  \<open>ON DELETE CASCADE\<close> (\<open>packages/db/migrations/control\<close>), as far as the model has the tables; the trigger on
  memberships aborts the deletion of a workspace that has an active administrator.
\<close>

section \<open>State\<close>

record policy_settings =
  ps_workspace_id :: string
  ps_raw_days :: int
  ps_rollup_5m_days :: int
  ps_rollup_1h_days :: int
  ps_event_days :: int
  ps_audit_log_days :: int
  ps_announcement_days :: int
  ps_soft_delete_days :: int

record agent_row =
  ag_id :: string
  ag_workspace_id :: string
  ag_machine_id :: string

record container_row =
  ct_id :: string
  ct_workspace_id :: string
  ct_machine_id :: string
  ct_deleted_at :: "millis option"

text \<open>Dashboards and incidents.\<close>

record owned_row =
  ow_id :: string
  ow_workspace_id :: string
  ow_deleted_at :: "millis option"

text \<open>Grants and public policies of a resource, and the resources of a dashboard or an incident.\<close>

record access_row =
  ax_workspace_id :: string
  ax_type :: string
  ax_resource_id :: string

record member_row =
  mb_owner :: string
  mb_type :: string
  mb_resource_id :: string

record retention_control =
  rc_db :: control_db
  rc_policies :: "policy_settings list"
  rc_commands :: "agent_command list"
  rc_announcements :: "announcement list"
  rc_audit_logs :: "audit_log list"
  rc_deliveries :: "delivery list"
  rc_agents :: "agent_row list"
  rc_containers :: "container_row list"
  rc_dashboards :: "owned_row list"
  rc_incidents :: "owned_row list"
  rc_grants :: "access_row list"
  rc_public_policies :: "access_row list"
  rc_dashboard_resources :: "member_row list"
  rc_incident_resources :: "member_row list"
  rc_memberships :: "membership list"

definition PURGE_RESOURCE_BATCH :: nat where "PURGE_RESOURCE_BATCH = 10"
definition CONTROL_ONLY_BATCH :: nat where "CONTROL_ONLY_BATCH = 50"
definition RELATED_RESOURCE_BATCH :: nat where "RELATED_RESOURCE_BATCH = 50"
definition SECRET_BATCH :: nat where "SECRET_BATCH = 40"
definition ID_BATCH :: nat where "ID_BATCH = 50"

section \<open>Telemetry of a resource\<close>

definition MACHINE_TARGETS :: "telemetry_table list" where
  "MACHINE_TARGETS = [Telemetry_blocks_5m, Machine_rollups_5m, Machine_rollups_1h]"

definition CHECK_TARGETS :: "telemetry_table list" where
  "CHECK_TARGETS = [Check_result_blocks_5m, Check_rollups_5m, Check_rollups_1h]"

definition timed_key :: "history_row \<Rightarrow> pk \<times> millis" where
  "timed_key r = (hy_resource r, hy_time r)"

definition bucket_key :: "history_row \<Rightarrow> int \<times> pk \<times> int \<times> millis" where
  "bucket_key r = (hy_type r, hy_resource r, hy_seconds r, hy_time r)"

text \<open>Statements on one table of the history, on the events and on the replay state, with the rows removed.\<close>

definition on_history ::
  "telemetry_table \<Rightarrow> (history_row list \<Rightarrow> history_row list \<times> nat) \<Rightarrow> retention_telemetry \<Rightarrow>
   retention_telemetry \<times> nat" where
  "on_history table f db =
     (let (t, n) = f (rt_history db table) in (db\<lparr>rt_history := (rt_history db)(table := t)\<rparr>, n))"

definition deleteTimedResourceRows ::
  "telemetry_table \<Rightarrow> pk \<Rightarrow> pk \<Rightarrow> nat \<Rightarrow> retention_telemetry \<Rightarrow> retention_telemetry \<times> nat" where
  "deleteTimedResourceRows table workspacePk resourcePk rowBatch =
     on_history table (delete_limit timed_key
       (\<lambda>r. hy_workspace r = workspacePk \<and> hy_resource r = resourcePk) hy_time rowBatch)"

definition resource_event :: "int \<Rightarrow> pk \<Rightarrow> pk \<Rightarrow> state_event \<Rightarrow> bool" where
  "resource_event rtype workspacePk resourcePk e \<longleftrightarrow>
     ev_workspace e = workspacePk \<and> ev_type e = rtype \<and> ev_resource_pk e = resourcePk"

definition deleteResourceEvents ::
  "int \<Rightarrow> pk \<Rightarrow> pk \<Rightarrow> nat \<Rightarrow> retention_telemetry \<Rightarrow> retention_telemetry \<times> nat" where
  "deleteResourceEvents rtype workspacePk resourcePk rowBatch db =
     (let doomed = map event_key (select_limit (resource_event rtype workspacePk resourcePk)
            (\<lambda>e. (ev_occurred_at e, ev_id e)) rowBatch (rt_events db));
          p = (\<lambda>e. ev_workspace e = workspacePk \<and> event_key e \<in> set doomed)
      in (db\<lparr>rt_events := delete_where p (rt_events db)\<rparr>, count_where p (rt_events db)))"

definition resource_bucket :: "int \<Rightarrow> pk \<Rightarrow> pk \<Rightarrow> history_row \<Rightarrow> bool" where
  "resource_bucket rtype workspacePk resourcePk r \<longleftrightarrow>
     hy_workspace r = workspacePk \<and> hy_type r = rtype \<and> hy_resource r = resourcePk"

definition deleteStatusBuckets ::
  "int \<Rightarrow> pk \<Rightarrow> pk \<Rightarrow> nat \<Rightarrow> retention_telemetry \<Rightarrow> retention_telemetry \<times> nat" where
  "deleteStatusBuckets rtype workspacePk resourcePk rowBatch =
     on_history Status_buckets (\<lambda>t.
       let doomed = map bucket_key (select_limit (resource_bucket rtype workspacePk resourcePk)
             (\<lambda>r. (hy_seconds r, hy_time r)) rowBatch t);
           p = (\<lambda>r. hy_workspace r = workspacePk \<and> bucket_key r \<in> set doomed)
       in (delete_where p t, count_where p t))"

text \<open>\<open>DELETE FROM .. WHERE workspace_pk = ? AND .. IN (..)\<close> on a table of latest rows.\<close>

definition delete_latest ::
  "latest_table \<Rightarrow> pk \<Rightarrow> pk list \<Rightarrow> retention_telemetry \<Rightarrow> retention_telemetry \<times> nat" where
  "delete_latest table workspacePk resourcePks db =
     (let p = (\<lambda>(w, k). w = workspacePk \<and> k \<in> set resourcePks)
      in (db\<lparr>rt_latest := (rt_latest db)(table := delete_where p (rt_latest db table))\<rparr>,
          count_where p (rt_latest db table)))"

definition delete_replay ::
  "nat \<Rightarrow> string list \<Rightarrow> retention_telemetry \<Rightarrow> retention_telemetry \<times> nat" where
  "delete_replay rowBatch ids db =
     (let (t, n) = delete_limit (\<lambda>r. r) (\<lambda>(agent, epoch). agent \<in> set ids) (\<lambda>r. r) rowBatch (rt_replay db)
      in (db\<lparr>rt_replay := t\<rparr>, n))"

text \<open>Statements one after the other, adding up the rows removed.\<close>

fun purge_steps ::
  "('s \<Rightarrow> 's \<times> nat) list \<Rightarrow> nat \<Rightarrow> 's \<Rightarrow> 's \<times> nat" where
  "purge_steps [] n s = (s, n)"
| "purge_steps (f # fs) n s = (let (s', k) = f s in purge_steps fs (n + k) s')"

definition deleteAgentReplayRows ::
  "string list \<Rightarrow> nat \<Rightarrow> retention_telemetry \<Rightarrow> retention_telemetry \<times> nat" where
  "deleteAgentReplayRows agentIds rowBatch = purge_steps (map (delete_replay rowBatch) (chunks ID_BATCH agentIds)) 0"

definition has_history :: "telemetry_table \<Rightarrow> pk \<Rightarrow> pk list \<Rightarrow> retention_telemetry \<Rightarrow> bool" where
  "has_history table workspacePk resourcePks db \<longleftrightarrow>
     list_ex (\<lambda>r. hy_workspace r = workspacePk \<and> hy_resource r \<in> set resourcePks) (rt_history db table)"

definition has_latest :: "latest_table \<Rightarrow> pk \<Rightarrow> pk list \<Rightarrow> retention_telemetry \<Rightarrow> bool" where
  "has_latest table workspacePk resourcePks db \<longleftrightarrow>
     list_ex (\<lambda>(w, k). w = workspacePk \<and> k \<in> set resourcePks) (rt_latest db table)"

definition has_events :: "int \<Rightarrow> pk \<Rightarrow> pk \<Rightarrow> retention_telemetry \<Rightarrow> bool" where
  "has_events rtype workspacePk resourcePk db \<longleftrightarrow>
     list_ex (resource_event rtype workspacePk resourcePk) (rt_events db) \<or>
     list_ex (resource_bucket rtype workspacePk resourcePk) (rt_history db Status_buckets)"

definition has_replay :: "string list \<Rightarrow> retention_telemetry \<Rightarrow> bool" where
  "has_replay ids db \<longleftrightarrow> list_ex (\<lambda>(agent, epoch). agent \<in> set ids) (rt_replay db)"

definition machineTelemetryRemains :: "pk \<Rightarrow> pk \<Rightarrow> string list \<Rightarrow> retention_telemetry \<Rightarrow> bool" where
  "machineTelemetryRemains workspacePk machinePk agentIds db \<longleftrightarrow>
     list_ex (\<lambda>table. has_history table workspacePk [machinePk] db) MACHINE_TARGETS \<or>
     has_latest Machine_latest workspacePk [machinePk] db \<or> has_events 1 workspacePk machinePk db \<or>
     list_ex (\<lambda>ids. has_replay ids db) (chunks ID_BATCH agentIds)"

text \<open>The telemetry left, whether nothing of the machine and its agents is in it, and the rows removed.\<close>

definition purgeMachineTelemetry ::
  "pk \<Rightarrow> pk \<Rightarrow> string list \<Rightarrow> nat \<Rightarrow> retention_telemetry \<Rightarrow> retention_telemetry \<times> bool \<times> nat" where
  "purgeMachineTelemetry workspacePk machinePk agentIds rowBatch db =
     (let (db', deleted) = purge_steps
            (map (\<lambda>table. deleteTimedResourceRows table workspacePk machinePk rowBatch) MACHINE_TARGETS @
             [deleteResourceEvents 1 workspacePk machinePk rowBatch,
              deleteStatusBuckets 1 workspacePk machinePk rowBatch,
              delete_latest Machine_latest workspacePk [machinePk],
              deleteAgentReplayRows agentIds rowBatch]) 0 db
      in (db', \<not> machineTelemetryRemains workspacePk machinePk agentIds db', deleted))"

definition deleteCheckRows ::
  "pk \<Rightarrow> pk list \<Rightarrow> nat \<Rightarrow> telemetry_table \<Rightarrow> retention_telemetry \<Rightarrow> retention_telemetry \<times> nat" where
  "deleteCheckRows workspacePk checkPks rowBatch table =
     purge_steps (map (\<lambda>ids. on_history table (delete_limit timed_key
       (\<lambda>r. hy_workspace r = workspacePk \<and> hy_resource r \<in> set ids) timed_key rowBatch))
       (chunks ID_BATCH checkPks)) 0"

definition checkTelemetryRemains :: "pk \<Rightarrow> pk list \<Rightarrow> retention_telemetry \<Rightarrow> bool" where
  "checkTelemetryRemains workspacePk checkPks db \<longleftrightarrow>
     list_ex (\<lambda>ids. list_ex (\<lambda>table. has_history table workspacePk ids db) CHECK_TARGETS \<or>
       has_latest Check_latest workspacePk ids db) (chunks ID_BATCH checkPks)"

definition purgeServiceTelemetry ::
  "pk \<Rightarrow> pk \<Rightarrow> pk list \<Rightarrow> nat \<Rightarrow> retention_telemetry \<Rightarrow> retention_telemetry \<times> bool \<times> nat" where
  "purgeServiceTelemetry workspacePk servicePk checkPks rowBatch db =
     (let (db', deleted) = purge_steps
            (map (deleteCheckRows workspacePk checkPks rowBatch) CHECK_TARGETS @
             map (delete_latest Check_latest workspacePk) (chunks ID_BATCH checkPks) @
             [deleteResourceEvents 2 workspacePk servicePk rowBatch,
              deleteStatusBuckets 2 workspacePk servicePk rowBatch,
              delete_latest Service_latest workspacePk [servicePk]]) 0 db
      in (db', \<not> (has_latest Service_latest workspacePk [servicePk] db' \<or> has_events 2 workspacePk servicePk db') \<and>
            \<not> checkTelemetryRemains workspacePk checkPks db', deleted))"

definition workspaceTelemetryIsEmpty :: "pk \<Rightarrow> retention_telemetry \<Rightarrow> bool" where
  "workspaceTelemetryIsEmpty workspacePk db \<longleftrightarrow>
     \<not> (list_ex (\<lambda>table. list_ex (\<lambda>r. hy_workspace r = workspacePk) (rt_history db table))
          (MACHINE_TARGETS @ CHECK_TARGETS @ [Status_buckets]) \<or>
        list_ex (\<lambda>table. list_ex (\<lambda>(w, k). w = workspacePk) (rt_latest db table))
          [Machine_latest, Check_latest, Service_latest] \<or>
        list_ex (\<lambda>e. ev_workspace e = workspacePk) (rt_events db))"

definition deleteWorkspaceTelemetryState :: "pk \<Rightarrow> retention_telemetry \<Rightarrow> retention_telemetry \<times> nat" where
  "deleteWorkspaceTelemetryState workspacePk db =
     (db\<lparr>rt_summaries := delete_where (\<lambda>k. k = workspacePk) (rt_summaries db),
         rt_cursors := delete_where (\<lambda>c. cu_workspace_pk c = workspacePk) (rt_cursors db)\<rparr>,
      count_where (\<lambda>k. k = workspacePk) (rt_summaries db) +
      count_where (\<lambda>c. cu_workspace_pk c = workspacePk) (rt_cursors db))"

section \<open>Cascades\<close>

definition update_db :: "(control_db \<Rightarrow> control_db) \<Rightarrow> retention_control \<Rightarrow> retention_control" where
  "update_db f c = c\<lparr>rc_db := f (rc_db c)\<rparr>"

definition delete_agents :: "(agent_row \<Rightarrow> bool) \<Rightarrow> retention_control \<Rightarrow> retention_control" where
  "delete_agents p c =
     (let gone = map ag_id (filter p (rc_agents c))
      in c\<lparr>rc_agents := delete_where p (rc_agents c),
           rc_commands := delete_where (\<lambda>m. cmd_agent_id m \<in> set gone) (rc_commands c)\<rparr>)"

definition delete_machines :: "(machine_row \<Rightarrow> bool) \<Rightarrow> retention_control \<Rightarrow> retention_control" where
  "delete_machines p c =
     (let gone = map mc_id (filter p (cd_machines (rc_db c)));
          c1 = delete_agents (\<lambda>a. ag_machine_id a \<in> set gone) c
      in update_db (\<lambda>db. db\<lparr>cd_machines := delete_where p (cd_machines db)\<rparr>)
           (c1\<lparr>rc_containers := delete_where (\<lambda>t. ct_machine_id t \<in> set gone) (rc_containers c1)\<rparr>))"

definition delete_services :: "(service_row \<Rightarrow> bool) \<Rightarrow> retention_control \<Rightarrow> retention_control" where
  "delete_services p =
     update_db (\<lambda>db.
       let gone = map sv_id (filter p (cd_services db))
       in db\<lparr>cd_services := delete_where p (cd_services db),
             cd_checks := delete_where (\<lambda>c. cf_service_id c \<in> set gone) (cd_checks db)\<rparr>)"

definition delete_dashboards :: "(owned_row \<Rightarrow> bool) \<Rightarrow> retention_control \<Rightarrow> retention_control" where
  "delete_dashboards p c =
     (let gone = map ow_id (filter p (rc_dashboards c))
      in c\<lparr>rc_dashboards := delete_where p (rc_dashboards c),
           rc_dashboard_resources := delete_where (\<lambda>m. mb_owner m \<in> set gone) (rc_dashboard_resources c)\<rparr>)"

definition delete_incidents :: "(owned_row \<Rightarrow> bool) \<Rightarrow> retention_control \<Rightarrow> retention_control" where
  "delete_incidents p c =
     (let gone = map ow_id (filter p (rc_incidents c))
      in c\<lparr>rc_incidents := delete_where p (rc_incidents c),
           rc_incident_resources := delete_where (\<lambda>m. mb_owner m \<in> set gone) (rc_incident_resources c)\<rparr>)"

definition delete_workspace_rows :: "string \<Rightarrow> retention_control \<Rightarrow> retention_control" where
  "delete_workspace_rows w c =
     (let c1 = delete_machines (\<lambda>m. mc_workspace_id m = w) (delete_services (\<lambda>s. sv_workspace_id s = w) c);
          c2 = delete_incidents (\<lambda>i. ow_workspace_id i = w) (delete_dashboards (\<lambda>d. ow_workspace_id d = w) c1);
          c3 = delete_agents (\<lambda>a. ag_workspace_id a = w) c2
      in update_db (\<lambda>db. db\<lparr>cd_checks := delete_where (\<lambda>k. cf_workspace_id k = w) (cd_checks db),
             cd_secrets := delete_where (\<lambda>k. se_workspace_id k = w) (cd_secrets db),
             cd_sync_jobs := delete_where (\<lambda>j. sj_workspaceId j = w) (cd_sync_jobs db)\<rparr>)
           (c3\<lparr>rc_policies := delete_where (\<lambda>p. ps_workspace_id p = w) (rc_policies c3),
               rc_commands := delete_where (\<lambda>m. cmd_workspace_id m = w) (rc_commands c3),
               rc_announcements := delete_where (\<lambda>a. an_workspace_id a = w) (rc_announcements c3),
               rc_audit_logs := delete_where (\<lambda>a. al_workspace_id a = w) (rc_audit_logs c3),
               rc_deliveries := delete_where (\<lambda>d. dl_workspace_id d = w) (rc_deliveries c3),
               rc_containers := delete_where (\<lambda>t. ct_workspace_id t = w) (rc_containers c3),
               rc_grants := delete_where (\<lambda>g. ax_workspace_id g = w) (rc_grants c3),
               rc_public_policies := delete_where (\<lambda>g. ax_workspace_id g = w) (rc_public_policies c3)\<rparr>))"

text \<open>The rows of all tables but \<open>memberships\<close>, whose trigger may abort the statement.\<close>

definition delete_owned :: "(workspace_row \<Rightarrow> bool) \<Rightarrow> retention_control \<Rightarrow> retention_control" where
  "delete_owned p c =
     (let c1 = fold delete_workspace_rows (map wk_id (filter p (cd_workspaces (rc_db c)))) c
      in update_db (\<lambda>db. db\<lparr>cd_workspaces := delete_where p (cd_workspaces db)\<rparr>) c1)"

fun cascade_all :: "string list \<Rightarrow> membership list \<Rightarrow> membership list option" where
  "cascade_all [] t = Some t"
| "cascade_all (w # ws) t = Option.bind (cascade_memberships w t) (cascade_all ws)"

definition delete_workspaces ::
  "(workspace_row \<Rightarrow> bool) \<Rightarrow> retention_control \<Rightarrow> retention_control option" where
  "delete_workspaces p c =
     map_option (\<lambda>t. (delete_owned p c)\<lparr>rc_memberships := t\<rparr>)
       (cascade_all (map wk_id (filter p (cd_workspaces (rc_db c)))) (rc_memberships c))"

section \<open>Claims\<close>

text \<open>\<open>deleted_at <= cutoff\<close> and \<open>COALESCE(deleted_at, workspace_deleted_at) <= cutoff\<close>, false on NULL.\<close>

definition deleted_before :: "millis option \<Rightarrow> millis \<Rightarrow> bool" where
  "deleted_before deleted cutoff \<longleftrightarrow> (case deleted of None \<Rightarrow> False | Some t \<Rightarrow> t \<le> cutoff)"

definition expired_in :: "retention_policy \<Rightarrow> millis \<Rightarrow> string \<Rightarrow> millis option \<Rightarrow> bool" where
  "expired_in policy cutoff workspaceId deleted \<longleftrightarrow>
     workspaceId = rp_workspace_id policy \<and>
     deleted_before (coalesce deleted (rp_workspace_deleted_at policy)) cutoff"

definition claimable_workspace :: "retention_policy \<Rightarrow> millis \<Rightarrow> workspace_row \<Rightarrow> bool" where
  "claimable_workspace policy cutoff w \<longleftrightarrow>
     wk_id w = rp_workspace_id policy \<and> wk_deleted_at w \<noteq> None \<and>
     wk_deleted_at w = rp_workspace_deleted_at policy \<and> deleted_before (wk_deleted_at w) cutoff"

definition claimWorkspaceFinalization ::
  "retention_policy \<Rightarrow> millis \<Rightarrow> millis \<Rightarrow> retention_control \<Rightarrow> retention_control \<times> bool" where
  "claimWorkspaceFinalization policy cutoff now c =
     (if \<not> deleted_before (rp_workspace_deleted_at policy) cutoff then (c, True)
      else
        (update_db (\<lambda>db. db\<lparr>cd_workspaces := update_where (claimable_workspace policy cutoff)
           (\<lambda>w. w\<lparr>wk_purge_started_at := coalesce (wk_purge_started_at w) (Some now)\<rparr>) (cd_workspaces db)\<rparr>) c,
         list_ex (claimable_workspace policy cutoff) (cd_workspaces (rc_db c))))"

text \<open>A machine or a service as the loops read it, with its cursor over agents or checks.\<close>

record 'c deleted_resource =
  dr_id :: string
  dr_pk :: pk
  dr_deleted_at :: "millis option"
  dr_cursor :: 'c

definition workspace_claimed :: "retention_policy \<Rightarrow> control_db \<Rightarrow> bool" where
  "workspace_claimed policy db \<longleftrightarrow>
     list_ex (\<lambda>w. wk_id w = rp_workspace_id policy \<and> wk_deleted_at w \<noteq> None \<and>
       wk_deleted_at w = rp_workspace_deleted_at policy \<and> wk_purge_started_at w \<noteq> None) (cd_workspaces db)"

text \<open>The guard of the claim of a resource, on the id, workspace and deletion time of a row.\<close>

definition claimable_resource ::
  "retention_policy \<Rightarrow> 'c deleted_resource \<Rightarrow> millis \<Rightarrow> control_db \<Rightarrow> string \<Rightarrow> string \<Rightarrow> millis option \<Rightarrow> bool" where
  "claimable_resource policy resource cutoff db rowId workspaceId deleted \<longleftrightarrow>
     rowId = dr_id resource \<and> workspaceId = rp_workspace_id policy \<and>
     (case dr_deleted_at resource of
        None \<Rightarrow> deleted = None \<and> workspace_claimed policy db
      | Some t \<Rightarrow> deleted = Some t \<and> t \<le> cutoff)"

definition claim_machine ::
  "retention_policy \<Rightarrow> string deleted_resource \<Rightarrow> millis \<Rightarrow> millis \<Rightarrow> retention_control \<Rightarrow>
   retention_control \<times> bool" where
  "claim_machine policy resource cutoff now c =
     (let p = (\<lambda>m. claimable_resource policy resource cutoff (rc_db c) (mc_id m) (mc_workspace_id m)
            (mc_deleted_at m))
      in (update_db (\<lambda>db. db\<lparr>cd_machines := update_where p
            (\<lambda>m. m\<lparr>mc_purge_started_at := coalesce (mc_purge_started_at m) (Some now)\<rparr>) (cd_machines db)\<rparr>) c,
          list_ex p (cd_machines (rc_db c))))"

definition claim_service ::
  "retention_policy \<Rightarrow> pk deleted_resource \<Rightarrow> millis \<Rightarrow> millis \<Rightarrow> retention_control \<Rightarrow>
   retention_control \<times> bool" where
  "claim_service policy resource cutoff now c =
     (let p = (\<lambda>s. claimable_resource policy resource cutoff (rc_db c) (sv_id s) (sv_workspace_id s)
            (sv_deleted_at s))
      in (update_db (\<lambda>db. db\<lparr>cd_services := update_where p
            (\<lambda>s. s\<lparr>sv_purge_started_at := coalesce (sv_purge_started_at s) (Some now)\<rparr>) (cd_services db)\<rparr>) c,
          list_ex p (cd_services (rc_db c))))"

definition deleted_machines :: "control_db \<Rightarrow> retention_policy \<Rightarrow> millis \<Rightarrow> string deleted_resource list" where
  "deleted_machines db policy cutoff =
     map (\<lambda>m. \<lparr>dr_id = mc_id m, dr_pk = mc_pk m, dr_deleted_at = mc_deleted_at m,
               dr_cursor = mc_purge_agent_cursor m\<rparr>)
       (select_limit (\<lambda>m. expired_in policy cutoff (mc_workspace_id m) (mc_deleted_at m)) mc_pk
         PURGE_RESOURCE_BATCH (cd_machines db))"

definition deleted_services :: "control_db \<Rightarrow> retention_policy \<Rightarrow> millis \<Rightarrow> pk deleted_resource list" where
  "deleted_services db policy cutoff =
     map (\<lambda>s. \<lparr>dr_id = sv_id s, dr_pk = sv_pk s, dr_deleted_at = sv_deleted_at s,
               dr_cursor = sv_purge_check_cursor s\<rparr>)
       (select_limit (\<lambda>s. expired_in policy cutoff (sv_workspace_id s) (sv_deleted_at s)) sv_pk
         PURGE_RESOURCE_BATCH (cd_services db))"

section \<open>Machines\<close>

type_synonym purge_state = "retention_control \<times> retention_telemetry"

definition advance_agent_cursor ::
  "retention_policy \<Rightarrow> string \<Rightarrow> string \<Rightarrow> string \<Rightarrow> retention_control \<Rightarrow> retention_control \<times> unit result" where
  "advance_agent_cursor policy rid previousCursor nextCursor c =
     (let p = (\<lambda>m. mc_id m = rid \<and> mc_workspace_id m = rp_workspace_id policy \<and>
            mc_purge_started_at m \<noteq> None \<and> mc_purge_agent_cursor m = previousCursor);
          machines = cd_machines (rc_db c)
      in (update_db (\<lambda>db. db\<lparr>cd_machines :=
            update_where p (\<lambda>m. m\<lparr>mc_purge_agent_cursor := nextCursor\<rparr>) machines\<rparr>) c,
          if count_where p machines \<noteq> 1 then throw ''soft_delete_related_cursor_conflict'' else Inr ()))"

definition loadAgentPage :: "agent_row list \<Rightarrow> string \<Rightarrow> string \<Rightarrow> string list \<times> bool" where
  "loadAgentPage agents machineId cursor =
     (let page = select_limit (\<lambda>a. ag_machine_id a = machineId \<and> ag_id a > cursor) ag_id
            (RELATED_RESOURCE_BATCH + 1) agents
      in (map ag_id (take RELATED_RESOURCE_BATCH page), length page > RELATED_RESOURCE_BATCH))"

definition assertAgentCursor :: "agent_row list \<Rightarrow> string \<Rightarrow> string \<Rightarrow> unit result" where
  "assertAgentCursor agents machineId cursor =
     (if cursor = [] \<or> list_ex (\<lambda>a. ag_id a = cursor \<and> ag_machine_id a = machineId) agents then Inr ()
      else throw ''soft_delete_agent_cursor_invalid'')"

text \<open>The access rows of a machine and of the containers on it.\<close>

definition machine_access :: "retention_policy \<Rightarrow> string \<Rightarrow> container_row list \<Rightarrow> access_row \<Rightarrow> bool" where
  "machine_access policy machineId containers g \<longleftrightarrow>
     ax_workspace_id g = rp_workspace_id policy \<and>
     (ax_type g = ''machine'' \<and> ax_resource_id g = machineId \<or>
      ax_type g = ''container'' \<and>
        list_ex (\<lambda>t. ct_id t = ax_resource_id g \<and> ct_machine_id t = machineId) containers)"

definition shown_resource :: "string \<Rightarrow> string \<Rightarrow> member_row \<Rightarrow> bool" where
  "shown_resource rtype rid m \<longleftrightarrow> mb_type m = rtype \<and> mb_resource_id m = rid"

definition doomed_machine :: "retention_policy \<Rightarrow> string \<Rightarrow> millis \<Rightarrow> machine_row \<Rightarrow> bool" where
  "doomed_machine policy machineId cutoff m \<longleftrightarrow>
     mc_id m = machineId \<and> mc_purge_started_at m \<noteq> None \<and>
     expired_in policy cutoff (mc_workspace_id m) (mc_deleted_at m)"

definition detached_check :: "agent_row list \<Rightarrow> string \<Rightarrow> check_row \<Rightarrow> bool" where
  "detached_check agents machineId k \<longleftrightarrow>
     (case cf_executor_agent_id k of
        None \<Rightarrow> False
      | Some agent \<Rightarrow> list_ex (\<lambda>a. ag_id a = agent \<and> ag_machine_id a = machineId) agents)"

definition finalizeMachineControl ::
  "retention_policy \<Rightarrow> string \<Rightarrow> millis \<Rightarrow> retention_control \<Rightarrow> retention_control \<times> nat" where
  "finalizeMachineControl policy machineId cutoff c =
     (let checks = cd_checks (rc_db c);
          c1 = update_db (\<lambda>db. db\<lparr>cd_checks := update_where (detached_check (rc_agents c) machineId)
            (\<lambda>k. k\<lparr>cf_enabled := 0, cf_executor_agent_id := None\<rparr>) checks\<rparr>) c;
          access = machine_access policy machineId (rc_containers c1);
          shown = shown_resource ''machine'' machineId;
          c2 = c1\<lparr>rc_grants := delete_where access (rc_grants c1),
                  rc_public_policies := delete_where access (rc_public_policies c1),
                  rc_dashboard_resources := delete_where shown (rc_dashboard_resources c1),
                  rc_incident_resources := delete_where shown (rc_incident_resources c1)\<rparr>;
          doomed = doomed_machine policy machineId cutoff
      in (delete_machines doomed c2,
          count_where (detached_check (rc_agents c) machineId) checks + count_where access (rc_grants c1) +
          count_where access (rc_public_policies c1) + count_where shown (rc_dashboard_resources c1) +
          count_where shown (rc_incident_resources c1) + count_where doomed (cd_machines (rc_db c2))))"

definition finalize_machine ::
  "retention_policy \<Rightarrow> millis \<Rightarrow> millis \<Rightarrow> string deleted_resource \<Rightarrow> purge_state \<Rightarrow>
   purge_state \<times> nat result" where
  "finalize_machine policy cutoff now machineRow = (\<lambda>(c, tel).
     case claim_machine policy machineRow cutoff now c of
       (c1, False) \<Rightarrow> ((c1, tel), Inr 0)
     | (c1, True) \<Rightarrow>
         let cursor = dr_cursor machineRow in
         case assertAgentCursor (rc_agents c1) (dr_id machineRow) cursor of
           Inl e \<Rightarrow> ((c1, tel), Inl e)
         | Inr _ \<Rightarrow>
             let (agents, hasMore) = loadAgentPage (rc_agents c1) (dr_id machineRow) cursor;
                 (tel1, complete, deleted) = purgeMachineTelemetry (rp_workspace_pk policy) (dr_pk machineRow)
                   agents ROW_BATCH tel
             in if \<not> complete then ((c1, tel1), Inr deleted)
                else if hasMore then
                  (if agents = [] then ((c1, tel1), throw ''soft_delete_agent_page_empty'')
                   else
                     let (c2, advanced) = advance_agent_cursor policy (dr_id machineRow) cursor (last agents) c1
                     in ((c2, tel1), bind_result advanced (\<lambda>_. Inr deleted)))
                else
                  let (c2, n) = finalizeMachineControl policy (dr_id machineRow) cutoff c1
                  in ((c2, tel1), Inr (deleted + n)))"

text \<open>Steps that may throw, in order, adding up what they removed.\<close>

fun run_steps ::
  "('s \<Rightarrow> 's \<times> nat result) list \<Rightarrow> nat \<Rightarrow> 's \<Rightarrow> 's \<times> nat result" where
  "run_steps [] n s = (s, Inr n)"
| "run_steps (f # fs) n s =
     (case f s of (s', Inl e) \<Rightarrow> (s', Inl e) | (s', Inr k) \<Rightarrow> run_steps fs (n + k) s')"

definition finalizeMachines ::
  "retention_policy \<Rightarrow> millis \<Rightarrow> millis \<Rightarrow> purge_state \<Rightarrow> purge_state \<times> nat result" where
  "finalizeMachines policy cutoff now s =
     run_steps (map (finalize_machine policy cutoff now) (deleted_machines (rc_db (fst s)) policy cutoff)) 0 s"

section \<open>Services\<close>

definition advance_check_cursor ::
  "retention_policy \<Rightarrow> string \<Rightarrow> pk \<Rightarrow> pk \<Rightarrow> retention_control \<Rightarrow> retention_control \<times> unit result" where
  "advance_check_cursor policy rid previousCursor nextCursor c =
     (let p = (\<lambda>s. sv_id s = rid \<and> sv_workspace_id s = rp_workspace_id policy \<and>
            sv_purge_started_at s \<noteq> None \<and> sv_purge_check_cursor s = previousCursor);
          services = cd_services (rc_db c)
      in (update_db (\<lambda>db. db\<lparr>cd_services :=
            update_where p (\<lambda>s. s\<lparr>sv_purge_check_cursor := nextCursor\<rparr>) services\<rparr>) c,
          if count_where p services \<noteq> 1 then throw ''soft_delete_related_cursor_conflict'' else Inr ()))"

definition loadCheckPage ::
  "retention_policy \<Rightarrow> check_row list \<Rightarrow> string \<Rightarrow> pk \<Rightarrow> check_row list \<times> bool" where
  "loadCheckPage policy checks serviceId cursor =
     (let page = select_limit (\<lambda>k. cf_workspace_id k = rp_workspace_id policy \<and> cf_service_id k = serviceId \<and>
            cf_pk k > cursor) cf_pk (RELATED_RESOURCE_BATCH + 1) checks
      in (take RELATED_RESOURCE_BATCH page, length page > RELATED_RESOURCE_BATCH))"

definition assertCheckCursor ::
  "retention_policy \<Rightarrow> check_row list \<Rightarrow> string \<Rightarrow> pk \<Rightarrow> unit result" where
  "assertCheckCursor policy checks serviceId cursor =
     (if \<not> is_safe_integer cursor \<or> cursor < 0 then throw ''soft_delete_check_cursor_invalid''
      else if cursor = 0 \<or> list_ex (\<lambda>k. cf_workspace_id k = rp_workspace_id policy \<and>
        cf_service_id k = serviceId \<and> cf_pk k = cursor) checks then Inr ()
      else throw ''soft_delete_check_cursor_invalid'')"

text \<open>\<open>Object.values\<close> of a header object or array, and the strings of the set in the order of insertion.\<close>

definition header_values :: "json option \<Rightarrow> json list" where
  "header_values v =
     (case v of Some (JObj ps) \<Rightarrow> map snd ps | Some (JArr xs) \<Rightarrow> xs | _ \<Rightarrow> [])"

fun string_values :: "json list \<Rightarrow> string list" where
  "string_values [] = []"
| "string_values (JStr s # vs) = s # string_values vs"
| "string_values (_ # vs) = string_values vs"

definition row_secret_ids :: "platform \<Rightarrow> check_row \<Rightarrow> string list" where
  "row_secret_ids pf row =
     (case JSON_parse pf (cf_secret_refs_json row) of
        Some (JObj ps) \<Rightarrow>
          string_values (header_values (jfield ps ''headers'')) @
          string_values (concat (map (\<lambda>key. case jfield ps key of None \<Rightarrow> [] | Some v \<Rightarrow> [v])
            [''body'', ''tcpPayload'']))
      | _ \<Rightarrow> [])"

definition collectSecretIds :: "platform \<Rightarrow> check_row list \<Rightarrow> string list" where
  "collectSecretIds pf rows =
     rev (remdups (rev (concat (map (row_secret_ids pf) rows))))"

definition delete_secret_batch ::
  "string \<Rightarrow> string list \<Rightarrow> retention_control \<Rightarrow> retention_control \<times> nat" where
  "delete_secret_batch workspaceId ids c =
     (let p = (\<lambda>k. se_workspace_id k = workspaceId \<and> se_id k \<in> set ids)
      in (update_db (\<lambda>db. db\<lparr>cd_secrets := delete_where p (cd_secrets db)\<rparr>) c,
          count_where p (cd_secrets (rc_db c))))"

definition deleteSecrets ::
  "string \<Rightarrow> string list \<Rightarrow> retention_control \<Rightarrow> retention_control \<times> nat" where
  "deleteSecrets workspaceId ids = purge_steps (map (delete_secret_batch workspaceId) (chunks SECRET_BATCH ids)) 0"

definition service_access :: "retention_policy \<Rightarrow> string \<Rightarrow> access_row \<Rightarrow> bool" where
  "service_access policy serviceId g \<longleftrightarrow>
     ax_workspace_id g = rp_workspace_id policy \<and> ax_type g = ''service'' \<and> ax_resource_id g = serviceId"

definition doomed_service :: "retention_policy \<Rightarrow> string \<Rightarrow> millis \<Rightarrow> service_row \<Rightarrow> bool" where
  "doomed_service policy serviceId cutoff s \<longleftrightarrow>
     sv_id s = serviceId \<and> sv_purge_started_at s \<noteq> None \<and>
     expired_in policy cutoff (sv_workspace_id s) (sv_deleted_at s)"

definition finalizeServiceControl ::
  "retention_policy \<Rightarrow> string \<Rightarrow> millis \<Rightarrow> retention_control \<Rightarrow> retention_control \<times> nat" where
  "finalizeServiceControl policy serviceId cutoff c =
     (let shown = shown_resource ''service'' serviceId;
          access = service_access policy serviceId;
          c1 = c\<lparr>rc_dashboard_resources := delete_where shown (rc_dashboard_resources c),
                 rc_grants := delete_where access (rc_grants c),
                 rc_public_policies := delete_where access (rc_public_policies c),
                 rc_incident_resources := delete_where shown (rc_incident_resources c)\<rparr>;
          doomed = doomed_service policy serviceId cutoff
      in (delete_services doomed c1,
          count_where shown (rc_dashboard_resources c) + count_where access (rc_grants c) +
          count_where access (rc_public_policies c) + count_where shown (rc_incident_resources c) +
          count_where doomed (cd_services (rc_db c))))"

definition finalize_service ::
  "platform \<Rightarrow> retention_policy \<Rightarrow> millis \<Rightarrow> millis \<Rightarrow> pk deleted_resource \<Rightarrow> purge_state \<Rightarrow>
   purge_state \<times> nat result" where
  "finalize_service pf policy cutoff now serviceRow = (\<lambda>(c, tel).
     case claim_service policy serviceRow cutoff now c of
       (c1, False) \<Rightarrow> ((c1, tel), Inr 0)
     | (c1, True) \<Rightarrow>
         let cursor = dr_cursor serviceRow;
             checks = cd_checks (rc_db c1) in
         case assertCheckCursor policy checks (dr_id serviceRow) cursor of
           Inl e \<Rightarrow> ((c1, tel), Inl e)
         | Inr _ \<Rightarrow>
             let (rows, hasMore) = loadCheckPage policy checks (dr_id serviceRow) cursor;
                 (tel1, complete, deleted) = purgeServiceTelemetry (rp_workspace_pk policy) (dr_pk serviceRow)
                   (map cf_pk rows) ROW_BATCH tel
             in if \<not> complete then ((c1, tel1), Inr deleted)
                else
                  let (c2, secrets) = deleteSecrets (rp_workspace_id policy) (collectSecretIds pf rows) c1
                  in if hasMore then
                       (if rows = [] then ((c2, tel1), throw ''soft_delete_check_page_empty'')
                        else
                          let (c3, advanced) = advance_check_cursor policy (dr_id serviceRow) cursor
                                (cf_pk (last rows)) c2
                          in ((c3, tel1), bind_result advanced (\<lambda>_. Inr (deleted + secrets))))
                     else
                       let (c3, n) = finalizeServiceControl policy (dr_id serviceRow) cutoff c2
                       in ((c3, tel1), Inr (deleted + secrets + n)))"

definition finalizeServices ::
  "platform \<Rightarrow> retention_policy \<Rightarrow> millis \<Rightarrow> millis \<Rightarrow> purge_state \<Rightarrow> purge_state \<times> nat result" where
  "finalizeServices pf policy cutoff now s =
     run_steps (map (finalize_service pf policy cutoff now) (deleted_services (rc_db (fst s)) policy cutoff)) 0 s"

section \<open>Containers, dashboards, incidents and announcements\<close>

text \<open>
  \<open>finalizeControlOnlyTable\<close>: the rows of the page that are still eligible when the batch runs, by the ids
  read before, and the grants and policies of those rows. Its four uses differ in the table and in the type
  of the resource.
\<close>

definition control_only_page :: "('r \<Rightarrow> string) \<Rightarrow> ('r \<Rightarrow> bool) \<Rightarrow> 'r list \<Rightarrow> 'r \<Rightarrow> bool" where
  "control_only_page ident eligible t =
     (let ids = map ident (select_limit eligible ident CONTROL_ONLY_BATCH t)
      in (\<lambda>r. eligible r \<and> ident r \<in> set ids))"

definition access_of :: "retention_policy \<Rightarrow> string \<Rightarrow> string list \<Rightarrow> access_row \<Rightarrow> bool" where
  "access_of policy rtype ids g \<longleftrightarrow>
     ax_workspace_id g = rp_workspace_id policy \<and> ax_type g = rtype \<and> ax_resource_id g \<in> set ids"

definition finalize_containers ::
  "retention_policy \<Rightarrow> millis \<Rightarrow> retention_control \<Rightarrow> retention_control \<times> nat" where
  "finalize_containers policy cutoff c =
     (let p = control_only_page ct_id (\<lambda>t. expired_in policy cutoff (ct_workspace_id t) (ct_deleted_at t))
            (rc_containers c);
          access = access_of policy ''container'' (map ct_id (filter p (rc_containers c)))
      in (c\<lparr>rc_grants := delete_where access (rc_grants c),
            rc_public_policies := delete_where access (rc_public_policies c),
            rc_containers := delete_where p (rc_containers c)\<rparr>,
          count_where access (rc_grants c) + count_where access (rc_public_policies c) +
          count_where p (rc_containers c)))"

definition finalize_dashboards ::
  "retention_policy \<Rightarrow> millis \<Rightarrow> retention_control \<Rightarrow> retention_control \<times> nat" where
  "finalize_dashboards policy cutoff c =
     (let p = control_only_page ow_id (\<lambda>d. expired_in policy cutoff (ow_workspace_id d) (ow_deleted_at d))
            (rc_dashboards c);
          access = access_of policy ''dashboard'' (map ow_id (filter p (rc_dashboards c)))
      in (delete_dashboards p (c\<lparr>rc_grants := delete_where access (rc_grants c)\<rparr>),
          count_where access (rc_grants c) + count_where p (rc_dashboards c)))"

definition finalize_incidents ::
  "retention_policy \<Rightarrow> millis \<Rightarrow> retention_control \<Rightarrow> retention_control \<times> nat" where
  "finalize_incidents policy cutoff c =
     (let p = control_only_page ow_id (\<lambda>i. expired_in policy cutoff (ow_workspace_id i) (ow_deleted_at i))
            (rc_incidents c);
          access = access_of policy ''incident'' (map ow_id (filter p (rc_incidents c)))
      in (delete_incidents p (c\<lparr>rc_grants := delete_where access (rc_grants c)\<rparr>),
          count_where access (rc_grants c) + count_where p (rc_incidents c)))"

definition finalize_announcements ::
  "retention_policy \<Rightarrow> millis \<Rightarrow> retention_control \<Rightarrow> retention_control \<times> nat" where
  "finalize_announcements policy cutoff c =
     (let p = control_only_page an_id (\<lambda>a. expired_in policy cutoff (an_workspace_id a) (an_deleted_at a))
            (rc_announcements c)
      in (c\<lparr>rc_announcements := delete_where p (rc_announcements c)\<rparr>, count_where p (rc_announcements c)))"

definition on_control ::
  "(retention_control \<Rightarrow> retention_control \<times> nat) \<Rightarrow> purge_state \<Rightarrow> purge_state \<times> nat result" where
  "on_control f = (\<lambda>(c, tel). let (c', n) = f c in ((c', tel), Inr n))"

section \<open>The two finalisations\<close>

definition soft_delete_cutoff :: "retention_policy \<Rightarrow> millis \<Rightarrow> millis" where
  "soft_delete_cutoff policy now = now - soft_delete_grace_days policy * DAY_MS"

definition finalizeSoftDeletedResources ::
  "platform \<Rightarrow> retention_policy \<Rightarrow> millis \<Rightarrow> purge_state \<Rightarrow> purge_state \<times> nat result" where
  "finalizeSoftDeletedResources pf policy now = (\<lambda>(c, tel).
     let cutoff = soft_delete_cutoff policy now in
     case claimWorkspaceFinalization policy cutoff now c of
       (c1, False) \<Rightarrow> ((c1, tel), Inr 0)
     | (c1, True) \<Rightarrow>
         run_steps
           [finalizeMachines policy cutoff now, finalizeServices pf policy cutoff now,
            on_control (finalize_containers policy cutoff), on_control (finalize_dashboards policy cutoff),
            on_control (finalize_incidents policy cutoff), on_control (finalize_announcements policy cutoff)]
           0 (c1, tel))"

text \<open>Whether a resource of the workspace is left in the control database.\<close>

definition control_rows_present :: "string \<Rightarrow> retention_control \<Rightarrow> bool" where
  "control_rows_present w c \<longleftrightarrow>
     list_ex (\<lambda>m. mc_workspace_id m = w) (cd_machines (rc_db c)) \<or>
     list_ex (\<lambda>s. sv_workspace_id s = w) (cd_services (rc_db c)) \<or>
     list_ex (\<lambda>t. ct_workspace_id t = w) (rc_containers c) \<or>
     list_ex (\<lambda>d. ow_workspace_id d = w) (rc_dashboards c) \<or>
     list_ex (\<lambda>i. ow_workspace_id i = w) (rc_incidents c) \<or>
     list_ex (\<lambda>a. an_workspace_id a = w) (rc_announcements c)"

definition doomed_workspace :: "retention_policy \<Rightarrow> workspace_row \<Rightarrow> bool" where
  "doomed_workspace policy w \<longleftrightarrow>
     wk_id w = rp_workspace_id policy \<and> wk_deleted_at w \<noteq> None \<and>
     wk_deleted_at w = rp_workspace_deleted_at policy \<and> wk_purge_started_at w \<noteq> None"

definition finalizeDeletedWorkspace ::
  "retention_policy \<Rightarrow> millis \<Rightarrow> purge_state \<Rightarrow> purge_state \<times> nat result" where
  "finalizeDeletedWorkspace policy now = (\<lambda>(c, tel).
     let cutoff = soft_delete_cutoff policy now in
     if \<not> deleted_before (rp_workspace_deleted_at policy) cutoff then ((c, tel), Inr 0)
     else
       case claimWorkspaceFinalization policy cutoff now c of
         (c1, False) \<Rightarrow> ((c1, tel), Inr 0)
       | (c1, True) \<Rightarrow>
           if control_rows_present (rp_workspace_id policy) c1 \<or>
              \<not> workspaceTelemetryIsEmpty (rp_workspace_pk policy) tel
           then ((c1, tel), Inr 0)
           else
             let (tel1, deleted) = deleteWorkspaceTelemetryState (rp_workspace_pk policy) tel;
                 p = doomed_workspace policy
             in case delete_workspaces p c1 of
                  None \<Rightarrow> ((c1, tel1), throw ADMIN_REQUIRED)
                | Some c2 \<Rightarrow> ((c2, tel1), Inr (deleted + count_where p (cd_workspaces (rc_db c1)))))"

end
