(* ===== verification/Retention_Run.thy ===== *)
theory Retention_Run
  imports Soft_Delete
begin

text \<open>
  The scheduled retention run (\<open>workers/retention/src/index.ts\<close>): the page of policies, the loop over the
  workspaces within the time budget, the cleaning of one workspace under its lease, the commands, the
  artifacts and the record of the run. The values of the clock are a record.
\<close>

definition POLICY_BATCH :: int where "POLICY_BATCH = 100"
definition RETENTION_WORK_BUDGET_MS :: millis where "RETENTION_WORK_BUDGET_MS = 12 * 60000"
definition RUN_HISTORY_RETENTION_MS :: millis where "RUN_HISTORY_RETENTION_MS = 30 * 86400000"
definition RUN_HISTORY_BATCH :: int where "RUN_HISTORY_BATCH = 100"

section \<open>State\<close>

record 'b retention_state =
  re_control :: retention_control
  re_telemetry :: retention_telemetry
  re_bucket :: 'b

section \<open>Policies\<close>

record retention_policy_batch =
  policies :: "retention_policy list"
  workspaceCursor :: pk
  nextWorkspaceCursor :: pk

record workspace_cleanup_result =
  deletedRows :: nat
  processed :: bool

record retention_policy_progress =
  pg_deletedRows :: nat
  skippedWorkspaces :: nat
  pg_deadlineReached :: bool

text \<open>\<open>shouldContinue\<close> gives the answer of the clock before each index; \<open>clean\<close> may throw.\<close>

fun process_policies ::
  "(nat \<Rightarrow> bool) \<Rightarrow> (nat \<Rightarrow> retention_policy \<Rightarrow> 's \<Rightarrow> 's \<times> workspace_cleanup_result result) \<Rightarrow> nat \<Rightarrow>
   retention_policy list \<Rightarrow> nat \<Rightarrow> nat \<Rightarrow> 's \<Rightarrow> 's \<times> retention_policy_progress result" where
  "process_policies shouldContinue clean index [] deleted skipped s =
     (s, Inr \<lparr>pg_deletedRows = deleted, skippedWorkspaces = skipped, pg_deadlineReached = False\<rparr>)"
| "process_policies shouldContinue clean index (p # ps) deleted skipped s =
     (if \<not> shouldContinue index
      then (s, Inr \<lparr>pg_deletedRows = deleted, skippedWorkspaces = skipped + length (p # ps),
                    pg_deadlineReached = True\<rparr>)
      else
        case clean index p s of
          (s', Inl e) \<Rightarrow> (s', Inl e)
        | (s', Inr r) \<Rightarrow> process_policies shouldContinue clean (index + 1) ps (deleted + deletedRows r)
            (if processed r then skipped else skipped + 1) s')"

definition processRetentionPolicies ::
  "retention_policy list \<Rightarrow> (nat \<Rightarrow> bool) \<Rightarrow>
   (nat \<Rightarrow> retention_policy \<Rightarrow> 's \<Rightarrow> 's \<times> workspace_cleanup_result result) \<Rightarrow> 's \<Rightarrow>
   's \<times> retention_policy_progress result" where
  "processRetentionPolicies ps shouldContinue clean s = process_policies shouldContinue clean 0 ps 0 0 s"

definition resolveRetentionWorkspaceCursor :: "retention_policy_batch \<Rightarrow> nat \<Rightarrow> pk" where
  "resolveRetentionWorkspaceCursor policyBatch skipped =
     (if skipped = 0 then nextWorkspaceCursor policyBatch else workspaceCursor policyBatch)"

definition old_run :: "string \<Rightarrow> millis \<Rightarrow> retention_run \<Rightarrow> bool" where
  "old_run currentRunId now r \<longleftrightarrow>
     rr_started_at r < now - RUN_HISTORY_RETENTION_MS \<and> rr_id r \<noteq> currentRunId"

definition run_order :: "retention_run \<Rightarrow> millis \<times> string" where
  "run_order r = (rr_started_at r, rr_id r)"

definition cleanRetentionRunHistory ::
  "string \<Rightarrow> millis \<Rightarrow> int \<Rightarrow> retention_run list \<Rightarrow> retention_run list \<times> nat result" where
  "cleanRetentionRunHistory currentRunId now batch runs =
     (if batch < 1 \<or> batch > RUN_HISTORY_BATCH
      then (runs, throw ''retention run history batch must be between 1 and 100'')
      else let (runs', n) = delete_limit rr_id (old_run currentRunId now) run_order (nat batch) runs
           in (runs', Inr n))"

definition previous_cursor :: "string \<Rightarrow> retention_run list \<Rightarrow> pk" where
  "previous_cursor runId runs =
     (let earlier = sort_key rr_id
            (filter (\<lambda>r. rr_id r < runId \<and> rr_completed_at r \<noteq> None \<and> rr_error r = None) runs)
      in if earlier = [] then 0 else rr_workspace_cursor (last earlier))"

definition policy_of :: "policy_settings \<Rightarrow> workspace_row \<Rightarrow> retention_policy" where
  "policy_of p w =
     \<lparr>rp_workspace_id = wk_id w, rp_workspace_pk = wk_pk w, rp_workspace_deleted_at = wk_deleted_at w,
      rp_workspace_purge_started_at = wk_purge_started_at w, raw_days = ps_raw_days p,
      rollup_5m_days = ps_rollup_5m_days p, rollup_1h_days = ps_rollup_1h_days p,
      event_days = ps_event_days p, audit_log_days = ps_audit_log_days p,
      expired_announcement_grace_days = ps_announcement_days p,
      soft_delete_grace_days = ps_soft_delete_days p\<rparr>"

definition policy_rows :: "retention_control \<Rightarrow> retention_policy list" where
  "policy_rows control =
     concat (map (\<lambda>p. map (policy_of p)
       (filter (\<lambda>w. wk_id w = ps_workspace_id p) (cd_workspaces (rc_db control)))) (rc_policies control))"

definition loadRetentionPolicyBatch ::
  "retention_control \<Rightarrow> retention_run list \<Rightarrow> string \<Rightarrow> int \<Rightarrow> retention_policy_batch result" where
  "loadRetentionPolicyBatch control runs runId policyBatch =
     (if policyBatch < 1 \<or> policyBatch > POLICY_BATCH
      then throw ''retention policy batch must be between 1 and 100''
      else
        let cursor = previous_cursor runId runs;
            rows = select_limit (\<lambda>p. rp_workspace_pk p > cursor) rp_workspace_pk (nat policyBatch + 1)
              (policy_rows control);
            page = take (nat policyBatch) rows
        in Inr \<lparr>policies = page, workspaceCursor = cursor,
                nextWorkspaceCursor =
                  (if int (length rows) > policyBatch
                   then (if page = [] then 0 else rp_workspace_pk (last page)) else 0)\<rparr>)"

section \<open>One workspace\<close>

definition update_control ::
  "(retention_control \<Rightarrow> retention_control) \<Rightarrow> 'b retention_state \<Rightarrow> 'b retention_state" where
  "update_control f s = s\<lparr>re_control := f (re_control s)\<rparr>"

definition update_telemetry ::
  "(retention_telemetry \<Rightarrow> retention_telemetry) \<Rightarrow> 'b retention_state \<Rightarrow> 'b retention_state" where
  "update_telemetry f s = s\<lparr>re_telemetry := f (re_telemetry s)\<rparr>"

text \<open>The cleaning before the first function that may throw, with the rows removed and the event cursor.\<close>

definition clean_histories ::
  "retention_policy \<Rightarrow> workspace_lease \<Rightarrow> millis \<Rightarrow> 'b retention_state \<Rightarrow> 'b retention_state \<times> nat \<times> millis" where
  "clean_histories policy lease now s =
     (let c = re_control s;
          (t1, telemetry) = cleanTelemetryHistory (rc_db c) policy now (re_telemetry s);
          (events', events, timeCursor) = cleanStateEvents policy (wl_event_cursor lease) now ROW_BATCH (rt_events t1);
          (an, announcements) = cleanExpiredAnnouncements (rp_workspace_id policy) now
            (expired_announcement_grace_days policy) 200 (rc_announcements c);
          (al, auditLogs) = cleanAuditLogs (rp_workspace_id policy) now (audit_log_days policy) 200
            (rc_audit_logs c)
      in (s\<lparr>re_telemetry := t1\<lparr>rt_events := events'\<rparr>,
            re_control := c\<lparr>rc_announcements := an, rc_audit_logs := al\<rparr>\<rparr>,
          telemetry + events + announcements + auditLogs, timeCursor))"

definition clean_deliveries ::
  "retention_policy \<Rightarrow> millis \<Rightarrow> 'b retention_state \<Rightarrow> 'b retention_state \<times> nat result" where
  "clean_deliveries policy now s =
     (let (t, r) = cleanNotificationDeliveries (rp_workspace_id policy) now (audit_log_days policy) 200
            (rc_deliveries (re_control s))
      in (update_control (\<lambda>c. c\<lparr>rc_deliveries := t\<rparr>) s, r))"

definition clean_secrets ::
  "platform \<Rightarrow> retention_policy \<Rightarrow> millis \<Rightarrow> 'b retention_state \<Rightarrow> 'b retention_state \<times> nat result" where
  "clean_secrets pf policy now s =
     (let db = rc_db (re_control s);
          (t, r) = cleanOrphanCheckSecrets pf db (rp_workspace_id policy) now (int ORPHAN_SECRET_BATCH)
            (cd_secrets db)
      in (update_control (update_db (\<lambda>d. d\<lparr>cd_secrets := t\<rparr>)) s, r))"

text \<open>The purge works on both databases.\<close>

definition on_purge ::
  "(purge_state \<Rightarrow> purge_state \<times> nat result) \<Rightarrow> 'b retention_state \<Rightarrow> 'b retention_state \<times> nat result" where
  "on_purge f s =
     (let ((c, tel), r) = f (re_control s, re_telemetry s) in (s\<lparr>re_control := c, re_telemetry := tel\<rparr>, r))"

definition release_lease ::
  "workspace_lease \<Rightarrow> millis \<Rightarrow> millis \<Rightarrow> 'b retention_state \<Rightarrow> 'b retention_state \<times> nat result" where
  "release_lease lease timeCursor now s =
     (let (t, r) = releaseWorkspaceRetentionLease (rt_cursors (re_telemetry s)) lease timeCursor now
      in (update_telemetry (\<lambda>d. d\<lparr>rt_cursors := t\<rparr>) s, bind_result r (\<lambda>_. Inr 0)))"

definition cleanWorkspace ::
  "platform \<Rightarrow> millis \<Rightarrow> millis \<Rightarrow> retention_policy \<Rightarrow> millis \<Rightarrow> 'b retention_state \<Rightarrow>
   'b retention_state \<times> workspace_cleanup_result result" where
  "cleanWorkspace pf acquired_at released_at policy now s =
     (let (cursors, acquired) =
            acquireWorkspaceRetentionLease (rp_workspace_pk policy) (rt_cursors (re_telemetry s)) acquired_at;
          s0 = update_telemetry (\<lambda>d. d\<lparr>rt_cursors := cursors\<rparr>) s
      in case acquired of
           None \<Rightarrow> (s0, Inr \<lparr>deletedRows = 0, processed = False\<rparr>)
         | Some lease \<Rightarrow>
             let (s1, n, timeCursor) = clean_histories policy lease now s0;
                 (s2, r) = run_steps
                   [on_purge (finalizeSoftDeletedResources pf policy now), clean_deliveries policy now,
                    clean_secrets pf policy now, release_lease lease timeCursor released_at,
                    on_purge (finalizeDeletedWorkspace policy now)] n s1
             in (s2, bind_result r (\<lambda>k. Inr \<lparr>deletedRows = k, processed = True\<rparr>)))"

section \<open>The run\<close>

text \<open>The values of the clock: at the start, before each workspace, at the ends of the run.\<close>

record retention_clock =
  rk_deadline_from :: millis
  rk_started :: millis
  rk_index :: "nat \<Rightarrow> millis"
  rk_acquired :: "nat \<Rightarrow> millis"
  rk_released :: "nat \<Rightarrow> millis"
  rk_completed :: millis
  rk_history :: millis
  rk_failed :: millis

definition retention_run_id :: "millis \<Rightarrow> string" where
  "retention_run_id scheduledTime = ''retention:'' @ int_to_string scheduledTime"

definition set_runs :: "(retention_run list \<Rightarrow> retention_run list) \<Rightarrow> 'b retention_state \<Rightarrow> 'b retention_state" where
  "set_runs f = update_telemetry (\<lambda>d. d\<lparr>rt_runs := f (rt_runs d)\<rparr>)"

definition clean_commands :: "millis \<Rightarrow> 'b retention_state \<Rightarrow> 'b retention_state \<times> nat" where
  "clean_commands now s =
     (let (t, deleted, expired) = cleanAgentCommands now 200 (rc_commands (re_control s))
      in (update_control (\<lambda>c. c\<lparr>rc_commands := t\<rparr>) s, deleted))"

definition clean_artifacts ::
  "'b r2_bucket \<Rightarrow> millis \<Rightarrow> 'b retention_state \<Rightarrow> 'b retention_state \<times> artifact_cleanup_result result" where
  "clean_artifacts r2 now s =
     (let ((cursors, bucket), r) =
            cleanArtifactBucket r2 now LIST_BATCH (rt_artifacts (re_telemetry s), re_bucket s)
      in (update_telemetry (\<lambda>d. d\<lparr>rt_artifacts := cursors\<rparr>) (s\<lparr>re_bucket := bucket\<rparr>), r))"

definition complete_run ::
  "string \<Rightarrow> millis \<Rightarrow> nat \<Rightarrow> pk \<Rightarrow> 'b retention_state \<Rightarrow> 'b retention_state \<times> unit result" where
  "complete_run runId now deleted cursor s =
     (let runs = rt_runs (re_telemetry s);
          s' = set_runs (update_where (\<lambda>r. rr_id r = runId)
            (\<lambda>r. r\<lparr>rr_completed_at := Some now, rr_deleted_rows := int deleted, rr_workspace_cursor := cursor\<rparr>)) s
      in (s', if count_where (\<lambda>r. rr_id r = runId) runs \<noteq> 1 then throw ''retention_run_completion_conflict''
              else Inr ()))"

text \<open>The body of the \<open>try\<close> block; the run history is cleaned without failing the run.\<close>

definition retention_body ::
  "platform \<Rightarrow> 'b r2_bucket \<Rightarrow> retention_clock \<Rightarrow> millis \<Rightarrow> 'b retention_state \<Rightarrow>
   'b retention_state \<times> unit result" where
  "retention_body pf r2 clk scheduledTime s =
     (let runId = retention_run_id scheduledTime in
      case loadRetentionPolicyBatch (re_control s) (rt_runs (re_telemetry s)) runId POLICY_BATCH of
        Inl e \<Rightarrow> (s, Inl e)
      | Inr policyBatch \<Rightarrow>
          (case processRetentionPolicies (policies policyBatch)
             (\<lambda>i. rk_index clk i < rk_deadline_from clk + RETENTION_WORK_BUDGET_MS)
             (\<lambda>i policy. cleanWorkspace pf (rk_acquired clk i) (rk_released clk i) policy scheduledTime) s of
             (s1, Inl e) \<Rightarrow> (s1, Inl e)
           | (s1, Inr progress) \<Rightarrow>
               let (s2, commands) = clean_commands scheduledTime s1;
                   (s3, artifacts) = clean_artifacts r2 scheduledTime s2
               in (case artifacts of
                     Inl e \<Rightarrow> (s3, Inl e)
                   | Inr _ \<Rightarrow>
                       (case complete_run runId (rk_completed clk) (pg_deletedRows progress + commands)
                          (resolveRetentionWorkspaceCursor policyBatch (skippedWorkspaces progress)) s3 of
                          (s4, Inl e) \<Rightarrow> (s4, Inl e)
                        | (s4, Inr _) \<Rightarrow>
                            (set_runs (\<lambda>runs. fst (cleanRetentionRunHistory runId (rk_history clk)
                               RUN_HISTORY_BATCH runs)) s4, Inr ())))))"

definition runRetention ::
  "platform \<Rightarrow> 'b r2_bucket \<Rightarrow> retention_clock \<Rightarrow> millis \<Rightarrow> 'b retention_state \<Rightarrow>
   'b retention_state \<times> unit result" where
  "runRetention pf r2 clk scheduledTime s =
     (let runId = retention_run_id scheduledTime in
      if has_key rr_id runId (rt_runs (re_telemetry s)) then (s, Inr ())
      else
        let s0 = set_runs (\<lambda>runs. insert_or_ignore rr_id
              \<lparr>rr_id = runId, rr_started_at = rk_started clk, rr_completed_at = None, rr_deleted_rows = 0,
               rr_workspace_cursor = 0, rr_error = None\<rparr> runs) s
        in (case retention_body pf r2 clk scheduledTime s0 of
              (s1, Inr _) \<Rightarrow> (s1, Inr ())
            | (s1, Inl e) \<Rightarrow>
                (set_runs (update_where (\<lambda>r. rr_id r = runId)
                   (\<lambda>r. r\<lparr>rr_completed_at := Some (rk_failed clk), rr_error := Some ''retention_failed''\<rparr>)) s1,
                 Inl e)))"

end
