(* ===== verification/Soft_Delete_Correctness.thy ===== *)
theory Soft_Delete_Correctness
  imports Soft_Delete
begin

text \<open>
  What the purge promises: it only ever removes telemetry, and the control row of a machine or a service goes
  only when its grace period is over and nothing of it, of its agents or of its checks is left in the
  telemetry database, however many runs and pages it took.
\<close>

section \<open>Sequences of steps\<close>

lemma run_steps_rel:
  assumes refl: "\<And>s. R s s" and trans: "\<And>a b c. R a b \<Longrightarrow> R b c \<Longrightarrow> R a c"
    and step: "\<And>f s. f \<in> set fs \<Longrightarrow> R s (fst (f s))"
  shows "R s (fst (run_steps fs n s))"
  using step
proof (induction fs arbitrary: n s)
  case Nil
  show ?case by (simp add: refl)
next
  case (Cons f fs)
  obtain s' r where f: "f s = (s', r)" by (rule prod.exhaust)
  have s': "R s s'" using Cons.prems [of f s] f by simp
  have "R s' (fst (run_steps fs m s'))" for m using Cons.prems by (intro Cons.IH) simp
  then show ?case using f s' trans [OF s'] by (cases r) simp_all
qed

lemma purge_steps_rel:
  assumes refl: "\<And>s. R s s" and trans: "\<And>a b c. R a b \<Longrightarrow> R b c \<Longrightarrow> R a c"
    and step: "\<And>f s. f \<in> set fs \<Longrightarrow> R s (fst (f s))"
  shows "R s (fst (purge_steps fs n s))"
  using step
proof (induction fs arbitrary: n s)
  case Nil
  show ?case by (simp add: refl)
next
  case (Cons f fs)
  obtain s' k where f: "f s = (s', k)" by (rule prod.exhaust)
  have s': "R s s'" using Cons.prems [of f s] f by simp
  have "R s' (fst (purge_steps fs m s'))" for m using Cons.prems by (intro Cons.IH) simp
  then show ?case using f trans [OF s'] by simp
qed

lemma run_steps_append:
  "run_steps (fs @ gs) n s =
    (case run_steps fs n s of (s', Inl e) \<Rightarrow> (s', Inl e) | (s', Inr k) \<Rightarrow> run_steps gs k s')"
  by (induction fs arbitrary: n s) (auto split: prod.split sum.split)

section \<open>Telemetry only shrinks\<close>

definition shrinks :: "retention_telemetry \<Rightarrow> retention_telemetry \<Rightarrow> bool" where
  "shrinks db db' \<longleftrightarrow>
     (\<forall>table. set (rt_history db' table) \<subseteq> set (rt_history db table)) \<and>
     (\<forall>table. set (rt_latest db' table) \<subseteq> set (rt_latest db table)) \<and>
     set (rt_events db') \<subseteq> set (rt_events db) \<and> set (rt_replay db') \<subseteq> set (rt_replay db) \<and>
     rt_runs db' = rt_runs db"

named_theorems shrinking "operations that only remove telemetry"

lemma shrinks_refl [simp, shrinking]: "shrinks db db"
  by (simp add: shrinks_def)

lemma shrinks_trans: "shrinks a b \<Longrightarrow> shrinks b c \<Longrightarrow> shrinks a c"
  unfolding shrinks_def by (elim conjE, intro conjI) (blast, blast, blast, blast, simp)

lemma set_delete_where [simp]: "set (delete_where p t) = {r \<in> set t. \<not> p r}"
  by (auto simp: delete_where_def)

lemma delete_limit_subset: "set (fst (delete_limit key p o_by n t)) \<subseteq> set t"
  by (auto simp: delete_limit_def Let_def)

lemma on_history_shrinks:
  assumes "\<And>t. set (fst (f t)) \<subseteq> set t"
  shows "shrinks db (fst (on_history table f db))"
  using assms by (simp add: shrinks_def on_history_def Let_def case_prod_beta')

lemma timed_shrinks [shrinking]: "shrinks db (fst (deleteTimedResourceRows table w k n db))"
  unfolding deleteTimedResourceRows_def by (rule on_history_shrinks) (rule delete_limit_subset)

lemma events_shrinks [shrinking]: "shrinks db (fst (deleteResourceEvents ty w k n db))"
  by (auto simp: shrinks_def deleteResourceEvents_def Let_def)

lemma buckets_shrinks [shrinking]: "shrinks db (fst (deleteStatusBuckets ty w k n db))"
  unfolding deleteStatusBuckets_def by (rule on_history_shrinks) (auto simp: Let_def)

lemma latest_shrinks [shrinking]: "shrinks db (fst (delete_latest table w ks db))"
  by (auto simp: shrinks_def delete_latest_def Let_def)

lemma replay_shrinks: "shrinks db (fst (delete_replay n ids db))"
  using delete_limit_subset by (simp add: shrinks_def delete_replay_def Let_def case_prod_beta')

lemma purge_steps_shrinks:
  assumes "\<And>f db. f \<in> set fs \<Longrightarrow> shrinks db (fst (f db))"
  shows "shrinks db (fst (purge_steps fs n db))"
  using assms by (intro purge_steps_rel [where R = shrinks]) (auto intro: shrinks_trans)

lemma agents_shrinks [shrinking]: "shrinks db (fst (deleteAgentReplayRows ids n db))"
  unfolding deleteAgentReplayRows_def by (rule purge_steps_shrinks) (auto intro: replay_shrinks)

lemma checks_shrinks [shrinking]: "shrinks db (fst (deleteCheckRows w ks n table db))"
  unfolding deleteCheckRows_def
  by (rule purge_steps_shrinks) (auto intro!: on_history_shrinks delete_limit_subset)

lemma purge_machine_shrinks: "shrinks db (fst (purgeMachineTelemetry w k agents n db))"
proof -
  have "shrinks db (fst (purge_steps fs 0 db))"
    if "fs = map (\<lambda>table. deleteTimedResourceRows table w k n) MACHINE_TARGETS @
             [deleteResourceEvents 1 w k n, deleteStatusBuckets 1 w k n, delete_latest Machine_latest w [k],
              deleteAgentReplayRows agents n]" for fs
    unfolding that by (rule purge_steps_shrinks) (auto intro: shrinking)
  then show ?thesis by (simp add: purgeMachineTelemetry_def case_prod_beta' Let_def del: purge_steps.simps)
qed

lemma purge_service_shrinks: "shrinks db (fst (purgeServiceTelemetry w k checks n db))"
proof -
  have "shrinks db (fst (purge_steps fs 0 db))"
    if "fs = map (deleteCheckRows w checks n) CHECK_TARGETS @
             map (delete_latest Check_latest w) (chunks ID_BATCH checks) @
             [deleteResourceEvents 2 w k n, deleteStatusBuckets 2 w k n, delete_latest Service_latest w [k]]" for fs
    unfolding that by (rule purge_steps_shrinks) (auto intro: shrinking)
  then show ?thesis by (simp add: purgeServiceTelemetry_def case_prod_beta' Let_def del: purge_steps.simps)
qed

section \<open>What is left of a resource\<close>

definition machine_clear :: "pk \<Rightarrow> pk \<Rightarrow> retention_telemetry \<Rightarrow> bool" where
  "machine_clear w k db \<longleftrightarrow> \<not> machineTelemetryRemains w k [] db"

definition agent_clear :: "string \<Rightarrow> retention_telemetry \<Rightarrow> bool" where
  "agent_clear agent db \<longleftrightarrow> \<not> list_ex (\<lambda>(a, epoch). a = agent) (rt_replay db)"

definition check_clear :: "pk \<Rightarrow> pk \<Rightarrow> retention_telemetry \<Rightarrow> bool" where
  "check_clear w k db \<longleftrightarrow> \<not> checkTelemetryRemains w [k] db"

definition service_clear :: "pk \<Rightarrow> pk \<Rightarrow> retention_telemetry \<Rightarrow> bool" where
  "service_clear w k db \<longleftrightarrow> \<not> has_latest Service_latest w [k] db \<and> \<not> has_events 2 w k db"

lemma chunks_Nil [simp]: "chunks n [] = []"
  by (simp add: chunks.simps)

lemma chunks_single [simp]: "0 < n \<Longrightarrow> chunks n [x] = [[x]]"
  by (simp add: chunks.simps [of n "[x]"])

lemma ex_chunks:
  assumes "0 < n" "\<And>ids. p ids \<longleftrightarrow> (\<exists>x \<in> set ids. q x)"
  shows "list_ex p (chunks n xs) \<longleftrightarrow> (\<exists>x \<in> set xs. q x)"
proof -
  have "x \<in> set xs \<longleftrightarrow> (\<exists>c \<in> set (chunks n xs). x \<in> set c)" for x
    using set_chunks [OF assms(1), of xs] by blast
  then show ?thesis unfolding list_ex_iff assms(2) by blast
qed

lemma ID_BATCH_pos [simp]: "0 < ID_BATCH"
  by (simp add: ID_BATCH_def)

lemma machine_complete:
  "\<not> machineTelemetryRemains w k agents db \<longleftrightarrow>
    machine_clear w k db \<and> (\<forall>a \<in> set agents. agent_clear a db)"
proof -
  have "list_ex (\<lambda>ids. has_replay ids db) (chunks ID_BATCH agents) \<longleftrightarrow> (\<exists>a \<in> set agents. \<not> agent_clear a db)"
    by (rule ex_chunks) (auto simp: has_replay_def agent_clear_def list_ex_iff)
  then show ?thesis by (auto simp: machine_clear_def machineTelemetryRemains_def)
qed

lemma check_complete:
  "\<not> checkTelemetryRemains w ks db \<longleftrightarrow> (\<forall>k \<in> set ks. check_clear w k db)"
proof -
  have "checkTelemetryRemains w ks db \<longleftrightarrow> (\<exists>k \<in> set ks. \<not> check_clear w k db)"
    unfolding checkTelemetryRemains_def
    by (rule ex_chunks)
      (auto simp: check_clear_def checkTelemetryRemains_def has_history_def has_latest_def list_ex_iff CHECK_TARGETS_def)
  then show ?thesis by blast
qed

lemma clear_shrinks:
  assumes "shrinks db db'"
  shows "machine_clear w k db \<Longrightarrow> machine_clear w k db'"
    and "agent_clear a db \<Longrightarrow> agent_clear a db'"
    and "check_clear w k db \<Longrightarrow> check_clear w k db'"
    and "service_clear w k db \<Longrightarrow> service_clear w k db'"
proof -
  have history: "\<not> has_history table w ks db \<Longrightarrow> \<not> has_history table w ks db'"
    and latest: "\<not> has_latest lt w ks db \<Longrightarrow> \<not> has_latest lt w ks db'"
    and events: "\<not> has_events ty w k db \<Longrightarrow> \<not> has_events ty w k db'" for table lt ks ty
    using assms unfolding has_history_def has_latest_def has_events_def shrinks_def list_ex_iff by blast+
  show "agent_clear a db \<Longrightarrow> agent_clear a db'"
    using assms unfolding agent_clear_def shrinks_def list_ex_iff by blast
  show "service_clear w k db \<Longrightarrow> service_clear w k db'"
    using latest events by (auto simp: service_clear_def)
  show "machine_clear w k db \<Longrightarrow> machine_clear w k db'"
    using history latest events
    by (auto simp: machine_clear_def machineTelemetryRemains_def list_ex_iff)
  show "check_clear w k db \<Longrightarrow> check_clear w k db'"
    using history latest by (auto simp: check_clear_def checkTelemetryRemains_def list_ex_iff)
qed

lemma purged_machine:
  assumes "purgeMachineTelemetry w k agents n db = (db', True, d)"
  shows "machine_clear w k db'" "\<forall>a \<in> set agents. agent_clear a db'"
  using assms machine_complete [of w k agents db']
  by (auto simp: purgeMachineTelemetry_def case_prod_beta' Let_def simp del: purge_steps.simps)

lemma purged_service:
  assumes "purgeServiceTelemetry w k checks n db = (db', True, d)"
  shows "service_clear w k db'" "\<forall>c \<in> set checks. check_clear w c db'"
  using assms check_complete [of w checks db']
  by (auto simp: purgeServiceTelemetry_def service_clear_def case_prod_beta' Let_def simp del: purge_steps.simps)

section \<open>Progress of the cursors\<close>

definition same_machine :: "machine_row \<Rightarrow> machine_row \<Rightarrow> bool" where
  "same_machine m m' \<longleftrightarrow> mc_id m' = mc_id m \<and> mc_pk m' = mc_pk m \<and>
     mc_workspace_id m' = mc_workspace_id m \<and> mc_deleted_at m' = mc_deleted_at m"

definition same_service :: "service_row \<Rightarrow> service_row \<Rightarrow> bool" where
  "same_service s s' \<longleftrightarrow> sv_id s' = sv_id s \<and> sv_pk s' = sv_pk s \<and>
     sv_workspace_id s' = sv_workspace_id s \<and> sv_deleted_at s' = sv_deleted_at s"

definition check_identity :: "check_row \<Rightarrow> pk \<times> string \<times> string" where
  "check_identity k = (cf_pk k, cf_service_id k, cf_workspace_id k)"

abbreviation machines_of :: "retention_control \<Rightarrow> machine_row set" where
  "machines_of c \<equiv> set (cd_machines (rc_db c))"

abbreviation services_of :: "retention_control \<Rightarrow> service_row set" where
  "services_of c \<equiv> set (cd_services (rc_db c))"

definition checks_of :: "retention_control \<Rightarrow> (pk \<times> string \<times> string) set" where
  "checks_of c = check_identity ` set (cd_checks (rc_db c))"

text \<open>
  The invariant of the cursors of one workspace: the agents of a machine up to its cursor have no replay
  state left, and the checks of a service up to its cursor have no rows left.
\<close>

definition agents_purged :: "string \<Rightarrow> string \<Rightarrow> retention_control \<Rightarrow> retention_telemetry \<Rightarrow> bool" where
  "agents_purged machineId cursor c tel \<longleftrightarrow>
     (\<forall>a \<in> set (rc_agents c). ag_machine_id a = machineId \<and> ag_id a \<le> cursor \<longrightarrow> agent_clear (ag_id a) tel)"

definition checks_purged ::
  "retention_policy \<Rightarrow> string \<Rightarrow> pk \<Rightarrow> retention_control \<Rightarrow> retention_telemetry \<Rightarrow> bool" where
  "checks_purged policy serviceId cursor c tel \<longleftrightarrow>
     (\<forall>(k, s, w) \<in> checks_of c. s = serviceId \<and> w = rp_workspace_id policy \<and> k \<le> cursor \<longrightarrow>
       check_clear (rp_workspace_pk policy) k tel)"

definition purge_progress :: "retention_policy \<Rightarrow> purge_state \<Rightarrow> bool" where
  "purge_progress policy = (\<lambda>(c, tel).
     (\<forall>m \<in> machines_of c. mc_workspace_id m = rp_workspace_id policy \<longrightarrow>
       agents_purged (mc_id m) (mc_purge_agent_cursor m) c tel) \<and>
     (\<forall>s \<in> services_of c. sv_workspace_id s = rp_workspace_id policy \<longrightarrow>
       checks_purged policy (sv_id s) (sv_purge_check_cursor s) c tel))"

text \<open>
  What becomes of a machine and of a service: its row is left, untouched unless its grace period is over, or
  the grace period is over and nothing of it is left.
\<close>

definition machine_outcome ::
  "retention_policy \<Rightarrow> millis \<Rightarrow> retention_control \<Rightarrow> purge_state \<Rightarrow> machine_row \<Rightarrow> bool" where
  "machine_outcome policy cutoff c = (\<lambda>(c', tel') m.
     let expired = expired_in policy cutoff (mc_workspace_id m) (mc_deleted_at m)
     in (\<exists>m' \<in> machines_of c'. same_machine m m' \<and> (expired \<or> m' = m)) \<or>
        expired \<and> machine_clear (rp_workspace_pk policy) (mc_pk m) tel' \<and>
        (\<forall>a \<in> set (rc_agents c). ag_machine_id a = mc_id m \<longrightarrow> agent_clear (ag_id a) tel'))"

definition service_outcome ::
  "retention_policy \<Rightarrow> millis \<Rightarrow> retention_control \<Rightarrow> purge_state \<Rightarrow> service_row \<Rightarrow> bool" where
  "service_outcome policy cutoff c = (\<lambda>(c', tel') s.
     let expired = expired_in policy cutoff (sv_workspace_id s) (sv_deleted_at s)
     in (\<exists>s' \<in> services_of c'. same_service s s' \<and> (expired \<or> s' = s)) \<or>
        expired \<and> service_clear (rp_workspace_pk policy) (sv_pk s) tel' \<and>
        (\<forall>(k, i, w) \<in> checks_of c. i = sv_id s \<and> w = rp_workspace_id policy \<longrightarrow>
          check_clear (rp_workspace_pk policy) k tel'))"

text \<open>The relation between the states before and after any number of steps of the purge.\<close>

definition purged :: "retention_policy \<Rightarrow> millis \<Rightarrow> purge_state \<Rightarrow> purge_state \<Rightarrow> bool" where
  "purged policy cutoff s s' \<longleftrightarrow>
     shrinks (snd s) (snd s') \<and>
     (\<forall>m \<in> machines_of (fst s). machine_outcome policy cutoff (fst s) s' m) \<and>
     (\<forall>x \<in> services_of (fst s). service_outcome policy cutoff (fst s) s' x) \<and>
     (\<forall>m' \<in> machines_of (fst s'). \<exists>m \<in> machines_of (fst s). same_machine m m') \<and>
     (\<forall>x' \<in> services_of (fst s'). \<exists>x \<in> services_of (fst s). same_service x x') \<and>
     set (rc_agents (fst s')) \<subseteq> set (rc_agents (fst s)) \<and> checks_of (fst s') \<subseteq> checks_of (fst s) \<and>
     (\<forall>a \<in> set (rc_agents (fst s)). (\<exists>m' \<in> machines_of (fst s'). mc_id m' = ag_machine_id a \<and>
        mc_workspace_id m' = rp_workspace_id policy) \<longrightarrow> a \<in> set (rc_agents (fst s'))) \<and>
     (\<forall>(k, i, w) \<in> checks_of (fst s). w = rp_workspace_id policy \<and> (\<exists>x' \<in> services_of (fst s'). sv_id x' = i \<and>
        sv_workspace_id x' = rp_workspace_id policy) \<longrightarrow> (k, i, w) \<in> checks_of (fst s'))"

abbreviation (input) machine_expired :: "retention_policy \<Rightarrow> millis \<Rightarrow> machine_row \<Rightarrow> bool" where
  "machine_expired policy cutoff m \<equiv> expired_in policy cutoff (mc_workspace_id m) (mc_deleted_at m)"

abbreviation (input) service_expired :: "retention_policy \<Rightarrow> millis \<Rightarrow> service_row \<Rightarrow> bool" where
  "service_expired policy cutoff x \<equiv> expired_in policy cutoff (sv_workspace_id x) (sv_deleted_at x)"

lemma machine_kept:
  "m' \<in> machines_of (fst t) \<Longrightarrow> same_machine m m' \<Longrightarrow> machine_expired policy cutoff m \<or> m' = m \<Longrightarrow>
    machine_outcome policy cutoff c t m"
  by (auto simp: machine_outcome_def Let_def split: prod.split)

lemma machine_gone:
  "machine_expired policy cutoff m \<Longrightarrow> machine_clear (rp_workspace_pk policy) (mc_pk m) (snd t) \<Longrightarrow>
    (\<And>a. a \<in> set (rc_agents c) \<Longrightarrow> ag_machine_id a = mc_id m \<Longrightarrow> agent_clear (ag_id a) (snd t)) \<Longrightarrow>
    machine_outcome policy cutoff c t m"
  by (auto simp: machine_outcome_def Let_def split: prod.split)

lemma machine_outcome_cases [consumes 1, case_names kept gone]:
  assumes "machine_outcome policy cutoff c t m"
  obtains m' where "m' \<in> machines_of (fst t)" "same_machine m m'" "machine_expired policy cutoff m \<or> m' = m"
    | "machine_expired policy cutoff m" "machine_clear (rp_workspace_pk policy) (mc_pk m) (snd t)"
      "\<And>a. a \<in> set (rc_agents c) \<Longrightarrow> ag_machine_id a = mc_id m \<Longrightarrow> agent_clear (ag_id a) (snd t)"
  using assms by (cases t) (auto simp: machine_outcome_def Let_def)

lemma service_kept:
  "m' \<in> services_of (fst t) \<Longrightarrow> same_service m m' \<Longrightarrow> service_expired policy cutoff m \<or> m' = m \<Longrightarrow>
    service_outcome policy cutoff c t m"
  by (auto simp: service_outcome_def Let_def split: prod.split)

lemma service_gone:
  "service_expired policy cutoff m \<Longrightarrow> service_clear (rp_workspace_pk policy) (sv_pk m) (snd t) \<Longrightarrow>
    (\<And>k. (k, sv_id m, rp_workspace_id policy) \<in> checks_of c \<Longrightarrow> check_clear (rp_workspace_pk policy) k (snd t)) \<Longrightarrow>
    service_outcome policy cutoff c t m"
  by (auto simp: service_outcome_def Let_def split: prod.split)

lemma service_outcome_cases [consumes 1, case_names kept gone]:
  assumes "service_outcome policy cutoff c t m"
  obtains m' where "m' \<in> services_of (fst t)" "same_service m m'" "service_expired policy cutoff m \<or> m' = m"
    | "service_expired policy cutoff m" "service_clear (rp_workspace_pk policy) (sv_pk m) (snd t)"
      "\<And>k. (k, sv_id m, rp_workspace_id policy) \<in> checks_of c \<Longrightarrow> check_clear (rp_workspace_pk policy) k (snd t)"
  using assms by (cases t) (fastforce simp: service_outcome_def Let_def)

lemma purgedD:
  assumes "purged policy cutoff s s'"
  shows "shrinks (snd s) (snd s')"
    and "m \<in> machines_of (fst s) \<Longrightarrow> machine_outcome policy cutoff (fst s) s' m"
    and "x \<in> services_of (fst s) \<Longrightarrow> service_outcome policy cutoff (fst s) s' x"
    and "m' \<in> machines_of (fst s') \<Longrightarrow> \<exists>m \<in> machines_of (fst s). same_machine m m'"
    and "x' \<in> services_of (fst s') \<Longrightarrow> \<exists>x \<in> services_of (fst s). same_service x x'"
    and "a \<in> set (rc_agents (fst s')) \<Longrightarrow> a \<in> set (rc_agents (fst s))"
    and "k \<in> checks_of (fst s') \<Longrightarrow> k \<in> checks_of (fst s)"
    and "a \<in> set (rc_agents (fst s)) \<Longrightarrow> m' \<in> machines_of (fst s') \<Longrightarrow> mc_id m' = ag_machine_id a \<Longrightarrow>
      mc_workspace_id m' = rp_workspace_id policy \<Longrightarrow> a \<in> set (rc_agents (fst s'))"
    and "(c, i, rp_workspace_id policy) \<in> checks_of (fst s) \<Longrightarrow> x' \<in> services_of (fst s') \<Longrightarrow> sv_id x' = i \<Longrightarrow>
      sv_workspace_id x' = rp_workspace_id policy \<Longrightarrow> (c, i, rp_workspace_id policy) \<in> checks_of (fst s')"
  using assms unfolding purged_def by blast+

lemma purgedI:
  assumes "shrinks (snd s) (snd s')"
    and "\<And>m. m \<in> machines_of (fst s) \<Longrightarrow> machine_outcome policy cutoff (fst s) s' m"
    and "\<And>x. x \<in> services_of (fst s) \<Longrightarrow> service_outcome policy cutoff (fst s) s' x"
    and "\<And>m'. m' \<in> machines_of (fst s') \<Longrightarrow> \<exists>m \<in> machines_of (fst s). same_machine m m'"
    and "\<And>x'. x' \<in> services_of (fst s') \<Longrightarrow> \<exists>x \<in> services_of (fst s). same_service x x'"
    and "\<And>a. a \<in> set (rc_agents (fst s')) \<Longrightarrow> a \<in> set (rc_agents (fst s))"
    and "\<And>k. k \<in> checks_of (fst s') \<Longrightarrow> k \<in> checks_of (fst s)"
    and "\<And>a m'. a \<in> set (rc_agents (fst s)) \<Longrightarrow> m' \<in> machines_of (fst s') \<Longrightarrow> mc_id m' = ag_machine_id a \<Longrightarrow>
      mc_workspace_id m' = rp_workspace_id policy \<Longrightarrow> a \<in> set (rc_agents (fst s'))"
    and "\<And>c x'. (c, sv_id x', rp_workspace_id policy) \<in> checks_of (fst s) \<Longrightarrow> x' \<in> services_of (fst s') \<Longrightarrow>
      sv_workspace_id x' = rp_workspace_id policy \<Longrightarrow>
      (c, sv_id x', rp_workspace_id policy) \<in> checks_of (fst s')"
  shows "purged policy cutoff s s'"
proof -
  have "(k, i, w) \<in> checks_of (fst s')"
    if "(k, i, w) \<in> checks_of (fst s)" "w = rp_workspace_id policy" "x' \<in> services_of (fst s')" "sv_id x' = i"
      "sv_workspace_id x' = rp_workspace_id policy" for k i w x'
    using assms(9) [of k x'] that by auto
  then show ?thesis
    unfolding purged_def using assms(1-7) assms(8) by (intro conjI ballI subsetI) (simp_all, blast+)
qed

lemma same_machine_refl [simp]: "same_machine m m"
  by (simp add: same_machine_def)

lemma same_service_refl [simp]: "same_service m m"
  by (simp add: same_service_def)

lemma same_machine_in: "m \<in> s \<Longrightarrow> \<exists>x \<in> s. same_machine x m"
  by (rule bexI [of _ m]) simp_all

lemma same_service_in: "m \<in> s \<Longrightarrow> \<exists>x \<in> s. same_service x m"
  by (rule bexI [of _ m]) simp_all

lemma purged_same:
  assumes "shrinks (snd s) (snd s')" "cd_machines (rc_db (fst s')) = cd_machines (rc_db (fst s))"
    and "cd_services (rc_db (fst s')) = cd_services (rc_db (fst s))"
    and "cd_checks (rc_db (fst s')) = cd_checks (rc_db (fst s))" "rc_agents (fst s') = rc_agents (fst s)"
  shows "purged policy cutoff s s'"
  by (rule purgedI)
    (use assms in \<open>auto simp: checks_of_def intro: machine_kept service_kept same_machine_refl same_service_refl\<close>)

lemma machine_outcome_trans:
  assumes ab: "purged policy cutoff a b" and bc: "purged policy cutoff b c" and m: "m \<in> machines_of (fst a)"
  shows "machine_outcome policy cutoff (fst a) c m"
  using purgedD(2) [OF ab m]
proof (cases rule: machine_outcome_cases)
  case (kept m')
  have same: "machine_expired policy cutoff m' = machine_expired policy cutoff m" "mc_pk m' = mc_pk m"
    "mc_id m' = mc_id m" using kept(2) by (simp_all add: same_machine_def)
  from purgedD(2) [OF bc kept(1)] show ?thesis
  proof (cases rule: machine_outcome_cases)
    case inner: (kept m'')
    have "same_machine m m''" using inner(2) kept(2) by (simp add: same_machine_def)
    then show ?thesis using inner(3) kept(3) same by (intro machine_kept [OF inner(1)]) auto
  next
    case gone
    have "mc_workspace_id m' = rp_workspace_id policy" using gone(1) by (simp add: expired_in_def)
    then have "agent_clear (ag_id x) (snd c)" if "x \<in> set (rc_agents (fst a))" "ag_machine_id x = mc_id m" for x
      using gone(3) [of x] purgedD(8) [OF ab that(1) kept(1)] that same by simp
    then show ?thesis using gone same by (intro machine_gone) auto
  qed
next
  case gone
  then show ?thesis using clear_shrinks(1,2) [OF purgedD(1) [OF bc]] by (intro machine_gone) auto
qed

lemma service_outcome_trans:
  assumes ab: "purged policy cutoff a b" and bc: "purged policy cutoff b c" and m: "m \<in> services_of (fst a)"
  shows "service_outcome policy cutoff (fst a) c m"
  using purgedD(3) [OF ab m]
proof (cases rule: service_outcome_cases)
  case (kept m')
  have same: "service_expired policy cutoff m' = service_expired policy cutoff m" "sv_pk m' = sv_pk m"
    "sv_id m' = sv_id m" using kept(2) by (simp_all add: same_service_def)
  from purgedD(3) [OF bc kept(1)] show ?thesis
  proof (cases rule: service_outcome_cases)
    case inner: (kept m'')
    have "same_service m m''" using inner(2) kept(2) by (simp add: same_service_def)
    then show ?thesis using inner(3) kept(3) same by (intro service_kept [OF inner(1)]) auto
  next
    case gone
    have "sv_workspace_id m' = rp_workspace_id policy" using gone(1) by (simp add: expired_in_def)
    then have "check_clear (rp_workspace_pk policy) k (snd c)"
      if "(k, sv_id m, rp_workspace_id policy) \<in> checks_of (fst a)" for k
      using gone(3) [of k] purgedD(9) [OF ab that kept(1)] same by simp
    then show ?thesis using gone same by (intro service_gone) auto
  qed
next
  case gone
  then show ?thesis using clear_shrinks(3,4) [OF purgedD(1) [OF bc]] by (intro service_gone) auto
qed

lemma purged_trans:
  assumes ab: "purged policy cutoff a b" and bc: "purged policy cutoff b c"
  shows "purged policy cutoff a c"
proof (rule purgedI)
  show "shrinks (snd a) (snd c)" by (rule shrinks_trans [OF purgedD(1) [OF ab] purgedD(1) [OF bc]])
next
  fix m'' assume m: "m'' \<in> machines_of (fst c)"
  obtain m' where m': "m' \<in> machines_of (fst b)" "same_machine m' m''" using purgedD(4) [OF bc m] by blast
  obtain m where "m \<in> machines_of (fst a)" "same_machine m m'" using purgedD(4) [OF ab m'(1)] by blast
  then show "\<exists>m \<in> machines_of (fst a). same_machine m m''"
    using m'(2) by (intro bexI [of _ m]) (auto simp: same_machine_def)
next
  fix m'' assume m: "m'' \<in> services_of (fst c)"
  obtain m' where m': "m' \<in> services_of (fst b)" "same_service m' m''" using purgedD(5) [OF bc m] by blast
  obtain m where "m \<in> services_of (fst a)" "same_service m m'" using purgedD(5) [OF ab m'(1)] by blast
  then show "\<exists>m \<in> services_of (fst a). same_service m m''"
    using m'(2) by (intro bexI [of _ m]) (auto simp: same_service_def)
next
  fix x m'' assume x: "x \<in> set (rc_agents (fst a))" and m: "m'' \<in> machines_of (fst c)"
    "mc_id m'' = ag_machine_id x" "mc_workspace_id m'' = rp_workspace_id policy"
  obtain m' where m': "m' \<in> machines_of (fst b)" "same_machine m' m''" using purgedD(4) [OF bc m(1)] by blast
  then have "x \<in> set (rc_agents (fst b))"
    using m by (intro purgedD(8) [OF ab x]) (auto simp: same_machine_def)
  then show "x \<in> set (rc_agents (fst c))" using m by (rule purgedD(8) [OF bc])
next
  fix k m'' assume k: "(k, sv_id m'', rp_workspace_id policy) \<in> checks_of (fst a)"
    and m: "m'' \<in> services_of (fst c)" "sv_workspace_id m'' = rp_workspace_id policy"
  obtain m' where m': "m' \<in> services_of (fst b)" "same_service m' m''" using purgedD(5) [OF bc m(1)] by blast
  then have "(k, sv_id m'', rp_workspace_id policy) \<in> checks_of (fst b)"
    using m by (intro purgedD(9) [OF ab k m'(1)]) (auto simp: same_service_def)
  then show "(k, sv_id m'', rp_workspace_id policy) \<in> checks_of (fst c)"
    using m by (intro purgedD(9) [OF bc]) auto
next
  show "m \<in> machines_of (fst a) \<Longrightarrow> machine_outcome policy cutoff (fst a) c m" for m
    by (rule machine_outcome_trans [OF ab bc])
  show "m \<in> services_of (fst a) \<Longrightarrow> service_outcome policy cutoff (fst a) c m" for m
    by (rule service_outcome_trans [OF ab bc])
  show "x \<in> set (rc_agents (fst c)) \<Longrightarrow> x \<in> set (rc_agents (fst a))" for x
    by (rule purgedD(6) [OF ab purgedD(6) [OF bc]])
  show "k \<in> checks_of (fst c) \<Longrightarrow> k \<in> checks_of (fst a)" for k
    by (rule purgedD(7) [OF ab purgedD(7) [OF bc]])
qed

section \<open>One machine\<close>

lemma update_db_simps [simp]:
  "rc_db (update_db f c) = f (rc_db c)" "rc_agents (update_db f c) = rc_agents c"
  "rc_commands (update_db f c) = rc_commands c" "rc_containers (update_db f c) = rc_containers c"
  "rc_dashboards (update_db f c) = rc_dashboards c" "rc_incidents (update_db f c) = rc_incidents c"
  "rc_announcements (update_db f c) = rc_announcements c"
  by (simp_all add: update_db_def)

lemma purged_machines:
  assumes "cd_machines (rc_db c') = update_where p f (cd_machines (rc_db c))"
    and "\<And>m. m \<in> machines_of c \<Longrightarrow> p m \<Longrightarrow> same_machine m (f m) \<and> machine_expired policy cutoff m"
    and "cd_services (rc_db c') = cd_services (rc_db c)" "cd_checks (rc_db c') = cd_checks (rc_db c)"
    and "rc_agents c' = rc_agents c" "shrinks tel tel'"
  shows "purged policy cutoff (c, tel) (c', tel')"
proof (rule purgedI)
  fix m assume m: "m \<in> machines_of (fst (c, tel))"
  then have "(if p m then f m else m) \<in> machines_of c'" by (auto simp: assms(1) set_update_where)
  then show "machine_outcome policy cutoff (fst (c, tel)) (c', tel') m"
    using assms(2) [of m] m by (intro machine_kept [of "if p m then f m else m"]) auto
next
  fix m' assume "m' \<in> machines_of (fst (c', tel'))"
  then obtain m where "m \<in> machines_of c" "m' = (if p m then f m else m)"
    unfolding fst_conv assms(1) by (rule in_update_where)
  then show "\<exists>m \<in> machines_of (fst (c, tel)). same_machine m m'"
    using assms(2) [of m] by (intro bexI [of _ m]) auto
qed (use assms(3-6) in \<open>auto simp: checks_of_def intro: service_kept same_service_in\<close>)

lemma page_take: "take n (select_limit p key (n + 1) t) = select_limit p key n t"
  by (simp add: select_limit_def)

lemma page_covers:
  assumes "x \<in> set t" "p x" "\<not> n < length (select_limit p key (n + 1) t)"
  shows "x \<in> set (select_limit p key n t)"
proof -
  have "length (filter p t) \<le> n" using assms(3) by simp
  then have "select_limit p key n t = sort_key key (filter p t)"
    by (simp add: select_limit_def)
  then show ?thesis using assms(1,2) by simp
qed

lemma page_below:
  assumes "x \<in> set t" "p x" "select_limit p key n t \<noteq> []" "key x \<le> key (last (select_limit p key n t))"
  shows "key x \<in> key ` set (select_limit p key n t)"
proof (rule ccontr)
  assume x: "key x \<notin> key ` set (select_limit p key n t)"
  have l: "last (select_limit p key n t) \<in> set (select_limit p key n t)" using assms(3) by simp
  moreover have "key (last (select_limit p key n t)) \<le> key x"
    using x assms(1,2) by (intro select_limit_oldest [OF l]) auto
  ultimately show False using x assms(4) by (metis antisym imageI)
qed

definition listed_machine ::
  "retention_policy \<Rightarrow> millis \<Rightarrow> purge_state \<Rightarrow> string deleted_resource \<Rightarrow> bool" where
  "listed_machine policy cutoff = (\<lambda>(c, tel) r.
     deleted_before (coalesce (dr_deleted_at r) (rp_workspace_deleted_at policy)) cutoff \<and>
     (\<forall>m \<in> machines_of c. mc_id m = dr_id r \<longrightarrow> mc_pk m = dr_pk r) \<and>
     agents_purged (dr_id r) (dr_cursor r) c tel)"

lemma agents_purged_mono:
  "agents_purged i k c tel \<Longrightarrow> set (rc_agents c') \<subseteq> set (rc_agents c) \<Longrightarrow> shrinks tel tel' \<Longrightarrow>
    agents_purged i k c' tel'"
  unfolding agents_purged_def by (blast intro: clear_shrinks)

lemma checks_purged_mono:
  "checks_purged policy i k c tel \<Longrightarrow> checks_of c' \<subseteq> checks_of c \<Longrightarrow> shrinks tel tel' \<Longrightarrow>
    checks_purged policy i k c' tel'"
  unfolding checks_purged_def by (blast intro: clear_shrinks)

lemma progress_machines:
  assumes "purge_progress policy (c, tel)" "shrinks tel tel'"
    and "cd_services (rc_db c') = cd_services (rc_db c)"
    and "checks_of c' \<subseteq> checks_of c" "set (rc_agents c') \<subseteq> set (rc_agents c)"
    and "\<And>m'. m' \<in> machines_of c' \<Longrightarrow> mc_workspace_id m' = rp_workspace_id policy \<Longrightarrow>
      (\<exists>m \<in> machines_of c. same_machine m m' \<and> mc_purge_agent_cursor m' = mc_purge_agent_cursor m) \<or>
      agents_purged (mc_id m') (mc_purge_agent_cursor m') c' tel'"
  shows "purge_progress policy (c', tel')"
proof -
  have "agents_purged (mc_id m') (mc_purge_agent_cursor m') c' tel'"
    if "m' \<in> machines_of c'" "mc_workspace_id m' = rp_workspace_id policy" for m'
    using assms(6) [OF that]
  proof
    assume "\<exists>m \<in> machines_of c. same_machine m m' \<and> mc_purge_agent_cursor m' = mc_purge_agent_cursor m"
    then obtain m where "m \<in> machines_of c" "same_machine m m'" "mc_purge_agent_cursor m' = mc_purge_agent_cursor m"
      by blast
    then have "agents_purged (mc_id m') (mc_purge_agent_cursor m') c tel"
      using assms(1) that by (auto simp: purge_progress_def same_machine_def)
    then show ?thesis using agents_purged_mono assms(2,5) by blast
  qed
  moreover have "checks_purged policy (sv_id x) (sv_purge_check_cursor x) c' tel'"
    if "x \<in> services_of c'" "sv_workspace_id x = rp_workspace_id policy" for x
    using assms(1-4) that by (auto simp: purge_progress_def intro: checks_purged_mono)
  ultimately show ?thesis by (simp add: purge_progress_def)
qed

lemma claim_machine_step:
  assumes "claim_machine policy r cutoff now c = (c1, claimed)" "listed_machine policy cutoff (c, tel) r"
    and "purge_progress policy (c, tel)" "keyed mc_id (cd_machines (rc_db c))"
  shows "purged policy cutoff (c, tel) (c1, tel) \<and> purge_progress policy (c1, tel) \<and>
    keyed mc_id (cd_machines (rc_db c1)) \<and> listed_machine policy cutoff (c1, tel) r \<and>
    cd_services (rc_db c1) = cd_services (rc_db c) \<and>
    (claimed \<longrightarrow> (\<forall>m \<in> machines_of c1. mc_id m = dr_id r \<longrightarrow> machine_expired policy cutoff m))"
proof -
  let ?p = "\<lambda>m. claimable_resource policy r cutoff (rc_db c) (mc_id m) (mc_workspace_id m) (mc_deleted_at m)"
  let ?f = "\<lambda>m. m\<lparr>mc_purge_started_at := coalesce (mc_purge_started_at m) (Some now)\<rparr>"
  have c1: "cd_machines (rc_db c1) = update_where ?p ?f (cd_machines (rc_db c))"
    "cd_services (rc_db c1) = cd_services (rc_db c)" "cd_checks (rc_db c1) = cd_checks (rc_db c)"
    "rc_agents c1 = rc_agents c" "claimed = list_ex ?p (cd_machines (rc_db c))"
    using assms(1) by (auto simp: claim_machine_def Let_def)
  have expired: "machine_expired policy cutoff m" if "?p m" for m
    using that assms(2) by (auto simp: claimable_resource_def listed_machine_def expired_in_def coalesce_def split: option.splits)
  have purged: "purged policy cutoff (c, tel) (c1, tel)"
    by (rule purged_machines [OF c1(1) _ c1(2-4)]) (use expired in \<open>auto simp: same_machine_def\<close>)
  have same: "\<exists>m \<in> machines_of c. same_machine m m' \<and> mc_purge_agent_cursor m' = mc_purge_agent_cursor m"
    if "m' \<in> machines_of c1" for m'
    using that unfolding c1(1) by (rule in_update_where) (auto simp: same_machine_def intro!: bexI)
  have "purge_progress policy (c1, tel)"
    by (rule progress_machines [OF assms(3)]) (use c1 same in \<open>auto simp: checks_of_def\<close>)
  moreover have keyed: "keyed mc_id (cd_machines (rc_db c1))"
    unfolding c1(1) using assms(4) by (rule keyed_update_where) simp
  moreover have "listed_machine policy cutoff (c1, tel) r"
  proof -
    have "mc_pk m' = dr_pk r" if "m' \<in> machines_of c1" "mc_id m' = dr_id r" for m'
      using same [OF that(1)] that(2) assms(2) by (auto simp: listed_machine_def same_machine_def)
    then show ?thesis using assms(2) c1(4) by (simp add: listed_machine_def agents_purged_def)
  qed
  moreover have "machine_expired policy cutoff m"
    if claim: "claimed" and m: "m \<in> machines_of c1" "mc_id m = dr_id r" for m
  proof -
    obtain x where x: "x \<in> machines_of c" "?p x" using claim c1(5) unfolding list_ex_iff by blast
    obtain y where y: "y \<in> machines_of c" "m = (if ?p y then ?f y else y)"
      using m(1) unfolding c1(1) by (rule in_update_where)
    have "mc_id y = dr_id r" using m(2) y(2) by (auto split: if_splits)
    moreover have "mc_id x = dr_id r" using x(2) by (simp add: claimable_resource_def)
    ultimately have "y = x" using keyed_unique [OF assms(4) y(1) x(1)] by simp
    then show ?thesis using expired [OF x(2)] y(2) x(2) by simp
  qed
  ultimately show ?thesis using purged c1(2) by blast
qed

lemma machine_control:
  assumes "finalizeMachineControl policy i cutoff c = (c', n)"
  shows "cd_machines (rc_db c') = delete_where (doomed_machine policy i cutoff) (cd_machines (rc_db c))"
    and "rc_agents c' = delete_where (\<lambda>a. ag_machine_id a \<in>
      mc_id ` {m \<in> machines_of c. doomed_machine policy i cutoff m}) (rc_agents c)"
    and "cd_services (rc_db c') = cd_services (rc_db c)" "checks_of c' = checks_of c"
proof -
  have "map check_identity (update_where p (\<lambda>k. k\<lparr>cf_enabled := 0, cf_executor_agent_id := None\<rparr>) t) =
      map check_identity t" for p t
    by (rule map_update_where) (simp add: check_identity_def)
  then have "check_identity ` set (update_where p (\<lambda>k. k\<lparr>cf_enabled := 0, cf_executor_agent_id := None\<rparr>) t) =
      check_identity ` set t" for p t
    by (metis set_map)
  moreover have "cd_checks (rc_db c') = update_where (detached_check (rc_agents c) i)
      (\<lambda>k. k\<lparr>cf_enabled := 0, cf_executor_agent_id := None\<rparr>) (cd_checks (rc_db c))"
    using assms by (auto simp: finalizeMachineControl_def Let_def delete_machines_def delete_agents_def)
  ultimately show "checks_of c' = checks_of c" by (simp add: checks_of_def)
qed (use assms in \<open>auto simp: finalizeMachineControl_def Let_def delete_machines_def delete_agents_def\<close>)

lemma finalized_machine:
  assumes control: "finalizeMachineControl policy (dr_id r) cutoff c = (c', n)"
    and listed: "listed_machine policy cutoff (c, tel) r" and progress: "purge_progress policy (c, tel)"
    and keyed: "keyed mc_id (cd_machines (rc_db c))" and tel: "shrinks tel tel'"
    and clear: "machine_clear (rp_workspace_pk policy) (dr_pk r) tel'"
      "\<forall>a \<in> set (rc_agents c). ag_machine_id a = dr_id r \<longrightarrow> agent_clear (ag_id a) tel'"
  shows "purged policy cutoff (c, tel) (c', tel') \<and> purge_progress policy (c', tel')"
proof -
  let ?doomed = "doomed_machine policy (dr_id r) cutoff"
  note c' = machine_control [OF control]
  have machines: "m \<in> machines_of c' \<longleftrightarrow> m \<in> machines_of c \<and> \<not> ?doomed m" for m by (simp add: c'(1))
  have agents: "a \<in> set (rc_agents c') \<longleftrightarrow> a \<in> set (rc_agents c) \<and>
      (\<forall>m \<in> machines_of c. ?doomed m \<longrightarrow> ag_machine_id a \<noteq> mc_id m)" for a
    by (auto simp: c'(2))
  have doomed: "mc_id m = dr_id r \<and> machine_expired policy cutoff m" if "?doomed m" for m
    using that by (simp add: doomed_machine_def)
  have "purged policy cutoff (c, tel) (c', tel')"
  proof (rule purgedI)
    fix m assume "m \<in> machines_of (fst (c, tel))"
    then have m: "m \<in> machines_of c" by simp
    show "machine_outcome policy cutoff (fst (c, tel)) (c', tel') m"
    proof (cases "?doomed m")
      case True
      then have "mc_pk m = dr_pk r" using doomed [OF True] listed m by (auto simp: listed_machine_def)
      then show ?thesis using doomed [OF True] clear by (intro machine_gone) auto
    next
      case False
      then show ?thesis using m machines by (intro machine_kept [of m]) auto
    qed
  next
    fix a m' assume a: "a \<in> set (rc_agents (fst (c, tel)))" and m': "m' \<in> machines_of (fst (c', tel'))"
      "mc_id m' = ag_machine_id a"
    have kept: "m' \<in> machines_of c" "\<not> ?doomed m'" using m'(1) by (simp_all add: machines)
    have "mc_id m' \<noteq> mc_id m" if "m \<in> machines_of c" "?doomed m" for m
      using keyed_unique [OF keyed kept(1) that(1)] that(2) kept(2) by blast
    then show "a \<in> set (rc_agents (fst (c', tel')))" using a m'(2) by (simp add: agents)
  qed (use machines agents c'(3,4) tel in \<open>auto intro: service_kept same_machine_in same_service_in\<close>)
  moreover have "purge_progress policy (c', tel')"
  proof (rule progress_machines [OF progress tel c'(3)])
    fix m' assume "m' \<in> machines_of c'"
    then show "(\<exists>m \<in> machines_of c. same_machine m m' \<and> mc_purge_agent_cursor m' = mc_purge_agent_cursor m) \<or>
        agents_purged (mc_id m') (mc_purge_agent_cursor m') c' tel'"
      using machines by (intro disjI1 bexI [of _ m']) simp_all
  qed (use agents c'(4) in auto)
  ultimately show ?thesis by blast
qed

lemma advanced_machine:
  assumes advance: "advance_agent_cursor policy (dr_id r) (dr_cursor r) next_cursor c = (c', res)"
    and progress: "purge_progress policy (c, tel)" and tel: "shrinks tel tel'"
    and expired: "\<forall>m \<in> machines_of c. mc_id m = dr_id r \<longrightarrow> machine_expired policy cutoff m"
    and purged: "agents_purged (dr_id r) next_cursor c tel'"
  shows "purged policy cutoff (c, tel) (c', tel') \<and> purge_progress policy (c', tel') \<and>
    cd_services (rc_db c') = cd_services (rc_db c) \<and>
    (keyed mc_id (cd_machines (rc_db c)) \<longrightarrow> keyed mc_id (cd_machines (rc_db c')))"
proof -
  let ?p = "\<lambda>m. mc_id m = dr_id r \<and> mc_workspace_id m = rp_workspace_id policy \<and>
    mc_purge_started_at m \<noteq> None \<and> mc_purge_agent_cursor m = dr_cursor r"
  let ?f = "\<lambda>m. m\<lparr>mc_purge_agent_cursor := next_cursor\<rparr>"
  have c': "cd_machines (rc_db c') = update_where ?p ?f (cd_machines (rc_db c))"
    "cd_services (rc_db c') = cd_services (rc_db c)" "cd_checks (rc_db c') = cd_checks (rc_db c)"
    "rc_agents c' = rc_agents c"
    using advance by (auto simp: advance_agent_cursor_def Let_def)
  have "purged policy cutoff (c, tel) (c', tel')"
    by (rule purged_machines [OF c'(1) _ c'(2-4) tel]) (use expired in \<open>auto simp: same_machine_def\<close>)
  moreover have "(\<exists>m \<in> machines_of c. same_machine m m' \<and> mc_purge_agent_cursor m' = mc_purge_agent_cursor m) \<or>
      agents_purged (mc_id m') (mc_purge_agent_cursor m') c' tel'" if m': "m' \<in> machines_of c'" for m'
  proof -
    obtain m where m: "m \<in> machines_of c" "m' = (if ?p m then ?f m else m)"
      using m' unfolding c'(1) by (rule in_update_where)
    show ?thesis
    proof (cases "?p m")
      case True
      then show ?thesis using purged m(2) c'(4) by (simp add: agents_purged_def)
    next
      case False
      then have "m' = m" using m(2) unfolding if_not_P [OF False] by blast
      then show ?thesis using m(1) by (intro disjI1 bexI [of _ m]) simp_all
    qed
  qed
  then have "purge_progress policy (c', tel')"
    by (intro progress_machines [OF progress tel c'(2)]) (simp_all add: checks_of_def c'(3,4))
  moreover have "keyed mc_id (cd_machines (rc_db c'))" if "keyed mc_id (cd_machines (rc_db c))"
    unfolding c'(1) using that by (rule keyed_update_where) simp
  ultimately show ?thesis using c'(2) by blast
qed

lemma agent_page:
  assumes page: "loadAgentPage agents i cursor = (ids, left)"
    and purged: "agents_purged i cursor c tel" "agents = rc_agents c" "\<forall>a \<in> set ids. agent_clear a tel"
  shows "\<not> left \<Longrightarrow> a \<in> set agents \<Longrightarrow> ag_machine_id a = i \<Longrightarrow> agent_clear (ag_id a) tel"
    and "ids \<noteq> [] \<Longrightarrow> agents_purged i (last ids) c tel"
proof -
  let ?p = "\<lambda>a. ag_machine_id a = i \<and> ag_id a > cursor"
  let ?s = "select_limit ?p ag_id RELATED_RESOURCE_BATCH agents"
  have ids: "ids = map ag_id ?s"
    "left \<longleftrightarrow> RELATED_RESOURCE_BATCH < length (select_limit ?p ag_id (RELATED_RESOURCE_BATCH + 1) agents)"
    using page by (auto simp only: loadAgentPage_def Let_def page_take prod.inject)
  have small: "agent_clear (ag_id a) tel" if "a \<in> set agents" "ag_machine_id a = i" "ag_id a \<le> cursor" for a
    using purged(1,2) that by (simp add: agents_purged_def)
  show "agent_clear (ag_id a) tel" if "\<not> left" "a \<in> set agents" "ag_machine_id a = i"
  proof (cases "ag_id a \<le> cursor")
    case False
    then have "a \<in> set ?s" using that ids(2) by (intro page_covers) auto
    then show ?thesis using purged(3) ids(1) by simp
  qed (use small that in auto)
  show "agents_purged i (last ids) c tel" if "ids \<noteq> []"
  proof -
    have last: "last ids = ag_id (last ?s)" "?s \<noteq> []" using that ids(1) by (auto simp: last_map)
    have "agent_clear (ag_id a) tel" if a: "a \<in> set agents" "ag_machine_id a = i" "ag_id a \<le> last ids" for a
    proof (cases "ag_id a \<le> cursor")
      case False
      then have "ag_id a \<in> ag_id ` set ?s" using a last by (intro page_below) auto
      then show ?thesis using purged(3) ids(1) by auto
    qed (use small a in auto)
    then show ?thesis using purged(2) by (simp add: agents_purged_def)
  qed
qed

lemma finalize_machine_step:
  assumes step: "finalize_machine policy cutoff now r (c, tel) = (s', res)"
    and listed: "listed_machine policy cutoff (c, tel) r" and progress: "purge_progress policy (c, tel)"
    and keyed: "keyed mc_id (cd_machines (rc_db c))"
  shows "purged policy cutoff (c, tel) s' \<and> purge_progress policy s' \<and>
    keyed mc_id (cd_machines (rc_db (fst s'))) \<and> cd_services (rc_db (fst s')) = cd_services (rc_db c)"
proof -
  obtain c1 claimed where claim: "claim_machine policy r cutoff now c = (c1, claimed)" by (rule prod.exhaust)
  note c1 = claim_machine_step [OF claim listed progress keyed]
  show ?thesis
  proof (cases "claimed \<and> assertAgentCursor (rc_agents c1) (dr_id r) (dr_cursor r) = Inr ()")
    case False
    then have "s' = (c1, tel)"
      using step claim by (auto simp: finalize_machine_def Let_def split: bool.splits sum.splits)
    then show ?thesis using c1 by simp
  next
    case True
    obtain agents left where page: "loadAgentPage (rc_agents c1) (dr_id r) (dr_cursor r) = (agents, left)"
      by (rule prod.exhaust)
    obtain tel1 complete n where purge: "purgeMachineTelemetry (rp_workspace_pk policy) (dr_pk r) agents ROW_BATCH tel =
        (tel1, complete, n)" by (rule prod_cases3)
    have tel1: "shrinks tel tel1"
      using purge_machine_shrinks [of tel "rp_workspace_pk policy" "dr_pk r" agents ROW_BATCH] purge by simp
    have listed1: "listed_machine policy cutoff (c1, tel) r" using c1 by blast
    have purged1: "agents_purged (dr_id r) (dr_cursor r) c1 tel1"
      using listed1 tel1 by (auto simp: listed_machine_def intro: agents_purged_mono)
    have incomplete: "purged policy cutoff (c1, tel) (c1, tel1) \<and> purge_progress policy (c1, tel1)"
      using tel1 c1 by (auto intro: purged_same progress_machines same_machine_refl)
    have "purged policy cutoff (c1, tel) s' \<and> purge_progress policy s' \<and>
      keyed mc_id (cd_machines (rc_db (fst s'))) \<and> cd_services (rc_db (fst s')) = cd_services (rc_db c1)"
    proof (cases complete)
      case False
      then have "s' = (c1, tel1)"
        using step claim True page purge by (auto simp: finalize_machine_def Let_def)
      then show ?thesis using incomplete c1 by simp
    next
      case complete: True
      have clear: "machine_clear (rp_workspace_pk policy) (dr_pk r) tel1" "\<forall>a \<in> set agents. agent_clear a tel1"
        using purged_machine [of "rp_workspace_pk policy" "dr_pk r" agents ROW_BATCH tel tel1 n] purge complete
        by simp_all
      consider "left" "agents = []" | "left" "agents \<noteq> []" | "\<not> left" by blast
      then show ?thesis
      proof cases
        case 1
        then have "s' = (c1, tel1)"
          using step claim True page purge complete by (auto simp: finalize_machine_def Let_def)
        then show ?thesis using incomplete c1 by simp
      next
        case 2
        obtain c2 ok where advance: "advance_agent_cursor policy (dr_id r) (dr_cursor r) (last agents) c1 = (c2, ok)"
          by (rule prod.exhaust)
        then have "s' = (c2, tel1)"
          using step claim True page purge complete 2 by (auto simp: finalize_machine_def Let_def)
        moreover have "agents_purged (dr_id r) (last agents) c1 tel1"
          by (rule agent_page(2) [OF page purged1 refl clear(2) 2(2)])
        ultimately show ?thesis
          using advanced_machine [OF advance _ tel1] c1 True by auto
      next
        case 3
        obtain c2 k where control: "finalizeMachineControl policy (dr_id r) cutoff c1 = (c2, k)" by (rule prod.exhaust)
        then have "s' = (c2, tel1)"
          using step claim True page purge complete 3 by (auto simp: finalize_machine_def Let_def)
        moreover have "\<forall>a \<in> set (rc_agents c1). ag_machine_id a = dr_id r \<longrightarrow> agent_clear (ag_id a) tel1"
          using agent_page(1) [OF page purged1 refl clear(2) 3] by blast
        then have "purged policy cutoff (c1, tel) (c2, tel1) \<and> purge_progress policy (c2, tel1)"
          using finalized_machine [OF control listed1 _ _ tel1 clear(1)] c1 by blast
        ultimately show ?thesis
          using machine_control(1,3) [OF control] c1 by (simp add: keyed_delete_where)
      qed
    qed
    then show ?thesis using c1 purged_trans [of policy cutoff "(c, tel)" "(c1, tel)" s'] by simp
  qed
qed

section \<open>One service\<close>

lemma purged_services:
  assumes "cd_services (rc_db c') = update_where p f (cd_services (rc_db c))"
    and "\<And>x. x \<in> services_of c \<Longrightarrow> p x \<Longrightarrow> same_service x (f x) \<and> service_expired policy cutoff x"
    and "cd_machines (rc_db c') = cd_machines (rc_db c)" "cd_checks (rc_db c') = cd_checks (rc_db c)"
    and "rc_agents c' = rc_agents c" "shrinks tel tel'"
  shows "purged policy cutoff (c, tel) (c', tel')"
proof (rule purgedI)
  fix x assume x: "x \<in> services_of (fst (c, tel))"
  then have "(if p x then f x else x) \<in> services_of c'" by (auto simp: assms(1) set_update_where)
  then show "service_outcome policy cutoff (fst (c, tel)) (c', tel') x"
    using assms(2) [of x] x by (intro service_kept [of "if p x then f x else x"]) auto
next
  fix x' assume "x' \<in> services_of (fst (c', tel'))"
  then obtain x where "x \<in> services_of c" "x' = (if p x then f x else x)"
    unfolding fst_conv assms(1) by (rule in_update_where)
  then show "\<exists>x \<in> services_of (fst (c, tel)). same_service x x'"
    using assms(2) [of x] by (intro bexI [of _ x]) auto
qed (use assms(3-6) in \<open>auto simp: checks_of_def intro: machine_kept same_machine_in\<close>)

definition listed_service ::
  "retention_policy \<Rightarrow> millis \<Rightarrow> purge_state \<Rightarrow> pk deleted_resource \<Rightarrow> bool" where
  "listed_service policy cutoff = (\<lambda>(c, tel) r.
     deleted_before (coalesce (dr_deleted_at r) (rp_workspace_deleted_at policy)) cutoff \<and>
     (\<forall>x \<in> services_of c. sv_id x = dr_id r \<longrightarrow> sv_pk x = dr_pk r) \<and>
     checks_purged policy (dr_id r) (dr_cursor r) c tel)"

lemma progress_services:
  assumes "purge_progress policy (c, tel)" "shrinks tel tel'"
    and "cd_machines (rc_db c') = cd_machines (rc_db c)"
    and "checks_of c' \<subseteq> checks_of c" "set (rc_agents c') \<subseteq> set (rc_agents c)"
    and "\<And>x'. x' \<in> services_of c' \<Longrightarrow> sv_workspace_id x' = rp_workspace_id policy \<Longrightarrow>
      (\<exists>x \<in> services_of c. same_service x x' \<and> sv_purge_check_cursor x' = sv_purge_check_cursor x) \<or>
      checks_purged policy (sv_id x') (sv_purge_check_cursor x') c' tel'"
  shows "purge_progress policy (c', tel')"
proof -
  have "checks_purged policy (sv_id x') (sv_purge_check_cursor x') c' tel'"
    if "x' \<in> services_of c'" "sv_workspace_id x' = rp_workspace_id policy" for x'
    using assms(6) [OF that]
  proof
    assume "\<exists>x \<in> services_of c. same_service x x' \<and> sv_purge_check_cursor x' = sv_purge_check_cursor x"
    then obtain x where "x \<in> services_of c" "same_service x x'" "sv_purge_check_cursor x' = sv_purge_check_cursor x"
      by blast
    then have "checks_purged policy (sv_id x') (sv_purge_check_cursor x') c tel"
      using assms(1) that by (auto simp: purge_progress_def same_service_def)
    then show ?thesis using checks_purged_mono assms(2,4) by blast
  qed
  moreover have "agents_purged (mc_id m) (mc_purge_agent_cursor m) c' tel'"
    if "m \<in> machines_of c'" "mc_workspace_id m = rp_workspace_id policy" for m
    using assms(1-3,5) that by (auto simp: purge_progress_def intro: agents_purged_mono)
  ultimately show ?thesis by (simp add: purge_progress_def)
qed

lemma claim_service_step:
  assumes "claim_service policy r cutoff now c = (c1, claimed)" "listed_service policy cutoff (c, tel) r"
    and "purge_progress policy (c, tel)" "keyed sv_id (cd_services (rc_db c))"
  shows "purged policy cutoff (c, tel) (c1, tel) \<and> purge_progress policy (c1, tel) \<and>
    keyed sv_id (cd_services (rc_db c1)) \<and> listed_service policy cutoff (c1, tel) r \<and>
    cd_machines (rc_db c1) = cd_machines (rc_db c) \<and>
    (claimed \<longrightarrow> (\<forall>x \<in> services_of c1. sv_id x = dr_id r \<longrightarrow> service_expired policy cutoff x))"
proof -
  let ?p = "\<lambda>x. claimable_resource policy r cutoff (rc_db c) (sv_id x) (sv_workspace_id x) (sv_deleted_at x)"
  let ?f = "\<lambda>x. x\<lparr>sv_purge_started_at := coalesce (sv_purge_started_at x) (Some now)\<rparr>"
  have c1: "cd_services (rc_db c1) = update_where ?p ?f (cd_services (rc_db c))"
    "cd_machines (rc_db c1) = cd_machines (rc_db c)" "cd_checks (rc_db c1) = cd_checks (rc_db c)"
    "rc_agents c1 = rc_agents c" "claimed = list_ex ?p (cd_services (rc_db c))"
    using assms(1) by (auto simp: claim_service_def Let_def)
  have expired: "service_expired policy cutoff x" if "?p x" for x
    using that assms(2) by (auto simp: claimable_resource_def listed_service_def expired_in_def coalesce_def split: option.splits)
  have purged: "purged policy cutoff (c, tel) (c1, tel)"
    by (rule purged_services [OF c1(1) _ c1(2-4)]) (use expired in \<open>auto simp: same_service_def\<close>)
  have same: "\<exists>x \<in> services_of c. same_service x x' \<and> sv_purge_check_cursor x' = sv_purge_check_cursor x"
    if "x' \<in> services_of c1" for x'
    using that unfolding c1(1) by (rule in_update_where) (auto simp: same_service_def intro!: bexI)
  have "purge_progress policy (c1, tel)"
    by (rule progress_services [OF assms(3)]) (use c1 same in \<open>auto simp: checks_of_def\<close>)
  moreover have keyed: "keyed sv_id (cd_services (rc_db c1))"
    unfolding c1(1) using assms(4) by (rule keyed_update_where) simp
  moreover have "listed_service policy cutoff (c1, tel) r"
  proof -
    have "sv_pk x' = dr_pk r" if "x' \<in> services_of c1" "sv_id x' = dr_id r" for x'
      using same [OF that(1)] that(2) assms(2) by (auto simp: listed_service_def same_service_def)
    then show ?thesis using assms(2) c1(3) by (simp add: listed_service_def checks_purged_def checks_of_def)
  qed
  moreover have "service_expired policy cutoff x"
    if claim: "claimed" and x: "x \<in> services_of c1" "sv_id x = dr_id r" for x
  proof -
    obtain z where z: "z \<in> services_of c" "?p z" using claim c1(5) unfolding list_ex_iff by blast
    obtain y where y: "y \<in> services_of c" "x = (if ?p y then ?f y else y)"
      using x(1) unfolding c1(1) by (rule in_update_where)
    have "sv_id y = dr_id r" using x(2) y(2) by (auto split: if_splits)
    moreover have "sv_id z = dr_id r" using z(2) by (simp add: claimable_resource_def)
    ultimately have "y = z" using keyed_unique [OF assms(4) y(1) z(1)] by simp
    then show ?thesis using expired [OF z(2)] y(2) z(2) by simp
  qed
  ultimately show ?thesis using purged c1(2) by blast
qed

lemma service_control:
  assumes "finalizeServiceControl policy i cutoff c = (c', n)"
  shows "cd_services (rc_db c') = delete_where (doomed_service policy i cutoff) (cd_services (rc_db c))"
    and "(k, j, w) \<in> checks_of c' \<longleftrightarrow> (k, j, w) \<in> checks_of c \<and>
      (\<forall>x \<in> services_of c. doomed_service policy i cutoff x \<longrightarrow> j \<noteq> sv_id x)"
    and "cd_machines (rc_db c') = cd_machines (rc_db c)" "rc_agents c' = rc_agents c"
proof -
  let ?gone = "map sv_id (filter (doomed_service policy i cutoff) (cd_services (rc_db c)))"
  have "cd_checks (rc_db c') = delete_where (\<lambda>k. cf_service_id k \<in> set ?gone) (cd_checks (rc_db c))"
    using assms by (auto simp: finalizeServiceControl_def Let_def delete_services_def)
  then show "(k, j, w) \<in> checks_of c' \<longleftrightarrow> (k, j, w) \<in> checks_of c \<and>
      (\<forall>x \<in> services_of c. doomed_service policy i cutoff x \<longrightarrow> j \<noteq> sv_id x)"
    by (auto simp: checks_of_def check_identity_def)
qed (use assms in \<open>auto simp: finalizeServiceControl_def Let_def delete_services_def\<close>)

lemma finalized_service:
  assumes control: "finalizeServiceControl policy (dr_id r) cutoff c = (c', n)"
    and listed: "listed_service policy cutoff (c, tel) r" and progress: "purge_progress policy (c, tel)"
    and keyed: "keyed sv_id (cd_services (rc_db c))" and tel: "shrinks tel tel'"
    and clear: "service_clear (rp_workspace_pk policy) (dr_pk r) tel'"
      "\<And>k. (k, dr_id r, rp_workspace_id policy) \<in> checks_of c \<Longrightarrow> check_clear (rp_workspace_pk policy) k tel'"
  shows "purged policy cutoff (c, tel) (c', tel') \<and> purge_progress policy (c', tel')"
proof -
  let ?doomed = "doomed_service policy (dr_id r) cutoff"
  note c' = service_control [OF control]
  have services: "x \<in> services_of c' \<longleftrightarrow> x \<in> services_of c \<and> \<not> ?doomed x" for x by (simp add: c'(1))
  have doomed: "sv_id x = dr_id r \<and> service_expired policy cutoff x" if "?doomed x" for x
    using that by (simp add: doomed_service_def)
  have checks: "checks_of c' \<subseteq> checks_of c" using c'(2) by auto
  have "purged policy cutoff (c, tel) (c', tel')"
  proof (rule purgedI)
    fix x assume "x \<in> services_of (fst (c, tel))"
    then have x: "x \<in> services_of c" by simp
    show "service_outcome policy cutoff (fst (c, tel)) (c', tel') x"
    proof (cases "?doomed x")
      case True
      then have "sv_pk x = dr_pk r" using doomed [OF True] listed x by (auto simp: listed_service_def)
      then show ?thesis using doomed [OF True] clear by (intro service_gone) auto
    next
      case False
      then show ?thesis using x services by (intro service_kept [of x]) auto
    qed
  next
    fix k x' assume k: "(k, sv_id x', rp_workspace_id policy) \<in> checks_of (fst (c, tel))"
      and x': "x' \<in> services_of (fst (c', tel'))"
    have kept: "x' \<in> services_of c" "\<not> ?doomed x'" using x' by (simp_all add: services)
    have "sv_id x' \<noteq> sv_id x" if "x \<in> services_of c" "?doomed x" for x
      using keyed_unique [OF keyed kept(1) that(1)] that(2) kept(2) by blast
    then show "(k, sv_id x', rp_workspace_id policy) \<in> checks_of (fst (c', tel'))" using k by (simp add: c'(2))
  qed (use services checks c'(3,4) tel in \<open>auto intro: machine_kept same_machine_in same_service_in\<close>)
  moreover have "purge_progress policy (c', tel')"
  proof (rule progress_services [OF progress tel c'(3) checks])
    fix x' assume "x' \<in> services_of c'"
    then show "(\<exists>x \<in> services_of c. same_service x x' \<and> sv_purge_check_cursor x' = sv_purge_check_cursor x) \<or>
        checks_purged policy (sv_id x') (sv_purge_check_cursor x') c' tel'"
      using services by (intro disjI1 bexI [of _ x']) simp_all
  qed (simp add: c'(4))
  ultimately show ?thesis by blast
qed

lemma advanced_service:
  assumes advance: "advance_check_cursor policy (dr_id r) (dr_cursor r) next_cursor c = (c', res)"
    and progress: "purge_progress policy (c, tel)" and tel: "shrinks tel tel'"
    and expired: "\<forall>x \<in> services_of c. sv_id x = dr_id r \<longrightarrow> service_expired policy cutoff x"
    and purged: "checks_purged policy (dr_id r) next_cursor c tel'"
  shows "purged policy cutoff (c, tel) (c', tel') \<and> purge_progress policy (c', tel') \<and>
    cd_machines (rc_db c') = cd_machines (rc_db c) \<and>
    (keyed sv_id (cd_services (rc_db c)) \<longrightarrow> keyed sv_id (cd_services (rc_db c')))"
proof -
  let ?p = "\<lambda>x. sv_id x = dr_id r \<and> sv_workspace_id x = rp_workspace_id policy \<and>
    sv_purge_started_at x \<noteq> None \<and> sv_purge_check_cursor x = dr_cursor r"
  let ?f = "\<lambda>x. x\<lparr>sv_purge_check_cursor := next_cursor\<rparr>"
  have c': "cd_services (rc_db c') = update_where ?p ?f (cd_services (rc_db c))"
    "cd_machines (rc_db c') = cd_machines (rc_db c)" "cd_checks (rc_db c') = cd_checks (rc_db c)"
    "rc_agents c' = rc_agents c"
    using advance by (auto simp: advance_check_cursor_def Let_def)
  have "purged policy cutoff (c, tel) (c', tel')"
    by (rule purged_services [OF c'(1) _ c'(2-4) tel]) (use expired in \<open>auto simp: same_service_def\<close>)
  moreover have "(\<exists>x \<in> services_of c. same_service x x' \<and> sv_purge_check_cursor x' = sv_purge_check_cursor x) \<or>
      checks_purged policy (sv_id x') (sv_purge_check_cursor x') c' tel'" if x': "x' \<in> services_of c'" for x'
  proof -
    obtain x where x: "x \<in> services_of c" "x' = (if ?p x then ?f x else x)"
      using x' unfolding c'(1) by (rule in_update_where)
    show ?thesis
    proof (cases "?p x")
      case True
      then show ?thesis using purged x(2) c'(3) by (simp add: checks_purged_def checks_of_def)
    next
      case False
      then have "x' = x" using x(2) unfolding if_not_P [OF False] by blast
      then show ?thesis using x(1) by (intro disjI1 bexI [of _ x]) simp_all
    qed
  qed
  then have "purge_progress policy (c', tel')"
    by (intro progress_services [OF progress tel c'(2)]) (simp_all add: checks_of_def c'(3,4))
  moreover have "keyed sv_id (cd_services (rc_db c'))" if "keyed sv_id (cd_services (rc_db c))"
    unfolding c'(1) using that by (rule keyed_update_where) simp
  ultimately show ?thesis using c'(2) by blast
qed

lemma check_page:
  assumes page: "loadCheckPage policy checks i cursor = (rows, left)"
    and purged: "checks_purged policy i cursor c tel" "checks = cd_checks (rc_db c)"
      "\<forall>k \<in> set (map cf_pk rows). check_clear (rp_workspace_pk policy) k tel"
  shows "\<not> left \<Longrightarrow> (k, i, rp_workspace_id policy) \<in> checks_of c \<Longrightarrow> check_clear (rp_workspace_pk policy) k tel"
    and "rows \<noteq> [] \<Longrightarrow> checks_purged policy i (cf_pk (last rows)) c tel"
proof -
  let ?p = "\<lambda>k. cf_workspace_id k = rp_workspace_id policy \<and> cf_service_id k = i \<and> cf_pk k > cursor"
  have rows: "rows = select_limit ?p cf_pk RELATED_RESOURCE_BATCH checks"
    "left \<longleftrightarrow> RELATED_RESOURCE_BATCH < length (select_limit ?p cf_pk (RELATED_RESOURCE_BATCH + 1) checks)"
    using page by (auto simp only: loadCheckPage_def Let_def page_take prod.inject)
  have row: "\<exists>x \<in> set checks. cf_pk x = k \<and> cf_service_id x = i \<and> cf_workspace_id x = rp_workspace_id policy"
    if "(k, i, rp_workspace_id policy) \<in> checks_of c" for k
    using that purged(2) by (auto simp: checks_of_def check_identity_def)
  have small: "check_clear (rp_workspace_pk policy) k tel"
    if "(k, i, rp_workspace_id policy) \<in> checks_of c" "k \<le> cursor" for k
    using purged(1) that by (auto simp: checks_purged_def)
  show "check_clear (rp_workspace_pk policy) k tel"
    if last: "\<not> left" and k: "(k, i, rp_workspace_id policy) \<in> checks_of c"
  proof (cases "k \<le> cursor")
    case False
    obtain x where x: "x \<in> set checks" "cf_pk x = k" "cf_service_id x = i" "cf_workspace_id x = rp_workspace_id policy"
      using row [OF k] by blast
    then have "x \<in> set rows" unfolding rows(1) using False last rows(2) by (intro page_covers) auto
    then show ?thesis using purged(3) x(2) by auto
  qed (use small k in blast)
  show "checks_purged policy i (cf_pk (last rows)) c tel" if "rows \<noteq> []"
  proof -
    have "check_clear (rp_workspace_pk policy) k tel"
      if k: "(k, i, rp_workspace_id policy) \<in> checks_of c" "k \<le> cf_pk (last rows)" for k
    proof (cases "k \<le> cursor")
      case False
      obtain x where x: "x \<in> set checks" "cf_pk x = k" "cf_service_id x = i"
        "cf_workspace_id x = rp_workspace_id policy" using row [OF k(1)] by blast
      then have "cf_pk x \<in> cf_pk ` set rows"
        unfolding rows(1) using False k(2) \<open>rows \<noteq> []\<close> by (intro page_below) (auto simp: rows(1))
      then show ?thesis using purged(3) x(2) by auto
    qed (use small k in blast)
    then show ?thesis by (auto simp: checks_purged_def)
  qed
qed

lemma purge_steps_keeps:
  assumes "\<And>f s. f \<in> set fs \<Longrightarrow> g (fst (f s)) = g s"
  shows "g (fst (purge_steps fs n s)) = g s"
  using assms by (intro purge_steps_rel [where R = "\<lambda>s s'. g s' = g s"]) auto

definition purge_view ::
  "retention_control \<Rightarrow> machine_row list \<times> service_row list \<times> check_row list \<times> agent_row list" where
  "purge_view c = (cd_machines (rc_db c), cd_services (rc_db c), cd_checks (rc_db c), rc_agents c)"

lemma purged_view:
  "purge_view c' = purge_view c \<Longrightarrow> shrinks tel tel' \<Longrightarrow> purged policy cutoff (c, tel) (c', tel')"
  by (rule purged_same) (simp_all add: purge_view_def)

lemma progress_view:
  "purge_view c' = purge_view c \<Longrightarrow> shrinks tel tel' \<Longrightarrow> purge_progress policy (c, tel) \<Longrightarrow>
    purge_progress policy (c', tel')"
  by (rule progress_machines [of policy c tel]) (auto simp: purge_view_def checks_of_def intro: same_machine_refl)

lemma secrets_view: "purge_view (fst (deleteSecrets w ids c)) = purge_view c"
  unfolding deleteSecrets_def
  by (rule purge_steps_keeps [of _ purge_view]) (auto simp: delete_secret_batch_def purge_view_def Let_def)

lemma finalize_service_step:
  assumes step: "finalize_service pf policy cutoff now r (c, tel) = (s', res)"
    and listed: "listed_service policy cutoff (c, tel) r" and progress: "purge_progress policy (c, tel)"
    and keyed: "keyed sv_id (cd_services (rc_db c))"
  shows "purged policy cutoff (c, tel) s' \<and> purge_progress policy s' \<and>
    keyed sv_id (cd_services (rc_db (fst s'))) \<and> cd_machines (rc_db (fst s')) = cd_machines (rc_db c)"
proof -
  obtain c1 claimed where claim: "claim_service policy r cutoff now c = (c1, claimed)" by (rule prod.exhaust)
  note c1 = claim_service_step [OF claim listed progress keyed]
  let ?checks = "cd_checks (rc_db c1)"
  show ?thesis
  proof (cases "claimed \<and> assertCheckCursor policy ?checks (dr_id r) (dr_cursor r) = Inr ()")
    case False
    then have "s' = (c1, tel)"
      using step claim by (auto simp: finalize_service_def Let_def split: bool.splits sum.splits)
    then show ?thesis using c1 by simp
  next
    case True
    obtain rows left where page: "loadCheckPage policy ?checks (dr_id r) (dr_cursor r) = (rows, left)"
      by (rule prod.exhaust)
    obtain tel1 complete n where purge: "purgeServiceTelemetry (rp_workspace_pk policy) (dr_pk r) (map cf_pk rows)
        ROW_BATCH tel = (tel1, complete, n)" by (rule prod_cases3)
    obtain c2 k where secrets: "deleteSecrets (rp_workspace_id policy) (collectSecretIds pf rows) c1 = (c2, k)"
      by (rule prod.exhaust)
    have c2: "purge_view c2 = purge_view c1" using secrets_view secrets by (metis fst_conv)
    have tel1: "shrinks tel tel1"
      using purge_service_shrinks [of tel "rp_workspace_pk policy" "dr_pk r" "map cf_pk rows" ROW_BATCH] purge by simp
    have listed1: "listed_service policy cutoff (c2, tel) r"
      using c1 c2 by (simp add: purge_view_def listed_service_def checks_purged_def checks_of_def)
    have purged1: "checks_purged policy (dr_id r) (dr_cursor r) c2 tel1"
      using listed1 tel1 by (auto simp: listed_service_def intro: checks_purged_mono)
    have early: "purged policy cutoff (c1, tel) (c', tel1) \<and> purge_progress policy (c', tel1) \<and>
        keyed sv_id (cd_services (rc_db c')) \<and> cd_machines (rc_db c') = cd_machines (rc_db c1)"
      if "c' = c1 \<or> c' = c2" for c'
    proof -
      have view: "purge_view c' = purge_view c1" using that c2 by auto
      then show ?thesis
        using c1 by (intro conjI purged_view [OF view tel1] progress_view [OF view tel1]) (auto simp: purge_view_def)
    qed
    have "purged policy cutoff (c1, tel) s' \<and> purge_progress policy s' \<and>
      keyed sv_id (cd_services (rc_db (fst s'))) \<and> cd_machines (rc_db (fst s')) = cd_machines (rc_db c1)"
    proof (cases complete)
      case False
      then have "s' = (c1, tel1)"
        using step claim True page purge by (simp add: finalize_service_def Let_def)
      then show ?thesis using early [of c1] by simp
    next
      case complete: True
      have clear: "service_clear (rp_workspace_pk policy) (dr_pk r) tel1"
        "\<forall>k \<in> set (map cf_pk rows). check_clear (rp_workspace_pk policy) k tel1"
        using purged_service [of "rp_workspace_pk policy" "dr_pk r" "map cf_pk rows" ROW_BATCH tel tel1 n]
          purge complete by simp_all
      have checks2: "?checks = cd_checks (rc_db c2)" using c2 by (simp add: purge_view_def)
      have to_c2: "purged policy cutoff (c1, tel) (c2, tel) \<and> purge_progress policy (c2, tel) \<and>
          keyed sv_id (cd_services (rc_db c2)) \<and> cd_machines (rc_db c2) = cd_machines (rc_db c1) \<and>
          (\<forall>x \<in> services_of c2. sv_id x = dr_id r \<longrightarrow> service_expired policy cutoff x)"
        using c1 c2 True
        by (intro conjI purged_view [OF c2 shrinks_refl] progress_view [OF c2 shrinks_refl]) (auto simp: purge_view_def)
      consider "left" "rows = []" | "left" "rows \<noteq> []" | "\<not> left" by blast
      then show ?thesis
      proof cases
        case 1
        then have "s' = (c2, tel1)"
          using step claim True page purge complete secrets 1 by (simp add: finalize_service_def Let_def)
        then show ?thesis using early [of c2] by simp
      next
        case 2
        obtain c3 ok where advance: "advance_check_cursor policy (dr_id r) (dr_cursor r) (cf_pk (last rows)) c2 = (c3, ok)"
          by (rule prod.exhaust)
        then have s': "s' = (c3, tel1)"
          using step claim True page purge complete secrets 2 by (auto simp: finalize_service_def Let_def)
        have "checks_purged policy (dr_id r) (cf_pk (last rows)) c2 tel1"
          by (rule check_page(2) [OF page purged1 checks2 clear(2) 2(2)])
        then show ?thesis
          using advanced_service [OF advance _ tel1, of cutoff] to_c2 s'
            purged_trans [of policy cutoff "(c1, tel)" "(c2, tel)" s'] by auto
      next
        case 3
        obtain c3 m where control: "finalizeServiceControl policy (dr_id r) cutoff c2 = (c3, m)" by (rule prod.exhaust)
        then have s': "s' = (c3, tel1)"
          using step claim True page purge complete secrets 3 by (auto simp: finalize_service_def Let_def)
        have "check_clear (rp_workspace_pk policy) k tel1"
          if "(k, dr_id r, rp_workspace_id policy) \<in> checks_of c2" for k
          by (rule check_page(1) [OF page purged1 checks2 clear(2) 3 that])
        then have "purged policy cutoff (c2, tel) (c3, tel1) \<and> purge_progress policy (c3, tel1)"
          using finalized_service [OF control listed1 _ _ tel1 clear(1)] to_c2 by blast
        then show ?thesis
          using service_control(1,3) [OF control] to_c2 s'
            purged_trans [of policy cutoff "(c1, tel)" "(c2, tel)" s'] by (simp add: keyed_delete_where)
      qed
    qed
    then show ?thesis using c1 purged_trans [of policy cutoff "(c, tel)" "(c1, tel)" s'] by simp
  qed
qed

section \<open>The loops\<close>

text \<open>The invariant of the purge, and the steps that keep it while moving within the relation.\<close>

definition purge_wf :: "retention_policy \<Rightarrow> purge_state \<Rightarrow> bool" where
  "purge_wf policy s \<longleftrightarrow> purge_progress policy s \<and> keyed mc_id (cd_machines (rc_db (fst s))) \<and>
     keyed sv_id (cd_services (rc_db (fst s)))"

definition purge_safe :: "retention_policy \<Rightarrow> millis \<Rightarrow> (purge_state \<Rightarrow> purge_state \<times> 'a) \<Rightarrow> bool" where
  "purge_safe policy cutoff f \<longleftrightarrow>
     (\<forall>s. purge_wf policy s \<longrightarrow> purged policy cutoff s (fst (f s)) \<and> purge_wf policy (fst (f s)))"

lemma purge_safe_view:
  assumes "\<And>c tel. purge_view (fst (fst (f (c, tel)))) = purge_view c \<and> shrinks tel (snd (fst (f (c, tel))))"
  shows "purge_safe policy cutoff f"
proof -
  have "purged policy cutoff (c, tel) (fst (f (c, tel))) \<and> purge_wf policy (fst (f (c, tel)))"
    if "purge_wf policy (c, tel)" for c tel
  proof -
    obtain c' tel' where f: "fst (f (c, tel)) = (c', tel')" by (rule prod.exhaust)
    have v: "purge_view c' = purge_view c" "shrinks tel tel'" using assms [of c tel] by (simp_all add: f)
    then show ?thesis
      using that unfolding f purge_wf_def
      by (intro conjI purged_view progress_view [OF v]) (auto simp: purge_view_def)
  qed
  then show ?thesis unfolding purge_safe_def by (metis surj_pair)
qed

lemma run_steps_safe:
  assumes "\<And>f. f \<in> set fs \<Longrightarrow> purge_safe policy cutoff f"
  shows "purge_safe policy cutoff (run_steps fs n)"
proof -
  let ?R = "\<lambda>s s'. purge_wf policy s \<longrightarrow> purged policy cutoff s s' \<and> purge_wf policy s'"
  have "?R s (fst (run_steps fs n s))" for s
  proof (rule run_steps_rel [where R = ?R])
    show "?R a b \<Longrightarrow> ?R b c \<Longrightarrow> ?R a c" for a b c using purged_trans by blast
    show "f \<in> set fs \<Longrightarrow> ?R u (fst (f u))" for f u using assms unfolding purge_safe_def by blast
  qed (simp add: purged_same)
  then show ?thesis by (simp add: purge_safe_def)
qed

lemma listed_machine_iff:
  "listed_machine policy cutoff s r \<longleftrightarrow>
    deleted_before (coalesce (dr_deleted_at r) (rp_workspace_deleted_at policy)) cutoff \<and>
    (\<forall>m \<in> machines_of (fst s). mc_id m = dr_id r \<longrightarrow> mc_pk m = dr_pk r) \<and>
    agents_purged (dr_id r) (dr_cursor r) (fst s) (snd s)"
  by (cases s) (simp add: listed_machine_def)

lemma listed_service_iff:
  "listed_service policy cutoff s r \<longleftrightarrow>
    deleted_before (coalesce (dr_deleted_at r) (rp_workspace_deleted_at policy)) cutoff \<and>
    (\<forall>x \<in> services_of (fst s). sv_id x = dr_id r \<longrightarrow> sv_pk x = dr_pk r) \<and>
    checks_purged policy (dr_id r) (dr_cursor r) (fst s) (snd s)"
  by (cases s) (simp add: listed_service_def)

lemma purge_progressD:
  assumes "purge_progress policy s"
  shows "m \<in> machines_of (fst s) \<Longrightarrow> mc_workspace_id m = rp_workspace_id policy \<Longrightarrow>
      agents_purged (mc_id m) (mc_purge_agent_cursor m) (fst s) (snd s)"
    and "x \<in> services_of (fst s) \<Longrightarrow> sv_workspace_id x = rp_workspace_id policy \<Longrightarrow>
      checks_purged policy (sv_id x) (sv_purge_check_cursor x) (fst s) (snd s)"
  using assms by (cases s; simp add: purge_progress_def)+

lemma listed_machine_purged:
  assumes "listed_machine policy cutoff s r" "purged policy cutoff' s s'"
  shows "listed_machine policy cutoff s' r"
proof -
  note listed = assms(1) [unfolded listed_machine_iff]
  have "mc_pk m' = dr_pk r" if m': "m' \<in> machines_of (fst s')" "mc_id m' = dr_id r" for m'
  proof -
    obtain m where "m \<in> machines_of (fst s)" "same_machine m m'" using purgedD(4) [OF assms(2) m'(1)] by blast
    then show ?thesis using m'(2) listed by (simp add: same_machine_def)
  qed
  moreover have "set (rc_agents (fst s')) \<subseteq> set (rc_agents (fst s))" using purgedD(6) [OF assms(2)] by blast
  then have "agents_purged (dr_id r) (dr_cursor r) (fst s') (snd s')"
    using listed purgedD(1) [OF assms(2)] agents_purged_mono by blast
  ultimately show ?thesis using listed by (simp add: listed_machine_iff)
qed

lemma listed_service_purged:
  assumes "listed_service policy cutoff s r" "purged policy cutoff' s s'"
  shows "listed_service policy cutoff s' r"
proof -
  note listed = assms(1) [unfolded listed_service_iff]
  have "sv_pk x' = dr_pk r" if x': "x' \<in> services_of (fst s')" "sv_id x' = dr_id r" for x'
  proof -
    obtain x where "x \<in> services_of (fst s)" "same_service x x'" using purgedD(5) [OF assms(2) x'(1)] by blast
    then show ?thesis using x'(2) listed by (simp add: same_service_def)
  qed
  moreover have "checks_of (fst s') \<subseteq> checks_of (fst s)" using purgedD(7) [OF assms(2)] by blast
  then have "checks_purged policy (dr_id r) (dr_cursor r) (fst s') (snd s')"
    using listed purgedD(1) [OF assms(2)] checks_purged_mono by blast
  ultimately show ?thesis using listed by (simp add: listed_service_iff)
qed

text \<open>A loop over a list read before it, whose entries stay valid while the purge goes on.\<close>

lemma listed_loop:
  assumes valid: "\<And>s r s'. listed s r \<Longrightarrow> purged policy cutoff s s' \<Longrightarrow> listed s' r"
    and step: "\<And>s r. listed s r \<Longrightarrow> purge_wf policy s \<Longrightarrow>
      purged policy cutoff s (fst (f r s)) \<and> purge_wf policy (fst (f r s))"
    and "\<And>r. r \<in> set rs \<Longrightarrow> listed s r" "purge_wf policy s"
  shows "purged policy cutoff s (fst (run_steps (map f rs) n s)) \<and> purge_wf policy (fst (run_steps (map f rs) n s))"
  using assms(3,4)
proof (induction rs arbitrary: n s)
  case Nil
  then show ?case by (simp add: purged_same)
next
  case (Cons r rs)
  obtain s' x where f: "f r s = (s', x)" by (rule prod.exhaust)
  have s': "purged policy cutoff s s'" "purge_wf policy s'"
    using step [of s r] Cons.prems f by simp_all
  have "purged policy cutoff s' (fst (run_steps (map f rs) m s')) \<and> purge_wf policy (fst (run_steps (map f rs) m s'))"
    for m
  proof (rule Cons.IH)
    show "listed s' q" if "q \<in> set rs" for q
      using Cons.prems(1) [of q] that by (intro valid [OF _ s'(1)]) simp
  qed (rule s'(2))
  then show ?case using f s'(1) purged_trans [OF s'(1)] s'(2) by (cases x) simp_all
qed

lemma finalizeMachines_safe: "purge_safe policy cutoff (finalizeMachines policy cutoff now)"
proof -
  have "purged policy cutoff s (fst (finalizeMachines policy cutoff now s)) \<and>
      purge_wf policy (fst (finalizeMachines policy cutoff now s))" if wf: "purge_wf policy s" for s
    unfolding finalizeMachines_def
  proof (rule listed_loop [where listed = "listed_machine policy cutoff"])
    fix r assume "r \<in> set (deleted_machines (rc_db (fst s)) policy cutoff)"
    then obtain m where m: "m \<in> machines_of (fst s)" "machine_expired policy cutoff m"
      "r = \<lparr>dr_id = mc_id m, dr_pk = mc_pk m, dr_deleted_at = mc_deleted_at m, dr_cursor = mc_purge_agent_cursor m\<rparr>"
      using set_select_limit [of "\<lambda>m. machine_expired policy cutoff m" mc_pk PURGE_RESOURCE_BATCH
          "cd_machines (rc_db (fst s))"] by (auto simp: deleted_machines_def)
    have pk: "mc_pk m' = mc_pk m" if "m' \<in> machines_of (fst s)" "mc_id m' = mc_id m" for m'
      using keyed_unique [of mc_id "cd_machines (rc_db (fst s))" m' m] wf m(1) that by (simp add: purge_wf_def)
    have ws: "mc_workspace_id m = rp_workspace_id policy" using m(2) by (simp add: expired_in_def)
    have "purge_progress policy s" using wf by (simp add: purge_wf_def)
    from purge_progressD(1) [OF this m(1) ws]
    have "agents_purged (mc_id m) (mc_purge_agent_cursor m) (fst s) (snd s)" .
    with pk m(2) show "listed_machine policy cutoff s r"
      unfolding listed_machine_iff m(3) expired_in_def by simp
  next
    fix s r assume r: "listed_machine policy cutoff s r" and wf: "purge_wf policy s"
    obtain c tel where s: "s = (c, tel)" by (rule prod.exhaust)
    obtain s' x where step: "finalize_machine policy cutoff now r (c, tel) = (s', x)" by (rule prod.exhaust)
    show "purged policy cutoff s (fst (finalize_machine policy cutoff now r s)) \<and>
        purge_wf policy (fst (finalize_machine policy cutoff now r s))"
      using finalize_machine_step [OF step] r wf step by (simp add: s purge_wf_def)
  next
    show "listed_machine policy cutoff s r \<Longrightarrow> purged policy cutoff s s' \<Longrightarrow> listed_machine policy cutoff s' r" for s r s'
      by (rule listed_machine_purged)
  qed (rule wf)
  then show ?thesis by (simp add: purge_safe_def)
qed

lemma finalizeServices_safe: "purge_safe policy cutoff (finalizeServices pf policy cutoff now)"
proof -
  have "purged policy cutoff s (fst (finalizeServices pf policy cutoff now s)) \<and>
      purge_wf policy (fst (finalizeServices pf policy cutoff now s))" if wf: "purge_wf policy s" for s
    unfolding finalizeServices_def
  proof (rule listed_loop [where listed = "listed_service policy cutoff"])
    fix r assume "r \<in> set (deleted_services (rc_db (fst s)) policy cutoff)"
    then obtain m where m: "m \<in> services_of (fst s)" "service_expired policy cutoff m"
      "r = \<lparr>dr_id = sv_id m, dr_pk = sv_pk m, dr_deleted_at = sv_deleted_at m, dr_cursor = sv_purge_check_cursor m\<rparr>"
      using set_select_limit [of "\<lambda>m. service_expired policy cutoff m" sv_pk PURGE_RESOURCE_BATCH
          "cd_services (rc_db (fst s))"] by (auto simp: deleted_services_def)
    have pk: "sv_pk m' = sv_pk m" if "m' \<in> services_of (fst s)" "sv_id m' = sv_id m" for m'
      using keyed_unique [of sv_id "cd_services (rc_db (fst s))" m' m] wf m(1) that by (simp add: purge_wf_def)
    have ws: "sv_workspace_id m = rp_workspace_id policy" using m(2) by (simp add: expired_in_def)
    have "purge_progress policy s" using wf by (simp add: purge_wf_def)
    from purge_progressD(2) [OF this m(1) ws]
    have "checks_purged policy (sv_id m) (sv_purge_check_cursor m) (fst s) (snd s)" .
    with pk m(2) show "listed_service policy cutoff s r"
      unfolding listed_service_iff m(3) expired_in_def by simp
  next
    fix s r assume r: "listed_service policy cutoff s r" and wf: "purge_wf policy s"
    obtain c tel where s: "s = (c, tel)" by (rule prod.exhaust)
    obtain s' x where step: "finalize_service pf policy cutoff now r (c, tel) = (s', x)" by (rule prod.exhaust)
    show "purged policy cutoff s (fst (finalize_service pf policy cutoff now r s)) \<and>
        purge_wf policy (fst (finalize_service pf policy cutoff now r s))"
      using finalize_service_step [OF step] r wf step by (simp add: s purge_wf_def)
  next
    show "listed_service policy cutoff s r \<Longrightarrow> purged policy cutoff s s' \<Longrightarrow> listed_service policy cutoff s' r" for s r s'
      by (rule listed_service_purged)
  qed (rule wf)
  then show ?thesis by (simp add: purge_safe_def)
qed

section \<open>The whole purge\<close>

lemma control_only_view:
  "purge_view (fst (finalize_containers policy cutoff c)) = purge_view c"
  "purge_view (fst (finalize_dashboards policy cutoff c)) = purge_view c"
  "purge_view (fst (finalize_incidents policy cutoff c)) = purge_view c"
  "purge_view (fst (finalize_announcements policy cutoff c)) = purge_view c"
  by (simp_all add: purge_view_def finalize_containers_def finalize_dashboards_def finalize_incidents_def
      finalize_announcements_def delete_dashboards_def delete_incidents_def Let_def)

lemma on_control_safe:
  assumes "\<And>c. purge_view (fst (f c)) = purge_view c"
  shows "purge_safe policy cutoff (on_control f)"
  by (rule purge_safe_view) (simp add: on_control_def case_prod_beta' Let_def assms)

lemma claim_workspace_view:
  "purge_view (fst (claimWorkspaceFinalization policy cutoff now c)) = purge_view c"
  by (simp add: claimWorkspaceFinalization_def purge_view_def)

lemma soft_deleted_safe:
  "purge_safe policy (soft_delete_cutoff policy now) (finalizeSoftDeletedResources pf policy now)"
proof -
  let ?cutoff = "soft_delete_cutoff policy now"
  define steps where "steps = [finalizeMachines policy ?cutoff now, finalizeServices pf policy ?cutoff now,
    on_control (finalize_containers policy ?cutoff), on_control (finalize_dashboards policy ?cutoff),
    on_control (finalize_incidents policy ?cutoff), on_control (finalize_announcements policy ?cutoff)]"
  have safe: "purge_safe policy ?cutoff (run_steps steps 0)"
  proof (rule run_steps_safe)
    fix f assume "f \<in> set steps"
    then show "purge_safe policy ?cutoff f"
      using finalizeMachines_safe finalizeServices_safe on_control_safe [OF control_only_view(1)]
        on_control_safe [OF control_only_view(2)] on_control_safe [OF control_only_view(3)]
        on_control_safe [OF control_only_view(4)]
      unfolding steps_def by auto
  qed
  have "purged policy ?cutoff (c, tel) (fst (finalizeSoftDeletedResources pf policy now (c, tel))) \<and>
      purge_wf policy (fst (finalizeSoftDeletedResources pf policy now (c, tel)))" if wf: "purge_wf policy (c, tel)" for c tel
  proof -
    obtain c1 claimed where claim: "claimWorkspaceFinalization policy ?cutoff now c = (c1, claimed)" by (rule prod.exhaust)
    have view: "purge_view c1 = purge_view c" using claim_workspace_view [of policy ?cutoff now c] claim by simp
    have one: "purged policy ?cutoff (c, tel) (c1, tel)" "purge_wf policy (c1, tel)"
      using wf progress_view [OF view shrinks_refl] view
      by (auto simp: purge_wf_def purge_view_def intro: purged_view [OF view])
    have result: "fst (finalizeSoftDeletedResources pf policy now (c, tel)) =
        (if claimed then fst (run_steps steps 0 (c1, tel)) else (c1, tel))"
      using claim by (simp add: finalizeSoftDeletedResources_def steps_def Let_def del: run_steps.simps)
    show ?thesis
      using safe one purged_trans [OF one(1)] unfolding result purge_safe_def by simp
  qed
  then show ?thesis unfolding purge_safe_def by (metis surj_pair)
qed

text \<open>A workspace that goes has none of its resources and none of its telemetry left.\<close>

definition workspace_gone :: "retention_policy \<Rightarrow> purge_state \<Rightarrow> bool" where
  "workspace_gone policy = (\<lambda>(c, tel). \<not> control_rows_present (rp_workspace_id policy) c \<and>
     workspaceTelemetryIsEmpty (rp_workspace_pk policy) tel)"

definition workspace_view :: "retention_control \<Rightarrow> (string \<times> pk \<times> millis option) list" where
  "workspace_view c = map (\<lambda>w. (wk_id w, wk_pk w, wk_deleted_at w)) (cd_workspaces (rc_db c))"

lemma claim_workspace_rows: "workspace_view (fst (claimWorkspaceFinalization policy cutoff now c)) = workspace_view c"
  by (auto simp: claimWorkspaceFinalization_def workspace_view_def intro!: map_update_where)

lemma claim_keeps_memberships [simp]:
  "rc_memberships (fst (claimWorkspaceFinalization policy cutoff now c)) = rc_memberships c"
  by (simp add: claimWorkspaceFinalization_def update_db_def)

lemma delete_workspace_rows_facts:
  assumes "\<not> control_rows_present w c"
  shows "cd_machines (rc_db (delete_workspace_rows w c)) = cd_machines (rc_db c)"
    and "cd_services (rc_db (delete_workspace_rows w c)) = cd_services (rc_db c)"
    and "cd_workspaces (rc_db (delete_workspace_rows w c)) = cd_workspaces (rc_db c)"
    and "set (rc_agents (delete_workspace_rows w c)) \<subseteq> set (rc_agents c)"
    and "checks_of (delete_workspace_rows w c) \<subseteq> checks_of c"
    and "x \<in> set (rc_agents c) \<Longrightarrow> ag_workspace_id x \<noteq> w \<Longrightarrow> x \<in> set (rc_agents (delete_workspace_rows w c))"
    and "\<not> control_rows_present w (delete_workspace_rows w c)"
proof -
  have none: "filter (\<lambda>m. mc_workspace_id m = w) (cd_machines (rc_db c)) = []"
    "filter (\<lambda>m. mc_workspace_id m \<noteq> w) (cd_machines (rc_db c)) = cd_machines (rc_db c)"
    "filter (\<lambda>s. sv_workspace_id s = w) (cd_services (rc_db c)) = []"
    "filter (\<lambda>s. sv_workspace_id s \<noteq> w) (cd_services (rc_db c)) = cd_services (rc_db c)"
    using assms by (auto simp: control_rows_present_def list_ex_iff filter_empty_conv intro!: filter_True)
  note defs = delete_workspace_rows_def delete_machines_def delete_services_def delete_agents_def
    delete_dashboards_def delete_incidents_def Let_def
  show rows: "cd_machines (rc_db (delete_workspace_rows w c)) = cd_machines (rc_db c)"
    "cd_services (rc_db (delete_workspace_rows w c)) = cd_services (rc_db c)"
    "cd_workspaces (rc_db (delete_workspace_rows w c)) = cd_workspaces (rc_db c)"
    by (simp_all add: defs none delete_where_def)
  have tables: "set (rc_containers (delete_workspace_rows w c)) \<subseteq> set (rc_containers c)"
    "set (rc_dashboards (delete_workspace_rows w c)) \<subseteq> set (rc_dashboards c)"
    "set (rc_incidents (delete_workspace_rows w c)) \<subseteq> set (rc_incidents c)"
    "set (rc_announcements (delete_workspace_rows w c)) \<subseteq> set (rc_announcements c)"
    by (auto simp: defs none)
  show "set (rc_agents (delete_workspace_rows w c)) \<subseteq> set (rc_agents c)"
    "x \<in> set (rc_agents c) \<Longrightarrow> ag_workspace_id x \<noteq> w \<Longrightarrow> x \<in> set (rc_agents (delete_workspace_rows w c))"
    by (auto simp: defs none)
  show "checks_of (delete_workspace_rows w c) \<subseteq> checks_of c"
    by (auto simp: defs none checks_of_def)
  show "\<not> control_rows_present w (delete_workspace_rows w c)"
    using assms tables unfolding control_rows_present_def list_ex_iff rows by blast
qed

lemma delete_owned_facts:
  assumes "\<not> control_rows_present w c" "\<forall>x. p x \<longrightarrow> wk_id x = w"
  shows "cd_machines (rc_db (delete_owned p c)) = cd_machines (rc_db c)"
    and "cd_services (rc_db (delete_owned p c)) = cd_services (rc_db c)"
    and "cd_workspaces (rc_db (delete_owned p c)) = delete_where p (cd_workspaces (rc_db c))"
    and "set (rc_agents (delete_owned p c)) \<subseteq> set (rc_agents c)"
    and "checks_of (delete_owned p c) \<subseteq> checks_of c"
    and "x \<in> set (rc_agents c) \<Longrightarrow> ag_workspace_id x \<noteq> w \<Longrightarrow> x \<in> set (rc_agents (delete_owned p c))"
    and "\<not> control_rows_present w (delete_owned p c)"
proof -
  have fold: "cd_machines (rc_db (fold delete_workspace_rows ws u)) = cd_machines (rc_db u) \<and>
      cd_services (rc_db (fold delete_workspace_rows ws u)) = cd_services (rc_db u) \<and>
      cd_workspaces (rc_db (fold delete_workspace_rows ws u)) = cd_workspaces (rc_db u) \<and>
      set (rc_agents (fold delete_workspace_rows ws u)) \<subseteq> set (rc_agents u) \<and>
      checks_of (fold delete_workspace_rows ws u) \<subseteq> checks_of u \<and>
      (\<forall>x \<in> set (rc_agents u). ag_workspace_id x \<noteq> w \<longrightarrow> x \<in> set (rc_agents (fold delete_workspace_rows ws u))) \<and>
      \<not> control_rows_present w (fold delete_workspace_rows ws u)"
    if "\<forall>v \<in> set ws. v = w" "\<not> control_rows_present w u" for ws u
    using that
  proof (induction ws arbitrary: u)
    case (Cons v ws)
    then have v: "v = w" by simp
    note u = delete_workspace_rows_facts [OF Cons.prems(2)]
    have "\<forall>v \<in> set ws. v = w" using Cons.prems(1) by simp
    from Cons.IH [OF this u(7)] show ?case using u(1-6) unfolding v fold_simps by (metis subset_trans)
  qed simp
  define u where "u = fold delete_workspace_rows (map wk_id (filter p (cd_workspaces (rc_db c)))) c"
  have d: "delete_owned p c = update_db (\<lambda>db. db\<lparr>cd_workspaces := delete_where p (cd_workspaces db)\<rparr>) u"
    by (simp add: delete_owned_def u_def)
  have all: "\<forall>v \<in> set (map wk_id (filter p (cd_workspaces (rc_db c)))). v = w" using assms(2) by auto
  note f = fold [OF all assms(1), folded u_def]
  show "cd_machines (rc_db (delete_owned p c)) = cd_machines (rc_db c)"
    "cd_services (rc_db (delete_owned p c)) = cd_services (rc_db c)"
    "cd_workspaces (rc_db (delete_owned p c)) = delete_where p (cd_workspaces (rc_db c))"
    "set (rc_agents (delete_owned p c)) \<subseteq> set (rc_agents c)"
    "x \<in> set (rc_agents c) \<Longrightarrow> ag_workspace_id x \<noteq> w \<Longrightarrow> x \<in> set (rc_agents (delete_owned p c))"
    using f by (simp_all add: d)
  show "checks_of (delete_owned p c) \<subseteq> checks_of c"
    using f by (simp add: d checks_of_def)
  have "control_rows_present w (delete_owned p c) = control_rows_present w u"
    by (simp add: d control_rows_present_def update_db_def)
  then show "\<not> control_rows_present w (delete_owned p c)" using f by blast
qed

lemma claimed_workspaces:
  assumes "claimWorkspaceFinalization policy cutoff now c = (c1, claimed)"
    and "deleted_before (rp_workspace_deleted_at policy) cutoff" "x \<in> set (cd_workspaces (rc_db c1))"
  shows "doomed_workspace policy x \<longleftrightarrow>
    wk_id x = rp_workspace_id policy \<and> wk_deleted_at x = rp_workspace_deleted_at policy"
proof -
  let ?f = "\<lambda>w. w\<lparr>wk_purge_started_at := coalesce (wk_purge_started_at w) (Some now)\<rparr>"
  have "cd_workspaces (rc_db c1) = update_where (claimable_workspace policy cutoff) ?f (cd_workspaces (rc_db c))"
    using assms(1,2) by (auto simp: claimWorkspaceFinalization_def)
  then obtain y where y: "x = (if claimable_workspace policy cutoff y then ?f y else y)"
    using assms(3) by (auto elim: in_update_where)
  have due: "rp_workspace_deleted_at policy \<noteq> None" using assms(2) by (auto simp: deleted_before_def split: option.splits)
  show ?thesis
  proof (cases "claimable_workspace policy cutoff y")
    case True
    then show ?thesis
      using y due by (auto simp: doomed_workspace_def claimable_workspace_def coalesce_def split: option.splits)
  next
    case False
    then show ?thesis using y due assms(2) by (auto simp: doomed_workspace_def claimable_workspace_def)
  qed
qed

lemma delete_workspaces_facts:
  assumes "delete_workspaces p c = Some c2" "\<not> control_rows_present w c" "\<forall>x. p x \<longrightarrow> wk_id x = w"
  shows "cd_machines (rc_db c2) = cd_machines (rc_db c)"
    and "cd_services (rc_db c2) = cd_services (rc_db c)"
    and "cd_workspaces (rc_db c2) = delete_where p (cd_workspaces (rc_db c))"
    and "set (rc_agents c2) \<subseteq> set (rc_agents c)"
    and "checks_of c2 \<subseteq> checks_of c"
    and "x \<in> set (rc_agents c) \<Longrightarrow> ag_workspace_id x \<noteq> w \<Longrightarrow> x \<in> set (rc_agents c2)"
    and "\<not> control_rows_present w c2"
proof -
  obtain t where c2: "c2 = (delete_owned p c)\<lparr>rc_memberships := t\<rparr>"
    using assms(1) by (auto simp: delete_workspaces_def)
  note facts = delete_owned_facts [OF assms(2,3)]
  show "cd_machines (rc_db c2) = cd_machines (rc_db c)" "cd_services (rc_db c2) = cd_services (rc_db c)"
    "cd_workspaces (rc_db c2) = delete_where p (cd_workspaces (rc_db c))" "set (rc_agents c2) \<subseteq> set (rc_agents c)"
    "x \<in> set (rc_agents c) \<Longrightarrow> ag_workspace_id x \<noteq> w \<Longrightarrow> x \<in> set (rc_agents c2)"
    using facts(1-4,6) by (simp_all add: c2)
  show "checks_of c2 \<subseteq> checks_of c" "\<not> control_rows_present w c2"
    using facts(5,7) by (simp_all add: c2 checks_of_def control_rows_present_def)
qed

lemma workspace_step:
  assumes step: "finalizeDeletedWorkspace policy now (c, tel) = (s', n)" and wf: "purge_wf policy (c, tel)"
  shows "purged policy cutoff (c, tel) s' \<and> purge_wf policy s' \<and>
    (workspace_view (fst s') = workspace_view c \<or>
     workspace_gone policy s' \<and> deleted_before (rp_workspace_deleted_at policy) (soft_delete_cutoff policy now) \<and>
     workspace_view (fst s') = filter (\<lambda>(i, k, d). \<not> (i = rp_workspace_id policy \<and> d = rp_workspace_deleted_at policy))
       (workspace_view c))"
proof -
  let ?w = "rp_workspace_id policy" and ?p = "doomed_workspace policy" and ?cutoff = "soft_delete_cutoff policy now"
  obtain c1 claimed where claim: "claimWorkspaceFinalization policy ?cutoff now c = (c1, claimed)" by (rule prod.exhaust)
  have view: "purge_view c1 = purge_view c" "workspace_view c1 = workspace_view c"
    using claim_workspace_view [of policy ?cutoff now c] claim_workspace_rows [of policy ?cutoff now c] claim by simp_all
  have one: "purged policy cutoff (c, tel) (c1, tel')" "purge_wf policy (c1, tel')" if "shrinks tel tel'" for tel'
    using wf progress_view [OF view(1) that] view(1) that
    by (auto simp: purge_wf_def purge_view_def intro: purged_view [OF view(1)])
  let ?due = "deleted_before (rp_workspace_deleted_at policy) ?cutoff"
  let ?tel = "fst (deleteWorkspaceTelemetryState (rp_workspace_pk policy) tel)"
  have tel: "shrinks tel ?tel" by (simp add: shrinks_def deleteWorkspaceTelemetryState_def)
  let ?go = "?due \<and> claimed \<and> \<not> control_rows_present ?w c1 \<and> workspaceTelemetryIsEmpty (rp_workspace_pk policy) tel"
  consider (kept) "s' = (c, tel) \<or> s' = (c1, tel) \<or> s' = (c1, ?tel)"
    | (gone) c2 where ?go "delete_workspaces ?p c1 = Some c2" "s' = (c2, ?tel)"
    using step claim
    by (cases ?go; cases "delete_workspaces ?p c1")
      (auto simp: finalizeDeletedWorkspace_def Let_def case_prod_beta' split: bool.splits if_splits)
  then show ?thesis
  proof cases
    case kept
    then show ?thesis using one [OF shrinks_refl] one [OF tel] view wf purged_same by auto
  next
    case gone
    have none: "\<not> control_rows_present ?w c1" using gone(1) by blast
    have ids: "\<forall>x. ?p x \<longrightarrow> wk_id x = ?w" by (simp add: doomed_workspace_def)
    note facts = delete_workspaces_facts [OF gone(2) none ids]
    have no_machine: "mc_workspace_id m \<noteq> ?w" if "m \<in> machines_of c1" for m
      using none that by (auto simp: control_rows_present_def list_ex_iff)
    have no_service: "sv_workspace_id x \<noteq> ?w" if "x \<in> services_of c1" for x
      using none that by (auto simp: control_rows_present_def list_ex_iff)
    have "purged policy cutoff (c1, tel) (c2, ?tel)"
    proof (rule purgedI)
      show "shrinks (snd (c1, tel)) (snd (c2, ?tel))" using tel by simp
    qed (use facts no_machine no_service in \<open>auto intro: machine_kept service_kept same_machine_in same_service_in\<close>)
    moreover have "purge_wf policy (c2, ?tel)"
      using one(2) [OF shrinks_refl] no_machine no_service by (auto simp: purge_wf_def purge_progress_def facts(1,2))
    moreover have "workspace_gone policy (c2, ?tel)"
      using facts gone(1)
      by (auto simp: workspace_gone_def workspaceTelemetryIsEmpty_def deleteWorkspaceTelemetryState_def)
    moreover have "workspace_view c2 =
        filter (\<lambda>(i, k, d). \<not> (i = ?w \<and> d = rp_workspace_deleted_at policy)) (workspace_view c)"
    proof -
      have "filter (\<lambda>x. \<not> ?p x) (cd_workspaces (rc_db c1)) = filter (\<lambda>x. \<not> (wk_id x = ?w \<and>
          wk_deleted_at x = rp_workspace_deleted_at policy)) (cd_workspaces (rc_db c1))"
        using claimed_workspaces [OF claim] gone(1) by (intro filter_cong) auto
      then show ?thesis
        unfolding view(2) [symmetric]
        by (simp add: workspace_view_def facts(3) delete_where_def filter_map o_def)
    qed
    ultimately show ?thesis using gone(1,3) one(1) [OF shrinks_refl] purged_trans by simp
  qed
qed

text \<open>The trigger keeps a workspace with an active administrator: the deletion throws.\<close>

lemma cascade_all_admin:
  assumes "keyed membership_key t" "list_ex (active_admin w) t" "w \<in> set ws"
  shows "cascade_all ws t = None"
  using assms
proof (induction ws arbitrary: t)
  case (Cons v ws)
  show ?case
  proof (cases "cascade_memberships v t")
    case (Some t')
    have v: "v \<noteq> w" using Some cascade_aborts [OF Cons.prems(1), of w] Cons.prems(2) by auto
    have "list_ex (active_admin w) t'"
      using Cons.prems(2) v cascade_members [OF Some] by (auto simp: list_ex_iff active_admin_def)
    moreover have "keyed membership_key t'" using cascade_keyed [OF Some Cons.prems(1)] .
    ultimately have "cascade_all ws t' = None" using Cons.prems(3) v by (intro Cons.IH) auto
    then show ?thesis by (simp add: Some)
  qed simp
qed simp

lemma workspace_with_admin:
  assumes "keyed membership_key (rc_memberships c)" "list_ex (active_admin (rp_workspace_id policy)) (rc_memberships c)"
    and "finalizeDeletedWorkspace policy now (c, tel) = (s', r)"
  shows "workspace_view (fst s') = workspace_view c \<and> rc_memberships (fst s') = rc_memberships c \<and>
    (deleted_before (rp_workspace_deleted_at policy) (soft_delete_cutoff policy now) \<and>
     list_ex (\<lambda>w. wk_id w = rp_workspace_id policy \<and> wk_deleted_at w = rp_workspace_deleted_at policy)
       (cd_workspaces (rc_db c)) \<and> workspace_gone policy s' \<longrightarrow> r = throw ADMIN_REQUIRED)"
proof -
  let ?cutoff = "soft_delete_cutoff policy now" and ?p = "doomed_workspace policy"
  obtain c1 claimed where claim: "claimWorkspaceFinalization policy ?cutoff now c = (c1, claimed)" by (rule prod.exhaust)
  have c1: "workspace_view c1 = workspace_view c" "rc_memberships c1 = rc_memberships c"
    "control_rows_present v c1 = control_rows_present v c" for v
    using claim claim_workspace_rows [of policy ?cutoff now c]
    by (auto simp: claimWorkspaceFinalization_def control_rows_present_def update_db_def split: if_splits)
  have claimed: "claimed" if "deleted_before (rp_workspace_deleted_at policy) ?cutoff"
    "list_ex (\<lambda>w. wk_id w = rp_workspace_id policy \<and> wk_deleted_at w = rp_workspace_deleted_at policy) (cd_workspaces (rc_db c))"
    using claim that
    by (auto simp: claimWorkspaceFinalization_def list_ex_iff claimable_workspace_def deleted_before_def split: if_splits option.splits)
  show ?thesis
  proof (cases "deleted_before (rp_workspace_deleted_at policy) ?cutoff \<and> claimed \<and>
      \<not> control_rows_present (rp_workspace_id policy) c1 \<and> workspaceTelemetryIsEmpty (rp_workspace_pk policy) tel")
    case False
    then show ?thesis
      using assms(3) claim c1 claimed
      by (auto simp: finalizeDeletedWorkspace_def workspace_gone_def Let_def split: bool.splits if_splits)
  next
    case True
    have "list_ex (claimable_workspace policy ?cutoff) (cd_workspaces (rc_db c))"
      using claim True by (auto simp: claimWorkspaceFinalization_def)
    then have "(rp_workspace_id policy, rp_workspace_deleted_at policy) \<in> (\<lambda>(i, k, d). (i, d)) ` set (workspace_view c)"
      by (force simp: list_ex_iff claimable_workspace_def workspace_view_def)
    then obtain x where x: "x \<in> set (cd_workspaces (rc_db c1))" "wk_id x = rp_workspace_id policy"
      "wk_deleted_at x = rp_workspace_deleted_at policy"
      unfolding c1(1) [symmetric] by (auto simp: workspace_view_def)
    then have "doomed_workspace policy x" using claimed_workspaces [OF claim _ x(1)] True by simp
    then have "rp_workspace_id policy \<in> set (map wk_id (filter ?p (cd_workspaces (rc_db c1))))"
      using x by (auto intro!: image_eqI [of _ wk_id x])
    then have "cascade_all (map wk_id (filter ?p (cd_workspaces (rc_db c1)))) (rc_memberships c1) = None"
      using assms(1,2) by (intro cascade_all_admin) (simp_all add: c1(2))
    then have "s' = (c1, fst (deleteWorkspaceTelemetryState (rp_workspace_pk policy) tel)) \<and> r = throw ADMIN_REQUIRED"
      using assms(3) claim True
      by (auto simp: finalizeDeletedWorkspace_def delete_workspaces_def Let_def case_prod_beta')
    then show ?thesis using c1 by simp
  qed
qed

section \<open>What every state satisfies\<close>

text \<open>Without the invariant the purge still only removes telemetry and leaves the workspaces alone.\<close>

definition purge_frame :: "purge_state \<Rightarrow> purge_state \<Rightarrow> bool" where
  "purge_frame s s' \<longleftrightarrow> shrinks (snd s) (snd s') \<and> workspace_view (fst s') = workspace_view (fst s) \<and>
     rc_memberships (fst s') = rc_memberships (fst s)"

lemma purge_frame_refl [simp]: "purge_frame s s"
  by (simp add: purge_frame_def)

lemma purge_frame_trans: "purge_frame a b \<Longrightarrow> purge_frame b c \<Longrightarrow> purge_frame a c"
  unfolding purge_frame_def using shrinks_trans by metis

lemma run_steps_frame:
  assumes "\<And>f s. f \<in> set fs \<Longrightarrow> purge_frame s (fst (f s))"
  shows "purge_frame s (fst (run_steps fs n s))"
  using assms by (intro run_steps_rel [where R = purge_frame]) (auto intro: purge_frame_trans)

lemma workspace_views [simp]:
  "workspace_view (fst (claim_machine policy m cutoff now c)) = workspace_view c"
  "workspace_view (fst (claim_service policy r cutoff now c)) = workspace_view c"
  "workspace_view (fst (advance_agent_cursor policy i k k' c)) = workspace_view c"
  "workspace_view (fst (advance_check_cursor policy i n n' c)) = workspace_view c"
  "workspace_view (fst (finalizeMachineControl policy i cutoff c)) = workspace_view c"
  "workspace_view (fst (finalizeServiceControl policy i cutoff c)) = workspace_view c"
  "workspace_view (fst (finalize_containers policy cutoff c)) = workspace_view c"
  "workspace_view (fst (finalize_dashboards policy cutoff c)) = workspace_view c"
  "workspace_view (fst (finalize_incidents policy cutoff c)) = workspace_view c"
  "workspace_view (fst (finalize_announcements policy cutoff c)) = workspace_view c"
  by (simp_all add: workspace_view_def claim_machine_def claim_service_def advance_agent_cursor_def
      advance_check_cursor_def finalizeMachineControl_def finalizeServiceControl_def finalize_containers_def
      finalize_dashboards_def finalize_incidents_def finalize_announcements_def delete_machines_def
      delete_agents_def delete_services_def delete_dashboards_def delete_incidents_def Let_def)

lemma membership_views [simp]:
  "rc_memberships (fst (claim_machine policy m cutoff now c)) = rc_memberships c"
  "rc_memberships (fst (claim_service policy r cutoff now c)) = rc_memberships c"
  "rc_memberships (fst (advance_agent_cursor policy i k k' c)) = rc_memberships c"
  "rc_memberships (fst (advance_check_cursor policy i n n' c)) = rc_memberships c"
  "rc_memberships (fst (finalizeMachineControl policy i cutoff c)) = rc_memberships c"
  "rc_memberships (fst (finalizeServiceControl policy i cutoff c)) = rc_memberships c"
  "rc_memberships (fst (finalize_containers policy cutoff c)) = rc_memberships c"
  "rc_memberships (fst (finalize_dashboards policy cutoff c)) = rc_memberships c"
  "rc_memberships (fst (finalize_incidents policy cutoff c)) = rc_memberships c"
  "rc_memberships (fst (finalize_announcements policy cutoff c)) = rc_memberships c"
  by (simp_all add: update_db_def claim_machine_def claim_service_def advance_agent_cursor_def
      advance_check_cursor_def finalizeMachineControl_def finalizeServiceControl_def finalize_containers_def
      finalize_dashboards_def finalize_incidents_def finalize_announcements_def delete_machines_def
      delete_agents_def delete_services_def delete_dashboards_def delete_incidents_def Let_def)

lemma secrets_workspaces [simp]: "workspace_view (fst (deleteSecrets w ids c)) = workspace_view c"
  unfolding deleteSecrets_def
  by (rule purge_steps_keeps [of _ workspace_view]) (auto simp: delete_secret_batch_def workspace_view_def Let_def)

lemma secrets_memberships [simp]: "rc_memberships (fst (deleteSecrets w ids c)) = rc_memberships c"
  unfolding deleteSecrets_def
  by (rule purge_steps_keeps [of _ rc_memberships]) (auto simp: delete_secret_batch_def update_db_def Let_def)

lemma finalize_machine_frame: "purge_frame s (fst (finalize_machine policy cutoff now r s))"
proof (cases s)
  case (Pair c tel)
  obtain c1 claimed where claim: "claim_machine policy r cutoff now c = (c1, claimed)" by (rule prod.exhaust)
  have c1: "workspace_view c1 = workspace_view c" "rc_memberships c1 = rc_memberships c"
    using workspace_views(1) [of policy r cutoff now c] membership_views(1) [of policy r cutoff now c] claim by simp_all
  show ?thesis
    using claim c1 workspace_views(3,5) purge_machine_shrinks
    by (auto simp: Pair finalize_machine_def purge_frame_def Let_def case_prod_beta' split: bool.split sum.split)
qed

lemma finalize_service_frame: "purge_frame s (fst (finalize_service pf policy cutoff now r s))"
proof (cases s)
  case (Pair c tel)
  obtain c1 claimed where claim: "claim_service policy r cutoff now c = (c1, claimed)" by (rule prod.exhaust)
  have c1: "workspace_view c1 = workspace_view c" "rc_memberships c1 = rc_memberships c"
    using workspace_views(2) [of policy r cutoff now c] membership_views(2) [of policy r cutoff now c] claim by simp_all
  show ?thesis
    using claim c1 purge_service_shrinks
    by (auto simp: Pair finalize_service_def purge_frame_def Let_def case_prod_beta' split: bool.split sum.split)
qed

lemma on_control_frame:
  assumes "\<And>c. workspace_view (fst (f c)) = workspace_view c" "\<And>c. rc_memberships (fst (f c)) = rc_memberships c"
  shows "purge_frame s (fst (on_control f s))"
  using assms by (cases s) (simp add: on_control_def purge_frame_def case_prod_beta' Let_def)

lemma soft_deleted_frame: "purge_frame s (fst (finalizeSoftDeletedResources pf policy now s))"
proof (cases s)
  case (Pair c tel)
  let ?cutoff = "soft_delete_cutoff policy now"
  define steps where "steps = [finalizeMachines policy ?cutoff now, finalizeServices pf policy ?cutoff now,
    on_control (finalize_containers policy ?cutoff), on_control (finalize_dashboards policy ?cutoff),
    on_control (finalize_incidents policy ?cutoff), on_control (finalize_announcements policy ?cutoff)]"
  have "purge_frame u (fst (finalizeMachines policy ?cutoff now u))"
    "purge_frame u (fst (finalizeServices pf policy ?cutoff now u))" for u
    unfolding finalizeMachines_def finalizeServices_def
    by (rule run_steps_frame; auto intro: finalize_machine_frame finalize_service_frame)+
  then have frame: "purge_frame u (fst (run_steps steps 0 u))" for u
    by (intro run_steps_frame) (auto simp: steps_def intro: on_control_frame)
  obtain c1 claimed where claim: "claimWorkspaceFinalization policy ?cutoff now c = (c1, claimed)" by (rule prod.exhaust)
  have one: "purge_frame (c, tel) (c1, tel)"
    using claim_workspace_rows [of policy ?cutoff now c] claim claim_keeps_memberships [of policy ?cutoff now c]
    by (simp add: purge_frame_def)
  have "fst (finalizeSoftDeletedResources pf policy now (c, tel)) =
      (if claimed then fst (run_steps steps 0 (c1, tel)) else (c1, tel))"
    using claim by (simp add: finalizeSoftDeletedResources_def steps_def Let_def del: run_steps.simps)
  then show ?thesis using one frame purge_frame_trans [OF one] by (simp add: Pair)
qed

lemma deleted_workspace_shrinks: "shrinks (snd s) (snd (fst (finalizeDeletedWorkspace policy now s)))"
  by (cases s) (auto simp: finalizeDeletedWorkspace_def Let_def deleteWorkspaceTelemetryState_def shrinks_def
      split: prod.split bool.split option.split)

end
