(* ===== verification/Retention_Correctness.thy ===== *)
theory Retention_Correctness
  imports Retention_Run Soft_Delete_Correctness
begin

text \<open>
  What retention promises: a pass removes only rows that are due, oldest first, and completes a resource
  only when nothing due is left; repeated bounded passes remove exactly the due rows; the leases of a
  workspace and of an artifact prefix are exclusive; a scheduled run happens once and moves the workspace
  cursor only past workspaces it has cleaned.
\<close>

section \<open>Bounded deletions\<close>

text \<open>The key of a history table, on the rows of the target, as a key of the whole table.\<close>

definition history_key :: "retention_target \<Rightarrow> history_row \<Rightarrow> (pk \<times> millis) + history_row" where
  "history_key target r =
     (if targetPredicates target r then Inl (hy_resource r, hy_time r) else Inr r)"

lemma deleteResourceRows_limit:
  "deleteResourceRows target k cutoff n =
    delete_limit (history_key target) (due_row target k cutoff) hy_time n"
proof
  fix t
  let ?s = "select_limit (due_row target k cutoff) hy_time n t"
  have "targetPredicates target r" if "r \<in> set ?s" for r
    using that set_select_limit [of "due_row target k cutoff" hy_time n t] by (auto simp: due_row_def)
  then have "history_key target r \<in> set (map (history_key target) ?s) \<longleftrightarrow>
      targetPredicates target r \<and> (hy_resource r, hy_time r) \<in> set (map (\<lambda>r. (hy_resource r, hy_time r)) ?s)" for r
    by (auto simp: history_key_def image_iff split: if_splits)
  then show "deleteResourceRows target k cutoff n t =
      delete_limit (history_key target) (due_row target k cutoff) hy_time n t"
    by (simp add: deleteResourceRows_def delete_limit_def Let_def)
qed

interpretation history: batch_cleaner "deleteResourceRows target k cutoff ROW_BATCH"
  "due_row target k cutoff" hy_time ROW_BATCH "keyed (history_key target)"
  for target k cutoff
  unfolding deleteResourceRows_limit by (rule delete_limit_cleaner) (simp add: ROW_BATCH_def)

interpretation audit: batch_cleaner "cleanAuditLogs workspace now days 200"
  "old_audit_log workspace (now - days * DAY_MS)" audit_order 200 "keyed al_id"
  for workspace now days
proof -
  have "cleanAuditLogs workspace now days 200 =
      delete_limit al_id (old_audit_log workspace (now - days * DAY_MS)) audit_order 200"
    by (rule ext) (simp add: cleanAuditLogs_def)
  then show "batch_cleaner (cleanAuditLogs workspace now days 200)
      (old_audit_log workspace (now - days * DAY_MS)) audit_order 200 (keyed al_id)"
    using delete_limit_cleaner [of 200 al_id] by simp
qed

section \<open>The pass over the resources\<close>

lemma length_split: "length (filter p t) + length (filter (\<lambda>r. \<not> p r) t) = length t"
  by (rule sum_length_filter_compl)

lemma deleted_length:
  assumes "keyed (history_key target) t"
  shows "length (fst (deleteResourceRows target k cutoff ROW_BATCH t)) +
    snd (deleteResourceRows target k cutoff ROW_BATCH t) = length t"
  using history.clean_count [OF assms, of k cutoff] history.clean_rest [OF assms, of k cutoff]
    history.clean_keeps [OF assms, of k cutoff]
    length_split [of "due_row target k cutoff" t]
    length_split [of "due_row target k cutoff" "fst (deleteResourceRows target k cutoff ROW_BATCH t)"]
  by simp

text \<open>The rows that no resource of the list is due to lose.\<close>

definition kept_row :: "retention_target \<Rightarrow> millis \<Rightarrow> pk list \<Rightarrow> history_row \<Rightarrow> bool" where
  "kept_row target cutoff ks r \<longleftrightarrow> \<not> list_ex (\<lambda>k. due_row target k cutoff r) ks"

lemma filter_weaken:
  assumes "filter p s = filter p t" "\<And>r. q r \<Longrightarrow> p r"
  shows "filter q s = filter q t"
proof -
  have "filter q u = filter q (filter p u)" for u
    using assms(2) by (induction u) auto
  then show ?thesis using assms(1) by metis
qed

lemma clean_resources_pass:
  assumes "clean_resources target cutoff ROW_BATCH ks (t, d, c, dc) = (t', d', c', dc', filled)"
    and "keyed (history_key target) t"
  shows "keyed (history_key target) t' \<and> set t' \<subseteq> set t \<and>
    filter (kept_row target cutoff ks) t' = filter (kept_row target cutoff ks) t \<and>
    d' + length t' = d + length t \<and>
    (\<exists>complete rest. ks = complete @ rest \<and> filled = (rest \<noteq> []) \<and>
      c' = (if complete = [] then c else last complete) \<and>
      (\<forall>k \<in> set complete. \<forall>r \<in> set t'. \<not> due_row target k cutoff r) \<and>
      (rest \<noteq> [] \<longrightarrow> ROW_BATCH + d \<le> d'))"
  using assms
proof (induction ks arbitrary: t d c dc)
  case Nil
  then show ?case by simp
next
  case (Cons k ks)
  let ?r = "deleteResourceRows target k cutoff ROW_BATCH t"
  obtain u n where u: "?r = (u, n)" by (cases ?r)
  have wf: "keyed (history_key target) u" "set u \<subseteq> set t"
    using history.clean_wf [OF Cons.prems(2), of k cutoff] history.clean_sub [OF Cons.prems(2), of k cutoff] u
    by auto
  have one: "filter (\<lambda>r. \<not> due_row target k cutoff r) u = filter (\<lambda>r. \<not> due_row target k cutoff r) t"
    using history.clean_keeps [OF Cons.prems(2), of k cutoff] u by simp
  have keeps: "filter (kept_row target cutoff (k # ks)) u = filter (kept_row target cutoff (k # ks)) t"
    by (rule filter_weaken [OF one]) (simp add: kept_row_def)
  have len: "length u + n = length t" using deleted_length [OF Cons.prems(2), of k cutoff] u by simp
  show ?case
  proof (cases "n \<ge> ROW_BATCH")
    case True
    then have "t' = u" "d' = d + n" "c' = c" "filled"
      using Cons.prems(1) u by auto
    then show ?thesis
      using wf keeps len True by (auto intro!: exI [of _ "[]"])
  next
    case False
    then have "clean_resources target cutoff ROW_BATCH ks (u, d + n, k, cutoff) = (t', d', c', dc', filled)"
      using Cons.prems(1) u by simp
    from Cons.IH [OF this wf(1)] obtain complete rest where IH:
      "keyed (history_key target) t'" "set t' \<subseteq> set u"
      "filter (kept_row target cutoff ks) t' = filter (kept_row target cutoff ks) u"
      "d' + length t' = d + n + length u"
      "ks = complete @ rest" "filled = (rest \<noteq> [])" "c' = (if complete = [] then k else last complete)"
      "\<forall>k \<in> set complete. \<forall>r \<in> set t'. \<not> due_row target k cutoff r"
      "rest \<noteq> [] \<longrightarrow> ROW_BATCH + (d + n) \<le> d'" by auto
    have "\<forall>r \<in> set t'. \<not> due_row target k cutoff r"
      using history.drained [OF Cons.prems(2), of k cutoff] u False IH(2) by auto
    moreover have "filter (kept_row target cutoff (k # ks)) t' = filter (kept_row target cutoff (k # ks)) u"
      by (rule filter_weaken [OF IH(3)]) (simp add: kept_row_def)
    ultimately show ?thesis
      using IH wf keeps len by (intro conjI exI [of _ "k # complete"] exI [of _ rest]) auto
  qed
qed

lemma page_sorted: "sorted (retention_resources control table w cursor n)"
  using sorted_sort_key [of "\<lambda>k. k"] by (simp add: retention_resources_def select_limit_def sorted_wrt_take)

lemma page_above: "k \<in> set (retention_resources control table w cursor n) \<Longrightarrow> cursor < k"
  unfolding retention_resources_def using set_select_limit by fastforce

text \<open>
  C20. A pass of retention over one history table removes only what is due. Rows of other resources, rows
  outside the target and rows at or after the cutoff stay, in order, other tables and the events are
  untouched, the reported number is the number of rows removed, and nothing due is left of any resource
  that the stored cursor has passed, nor of any resource of the page when the pass removed fewer rows than
  one batch.
\<close>

theorem retention_pass_exact:
  assumes "cleanTelemetryTarget control policy target now resourceBatch ROW_BATCH db = (db', deleted)"
    and "keyed (history_key target) (rt_history db (rg_table target))"
    and "row_of cursor_key (rp_workspace_pk policy, rg_kind target) (rt_cursors db') = Some cursor"
  shows "let cutoff = now - rg_days target policy * DAY_MS;
      previous = (case row_of cursor_key (rp_workspace_pk policy, rg_kind target) (rt_cursors db) of
        None \<Rightarrow> 0 | Some c \<Rightarrow> cu_resource_pk c);
      page = retention_resources control (rg_control target) (rp_workspace_pk policy) previous resourceBatch;
      before = rt_history db (rg_table target);
      after = rt_history db' (rg_table target)
    in filter (kept_row target cutoff page) after = filter (kept_row target cutoff page) before \<and>
       set after \<subseteq> set before \<and> deleted + length after = length before \<and>
       (\<forall>table. table \<noteq> rg_table target \<longrightarrow> rt_history db' table = rt_history db table) \<and>
       rt_events db' = rt_events db \<and>
       (\<forall>k \<in> set page. deleted < ROW_BATCH \<or> k \<le> cu_resource_pk cursor \<longrightarrow>
         list_all (\<lambda>r. \<not> due_row target k cutoff r) after)"
proof -
  let ?key = "(rp_workspace_pk policy, rg_kind target)"
  let ?cutoff = "now - rg_days target policy * DAY_MS"
  let ?prev = "case row_of cursor_key ?key (rt_cursors db) of None \<Rightarrow> 0 | Some c \<Rightarrow> cu_resource_pk c"
  let ?page = "retention_resources control (rg_control target) (rp_workspace_pk policy) ?prev resourceBatch"
  let ?before = "rt_history db (rg_table target)"
  let ?dc = "case row_of cursor_key ?key (rt_cursors db) of None \<Rightarrow> 0 | Some c \<Rightarrow> cu_time c"
  obtain t d c dc filled where pass:
    "clean_resources target ?cutoff ROW_BATCH ?page (?before, 0, ?prev, ?dc) = (t, d, c, dc, filled)"
    by (metis prod_cases5)
  let ?wrapped = "\<not> filled \<and> length ?page < resourceBatch"
  note P = clean_resources_pass [OF pass assms(2)]
  have kept: "set t \<subseteq> set ?before" "d + length t = length ?before"
    "filter (kept_row target ?cutoff ?page) t = filter (kept_row target ?cutoff ?page) ?before"
    using P by simp_all
  obtain complete rest where r: "?page = complete @ rest \<and> filled = (rest \<noteq> []) \<and>
    c = (if complete = [] then ?prev else last complete) \<and>
    (\<forall>k \<in> set complete. \<forall>r \<in> set t. \<not> due_row target k ?cutoff r) \<and> (rest \<noteq> [] \<longrightarrow> ROW_BATCH + 0 \<le> d)"
    using P by blast
  have db': "rt_history db' = (rt_history db)(rg_table target := t)" "rt_events db' = rt_events db" "deleted = d"
    and cursors: "rt_cursors db' = upsert cursor_key
      \<lparr>cu_workspace_pk = rp_workspace_pk policy, cu_kind = rg_kind target,
       cu_resource_pk = (if ?wrapped then 0 else c), cu_time = (if ?wrapped then ?cutoff else dc),
       cu_lease_until = 0, cu_updated_at = now\<rparr> (\<lambda>_. True)
      (\<lambda>old. old\<lparr>cu_resource_pk := (if ?wrapped then 0 else c), cu_time := (if ?wrapped then ?cutoff else dc),
        cu_updated_at := now\<rparr>) (rt_cursors db)"
    using assms(1) pass by (auto simp: cleanTelemetryTarget_def Let_def)
  have cursor: "cu_resource_pk cursor = (if ?wrapped then 0 else c)"
    using assms(3) unfolding cursors
    by (subst (asm) row_of_upsert) (auto simp: cursor_key_def split: option.splits)
  have clean: "list_all (\<lambda>r. \<not> due_row target k ?cutoff r) t"
    if k: "k \<in> set ?page" "d < ROW_BATCH \<or> k \<le> cu_resource_pk cursor" for k
  proof -
    have "k \<in> set complete"
    proof (rule ccontr)
      assume out: "k \<notin> set complete"
      then have rest: "k \<in> set rest" using k(1) r by auto
      then have "k \<le> c" "filled" using k(2) r cursor by auto
      have "sorted (complete @ rest)" using page_sorted r by metis
      then have "complete \<noteq> [] \<Longrightarrow> last complete \<le> k" using rest by (auto simp: sorted_append)
      moreover have "?prev < k" using page_above k(1) by blast
      ultimately show False using \<open>k \<le> c\<close> out r by (cases "complete = []") auto
    qed
    then show ?thesis using r by (auto simp: list_all_iff)
  qed
  show ?thesis
    unfolding Let_def using kept db' clean by simp
qed

definition sample_retention :: retention_telemetry where
  "sample_retention = \<lparr>rt_history = (\<lambda>table. if table = Machine_rollups_1h then
       [\<lparr>hy_workspace = 1, hy_resource = 7, hy_time = 0, hy_type = 0, hy_seconds = 0, hy_payload = []\<rparr>,
        \<lparr>hy_workspace = 1, hy_resource = 7, hy_time = 86400000, hy_type = 0, hy_seconds = 0, hy_payload = []\<rparr>] else []),
     rt_latest = (\<lambda>_. []), rt_replay = [], rt_summaries = [], rt_events = [], rt_cursors = [], rt_runs = [], rt_artifacts = []\<rparr>"

definition sample_policy :: retention_policy where
  "sample_policy = \<lparr>rp_workspace_id = ''w'', rp_workspace_pk = 1, rp_workspace_deleted_at = None,
     rp_workspace_purge_started_at = None, raw_days = 1, rollup_5m_days = 1, rollup_1h_days = 1, event_days = 1,
     audit_log_days = 1, expired_announcement_grace_days = 1, soft_delete_grace_days = 1\<rparr>"

definition sample_target :: retention_target where
  "sample_target = \<lparr>rg_kind = Machine_1h, rg_control = Machines, rg_table = Machine_rollups_1h,
     rg_days = rollup_1h_days, rg_resource_type = None, rg_bucket_seconds = None\<rparr>"

definition sample_resources :: control_db where
  "sample_resources = \<lparr>cd_workspaces = [\<lparr>wk_id = ''w'', wk_pk = 1, wk_deleted_at = None, wk_purge_started_at = None\<rparr>], cd_services = [],
     cd_checks = [], cd_machines = [\<lparr>mc_id = ''m'', mc_pk = 7, mc_workspace_id = ''w'', mc_offline_after = 90,
       mc_maintenance_until = None, mc_deleted_at = None, mc_purge_started_at = None, mc_purge_agent_cursor = []\<rparr>],
     cd_scheduler = [], cd_secrets = [], cd_sync_jobs = []\<rparr>"

theorem retention_pass_exact_witness:
  "list_all (\<lambda>r. \<not> due_row sample_target 7 86400000 r)
     (rt_history (fst (cleanTelemetryTarget sample_resources sample_policy sample_target 172800000 40 ROW_BATCH
       sample_retention)) Machine_rollups_1h)"
proof -
  let ?run = "cleanTelemetryTarget sample_resources sample_policy sample_target 172800000 40 ROW_BATCH sample_retention"
  obtain db' n where run: "?run = (db', n)" by (rule prod.exhaust)
  have key: "keyed (history_key sample_target) (rt_history sample_retention (rg_table sample_target))"
    by (simp add: sample_retention_def sample_target_def history_key_def targetPredicates_def)
  have "snd ?run < ROW_BATCH" by code_simp
  then have n: "n < ROW_BATCH" using run by simp
  have "row_of cursor_key (rp_workspace_pk sample_policy, rg_kind sample_target) (rt_cursors (fst ?run)) \<noteq> None"
    by code_simp
  then obtain cursor where cursor:
    "row_of cursor_key (rp_workspace_pk sample_policy, rg_kind sample_target) (rt_cursors db') = Some cursor"
    using run by auto
  have facts: "rg_days sample_target sample_policy = 1" "rp_workspace_pk sample_policy = 1"
    "rg_control sample_target = Machines" "rg_table sample_target = Machine_rollups_1h"
    "rt_cursors sample_retention = []"
    by (simp_all add: sample_target_def sample_policy_def sample_retention_def)
  have page: "retention_resources sample_resources Machines 1 0 40 = [7]" by code_simp
  show ?thesis
    using retention_pass_exact [OF run key cursor] n run by (simp add: facts page DAY_MS_def Let_def)
qed

section \<open>Draining\<close>

text \<open>
  Bounded deletion is enough: repeating the cleaning of the audit log of a workspace, two hundred rows
  a run, removes after enough runs exactly the rows older than the retention period and leaves every other
  row in order, however many there are.
\<close>

theorem audit_log_drained:
  assumes "keyed al_id t"
    and "length (filter (old_audit_log workspace (now - days * DAY_MS)) t) \<le> n * 200"
  shows "((\<lambda>u. fst (cleanAuditLogs workspace now days 200 u)) ^^ n) t =
    filter (\<lambda>r. \<not> old_audit_log workspace (now - days * DAY_MS) r) t"
  by (rule audit.eventually_clean [OF assms])

theorem audit_log_drained_witness:
  "((\<lambda>u. fst (cleanAuditLogs ''w'' 86400001 1 200 u)) ^^ 1)
     [\<lparr>al_id = ''a'', al_workspace_id = ''w'', al_created_at = 0\<rparr>,
      \<lparr>al_id = ''b'', al_workspace_id = ''w'', al_created_at = 1\<rparr>] =
     [\<lparr>al_id = ''b'', al_workspace_id = ''w'', al_created_at = 1\<rparr>]"
  by (subst audit_log_drained) (simp_all add: old_audit_log_def DAY_MS_def)

section \<open>Leases\<close>

definition workspace_release ::
  "pk \<Rightarrow> cursor_row list \<Rightarrow> workspace_lease \<Rightarrow> millis \<Rightarrow> millis \<Rightarrow> cursor_row list \<times> bool" where
  "workspace_release workspacePk t lease eventTimeCursor now =
     release_workspace_statement t (lease\<lparr>wl_workspace_pk := workspacePk\<rparr>) eventTimeCursor now"

lemma workspace_acquire_row:
  "acquireWorkspaceRetentionLease workspacePk =
    row_acquire cursor_key cu_lease_until
      (\<lambda>now. \<lparr>cu_workspace_pk = workspacePk, cu_kind = Event_kind, cu_resource_pk = 0, cu_time = 0,
        cu_lease_until = now + WORKSPACE_LEASE_MS, cu_updated_at = now\<rparr>)
      (\<lambda>now old. old\<lparr>cu_lease_until := now + WORKSPACE_LEASE_MS, cu_updated_at := now\<rparr>)
      (\<lambda>now r. \<lparr>wl_workspace_pk = workspacePk, wl_lease_until = now + WORKSPACE_LEASE_MS, wl_event_cursor = cu_time r\<rparr>)"
  by (intro ext) (simp add: acquireWorkspaceRetentionLease_def row_acquire_def upsert_returning_def Let_def)

lemma workspace_release_row:
  "workspace_release workspacePk =
    row_release cursor_key (workspacePk, Event_kind) cu_lease_until
      (\<lambda>x now r. r\<lparr>cu_time := x, cu_lease_until := 0, cu_updated_at := now\<rparr>) wl_lease_until"
  by (intro ext) (simp add: workspace_release_def release_workspace_statement_def row_release_def
      is_held_lease_def [abs_def])

interpretation workspace_lease: lease_table "acquireWorkspaceRetentionLease workspacePk"
  "workspace_release workspacePk" wl_lease_until
  "\<lambda>t. map_option cu_lease_until (row_of cursor_key (workspacePk, Event_kind) t)" WORKSPACE_LEASE_MS
  "keyed cursor_key"
  for workspacePk
  unfolding workspace_acquire_row workspace_release_row
  by (rule row_lease) (simp_all add: cursor_key_def WORKSPACE_LEASE_MS_def)

lemma prefix_acquire_row:
  "acquirePrefixLease prefix =
    row_acquire ac_prefix ac_lease_until
      (\<lambda>now. \<lparr>ac_prefix = prefix, ac_last_key = [], ac_lease_until = now + ARTIFACT_LEASE_MS, ac_updated_at = now\<rparr>)
      (\<lambda>now old. old\<lparr>ac_lease_until := now + ARTIFACT_LEASE_MS, ac_updated_at := now\<rparr>)
      (\<lambda>now r. \<lparr>lastKey = ac_last_key r, al_leaseUntil = now + ARTIFACT_LEASE_MS\<rparr>)"
  by (intro ext) (simp add: acquirePrefixLease_def row_acquire_def upsert_returning_def Let_def)

lemma prefix_release_row:
  "release_prefix_statement prefix =
    row_release ac_prefix prefix ac_lease_until
      (\<lambda>x now r. r\<lparr>ac_last_key := x, ac_lease_until := 0, ac_updated_at := now\<rparr>) al_leaseUntil"
  by (intro ext) (simp add: release_prefix_statement_def row_release_def Let_def)

interpretation prefix_lease: lease_table "acquirePrefixLease prefix" "release_prefix_statement prefix"
  al_leaseUntil "\<lambda>t. map_option ac_lease_until (row_of ac_prefix prefix t)" ARTIFACT_LEASE_MS "keyed ac_prefix"
  for prefix
  unfolding prefix_acquire_row prefix_release_row
  by (rule row_lease) (simp_all add: ARTIFACT_LEASE_MS_def)

text \<open>
  Two retention runs never clean the same workspace or the same artifact prefix at once: in every
  interleaving of workers that take the lease of a workspace or of a prefix, are refused, return it, return
  it too late or die, at most one holder's lease has not expired, and while one has not, every attempt to
  take it is refused and changes nothing.
\<close>

theorem retention_leases_exclusive:
  assumes "lease_reach (acquireWorkspaceRetentionLease workspacePk) (workspace_release workspacePk) t0 c0 s"
    and "keyed cursor_key t0"
    and "lease_reach (acquirePrefixLease prefix) (release_prefix_statement prefix) u0 c1 p"
    and "keyed ac_prefix u0"
  shows "length (live_holders wl_lease_until s) \<le> 1 \<and> length (live_holders al_leaseUntil p) \<le> 1 \<and>
    (live_holders wl_lease_until s \<noteq> [] \<longrightarrow>
      acquireWorkspaceRetentionLease workspacePk (ls_db s) (ls_clock s) = (ls_db s, None)) \<and>
    (live_holders al_leaseUntil p \<noteq> [] \<longrightarrow>
      acquirePrefixLease prefix (ls_db p) (ls_clock p) = (ls_db p, None))"
  using workspace_lease.mutual_exclusion [OF assms(1,2)] workspace_lease.live_lease_blocks [OF assms(1,2)]
    prefix_lease.mutual_exclusion [OF assms(3,4)] prefix_lease.live_lease_blocks [OF assms(3,4)]
  by blast

theorem retention_leases_exclusive_witness:
  "\<exists>s :: (cursor_row list, workspace_lease) lease_sys. length (live_holders wl_lease_until s) = 1 \<and>
     acquireWorkspaceRetentionLease 1 (ls_db s) (ls_clock s) = (ls_db s, None)"
proof -
  let ?l = "\<lparr>wl_workspace_pk = 1, wl_lease_until = 900000, wl_event_cursor = 0\<rparr>"
  let ?s = "\<lparr>ls_db = fst (acquireWorkspaceRetentionLease 1 [] 0), ls_clock = 0, ls_holders = [(0, ?l)]\<rparr>"
  have acq: "acquireWorkspaceRetentionLease 1 [] 0 = (fst (acquireWorkspaceRetentionLease 1 [] 0), Some ?l)"
    by (simp add: acquireWorkspaceRetentionLease_def upsert_returning_def upsert_def WORKSPACE_LEASE_MS_def)
  have reach: "lease_reach (acquireWorkspaceRetentionLease 1) (workspace_release 1) [] 0 ?s"
    using lease_reach.step [OF lease_reach.start lease_step.acquired
        [of "acquireWorkspaceRetentionLease 1" "\<lparr>ls_db = [], ls_clock = 0, ls_holders = []\<rparr>"]] acq
    by simp
  have other: "lease_reach (acquirePrefixLease []) (release_prefix_statement []) [] 0
      \<lparr>ls_db = [], ls_clock = 0, ls_holders = []\<rparr>"
    by (rule lease_reach.start)
  show ?thesis
    using retention_leases_exclusive [OF reach _ other]
    by (intro exI [of _ ?s]) (simp add: live_holders_def)
qed

section \<open>The run\<close>

abbreviation runs_of :: "'b retention_state \<Rightarrow> retention_run list" where
  "runs_of s \<equiv> rt_runs (re_telemetry s)"

lemma target_shrinks: "shrinks db (fst (cleanTelemetryTarget control policy target now rb n db))"
proof -
  have "set (fst (clean_resources target cutoff m ks st)) \<subseteq> set (fst st)" for cutoff m ks st
  proof (induction ks arbitrary: st)
    case Nil
    show ?case by (cases st) simp
  next
    case (Cons k ks)
    obtain t d c dc where st: "st = (t, d, c, dc)" by (rule prod_cases4)
    have "set (fst (deleteResourceRows target k cutoff m t)) \<subseteq> set t"
      by (auto simp: deleteResourceRows_def Let_def)
    then show ?case
      using Cons.IH [of "(fst (deleteResourceRows target k cutoff m t),
        d + snd (deleteResourceRows target k cutoff m t), k, cutoff)"]
      by (auto simp: st case_prod_beta' Let_def)
  qed
  then have "set (fst (clean_resources target cutoff m ks (t, st))) \<subseteq> set t" for cutoff m ks t st
    by (metis fst_conv)
  then show ?thesis by (simp add: cleanTelemetryTarget_def shrinks_def Let_def case_prod_beta')
qed

lemma history_shrinks: "shrinks db (fst (cleanTelemetryHistory control policy now db))"
proof -
  have "shrinks (fst st) (fst (fold (\<lambda>target (d, n). let (d', k) = cleanTelemetryTarget control policy target now
      RESOURCE_BATCH ROW_BATCH d in (d', n + k)) ts st))" for ts st
  proof (induction ts arbitrary: st)
    case (Cons target ts)
    let ?x = "cleanTelemetryTarget control policy target now RESOURCE_BATCH ROW_BATCH (fst st)"
    have "shrinks (fst st) (fst (fst ?x, snd st + snd ?x))" by (simp add: target_shrinks)
    from shrinks_trans [OF this Cons.IH] show ?case by (simp add: case_prod_beta' Let_def)
  qed simp
  from this [of "(db, 0)"] show ?thesis by (simp add: cleanTelemetryHistory_def)
qed

text \<open>
  The steps of one workspace, in the frame of the purge: telemetry only shrinks, and outside the purge the
  machines, services, checks, agents and workspaces stay.
\<close>

abbreviation purge_of :: "'b retention_state \<Rightarrow> purge_state" where
  "purge_of s \<equiv> (re_control s, re_telemetry s)"

definition keeps_resources :: "purge_state \<Rightarrow> purge_state \<Rightarrow> bool" where
  "keeps_resources s s' \<longleftrightarrow> purge_frame s s' \<and> purge_view (fst s') = purge_view (fst s)"

lemma histories_keep: "keeps_resources (purge_of s) (purge_of (fst (clean_histories policy lease now s)))"
proof -
  obtain t n where t: "cleanTelemetryHistory (rc_db (re_control s)) policy now (re_telemetry s) = (t, n)"
    by (rule prod.exhaust)
  have "shrinks (re_telemetry s) t"
    using history_shrinks [of "re_telemetry s" "rc_db (re_control s)" policy now] t by simp
  moreover have "set (fst (cleanStateEvents policy c now m (rt_events t))) \<subseteq> set (rt_events t)" for c m
    using delete_limit_subset by (simp add: cleanStateEvents_def Let_def case_prod_beta')
  ultimately have "shrinks (re_telemetry s) (t\<lparr>rt_events := fst (cleanStateEvents policy (wl_event_cursor lease) now
      ROW_BATCH (rt_events t))\<rparr>)"
    unfolding shrinks_def by (simp, meson subset_trans)
  then show ?thesis
    by (simp add: clean_histories_def t Let_def case_prod_beta' keeps_resources_def purge_frame_def
        purge_view_def workspace_view_def)
qed

lemma control_steps_keep:
  "keeps_resources (purge_of s) (purge_of (fst (clean_deliveries policy now s)))"
  "keeps_resources (purge_of s) (purge_of (fst (clean_secrets pf policy now s)))"
  "keeps_resources (purge_of s) (purge_of (fst (release_lease lease tc r s)))"
  "keeps_resources (purge_of s) (purge_of (update_telemetry (\<lambda>d. d\<lparr>rt_cursors := cs\<rparr>) s))"
  by (simp_all add: clean_deliveries_def clean_secrets_def release_lease_def update_control_def update_telemetry_def
      Let_def case_prod_beta' keeps_resources_def purge_frame_def purge_view_def workspace_view_def shrinks_def update_db_def)

lemma keeps_runs: "keeps_resources (purge_of s) (purge_of s') \<Longrightarrow> runs_of s' = runs_of s"
  by (simp add: keeps_resources_def purge_frame_def shrinks_def)

lemma purge_of_on_purge [simp]: "purge_of (fst (on_purge f s)) = fst (f (purge_of s))"
  by (simp add: on_purge_def Let_def case_prod_beta')

text \<open>The steps before the workspace itself, and the workspace.\<close>

definition workspace_steps ::
  "platform \<Rightarrow> retention_policy \<Rightarrow> millis \<Rightarrow> workspace_lease \<Rightarrow> millis \<Rightarrow> millis \<Rightarrow>
   ('b retention_state \<Rightarrow> 'b retention_state \<times> nat result) list" where
  "workspace_steps pf policy now lease tc r =
     [on_purge (finalizeSoftDeletedResources pf policy now), clean_deliveries policy now,
      clean_secrets pf policy now, release_lease lease tc r]"

definition workspace_end ::
  "retention_policy \<Rightarrow> millis \<Rightarrow> 'b retention_state \<Rightarrow> 'b retention_state \<times> nat result" where
  "workspace_end policy now = on_purge (finalizeDeletedWorkspace policy now)"

lemma cleanWorkspace_steps:
  obtains (skipped) cs where "fst (cleanWorkspace pf a r policy now s) = update_telemetry (\<lambda>d. d\<lparr>rt_cursors := cs\<rparr>) s"
  | (cleaned) cs lease n tc where "fst (cleanWorkspace pf a r policy now s) =
      fst (run_steps (workspace_steps pf policy now lease tc r @ [workspace_end policy now]) n
        (fst (clean_histories policy lease now (update_telemetry (\<lambda>d. d\<lparr>rt_cursors := cs\<rparr>) s))))"
proof (cases "snd (acquireWorkspaceRetentionLease (rp_workspace_pk policy) (rt_cursors (re_telemetry s)) a)")
  case None
  then show ?thesis by (intro skipped) (simp add: cleanWorkspace_def Let_def case_prod_beta')
next
  case (Some lease)
  show ?thesis
    by (rule cleaned)
      (simp add: cleanWorkspace_def Let_def case_prod_beta' Some workspace_steps_def workspace_end_def
        del: run_steps.simps)
qed

lemma workspace_keeps_runs:
  fixes s :: "'b retention_state"
  shows "runs_of (fst (cleanWorkspace pf a r policy now s)) = runs_of s"
proof (cases rule: cleanWorkspace_steps [of pf a r policy now s])
  case (skipped cs)
  then show ?thesis by (simp add: update_telemetry_def)
next
  case (cleaned cs lease n tc)
  have steps: "runs_of (fst (f u)) = runs_of u"
    if "f \<in> set (workspace_steps pf policy now lease tc r @ [workspace_end policy now])" for f and u :: "'b retention_state"
  proof -
    have purge: "rt_runs (snd (fst (finalizeSoftDeletedResources pf policy now v))) = rt_runs (snd v)"
      "rt_runs (snd (fst (finalizeDeletedWorkspace policy now v))) = rt_runs (snd v)" for v
      using soft_deleted_frame [of v pf policy now] deleted_workspace_shrinks [of v policy now]
      by (simp_all add: purge_frame_def shrinks_def)
    have "re_telemetry (fst (on_purge g u)) = snd (fst (g (purge_of u)))" for g
      by (simp add: on_purge_def Let_def case_prod_beta')
    then show ?thesis
      using that purge control_steps_keep(1-3) [THEN keeps_runs]
      by (auto simp: workspace_steps_def workspace_end_def case_prod_beta' Let_def)
  qed
  have "runs_of (fst (run_steps (workspace_steps pf policy now lease tc r @ [workspace_end policy now]) n u)) =
      runs_of u" for u :: "'b retention_state"
    by (rule run_steps_rel [where R = "\<lambda>s s'. runs_of s' = runs_of s"]) (use steps in auto)
  moreover have "runs_of (fst (clean_histories policy lease now u)) = runs_of u" for u :: "'b retention_state"
    by (rule keeps_runs [OF histories_keep])
  ultimately show ?thesis unfolding cleaned by (simp add: update_telemetry_def)
qed

lemma policies_keep:
  assumes "\<And>i p s. g (fst (clean i p s)) = g s"
  shows "g (fst (process_policies cont clean i ps d k s)) = g s"
proof (induction ps arbitrary: i d k s)
  case (Cons p ps)
  obtain s' r where c: "clean i p s = (s', r)" by (rule prod.exhaust)
  then have "g s' = g s" using assms [of i p s] by simp
  then show ?case using c Cons.IH by (cases r) simp_all
qed simp

text \<open>
  The page is worked through: before every workspace there is time left, and its lease is granted. A
  workspace whose lease another run holds is not worked on.
\<close>

fun page_worked ::
  "platform \<Rightarrow> retention_clock \<Rightarrow> millis \<Rightarrow> nat \<Rightarrow> retention_policy list \<Rightarrow> 'b retention_state \<Rightarrow> bool" where
  "page_worked pf clk t i [] s \<longleftrightarrow> True"
| "page_worked pf clk t i (p # ps) s \<longleftrightarrow>
     rk_index clk i < rk_deadline_from clk + RETENTION_WORK_BUDGET_MS \<and>
     snd (acquireWorkspaceRetentionLease (rp_workspace_pk p) (rt_cursors (re_telemetry s)) (rk_acquired clk i)) \<noteq> None \<and>
     page_worked pf clk t (i + 1) ps (fst (cleanWorkspace pf (rk_acquired clk i) (rk_released clk i) p t s))"

lemma cleaned_processed:
  assumes "cleanWorkspace pf a r p t s = (s', Inr x)"
  shows "processed x \<longleftrightarrow> snd (acquireWorkspaceRetentionLease (rp_workspace_pk p) (rt_cursors (re_telemetry s)) a) \<noteq> None"
  using assms
  by (auto simp: cleanWorkspace_def Let_def case_prod_beta' bind_result_Inr_iff split: option.splits)

text \<open>The loop skips no workspace exactly when the page is worked through.\<close>

lemma policies_progress:
  assumes "process_policies (\<lambda>i. rk_index clk i < rk_deadline_from clk + RETENTION_WORK_BUDGET_MS)
      (\<lambda>i policy. cleanWorkspace pf (rk_acquired clk i) (rk_released clk i) policy t) i ps d k s = (s', Inr progress)"
  shows "k \<le> skippedWorkspaces progress \<and> (skippedWorkspaces progress = k \<longleftrightarrow> page_worked pf clk t i ps s)"
  using assms
proof (induction ps arbitrary: i d k s)
  case (Cons p ps)
  show ?case
  proof (cases "rk_index clk i < rk_deadline_from clk + RETENTION_WORK_BUDGET_MS")
    case False
    then show ?thesis using Cons.prems by auto
  next
    case True
    obtain u r where c: "cleanWorkspace pf (rk_acquired clk i) (rk_released clk i) p t s = (u, r)" by (rule prod.exhaust)
    then obtain q where q: "r = Inr q"
      using Cons.prems True by (cases r) auto
    let ?k = "if processed q then k else k + 1"
    have "?k \<le> skippedWorkspaces progress \<and>
        (skippedWorkspaces progress = ?k \<longleftrightarrow> page_worked pf clk t (i + 1) ps u)"
      using Cons.prems True c q by (intro Cons.IH) simp
    then show ?thesis
      using True c cleaned_processed [OF c [unfolded q]] by (auto split: if_splits)
  qed
qed auto

lemma set_runs_of [simp]: "runs_of (set_runs f s) = f (runs_of s)"
  by (simp add: set_runs_def update_telemetry_def)

lemma complete_run_row:
  assumes "keyed rr_id (runs_of s)" "row_of rr_id runId (runs_of s) = Some r0"
    and "complete_run runId now deleted cursor s = (s', res)"
  shows "res = Inr () \<and> keyed rr_id (runs_of s') \<and>
    row_of rr_id runId (runs_of s') = Some (r0\<lparr>rr_completed_at := Some now, rr_deleted_rows := int deleted,
      rr_workspace_cursor := cursor\<rparr>)"
proof -
  have "count_where (\<lambda>r. rr_id r = runId) (runs_of s) \<le> 1"
    using count_where_key [OF assms(1), of runId "\<lambda>_. True"] by simp
  moreover have "count_where (\<lambda>r. rr_id r = runId) (runs_of s) \<noteq> 0"
    using row_of_SomeD [OF assms(2)] by (auto simp: count_where_zero)
  ultimately have "count_where (\<lambda>r. rr_id r = runId) (runs_of s) = 1" by linarith
  then show ?thesis
    using assms row_of_SomeD [OF assms(2)]
    by (auto simp: complete_run_def Let_def keyed_update_where row_of_update_where)
qed

lemma history_keeps_current:
  assumes "keyed rr_id runs" "row_of rr_id runId runs = Some r"
  shows "row_of rr_id runId (fst (cleanRetentionRunHistory runId now batch runs)) = Some r"
proof (cases "batch < 1 \<or> batch > RUN_HISTORY_BATCH")
  case True
  then show ?thesis using assms(2) by (simp add: cleanRetentionRunHistory_def)
next
  case False
  let ?d = "delete_limit rr_id (old_run runId now) run_order (nat batch) runs"
  have r: "r \<in> set runs" "rr_id r = runId" using row_of_SomeD [OF assms(2)] by auto
  then have "r \<notin> set (select_limit (old_run runId now) run_order (nat batch) runs)"
    using set_select_limit [of "old_run runId now" run_order "nat batch" runs] by (auto simp: old_run_def)
  then have "r \<in> set (fst ?d)" using r by (simp add: delete_limit_fst [OF assms(1)])
  moreover have "keyed rr_id (fst ?d)"
    using assms(1) by (simp add: delete_limit_fst keyed_filter)
  ultimately show ?thesis
    using row_of_keyed [of rr_id "fst ?d" r] r(2) False
    by (simp add: cleanRetentionRunHistory_def case_prod_beta' Let_def)
qed

lemma body_runs:
  assumes keyed: "keyed rr_id (runs_of s)"
    and row: "row_of rr_id (retention_run_id t) (runs_of s) = Some r0"
    and body: "retention_body pf r2 clk t s = (s', res)"
  shows "case res of
      Inl e \<Rightarrow> keyed rr_id (runs_of s') \<and> row_of rr_id (retention_run_id t) (runs_of s') = Some r0
    | Inr _ \<Rightarrow> \<exists>batch progress s1 r.
        loadRetentionPolicyBatch (re_control s) (runs_of s) (retention_run_id t) POLICY_BATCH = Inr batch \<and>
        processRetentionPolicies (policies batch)
          (\<lambda>i. rk_index clk i < rk_deadline_from clk + RETENTION_WORK_BUDGET_MS)
          (\<lambda>i policy. cleanWorkspace pf (rk_acquired clk i) (rk_released clk i) policy t) s = (s1, Inr progress) \<and>
        row_of rr_id (retention_run_id t) (runs_of s') = Some r \<and> rr_completed_at r = Some (rk_completed clk) \<and>
        rr_error r = rr_error r0 \<and>
        rr_workspace_cursor r = resolveRetentionWorkspaceCursor batch (skippedWorkspaces progress)"
proof (cases "loadRetentionPolicyBatch (re_control s) (runs_of s) (retention_run_id t) POLICY_BATCH")
  case (Inl e)
  then show ?thesis using body keyed row by (auto simp: retention_body_def Let_def)
next
  case (Inr batch)
  let ?process = "processRetentionPolicies (policies batch)
    (\<lambda>i. rk_index clk i < rk_deadline_from clk + RETENTION_WORK_BUDGET_MS)
    (\<lambda>i policy. cleanWorkspace pf (rk_acquired clk i) (rk_released clk i) policy t) s"
  obtain s1 pr where p: "?process = (s1, pr)" by (rule prod.exhaust)
  have "runs_of (fst ?process) = runs_of s"
    unfolding processRetentionPolicies_def by (rule policies_keep) (rule workspace_keeps_runs)
  then have s1: "runs_of s1 = runs_of s" by (simp add: p)
  show ?thesis
  proof (cases pr)
    case (Inl e)
    then show ?thesis using body Inr p s1 keyed row by (auto simp: retention_body_def Let_def)
  next
    case (Inr progress)
    note pr = this
    obtain s2 commands where c: "clean_commands t s1 = (s2, commands)" by (rule prod.exhaust)
    obtain s3 artifacts where a: "clean_artifacts r2 t s2 = (s3, artifacts)" by (rule prod.exhaust)
    have s3: "runs_of s3 = runs_of s"
      using c a s1 by (auto simp: clean_commands_def clean_artifacts_def update_control_def update_telemetry_def
          Let_def case_prod_beta')
    show ?thesis
    proof (cases artifacts)
      case (Inl e)
      then show ?thesis
        using body \<open>loadRetentionPolicyBatch _ _ _ _ = Inr batch\<close> p pr c a s3 keyed row
        by (auto simp: retention_body_def Let_def)
    next
      case (Inr u)
      let ?cursor = "resolveRetentionWorkspaceCursor batch (skippedWorkspaces progress)"
      obtain s4 done_res where d: "complete_run (retention_run_id t) (rk_completed clk)
          (pg_deletedRows progress + commands) ?cursor s3 = (s4, done_res)" by (rule prod.exhaust)
      note done_row = complete_run_row [OF _ _ d, unfolded s3, OF keyed row]
      have "res = Inr ()" "s' = set_runs (\<lambda>runs. fst (cleanRetentionRunHistory (retention_run_id t)
          (rk_history clk) RUN_HISTORY_BATCH runs)) s4"
        using body \<open>loadRetentionPolicyBatch _ _ _ _ = Inr batch\<close> p pr c a Inr d done_row
        by (auto simp: retention_body_def Let_def)
      moreover have "row_of rr_id (retention_run_id t) (fst (cleanRetentionRunHistory (retention_run_id t)
          (rk_history clk) RUN_HISTORY_BATCH (runs_of s4))) =
          Some (r0\<lparr>rr_completed_at := Some (rk_completed clk),
            rr_deleted_rows := int (pg_deletedRows progress + commands), rr_workspace_cursor := ?cursor\<rparr>)"
        using done_row by (intro history_keeps_current) auto
      ultimately show ?thesis
        using \<open>loadRetentionPolicyBatch _ _ _ _ = Inr batch\<close> p pr by simp
    qed
  qed
qed

text \<open>The row of the run itself is not among the earlier runs.\<close>

lemma load_ignores_current:
  assumes "rr_id r = runId"
  shows "loadRetentionPolicyBatch control (insert_or_ignore rr_id r runs) runId n =
    loadRetentionPolicyBatch control runs runId n"
  using assms by (simp add: loadRetentionPolicyBatch_def previous_cursor_def insert_or_ignore_def)

text \<open>The state of a run after it has recorded its start.\<close>

definition begun_run :: "retention_clock \<Rightarrow> millis \<Rightarrow> 'b retention_state \<Rightarrow> 'b retention_state" where
  "begun_run clk t s = set_runs (insert_or_ignore rr_id
     \<lparr>rr_id = retention_run_id t, rr_started_at = rk_started clk, rr_completed_at = None, rr_deleted_rows = 0,
      rr_workspace_cursor = 0, rr_error = None\<rparr>) s"

text \<open>
  C21. A scheduled retention happens once and leaves its record: the first run of a scheduled time ends with
  a completed row for its id, without an error when it returned, and with the error otherwise. The cursor of a run
  that returned moves past the loaded page exactly when the page was worked through, that is when the run reached every
  workspace of it within the time budget and got its lease; if a single one was left out, the next run loads
  the same page again. Every further run of the same time changes nothing.
\<close>

theorem retention_run_once:
  assumes "keyed rr_id (runs_of s)"
    and "\<not> has_key rr_id (retention_run_id t) (runs_of s)"
    and "runRetention pf r2 clk t s = (s', res)"
  shows "\<exists>r. row_of rr_id (retention_run_id t) (runs_of s') = Some r \<and> rr_completed_at r \<noteq> None \<and>
    (isl res \<longleftrightarrow> rr_error r = Some ''retention_failed'') \<and>
    (\<not> isl res \<longrightarrow> (\<exists>batch.
       loadRetentionPolicyBatch (re_control s) (runs_of s) (retention_run_id t) POLICY_BATCH = Inr batch \<and>
       rr_workspace_cursor r =
         (if page_worked pf clk t 0 (policies batch) (begun_run clk t s) then nextWorkspaceCursor batch
          else workspaceCursor batch))) \<and>
    runRetention pf' r2' clk' t s' = (s', Inr ())"
proof -
  let ?row = "\<lparr>rr_id = retention_run_id t, rr_started_at = rk_started clk, rr_completed_at = None,
    rr_deleted_rows = 0, rr_workspace_cursor = 0, rr_error = None\<rparr>"
  let ?s0 = "begun_run clk t s"
  have s0: "?s0 = set_runs (insert_or_ignore rr_id ?row) s" by (simp add: begun_run_def)
  obtain s1 r1 where b: "retention_body pf r2 clk t ?s0 = (s1, r1)" by (rule prod.exhaust)
  have keyed: "keyed rr_id (runs_of ?s0)" using assms(1) by (simp add: s0 keyed_insert_or_ignore)
  have row: "row_of rr_id (retention_run_id t) (runs_of ?s0) = Some ?row"
    using assms(2) by (simp add: s0 row_of_insert_or_ignore row_of_None_iff)
  have start: "retention_body pf r2 clk t (set_runs (insert_or_ignore rr_id ?row) s) = (s1, r1)"
    using b by (simp add: s0)
  note body = body_runs [OF keyed row b]
  have again: "runRetention pf' r2' clk' t s' = (s', Inr ())"
    if "row_of rr_id (retention_run_id t) (runs_of s') = Some r" for r
    using that row_of_None_iff [of rr_id "retention_run_id t" "runs_of s'"] by (simp add: runRetention_def Let_def)
  show ?thesis
  proof (cases r1)
    case (Inl e)
    have "row_of rr_id (retention_run_id t) (runs_of s') =
        Some (?row\<lparr>rr_completed_at := Some (rk_failed clk), rr_error := Some ''retention_failed''\<rparr>)" "res = Inl e"
      using assms(2,3) start Inl body by (auto simp: runRetention_def Let_def row_of_update_where)
    with again show ?thesis by simp
  next
    case (Inr u)
    have r: "s' = s1" "res = Inr ()" using assms(2,3) start Inr by (auto simp: runRetention_def Let_def)
    obtain batch progress u r where q:
      "loadRetentionPolicyBatch (re_control ?s0) (runs_of ?s0) (retention_run_id t) POLICY_BATCH = Inr batch"
      "processRetentionPolicies (policies batch)
          (\<lambda>i. rk_index clk i < rk_deadline_from clk + RETENTION_WORK_BUDGET_MS)
          (\<lambda>i policy. cleanWorkspace pf (rk_acquired clk i) (rk_released clk i) policy t) ?s0 = (u, Inr progress)"
      "row_of rr_id (retention_run_id t) (runs_of s1) = Some r" "rr_completed_at r = Some (rk_completed clk)"
      "rr_error r = None"
      "rr_workspace_cursor r = resolveRetentionWorkspaceCursor batch (skippedWorkspaces progress)"
      using body Inr by auto
    have "rr_workspace_cursor r = (if page_worked pf clk t 0 (policies batch) (begun_run clk t s)
        then nextWorkspaceCursor batch else workspaceCursor batch)"
      using policies_progress [OF q(2) [unfolded processRetentionPolicies_def]] q(6)
      by (simp add: resolveRetentionWorkspaceCursor_def)
    moreover have "loadRetentionPolicyBatch (re_control s) (runs_of s) (retention_run_id t) POLICY_BATCH = Inr batch"
      using q(1) by (simp add: s0 load_ignores_current set_runs_def update_telemetry_def)
    ultimately show ?thesis using q(3-5) r again by auto
  qed
qed

definition sample_bucket :: "r2_object list r2_bucket" where
  "sample_bucket = \<lparr>
     r2_list = (\<lambda>objects prefix after limit. \<lparr>li_objects = [], li_truncated = False\<rparr>),
     r2_delete = (\<lambda>objects keys. filter (\<lambda>ob. ob_key ob \<notin> set keys) objects)\<rparr>"

definition sample_clock :: retention_clock where
  "sample_clock = \<lparr>rk_deadline_from = 0, rk_started = 1, rk_index = (\<lambda>i. 1000 * int i), rk_acquired = (\<lambda>i. 2),
     rk_released = (\<lambda>i. 3), rk_completed = 4, rk_history = 5, rk_failed = 6\<rparr>"

definition sample_retention_state :: "r2_object list retention_state" where
  "sample_retention_state = \<lparr>
     re_control = \<lparr>rc_db = sample_resources,
       rc_policies = [\<lparr>ps_workspace_id = ''w'', ps_raw_days = 1, ps_rollup_5m_days = 1, ps_rollup_1h_days = 1,
         ps_event_days = 1, ps_audit_log_days = 1, ps_announcement_days = 1, ps_soft_delete_days = 1\<rparr>],
       rc_commands = [], rc_announcements = [], rc_audit_logs = [], rc_deliveries = [],
       rc_agents = [], rc_containers = [], rc_dashboards = [], rc_incidents = [], rc_grants = [],
       rc_public_policies = [], rc_dashboard_resources = [], rc_incident_resources = [],
       rc_memberships = []\<rparr>,
     re_telemetry = sample_retention, re_bucket = []\<rparr>"

theorem retention_run_once_witness:
  "let run = runRetention sample_platform sample_bucket sample_clock 0 sample_retention_state
   in has_key rr_id (retention_run_id 0) (runs_of (fst run)) \<and>
      runRetention sample_platform sample_bucket sample_clock 0 (fst run) = (fst run, Inr ())"
proof -
  let ?run = "runRetention sample_platform sample_bucket sample_clock 0 sample_retention_state"
  obtain s' res where run: "?run = (s', res)" by (rule prod.exhaust)
  have runs: "runs_of sample_retention_state = []"
    by (simp add: sample_retention_state_def sample_retention_def)
  obtain r where "row_of rr_id (retention_run_id 0) (runs_of s') = Some r"
    "runRetention sample_platform sample_bucket sample_clock 0 s' = (s', Inr ())"
    using retention_run_once [OF _ _ run, of sample_platform sample_bucket sample_clock] runs by auto
  moreover have "has_key rr_id (retention_run_id 0) (runs_of s')"
    using calculation(1) row_of_None_iff [of rr_id "retention_run_id 0" "runs_of s'"] by auto
  ultimately show ?thesis by (simp add: run)
qed

section \<open>The purge of a workspace\<close>

definition purge_keeps :: "retention_policy \<Rightarrow> millis \<Rightarrow> purge_state \<Rightarrow> purge_state \<Rightarrow> bool" where
  "purge_keeps policy cutoff s s' \<longleftrightarrow>
     (purge_wf policy s \<longrightarrow> purged policy cutoff s s' \<and> purge_wf policy s') \<and>
     workspace_view (fst s') = workspace_view (fst s) \<and> rc_memberships (fst s') = rc_memberships (fst s)"

lemma purge_keeps_refl: "purge_keeps policy cutoff s s"
  by (simp add: purge_keeps_def purged_same)

lemma purge_keeps_trans: "purge_keeps policy cutoff a b \<Longrightarrow> purge_keeps policy cutoff b c \<Longrightarrow> purge_keeps policy cutoff a c"
  unfolding purge_keeps_def using purged_trans by metis

lemma keeps_resources_purge: "keeps_resources s s' \<Longrightarrow> purge_keeps policy cutoff s s'"
proof -
  assume k: "keeps_resources s s'"
  obtain c tel c' tel' where s: "s = (c, tel)" "s' = (c', tel')" by (metis surj_pair)
  have v: "purge_view c' = purge_view c" "shrinks tel tel'" "workspace_view c' = workspace_view c"
    "rc_memberships c' = rc_memberships c"
    using k by (simp_all add: keeps_resources_def purge_frame_def s)
  have "purge_wf policy (c', tel')" if "purge_wf policy (c, tel)"
    using that progress_view [OF v(1,2)] v(1) by (simp add: purge_wf_def purge_view_def)
  then show ?thesis using purged_view [OF v(1,2)] v(3,4) by (simp add: purge_keeps_def s)
qed

lemma workspace_steps_keep:
  fixes s :: "'b retention_state"
  shows "purge_keeps policy (soft_delete_cutoff policy now) (purge_of s)
    (purge_of (fst (run_steps (workspace_steps pf policy now lease tc r) n s)))"
proof (rule run_steps_rel [where R = "\<lambda>s s'. purge_keeps policy (soft_delete_cutoff policy now) (purge_of s) (purge_of s')"])
  fix f :: "'b retention_state \<Rightarrow> 'b retention_state \<times> nat result" and u :: "'b retention_state"
  assume "f \<in> set (workspace_steps pf policy now lease tc r)"
  moreover have "purge_keeps policy (soft_delete_cutoff policy now) (purge_of u)
      (purge_of (fst (on_purge (finalizeSoftDeletedResources pf policy now) u)))"
    using soft_deleted_safe [of policy now pf] soft_deleted_frame [of "purge_of u" pf policy now]
    unfolding purge_of_on_purge purge_keeps_def purge_safe_def purge_frame_def by blast
  ultimately show "purge_keeps policy (soft_delete_cutoff policy now) (purge_of u) (purge_of (fst (f u)))"
    using control_steps_keep(1-3) [THEN keeps_resources_purge] by (auto simp: workspace_steps_def)
qed (rule purge_keeps_refl, erule (1) purge_keeps_trans)

text \<open>
  C22. Purging a workspace never loses track of its telemetry. One cleaning of a workspace, whether it returns or
  throws, leaves every machine and service whose grace period is not over as it was; it removes the row of
  a machine only when no telemetry of the machine and no replay state of any of its agents is left, the row of
  a service only when no telemetry of the service and of any of its checks is left, and the workspace only when
  none of its resources and none of its telemetry is left; and it keeps the invariant of the purge cursors (what
  lies below a cursor is already purged) on which the next run relies.
\<close>

theorem workspace_purge_complete:
  assumes "purge_wf policy (purge_of s)" "cleanWorkspace pf a r policy now s = (s', res)"
  shows "purge_wf policy (purge_of s') \<and>
    (\<forall>m \<in> machines_of (re_control s).
       machine_outcome policy (soft_delete_cutoff policy now) (re_control s) (purge_of s') m) \<and>
    (\<forall>x \<in> services_of (re_control s).
       service_outcome policy (soft_delete_cutoff policy now) (re_control s) (purge_of s') x) \<and>
    (workspace_view (re_control s') = workspace_view (re_control s) \<or>
     workspace_gone policy (purge_of s') \<and>
     deleted_before (rp_workspace_deleted_at policy) (soft_delete_cutoff policy now) \<and>
     workspace_view (re_control s') =
       filter (\<lambda>(i, k, d). \<not> (i = rp_workspace_id policy \<and> d = rp_workspace_deleted_at policy))
         (workspace_view (re_control s)))"
proof -
  let ?cutoff = "soft_delete_cutoff policy now"
  let ?ws = "\<lambda>u u'. workspace_view (re_control u') = workspace_view (re_control u) \<or>
     workspace_gone policy (purge_of u') \<and> deleted_before (rp_workspace_deleted_at policy) ?cutoff \<and>
     workspace_view (re_control u') =
       filter (\<lambda>(i, k, d). \<not> (i = rp_workspace_id policy \<and> d = rp_workspace_deleted_at policy))
         (workspace_view (re_control u))"
  have s': "s' = fst (cleanWorkspace pf a r policy now s)" using assms(2) by simp
  have "purged policy ?cutoff (purge_of s) (purge_of s') \<and> purge_wf policy (purge_of s') \<and> ?ws s s'"
  proof (cases rule: cleanWorkspace_steps [of pf a r policy now s])
    case (skipped cs)
    then have "purge_keeps policy ?cutoff (purge_of s) (purge_of s')"
      unfolding s' using control_steps_keep(4) [THEN keeps_resources_purge] by simp
    then show ?thesis using assms(1) by (simp add: purge_keeps_def)
  next
    case (cleaned cs lease n tc)
    let ?u = "update_telemetry (\<lambda>d. d\<lparr>rt_cursors := cs\<rparr>) s"
    let ?h = "fst (clean_histories policy lease now ?u)"
    obtain v x where v: "run_steps (workspace_steps pf policy now lease tc r) n ?h = (v, x)" by (rule prod.exhaust)
    have "purge_keeps policy ?cutoff (purge_of s) (purge_of ?h)"
      using purge_keeps_trans control_steps_keep(4) [THEN keeps_resources_purge]
        histories_keep [THEN keeps_resources_purge] by blast
    then have keeps: "purge_keeps policy ?cutoff (purge_of s) (purge_of v)"
      using purge_keeps_trans workspace_steps_keep [of policy now ?h pf lease tc r n] by (simp add: v)
    show ?thesis
    proof (cases x)
      case (Inl e)
      then have "s' = v" unfolding s' cleaned run_steps_append v by simp
      then show ?thesis using keeps assms(1) by (simp add: purge_keeps_def)
    next
      case (Inr k)
      obtain w m where w: "finalizeDeletedWorkspace policy now (purge_of v) = (w, m)" by (rule prod.exhaust)
      have "s' = fst (workspace_end policy now v)"
        unfolding s' cleaned run_steps_append v using Inr by (auto split: prod.split sum.split)
      then have end_state: "purge_of s' = w"
        using purge_of_on_purge [of "finalizeDeletedWorkspace policy now" v]
        by (simp add: workspace_end_def w)
      have wf: "purge_wf policy (purge_of v)" "purged policy ?cutoff (purge_of s) (purge_of v)"
        "workspace_view (re_control v) = workspace_view (re_control s)"
        using keeps assms(1) by (auto simp: purge_keeps_def)
      from workspace_step [OF w wf(1), of ?cutoff]
      show ?thesis
        using wf(2,3) purged_trans [OF wf(2)] by (simp add: end_state [symmetric])
    qed
  qed
  then show ?thesis using purgedD(2,3) [of policy ?cutoff "purge_of s" "purge_of s'"] by simp
qed

text \<open>
  C29. A workspace that has an active administrator is never removed. A cleaning leaves the row of the workspace and
  its memberships in place; when the grace period is over and nothing of the workspace is left in either
  database, the trigger on the memberships aborts the deletion and the cleaning throws, so that the run fails,
  too. As every workspace keeps an active administrator, this is what happens to each deleted workspace.
\<close>

theorem workspace_with_admin_stays:
  assumes "keyed membership_key (rc_memberships (re_control s))"
    and "list_ex (active_admin (rp_workspace_id policy)) (rc_memberships (re_control s))"
    and "cleanWorkspace pf a r policy now s = (s', res)"
  shows "workspace_view (re_control s') = workspace_view (re_control s) \<and>
    rc_memberships (re_control s') = rc_memberships (re_control s) \<and>
    (deleted_before (rp_workspace_deleted_at policy) (soft_delete_cutoff policy now) \<and>
     (\<exists>k. (rp_workspace_id policy, k, rp_workspace_deleted_at policy) \<in> set (workspace_view (re_control s))) \<and>
     workspace_gone policy (purge_of s') \<longrightarrow>
     (case res of Inl e \<Rightarrow> True | Inr x \<Rightarrow> \<not> processed x))"
proof (cases "snd (acquireWorkspaceRetentionLease (rp_workspace_pk policy) (rt_cursors (re_telemetry s)) a)")
  case None
  then have "s' = update_telemetry (\<lambda>d. d\<lparr>rt_cursors := fst (acquireWorkspaceRetentionLease (rp_workspace_pk policy)
      (rt_cursors (re_telemetry s)) a)\<rparr>) s \<and> res = Inr \<lparr>deletedRows = 0, processed = False\<rparr>"
    using assms(3) by (auto simp: cleanWorkspace_def Let_def case_prod_beta')
  then show ?thesis by (simp add: update_telemetry_def)
next
  case (Some lease)
  define u where "u = update_telemetry (\<lambda>d. d\<lparr>rt_cursors := fst (acquireWorkspaceRetentionLease
    (rp_workspace_pk policy) (rt_cursors (re_telemetry s)) a)\<rparr>) s"
  obtain h n tc where h: "clean_histories policy lease now u = (h, n, tc)" by (metis surj_pair)
  obtain v x where v: "run_steps (workspace_steps pf policy now lease tc r) n h = (v, x)" by (rule prod.exhaust)
  have run: "cleanWorkspace pf a r policy now s = (let (s2, y) =
      run_steps (workspace_steps pf policy now lease tc r @ [workspace_end policy now]) n h
      in (s2, bind_result y (\<lambda>k. Inr \<lparr>deletedRows = k, processed = True\<rparr>)))"
    by (simp add: cleanWorkspace_def Some u_def [symmetric] h workspace_steps_def workspace_end_def case_prod_beta'
        Let_def del: run_steps.simps)
  have "purge_keeps policy (soft_delete_cutoff policy now) (purge_of s) (purge_of h)"
  proof (rule purge_keeps_trans [OF keeps_resources_purge keeps_resources_purge])
    show "keeps_resources (purge_of s) (purge_of u)" unfolding u_def by (rule control_steps_keep(4))
    show "keeps_resources (purge_of u) (purge_of h)" using histories_keep [of u policy lease now] unfolding h fst_conv .
  qed
  then have "purge_keeps policy (soft_delete_cutoff policy now) (purge_of s) (purge_of v)"
    using purge_keeps_trans workspace_steps_keep [of policy now h pf lease tc r n] by (simp add: v)
  then have view: "workspace_view (re_control v) = workspace_view (re_control s)"
    "rc_memberships (re_control v) = rc_memberships (re_control s)"
    by (simp_all add: purge_keeps_def)
  show ?thesis
  proof (cases x)
    case (Inl e)
    then have "s' = v" "res = Inl e" using assms(3) unfolding run run_steps_append v by auto
    then show ?thesis using view by simp
  next
    case (Inr k)
    obtain w y where w: "finalizeDeletedWorkspace policy now (purge_of v) = (w, y)" by (rule prod.exhaust)
    have "purge_of s' = w" "isl y \<longrightarrow> isl res"
      using assms(3) Inr unfolding run run_steps_append v
      by (auto simp: workspace_end_def on_purge_def w split: sum.splits prod.splits)
    moreover have row: "list_ex (\<lambda>w. wk_id w = rp_workspace_id policy \<and> wk_deleted_at w = rp_workspace_deleted_at policy)
        (cd_workspaces (rc_db (re_control v)))"
      if "(rp_workspace_id policy, k, rp_workspace_deleted_at policy) \<in> set (workspace_view (re_control s))" for k
      using that unfolding view(1) [symmetric] by (auto simp: workspace_view_def list_ex_iff)
    ultimately show ?thesis
      using workspace_with_admin [OF _ _ w] assms(1,2) view by (auto simp: throw_def split: sum.splits)
  qed
qed

text \<open>A deleted workspace with an administrator and nothing else: the cleaning throws.\<close>

definition sample_empty_workspace :: "r2_object list retention_state" where
  "sample_empty_workspace = sample_retention_state\<lparr>
     re_control := (re_control sample_retention_state)\<lparr>
       rc_db := sample_resources\<lparr>cd_workspaces := [\<lparr>wk_id = ''w'', wk_pk = 1, wk_deleted_at = Some 1,
         wk_purge_started_at = None\<rparr>], cd_machines := []\<rparr>,
       rc_memberships := [\<lparr>mb_workspace = ''w'', mb_user = ''u'', mb_role = admin, mb_status = Active,
         mb_created_at = 0, mb_updated_at = 0\<rparr>]\<rparr>,
     re_telemetry := sample_retention\<lparr>rt_history := (\<lambda>_. [])\<rparr>\<rparr>"

theorem workspace_with_admin_stays_witness:
  "let (s', res) = cleanWorkspace sample_platform 0 1 (sample_policy\<lparr>rp_workspace_deleted_at := Some 1\<rparr>)
       172800000 sample_empty_workspace
   in isl res \<and> workspace_view (re_control s') = [(''w'', 1, Some 1)]"
proof -
  let ?policy = "sample_policy\<lparr>rp_workspace_deleted_at := Some 1\<rparr>"
  obtain s' res where run: "cleanWorkspace sample_platform 0 1 ?policy 172800000 sample_empty_workspace = (s', res)"
    by (rule prod.exhaust)
  have "isl (snd (cleanWorkspace sample_platform 0 1 ?policy 172800000 sample_empty_workspace))" by code_simp
  moreover have "workspace_view (re_control s') = workspace_view (re_control sample_empty_workspace)"
    by (rule workspace_with_admin_stays [OF _ _ run, THEN conjunct1])
      (simp_all add: sample_empty_workspace_def sample_policy_def active_admin_def)
  moreover have "workspace_view (re_control sample_empty_workspace) = [(''w'', 1, Some 1)]"
    by (simp add: sample_empty_workspace_def workspace_view_def)
  ultimately show ?thesis by (simp add: run)
qed

text \<open>A deleted machine with one agent, telemetry and replay state.\<close>

definition sample_deleted :: "r2_object list retention_state" where
  "sample_deleted = sample_retention_state\<lparr>
     re_control := (re_control sample_retention_state)\<lparr>
       rc_db := sample_resources\<lparr>cd_machines := [\<lparr>mc_id = ''m'', mc_pk = 7, mc_workspace_id = ''w'', mc_offline_after = 90,
         mc_maintenance_until = None, mc_deleted_at = Some 1, mc_purge_started_at = None,
         mc_purge_agent_cursor = []\<rparr>]\<rparr>,
       rc_agents := [\<lparr>ag_id = ''a'', ag_workspace_id = ''w'', ag_machine_id = ''m''\<rparr>]\<rparr>,
     re_telemetry := sample_retention\<lparr>rt_replay := [(''a'', 1)]\<rparr>\<rparr>"

theorem workspace_purge_complete_witness:
  "let s' = fst (cleanWorkspace sample_platform 0 1 sample_policy 172800000 sample_deleted)
   in purge_wf sample_policy (purge_of s') \<and>
      list_all (machine_outcome sample_policy 86400000 (re_control sample_deleted) (purge_of s'))
        (cd_machines (rc_db (re_control sample_deleted)))"
proof -
  have wf: "purge_wf sample_policy (purge_of sample_deleted)"
    by (simp add: purge_wf_def purge_progress_def agents_purged_def sample_deleted_def sample_retention_state_def
        sample_resources_def)
  obtain s' res where run: "cleanWorkspace sample_platform 0 1 sample_policy 172800000 sample_deleted = (s', res)"
    by (rule prod.exhaust)
  have "soft_delete_cutoff sample_policy 172800000 = 86400000"
    by (simp add: soft_delete_cutoff_def sample_policy_def DAY_MS_def)
  then show ?thesis
    using workspace_purge_complete [OF wf run] by (simp add: run list_all_iff)
qed

end
