(* ===== verification/Discovery.thy ===== *)
theory Discovery
  imports Notification_Db
begin

text \<open>
  Discovery of the events to notify (\<open>workers/notifications/src/discovery.ts\<close>): one run reads the events
  queued after the cursor, looks up their resources and the enabled rules, adds a delivery for each
  channel, moves the cursor and deletes the consumed queue entries. A concurrent run or a user may
  change the control database while a run waits; the changes are arguments of the run.
\<close>

definition EVENT_LIMIT :: nat where "EVENT_LIMIT = 100"
definition INSERT_BATCH :: nat where "INSERT_BATCH = 50"
definition MAX_MATCHED_RULES :: nat where "MAX_MATCHED_RULES = 2000"
definition RULE_KEY_BATCH :: nat where "RULE_KEY_BATCH = 24"

record state_event_row =
  se_sequence :: int
  se_event :: state_event

record resolved_resource =
  re_type :: notified_type
  re_id :: string
  re_name :: string
  workspaceId :: string
  workspacePk :: pk
  workspaceName :: string

record delivery_insert =
  di_id :: string
  di_workspaceId :: string
  di_channelId :: string
  di_event :: state_event
  di_dimension :: notification_dimension
  di_payload :: json

definition dimensionForEvent :: "state_event \<Rightarrow> notification_dimension" where
  "dimensionForEvent event =
     (if ev_current event = Healthy then Recovery
      else if ev_reason event = ''resource_threshold'' then Resource
      else Availability)"

definition resourceType :: "int \<Rightarrow> notified_type" where
  "resourceType value = (if value = 1 then Machine_resource else Service_resource)"

definition resourceKey :: "notified_type \<Rightarrow> pk \<Rightarrow> pk \<Rightarrow> string" where
  "resourceKey type workspace resource =
     join_text '':'' [type_text type, int_to_string workspace, int_to_string resource]"

definition ruleKey :: "string \<Rightarrow> notified_type \<Rightarrow> string \<Rightarrow> notification_dimension \<Rightarrow> string" where
  "ruleKey workspace type resource dimension =
     join_text '':'' [workspace, type_text type, resource, dimension_text dimension]"

definition digestId :: "platform \<Rightarrow> string \<Rightarrow> string" where
  "digestId pf value = hex (sha256 pf (text_encode value))"

text \<open>\<open>hex(blob)\<close> of SQLite, with upper-case digits.\<close>

definition upper_digit :: "int \<Rightarrow> char" where
  "upper_digit n = ''0123456789ABCDEF'' ! nat (n mod 16)"

definition sql_hex :: "blob \<Rightarrow> string" where
  "sql_hex bytes = concat (map (\<lambda>b. [upper_digit (b div 16), upper_digit b]) bytes)"

section \<open>The cursor and the queue\<close>

definition loadCursor :: "notification_db \<Rightarrow> notification_cursor result" where
  "loadCursor db =
     (case row_of nc_singleton 1 (nd_cursors db) of
        None \<Rightarrow> throw ''notification_cursor_missing''
      | Some c \<Rightarrow> Inr c)"

definition newestSequence :: "telemetry_db \<Rightarrow> int" where
  "newestSequence db =
     (case select_limit (\<lambda>q. True) (\<lambda>q. - qe_sequence q) 1 (td_queue db) of
        [] \<Rightarrow> 0 | q # _ \<Rightarrow> qe_sequence q)"

definition updateCursor :: "int \<Rightarrow> millis \<Rightarrow> notification_db \<Rightarrow> notification_db" where
  "updateCursor sequence now db =
     db\<lparr>nd_cursors := update_where (\<lambda>c. nc_singleton c = 1 \<and> last_sequence c \<le> sequence)
          (\<lambda>c. c\<lparr>last_sequence := sequence, nc_updated_at := now\<rparr>) (nd_cursors db)\<rparr>"

text \<open>The first run sets the cursor, unless another run has set it: the updated row, if any.\<close>

definition initialize_cursor ::
  "int \<Rightarrow> millis \<Rightarrow> notification_db \<Rightarrow> notification_db \<times> notification_cursor option" where
  "initialize_cursor sequence now db =
     (let fresh = (\<lambda>c. nc_singleton c = 1 \<and> nc_updated_at c = 0);
          assign = (\<lambda>c. c\<lparr>last_sequence := sequence, nc_updated_at := now\<rparr>)
      in (db\<lparr>nd_cursors := update_where fresh assign (nd_cursors db)\<rparr>,
          map_option assign (find fresh (nd_cursors db))))"

definition cleanConsumedEvents :: "int \<Rightarrow> telemetry_db \<Rightarrow> telemetry_db" where
  "cleanConsumedEvents sequence db =
     db\<lparr>td_queue := fst (delete_limit qe_sequence (\<lambda>q. qe_sequence q \<le> sequence) qe_sequence
          EVENT_LIMIT (td_queue db))\<rparr>"

definition queue_joins :: "queued_event \<Rightarrow> state_event \<Rightarrow> bool" where
  "queue_joins q e \<longleftrightarrow>
     event_key e = (qe_type q, qe_resource_pk q, qe_occurred_at q, qe_id q) \<and> ev_workspace e = qe_workspace q"

definition queued_rows :: "telemetry_db \<Rightarrow> state_event_row list" where
  "queued_rows db =
     concat (map (\<lambda>q. map (\<lambda>e. \<lparr>se_sequence = qe_sequence q, se_event = e\<rparr>)
       (filter (queue_joins q) (td_state_events db))) (td_queue db))"

definition loadEvents :: "telemetry_db \<Rightarrow> notification_cursor \<Rightarrow> state_event_row list" where
  "loadEvents db cursor =
     select_limit (\<lambda>r. se_sequence r > last_sequence cursor) se_sequence EVENT_LIMIT (queued_rows db)"

section \<open>Resources and rules\<close>

text \<open>\<open>[...new Set(xs)]\<close>.\<close>

definition js_set :: "'a list \<Rightarrow> 'a list" where
  "js_set xs = rev (remdups (rev xs))"

definition resolved_of :: "notified_type \<Rightarrow> resource_row \<Rightarrow> named_workspace \<Rightarrow> resolved_resource" where
  "resolved_of type r w =
     \<lparr>re_type = type, re_id = rs_id r, re_name = rs_name r, workspaceId = rs_workspace_id r,
      workspacePk = nw_pk w, workspaceName = nw_name w\<rparr>"

text \<open>The rows of the join, each a resource with its workspace.\<close>

definition loadResourceRows ::
  "notification_db \<Rightarrow> resource_row list \<Rightarrow> pk list \<Rightarrow> (resource_row \<times> named_workspace) list" where
  "loadResourceRows db table telemetryPks =
     (if telemetryPks = [] then []
      else concat (map (\<lambda>r. map (\<lambda>w. (r, w))
             (filter (\<lambda>w. nw_id w = rs_workspace_id r \<and> nw_deleted_at w = None) (nd_workspaces db)))
           (filter (\<lambda>r. rs_pk r \<in> set telemetryPks \<and> rs_deleted_at r = None) table)))"

definition resolveResources ::
  "notification_db \<Rightarrow> state_event list \<Rightarrow> (string \<rightharpoonup> resolved_resource)" where
  "resolveResources db events =
     (let pks = (\<lambda>t. js_set (map ev_resource_pk (filter (\<lambda>e. ev_type e = t) events)));
          add = (\<lambda>type (r, w) m. m(resourceKey type (nw_pk w) (rs_pk r) \<mapsto> resolved_of type r w))
      in fold (add Service_resource) (loadResourceRows db (nd_services db) (pks 2))
           (fold (add Machine_resource) (loadResourceRows db (nd_machines db) (pks 1)) Map.empty))"

type_synonym rule_request = "string \<times> notified_type \<times> string \<times> notification_dimension"

text \<open>The resource that an event resolves to, with the type and the dimension of the event.\<close>

definition event_resource ::
  "(string \<rightharpoonup> resolved_resource) \<Rightarrow> state_event \<Rightarrow> (resolved_resource \<times> rule_request) option" where
  "event_resource resources event =
     (let type = resourceType (ev_type event) in
      map_option (\<lambda>r. (r, (workspaceId r, type, re_id r, dimensionForEvent event)))
        (resources (resourceKey type (ev_workspace event) (ev_resource_pk event))))"

definition request_key :: "rule_request \<Rightarrow> string" where
  "request_key = (\<lambda>(workspace, type, resource, dimension). ruleKey workspace type resource dimension)"

definition requested_rules ::
  "(string \<rightharpoonup> resolved_resource) \<Rightarrow> state_event list \<Rightarrow> (string \<times> rule_request) list" where
  "requested_rules resources events =
     fold (\<lambda>event requested.
       case event_resource resources event of
         None \<Rightarrow> requested
       | Some (r, q) \<Rightarrow> AList.update (request_key q) q requested) events []"

definition rule_request_of :: "rule_row \<Rightarrow> rule_request" where
  "rule_request_of r = (ru_workspace_id r, ru_type r, ru_resource_id r, ru_dimension r)"

definition rule_order :: "rule_row \<Rightarrow> string \<times> string \<times> string \<times> string" where
  "rule_order r =
     (type_text (ru_type r), ru_resource_id r, dimension_text (ru_dimension r), ru_channel_id r)"

definition rule_active :: "notification_db \<Rightarrow> rule_row \<Rightarrow> bool" where
  "rule_active db r \<longleftrightarrow> ru_enabled r = 1 \<and>
     list_ex (\<lambda>c. ch_id c = ru_channel_id r \<and> ch_workspace_id c = ru_workspace_id r \<and> ch_enabled c = 1)
       (nd_channels db)"

definition matched_rules :: "notification_db \<Rightarrow> rule_request list \<Rightarrow> nat \<Rightarrow> rule_row list" where
  "matched_rules db batch n =
     select_limit (rule_active db) rule_order n
       (concat (map (\<lambda>q. filter (\<lambda>r. rule_request_of r = q) (nd_rules db)) batch))"

definition add_rule :: "rule_row \<Rightarrow> (string \<rightharpoonup> rule_row list) \<Rightarrow> (string \<rightharpoonup> rule_row list)" where
  "add_rule row rules =
     (let key = request_key (rule_request_of row)
      in rules(key \<mapsto> ((case rules key of None \<Rightarrow> [] | Some found \<Rightarrow> found) @ [row])))"

fun load_rule_batches ::
  "notification_db \<Rightarrow> rule_request list list \<Rightarrow> nat \<Rightarrow> (string \<rightharpoonup> rule_row list) \<Rightarrow>
   (string \<rightharpoonup> rule_row list) result" where
  "load_rule_batches db [] matched rules = Inr rules"
| "load_rule_batches db (batch # batches) matched rules =
     (let rows = matched_rules db batch (MAX_MATCHED_RULES - matched + 1);
          matched' = matched + length rows
      in if matched' > MAX_MATCHED_RULES then throw ''notification_rule_batch_exceeded''
         else load_rule_batches db batches matched' (fold add_rule rows rules))"

definition loadRules ::
  "notification_db \<Rightarrow> (string \<rightharpoonup> resolved_resource) \<Rightarrow> state_event list \<Rightarrow>
   (string \<rightharpoonup> rule_row list) result" where
  "loadRules db resources events =
     load_rule_batches db (chunks RULE_KEY_BATCH (map snd (requested_rules resources events))) 0 Map.empty"

section \<open>The deliveries\<close>

definition notification_payload ::
  "resolved_resource \<Rightarrow> notified_type \<Rightarrow> notification_dimension \<Rightarrow> state_event \<Rightarrow> json" where
  "notification_payload resource type dimension event = JObj
     [(''workspace'', JStr (workspaceName resource)),
      (''resourceType'', JStr (type_text type)),
      (''resourceName'', JStr (re_name resource)),
      (''dimension'', JStr (dimension_text dimension)),
      (''previousState'', JStr (health_text (ev_previous event))),
      (''currentState'', JStr (health_text (ev_current event))),
      (''reasonCode'', JStr (ev_reason event)),
      (''occurredAt'', JNum (of_int (ev_occurred_at event)))]"

definition source_of :: "string \<Rightarrow> state_event \<Rightarrow> source_key" where
  "source_of channel event = (channel, ev_workspace event, ev_type event, ev_resource_pk event,
     ev_occurred_at event, sql_hex (ev_id event))"

definition identity_text :: "source_key \<Rightarrow> string" where
  "identity_text = (\<lambda>(channel, workspace, type, resource, at_time, event).
     join_text '':'' [channel, int_to_string workspace, int_to_string type, int_to_string resource,
       int_to_string at_time, event])"

definition prepare_event ::
  "platform \<Rightarrow> (string \<rightharpoonup> resolved_resource) \<Rightarrow> (string \<rightharpoonup> rule_row list) \<Rightarrow> state_event \<Rightarrow>
   delivery_insert list" where
  "prepare_event pf resources rules event =
     (case event_resource resources event of
        None \<Rightarrow> []
      | Some (resource, q) \<Rightarrow>
          map (\<lambda>rule.
            \<lparr>di_id = digestId pf (identity_text (source_of (ru_channel_id rule) event)),
             di_workspaceId = workspaceId resource, di_channelId = ru_channel_id rule,
             di_event = event, di_dimension = dimensionForEvent event,
             di_payload = notification_payload resource (resourceType (ev_type event))
               (dimensionForEvent event) event\<rparr>)
            (case rules (request_key q) of None \<Rightarrow> [] | Some found \<Rightarrow> found))"

definition prepareDeliveries ::
  "platform \<Rightarrow> state_event list \<Rightarrow> (string \<rightharpoonup> resolved_resource) \<Rightarrow> (string \<rightharpoonup> rule_row list) \<Rightarrow>
   delivery_insert list" where
  "prepareDeliveries pf events resources rules = concat (map (prepare_event pf resources rules) events)"

definition inserted_delivery :: "platform \<Rightarrow> millis \<Rightarrow> delivery_insert \<Rightarrow> delivery" where
  "inserted_delivery pf now d =
     (let e = di_event d in
      \<lparr>dl_id = di_id d, dl_workspace_id = di_workspaceId d, dl_channel_id = di_channelId d,
       dl_source_workspace = ev_workspace e, dl_source_type = ev_type e, dl_source_pk = ev_resource_pk e,
       dl_source_at = ev_occurred_at e, dl_source_event = sql_hex (ev_id e),
       dl_dimension = di_dimension d, dl_payload_json = JSON_stringify pf (di_payload d),
       dl_state = Dl_pending, dl_attempts = 0, dl_next_attempt = now, dl_claim_token = None,
       dl_claim_until = None, dl_last_error = None, dl_status = None, dl_created_at = now,
       dl_updated_at = now, dl_sent_at = None\<rparr>)"

text \<open>
  \<open>INSERT OR IGNORE\<close>: a row that repeats the id or the source of a stored one is dropped; the foreign keys
  on the workspace and the channel are not covered by \<open>OR IGNORE\<close> and fail the batch.
\<close>

definition insert_delivery :: "notification_db \<Rightarrow> delivery \<Rightarrow> delivery list \<Rightarrow> delivery list result" where
  "insert_delivery db d t =
     (if has_key dl_id (dl_id d) t \<or> has_key delivery_source (delivery_source d) t then Inr t
      else if dl_workspace_id d \<notin> set (map nw_id (nd_workspaces db)) \<or>
              dl_channel_id d \<notin> set (map ch_id (nd_channels db))
        then throw ''FOREIGN KEY constraint failed''
      else Inr (t @ [d]))"

fun insert_batch :: "notification_db \<Rightarrow> delivery list \<Rightarrow> delivery list \<Rightarrow> delivery list result" where
  "insert_batch db [] t = Inr t"
| "insert_batch db (d # ds) t = bind_result (insert_delivery db d t) (insert_batch db ds)"

text \<open>A batch is atomic; the batches before the one that fails stay.\<close>

fun persist_batches ::
  "delivery list list \<Rightarrow> notification_db \<Rightarrow> notification_db \<times> unit result" where
  "persist_batches [] db = (db, Inr ())"
| "persist_batches (batch # batches) db =
     (case insert_batch db batch (nd_deliveries db) of
        Inl e \<Rightarrow> (db, Inl e)
      | Inr t \<Rightarrow> persist_batches batches (db\<lparr>nd_deliveries := t\<rparr>))"

definition persistDeliveries ::
  "platform \<Rightarrow> notification_db \<Rightarrow> delivery_insert list \<Rightarrow> millis \<Rightarrow> notification_db \<times> unit result" where
  "persistDeliveries pf db deliveries now =
     persist_batches (chunks INSERT_BATCH (map (inserted_delivery pf now) deliveries)) db"

section \<open>A run\<close>

record discovery_result =
  ds_scanned :: nat
  ds_enqueued :: nat
  ds_bootstrapped :: bool

type_synonym discovery_state = "notification_db \<times> telemetry_db"

text \<open>
  The part after the cursor is known. \<open>meanwhile\<close> is what others do to the control database between the
  read of the rules and the first insertion.
\<close>

definition discover_after ::
  "platform \<Rightarrow> (notification_db \<Rightarrow> notification_db) \<Rightarrow> notification_db \<Rightarrow> telemetry_db \<Rightarrow>
   notification_cursor \<Rightarrow> millis \<Rightarrow> discovery_state \<times> discovery_result result" where
  "discover_after pf meanwhile control telemetry cursor now =
     (let rows = loadEvents telemetry cursor; events = map se_event rows in
      if rows = [] then
        ((control, cleanConsumedEvents (last_sequence cursor) telemetry),
         Inr \<lparr>ds_scanned = 0, ds_enqueued = 0, ds_bootstrapped = False\<rparr>)
      else
        let resources = resolveResources control events in
        case loadRules control resources events of
          Inl e \<Rightarrow> ((control, telemetry), Inl e)
        | Inr rules \<Rightarrow>
            let deliveries = prepareDeliveries pf events resources rules;
                (control', persisted) = persistDeliveries pf (meanwhile control) deliveries now;
                sequence = se_sequence (last rows)
            in case persisted of
                 Inl e \<Rightarrow> ((control', telemetry), Inl e)
               | Inr _ \<Rightarrow>
                   ((updateCursor sequence now control', cleanConsumedEvents sequence telemetry),
                    Inr \<lparr>ds_scanned = length rows, ds_enqueued = length deliveries,
                         ds_bootstrapped = False\<rparr>))"

definition discoverNotificationEvents ::
  "platform \<Rightarrow> (notification_db \<Rightarrow> notification_db) \<Rightarrow> (notification_db \<Rightarrow> notification_db) \<Rightarrow>
   notification_db \<Rightarrow> telemetry_db \<Rightarrow> millis \<Rightarrow> discovery_state \<times> discovery_result result" where
  "discoverNotificationEvents pf before_init meanwhile control telemetry now =
     (case loadCursor control of
        Inl e \<Rightarrow> ((control, telemetry), Inl e)
      | Inr cursor \<Rightarrow>
          if nc_updated_at cursor = 0 then
            let (control1, initialized) =
                  initialize_cursor (newestSequence telemetry) now (before_init control) in
            (case initialized of
               Some c \<Rightarrow> ((control1, cleanConsumedEvents (last_sequence c) telemetry),
                         Inr \<lparr>ds_scanned = 0, ds_enqueued = 0, ds_bootstrapped = True\<rparr>)
             | None \<Rightarrow>
                 (case loadCursor control1 of
                    Inl e \<Rightarrow> ((control1, telemetry), Inl e)
                  | Inr cursor1 \<Rightarrow> discover_after pf meanwhile control1 telemetry cursor1 now))
          else discover_after pf meanwhile control telemetry cursor now)"

end
