(* ===== verification/Notification_Providers.thy ===== *)
theory Notification_Providers
  imports Notification_Db
begin

text \<open>
  Sending one notification (\<open>workers/notifications/src/providers.ts\<close>) and the envelope of a channel's
  configuration (\<open>packages/contracts/src/notification-config.ts\<close>). A configuration is the property list
  of the decrypted JSON object and a payload is the JSON value that the delivery row holds. The network
  is an argument: the status of the response, or the error that the fetch rejects with.
\<close>

section \<open>What the sources use of the platform\<close>

text \<open>
  \<open>pathname\<close> of a URL and its setter, the time value of \<open>new Date(v)\<close> for a \<open>v\<close> that is not a number
  (none when invalid), and the message of an error of the engine.
\<close>

record notify_web =
  URL_pathname :: "url \<Rightarrow> string"
  URL_set_pathname :: "url \<Rightarrow> string \<Rightarrow> url"
  Date_value :: "json \<Rightarrow> int option"
  engine_message :: string

definition pad_start :: "nat \<Rightarrow> string \<Rightarrow> string" where
  "pad_start n s = replicate (n - length s) CHR ''0'' @ s"

text \<open>\<open>toISOString\<close>, in the proleptic Gregorian calendar; none outside the range of a time value.\<close>

definition civil_date :: "int \<Rightarrow> int \<times> int \<times> int" where
  "civil_date days =
     (let z = days + 719468; era = z div 146097; doe = z mod 146097;
          yoe = (doe - doe div 1460 + doe div 36524 - doe div 146096) div 365;
          doy = doe - (365 * yoe + yoe div 4 - yoe div 100);
          mp = (5 * doy + 2) div 153;
          month = (if mp < 10 then mp + 3 else mp - 9)
      in (yoe + era * 400 + (if month \<le> 2 then 1 else 0), month, doy - (153 * mp + 2) div 5 + 1))"

definition year_text :: "int \<Rightarrow> string" where
  "year_text y = (if 0 \<le> y \<and> y \<le> 9999 then pad_start 4 (int_to_string y)
     else (if y < 0 then ''-'' else ''+'') @ pad_start 6 (int_to_string \<bar>y\<bar>))"

definition toISOString :: "int \<Rightarrow> string option" where
  "toISOString t =
     (if \<bar>t\<bar> > 8640000000000000 then None
      else let (y, m, d) = civil_date (t div 86400000); ms = t mod 86400000;
               two = (\<lambda>n. pad_start 2 (int_to_string n))
           in Some (year_text y @ ''-'' @ two m @ ''-'' @ two d @ ''T'' @ two (ms div 3600000) @ '':'' @
                two (ms div 60000 mod 60) @ '':'' @ two (ms div 1000 mod 60) @ ''.'' @
                pad_start 3 (int_to_string (ms mod 1000)) @ ''Z''))"

definition date_time :: "notify_web \<Rightarrow> json option \<Rightarrow> int option" where
  "date_time nw v =
     (case v of
        None \<Rightarrow> None
      | Some (JNum x) \<Rightarrow> Some (if 0 \<le> x then \<lfloor>x\<rfloor> else \<lceil>x\<rceil>)
      | Some w \<Rightarrow> Date_value nw w)"

definition uri_unreserved :: "char \<Rightarrow> bool" where
  "uri_unreserved c \<longleftrightarrow> list_ex (\<lambda>(lo, hi). between lo hi c)
     [(CHR ''a'', CHR ''z''), (CHR ''A'', CHR ''Z''), (CHR ''0'', CHR ''9'')] \<or> c \<in> set ''-_.!~*()'' \<or>
     c = CHR 0x27"

definition encodeURIComponent :: "string \<Rightarrow> string" where
  "encodeURIComponent s = concat (map (\<lambda>c. if uri_unreserved c then [c]
     else [CHR ''%'', ''0123456789ABCDEF'' ! (of_char c div 16), ''0123456789ABCDEF'' ! (of_char c mod 16)]) s)"

section \<open>The envelope of a configuration\<close>

type_synonym channel_config = "(string \<times> json) list"

record wrapped_config =
  wc_ciphertext :: blob
  wc_nonce :: blob

definition MAX_CONFIG_BYTES :: nat where "MAX_CONFIG_BYTES = 16384"

definition decodeKey :: "string \<Rightarrow> blob attempt" where
  "decodeKey keyHex =
     (if length keyHex = 64 \<and> list_all (\<lambda>c. hex_value c \<noteq> None) keyHex then Inr (hex_pairs keyHex)
      else raise_error ''invalid_notification_wrapping_key'')"

definition additionalData :: "string \<Rightarrow> string \<Rightarrow> blob attempt" where
  "additionalData workspace channel =
     (if workspace = [] \<or> channel = [] then raise_error ''invalid_notification_config_scope''
      else Inr (text_encode (''alphaping:notification-config:v1:'' @ workspace @ '':'' @ channel)))"

definition wrapNotificationConfig ::
  "platform \<Rightarrow> aes_gcm \<Rightarrow> blob \<Rightarrow> channel_config \<Rightarrow> string \<Rightarrow> string \<Rightarrow> string \<Rightarrow> wrapped_config attempt" where
  "wrapNotificationConfig pf gcm nonce config keyHex workspace channel =
     (let plaintext = text_encode (JSON_stringify pf (JObj config)) in
      bind_result (require (\<not> (length plaintext = 0 \<or> length plaintext > MAX_CONFIG_BYTES))
        ''invalid_notification_config_size'') (\<lambda>_.
      bind_result (additionalData workspace channel) (\<lambda>aad.
      bind_result (decodeKey keyHex) (\<lambda>key.
        Inr \<lparr>wc_ciphertext = gcm_encrypt gcm key nonce aad plaintext, wc_nonce = nonce\<rparr>))))"

definition unwrapNotificationConfig ::
  "platform \<Rightarrow> notify_web \<Rightarrow> aes_gcm \<Rightarrow> wrapped_config \<Rightarrow> string \<Rightarrow> string \<Rightarrow> string \<Rightarrow>
   channel_config attempt" where
  "unwrapNotificationConfig pf nw gcm wrapped keyHex workspace channel =
     bind_result (require (\<not> (length (wc_nonce wrapped) \<noteq> 12 \<or>
         length (wc_ciphertext wrapped) > MAX_CONFIG_BYTES + 16))
       ''invalid_notification_config_envelope'') (\<lambda>_.
     bind_result (additionalData workspace channel) (\<lambda>aad.
     bind_result (decodeKey keyHex) (\<lambda>key.
       case gcm_decrypt gcm key (wc_nonce wrapped) aad (wc_ciphertext wrapped) of
         None \<Rightarrow> Inl (JsDomException ''OperationError'')
       | Some plaintext \<Rightarrow>
           (case JSON_parse pf (TextDecoder_decode plaintext) of
              None \<Rightarrow> Inl JsEngineError
            | Some (JObj config) \<Rightarrow> Inr config
            | Some _ \<Rightarrow> raise_error ''invalid_notification_config''))))"

section \<open>Reading the configuration\<close>

definition requiredString :: "channel_config \<Rightarrow> string \<Rightarrow> string attempt" where
  "requiredString config key =
     (case jfield config key of
        Some (JStr s) \<Rightarrow>
          (case js_trim s of
             [] \<Rightarrow> raise_error (''invalid_notification_config:'' @ key)
           | c # cs \<Rightarrow> Inr (c # cs))
      | _ \<Rightarrow> raise_error (''invalid_notification_config:'' @ key))"

definition optionalString :: "channel_config \<Rightarrow> string \<Rightarrow> string option attempt" where
  "optionalString config key =
     (case jfield config key of
        None \<Rightarrow> Inr None
      | Some JNull \<Rightarrow> Inr None
      | Some (JStr s) \<Rightarrow> Inr (if s = [] then None else Some (js_trim s))
      | _ \<Rightarrow> raise_error (''invalid_notification_config:'' @ key))"

definition recipient_ok :: "json \<Rightarrow> bool" where
  "recipient_ok entry = (case entry of JStr s \<Rightarrow> includes_text s ''@'' | _ \<Rightarrow> False)"

definition recipients :: "web \<Rightarrow> channel_config \<Rightarrow> string list attempt" where
  "recipients wb config =
     (case jfield config ''recipients'' of
        Some (JArr entries) \<Rightarrow>
          if length entries = 0 \<or> length entries > 20 \<or> list_ex (\<lambda>e. \<not> recipient_ok e) entries
          then raise_error ''invalid_notification_config:recipients''
          else Inr (map (\<lambda>e. js_trim (js_String wb e)) entries)
      | _ \<Rightarrow> raise_error ''invalid_notification_config:recipients'')"

definition httpsUrl ::
  "web \<Rightarrow> notify_web \<Rightarrow> string \<Rightarrow> (string \<Rightarrow> string \<Rightarrow> bool) option \<Rightarrow> url attempt" where
  "httpsUrl wb nw value_text allowedHost =
     (case URL_parse wb value_text of
        None \<Rightarrow> Inl JsEngineError
      | Some u \<Rightarrow>
          if u_protocol u \<noteq> ''https:'' \<or> u_username u \<noteq> [] \<or> u_password u \<noteq> [] \<or>
             (case allowedHost of None \<Rightarrow> False
              | Some allowed \<Rightarrow> \<not> allowed (toLowerCase (u_hostname u)) (URL_pathname nw u))
          then raise_error ''invalid_notification_config:url''
          else Inr u)"

section \<open>The request\<close>

record notification_text =
  nt_subject :: string
  nt_text :: string

definition payload_prop :: "json \<Rightarrow> string \<Rightarrow> json option attempt" where
  "payload_prop payload name =
     (case payload of JNull \<Rightarrow> Inl JsEngineError | JObj props \<Rightarrow> Inr (jfield props name) | _ \<Rightarrow> Inr None)"

definition payload_text :: "web \<Rightarrow> json \<Rightarrow> string \<Rightarrow> string attempt" where
  "payload_text wb payload name =
     bind_result (payload_prop payload name)
       (\<lambda>v. Inr (case v of None \<Rightarrow> ''undefined'' | Some x \<Rightarrow> js_String wb x))"

definition newline :: string where "newline = [CHR 0x0A]"

definition notification_message ::
  "web \<Rightarrow> notify_web \<Rightarrow> json \<Rightarrow> notification_text attempt" where
  "notification_message wb nw payload =
     bind_result (payload_text wb payload ''resourceName'') (\<lambda>name.
     bind_result (payload_text wb payload ''currentState'') (\<lambda>current.
     bind_result (payload_prop payload ''resourceType'') (\<lambda>type.
     bind_result (payload_text wb payload ''workspace'') (\<lambda>workspace.
     bind_result (payload_text wb payload ''previousState'') (\<lambda>previous.
     bind_result (payload_text wb payload ''dimension'') (\<lambda>dimension.
     bind_result (payload_text wb payload ''reasonCode'') (\<lambda>reason.
     bind_result (payload_prop payload ''occurredAt'') (\<lambda>occurred.
       case Option.bind (date_time nw occurred) toISOString of
         None \<Rightarrow> Inl JsEngineError
       | Some stamp \<Rightarrow> Inr
           \<lparr>nt_subject = ''[AlphaPing] '' @ name @ '': '' @ current,
            nt_text = join_text newline
              [(if type = Some (JStr ''machine'') then ''Machine'' else ''Service'') @ '': '' @ name,
               ''Workspace: '' @ workspace, ''State: '' @ previous @ '' -> '' @ current,
               ''Dimension: '' @ dimension, ''Reason: '' @ reason, ''Time: '' @ stamp]\<rparr>))))))))"

definition escape_char :: "char \<Rightarrow> string" where
  "escape_char c =
     (if c = CHR ''&'' then ''&amp;'' else if c = CHR ''<'' then ''&lt;'' else if c = CHR ''>'' then ''&gt;''
      else if c = CHR 0x22 then ''&quot;'' else if c = CHR 0x27 then ''&#39;'' else [c])"

definition escapeHtml :: "string \<Rightarrow> string" where
  "escapeHtml s = concat (map escape_char s)"

record request_target =
  tg_url :: string
  tg_method :: string
  tg_headers :: "(string \<times> string) list"
  tg_body :: string

definition jsonRequest ::
  "platform \<Rightarrow> string \<Rightarrow> (string \<times> json) list \<Rightarrow> (string \<times> string) list \<Rightarrow> request_target" where
  "jsonRequest pf address body headers =
     \<lparr>tg_url = address, tg_method = ''POST'',
      tg_headers = spread_props [(''content-type'', ''application/json'')] headers,
      tg_body = JSON_stringify pf (JObj body)\<rparr>"

definition discord_host :: "string \<Rightarrow> string \<Rightarrow> bool" where
  "discord_host host path \<longleftrightarrow>
     (host = ''discord.com'' \<or> host = ''discordapp.com'') \<and> startsWith path ''/api/webhooks/''"

definition slack_host :: "string \<Rightarrow> string \<Rightarrow> bool" where
  "slack_host host path \<longleftrightarrow> host = ''hooks.slack.com'' \<and> startsWith path ''/services/''"

text \<open>The pattern \<open>/^\d+:[A-Za-z0-9_-]{20,}$/\<close>.\<close>

definition bot_token_ok :: "string \<Rightarrow> bool" where
  "bot_token_ok token =
     (let digits = takeWhile (between CHR ''0'' CHR ''9'') token in
      digits \<noteq> [] \<and>
      (case drop (length digits) token of
         [] \<Rightarrow> False
       | c # rest \<Rightarrow> c = CHR '':'' \<and> length rest \<ge> 20 \<and>
           list_all (\<lambda>c. between CHR ''a'' CHR ''z'' c \<or> between CHR ''A'' CHR ''Z'' c \<or>
             between CHR ''0'' CHR ''9'' c \<or> c = CHR ''_'' \<or> c = CHR ''-'') rest))"

definition email_body ::
  "web \<Rightarrow> channel_config \<Rightarrow> notification_text \<Rightarrow> (string \<times> json) list attempt" where
  "email_body wb config content =
     bind_result (requiredString config ''from'') (\<lambda>from_text.
     bind_result (recipients wb config) (\<lambda>to_list.
       Inr [(''from'', JStr from_text), (''to'', JArr (map JStr to_list)),
            (''subject'', JStr (nt_subject content)), (''text'', JStr (nt_text content)),
            (''html'', JStr (''<pre style='' @ [CHR 0x22] @ ''font:14px/1.55 ui-monospace,monospace'' @
               [CHR 0x22] @ ''>'' @ escapeHtml (nt_text content) @ ''</pre>''))]))"

definition drop_trailing_slash :: "string \<Rightarrow> string" where
  "drop_trailing_slash p = (if endsWith p ''/'' then butlast p else p)"

fun provider_request ::
  "platform \<Rightarrow> web \<Rightarrow> notify_web \<Rightarrow> notification_provider \<Rightarrow> channel_config \<Rightarrow> notification_text \<Rightarrow>
   request_target attempt" where
  "provider_request pf wb nw Resend config content =
     bind_result (optionalString config ''replyTo'') (\<lambda>replyTo.
     bind_result (email_body wb config content) (\<lambda>body.
     bind_result (requiredString config ''apiKey'') (\<lambda>apiKey.
       Inr (jsonRequest pf ''https://api.resend.com/emails''
         (body @ (case replyTo of None \<Rightarrow> [] | Some r \<Rightarrow> if r = [] then [] else [(''reply_to'', JStr r)]))
         [(''authorization'', ''Bearer '' @ apiKey)]))))"
| "provider_request pf wb nw Smtp config content =
     bind_result (requiredString config ''relayUrl'') (\<lambda>relay.
     bind_result (httpsUrl wb nw relay None) (\<lambda>relayUrl.
     bind_result (optionalString config ''relayToken'') (\<lambda>token.
     bind_result (email_body wb config content) (\<lambda>body.
       Inr (jsonRequest pf (u_href relayUrl) body
         (case token of None \<Rightarrow> []
          | Some t \<Rightarrow> if t = [] then [] else [(''authorization'', ''Bearer '' @ t)]))))))"
| "provider_request pf wb nw Discord config content =
     bind_result (requiredString config ''webhookUrl'') (\<lambda>hook.
     bind_result (httpsUrl wb nw hook (Some discord_host)) (\<lambda>webhook.
       Inr (jsonRequest pf (u_href webhook)
         [(''content'', JStr (utf16_take 2000 (nt_subject content @ newline @ newline @ nt_text content)))] [])))"
| "provider_request pf wb nw Slack config content =
     bind_result (requiredString config ''webhookUrl'') (\<lambda>hook.
     bind_result (httpsUrl wb nw hook (Some slack_host)) (\<lambda>webhook.
       Inr (jsonRequest pf (u_href webhook)
         [(''text'', JStr (utf16_take 4000 (''*'' @ nt_subject content @ ''*'' @ newline @ nt_text content)))] [])))"
| "provider_request pf wb nw Telegram config content =
     bind_result (requiredString config ''botToken'') (\<lambda>botToken.
     bind_result (require (bot_token_ok botToken) ''invalid_notification_config:botToken'') (\<lambda>_.
     bind_result (requiredString config ''chatId'') (\<lambda>chatId.
       Inr (jsonRequest pf (''https://api.telegram.org/bot'' @ botToken @ ''/sendMessage'')
         [(''chat_id'', JStr chatId),
          (''text'', JStr (utf16_take 4096 (nt_subject content @ newline @ newline @ nt_text content))),
          (''disable_web_page_preview'', JBool True)] []))))"
| "provider_request pf wb nw Bark config content =
     bind_result (optionalString config ''endpoint'') (\<lambda>address.
     bind_result (httpsUrl wb nw (case address of None \<Rightarrow> ''https://api.day.app'' | Some a \<Rightarrow> a) None) (\<lambda>endpoint.
     bind_result (requiredString config ''deviceKey'') (\<lambda>deviceKey.
     bind_result (optionalString config ''group'') (\<lambda>group_name.
       Inr (jsonRequest pf (u_href (URL_set_pathname nw endpoint
             (drop_trailing_slash (URL_pathname nw endpoint) @ ''/'' @ encodeURIComponent deviceKey)))
         [(''title'', JStr (nt_subject content)), (''body'', JStr (nt_text content)),
          (''group'', JStr (case group_name of None \<Rightarrow> ''AlphaPing'' | Some g \<Rightarrow> g)),
          (''isArchive'', JStr ''1'')] [])))))"

definition buildRequest ::
  "platform \<Rightarrow> web \<Rightarrow> notify_web \<Rightarrow> notification_provider \<Rightarrow> channel_config \<Rightarrow> json \<Rightarrow>
   request_target attempt" where
  "buildRequest pf wb nw provider config payload =
     bind_result (notification_message wb nw payload) (provider_request pf wb nw provider config)"

section \<open>Sending\<close>

definition response_ok :: "int \<Rightarrow> bool" where
  "response_ok status \<longleftrightarrow> 200 \<le> status \<and> status \<le> 299"

definition resultForResponse :: "int \<Rightarrow> delivery_result" where
  "resultForResponse status =
     (let retry = (status = 408 \<or> status = 429 \<or> status \<ge> 500) in
      \<lparr>dr_ok = response_ok status, retryable = retry, dr_status = Some status,
       dr_error = (if response_ok status then None
                   else if retry then Some ''provider_temporarily_unavailable''
                   else Some ''provider_rejected'')\<rparr>)"

fun error_message :: "notify_web \<Rightarrow> js_error \<Rightarrow> string" where
  "error_message nw (JsError m) = m"
| "error_message nw JsEngineError = engine_message nw"
| "error_message nw (JsDomException name) = engine_message nw"

definition REQUEST_TIMEOUT_MS :: millis where "REQUEST_TIMEOUT_MS = 10000"

text \<open>
  What is handed to \<open>fetch\<close>: no redirect is followed, and a request without an answer after the
  timeout is aborted, which is one of the exceptions that \<open>fetcher\<close> may give.
\<close>

record fetch_request = request_target +
  fq_redirect :: string
  fq_timeout :: millis

definition fetch_request_of :: "request_target \<Rightarrow> fetch_request" where
  "fetch_request_of target =
     request_target.extend target \<lparr>fq_redirect = ''manual'', fq_timeout = REQUEST_TIMEOUT_MS\<rparr>"

definition sendNotification ::
  "platform \<Rightarrow> web \<Rightarrow> notify_web \<Rightarrow> (fetch_request \<Rightarrow> int attempt) \<Rightarrow> notification_provider \<Rightarrow>
   channel_config \<Rightarrow> json \<Rightarrow> delivery_result" where
  "sendNotification pf wb nw fetcher provider config payload =
     (case buildRequest pf wb nw provider config payload of
        Inl cause \<Rightarrow>
          \<lparr>dr_ok = False, retryable = False, dr_status = None,
           dr_error = Some (utf16_take 160 (error_message nw cause))\<rparr>
      | Inr target \<Rightarrow>
          (case fetcher (fetch_request_of target) of
             Inr status \<Rightarrow> resultForResponse status
           | Inl cause \<Rightarrow>
               \<lparr>dr_ok = False, retryable = True, dr_status = None,
                dr_error = Some (if cause = JsDomException ''AbortError'' then ''provider_timeout''
                                 else ''provider_network_error'')\<rparr>))"

end
