(* ===== verification/Outbox.thy ===== *)
theory Outbox
  imports Discovery Notification_Providers
begin

text \<open>
  The outbox of notifications (\<open>workers/notifications/src/outbox.ts\<close>) and the scheduled run
  (\<open>workers/notifications/src/index.ts\<close>). A worker claims a due delivery with a fresh random token and a
  deadline, sends it, and writes the outcome under the token. What others do to the database while a
  worker sends is an argument of \<open>deliverOne\<close>; the interleavings of any number of workers are the step
  relation \<open>outbox_step\<close> of \<open>Outbox_Correctness\<close>.
\<close>

definition DELIVERY_LIMIT :: nat where "DELIVERY_LIMIT = 50"
definition CONCURRENCY :: nat where "CONCURRENCY = 5"
definition CLAIM_MS :: millis where "CLAIM_MS = 30000"
definition MAX_ATTEMPTS :: int where "MAX_ATTEMPTS = 6"

record claimed_delivery =
  cv_id :: string
  cv_workspace_id :: string
  cv_channel_id :: string
  cv_payload_json :: string
  cv_attempt_count :: int
  cv_channel :: "channel_row option"
  rule_available :: bool
  cv_token :: string

definition retryDelayMs :: "int \<Rightarrow> millis" where
  "retryDelayMs attempt_count = min (60 * 60000) (60000 * 2 ^ nat (max 0 (attempt_count - 1)))"

section \<open>Claiming\<close>

definition due_delivery :: "millis \<Rightarrow> delivery \<Rightarrow> bool" where
  "due_delivery now d \<longleftrightarrow>
     dl_state d = Dl_pending \<and> dl_next_attempt d \<le> now \<or>
     dl_state d = Dl_delivering \<and> (case dl_claim_until d of None \<Rightarrow> False | Some u \<Rightarrow> u \<le> now)"

definition claim_row :: "string \<Rightarrow> millis \<Rightarrow> delivery \<Rightarrow> delivery" where
  "claim_row token now d =
     (let exhausted = (dl_attempts d \<ge> MAX_ATTEMPTS) in
      d\<lparr>dl_state := (if exhausted then Dl_dead else Dl_delivering),
        dl_claim_token := (if exhausted then None else Some token),
        dl_claim_until := (if exhausted then None else Some (now + CLAIM_MS)),
        dl_last_error := (if exhausted then Some ''notification_attempts_exhausted'' else dl_last_error d),
        dl_attempts := min (dl_attempts d + 1) MAX_ATTEMPTS,
        dl_updated_at := now\<rparr>)"

text \<open>The update of \<open>claimDelivery\<close>, with the number of rows it changed.\<close>

definition claim_statement :: "string \<Rightarrow> string \<Rightarrow> millis \<Rightarrow> delivery list \<Rightarrow> delivery list \<times> nat" where
  "claim_statement i token now t =
     (let p = (\<lambda>d. dl_id d = i \<and> due_delivery now d)
      in (update_where p (claim_row token now) t, count_where p t))"

definition source_resource :: "notification_db \<Rightarrow> delivery \<Rightarrow> resource_row option" where
  "source_resource db d =
     find (\<lambda>r. rs_pk r = dl_source_pk d \<and> rs_workspace_id r = dl_workspace_id d \<and> rs_deleted_at r = None)
       (if dl_source_type d = 1 then nd_machines db
        else if dl_source_type d = 2 then nd_services db else [])"

definition rule_matches :: "notification_db \<Rightarrow> delivery \<Rightarrow> rule_row \<Rightarrow> bool" where
  "rule_matches db d rule \<longleftrightarrow>
     ru_workspace_id rule = dl_workspace_id d \<and>
     list_ex (\<lambda>w. nw_id w = ru_workspace_id rule \<and> nw_pk w = dl_source_workspace d \<and>
       nw_deleted_at w = None) (nd_workspaces db) \<and>
     ru_channel_id rule = dl_channel_id d \<and> ru_dimension rule = dl_dimension d \<and> ru_enabled rule = 1 \<and>
     ru_type rule = resourceType (dl_source_type d) \<and>
     (case source_resource db d of None \<Rightarrow> False | Some r \<Rightarrow> ru_resource_id rule = rs_id r)"

definition claimed_row :: "notification_db \<Rightarrow> string \<Rightarrow> delivery \<Rightarrow> claimed_delivery" where
  "claimed_row db token d =
     \<lparr>cv_id = dl_id d, cv_workspace_id = dl_workspace_id d, cv_channel_id = dl_channel_id d,
      cv_payload_json = dl_payload_json d, cv_attempt_count = dl_attempts d,
      cv_channel = find (\<lambda>c. ch_id c = dl_channel_id d \<and> ch_workspace_id c = dl_workspace_id d)
        (nd_channels db),
      rule_available = list_ex (rule_matches db d) (nd_rules db),
      cv_token = token\<rparr>"

definition claimDelivery ::
  "notification_db \<Rightarrow> string \<Rightarrow> string \<Rightarrow> millis \<Rightarrow> notification_db \<times> claimed_delivery option" where
  "claimDelivery db i token now =
     (let (t, changes) = claim_statement i token now (nd_deliveries db);
          db' = db\<lparr>nd_deliveries := t\<rparr>
      in if changes \<noteq> 1 then (db', None)
         else (db', map_option (claimed_row db' token)
           (find (\<lambda>d. dl_id d = i \<and> dl_claim_token d = Some token) t)))"

section \<open>Finishing\<close>

definition finished_row ::
  "claimed_delivery \<Rightarrow> delivery_result \<Rightarrow> millis \<Rightarrow> delivery \<Rightarrow> delivery" where
  "finished_row claimed r now d =
     (let sent = dr_ok r;
          dead = (\<not> sent \<and> (\<not> retryable r \<or> cv_attempt_count claimed \<ge> MAX_ATTEMPTS))
      in d\<lparr>dl_state := (if sent then Dl_sent else if dead then Dl_dead else Dl_pending),
           dl_next_attempt := (if sent \<or> dead then 0 else now + retryDelayMs (cv_attempt_count claimed)),
           dl_claim_token := None, dl_claim_until := None,
           dl_last_error := map_option (utf16_take 160) (dr_error r), dl_status := dr_status r,
           dl_updated_at := now, dl_sent_at := (if sent then Some now else None)\<rparr>)"

definition holds_delivery :: "claimed_delivery \<Rightarrow> delivery \<Rightarrow> bool" where
  "holds_delivery claimed d \<longleftrightarrow>
     dl_id d = cv_id claimed \<and> dl_state d = Dl_delivering \<and> dl_claim_token d = Some (cv_token claimed)"

definition finishDelivery ::
  "notification_db \<Rightarrow> claimed_delivery \<Rightarrow> delivery_result \<Rightarrow> millis \<Rightarrow> notification_db" where
  "finishDelivery db claimed r now =
     db\<lparr>nd_deliveries :=
       update_where (holds_delivery claimed) (finished_row claimed r now) (nd_deliveries db)\<rparr>"

definition unavailableResult :: "string \<Rightarrow> bool \<Rightarrow> delivery_result" where
  "unavailableResult error_text retry =
     \<lparr>dr_ok = False, retryable = retry, dr_status = None, dr_error = Some error_text\<rparr>"

section \<open>One delivery\<close>

text \<open>The parts of the platform that sending takes.\<close>

record sender =
  sn_platform :: platform
  sn_web :: web
  sn_notify :: notify_web
  sn_gcm :: aes_gcm
  sn_fetch :: "fetch_request \<Rightarrow> int attempt"

definition send_claimed :: "sender \<Rightarrow> string \<Rightarrow> claimed_delivery \<Rightarrow> delivery_result" where
  "send_claimed s wrappingKey claimed =
     (case cv_channel claimed of
        None \<Rightarrow> unavailableResult ''notification_channel_unavailable'' False
      | Some channel \<Rightarrow>
          if ch_enabled channel \<noteq> 1 \<or> ch_wrapping_key_id channel \<noteq> ''v1''
          then unavailableResult ''notification_channel_unavailable'' False
          else if \<not> rule_available claimed
          then unavailableResult ''notification_rule_unavailable'' False
          else
            (case bind_result
               (unwrapNotificationConfig (sn_platform s) (sn_notify s) (sn_gcm s)
                 \<lparr>wc_ciphertext = ch_config_ciphertext channel, wc_nonce = ch_config_nonce channel\<rparr>
                 wrappingKey (cv_workspace_id claimed) (cv_channel_id claimed))
               (\<lambda>config. case JSON_parse (sn_platform s) (cv_payload_json claimed) of
                  None \<Rightarrow> Inl JsEngineError
                | Some payload \<Rightarrow> Inr (sendNotification (sn_platform s) (sn_web s) (sn_notify s)
                    (sn_fetch s) (ch_provider channel) config payload)) of
               Inl e \<Rightarrow> unavailableResult ''notification_config_unavailable'' True
             | Inr r \<Rightarrow> r))"

datatype delivery_outcome = Outcome_sent | Outcome_failed | Outcome_skipped

text \<open>The two times are the values of the clock at the claim and at the end.\<close>

definition deliverOne ::
  "sender \<Rightarrow> (notification_db \<Rightarrow> notification_db) \<Rightarrow> notification_db \<Rightarrow> string \<Rightarrow> string \<Rightarrow> string \<Rightarrow>
   millis \<Rightarrow> millis \<Rightarrow> notification_db \<times> delivery_outcome" where
  "deliverOne s meanwhile db i wrappingKey token now finished_at =
     (case claimDelivery db i token now of
        (db', None) \<Rightarrow> (db', Outcome_skipped)
      | (db', Some claimed) \<Rightarrow>
          let r = send_claimed s wrappingKey claimed
          in (finishDelivery (meanwhile db') claimed r finished_at,
              if dr_ok r then Outcome_sent else Outcome_failed))"

section \<open>A run\<close>

record delivery_batch_result =
  attempted :: nat
  db_sent :: nat
  db_failed :: nat

definition delivery_order :: "delivery \<Rightarrow> millis \<times> millis \<times> string" where
  "delivery_order d = (dl_next_attempt d, dl_created_at d, dl_id d)"

definition delivery_candidates :: "notification_db \<Rightarrow> millis \<Rightarrow> string list" where
  "delivery_candidates db now =
     map dl_id (select_limit (due_delivery now) delivery_order DELIVERY_LIMIT (nd_deliveries db))"

text \<open>
  What the run takes from its surroundings for each candidate: its token, the two times, and the
  changes of others. The deliveries of a batch run side by side in the code and in order here.
\<close>

record candidate_env =
  ce_token :: string
  ce_now :: millis
  ce_finished_at :: millis
  ce_meanwhile :: "notification_db \<Rightarrow> notification_db"

fun deliver_batch ::
  "sender \<Rightarrow> string \<Rightarrow> (string \<Rightarrow> candidate_env) \<Rightarrow> string list \<Rightarrow> notification_db \<Rightarrow>
   notification_db \<times> delivery_outcome list" where
  "deliver_batch s wrappingKey env [] db = (db, [])"
| "deliver_batch s wrappingKey env (i # ids) db =
     (let e = env i;
          (db1, outcome) = deliverOne s (ce_meanwhile e) db i wrappingKey (ce_token e) (ce_now e)
            (ce_finished_at e);
          (db2, outcomes) = deliver_batch s wrappingKey env ids db1
      in (db2, outcome # outcomes))"

definition deliverNotificationOutbox ::
  "sender \<Rightarrow> notification_db \<Rightarrow> string \<Rightarrow> millis \<Rightarrow> (string \<Rightarrow> candidate_env) \<Rightarrow>
   notification_db \<times> delivery_batch_result" where
  "deliverNotificationOutbox s db wrappingKey now env =
     (let (db', sent, failed) =
            fold (\<lambda>batch (d, sent, failed).
              let (d', outcomes) = deliver_batch s wrappingKey env batch d
              in (d', sent + count_where (\<lambda>x. x = Outcome_sent) outcomes,
                  failed + count_where (\<lambda>x. x = Outcome_failed) outcomes))
            (chunks CONCURRENCY (delivery_candidates db now)) (db, 0, 0)
      in (db', \<lparr>attempted = sent + failed, db_sent = sent, db_failed = failed\<rparr>))"

text \<open>
  The scheduled run: discovery first, then delivery, each shielded from the failure of the other.
  Delivery itself does not throw.
\<close>

definition runScheduled_notifications ::
  "sender \<Rightarrow> (notification_db \<Rightarrow> notification_db) \<Rightarrow> (notification_db \<Rightarrow> notification_db) \<Rightarrow> string \<Rightarrow>
   notification_db \<Rightarrow> telemetry_db \<Rightarrow> millis \<Rightarrow> millis \<Rightarrow> (string \<Rightarrow> candidate_env) \<Rightarrow>
   notification_db \<times> telemetry_db \<times> unit result" where
  "runScheduled_notifications s before_init meanwhile wrappingKey control telemetry now now' env =
     (let ((control1, telemetry1), discovered) =
            discoverNotificationEvents (sn_platform s) before_init meanwhile control telemetry now;
          (control2, delivered) = deliverNotificationOutbox s control1 wrappingKey now' env;
          failures = (if isl discovered then 1 else 0)
      in (control2, telemetry1,
          if failures > (0 :: nat) then throw (''notification_tasks_failed:'' @ nat_to_string failures)
          else Inr ()))"

end
