(* ===== verification/Outbox_Correctness.thy ===== *)
theory Outbox_Correctness
  imports Outbox
begin

text \<open>
  Any number of workers on one outbox. A step of the system is a tick of the clock, a change of the
  other tables, a new delivery, a claim that succeeds or not, the end of a claim, or the death of the
  worker that holds one. The update and the read-back of \<open>claimDelivery\<close> are one step.
\<close>

record outbox_sys =
  os_db :: notification_db
  os_clock :: millis
  os_claims :: "claimed_delivery list"
  os_tokens :: "string list"
  os_log :: "string list"

definition fresh_delivery :: "delivery list \<Rightarrow> delivery \<Rightarrow> bool" where
  "fresh_delivery t d \<longleftrightarrow> dl_id d \<notin> set (map dl_id t) \<and> dl_state d = Dl_pending \<and>
     dl_attempts d = 0 \<and> dl_claim_token d = None"

text \<open>\<open>os_claims\<close> are the claims that workers hold, \<open>os_tokens\<close> the tokens drawn so far and \<open>os_log\<close> the ids
  of the deliveries that a worker was given to send, one entry for each time.\<close>

inductive outbox_step :: "outbox_sys \<Rightarrow> outbox_sys \<Rightarrow> bool" where
  tick: "os_clock s \<le> t \<Longrightarrow> outbox_step s (s\<lparr>os_clock := t\<rparr>)"
| others: "nd_deliveries db = nd_deliveries (os_db s) \<Longrightarrow> outbox_step s (s\<lparr>os_db := db\<rparr>)"
| enqueued: "fresh_delivery (nd_deliveries (os_db s)) d \<Longrightarrow>
    outbox_step s (s\<lparr>os_db := (os_db s)\<lparr>nd_deliveries := nd_deliveries (os_db s) @ [d]\<rparr>\<rparr>)"
| claimed: "token \<notin> set (os_tokens s) \<Longrightarrow>
    claimDelivery (os_db s) i token (os_clock s) = (db, Some c) \<Longrightarrow>
    outbox_step s (s\<lparr>os_db := db, os_claims := c # os_claims s, os_tokens := token # os_tokens s,
      os_log := i # os_log s\<rparr>)"
| refused: "token \<notin> set (os_tokens s) \<Longrightarrow>
    claimDelivery (os_db s) i token (os_clock s) = (db, None) \<Longrightarrow>
    outbox_step s (s\<lparr>os_db := db, os_tokens := token # os_tokens s\<rparr>)"
| finished: "c \<in> set (os_claims s) \<Longrightarrow>
    outbox_step s (s\<lparr>os_db := finishDelivery (os_db s) c r (os_clock s),
      os_claims := remove1 c (os_claims s)\<rparr>)"
| died: "c \<in> set (os_claims s) \<Longrightarrow> outbox_step s (s\<lparr>os_claims := remove1 c (os_claims s)\<rparr>)"

inductive outbox_reach :: "notification_db \<Rightarrow> millis \<Rightarrow> outbox_sys \<Rightarrow> bool" for db0 t0 where
  start: "nd_deliveries db0 = [] \<Longrightarrow> outbox_reach db0 t0
    \<lparr>os_db = db0, os_clock = t0, os_claims = [], os_tokens = [], os_log = []\<rparr>"
| step: "outbox_reach db0 t0 s \<Longrightarrow> outbox_step s s' \<Longrightarrow> outbox_reach db0 t0 s'"

inductive_cases outbox_step_elim: "outbox_step s s'"

section \<open>One claim\<close>

definition settled :: "delivery \<Rightarrow> bool" where
  "settled d \<longleftrightarrow> dl_state d = Dl_sent \<or> dl_state d = Dl_dead"

text \<open>The claim columns agree with the state, and the attempts stay within the limit.\<close>

definition delivery_ok :: "delivery \<Rightarrow> bool" where
  "delivery_ok d \<longleftrightarrow> 0 \<le> dl_attempts d \<and> dl_attempts d \<le> MAX_ATTEMPTS \<and>
     (dl_claim_token d \<noteq> None \<longleftrightarrow> dl_state d = Dl_delivering)"

lemma settled_not_due: "settled d \<Longrightarrow> \<not> due_delivery now d"
  by (auto simp: settled_def due_delivery_def)

lemma claim_row_simps [simp]:
  "dl_id (claim_row token now d) = dl_id d"
  "delivery_source (claim_row token now d) = delivery_source d"
  "dl_attempts (claim_row token now d) = min (dl_attempts d + 1) MAX_ATTEMPTS"
  "dl_claim_token (claim_row token now d) = (if dl_attempts d \<ge> MAX_ATTEMPTS then None else Some token)"
  "dl_state (claim_row token now d) = (if dl_attempts d \<ge> MAX_ATTEMPTS then Dl_dead else Dl_delivering)"
  by (simp_all add: claim_row_def Let_def delivery_source_def)

lemma finished_row_simps [simp]:
  "dl_id (finished_row c r now d) = dl_id d"
  "dl_attempts (finished_row c r now d) = dl_attempts d"
  "dl_claim_token (finished_row c r now d) = None"
  "dl_state (finished_row c r now d) = (if dr_ok r then Dl_sent
     else if \<not> retryable r \<or> cv_attempt_count c \<ge> MAX_ATTEMPTS then Dl_dead else Dl_pending)"
  by (simp_all add: finished_row_def Let_def)

lemma claim_row_ok: "delivery_ok d \<Longrightarrow> delivery_ok (claim_row token now d)"
  by (auto simp: delivery_ok_def MAX_ATTEMPTS_def)

lemma finished_row_ok: "delivery_ok d \<Longrightarrow> delivery_ok (finished_row c r now d)"
  by (auto simp: delivery_ok_def)

text \<open>A claim either finds nothing due, retires an exhausted delivery, or hands out the delivery.\<close>

lemma claimDelivery_cases:
  assumes "keyed dl_id (nd_deliveries db)"
    and "\<forall>d \<in> set (nd_deliveries db). dl_claim_token d \<noteq> Some token"
    and "claimDelivery db i token now = (db', c)"
  obtains (idle) "db' = db" "c = None"
      "\<forall>d \<in> set (nd_deliveries db). dl_id d = i \<longrightarrow> \<not> due_delivery now d"
    | (exhausted) d where "d \<in> set (nd_deliveries db)" "dl_id d = i" "due_delivery now d"
        "dl_attempts d \<ge> MAX_ATTEMPTS" "c = None"
        "db' = db\<lparr>nd_deliveries := update_where (\<lambda>x. dl_id x = i \<and> due_delivery now x)
           (claim_row token now) (nd_deliveries db)\<rparr>"
    | (given) d where "d \<in> set (nd_deliveries db)" "dl_id d = i" "due_delivery now d"
        "dl_attempts d < MAX_ATTEMPTS" "c = Some (claimed_row db' token (claim_row token now d))"
        "db' = db\<lparr>nd_deliveries := update_where (\<lambda>x. dl_id x = i \<and> due_delivery now x)
           (claim_row token now) (nd_deliveries db)\<rparr>"
proof -
  let ?t = "nd_deliveries db"
  let ?p = "\<lambda>x. dl_id x = i \<and> due_delivery now x"
  let ?t' = "update_where ?p (claim_row token now) ?t"
  show thesis
  proof (cases "\<exists>d \<in> set ?t. ?p d")
    case False
    then have "?t' = ?t" by (intro update_where_none) auto
    moreover have "count_where ?p ?t = 0" using False by (simp add: count_where_zero)
    ultimately have "claimDelivery db i token now = (db, None)"
      by (simp add: claimDelivery_def claim_statement_def)
    then show thesis using assms(3) False idle by auto
  next
    case True
    then obtain d where d: "d \<in> set ?t" "dl_id d = i" "due_delivery now d" by auto
    have "count_where ?p ?t \<noteq> 0" using d by (auto simp: count_where_zero)
    moreover have "count_where ?p ?t \<le> 1" by (rule count_where_key [OF assms(1)])
    ultimately have one: "count_where ?p ?t = 1" by linarith
    have keyed': "keyed dl_id ?t'" using assms(1) by (rule keyed_update_where) simp
    have c: "claimDelivery db i token now = (db\<lparr>nd_deliveries := ?t'\<rparr>,
        map_option (claimed_row (db\<lparr>nd_deliveries := ?t'\<rparr>) token)
          (find (\<lambda>d. dl_id d = i \<and> dl_claim_token d = Some token) ?t'))"
      using one by (simp add: claimDelivery_def claim_statement_def Let_def)
    have in': "claim_row token now d \<in> set ?t'"
      using d by (auto simp: set_update_where)
    show thesis
    proof (cases "dl_attempts d \<ge> MAX_ATTEMPTS")
      case True
      have "dl_claim_token x \<noteq> Some token" if "x \<in> set ?t'" "dl_id x = i" for x
      proof -
        have "x = claim_row token now d"
          using keyed_unique [OF keyed' that(1) in'] that(2) d(2) by simp
        then show ?thesis using True by simp
      qed
      then have "find (\<lambda>d. dl_id d = i \<and> dl_claim_token d = Some token) ?t' = None"
        by (auto simp: find_None_iff)
      then show thesis using c assms(3) d True exhausted by auto
    next
      case False
      have "find (\<lambda>d. dl_id d = i \<and> dl_claim_token d = Some token) ?t' = Some (claim_row token now d)"
      proof (cases "find (\<lambda>d. dl_id d = i \<and> dl_claim_token d = Some token) ?t'")
        case None
        then have "dl_claim_token (claim_row token now d) \<noteq> Some token"
          using in' d(2) unfolding find_None_iff by fastforce
        then show ?thesis using False by simp
      next
        case (Some x)
        then have "x \<in> set ?t'" "dl_id x = i"
          by (auto simp: find_Some_iff in_set_conv_nth)
        then show ?thesis
          using keyed_unique [OF keyed' _ in', of x] d(2) Some by simp
      qed
      then show thesis using c assms(3) d False given by (auto simp: not_le)
    qed
  qed
qed

section \<open>The invariant\<close>

definition outbox_inv :: "outbox_sys \<Rightarrow> bool" where
  "outbox_inv s \<longleftrightarrow> (let t = nd_deliveries (os_db s) in
     keyed dl_id t \<and>
     (\<forall>d \<in> set t. delivery_ok d \<and> dl_attempts d = int (count_list (os_log s) (dl_id d)) \<and>
        (\<forall>token. dl_claim_token d = Some token \<longrightarrow> token \<in> set (os_tokens s))) \<and>
     (\<forall>i. i \<notin> set (map dl_id t) \<longrightarrow> count_list (os_log s) i = 0) \<and>
     (\<forall>c \<in> set (os_claims s). cv_token c \<in> set (os_tokens s) \<and>
        (\<forall>d \<in> set t. holds_delivery c d \<longrightarrow> cv_attempt_count c = dl_attempts d)) \<and>
     distinct (map cv_token (os_claims s)))"

lemma outbox_invD:
  assumes "outbox_inv s"
  shows "keyed dl_id (nd_deliveries (os_db s))"
    and "d \<in> set (nd_deliveries (os_db s)) \<Longrightarrow> delivery_ok d"
    and "d \<in> set (nd_deliveries (os_db s)) \<Longrightarrow> dl_attempts d = int (count_list (os_log s) (dl_id d))"
    and "d \<in> set (nd_deliveries (os_db s)) \<Longrightarrow> dl_claim_token d = Some token \<Longrightarrow>
      token \<in> set (os_tokens s)"
    and "i \<notin> set (map dl_id (nd_deliveries (os_db s))) \<Longrightarrow> count_list (os_log s) i = 0"
    and "c \<in> set (os_claims s) \<Longrightarrow> cv_token c \<in> set (os_tokens s)"
    and "c \<in> set (os_claims s) \<Longrightarrow> d \<in> set (nd_deliveries (os_db s)) \<Longrightarrow> holds_delivery c d \<Longrightarrow>
      cv_attempt_count c = dl_attempts d"
    and "distinct (map cv_token (os_claims s))"
  using assms by (auto simp: outbox_inv_def Let_def)

lemma outbox_invI:
  assumes "keyed dl_id (nd_deliveries (os_db s))"
    and "\<And>d. d \<in> set (nd_deliveries (os_db s)) \<Longrightarrow> delivery_ok d \<and>
      dl_attempts d = int (count_list (os_log s) (dl_id d)) \<and>
      (\<forall>token. dl_claim_token d = Some token \<longrightarrow> token \<in> set (os_tokens s))"
    and "\<And>i. i \<notin> set (map dl_id (nd_deliveries (os_db s))) \<Longrightarrow> count_list (os_log s) i = 0"
    and "\<And>c. c \<in> set (os_claims s) \<Longrightarrow> cv_token c \<in> set (os_tokens s)"
    and "\<And>c d. c \<in> set (os_claims s) \<Longrightarrow> d \<in> set (nd_deliveries (os_db s)) \<Longrightarrow> holds_delivery c d \<Longrightarrow>
      cv_attempt_count c = dl_attempts d"
    and "distinct (map cv_token (os_claims s))"
  shows "outbox_inv s"
  unfolding outbox_inv_def Let_def using assms by blast

lemma fresh_token:
  "outbox_inv s \<Longrightarrow> token \<notin> set (os_tokens s) \<Longrightarrow>
    \<forall>d \<in> set (nd_deliveries (os_db s)). dl_claim_token d \<noteq> Some token"
  using outbox_invD(4) by blast

lemma inv_claimed:
  assumes inv: "outbox_inv s" and token: "token \<notin> set (os_tokens s)"
    and c: "claimDelivery (os_db s) i token (os_clock s) = (db, Some c)"
  shows "outbox_inv (s\<lparr>os_db := db, os_claims := c # os_claims s, os_tokens := token # os_tokens s,
    os_log := i # os_log s\<rparr>)"
  using outbox_invD(1) [OF inv] fresh_token [OF inv token] c
proof (cases rule: claimDelivery_cases)
  case (given d)
  let ?t = "nd_deliveries (os_db s)"
  note inv' = outbox_invD [OF inv]
  have row: "x \<in> set ?t \<and> dl_id x \<noteq> i \<or> x = claim_row token (os_clock s) d"
    if "x \<in> set (nd_deliveries db)" for x
  proof -
    obtain y where y: "y \<in> set ?t"
        "x = (if dl_id y = i \<and> due_delivery (os_clock s) y then claim_row token (os_clock s) y else y)"
      using \<open>x \<in> set (nd_deliveries db)\<close> unfolding given(6) by (auto elim: in_update_where)
    show ?thesis
      using y keyed_unique [OF inv'(1) y(1) given(1)] given(2,3) by (cases "dl_id y = i") auto
  qed
  have c_eq: "cv_token c = token" "cv_id c = i"
      "cv_attempt_count c = dl_attempts (claim_row token (os_clock s) d)"
    using given(2,5) by (simp_all add: claimed_row_def)
  have ids: "map dl_id (nd_deliveries db) = map dl_id ?t"
    unfolding given(6) by (simp add: map_update_where)
  let ?s = "s\<lparr>os_db := db, os_claims := c # os_claims s, os_tokens := token # os_tokens s,
    os_log := i # os_log s\<rparr>"
  show ?thesis
  proof (rule outbox_invI)
    show "keyed dl_id (nd_deliveries (os_db ?s))" using inv'(1) ids by (simp add: keyed_def)
  next
    fix x assume "x \<in> set (nd_deliveries (os_db ?s))"
    then have "x \<in> set (nd_deliveries db)" by simp
    from row [OF this] consider "x \<in> set ?t" "dl_id x \<noteq> i" | "x = claim_row token (os_clock s) d"
      by blast
    then show "delivery_ok x \<and> dl_attempts x = int (count_list (os_log ?s) (dl_id x)) \<and>
        (\<forall>t. dl_claim_token x = Some t \<longrightarrow> t \<in> set (os_tokens ?s))"
    proof cases
      case 1
      then have "delivery_ok x" "dl_attempts x = int (count_list (os_log s) (dl_id x))"
        "\<forall>t. dl_claim_token x = Some t \<longrightarrow> t \<in> set (os_tokens s)"
        using inv'(2-4) by blast+
      with 1 show ?thesis by simp
    next
      case 2
      have "delivery_ok x" unfolding 2 by (rule claim_row_ok [OF inv'(2) [OF given(1)]])
      moreover have "dl_attempts x = 1 + int (count_list (os_log s) i)"
        using inv'(3) [OF given(1)] given(2,4) 2 by simp
      ultimately show ?thesis using 2 given(2,4) by simp
    qed
  next
    fix j assume "j \<notin> set (map dl_id (nd_deliveries (os_db ?s)))"
    then have "j \<notin> set (map dl_id ?t)" using ids by simp
    then show "count_list (os_log ?s) j = 0"
      using inv'(5) given(1,2) by auto
  next
    fix e assume "e \<in> set (os_claims ?s)"
    then show "cv_token e \<in> set (os_tokens ?s)" using inv'(6) c_eq by auto
  next
    fix e x assume "e \<in> set (os_claims ?s)" "x \<in> set (nd_deliveries (os_db ?s))" "holds_delivery e x"
    then have e: "e = c \<or> e \<in> set (os_claims s)" "x \<in> set (nd_deliveries db)" "holds_delivery e x"
      by simp_all
    then have tok: "dl_claim_token x = Some (cv_token e)" by (simp add: holds_delivery_def)
    show "cv_attempt_count e = dl_attempts x"
    proof (cases "x = claim_row token (os_clock s) d")
      case True
      then have "cv_token e = token" using tok given(4) by simp
      then have "e = c" using e(1) inv'(6) [of e] token by blast
      then show ?thesis using c_eq(3) True by simp
    next
      case False
      then have "x \<in> set ?t" using row [OF e(2)] by blast
      moreover from this have "cv_token e \<in> set (os_tokens s)" using inv'(4) tok by blast
      then have "e \<in> set (os_claims s)" using e(1) c_eq(1) token by auto
      ultimately show ?thesis using inv'(7) e(3) by blast
    qed
  next
    show "distinct (map cv_token (os_claims ?s))"
      using inv'(6,8) c_eq token by auto
  qed
qed simp_all

lemma inv_refused:
  assumes inv: "outbox_inv s" and token: "token \<notin> set (os_tokens s)"
    and c: "claimDelivery (os_db s) i token (os_clock s) = (db, None)"
  shows "outbox_inv (s\<lparr>os_db := db, os_tokens := token # os_tokens s\<rparr>)"
  using outbox_invD(1) [OF inv] fresh_token [OF inv token] c
proof (cases rule: claimDelivery_cases)
  case idle
  then show ?thesis using outbox_invD [OF inv] by (intro outbox_invI) auto
next
  case (exhausted d)
  let ?t = "nd_deliveries (os_db s)"
  note inv' = outbox_invD [OF inv]
  have row: "x \<in> set ?t \<or> x = claim_row token (os_clock s) d"
    if "x \<in> set (nd_deliveries db)" for x
  proof -
    obtain y where y: "y \<in> set ?t"
        "x = (if dl_id y = i \<and> due_delivery (os_clock s) y then claim_row token (os_clock s) y else y)"
      using \<open>x \<in> set (nd_deliveries db)\<close> unfolding exhausted(6) by (auto elim: in_update_where)
    show ?thesis
      using y keyed_unique [OF inv'(1) y(1) exhausted(1)] exhausted(2,3) by (cases "dl_id y = i") auto
  qed
  have full: "dl_attempts d = MAX_ATTEMPTS"
    using inv'(2) [OF exhausted(1)] exhausted(4) by (simp add: delivery_ok_def)
  have ids: "map dl_id (nd_deliveries db) = map dl_id ?t"
    unfolding exhausted(6) by (simp add: map_update_where)
  show ?thesis
  proof (rule outbox_invI; simp)
    show "keyed dl_id (nd_deliveries db)" using inv'(1) ids by (simp add: keyed_def)
  next
    fix x assume "x \<in> set (nd_deliveries db)"
    from row [OF this] show "delivery_ok x \<and> dl_attempts x = int (count_list (os_log s) (dl_id x)) \<and>
        (\<forall>t. dl_claim_token x = Some t \<longrightarrow> t = token \<or> t \<in> set (os_tokens s))"
      using inv'(2-4) exhausted(1,4) claim_row_ok full by auto
  next
    fix j assume "j \<notin> dl_id ` set (nd_deliveries db)"
    then have "j \<notin> set (map dl_id ?t)" using ids by (metis set_map)
    then show "count_list (os_log s) j = 0" using inv'(5) by auto
  next
    fix e assume "e \<in> set (os_claims s)"
    then show "cv_token e = token \<or> cv_token e \<in> set (os_tokens s)" using inv'(6) by auto
  next
    fix e x assume e: "e \<in> set (os_claims s)" "x \<in> set (nd_deliveries db)" "holds_delivery e x"
    then show "cv_attempt_count e = dl_attempts x"
      using row [OF e(2)] inv'(7) exhausted(4) by (auto simp: holds_delivery_def)
  next
    show "distinct (map cv_token (os_claims s))" by (rule inv'(8))
  qed
qed simp_all

lemma inv_finished:
  assumes inv: "outbox_inv s"
  shows "outbox_inv (s\<lparr>os_db := finishDelivery (os_db s) c r (os_clock s),
      os_claims := remove1 c (os_claims s)\<rparr>)"
proof -
  let ?t = "nd_deliveries (os_db s)"
  let ?u = "nd_deliveries (finishDelivery (os_db s) c r (os_clock s))"
  note inv' = outbox_invD [OF inv]
  have row: "x \<in> set ?t \<or> (\<exists>y \<in> set ?t. x = finished_row c r (os_clock s) y)" if "x \<in> set ?u" for x
  proof -
    have "x \<in> set (update_where (holds_delivery c) (finished_row c r (os_clock s)) ?t)"
      using that by (simp add: finishDelivery_def)
    then obtain y where "y \<in> set ?t"
        "x = (if holds_delivery c y then finished_row c r (os_clock s) y else y)"
      by (rule in_update_where)
    then show ?thesis by (cases "holds_delivery c y") auto
  qed
  have ids: "map dl_id ?u = map dl_id ?t"
    by (simp add: finishDelivery_def map_update_where)
  show ?thesis
  proof (rule outbox_invI; simp)
    show "keyed dl_id ?u" using inv'(1) ids by (simp add: keyed_def)
  next
    fix x assume "x \<in> set ?u"
    from row [OF this] consider "x \<in> set ?t" |
        y where "y \<in> set ?t" "x = finished_row c r (os_clock s) y" by blast
    then show "delivery_ok x \<and> dl_attempts x = int (count_list (os_log s) (dl_id x)) \<and>
        (\<forall>t. dl_claim_token x = Some t \<longrightarrow> t \<in> set (os_tokens s))"
    proof cases
      case 1
      then show ?thesis using inv'(2-4) by blast
    next
      case (2 y)
      have "delivery_ok x" unfolding 2(2) by (rule finished_row_ok [OF inv'(2) [OF 2(1)]])
      then show ?thesis using inv'(3) [OF 2(1)] 2(2) by simp
    qed
  next
    fix j assume "j \<notin> dl_id ` set ?u"
    then have "j \<notin> set (map dl_id ?t)" using ids by (metis set_map)
    then show "count_list (os_log s) j = 0" using inv'(5) by auto
  next
    fix e assume "e \<in> set (remove1 c (os_claims s))"
    then have "e \<in> set (os_claims s)" by (rule subsetD [OF set_remove1_subset])
    then show "cv_token e \<in> set (os_tokens s)" by (rule inv'(6))
  next
    fix e x assume e: "e \<in> set (remove1 c (os_claims s))" "x \<in> set ?u" "holds_delivery e x"
    then have "dl_claim_token x \<noteq> None" by (simp add: holds_delivery_def)
    then have "x \<in> set ?t" using row [OF e(2)] by auto
    moreover have "e \<in> set (os_claims s)" using e(1) by (rule subsetD [OF set_remove1_subset])
    ultimately show "cv_attempt_count e = dl_attempts x" using inv'(7) e(3) by blast
  next
    show "distinct (map cv_token (remove1 c (os_claims s)))"
      using inv'(8) by (auto simp: distinct_map intro: inj_on_subset dest: notin_set_remove1)
  qed
qed

lemma inv_enqueued:
  assumes inv: "outbox_inv s" and d: "fresh_delivery (nd_deliveries (os_db s)) d"
  shows "outbox_inv (s\<lparr>os_db := (os_db s)\<lparr>nd_deliveries := nd_deliveries (os_db s) @ [d]\<rparr>\<rparr>)"
proof (rule outbox_invI; simp)
  note inv' = outbox_invD [OF inv]
  show "keyed dl_id (nd_deliveries (os_db s) @ [d])"
    using inv'(1) d by (auto simp: keyed_def fresh_delivery_def)
  fix x assume "x = d \<or> x \<in> set (nd_deliveries (os_db s))"
  then show "delivery_ok x \<and> dl_attempts x = int (count_list (os_log s) (dl_id x)) \<and>
      (\<forall>token. dl_claim_token x = Some token \<longrightarrow> token \<in> set (os_tokens s))"
    using inv'(2-5) d by (auto simp: delivery_ok_def fresh_delivery_def MAX_ATTEMPTS_def)
next
  fix c x assume "c \<in> set (os_claims s)" "x = d \<or> x \<in> set (nd_deliveries (os_db s))" "holds_delivery c x"
  then show "cv_attempt_count c = dl_attempts x"
    using outbox_invD(7) [OF inv] d by (auto simp: holds_delivery_def fresh_delivery_def)
qed (use outbox_invD [OF inv] in auto)

lemma inv_step:
  assumes "outbox_inv s" "outbox_step s s'"
  shows "outbox_inv s'"
  using assms(2)
proof (cases rule: outbox_step.cases)
  case (died c)
  have "outbox_inv s" by (rule assms(1))
  moreover have "distinct (map cv_token (remove1 c (os_claims s)))"
    using outbox_invD(8) [OF assms(1)]
    by (auto simp: distinct_map intro: inj_on_subset dest: notin_set_remove1)
  ultimately show ?thesis
    unfolding died outbox_inv_def Let_def using set_remove1_subset [of c "os_claims s"] by auto
next
  case (claimed token i db c)
  then show ?thesis using inv_claimed [OF assms(1)] by simp
next
  case (refused token i db)
  then show ?thesis using inv_refused [OF assms(1)] by simp
next
  case (finished c r)
  then show ?thesis using inv_finished [OF assms(1)] by simp
next
  case (enqueued d)
  then show ?thesis using inv_enqueued [OF assms(1)] by simp
qed (use assms(1) in \<open>simp_all add: outbox_inv_def\<close>)

lemma inv_reach: "outbox_reach db0 t0 s \<Longrightarrow> outbox_inv s"
proof (induction rule: outbox_reach.induct)
  case start
  then show ?case by (simp add: outbox_inv_def)
qed (rule inv_step)

section \<open>Properties of the outbox\<close>

lemma same_token:
  assumes "outbox_inv s" "c \<in> set (os_claims s)" "c' \<in> set (os_claims s)"
    and "holds_delivery c d" "holds_delivery c' d"
  shows "c = c'"
  using outbox_invD(8) [OF assms(1)] assms(2-5)
  by (auto simp: holds_delivery_def distinct_map dest: inj_onD)

lemma claim_keeps:
  assumes "outbox_inv s" "token \<notin> set (os_tokens s)"
    and "claimDelivery (os_db s) i token (os_clock s) = (db, r)"
    and "d \<in> set (nd_deliveries (os_db s))" "\<not> due_delivery (os_clock s) d"
  shows "d \<in> set (nd_deliveries db)"
  using outbox_invD(1) [OF assms(1)] fresh_token [OF assms(1,2)] assms(3)
  by (cases rule: claimDelivery_cases) (use assms(4,5) in \<open>auto simp: set_update_where\<close>)

text \<open>What a step leaves of a row that is not due and not held by a claim that ends.\<close>

lemma step_keeps:
  assumes inv: "outbox_inv s" and step: "outbox_step s s'"
    and d: "d \<in> set (nd_deliveries (os_db s))" "\<not> due_delivery (os_clock s) d"
    and held: "\<And>c. c \<in> set (os_claims s) \<Longrightarrow> holds_delivery c d \<Longrightarrow> c \<in> set (os_claims s')"
  shows "d \<in> set (nd_deliveries (os_db s'))"
  using step
proof (cases rule: outbox_step.cases)
  case (finished c r)
  have "c \<notin> set (remove1 c (os_claims s))"
    using outbox_invD(8) [OF inv] by (simp add: distinct_map)
  then have "\<not> holds_delivery c d" using held [of c] finished by auto
  then show ?thesis
    using d(1) by (auto simp: finished finishDelivery_def set_update_where)
qed (use claim_keeps [OF inv _ _ d] d(1) in auto)

section \<open>A run of two workers\<close>

definition sample_outbox_db :: notification_db where
  "sample_outbox_db = \<lparr>nd_workspaces = [], nd_machines = [], nd_services = [], nd_channels = [],
     nd_rules = [], nd_deliveries = [], nd_cursors = []\<rparr>"

definition sample_delivery :: delivery where
  "sample_delivery = \<lparr>dl_id = ''d'', dl_workspace_id = ''w'', dl_channel_id = ''c'', dl_source_workspace = 1,
     dl_source_type = 1, dl_source_pk = 7, dl_source_at = 0, dl_source_event = ''AB'',
     dl_dimension = Availability, dl_payload_json = ''{}'', dl_state = Dl_pending, dl_attempts = 0,
     dl_next_attempt = 0, dl_claim_token = None, dl_claim_until = None, dl_last_error = None,
     dl_status = None, dl_created_at = 0, dl_updated_at = 0, dl_sent_at = None\<rparr>"

definition sample_held :: delivery where
  "sample_held = claim_row ''t'' 0 sample_delivery"

definition sample_held_db :: notification_db where
  "sample_held_db = sample_outbox_db\<lparr>nd_deliveries := [sample_held]\<rparr>"

definition sample_claim :: claimed_delivery where
  "sample_claim = claimed_row sample_held_db ''t'' sample_held"

definition sample_sys :: outbox_sys where
  "sample_sys = \<lparr>os_db = sample_held_db, os_clock = 0, os_claims = [sample_claim], os_tokens = [''t''],
     os_log = [''d'']\<rparr>"

lemma sample_claimed:
  "claimDelivery (sample_outbox_db\<lparr>nd_deliveries := [sample_delivery]\<rparr>) ''d'' ''t'' 0 =
    (sample_held_db, Some sample_claim)"
  by code_simp

lemma sample_refused: "claimDelivery sample_held_db ''d'' ''u'' 0 = (sample_held_db, None)"
  by code_simp

lemma sample_reach: "outbox_reach sample_outbox_db 0 sample_sys"
proof -
  let ?s0 = "\<lparr>os_db = sample_outbox_db, os_clock = 0, os_claims = [], os_tokens = [], os_log = []\<rparr>"
  let ?s1 = "?s0\<lparr>os_db := sample_outbox_db\<lparr>nd_deliveries := [sample_delivery]\<rparr>\<rparr>"
  have "outbox_reach sample_outbox_db 0 ?s0"
    by (rule outbox_reach.start) (simp add: sample_outbox_db_def)
  moreover have "outbox_step ?s0 ?s1"
    using outbox_step.enqueued [of ?s0 sample_delivery]
    by (simp add: sample_outbox_db_def sample_delivery_def fresh_delivery_def)
  ultimately have "outbox_reach sample_outbox_db 0 ?s1" by (rule outbox_reach.step)
  moreover have "outbox_step ?s1 sample_sys"
    using outbox_step.claimed [of "''t''" ?s1 "''d''" sample_held_db sample_claim] sample_claimed
    by (simp add: sample_sys_def)
  ultimately show ?thesis by (rule outbox_reach.step)
qed

lemma sample_holds: "holds_delivery sample_claim sample_held"
  by code_simp

lemma sample_rows: "sample_held \<in> set (nd_deliveries (os_db sample_sys))"
  "sample_claim \<in> set (os_claims sample_sys)" "dl_id sample_held = cv_id sample_claim"
  by (simp_all add: sample_sys_def sample_held_db_def sample_held_def sample_claim_def claimed_row_def)

text \<open>
  C15. A delivery is handed to a worker at most six times, whatever the workers do: in every reachable
  state of any number of workers that claim, finish, lose and abandon claims, the deliveries given out
  for one id are as many as the row's attempt count, which stays within \<open>MAX_ATTEMPTS\<close>, and the claim
  columns of every row agree with its state.
\<close>

theorem outbox_attempts_bounded:
  assumes "outbox_reach db0 t0 s"
  shows "count_list (os_log s) i \<le> 6 \<and> list_all delivery_ok (nd_deliveries (os_db s))"
proof -
  note inv = outbox_invD [OF inv_reach [OF assms]]
  have "count_list (os_log s) i \<le> 6"
  proof (cases "i \<in> set (map dl_id (nd_deliveries (os_db s)))")
    case True
    then obtain d where d: "d \<in> set (nd_deliveries (os_db s))" "dl_id d = i" by auto
    then have "int (count_list (os_log s) i) \<le> 6"
      using inv(2,3) [OF d(1)] by (simp add: delivery_ok_def MAX_ATTEMPTS_def)
    then show ?thesis by linarith
  qed (simp add: inv(5))
  then show ?thesis using inv(2) by (simp add: list_all_iff)
qed

theorem outbox_attempts_bounded_witness:
  "count_list (os_log sample_sys) ''d'' = 1 \<and> count_list (os_log sample_sys) ''d'' \<le> 6"
  using outbox_attempts_bounded [OF sample_reach, of "''d''"] by (simp add: sample_sys_def)

text \<open>
  C16. A claim is exclusive until its deadline, and a settled delivery never changes: a step of the
  system leaves a row as it is when the row is sent or dead, and also when a worker holds its claim,
  keeps it over the step, and the clock has not reached the deadline. No other claim holds that row.
\<close>

theorem outbox_claim_exclusive:
  assumes "outbox_reach db0 t0 s" "outbox_step s s'" "d \<in> set (nd_deliveries (os_db s))"
    and "settled d \<or>
      (\<exists>c \<in> set (os_claims s) \<inter> set (os_claims s'). holds_delivery c d \<and>
        (\<exists>u. dl_claim_until d = Some u \<and> os_clock s < u))"
  shows "d \<in> set (nd_deliveries (os_db s')) \<and>
    (\<forall>c \<in> set (os_claims s). \<forall>c' \<in> set (os_claims s). holds_delivery c d \<longrightarrow> holds_delivery c' d \<longrightarrow> c = c')"
proof -
  have inv: "outbox_inv s" using assms(1) by (rule inv_reach)
  have "d \<in> set (nd_deliveries (os_db s'))"
    using assms(4)
  proof
    assume "settled d"
    then show ?thesis
      using step_keeps [OF inv assms(2,3)] settled_not_due
      by (auto simp: settled_def holds_delivery_def)
  next
    assume "\<exists>c \<in> set (os_claims s) \<inter> set (os_claims s'). holds_delivery c d \<and>
        (\<exists>u. dl_claim_until d = Some u \<and> os_clock s < u)"
    then obtain c u where c: "c \<in> set (os_claims s)" "c \<in> set (os_claims s')" "holds_delivery c d"
        "dl_claim_until d = Some u" "os_clock s < u" by auto
    then have "\<not> due_delivery (os_clock s) d"
      by (simp add: due_delivery_def holds_delivery_def)
    then show ?thesis
      using step_keeps [OF inv assms(2,3)] same_token [OF inv c(1)] c(2,3) by blast
  qed
  then show ?thesis using same_token [OF inv] by blast
qed

theorem outbox_claim_exclusive_witness:
  "sample_held \<in> set (nd_deliveries (os_db (sample_sys\<lparr>os_tokens := [''u'', ''t'']\<rparr>)))"
proof -
  have "outbox_step sample_sys (sample_sys\<lparr>os_tokens := [''u'', ''t'']\<rparr>)"
    using outbox_step.refused [of "''u''" sample_sys "''d''" sample_held_db] sample_refused
    by (simp add: sample_sys_def)
  moreover have "dl_claim_until sample_held = Some 30000" by code_simp
  ultimately show ?thesis
    using outbox_claim_exclusive [OF sample_reach _ sample_rows(1),
        of "sample_sys\<lparr>os_tokens := [''u'', ''t'']\<rparr>"] sample_rows(2) sample_holds
    by (auto simp: sample_sys_def)
qed

text \<open>
  What the end of a claim does: the worker that holds the claim marks the delivery sent when the
  provider accepted it, dead when the failure is final or the attempts are used up, and otherwise
  pending again after a delay that doubles with each attempt, between one and sixteen minutes. A worker
  whose claim was taken over changes nothing.
\<close>

theorem outbox_finish_outcome:
  assumes "outbox_reach db0 t0 s" "c \<in> set (os_claims s)" "d \<in> set (nd_deliveries (os_db s))"
    and "dl_id d = cv_id c"
  shows "if holds_delivery c d
    then (\<exists>d' \<in> set (nd_deliveries (finishDelivery (os_db s) c r now)).
      dl_id d' = dl_id d \<and> dl_claim_token d' = None \<and>
      (if dr_ok r then dl_state d' = Dl_sent \<and> dl_sent_at d' = Some now
       else if \<not> retryable r \<or> dl_attempts d = 6 then dl_state d' = Dl_dead
       else dl_state d' = Dl_pending \<and>
         dl_next_attempt d' = now + 60000 * 2 ^ nat (dl_attempts d - 1) \<and>
         now + 60000 \<le> dl_next_attempt d' \<and> dl_next_attempt d' \<le> now + 960000))
    else finishDelivery (os_db s) c r now = os_db s"
proof -
  note inv = outbox_invD [OF inv_reach [OF assms(1)]]
  show ?thesis
  proof (cases "holds_delivery c d")
    case False
    have "\<not> holds_delivery c x" if "x \<in> set (nd_deliveries (os_db s))" for x
      using keyed_unique [OF inv(1) that assms(3)] False assms(4) by (auto simp: holds_delivery_def)
    then have "update_where (holds_delivery c) (finished_row c r now) (nd_deliveries (os_db s)) =
        nd_deliveries (os_db s)"
      by (rule update_where_none)
    then show ?thesis using False by (simp add: finishDelivery_def)
  next
    case True
    let ?d = "finished_row c r now d"
    have a: "cv_attempt_count c = dl_attempts d" using inv(7) [OF assms(2,3) True] .
    have ok: "0 \<le> dl_attempts d" "dl_attempts d \<le> 6"
      using inv(2) [OF assms(3)] by (simp_all add: delivery_ok_def MAX_ATTEMPTS_def)
    have delay: "60000 \<le> retryDelayMs n \<and> retryDelayMs n \<le> 960000 \<and>
        retryDelayMs n = 60000 * 2 ^ nat (n - 1)" if "0 \<le> n" "n < 6" for n
    proof -
      have "n \<in> {0, 1, 2, 3, 4, 5}" using that by auto
      then show ?thesis by (auto simp: retryDelayMs_def)
    qed
    have "?d \<in> set (nd_deliveries (finishDelivery (os_db s) c r now))"
      using assms(3) True by (auto simp: finishDelivery_def set_update_where)
    moreover have "dr_ok r \<Longrightarrow> dl_sent_at ?d = Some now" by (simp add: finished_row_def)
    moreover have "dl_next_attempt ?d = now + retryDelayMs (dl_attempts d)"
      if "\<not> dr_ok r" "retryable r" "dl_attempts d \<noteq> 6"
      using that a ok by (simp add: finished_row_def MAX_ATTEMPTS_def)
    ultimately show ?thesis
      using True a ok delay [of "dl_attempts d"]
      by (intro if_P [THEN iffD2, OF True] bexI [of _ ?d]) (auto simp: MAX_ATTEMPTS_def)
  qed
qed

theorem outbox_finish_outcome_witness:
  "list_ex (\<lambda>d. dl_state d = Dl_pending \<and> dl_next_attempt d = 61000)
     (nd_deliveries (finishDelivery (os_db sample_sys) sample_claim (resultForResponse 503) 1000))"
proof -
  have "\<not> dr_ok (resultForResponse 503)" "retryable (resultForResponse 503)" "dl_attempts sample_held = 1"
    by code_simp+
  then show ?thesis
    using outbox_finish_outcome [OF sample_reach sample_rows(2,1,3), of "resultForResponse 503" 1000]
      sample_holds
    by (auto simp: list_ex_iff)
qed

end
