(* ===== verification/Discovery_Correctness.thy ===== *)
theory Discovery_Correctness
  imports Outbox_Correctness
begin

text \<open>
  Discovery loses no event and notifies none twice: every queued event behind the cursor is in the outbox
  for each matching rule or still queued after a run, deliveries are only added, at most one for a
  channel and an event, and a run that throws leaves the cursor and the queue as they were.
\<close>

section \<open>Keys as texts\<close>

lemma upper_digit_colon: "upper_digit n \<noteq> CHR '':''"
proof -
  have "upper_digit n \<in> set ''0123456789ABCDEF''"
    unfolding upper_digit_def by (rule nth_mem) simp
  then show ?thesis by auto
qed

lemma sql_hex_colon: "CHR '':'' \<notin> set (sql_hex bytes)"
  using upper_digit_colon by (auto simp: sql_hex_def) metis+

lemma type_text_colon: "CHR '':'' \<notin> set (type_text t)"
  by (cases t) auto

lemma dimension_text_colon: "CHR '':'' \<notin> set (dimension_text d)"
  by (cases d) auto

lemma type_text_inj: "type_text a = type_text b \<longleftrightarrow> a = b"
  by (cases a; cases b) auto

lemma dimension_text_inj: "dimension_text a = dimension_text b \<longleftrightarrow> a = b"
  by (cases a; cases b) auto

lemma split_first_colon:
  assumes "a @ CHR '':'' # b = a' @ CHR '':'' # b'" "CHR '':'' \<notin> set a" "CHR '':'' \<notin> set a'"
  shows "a = a' \<and> b = b'"
  using split_last_colon [of "rev b" "rev a" "rev b'" "rev a'"] assms
  by (metis rev.simps(2) rev_append rev_rev_ident append.assoc append_Cons append_Nil set_rev)

lemma resourceKey_inj: "resourceKey t w r = resourceKey t' w' r' \<longleftrightarrow> t = t' \<and> w = w' \<and> r = r'"
proof
  assume "resourceKey t w r = resourceKey t' w' r'"
  then have "type_text t @ CHR '':'' # (int_to_string w @ CHR '':'' # int_to_string r) =
      type_text t' @ CHR '':'' # (int_to_string w' @ CHR '':'' # int_to_string r')"
    by (simp add: resourceKey_def)
  from split_first_colon [OF this type_text_colon type_text_colon]
  have t: "t = t'" and
    "int_to_string w @ CHR '':'' # int_to_string r = int_to_string w' @ CHR '':'' # int_to_string r'"
    by (simp_all add: type_text_inj)
  from split_first_colon [OF this(2) int_to_string_colon int_to_string_colon]
  show "t = t' \<and> w = w' \<and> r = r'" using t int_to_string_inj by blast
qed simp

lemma ruleKey_inj:
  assumes "CHR '':'' \<notin> set w" "CHR '':'' \<notin> set w'"
  shows "ruleKey w t r d = ruleKey w' t' r' d' \<longleftrightarrow> w = w' \<and> t = t' \<and> r = r' \<and> d = d'"
proof
  assume "ruleKey w t r d = ruleKey w' t' r' d'"
  then have "w @ CHR '':'' # (type_text t @ CHR '':'' # (r @ CHR '':'' # dimension_text d)) =
      w' @ CHR '':'' # (type_text t' @ CHR '':'' # (r' @ CHR '':'' # dimension_text d'))"
    by (simp add: ruleKey_def)
  from split_first_colon [OF this assms]
  have w: "w = w'" and "type_text t @ CHR '':'' # (r @ CHR '':'' # dimension_text d) =
      type_text t' @ CHR '':'' # (r' @ CHR '':'' # dimension_text d')"
    by simp_all
  from split_first_colon [OF this(2) type_text_colon type_text_colon]
  have t: "t = t'" and "r @ CHR '':'' # dimension_text d = r' @ CHR '':'' # dimension_text d'"
    by (simp_all add: type_text_inj)
  from split_last_colon [OF this(2) dimension_text_colon dimension_text_colon]
  show "w = w' \<and> t = t' \<and> r = r' \<and> d = d'" using w t by (simp add: dimension_text_inj)
qed simp

text \<open>The identity that is hashed determines the source key, when the event text holds no colon.\<close>

lemma identity_text_inj:
  assumes "identity_text (c, w, t, r, a, e) = identity_text (c', w', t', r', a', e')"
    and "CHR '':'' \<notin> set e" "CHR '':'' \<notin> set e'"
  shows "(c, w, t, r, a, e) = (c', w', t', r', a', e')"
proof -
  note num = int_to_string_colon int_to_string_colon
  let ?p = "\<lambda>c w t r a. (((c @ CHR '':'' # int_to_string w) @ CHR '':'' # int_to_string t) @
    CHR '':'' # int_to_string r) @ CHR '':'' # int_to_string a"
  have "?p c w t r a @ CHR '':'' # e = ?p c' w' t' r' a' @ CHR '':'' # e'"
    using assms(1) by (simp add: identity_text_def)
  then have e: "e = e'" and "?p c w t r a = ?p c' w' t' r' a'"
    using split_last_colon [OF _ assms(2,3)] by blast+
  from split_last_colon [OF this(2) num] have a: "int_to_string a = int_to_string a'"
    and "((c @ CHR '':'' # int_to_string w) @ CHR '':'' # int_to_string t) @ CHR '':'' # int_to_string r =
      ((c' @ CHR '':'' # int_to_string w') @ CHR '':'' # int_to_string t') @ CHR '':'' # int_to_string r'"
    by simp_all
  from split_last_colon [OF this(2) num] have r: "int_to_string r = int_to_string r'"
    and "(c @ CHR '':'' # int_to_string w) @ CHR '':'' # int_to_string t =
      (c' @ CHR '':'' # int_to_string w') @ CHR '':'' # int_to_string t'"
    by simp_all
  from split_last_colon [OF this(2) num] have t: "int_to_string t = int_to_string t'"
    and "c @ CHR '':'' # int_to_string w = c' @ CHR '':'' # int_to_string w'"
    by simp_all
  from split_last_colon [OF this(2) num] have "int_to_string w = int_to_string w'" "c = c'"
    by simp_all
  with a r t e show ?thesis by (simp add: int_to_string_inj)
qed

section \<open>The page of events\<close>

definition wf_telemetry :: "telemetry_db \<Rightarrow> bool" where
  "wf_telemetry db \<longleftrightarrow> keyed qe_sequence (td_queue db) \<and> keyed event_key (td_state_events db)"

lemma queued_rows_iff:
  "r \<in> set (queued_rows db) \<longleftrightarrow>
    (\<exists>q \<in> set (td_queue db). qe_sequence q = se_sequence r \<and> queue_joins q (se_event r) \<and>
      se_event r \<in> set (td_state_events db))"
  by (cases r) (auto simp: queued_rows_def)

lemma queued_rows_unique:
  assumes "wf_telemetry db" "r \<in> set (queued_rows db)" "r' \<in> set (queued_rows db)"
    and "se_sequence r = se_sequence r'"
  shows "r = r'"
proof -
  obtain q q' where q: "q \<in> set (td_queue db)" "qe_sequence q = se_sequence r" "queue_joins q (se_event r)"
      "se_event r \<in> set (td_state_events db)" "q' \<in> set (td_queue db)" "qe_sequence q' = se_sequence r'"
      "queue_joins q' (se_event r')" "se_event r' \<in> set (td_state_events db)"
    using assms(2,3) by (auto simp: queued_rows_iff)
  have "q = q'"
    using assms(1,4) q by (intro keyed_unique [of qe_sequence "td_queue db"]) (auto simp: wf_telemetry_def)
  then have "event_key (se_event r) = event_key (se_event r')"
    using q by (simp add: queue_joins_def)
  then have "se_event r = se_event r'"
    using assms(1) q by (intro keyed_unique [of event_key "td_state_events db"]) (auto simp: wf_telemetry_def)
  with assms(4) show ?thesis by (cases r; cases r') simp
qed

lemma page_complete:
  assumes "wf_telemetry db" "r \<in> set (queued_rows db)" "last_sequence cursor < se_sequence r"
    and "se_sequence r \<le> se_sequence (last (loadEvents db cursor))" "loadEvents db cursor \<noteq> []"
  shows "r \<in> set (loadEvents db cursor)"
proof (rule ccontr)
  assume out: "r \<notin> set (loadEvents db cursor)"
  let ?l = "last (loadEvents db cursor)"
  have l: "?l \<in> set (loadEvents db cursor)" using assms(5) by simp
  then have "se_sequence ?l \<le> se_sequence r"
    using select_limit_oldest [of ?l "\<lambda>r. se_sequence r > last_sequence cursor" se_sequence EVENT_LIMIT
        "queued_rows db" r] assms(2,3) out
    by (simp add: loadEvents_def)
  then have "se_sequence r = se_sequence ?l" using assms(4) by simp
  moreover have "?l \<in> set (queued_rows db)"
    using l set_select_limit unfolding loadEvents_def by fastforce
  ultimately have "r = ?l" using queued_rows_unique [OF assms(1,2)] by blast
  with l out show False by simp
qed

section \<open>Lookups\<close>

lemma fold_upd_absent:
  "(\<And>x. x \<in> set xs \<Longrightarrow> k x \<noteq> key) \<Longrightarrow> fold (\<lambda>x m. m(k x \<mapsto> v x)) xs m key = m key"
  by (induction xs arbitrary: m) auto

lemma fold_upd_unique:
  assumes "x \<in> set xs" "\<And>y. y \<in> set xs \<Longrightarrow> k y = k x \<Longrightarrow> v y = v x"
  shows "fold (\<lambda>x m. m(k x \<mapsto> v x)) xs m (k x) = Some (v x)"
  using assms
proof (induction xs arbitrary: m rule: rev_induct)
  case (snoc y ys)
  show ?case
  proof (cases "k y = k x")
    case True
    then have "v y = v x" using snoc.prems(2) [of y] by simp
    with True show ?thesis by simp
  next
    case False
    then have x: "x \<in> set ys" using snoc.prems(1) by auto
    have "fold (\<lambda>x m. m(k x \<mapsto> v x)) ys m (k x) = Some (v x)"
    proof (rule snoc.IH [OF x])
      fix z assume "z \<in> set ys" "k z = k x"
      then show "v z = v x" by (intro snoc.prems(2)) auto
    qed
    moreover have "k x \<noteq> k y" using False by simp
    ultimately show ?thesis by (simp del: fun_upd_apply add: fun_upd_other)
  qed
qed simp

lemma fold_upd_values:
  assumes "fold (\<lambda>x m. m(kf x \<mapsto> v x)) xs m k = Some r"
  shows "m k = Some r \<or> r \<in> v ` set xs"
  using assms by (induction xs arbitrary: m) (fastforce split: if_splits)+

text \<open>The names that the resource columns refer to, with the unique telemetry keys.\<close>

definition wf_resources :: "notification_db \<Rightarrow> bool" where
  "wf_resources db \<longleftrightarrow> keyed rs_pk (nd_machines db) \<and> keyed rs_pk (nd_services db) \<and>
     keyed nw_pk (nd_workspaces db) \<and> list_all (\<lambda>w. CHR '':'' \<notin> set (nw_id w)) (nd_workspaces db)"

definition resource_table :: "notification_db \<Rightarrow> notified_type \<Rightarrow> resource_row list" where
  "resource_table db type = (case type of Machine_resource \<Rightarrow> nd_machines db | Service_resource \<Rightarrow> nd_services db)"

text \<open>The resource of an event, as the rows say it.\<close>

definition names_resource ::
  "notification_db \<Rightarrow> state_event \<Rightarrow> resource_row \<Rightarrow> named_workspace \<Rightarrow> bool" where
  "names_resource db event r w \<longleftrightarrow>
     r \<in> set (resource_table db (resourceType (ev_type event))) \<and> w \<in> set (nd_workspaces db) \<and>
     rs_pk r = ev_resource_pk event \<and> rs_deleted_at r = None \<and> rs_workspace_id r = nw_id w \<and>
     nw_pk w = ev_workspace event \<and> nw_deleted_at w = None"

lemma set_loadResourceRows:
  "(r, w) \<in> set (loadResourceRows db table pks) \<longleftrightarrow>
    r \<in> set table \<and> rs_pk r \<in> set pks \<and> rs_deleted_at r = None \<and>
    w \<in> set (nd_workspaces db) \<and> nw_id w = rs_workspace_id r \<and> nw_deleted_at w = None"
  by (auto simp: loadResourceRows_def)

lemma set_js_set [simp]: "set (js_set xs) = set xs"
  by (simp add: js_set_def)

lemma resource_row_unique:
  assumes "wf_resources db" "p \<in> set (loadResourceRows db (resource_table db t) pks)"
    and "p' \<in> set (loadResourceRows db (resource_table db t) pks)"
    and "resourceKey t (nw_pk (snd p)) (rs_pk (fst p)) = resourceKey t (nw_pk (snd p')) (rs_pk (fst p'))"
  shows "p = p'"
proof -
  obtain r w r' w' where p: "p = (r, w)" "p' = (r', w')" by (cases p; cases p') auto
  have "keyed rs_pk (resource_table db t)" "keyed nw_pk (nd_workspaces db)"
    using assms(1) by (cases t; simp add: wf_resources_def resource_table_def)+
  moreover have "r \<in> set (resource_table db t)" "r' \<in> set (resource_table db t)"
      "w \<in> set (nd_workspaces db)" "w' \<in> set (nd_workspaces db)" "rs_pk r = rs_pk r'" "nw_pk w = nw_pk w'"
    using assms(2-4) by (auto simp: p set_loadResourceRows resourceKey_inj)
  ultimately show ?thesis unfolding p by (metis keyed_unique)
qed

lemma resolve_unfold:
  "resolveResources db events =
    fold (\<lambda>p m. m(resourceKey Service_resource (nw_pk (snd p)) (rs_pk (fst p)) \<mapsto>
        resolved_of Service_resource (fst p) (snd p)))
      (loadResourceRows db (resource_table db Service_resource)
        (js_set (map ev_resource_pk (filter (\<lambda>e. ev_type e = 2) events))))
      (fold (\<lambda>p m. m(resourceKey Machine_resource (nw_pk (snd p)) (rs_pk (fst p)) \<mapsto>
        resolved_of Machine_resource (fst p) (snd p)))
      (loadResourceRows db (resource_table db Machine_resource)
        (js_set (map ev_resource_pk (filter (\<lambda>e. ev_type e = 1) events)))) Map.empty)"
  unfolding resolveResources_def Let_def resource_table_def
  by (simp add: case_prod_beta')

lemma resolved_event:
  assumes "wf_resources db" "names_resource db e r w" "e \<in> set events" "ev_type e = 1 \<or> ev_type e = 2"
  shows "resolveResources db events (resourceKey (resourceType (ev_type e)) (ev_workspace e) (ev_resource_pk e)) =
    Some (resolved_of (resourceType (ev_type e)) r w)"
proof -
  let ?t = "resourceType (ev_type e)"
  let ?pks = "js_set (map ev_resource_pk (filter (\<lambda>x. ev_type x = ev_type e) events))"
  let ?xs = "loadResourceRows db (resource_table db ?t) ?pks"
  let ?k = "\<lambda>p. resourceKey ?t (nw_pk (snd p)) (rs_pk (fst p))"
  have p: "(r, w) \<in> set ?xs" "?k (r, w) = resourceKey ?t (ev_workspace e) (ev_resource_pk e)"
    using assms(2,3) by (auto simp: set_loadResourceRows names_resource_def)
  have "fold (\<lambda>p m. m(?k p \<mapsto> resolved_of ?t (fst p) (snd p))) ?xs m (?k (r, w)) =
      Some (resolved_of ?t (fst (r, w)) (snd (r, w)))" for m
    using p(1) resource_row_unique [OF assms(1) _ p(1)]
    by (intro fold_upd_unique [of "(r, w)" ?xs ?k "\<lambda>p. resolved_of ?t (fst p) (snd p)"]) blast+
  then have hit: "fold (\<lambda>p m. m(?k p \<mapsto> resolved_of ?t (fst p) (snd p))) ?xs m
      (resourceKey ?t (ev_workspace e) (ev_resource_pk e)) = Some (resolved_of ?t r w)" for m
    unfolding p(2) by simp
  show ?thesis
  proof (cases "ev_type e = 1")
    case True
    then show ?thesis
      using hit unfolding resolve_unfold
      by (subst fold_upd_absent) (auto simp: resourceType_def resourceKey_inj)
  next
    case False
    then have "ev_type e = 2" using assms(4) by simp
    then show ?thesis using hit unfolding resolve_unfold by (simp add: resourceType_def)
  qed
qed

section \<open>The rules of an event\<close>

text \<open>\<open>r\<close> is a rule that the event must be delivered for: active, and on the event's resource.\<close>

definition rule_for :: "notification_db \<Rightarrow> state_event \<Rightarrow> rule_row \<Rightarrow> bool" where
  "rule_for db event r \<longleftrightarrow> r \<in> set (nd_rules db) \<and> rule_active db r \<and>
     (\<exists>res w. names_resource db event res w \<and>
       rule_request_of r = (nw_id w, resourceType (ev_type event), rs_id res, dimensionForEvent event))"

definition workspace_names :: "notification_db \<Rightarrow> string set" where
  "workspace_names db = nw_id ` set (nd_workspaces db)"

lemma resolved_workspace:
  "resolveResources db events k = Some r \<Longrightarrow> workspaceId r \<in> workspace_names db"
proof -
  assume "resolveResources db events k = Some r"
  then have "\<exists>t pks. \<exists>p \<in> set (loadResourceRows db (resource_table db t) pks). r = resolved_of t (fst p) (snd p)"
    unfolding resolve_unfold by (auto dest!: fold_upd_values)
  then obtain t pks a b where "(a, b) \<in> set (loadResourceRows db (resource_table db t) pks)"
      "r = resolved_of t a b" by auto
  then show ?thesis
    by (metis (no_types, lifting) imageI resolved_of_def resolved_resource.select_convs(4)
        set_loadResourceRows workspace_names_def)
qed

lemma request_key_inj:
  assumes "CHR '':'' \<notin> set (fst q)" "CHR '':'' \<notin> set (fst q')"
  shows "request_key q = request_key q' \<longleftrightarrow> q = q'"
  using ruleKey_inj [OF assms] by (cases q; cases q') (simp add: request_key_def)

lemma requested_fold:
  assumes "\<And>e r q. e \<in> set events \<Longrightarrow> event_resource res e = Some (r, q) \<Longrightarrow> CHR '':'' \<notin> set (fst q)"
    and q0: "CHR '':'' \<notin> set (fst q0)"
  shows "map_of (fold (\<lambda>event requested. case event_resource res event of None \<Rightarrow> requested
      | Some (r, q) \<Rightarrow> AList.update (request_key q) q requested) events acc) (request_key q0) =
    (if \<exists>e \<in> set events. \<exists>r. event_resource res e = Some (r, q0)
     then Some q0 else map_of acc (request_key q0))"
  using assms(1)
proof (induction events arbitrary: acc)
  case (Cons e es)
  have IH: "map_of (fold (\<lambda>event requested. case event_resource res event of None \<Rightarrow> requested
      | Some (r, q) \<Rightarrow> AList.update (request_key q) q requested) es a) (request_key q0) =
    (if \<exists>e \<in> set es. \<exists>r. event_resource res e = Some (r, q0)
     then Some q0 else map_of a (request_key q0))" for a
    by (rule Cons.IH) (erule Cons.prems [OF list.set_intros(2)])
  show ?case
  proof (cases "event_resource res e")
    case None
    then show ?thesis by (simp add: IH)
  next
    case (Some p)
    obtain r q where p: "p = (r, q)" by (cases p) auto
    have "CHR '':'' \<notin> set (fst q)" using Cons.prems [of e r q] Some p by simp
    then have "request_key q0 = request_key q \<longleftrightarrow> q0 = q" using request_key_inj q0 by blast
    then show ?thesis using Some p by (auto simp: IH update_conv)
  qed
qed simp

lemma requested_complete:
  assumes "event_resource res e = Some (r, q)" "e \<in> set events" "CHR '':'' \<notin> set (fst q)"
    and "\<And>e r q. e \<in> set events \<Longrightarrow> event_resource res e = Some (r, q) \<Longrightarrow> CHR '':'' \<notin> set (fst q)"
  shows "q \<in> set (map snd (requested_rules res events))"
proof -
  have "map_of (requested_rules res events) (request_key q) = Some q"
    using requested_fold [of events res q "[]"] assms unfolding requested_rules_def by auto
  then show ?thesis by (force dest: map_of_SomeD)
qed

definition in_group :: "rule_row \<Rightarrow> (string \<rightharpoonup> rule_row list) \<Rightarrow> bool" where
  "in_group r rules \<longleftrightarrow>
     (case rules (request_key (rule_request_of r)) of None \<Rightarrow> False | Some found \<Rightarrow> r \<in> set found)"

lemma in_group_same: "in_group r (add_rule r rules)"
  by (simp add: in_group_def add_rule_def Let_def)

lemma in_group_other: "in_group r rules \<Longrightarrow> in_group r (add_rule x rules)"
proof -
  assume r: "in_group r rules"
  show ?thesis
  proof (cases "request_key (rule_request_of x) = request_key (rule_request_of r)")
    case True
    obtain found where "rules (request_key (rule_request_of r)) = Some found" "r \<in> set found"
      using r by (auto simp: in_group_def split: option.split_asm)
    then show ?thesis using True by (simp add: in_group_def add_rule_def Let_def)
  next
    case False
    then show ?thesis using r by (simp add: in_group_def add_rule_def Let_def)
  qed
qed

lemma in_group_fold: "in_group r rules \<or> r \<in> set rows \<Longrightarrow> in_group r (fold add_rule rows rules)"
proof (induction rows arbitrary: rules)
  case (Cons x rows)
  then have "in_group r (add_rule x rules) \<or> r \<in> set rows"
    using in_group_same in_group_other by auto
  then show ?case using Cons.IH by simp
qed simp

lemma load_batches_complete:
  assumes "load_rule_batches db batches matched rules = Inr result"
    and "in_group r rules \<or> (r \<in> set (nd_rules db) \<and> rule_active db r \<and>
      (\<exists>b \<in> set batches. rule_request_of r \<in> set b))"
  shows "in_group r result"
  using assms
proof (induction batches arbitrary: matched rules)
  case (Cons b bs)
  let ?rows = "matched_rules db b (MAX_MATCHED_RULES - matched + 1)"
  let ?all = "concat (map (\<lambda>q. filter (\<lambda>r. rule_request_of r = q) (nd_rules db)) b)"
  have ok: "matched + length ?rows \<le> MAX_MATCHED_RULES"
    and rest: "load_rule_batches db bs (matched + length ?rows) (fold add_rule ?rows rules) = Inr result"
    using Cons.prems(1) by (auto simp: Let_def throw_def split: if_splits)
  have "length (filter (rule_active db) ?all) \<le> MAX_MATCHED_RULES - matched"
    using ok by (simp add: matched_rules_def min_def split: if_splits)
  then have "set ?rows = set (filter (rule_active db) ?all)"
    by (simp add: matched_rules_def select_limit_def)
  then have "r \<in> set ?rows" if "r \<in> set (nd_rules db)" "rule_active db r" "rule_request_of r \<in> set b"
    using that by auto
  then have "in_group r (fold add_rule ?rows rules) \<or> (r \<in> set (nd_rules db) \<and> rule_active db r \<and>
      (\<exists>b \<in> set bs. rule_request_of r \<in> set b))"
    using Cons.prems(2) in_group_fold by auto
  then show ?case by (rule Cons.IH [OF rest])
qed simp

lemma prepared_for_rule:
  assumes wf: "wf_resources db" and rules: "loadRules db (resolveResources db events) events = Inr rules"
    and e: "e \<in> set events" "ev_type e = 1 \<or> ev_type e = 2" and r: "rule_for db e r"
  shows "\<exists>d \<in> set (prepareDeliveries pf events (resolveResources db events) rules).
    di_channelId d = ru_channel_id r \<and> di_event d = e \<and>
    di_id d = digestId pf (identity_text (source_of (ru_channel_id r) e))"
proof -
  let ?res = "resolveResources db events"
  obtain row w where row: "names_resource db e row w"
      "rule_request_of r = (nw_id w, resourceType (ev_type e), rs_id row, dimensionForEvent e)"
      "r \<in> set (nd_rules db)" "rule_active db r"
    using r by (auto simp: rule_for_def)
  let ?r = "resolved_of (resourceType (ev_type e)) row w"
  let ?d = "\<lparr>di_id = digestId pf (identity_text (source_of (ru_channel_id r) e)),
    di_workspaceId = workspaceId ?r, di_channelId = ru_channel_id r, di_event = e,
    di_dimension = dimensionForEvent e,
    di_payload = notification_payload ?r (resourceType (ev_type e)) (dimensionForEvent e) e\<rparr>"
  have res: "event_resource ?res e = Some (?r, rule_request_of r)"
    using resolved_event [OF wf row(1) e] row(1,2)
    by (simp add: event_resource_def resolved_of_def names_resource_def Let_def)
  have colon: "CHR '':'' \<notin> set (fst q)" if "event_resource ?res x = Some (y, q)" for x y q
  proof -
    have "\<exists>k. ?res k = Some y \<and> fst q = workspaceId y"
      using that by (auto simp: event_resource_def Let_def)
    then have "fst q \<in> workspace_names db" using resolved_workspace by metis
    then show ?thesis using wf by (auto simp: wf_resources_def workspace_names_def list_all_iff)
  qed
  have "rule_request_of r \<in> set (map snd (requested_rules ?res events))"
    using requested_complete [OF res e(1) colon [OF res]] colon by blast
  then have "\<exists>b \<in> set (chunks RULE_KEY_BATCH (map snd (requested_rules ?res events))).
      rule_request_of r \<in> set b"
    using set_chunks [of RULE_KEY_BATCH "map snd (requested_rules ?res events)"]
    by (auto simp: RULE_KEY_BATCH_def)
  then have "in_group r rules"
    using load_batches_complete rules row(3,4) unfolding loadRules_def by blast
  then obtain found where "rules (request_key (rule_request_of r)) = Some found" "r \<in> set found"
    by (auto simp: in_group_def split: option.splits)
  then have "?d \<in> set (prepare_event pf ?res rules e)"
    by (simp add: prepare_event_def res)
  then have "?d \<in> set (prepareDeliveries pf events ?res rules)"
    using e(1) by (auto simp: prepareDeliveries_def)
  then show ?thesis by (rule bexI [rotated]) simp
qed

section \<open>The insertions\<close>

text \<open>The id of a delivery is the digest of its source, whose event part is a hexadecimal text.\<close>

definition delivery_addressed :: "platform \<Rightarrow> delivery \<Rightarrow> bool" where
  "delivery_addressed pf d \<longleftrightarrow>
     dl_id d = digestId pf (identity_text (delivery_source d)) \<and> CHR '':'' \<notin> set (dl_source_event d)"

text \<open>The same, for an identity of a given set, on which the digest is collision free.\<close>

definition addressed_within :: "platform \<Rightarrow> string set \<Rightarrow> delivery \<Rightarrow> bool" where
  "addressed_within pf ids d \<longleftrightarrow> delivery_addressed pf d \<and> identity_text (delivery_source d) \<in> ids"

definition untouched :: "delivery \<Rightarrow> bool" where
  "untouched d \<longleftrightarrow> dl_state d = Dl_pending \<and> dl_attempts d = 0 \<and> dl_claim_token d = None"

lemma inserted_simps [simp]:
  "delivery_source (inserted_delivery pf now d) = source_of (di_channelId d) (di_event d)"
  "dl_id (inserted_delivery pf now d) = di_id d"
  "untouched (inserted_delivery pf now d)"
  "CHR '':'' \<notin> set (dl_source_event (inserted_delivery pf now d))"
  by (simp_all add: inserted_delivery_def Let_def delivery_source_def source_of_def untouched_def sql_hex_colon)

lemma insert_delivery_cases:
  assumes "insert_delivery db d t = Inr t'"
  obtains "t' = t" "has_key dl_id (dl_id d) t \<or> has_key delivery_source (delivery_source d) t"
    | "t' = t @ [d]" "\<not> has_key dl_id (dl_id d) t" "\<not> has_key delivery_source (delivery_source d) t"
  using assms by (auto simp: insert_delivery_def throw_def split: if_splits)

lemma insert_batch_grows:
  assumes "insert_batch db ds t = Inr t'"
  shows "\<exists>new. t' = t @ new \<and> set new \<subseteq> set ds \<and> (wf_deliveries t \<longrightarrow> wf_deliveries t')"
  using assms
proof (induction ds arbitrary: t)
  case (Cons d ds)
  obtain u where u: "insert_delivery db d t = Inr u" "insert_batch db ds u = Inr t'"
    using Cons.prems by (auto elim: bind_result_InrE)
  obtain new where new: "t' = u @ new" "set new \<subseteq> set ds" "wf_deliveries u \<longrightarrow> wf_deliveries t'"
    using Cons.IH [OF u(2)] by blast
  from u(1) show ?case
  proof (cases rule: insert_delivery_cases)
    case 1
    then show ?thesis using new by auto
  next
    case 2
    then have "wf_deliveries t \<longrightarrow> wf_deliveries u"
      by (auto simp: wf_deliveries_def keyed_def has_key_def)
    moreover have "t' = t @ d # new" using 2(1) new(1) by simp
    ultimately show ?thesis using new(2,3) by (intro exI [of _ "d # new"]) auto
  qed
qed simp

text \<open>
  The addresses of the deliveries make the two keys of \<open>INSERT OR IGNORE\<close> agree: what is ignored is
  already there.
\<close>

lemma insert_batch_covers:
  assumes inj: "inj_on (digestId pf) S"
    and "insert_batch db ds t = Inr t'" "list_all (addressed_within pf S) t"
    and "list_all (addressed_within pf S) ds" "d \<in> set ds"
  shows "has_key delivery_source (delivery_source d) t'"
  using assms(2-5)
proof (induction ds arbitrary: t)
  case (Cons x ds)
  obtain u where u: "insert_delivery db x t = Inr u" "insert_batch db ds u = Inr t'"
    using Cons.prems(1) by (auto elim: bind_result_InrE)
  have addressed: "list_all (addressed_within pf S) u"
    using u(1) Cons.prems(2,3) by (cases rule: insert_delivery_cases) auto
  have has: "has_key delivery_source (delivery_source x) u"
    using u(1)
  proof (cases rule: insert_delivery_cases)
    case 1
    show ?thesis
    proof (cases "has_key dl_id (dl_id x) t")
      case True
      then obtain y where y: "y \<in> set t" "dl_id y = dl_id x" by (auto simp: has_key_def)
      have "addressed_within pf S y" "addressed_within pf S x"
        using y(1) Cons.prems(2,3) by (auto simp: list_all_iff)
      then have "identity_text (delivery_source y) = identity_text (delivery_source x)"
          "CHR '':'' \<notin> set (dl_source_event y)" "CHR '':'' \<notin> set (dl_source_event x)"
        using y(2) inj by (auto simp: addressed_within_def delivery_addressed_def dest: inj_onD)
      then have "delivery_source y = delivery_source x"
        unfolding delivery_source_def by (rule identity_text_inj)
      then show ?thesis using y(1) 1 unfolding has_key_def by (metis imageI set_map)
    qed (use 1 in simp)
  qed (simp add: has_key_def)
  show ?case
  proof (cases "d = x")
    case True
    then show ?thesis using has insert_batch_grows [OF u(2)] by (auto simp: has_key_def)
  next
    case False
    then show ?thesis using Cons.IH [OF u(2) addressed] Cons.prems(3,4) by simp
  qed
qed simp

lemma persist_grows:
  assumes "persist_batches batches db = (db', r)"
  shows "\<exists>new. db' = db\<lparr>nd_deliveries := nd_deliveries db @ new\<rparr> \<and> set new \<subseteq> \<Union> (set ` set batches) \<and>
    (wf_deliveries (nd_deliveries db) \<longrightarrow> wf_deliveries (nd_deliveries db'))"
  using assms
proof (induction batches arbitrary: db)
  case Nil
  then show ?case by (intro exI [of _ "[]"]) simp
next
  case (Cons b bs)
  show ?case
  proof (cases "insert_batch db b (nd_deliveries db)")
    case (Inl e)
    then show ?thesis using Cons.prems by (intro exI [of _ "[]"]) simp
  next
    case (Inr t)
    obtain new1 where n1: "t = nd_deliveries db @ new1" "set new1 \<subseteq> set b"
        "wf_deliveries (nd_deliveries db) \<longrightarrow> wf_deliveries t"
      using insert_batch_grows [OF Inr] by blast
    obtain new2 where n2: "db' = (db\<lparr>nd_deliveries := t\<rparr>)\<lparr>nd_deliveries := t @ new2\<rparr>"
        "set new2 \<subseteq> \<Union> (set ` set bs)" "wf_deliveries t \<longrightarrow> wf_deliveries (nd_deliveries db')"
      using Cons.IH [of "db\<lparr>nd_deliveries := t\<rparr>"] Cons.prems Inr by auto
    show ?thesis
      using n1 n2 by (intro exI [of _ "new1 @ new2"]) auto
  qed
qed

lemma persist_covers:
  assumes inj: "inj_on (digestId pf) S"
    and "persist_batches batches db = (db', Inr u)" "list_all (addressed_within pf S) (nd_deliveries db)"
    and "\<And>b. b \<in> set batches \<Longrightarrow> list_all (addressed_within pf S) b"
    and "b \<in> set batches" "d \<in> set b"
  shows "has_key delivery_source (delivery_source d) (nd_deliveries db')"
  using assms(2-6)
proof (induction batches arbitrary: db)
  case (Cons x xs)
  obtain t where t: "insert_batch db x (nd_deliveries db) = Inr t"
      "persist_batches xs (db\<lparr>nd_deliveries := t\<rparr>) = (db', Inr u)"
    using Cons.prems(1) by (auto split: sum.splits)
  obtain new where new: "t = nd_deliveries db @ new" "set new \<subseteq> set x"
    using insert_batch_grows [OF t(1)] by blast
  have addressed: "list_all (addressed_within pf S) t"
    using new Cons.prems(2) Cons.prems(3) [of x] by (auto simp: list_all_iff)
  show ?case
  proof (cases "d \<in> set x")
    case True
    then have "has_key delivery_source (delivery_source d) t"
      using insert_batch_covers [OF inj t(1) Cons.prems(2)] Cons.prems(3) [of x] by simp
    then show ?thesis using persist_grows [OF t(2)] by (auto simp: has_key_def)
  next
    case False
    then show ?thesis
      using Cons.IH [OF t(2)] addressed Cons.prems(3-5) by auto
  qed
qed simp

section \<open>The identities of a run\<close>

text \<open>
  What a run hashes: the sources of the deliveries that it finds in the outbox, and of those that it may
  add. The digest is assumed collision free on this finite set alone.
\<close>

definition run_identities :: "telemetry_db \<Rightarrow> notification_db \<Rightarrow> notification_db \<Rightarrow> string set" where
  "run_identities telemetry rules_db outbox = identity_text `
     (delivery_source ` set (nd_deliveries outbox) \<union>
      (\<lambda>(r, e). source_of (ru_channel_id r) e) ` (set (nd_rules rules_db) \<times> set (td_state_events telemetry)))"

lemma load_batches_known:
  assumes "load_rule_batches db batches matched rules = Inr result"
    and "\<And>k found. rules k = Some found \<Longrightarrow> set found \<subseteq> set (nd_rules db)"
    and "result k = Some found"
  shows "set found \<subseteq> set (nd_rules db)"
  using assms
proof (induction batches arbitrary: matched rules)
  case (Cons b bs)
  let ?rows = "matched_rules db b (MAX_MATCHED_RULES - matched + 1)"
  have rest: "load_rule_batches db bs (matched + length ?rows) (fold add_rule ?rows rules) = Inr result"
    using Cons.prems(1) by (auto simp: Let_def throw_def split: if_splits)
  have rows: "set ?rows \<subseteq> set (nd_rules db)"
    using set_select_limit unfolding matched_rules_def by fastforce
  have grouped: "set found \<subseteq> set (nd_rules db)"
    if "set rs \<subseteq> set (nd_rules db)" "fold add_rule rs g k = Some found"
      and "\<And>k found. g k = Some found \<Longrightarrow> set found \<subseteq> set (nd_rules db)" for rs g k found
    using that
  proof (induction rs arbitrary: g)
    case (Cons r rs)
    have "set f \<subseteq> set (nd_rules db)" if "add_rule r g k' = Some f" for k' f
      using that Cons.prems(1,3) by (auto simp: add_rule_def Let_def split: if_splits option.splits) blast+
    then show ?case using Cons.IH [of "add_rule r g"] Cons.prems(1,2) by simp
  qed auto
  show ?case by (rule Cons.IH [OF rest grouped [OF rows] Cons.prems(3)]) (use Cons.prems(2) in auto)
qed simp

lemma prepared_known:
  assumes "loadRules db res events = Inr rules" "d \<in> set (prepareDeliveries pf events res rules)"
  obtains rule where "rule \<in> set (nd_rules db)" "di_channelId d = ru_channel_id rule"
    "di_event d \<in> set events" "di_id d = digestId pf (identity_text (source_of (di_channelId d) (di_event d)))"
proof -
  obtain e where e: "e \<in> set events" "d \<in> set (prepare_event pf res rules e)"
    using assms(2) by (auto simp: prepareDeliveries_def)
  obtain r q where rq: "event_resource res e = Some (r, q)"
    using e(2) by (cases "event_resource res e") (auto simp: prepare_event_def)
  obtain found where found: "rules (request_key q) = Some found"
    using e(2) rq by (cases "rules (request_key q)") (auto simp: prepare_event_def)
  then obtain rule where "rule \<in> set found" "di_channelId d = ru_channel_id rule" "di_event d = e"
      "di_id d = digestId pf (identity_text (source_of (ru_channel_id rule) e))"
    using e(2) rq by (auto simp: prepare_event_def)
  moreover have "set found \<subseteq> set (nd_rules db)"
    using load_batches_known [OF assms(1) [unfolded loadRules_def]] found by simp
  ultimately show thesis using e(1) by (intro that) auto
qed

lemma page_event: "e \<in> set (map se_event (loadEvents db cursor)) \<Longrightarrow> e \<in> set (td_state_events db)"
  using set_select_limit [of "\<lambda>r. se_sequence r > last_sequence cursor" se_sequence EVENT_LIMIT "queued_rows db"]
  by (auto simp: loadEvents_def queued_rows_iff)

lemma inserted_within:
  assumes "loadRules db res (map se_event (loadEvents telemetry cursor)) = Inr rules"
    and "d \<in> set (prepareDeliveries pf (map se_event (loadEvents telemetry cursor)) res rules)"
  shows "addressed_within pf (run_identities telemetry db outbox) (inserted_delivery pf now d)"
proof -
  obtain rule where r: "rule \<in> set (nd_rules db)" "di_channelId d = ru_channel_id rule"
      "di_event d \<in> set (map se_event (loadEvents telemetry cursor))"
      "di_id d = digestId pf (identity_text (source_of (di_channelId d) (di_event d)))"
    using prepared_known [OF assms] by metis
  have "(rule, di_event d) \<in> set (nd_rules db) \<times> set (td_state_events telemetry)"
    using r(1) page_event [OF r(3)] by simp
  then have "source_of (di_channelId d) (di_event d) \<in>
      (\<lambda>(r, e). source_of (ru_channel_id r) e) ` (set (nd_rules db) \<times> set (td_state_events telemetry))"
    unfolding r(2) by (rule rev_image_eqI) simp
  then show ?thesis
    using r(4) by (simp add: addressed_within_def delivery_addressed_def run_identities_def)
qed

section \<open>A run\<close>

text \<open>
  The database in which a run finds its cursor: a run that reads a cursor never set before finds, when
  it sets it, what others have done meanwhile.
\<close>

definition discovery_base :: "(notification_db \<Rightarrow> notification_db) \<Rightarrow> notification_db \<Rightarrow> notification_db" where
  "discovery_base before_init control =
     (case loadCursor control of
        Inr cursor \<Rightarrow> if nc_updated_at cursor = 0 then before_init control else control
      | Inl _ \<Rightarrow> control)"

text \<open>The primary key of the cursor table.\<close>

definition wf_cursors :: "notification_db \<Rightarrow> bool" where
  "wf_cursors db \<longleftrightarrow> keyed nc_singleton (nd_cursors db)"

definition bootstrapped :: "discovery_result result \<Rightarrow> bool" where
  "bootstrapped res = (case res of Inl _ \<Rightarrow> False | Inr r \<Rightarrow> ds_bootstrapped r)"

lemma loadCursor_Inr: "loadCursor db = Inr c \<longleftrightarrow> row_of nc_singleton 1 (nd_cursors db) = Some c"
  by (simp add: loadCursor_def throw_def split: option.splits)

text \<open>The three ways of a run: it sets the cursor, it finds none, or it goes through a page.\<close>

lemma discovery_cases:
  assumes "loadCursor control = Inr cursor"
    and "discoverNotificationEvents pf b m control telemetry now = ((control', telemetry'), res)"
  obtains c where "nc_updated_at cursor = 0" "c \<in> set (nd_cursors (discovery_base b control))"
      "nc_singleton c = 1" "nc_updated_at c = 0"
      "control' = fst (initialize_cursor (newestSequence telemetry) now (discovery_base b control))"
      "telemetry' = cleanConsumedEvents (newestSequence telemetry) telemetry"
      "res = Inr \<lparr>ds_scanned = 0, ds_enqueued = 0, ds_bootstrapped = True\<rparr>"
    | e where "control' = discovery_base b control" "telemetry' = telemetry" "res = Inl e"
    | cursor1 where "loadCursor (discovery_base b control) = Inr cursor1" "nc_updated_at cursor1 \<noteq> 0"
      "discover_after pf m (discovery_base b control) telemetry cursor1 now = ((control', telemetry'), res)"
proof (cases "nc_updated_at cursor = 0")
  case False
  then show ?thesis using that(3) [of cursor] assms by (simp add: discoverNotificationEvents_def discovery_base_def)
next
  case True
  then have base: "discovery_base b control = b control" using assms(1) by (simp add: discovery_base_def)
  let ?fresh = "\<lambda>c. nc_singleton c = 1 \<and> nc_updated_at c = 0"
  show ?thesis
  proof (cases "find ?fresh (nd_cursors (b control))")
    case (Some c)
    then have "c \<in> set (nd_cursors (b control)) \<and> ?fresh c" by (auto simp: find_Some_iff)
    then show ?thesis
      using that(1) [of c] assms True base Some
      by (auto simp: discoverNotificationEvents_def initialize_cursor_def Let_def)
  next
    case None
    then have none: "\<not> ?fresh c" if "c \<in> set (nd_cursors (b control))" for c
      using that by (auto simp: find_None_iff)
    then have same: "initialize_cursor (newestSequence telemetry) now (b control) = (b control, None)"
      using None update_where_none [of "nd_cursors (b control)" ?fresh] by (simp add: initialize_cursor_def Let_def)
    show ?thesis
    proof (cases "loadCursor (b control)")
      case (Inl e)
      then show ?thesis using that(2) [of e] assms True base same by (simp add: discoverNotificationEvents_def)
    next
      case (Inr cursor1)
      then have "nc_updated_at cursor1 \<noteq> 0"
        using none row_of_SomeD [of nc_singleton 1 "nd_cursors (b control)" cursor1] by (auto simp: loadCursor_Inr)
      then show ?thesis using that(3) [of cursor1] assms True base same Inr by (simp add: discoverNotificationEvents_def)
    qed
  qed
qed

lemma newest_covers: "q \<in> set (td_queue db) \<Longrightarrow> qe_sequence q \<le> newestSequence db"
proof -
  assume q: "q \<in> set (td_queue db)"
  let ?first = "select_limit (\<lambda>q. True) (\<lambda>q. - qe_sequence q) 1 (td_queue db)"
  have "length ?first = 1" using q by (cases "td_queue db") (simp_all add: select_limit_def)
  then obtain x where x: "?first = [x]" by (metis One_nat_def length_0_conv length_Suc_conv)
  then have "qe_sequence q \<le> qe_sequence x"
    using select_limit_oldest [of x "\<lambda>q. True" "\<lambda>q. - qe_sequence q" 1 "td_queue db" q] q by fastforce
  then show ?thesis using x by (simp add: newestSequence_def)
qed

lemma clean_keeps:
  assumes "wf_telemetry db" "q \<in> set (td_queue db)" "n < qe_sequence q"
  shows "q \<in> set (td_queue (cleanConsumedEvents n db))"
  using assms set_select_limit [of "\<lambda>q. qe_sequence q \<le> n" qe_sequence EVENT_LIMIT "td_queue db"]
  by (auto simp: cleanConsumedEvents_def delete_limit_fst wf_telemetry_def)

lemma clean_removes:
  assumes "wf_telemetry db" "q \<in> set (td_queue db)" "q \<notin> set (td_queue (cleanConsumedEvents n db))"
  shows "qe_sequence q \<le> n"
  using clean_keeps assms by (meson not_le)

text \<open>A page that a run gets through has a delivery for each of its events and rules.\<close>

lemma page_notified:
  assumes "discover_after pf m control telemetry cursor now = ((control', telemetry'), Inr r)"
    and "wf_telemetry telemetry" "wf_resources control"
    and "list_all (delivery_addressed pf) (nd_deliveries (m control))"
    and "inj_on (digestId pf) (run_identities telemetry control (m control))"
    and "q \<in> set (td_queue telemetry)" "e \<in> set (td_state_events telemetry)" "queue_joins q e"
    and "last_sequence cursor < qe_sequence q" "ev_type e = 1 \<or> ev_type e = 2"
    and "rule_for control e rule"
  shows "if loadEvents telemetry cursor \<noteq> [] \<and>
      qe_sequence q \<le> se_sequence (last (loadEvents telemetry cursor))
    then has_key delivery_source (source_of (ru_channel_id rule) e) (nd_deliveries control')
    else q \<in> set (td_queue telemetry')"
proof -
  let ?page = "loadEvents telemetry cursor"
  let ?events = "map se_event ?page"
  let ?res = "resolveResources control ?events"
  let ?row = "\<lparr>se_sequence = qe_sequence q, se_event = e\<rparr>"
  let ?S = "run_identities telemetry control (m control)"
  note run = assms(1) and keep = clean_keeps [OF assms(2,6)]
  have row: "?row \<in> set (queued_rows telemetry)"
    using assms(6-8) by (auto simp: queued_rows_iff)
  show ?thesis
  proof (cases "?page = []")
    case True
    then show ?thesis using run keep assms(9) by (auto simp: discover_after_def)
  next
    case False
    obtain rules where rules: "loadRules control ?res ?events = Inr rules"
      using run False by (cases "loadRules control ?res ?events") (auto simp: discover_after_def Let_def)
    let ?ds = "prepareDeliveries pf ?events ?res rules"
    obtain c1 u where persisted: "persistDeliveries pf (m control) ?ds now = (c1, Inr u)"
      using run False rules
      by (cases "persistDeliveries pf (m control) ?ds now"; cases "snd (persistDeliveries pf (m control) ?ds now)")
        (auto simp: discover_after_def Let_def)
    have result: "control' = updateCursor (se_sequence (last ?page)) now c1"
        "telemetry' = cleanConsumedEvents (se_sequence (last ?page)) telemetry"
      using run False rules persisted by (auto simp: discover_after_def Let_def)
    show ?thesis
    proof (cases "qe_sequence q \<le> se_sequence (last ?page)")
      case False
      then show ?thesis using keep result(2) by simp
    next
      case True
      then have "?row \<in> set ?page"
        using page_complete [OF assms(2) row] \<open>?page \<noteq> []\<close> assms(9) by simp
      then have "e \<in> set ?events" by force
      then obtain d where d: "d \<in> set ?ds" "di_channelId d = ru_channel_id rule" "di_event d = e"
        using prepared_for_rule [OF assms(3) rules _ assms(10,11)] by blast
      have addressed: "list_all (addressed_within pf ?S) (map (inserted_delivery pf now) ?ds)"
        using inserted_within [OF rules] by (simp add: list_all_iff)
      let ?batches = "chunks INSERT_BATCH (map (inserted_delivery pf now) ?ds)"
      have batches: "\<Union> (set ` set ?batches) = set (map (inserted_delivery pf now) ?ds)"
        by (rule set_chunks) (simp add: INSERT_BATCH_def)
      then obtain batch where "batch \<in> set ?batches" "inserted_delivery pf now d \<in> set batch"
        using d(1) by auto
      moreover have "list_all (addressed_within pf ?S) x" if "x \<in> set ?batches" for x
        using addressed batches that unfolding list_all_iff by blast
      moreover have "list_all (addressed_within pf ?S) (nd_deliveries (m control))"
        using assms(4) by (auto simp: list_all_iff addressed_within_def run_identities_def)
      ultimately have "has_key delivery_source (delivery_source (inserted_delivery pf now d)) (nd_deliveries c1)"
        using persist_covers [OF assms(5) persisted [unfolded persistDeliveries_def]] by blast
      then show ?thesis using d True \<open>?page \<noteq> []\<close> result(1) by (simp add: updateCursor_def)
    qed
  qed
qed

text \<open>
  C17. Every event is notified, except those that the first run of an installation skips. When a run
  returns and has not set the cursor, each event queued behind the cursor either lies on the page that
  the run consumed, and then each enabled rule with an enabled channel for the event's live resource and
  dimension has its delivery in the outbox, or it is still queued. That holds also of a run that found
  the cursor unset and lost the race to set it. What others do in between, the ignored duplicate inserts
  and the batches of rules and rows change nothing in that. A run sets the cursor only when it has read
  one that no run had set; it then adds no delivery, and the cursor that it leaves covers every entry of
  the queue: these are the events from before notifications, which are not notified. The digest need
  only be free of collisions on the identities of the deliveries and rules that the run meets.
\<close>

theorem discovery_notifies_every_event:
  assumes "loadCursor control = Inr cursor"
    and "discoverNotificationEvents pf b m control telemetry now = ((control', telemetry'), Inr r)"
    and "base = discovery_base b control"
    and "wf_telemetry telemetry" "wf_resources base" "wf_cursors base"
    and "list_all (delivery_addressed pf) (nd_deliveries (m base))"
    and "inj_on (digestId pf) (run_identities telemetry base (m base))"
    and "q \<in> set (td_queue telemetry)" "e \<in> set (td_state_events telemetry)" "queue_joins q e"
    and "ev_type e = 1 \<or> ev_type e = 2" "rule_for base e rule"
  shows "if ds_bootstrapped r
    then nc_updated_at cursor = 0 \<and> nd_deliveries control' = nd_deliveries base \<and>
      (\<exists>cursor'. loadCursor control' = Inr cursor' \<and> nc_updated_at cursor' = now \<and>
        (\<forall>x \<in> set (td_queue telemetry). qe_sequence x \<le> last_sequence cursor'))
    else \<exists>cursor1. loadCursor base = Inr cursor1 \<and> nc_updated_at cursor1 \<noteq> 0 \<and>
      (nc_updated_at cursor \<noteq> 0 \<longrightarrow> cursor1 = cursor) \<and>
      (last_sequence cursor1 < qe_sequence q \<longrightarrow>
        (if loadEvents telemetry cursor1 \<noteq> [] \<and>
            qe_sequence q \<le> se_sequence (last (loadEvents telemetry cursor1))
         then has_key delivery_source (source_of (ru_channel_id rule) e) (nd_deliveries control')
         else q \<in> set (td_queue telemetry')))"
  using discovery_cases [OF assms(1,2)]
proof cases
  case (1 c)
  let ?n = "newestSequence telemetry"
  have "loadCursor control' = Inr (c\<lparr>last_sequence := ?n, nc_updated_at := now\<rparr>)"
    using 1(2-5) row_of_keyed [of nc_singleton "nd_cursors base" c] assms(3,6)
    by (simp add: loadCursor_Inr initialize_cursor_def row_of_update_where wf_cursors_def Let_def)
  then show ?thesis using 1 newest_covers assms(3) by (simp add: initialize_cursor_def Let_def)
next
  case (3 cursor1)
  note after = 3(3) [folded assms(3)]
  have "\<not> ds_bootstrapped r"
    using after by (auto simp: discover_after_def Let_def split: if_splits sum.splits prod.splits)
  moreover have "nc_updated_at cursor \<noteq> 0 \<longrightarrow> cursor1 = cursor"
    using 3(1) assms(1) by (auto simp: discovery_base_def)
  ultimately show ?thesis
    using 3(1,2) page_notified [OF after assms(4,5,7-11) _ assms(12,13)] assms(3)
    by (intro iffD2 [OF if_not_P]) (auto simp del: split_paired_Ex)
qed simp

text \<open>What a run over a page leaves.\<close>

lemma moved_forward:
  "list_all2 (\<lambda>c c'. last_sequence c \<le> last_sequence c') cs
    (update_where (\<lambda>c. nc_singleton c = 1 \<and> last_sequence c \<le> n) (\<lambda>c. c\<lparr>last_sequence := n, nc_updated_at := now\<rparr>) cs)"
  by (induction cs) auto

lemma updated_covers: "loadCursor (updateCursor n now db) = Inr c \<Longrightarrow> n \<le> last_sequence c"
proof -
  assume "loadCursor (updateCursor n now db) = Inr c"
  then obtain c0 where c0: "row_of nc_singleton 1 (nd_cursors db) = Some c0"
    and c: "c = (if nc_singleton c0 = 1 \<and> last_sequence c0 \<le> n
      then c0\<lparr>last_sequence := n, nc_updated_at := now\<rparr> else c0)"
    by (auto simp: loadCursor_Inr updateCursor_def row_of_update_where)
  show ?thesis using row_of_SomeD [OF c0] unfolding c by simp
qed

lemma page_once:
  assumes "discover_after pf m base telemetry cursor now = ((control', telemetry'), res)"
    and "loadCursor base = Inr cursor"
    and "wf_telemetry telemetry" "wf_deliveries (nd_deliveries base)" "wf_deliveries (nd_deliveries (m base))"
  shows "\<exists>found. (found = base \<or> found = m base) \<and>
    wf_deliveries (nd_deliveries control') \<and>
    (\<exists>new. nd_deliveries control' = nd_deliveries found @ new \<and> list_all untouched new) \<and>
    list_all2 (\<lambda>c c'. last_sequence c \<le> last_sequence c') (nd_cursors found) (nd_cursors control') \<and>
    (isl res \<longrightarrow> nd_cursors control' = nd_cursors found \<and> telemetry' = telemetry) \<and>
    (\<forall>q \<in> set (td_queue telemetry). q \<notin> set (td_queue telemetry') \<longrightarrow> \<not> isl res \<and>
      (\<forall>cursor'. loadCursor control' = Inr cursor' \<longrightarrow> qe_sequence q \<le> last_sequence cursor') \<and>
      (qe_sequence q \<le> last_sequence cursor \<or>
        loadEvents telemetry cursor \<noteq> [] \<and> qe_sequence q \<le> se_sequence (last (loadEvents telemetry cursor))))"
proof -
  let ?page = "loadEvents telemetry cursor"
  let ?events = "map se_event ?page"
  let ?res = "resolveResources base ?events"
  note run = assms(1) and removed = clean_removes [OF assms(3)]
  have same: "list_all2 (\<lambda>c c'. last_sequence c \<le> last_sequence c') cs cs" for cs
    by (simp add: list_all2_refl)
  show ?thesis
  proof (cases "?page = []")
    case True
    then have "control' = base" "telemetry' = cleanConsumedEvents (last_sequence cursor) telemetry" "\<not> isl res"
      using run by (auto simp: discover_after_def)
    then show ?thesis using assms(2,4) same removed by (intro exI [of _ base]) auto
  next
    case False
    note page = False
    show ?thesis
    proof (cases "loadRules base ?res ?events")
      case (Inl e)
      then have "control' = base" "telemetry' = telemetry"
        using run page by (auto simp: discover_after_def Let_def)
      then show ?thesis using assms(4) same by (intro exI [of _ base]) auto
    next
      case (Inr rules)
      let ?ds = "prepareDeliveries pf ?events ?res rules"
      obtain c1 r where p: "persistDeliveries pf (m base) ?ds now = (c1, r)" by (cases "persistDeliveries pf (m base) ?ds now")
      obtain new where new: "c1 = (m base)\<lparr>nd_deliveries := nd_deliveries (m base) @ new\<rparr>"
          "set new \<subseteq> \<Union> (set ` set (chunks INSERT_BATCH (map (inserted_delivery pf now) ?ds)))"
          "wf_deliveries (nd_deliveries c1)"
        using persist_grows [OF p [unfolded persistDeliveries_def]] assms(5) by blast
      have "set new \<subseteq> set (map (inserted_delivery pf now) ?ds)"
        using new(2) set_chunks [of INSERT_BATCH "map (inserted_delivery pf now) ?ds"] by (simp add: INSERT_BATCH_def)
      then have untouched: "list_all untouched new" by (auto simp: list_all_iff)
      show ?thesis
      proof (cases r)
        case (Inl e)
        then have "control' = c1" "telemetry' = telemetry"
          using run page Inr p by (auto simp: discover_after_def Let_def)
        then show ?thesis using new(1,3) untouched same by (intro exI [of _ "m base"]) auto
      next
        case (Inr u)
        let ?n = "se_sequence (last ?page)"
        have result: "control' = updateCursor ?n now c1" "\<not> isl res" "telemetry' = cleanConsumedEvents ?n telemetry"
          using run page \<open>loadRules base ?res ?events = Inr rules\<close> p Inr by (auto simp: discover_after_def Let_def)
        have covered: "qe_sequence q \<le> last_sequence c"
          if "q \<in> set (td_queue telemetry)" "q \<notin> set (td_queue telemetry')" "loadCursor control' = Inr c" for q c
          using removed [OF that(1)] that(2,3) result(1,3) updated_covers order_trans by blast
        show ?thesis
          using new(1,3) untouched moved_forward result removed page covered
          by (intro exI [of _ "m base"]) (auto simp: updateCursor_def)
      qed
    qed
  qed
qed

text \<open>
  C18. Discovery is idempotent and its cursor only moves forward. A run, whether it sets the cursor,
  returns or throws, only adds untouched deliveries to the table it found, and keeps the id and the pair
  of channel and event unique. No cursor that some run has set moves back. A run that sets the cursor
  adds no delivery and writes only a cursor never set before, in what others have left; a run that
  throws leaves the cursor and the queue as they were, so that the next run repeats it. An entry leaves
  the queue only when the cursor that is stored afterwards covers it, and, but for the entries that the
  first run skips, only when the cursor that the run read or the page that it consumed covers it.
\<close>

theorem discovery_exactly_once:
  assumes "loadCursor control = Inr cursor"
    and "discoverNotificationEvents pf b m control telemetry now = ((control', telemetry'), res)"
    and "base = discovery_base b control"
    and "wf_telemetry telemetry" "wf_cursors base" "wf_deliveries (nd_deliveries base)"
    and "wf_deliveries (nd_deliveries (m base))"
  shows "\<exists>found. (found = base \<or> found = m base) \<and>
    wf_deliveries (nd_deliveries control') \<and>
    (\<exists>new. nd_deliveries control' = nd_deliveries found @ new \<and> list_all untouched new \<and>
      (bootstrapped res \<longrightarrow> new = [])) \<and>
    (if bootstrapped res
     then found = base \<and> nc_updated_at cursor = 0 \<and>
       nd_cursors control' = map (\<lambda>c. if nc_updated_at c = 0 \<and> nc_singleton c = 1
         then c\<lparr>last_sequence := newestSequence telemetry, nc_updated_at := now\<rparr> else c) (nd_cursors base)
     else list_all2 (\<lambda>c c'. last_sequence c \<le> last_sequence c') (nd_cursors found) (nd_cursors control')) \<and>
    (isl res \<longrightarrow> nd_cursors control' = nd_cursors found \<and> telemetry' = telemetry) \<and>
    (\<forall>q \<in> set (td_queue telemetry). q \<notin> set (td_queue telemetry') \<longrightarrow> \<not> isl res \<and>
      (\<forall>cursor'. loadCursor control' = Inr cursor' \<longrightarrow> qe_sequence q \<le> last_sequence cursor') \<and>
      (bootstrapped res \<or> (\<exists>cursor1. loadCursor base = Inr cursor1 \<and>
        (qe_sequence q \<le> last_sequence cursor1 \<or> loadEvents telemetry cursor1 \<noteq> [] \<and>
          qe_sequence q \<le> se_sequence (last (loadEvents telemetry cursor1))))))"
  using discovery_cases [OF assms(1,2)]
proof cases
  case (1 c)
  let ?n = "newestSequence telemetry"
  have cursors: "nd_cursors control' = map (\<lambda>c. if nc_updated_at c = 0 \<and> nc_singleton c = 1
      then c\<lparr>last_sequence := ?n, nc_updated_at := now\<rparr> else c) (nd_cursors base)"
    using 1(5) assms(3) by (simp add: initialize_cursor_def update_where_def Let_def conj_commute)
  have stored: "loadCursor control' = Inr (c\<lparr>last_sequence := ?n, nc_updated_at := now\<rparr>)"
    using 1(2-5) row_of_keyed [of nc_singleton "nd_cursors base" c] assms(3,5)
    by (simp add: loadCursor_Inr initialize_cursor_def row_of_update_where wf_cursors_def Let_def)
  have "nd_deliveries control' = nd_deliveries base"
    using 1(5) assms(3) by (simp add: initialize_cursor_def Let_def)
  then show ?thesis
    using 1(1,6,7) cursors stored assms(6) newest_covers [of _ telemetry]
    by (intro exI [of _ base]) (auto simp: bootstrapped_def)
next
  case (2 e)
  then show ?thesis
    using assms(3,6) by (intro exI [of _ base]) (simp add: bootstrapped_def list_all2_refl)
next
  case (3 cursor1)
  note after = 3(3) [folded assms(3)]
  have "\<not> bootstrapped res"
    using after by (auto simp: bootstrapped_def discover_after_def Let_def split: if_splits sum.splits prod.splits)
  with page_once [OF after _ assms(4,6,7)] 3(1) assms(3) show ?thesis by simp
qed

definition sample_notify_db :: notification_db where
  "sample_notify_db = sample_outbox_db
     \<lparr>nd_workspaces := [\<lparr>nw_id = ''w'', nw_pk = 1, nw_name = ''W'', nw_deleted_at = None\<rparr>],
      nd_machines := [\<lparr>rs_pk = 7, rs_id = ''m'', rs_name = ''M'', rs_workspace_id = ''w'', rs_deleted_at = None\<rparr>],
      nd_channels := [\<lparr>ch_id = ''c'', ch_workspace_id = ''w'', ch_provider = Slack, ch_config_ciphertext = [],
        ch_config_nonce = [], ch_wrapping_key_id = ''v1'', ch_enabled = 1\<rparr>],
      nd_rules := [\<lparr>ru_workspace_id = ''w'', ru_type = Machine_resource, ru_resource_id = ''m'',
        ru_dimension = Availability, ru_channel_id = ''c'', ru_enabled = 1\<rparr>],
      nd_cursors := [\<lparr>nc_singleton = 1, last_sequence = 4, nc_updated_at = 5\<rparr>]\<rparr>"

definition sample_event :: state_event where
  "sample_event = \<lparr>ev_workspace = 1, ev_type = 1, ev_resource_pk = 7, ev_occurred_at = 6, ev_id = [171],
     ev_previous = Healthy, ev_current = Offline, ev_reason = ''report_timeout''\<rparr>"

definition sample_queued :: queued_event where
  "sample_queued = \<lparr>qe_sequence = 5, qe_workspace = 1, qe_type = 1, qe_resource_pk = 7,
     qe_occurred_at = 6, qe_id = [171]\<rparr>"

definition sample_telemetry :: telemetry_db where
  "sample_telemetry = empty_db\<lparr>td_state_events := [sample_event], td_queue := [sample_queued], td_queue_high := 5\<rparr>"

lemma returned_run: "\<not> isl (snd x) \<Longrightarrow> \<exists>c t r. x = ((c, t), Inr r)"
  by (cases x; cases "fst x"; cases "snd x") auto

text \<open>A digest of 32 bytes, and an outbox in which another run has put a delivery meanwhile.\<close>

definition digest_platform :: platform where
  "digest_platform = sample_platform\<lparr>sha256 := (\<lambda>b. take 32 (rev b @ replicate 32 0))\<rparr>"

definition earlier_delivery :: delivery where
  "earlier_delivery = sample_delivery
     \<lparr>dl_id := digestId digest_platform (identity_text (delivery_source sample_delivery))\<rparr>"

definition other_run :: "notification_db \<Rightarrow> notification_db" where
  "other_run db = db\<lparr>nd_deliveries := [earlier_delivery]\<rparr>"

definition unset_notify_db :: notification_db where
  "unset_notify_db = sample_notify_db\<lparr>nd_cursors := [\<lparr>nc_singleton = 1, last_sequence = 0, nc_updated_at = 0\<rparr>]\<rparr>"

text \<open>Another first run wins the race for the cursor.\<close>

definition race_lost :: "notification_db \<Rightarrow> notification_db" where
  "race_lost db = db\<lparr>nd_cursors := [\<lparr>nc_singleton = 1, last_sequence = 4, nc_updated_at = 5\<rparr>]\<rparr>"

lemma race_base: "discovery_base race_lost unset_notify_db = sample_notify_db"
  by code_simp

lemma sample_notify_wf:
  "wf_telemetry sample_telemetry" "wf_resources sample_notify_db" "wf_cursors sample_notify_db"
  "wf_cursors unset_notify_db" "wf_deliveries (nd_deliveries sample_notify_db)"
  "wf_deliveries (nd_deliveries unset_notify_db)" "wf_deliveries (nd_deliveries (other_run db))"
  by (simp_all add: wf_telemetry_def sample_telemetry_def wf_resources_def wf_cursors_def sample_notify_db_def
      unset_notify_db_def sample_outbox_db_def wf_deliveries_def other_run_def sample_queued_def sample_event_def)

theorem discovery_notifies_every_event_witness:
  "has_key delivery_source (''c'', 1, 1, 7, 6, ''AB'')
     (nd_deliveries (fst (fst (discoverNotificationEvents digest_platform race_lost other_run unset_notify_db
       sample_telemetry 9))))"
proof -
  let ?run = "discoverNotificationEvents digest_platform race_lost other_run unset_notify_db sample_telemetry 9"
  let ?rule = "hd (nd_rules sample_notify_db)"
  let ?cursor = "\<lparr>nc_singleton = 1, last_sequence = 4, nc_updated_at = 5\<rparr>"
  have "\<not> isl (snd ?run)" by code_simp
  then obtain c t r where run: "?run = ((c, t), Inr r)"
    using returned_run by blast
  have "\<not> bootstrapped (snd ?run)" by code_simp
  then have boot: "\<not> ds_bootstrapped r" unfolding run by (simp add: bootstrapped_def)
  have cursor: "loadCursor unset_notify_db = Inr \<lparr>nc_singleton = 1, last_sequence = 0, nc_updated_at = 0\<rparr>"
    by code_simp
  have cursor1: "loadCursor sample_notify_db = Inr ?cursor" by code_simp
  have page: "loadEvents sample_telemetry ?cursor = [\<lparr>se_sequence = 5, se_event = sample_event\<rparr>]" by code_simp
  have rule: "rule_for sample_notify_db sample_event ?rule"
    unfolding rule_for_def names_resource_def
    by (intro conjI exI [of _ "hd (nd_machines sample_notify_db)"] exI [of _ "hd (nd_workspaces sample_notify_db)"])
      code_simp+
  have addressed: "list_all (delivery_addressed digest_platform) (nd_deliveries (other_run sample_notify_db))"
    by code_simp
  have inj: "inj_on (digestId digest_platform)
      (run_identities sample_telemetry sample_notify_db (other_run sample_notify_db))"
    by code_simp
  have source: "source_of (ru_channel_id ?rule) sample_event = (''c'', 1, 1, 7, 6, ''AB'')" by code_simp
  have queued: "sample_queued \<in> set (td_queue sample_telemetry)" "sample_event \<in> set (td_state_events sample_telemetry)"
      "queue_joins sample_queued sample_event" "ev_type sample_event = 1 \<or> ev_type sample_event = 2"
      "qe_sequence sample_queued = 5"
    by (simp_all add: sample_telemetry_def queue_joins_def event_key_def sample_queued_def sample_event_def)
  show ?thesis
    using discovery_notifies_every_event [OF cursor run race_base [symmetric] sample_notify_wf(1-3) addressed inj
        queued(1-4) rule] boot cursor1 queued(5)
    unfolding run by (simp add: page source)
qed

theorem discovery_exactly_once_witness:
  "(\<exists>found new. (found = sample_notify_db \<or> found = other_run sample_notify_db) \<and>
      nd_deliveries (fst (fst (discoverNotificationEvents digest_platform race_lost other_run
        unset_notify_db sample_telemetry 9))) = nd_deliveries found @ new \<and> list_all untouched new) \<and>
   nd_cursors (fst (fst (discoverNotificationEvents digest_platform (\<lambda>db. db) other_run
        unset_notify_db sample_telemetry 9))) = [\<lparr>nc_singleton = 1, last_sequence = 5, nc_updated_at = 9\<rparr>]"
proof (intro conjI)
  let ?race = "discoverNotificationEvents digest_platform race_lost other_run unset_notify_db sample_telemetry 9"
  let ?boot = "discoverNotificationEvents digest_platform (\<lambda>db. db) other_run unset_notify_db sample_telemetry 9"
  have cursor: "loadCursor unset_notify_db = Inr \<lparr>nc_singleton = 1, last_sequence = 0, nc_updated_at = 0\<rparr>"
    by code_simp
  obtain c t r where race: "?race = ((c, t), r)" by (metis surj_pair)
  show "\<exists>found new. (found = sample_notify_db \<or> found = other_run sample_notify_db) \<and>
      nd_deliveries (fst (fst ?race)) = nd_deliveries found @ new \<and> list_all untouched new"
    using discovery_exactly_once [OF cursor race race_base [symmetric] sample_notify_wf(1,3,5,7)]
    unfolding race by auto
  obtain c t r where boot: "?boot = ((c, t), r)" by (metis surj_pair)
  have base: "unset_notify_db = discovery_base (\<lambda>db. db) unset_notify_db" by code_simp
  have "bootstrapped (snd ?boot)" by code_simp
  then have "bootstrapped r" unfolding boot by simp
  moreover have "newestSequence sample_telemetry = 5" by code_simp
  ultimately show "nd_cursors (fst (fst ?boot)) = [\<lparr>nc_singleton = 1, last_sequence = 5, nc_updated_at = 9\<rparr>]"
    using discovery_exactly_once [OF cursor boot base sample_notify_wf(1,4,6,7)]
    unfolding boot by (simp add: unset_notify_db_def)
qed

end
