(* ===== verification/Provider_Correctness.thy ===== *)
theory Provider_Correctness
  imports Notification_Providers
begin

text \<open>
  Where a notification may go, and the round trip of a channel's configuration.
\<close>

section \<open>The target of a request\<close>

lemma httpsUrl_InrD:
  assumes "httpsUrl wb nw s allowed = Inr u"
  shows "URL_parse wb s = Some u \<and> u_protocol u = ''https:'' \<and> u_username u = [] \<and> u_password u = [] \<and>
    (case allowed of None \<Rightarrow> True | Some p \<Rightarrow> p (toLowerCase (u_hostname u)) (URL_pathname nw u))"
  using assms by (auto simp: httpsUrl_def raise_error_def split: option.splits if_splits)

definition safe_url :: "web \<Rightarrow> url \<Rightarrow> bool" where
  "safe_url wb u \<longleftrightarrow> (\<exists>s. URL_parse wb s = Some u) \<and> u_protocol u = ''https:'' \<and>
     u_username u = [] \<and> u_password u = []"

definition target_ok ::
  "web \<Rightarrow> notify_web \<Rightarrow> notification_provider \<Rightarrow> request_target \<Rightarrow> bool" where
  "target_ok wb nw provider t \<longleftrightarrow>
     (case provider of
        Resend \<Rightarrow> tg_url t = ''https://api.resend.com/emails''
      | Telegram \<Rightarrow> (\<exists>token. bot_token_ok token \<and>
          tg_url t = ''https://api.telegram.org/bot'' @ token @ ''/sendMessage'')
      | Discord \<Rightarrow> (\<exists>u. safe_url wb u \<and> tg_url t = u_href u \<and>
          toLowerCase (u_hostname u) \<in> {''discord.com'', ''discordapp.com''} \<and>
          startsWith (URL_pathname nw u) ''/api/webhooks/'')
      | Slack \<Rightarrow> (\<exists>u. safe_url wb u \<and> tg_url t = u_href u \<and>
          toLowerCase (u_hostname u) = ''hooks.slack.com'' \<and> startsWith (URL_pathname nw u) ''/services/'')
      | Smtp \<Rightarrow> (\<exists>u. safe_url wb u \<and> tg_url t = u_href u)
      | Bark \<Rightarrow> (\<exists>u path. safe_url wb u \<and> tg_url t = u_href (URL_set_pathname nw u path)))"

lemma target_cases:
  assumes "provider_request pf wb nw provider config content = Inr t"
  shows "target_ok wb nw provider t \<and> tg_method t = ''POST'' \<and>
    (\<forall>n \<in> fst ` set (tg_headers t). n = ''content-type'' \<or>
      n = ''authorization'' \<and> (provider = Resend \<or> provider = Smtp))"
proof (cases provider)
  case Resend
  then show ?thesis
    using assms by (auto simp: target_ok_def jsonRequest_def spread_props_def elim!: bind_result_InrE)
next
  case Smtp
  then show ?thesis
    using assms
    by (auto simp: target_ok_def jsonRequest_def spread_props_def safe_url_def elim!: bind_result_InrE
        dest!: httpsUrl_InrD split: option.splits if_splits)
next
  case Discord
  then show ?thesis
    using assms
    by (auto simp: target_ok_def jsonRequest_def spread_props_def safe_url_def discord_host_def
        elim!: bind_result_InrE dest!: httpsUrl_InrD)
next
  case Telegram
  then show ?thesis
    using assms
    by (auto simp: target_ok_def jsonRequest_def spread_props_def elim!: bind_result_InrE)
next
  case Slack
  then show ?thesis
    using assms
    by (auto simp: target_ok_def jsonRequest_def spread_props_def safe_url_def slack_host_def
        elim!: bind_result_InrE dest!: httpsUrl_InrD)
next
  case Bark
  then obtain address u deviceKey group_name where u:
      "httpsUrl wb nw (case address of None \<Rightarrow> ''https://api.day.app'' | Some a \<Rightarrow> a) None = Inr u"
      "tg_url t = u_href (URL_set_pathname nw u
        (drop_trailing_slash (URL_pathname nw u) @ ''/'' @ encodeURIComponent deviceKey))"
      "tg_method t = ''POST''" "tg_headers t = [(''content-type'', ''application/json'')]"
    using assms by (auto simp: jsonRequest_def spread_props_def elim!: bind_result_InrE)
  then have "safe_url wb u" using httpsUrl_InrD [OF u(1)] by (auto simp: safe_url_def)
  then show ?thesis using Bark u by (auto simp: target_ok_def)
qed

text \<open>
  C19. A notification goes where its provider says: \<open>sendNotification\<close> depends on the network only through
  the answer to one \<open>POST\<close> request that follows no redirect and is given ten seconds, and only when the
  configuration is accepted; that request goes to the
  provider's own host for Resend, Telegram, Discord and Slack, otherwise to a parsed \<open>https\<close> URL without
  credentials, and only the Resend and relay requests carry an authorization header. A rejected
  configuration is reported as a final failure.
\<close>

theorem notification_targets:
  "(\<exists>cause. buildRequest pf wb nw provider config payload = Inl cause \<and>
      (\<forall>fetcher. let r = sendNotification pf wb nw fetcher provider config payload
        in \<not> dr_ok r \<and> \<not> retryable r \<and> dr_status r = None)) \<or>
   (\<exists>t. target_ok wb nw provider t \<and> tg_method t = ''POST'' \<and>
      (\<forall>n \<in> fst ` set (tg_headers t). n = ''content-type'' \<or>
        n = ''authorization'' \<and> (provider = Resend \<or> provider = Smtp)) \<and>
      (\<exists>call. request_target.truncate call = t \<and> fq_redirect call = ''manual'' \<and> fq_timeout call = 10000 \<and>
       (\<forall>f g. f call = g call \<longrightarrow> sendNotification pf wb nw f provider config payload =
        sendNotification pf wb nw g provider config payload) \<and>
       (\<forall>f status. f call = Inr status \<longrightarrow>
        (let r = sendNotification pf wb nw f provider config payload
         in (dr_ok r \<longleftrightarrow> 200 \<le> status \<and> status \<le> 299) \<and>
            (retryable r \<longleftrightarrow> status \<in> {408, 429} \<or> status \<ge> 500)))))"
proof (cases "buildRequest pf wb nw provider config payload")
  case (Inl cause)
  then show ?thesis by (simp add: sendNotification_def)
next
  case (Inr t)
  then obtain content where "provider_request pf wb nw provider config content = Inr t"
    by (auto simp: buildRequest_def elim: bind_result_InrE)
  note ok = target_cases [OF this]
  have sent: "\<forall>f status. f (fetch_request_of t) = Inr status \<longrightarrow>
      (let r = sendNotification pf wb nw f provider config payload
       in (dr_ok r \<longleftrightarrow> 200 \<le> status \<and> status \<le> 299) \<and>
          (retryable r \<longleftrightarrow> status \<in> {408, 429} \<or> status \<ge> 500))"
    using Inr by (auto simp: sendNotification_def resultForResponse_def response_ok_def Let_def)
  have call: "request_target.truncate (fetch_request_of t) = t" "fq_redirect (fetch_request_of t) = ''manual''"
      "fq_timeout (fetch_request_of t) = 10000"
    by (simp_all add: fetch_request_of_def request_target.defs REQUEST_TIMEOUT_MS_def)
  have only: "\<forall>f g. f (fetch_request_of t) = g (fetch_request_of t) \<longrightarrow>
      sendNotification pf wb nw f provider config payload = sendNotification pf wb nw g provider config payload"
    using Inr by (simp add: sendNotification_def)
  have sending: "\<exists>call. request_target.truncate call = t \<and> fq_redirect call = ''manual'' \<and> fq_timeout call = 10000 \<and>
      (\<forall>f g. f call = g call \<longrightarrow> sendNotification pf wb nw f provider config payload =
        sendNotification pf wb nw g provider config payload) \<and>
      (\<forall>f status. f call = Inr status \<longrightarrow>
        (let r = sendNotification pf wb nw f provider config payload
         in (dr_ok r \<longleftrightarrow> 200 \<le> status \<and> status \<le> 299) \<and>
            (retryable r \<longleftrightarrow> status \<in> {408, 429} \<or> status \<ge> 500)))"
    using call only sent by (intro exI [of _ "fetch_request_of t"] conjI)
  show ?thesis
    by (rule disjI2, rule exI [of _ t], intro conjI ok [THEN conjunct1] ok [THEN conjunct2, THEN conjunct1]
      ok [THEN conjunct2, THEN conjunct2] sending)
qed

definition sample_notify :: notify_web where
  "sample_notify = \<lparr>URL_pathname = (\<lambda>_. ''/''), URL_set_pathname = (\<lambda>u p. u), Date_value = (\<lambda>_. Some (- 62167219200000)),
     engine_message = ''TypeError''\<rparr>"

definition sample_channel :: channel_config where
  "sample_channel = [(''from'', JStr ''a''), (''recipients'', JArr [JStr ''@'']), (''apiKey'', JStr ''k'')]"

definition sample_payload :: json where
  "sample_payload = JObj [(''occurredAt'', JNull)]"

theorem notification_targets_witness:
  "\<exists>t. target_ok sample_web sample_notify Resend t \<and>
     dr_ok (sendNotification sample_platform sample_web sample_notify (\<lambda>_. Inr 200) Resend sample_channel
       sample_payload)"
proof -
  have fields: "requiredString sample_channel ''from'' = Inr ''a''" "requiredString sample_channel ''apiKey'' = Inr ''k''"
    "optionalString sample_channel ''replyTo'' = Inr None" "recipients sample_web sample_channel = Inr [''@'']"
    by code_simp+
  have "\<not> isl (notification_message sample_web sample_notify sample_payload)" by code_simp
  then obtain content where "notification_message sample_web sample_notify sample_payload = Inr content"
    by (cases "notification_message sample_web sample_notify sample_payload") auto
  then have "\<not> isl (buildRequest sample_platform sample_web sample_notify Resend sample_channel sample_payload)"
    by (simp add: buildRequest_def email_body_def fields)
  note accepted = this
  from notification_targets [of sample_platform sample_web sample_notify Resend sample_channel sample_payload]
  show ?thesis
  proof (elim disjE exE conjE)
    fix cause
    assume "buildRequest sample_platform sample_web sample_notify Resend sample_channel sample_payload = Inl cause"
    then show ?thesis using accepted by simp
  next
    fix t call
    assume t: "target_ok sample_web sample_notify Resend t" and
      r: "\<forall>f status. f call = Inr status \<longrightarrow>
        (let r = sendNotification sample_platform sample_web sample_notify f Resend sample_channel sample_payload
         in (dr_ok r \<longleftrightarrow> 200 \<le> status \<and> status \<le> 299) \<and>
            (retryable r \<longleftrightarrow> status \<in> {408, 429} \<or> status \<ge> 500))"
    have "dr_ok (sendNotification sample_platform sample_web sample_notify (\<lambda>_. Inr 200) Resend sample_channel
        sample_payload)"
      using r [rule_format, of "\<lambda>_. Inr 200" 200, OF refl] by (simp add: Let_def)
    with t show ?thesis by blast
  qed
qed

section \<open>The envelope\<close>

text \<open>
  A channel configuration that was wrapped is read back: when AES-GCM decrypts what it encrypted
  under the same key, nonce and associated data and adds a tag of sixteen bytes, and the JSON text is
  read back and is well-formed UTF-8 without a byte order mark, \<open>unwrapNotificationConfig\<close> with the same
  key, workspace and channel returns the configuration that \<open>wrapNotificationConfig\<close> took.
\<close>

theorem notification_config_roundtrip:
  assumes "wrapNotificationConfig pf gcm nonce config keyHex workspace channel = Inr w"
    and "\<And>key aad bytes. gcm_decrypt gcm key nonce aad (gcm_encrypt gcm key nonce aad bytes) = Some bytes"
    and "\<And>key aad bytes. length (gcm_encrypt gcm key nonce aad bytes) = length bytes + 16"
    and "length nonce = 12"
    and "JSON_parse pf (JSON_stringify pf (JObj config)) = Some (JObj config)"
    and "utf8_valid (text_encode (JSON_stringify pf (JObj config)))"
    and "take 3 (text_encode (JSON_stringify pf (JObj config))) \<noteq> [239, 187, 191]"
  shows "unwrapNotificationConfig pf nw gcm w keyHex workspace channel = Inr config"
proof -
  let ?text = "text_encode (JSON_stringify pf (JObj config))"
  obtain aad key where e: "additionalData workspace channel = Inr aad" "decodeKey keyHex = Inr key"
    "w = \<lparr>wc_ciphertext = gcm_encrypt gcm key nonce aad ?text, wc_nonce = nonce\<rparr>"
    "length ?text \<le> MAX_CONFIG_BYTES"
    using assms(1) by (auto simp: wrapNotificationConfig_def Let_def elim!: bind_result_InrE)
  have "TextDecoder_decode ?text = JSON_stringify pf (JObj config)"
    using assms(6,7) by (simp add: TextDecoder_decode_def strip_bom_def utf8_lossy_valid)
  then show ?thesis
    using assms(2-5) e by (simp add: unwrapNotificationConfig_def)
qed

definition sample_config_platform :: platform where
  "sample_config_platform = sample_platform
     \<lparr>JSON_parse := (\<lambda>s. if s = ''{}'' then Some (JObj []) else None), JSON_stringify := (\<lambda>_. ''{}'')\<rparr>"

theorem notification_config_roundtrip_witness:
  "\<exists>w. wrapNotificationConfig sample_config_platform sample_gcm (replicate 12 7) [] (replicate 64 CHR ''a'')
       ''w'' ''c'' = Inr w \<and>
     unwrapNotificationConfig sample_config_platform sample_notify sample_gcm w (replicate 64 CHR ''a'') ''w'' ''c'' =
       Inr []"
proof -
  let ?wrap = "wrapNotificationConfig sample_config_platform sample_gcm (replicate 12 7) []
    (replicate 64 CHR ''a'') ''w'' ''c''"
  have "\<not> isl ?wrap" by code_simp
  then obtain w where w: "?wrap = Inr w" by (cases ?wrap) auto
  have "unwrapNotificationConfig sample_config_platform sample_notify sample_gcm w (replicate 64 CHR ''a'')
      ''w'' ''c'' = Inr []"
    by (rule notification_config_roundtrip [OF w])
      (simp_all add: sample_gcm_def sample_config_platform_def text_encode_def)
  with w show ?thesis by blast
qed

end
