(* ===== verification/Spec2Isabelle.thy ===== *)
theory Spec2Isabelle
  imports Installation Public_Projection Incident_Correctness History_Cursor Management_Correctness Hub_Correctness Retention_Correctness Discovery_Correctness Provider_Correctness
begin

text \<open>
  AlphaPing: a verification of its TypeScript workers, packages and access control.

  \<^bold>\<open>The program.\<close> AlphaPing monitors machines and services. Agents on the machines (Rust) report
  samples; the checks worker runs HTTP and TCP checks on a schedule and watches the liveness of machines;
  the notifications worker turns state events into deliveries of a channel; the live worker relays encrypted
  frames of agents to viewers; the retention worker deletes what is too old or was deleted by a user; the web
  application administers workspaces, members and resources. They share two SQL databases, the control
  database (configuration, users, jobs, outbox) and the telemetry database (samples, results, events), and
  coordinate only through guarded statements on them: leases, claims with a token, compare-and-set updates,
  upserts and batches.

  \<^bold>\<open>Conventions.\<close> A table is the list of its rows, in the order that a query without \<open>ORDER BY\<close> would see; a
  statement is one of the relational functions of \<open>Prelude\<close> applied to the predicate, the key and the
  assignment of its SQL text; a batch is the sequence of its statements in one transaction. What other workers
  write while code waits is an argument of the function, or a step of an inductive relation whose steps are the
  atomic parts of the code. A text is the list of its UTF-8 bytes; \<open>js_length\<close> counts UTF-16 units. Timestamps
  and counters are integers (the program keeps them below 2^53), numbers of JSON are rationals, bytes are
  integers below 256 and bit operations are those of the source. An exception is the left value of a sum type,
  with the message of the source. \<open>Date.now()\<close>, random identifiers and random bytes are arguments. Parameters
  stand for what is not in the repository: SHA-256, HMAC, AES-GCM, JSON text, URL parsing, number printing, the
  inflater, the network, the object store, and the packages ipaddr.js, re2js and jsonpath-plus; theorems that
  rely on a law of one of them (decryption inverts encryption, parsing inverts printing) state it as a
  hypothesis, and their witness gives an instance.

  \<^bold>\<open>Theories.\<close>

  \<^item> \<open>Prelude\<close>, \<open>Json\<close>, \<open>Web\<close>, \<open>Base64\<close>: relational operations and their laws (collection \<open>sql\<close>), JSON values, strings,
    UTF-8, URLs and headers, base64.
  \<^item> \<open>Authz\<close> (\<open>packages/authz\<close>): the three decision functions; the locale \<open>capability_policy\<close> is their contract.
  \<^item> \<open>Membership\<close>, \<open>Management_Db\<close>, \<open>Access_Query\<close> (\<open>monitoring-access.ts\<close>, \<open>resource-access-query.ts\<close>): the tables of
    the management pages with their keys and triggers, the access of a user, and the proof that the conditions
    in SQL agree with the decision functions, also when the access was read before the statement runs.
  \<^item> \<open>Workspace_Admin\<close>, \<open>Workspace_Access\<close>, \<open>Workspace_Invitations\<close>, \<open>Workspace_Lifecycle\<close>,
    \<open>Workspace_Correctness\<close>, \<open>Management_Correctness\<close> (\<open>workspace-admin.ts\<close>, \<open>workspace-access.ts\<close>,
    \<open>workspace-invitations.ts\<close>, \<open>workspace-lifecycle.ts\<close>): each page reads, decides on a plan (a function of the
    database it read) and commits a batch of guarded statements on the database as it is then. The locale
    \<open>batch_relation\<close> lifts what one statement keeps to batches; \<open>manage_step\<close> interleaves the pages of any number of
    users, each with a stale read of its own.
  \<^item> \<open>Incident_Management\<close>, \<open>Incident_Center\<close>, \<open>Incident_Correctness\<close> (\<open>incident-management.ts\<close>, \<open>incidents.ts\<close>,
    \<open>incident-updates.ts\<close>, \<open>d1-query-batches.ts\<close>): incidents, their timeline and the page that shows them; the pages as
    a state machine \<open>incident_step\<close>. \<open>History_Cursor\<close> (\<open>history-cursor.ts\<close>): the cursors of the history pages.
  \<^item> \<open>Installation\<close> (\<open>setup.ts\<close>): the first start, with a stale read and a concurrent second start.
  \<^item> \<open>Site_Appearance\<close> (\<open>contracts/src/site-appearance.ts\<close>), \<open>Public_Projection\<close> (\<open>public-status-projection.ts\<close>, the
    parser of inventories in \<open>machines.ts\<close>): what the public pages show of the settings, machines and services;
    \<open>bucket_of\<close> is the loop invariant of the timeline.
  \<^item> \<open>Telemetry_Blocks\<close>, \<open>Telemetry_Db\<close>, \<open>Control_Db\<close> (\<open>contracts/src/telemetry.ts\<close>, \<open>telemetry-blocks.ts\<close>,
    \<open>check-results.ts\<close>): five-minute blocks with slots; the locale \<open>slot_store\<close> holds for both writers.
  \<^item> \<open>Check_Config\<close>, \<open>Check_Executor\<close>, \<open>Executor_Correctness\<close> (\<open>workers/checks\<close>: validation, secrets, assertions,
    executor): parsing a check, the redirect loop, assertions, retries; where requests and secrets may go.
  \<^item> \<open>Check_Persistence\<close>, \<open>Check_Correctness\<close> (\<open>persistence.ts\<close>): confirmation windows, rollups, the state of a
    service, and the whole batch of a result; idempotence, monotonicity, agreement of SQL and TypeScript.
  \<^item> \<open>State_Sync\<close>, \<open>Machine_Liveness\<close>, \<open>Lease\<close>, \<open>Scheduling\<close>, \<open>Scheduling_Correctness\<close>: synchronisation jobs, liveness,
    the lease protocol (locale \<open>lease_table\<close>, interpreted on three tables), slots, claims and the scheduled run.
    \<open>Check_Claims\<close> (\<open>workers/checks/src/index.ts\<close>): loading, claiming, persisting and giving back the slots of
    checks as the state machine \<open>claim_step\<close>, with a log of what was granted.
  \<^item> \<open>Notification_Db\<close>, \<open>Discovery\<close>, \<open>Outbox\<close>, \<open>Notification_Providers\<close> and their \<open>_Correctness\<close> theories
    (\<open>workers/notifications\<close>): cursor and queue with the first run that only sets the cursor, outbox as a step
    relation with any number of workers, requests of the six providers. The digest of discovery is assumed free
    of collisions on the finite set \<open>run_identities\<close> of the texts that a run meets, nowhere else.
  \<^item> \<open>Retention\<close>, \<open>Soft_Delete\<close>, \<open>Retention_Run\<close> and their \<open>_Correctness\<close> theories (\<open>workers/retention\<close>): bounded
    deletion passes, the purge of soft-deleted resources over many runs, the scheduled run.
  \<^item> \<open>Protobuf\<close>, \<open>Live_Ticket\<close>, \<open>Live_Frame\<close>, \<open>Live_Hub\<close> and their \<open>_Correctness\<close> theories (\<open>packages/contracts\<close>,
    \<open>workers/live\<close>): wire formats, signed tickets, frames, and the hub as a state machine
    whose steps interleave connections, frames, ends of decryptions, closed sockets and hibernation. A message on
    the wire is a list of fields of any of the four wire types; \<open>message_sample\<close> is its meaning, \<open>encode_message\<close>
    the proto3 encoder, which leaves out zeros, and \<open>seal_live_snapshot\<close> the frame of the agent
    (\<open>crates/agent/src/live/frame.rs\<close>).

  \<^bold>\<open>Termination.\<close> Loops over lists are structural recursion; the redirect loop and the retry loop recurse on the
  number of redirects and attempts left, which the source bounds by constants; scanners of bytes recurse on the
  rest of the input. No fuel is used beyond these bounds, and functions are total.

  \<^bold>\<open>Simplifications.\<close> Log output is left out. The handler of a live frame is split at its decryption and nowhere
  else. Deliveries and checks of one batch, which the source starts together, run in order. Rows with equal
  \<open>ORDER BY\<close> keys are taken in the order of the table. Foreign keys and cascades are modelled as far as the tables
  are. \<open>persistCheckResult\<close> and \<open>applyServiceStateSyncJob\<close> read and write one telemetry database, so that what others
  write between their reads and their batch is not interleaved; \<open>reconcileMachineLiveness\<close> has one such point,
  between the reads and the first write. In \<open>outbox_step\<close> nobody else deletes deliveries. A query of
  \<open>initializeInstallation\<close> never fails, so that its \<open>catch\<close> around the second lookup is not met. A cut of a text that would
  split a surrogate pair drops the pair.

  \<^bold>\<open>Not modelled.\<close> The Rust agent, but for the sealing of live samples, and the Rust ingest service, the Svelte
  interface and routes, the documentation site and the scripts are outside the subject. Of the web server, the
  pages that edit service configurations, resources, settings and notification channels are left out: they repeat
  the plan-and-commit structure of the modelled pages on more tables. The queries that only assemble read models
  for pages (dashboard, machine and service histories, public status) change no state and are left out, as are the
  report on the environment, the routing of host names and the storage of the appearance. Sign-in is the package
  better-auth.
\<close>

end
